(* ===== verification/Prelude.thy ===== *)
theory Prelude
  imports Main "HOL-Library.Word" "HOL-Library.Sublist"
begin

text \<open>
  Generic vocabulary of the development: the named collections the component theories
  extend, and facts about lists, maps, options, graphs and 64-bit integers that several
  components use. Nothing here models code.
\<close>

named_theorems step_defs \<open>definitions unfolded when one step of a component is executed\<close>
named_theorems frame \<open>fields that an operation leaves unchanged\<close>
named_theorems preserve \<open>operations that preserve a component invariant\<close>

type_synonym int64 = "64 word"
type_synonym time = int \<comment> \<open>a Go \<open>time.Time\<close>, as nanoseconds on one monotonic axis\<close>

subsection \<open>Lists\<close>

lemma distinct_snocI: "distinct xs \<Longrightarrow> x \<notin> set xs \<Longrightarrow> distinct (xs @ [x])"
  by simp

lemma sorted_snocI:
  fixes x :: "'a::linorder"
  shows "sorted xs \<Longrightarrow> (\<And>y. y \<in> set xs \<Longrightarrow> y \<le> x) \<Longrightarrow> sorted (xs @ [x])"
  by (simp add: sorted_append)

lemma filter_distinct_subset_length:
  assumes "set xs \<subseteq> set ys" and "distinct xs"
  shows "length xs \<le> length ys"
  by (metis assms card_length card_mono distinct_card finite_set le_trans)

lemma length_filter_remove:
  "distinct xs \<Longrightarrow> x \<in> set xs \<Longrightarrow> P x \<Longrightarrow>
   length (filter (\<lambda>y. P y \<and> y \<noteq> x) xs) = length (filter P xs) - 1"
proof (induction xs)
  case Nil
  then show ?case by simp
next
  case (Cons a xs)
  show ?case
  proof (cases "a = x")
    case True
    with Cons.prems have "x \<notin> set xs" by simp
    then have "filter (\<lambda>y. P y \<and> y \<noteq> x) xs = filter P xs"
      by (intro filter_cong) auto
    with True Cons.prems show ?thesis by simp
  next
    case False
    with Cons.prems have x: "x \<in> set xs" by simp
    then have "0 < length (filter P xs)"
      using Cons.prems by (metis filter_empty_conv length_greater_0_conv)
    with False Cons x show ?thesis by (cases "P a") auto
  qed
qed

lemma find_SomeD: "find P xs = Some x \<Longrightarrow> x \<in> set xs \<and> P x"
  by (induction xs) (auto split: if_splits)

lemma find_NoneD: "find P xs = None \<Longrightarrow> x \<in> set xs \<Longrightarrow> \<not> P x"
  by (simp add: find_None_iff)

text \<open>The elements of a list in order of first appearance.\<close>

definition nub :: "'a list \<Rightarrow> 'a list" where
  "nub xs = foldl (\<lambda>acc x. if x \<in> set acc then acc else acc @ [x]) [] xs"

lemma nub_Nil [simp]: "nub [] = []"
  by (simp add: nub_def)

lemma nub_snoc [simp]: "nub (xs @ [x]) = (if x \<in> set (nub xs) then nub xs else nub xs @ [x])"
  by (simp add: nub_def)

lemma set_nub [simp]: "set (nub xs) = set xs"
  by (induction xs rule: rev_induct) auto

lemma distinct_nub [simp]: "distinct (nub xs)"
  by (induction xs rule: rev_induct) auto

lemma length_nub_le: "length (nub xs) \<le> length xs"
  by (induction xs rule: rev_induct) auto

subsection \<open>Partial functions\<close>

lemma map_of_map_pair: "map_of (map (\<lambda>x. (f x, x)) xs) k = Some v \<Longrightarrow> f v = k \<and> v \<in> set xs"
  by (induction xs) (auto split: if_splits)

lemma dom_map_of_pair: "dom (map_of (map (\<lambda>x. (f x, x)) xs)) = f ` set xs"
  by (simp add: dom_map_of_conv_image_fst image_image)

subsection \<open>Acyclic relations\<close>

text \<open>
  Adding a fresh source to an acyclic relation keeps it acyclic: the new edges leave a
  point no edge enters.
\<close>

lemma acyclic_add_source:
  assumes acyc: "acyclic r" and fresh: "\<And>a. (a, u) \<notin> r" and irr: "u \<notin> S"
  shows "acyclic (r \<union> {u} \<times> S)"
proof -
  let ?r = "r \<union> {u} \<times> S"
  have into: "(a, u) \<notin> ?r" for a
    using fresh irr by auto
  have "(a, b) \<in> ?r\<^sup>+ \<Longrightarrow> a \<noteq> u \<Longrightarrow> (a, b) \<in> r\<^sup>+" for a b
  proof (induction rule: trancl_induct)
    case (base b)
    then show ?case by auto
  next
    case (step b c)
    have "b \<noteq> u"
      using step.hyps(1) into by (metis tranclE)
    with step show ?case by (auto intro: trancl_into_trancl)
  qed
  moreover have "(a, u) \<notin> ?r\<^sup>+" for a
    using into by (metis tranclE)
  ultimately show ?thesis
    using acyc by (metis acyclic_def)
qed

lemma acyclic_path_distinct:
  assumes acyc: "acyclic r"
    and path: "\<And>i. Suc i < length xs \<Longrightarrow> (xs ! i, xs ! Suc i) \<in> r"
  shows "distinct xs"
proof -
  have reach: "i < j \<Longrightarrow> j < length xs \<Longrightarrow> (xs ! i, xs ! j) \<in> r\<^sup>+" for i j
  proof (induction j)
    case 0
    then show ?case by simp
  next
    case (Suc j)
    have e: "(xs ! j, xs ! Suc j) \<in> r"
      using path Suc.prems by simp
    show ?case
    proof (cases "i = j")
      case True
      with e show ?thesis by auto
    next
      case False
      with Suc have "(xs ! i, xs ! j) \<in> r\<^sup>+" by simp
      with e show ?thesis by (simp add: trancl_into_trancl)
    qed
  qed
  show ?thesis
  proof (unfold distinct_conv_nth, intro allI impI)
    fix i j
    assume "i < length xs" "j < length xs" "i \<noteq> j"
    then show "xs ! i \<noteq> xs ! j"
      using reach [of i j] reach [of j i] acyc
      by (metis acyclic_def linorder_neqE_nat)
  qed
qed

subsection \<open>Go durations: signed 64-bit nanoseconds\<close>

definition int64_of :: "int \<Rightarrow> int64" where
  "int64_of n = word_of_int n"

lemma sint_int64_of:
  "- (2 ^ 63) \<le> n \<Longrightarrow> n < 2 ^ 63 \<Longrightarrow> sint (int64_of n) = n"
  unfolding int64_of_def by (simp add: sint_sbintrunc' signed_take_bit_int_eq_self)

end
