(* ===== verification/Models.thy ===== *)
theory Models
  imports Go_Strings Complex_Main
begin

text \<open>
  The data of the program: the domain models of \<open>internal/store/models.go\<close> and the
  normalized provider types of \<open>internal/providers/provider.go\<close> and \<open>steps.go\<close>. A Go
  struct is a record with one field per struct field (the prefix keeps field names
  apart); \<open>map[string]string\<close> is a partial function, or an association list with
  distinct keys where the code ranges over it, the list order standing for the iteration
  order the runtime happened to choose. A Go \<open>int\<close> that can be negative is an \<open>int\<close>.
\<close>

subsection \<open>Floating point values\<close>

text \<open>
  A \<open>float64\<close> as its exact value or one of the special values. Rounding is not modelled:
  the program only parses, compares with zero and copies costs. \<open>ParseFloat\<close> reads signed
  decimals with an optional fraction and the special names; \<open>None\<close> is the syntax error.
  (Exponents, hexadecimal floats and digit separators are outside the model.)
\<close>

datatype float64 = Finite rat | PosInf | NegInf | NaN

definition parse_fraction :: "string \<Rightarrow> rat option" where
  "parse_fraction s =
     (case SplitN2 s CHR ''.'' of
        [i] \<Rightarrow> map_option of_nat (parse_nat i)
      | [i, f] \<Rightarrow>
          (if i = [] \<and> f = [] then None
           else (case (parse_digits 0 i, parse_digits 0 f) of
               (Some a, Some b) \<Rightarrow> Some (of_nat a + of_nat b / 10 ^ length f)
             | _ \<Rightarrow> None))
      | _ \<Rightarrow> None)"

definition ParseFloat :: "string \<Rightarrow> float64 option" where
  "ParseFloat s =
     (let neg = HasPrefix s ''-'';
          t = (if neg \<or> HasPrefix s ''+'' then drop 1 s else s);
          l = ToLower t
      in if l = ''inf'' \<or> l = ''infinity'' then Some (if neg then NegInf else PosInf)
         else if ToLower s = ''nan'' then Some NaN
         else map_option (\<lambda>q. Finite (if neg then - q else q)) (parse_fraction t))"

text \<open>The IEEE comparison \<open>v <= 0\<close>: false for NaN.\<close>

fun float_le_zero :: "float64 \<Rightarrow> bool" where
  "float_le_zero (Finite q) = (q \<le> 0)"
| "float_le_zero PosInf = False"
| "float_le_zero NegInf = True"
| "float_le_zero NaN = False"

subsection \<open>Errors of the storage layer\<close>

datatype store_error = ErrNotFound | StoreFailure string

subsection \<open>Accounts and credentials\<close>

record User =
  u_ID :: string
  u_Name :: string
  u_Role :: string
  u_Disabled :: bool
  u_CreatedAt :: string

record UserQuota =
  uq_UserID :: string
  uq_Requests :: int
  uq_Period :: string
  uq_WindowHours :: int
  uq_TzOffset :: int
  uq_UpdatedAt :: string

record APIKey =
  k_ID :: string
  k_UserID :: string
  k_Name :: string
  k_Prefix :: string
  k_Hash :: string
  k_Scopes :: string
  k_ChainID :: string
  k_Permissions :: string
  k_LastUsedAt :: string
  k_ExpiresAt :: string
  k_RevokedAt :: string
  k_CreatedAt :: string

record Session =
  s_ID :: string
  s_UserID :: string
  s_TokenHash :: string
  s_CreatedAt :: string
  s_ExpiresAt :: string
  s_IP :: string
  s_UA :: string

subsection \<open>Provider instances and proxies\<close>

record Provider =
  p_ID :: string
  p_Code :: string
  p_Name :: string
  p_Enabled :: bool
  p_BaseURL :: string
  p_ProxyID :: string
  p_Credentials :: "(string \<times> string) list"
  p_Params :: "string \<rightharpoonup> string"
  p_UpdatedAt :: string

text \<open>\<open>(*Provider).CostPerRequest\<close>; a nil instance costs nothing.\<close>

definition CostPerRequest :: "Provider option \<Rightarrow> float64" where
  "CostPerRequest po =
     (case po of None \<Rightarrow> Finite 0
      | Some p \<Rightarrow>
          (let raw = TrimSpace (case p_Params p ''cost_per_request'' of None \<Rightarrow> [] | Some v \<Rightarrow> v)
           in if raw = [] then Finite 0
              else (case ParseFloat raw of
                  None \<Rightarrow> Finite 0
                | Some v \<Rightarrow> if float_le_zero v then Finite 0 else v)))"

record Proxy =
  px_ID :: string
  px_Name :: string
  px_Enabled :: bool
  px_Type :: string
  px_Host :: string
  px_Port :: string
  px_Username :: string
  px_Password :: string
  px_CreatedAt :: string
  px_UpdatedAt :: string

subsection \<open>Chains\<close>

abbreviation ChainModeFirstSuccess :: string where
  "ChainModeFirstSuccess \<equiv> ''first_success''"

abbreviation ChainModeFullChain :: string where
  "ChainModeFullChain \<equiv> ''full_chain''"

abbreviation NodeModeSearch :: string where
  "NodeModeSearch \<equiv> ''search''"

abbreviation NodeModeAnswer :: string where
  "NodeModeAnswer \<equiv> ''answer''"

abbreviation NodeKindProvider :: string where
  "NodeKindProvider \<equiv> ''provider''"

abbreviation NodeKindStart :: string where
  "NodeKindStart \<equiv> ''start''"

abbreviation NodeKindJoin :: string where
  "NodeKindJoin \<equiv> ''join''"

record ChainNode =
  n_ID :: string
  n_ChainID :: string
  n_Key :: string
  n_Kind :: string
  n_ProviderID :: string
  n_Label :: string
  n_Mode :: string
  n_Params :: "string \<rightharpoonup> string"
  n_TimeoutMS :: int
  n_Retries :: int
  n_RetryDelayMS :: int
  n_DelayPolicy :: string
  n_OnSuccess :: string
  n_OnEmpty :: string
  n_OnFail :: string
  n_IsStart :: bool

record ChainEdge =
  e_ID :: string
  e_ChainID :: string
  e_FromKey :: string
  e_ToKey :: string
  e_Condition :: string

record Chain =
  c_ID :: string
  c_Name :: string
  c_Active :: bool
  c_Mode :: string
  c_Version :: int
  c_Nodes :: "ChainNode list"
  c_Edges :: "ChainEdge list"
  c_CreatedAt :: string
  c_UpdatedAt :: string

definition IsLogical :: "ChainNode \<Rightarrow> bool" where
  "IsLogical n \<longleftrightarrow> n_Kind n = NodeKindStart \<or> n_Kind n = NodeKindJoin"

text \<open>A node with Go's zero values, the base of the concrete examples.\<close>

definition zero_node :: ChainNode where
  "zero_node = \<lparr>n_ID = [], n_ChainID = [], n_Key = [], n_Kind = [], n_ProviderID = [],
     n_Label = [], n_Mode = [], n_Params = Map.empty, n_TimeoutMS = 0, n_Retries = 0,
     n_RetryDelayMS = 0, n_DelayPolicy = [], n_OnSuccess = [], n_OnEmpty = [], n_OnFail = [],
     n_IsStart = False\<rparr>"

definition mk_edge :: "string \<Rightarrow> string \<Rightarrow> string \<Rightarrow> ChainEdge" where
  "mk_edge a b cond = \<lparr>e_ID = [], e_ChainID = [], e_FromKey = a, e_ToKey = b, e_Condition = cond\<rparr>"

definition mk_chain :: "string \<Rightarrow> ChainNode list \<Rightarrow> ChainEdge list \<Rightarrow> Chain" where
  "mk_chain mode ns es = \<lparr>c_ID = ''c'', c_Name = ''chain'', c_Active = True, c_Mode = mode,
     c_Version = 1, c_Nodes = ns, c_Edges = es, c_CreatedAt = [], c_UpdatedAt = []\<rparr>"

subsection \<open>Search results\<close>

record Row =
  row_Link :: string
  row_Title :: string
  row_Snippet :: string
  row_Sources :: "string list"

record Result =
  r_OK :: bool
  r_Rows :: "Row list"
  r_Kind :: string
  r_Error :: string
  r_Permanent :: bool
  r_HTTPStatus :: int
  r_Engine :: string
  r_Provider :: string
  r_RawStatus :: string
  r_RetryAfterMS :: int
  r_QuotaRemaining :: int
  r_QuotaMax :: int
  r_HasQuota :: bool
  r_Answer :: string

definition zero_result :: Result where
  "zero_result = \<lparr>r_OK = False, r_Rows = [], r_Kind = [], r_Error = [], r_Permanent = False,
     r_HTTPStatus = 0, r_Engine = [], r_Provider = [], r_RawStatus = [], r_RetryAfterMS = 0,
     r_QuotaRemaining = 0, r_QuotaMax = 0, r_HasQuota = False, r_Answer = []\<rparr>"

text \<open>
  A Go error as far as the program inspects it: whether \<open>errors.Is\<close> finds
  \<open>context.DeadlineExceeded\<close>, whether it is a \<open>net.Error\<close> whose \<open>Timeout()\<close> holds, and
  its text.
\<close>

record go_error =
  err_DeadlineExceeded :: bool
  err_NetTimeout :: bool
  err_Message :: string

record StageCall =
  sc_Stage :: string
  sc_HTTPStatus :: int
  sc_TookMS :: int
  sc_Err :: "go_error option"

subsection \<open>Requests and their steps\<close>

record MergeStats =
  ms_CollectedTotal :: nat
  ms_UniqueLinks :: nat
  ms_DuplicatesRemoved :: nat

record RequestResult =
  rr_Link :: string
  rr_Title :: string
  rr_Snippet :: string
  rr_Sources :: "string list"

record RequestStep =
  st_RequestID :: string
  st_Idx :: nat
  st_NodeKey :: string
  st_Provider :: string
  st_Engine :: string
  st_AttemptNo :: nat
  st_Stage :: string
  st_Status :: string
  st_Kind :: string
  st_HTTPStatus :: int
  st_Error :: string
  st_Permanent :: bool
  st_ResultsCount :: nat
  st_WaitBeforeMS :: int
  st_TookMS :: int
  st_Cost :: float64
  st_StartedAt :: time
  st_FinishedAt :: time

record Request =
  rq_ID :: string
  rq_RID :: string
  rq_Query :: string
  rq_Count :: int
  rq_Status :: string
  rq_UsedProvider :: string
  rq_ResultsCount :: nat
  rq_TotalMS :: int
  rq_StepsCount :: int
  rq_ChainID :: string
  rq_ChainSnapshot :: "Chain option"
  rq_UserID :: string
  rq_Client :: string
  rq_Error :: string
  rq_Answer :: string
  rq_CreatedAt :: time
  rq_Merge :: "MergeStats option"
  rq_Results :: "RequestResult list"

subsection \<open>Facts\<close>

lemma mk_edge_simps [simp]:
  "e_FromKey (mk_edge a b c) = a" "e_ToKey (mk_edge a b c) = b" "e_Condition (mk_edge a b c) = c"
  by (simp_all add: mk_edge_def)

lemma mk_chain_simps [simp]:
  "c_Nodes (mk_chain m ns es) = ns" "c_Edges (mk_chain m ns es) = es" "c_Mode (mk_chain m ns es) = m"
  by (simp_all add: mk_chain_def)

lemma CostPerRequest_nil [simp]: "CostPerRequest None = Finite 0"
  by (simp add: CostPerRequest_def)

lemma CostPerRequest_no_negative:
  "CostPerRequest p = Finite q \<Longrightarrow> 0 \<le> q"
  by (auto simp: CostPerRequest_def Let_def split: option.splits if_splits)

lemma CostPerRequest_not_NegInf: "CostPerRequest p \<noteq> NegInf"
  by (auto simp: CostPerRequest_def Let_def split: option.splits if_splits)

end
