(* ===== verification/Plan.thy ===== *)
theory Plan
  imports Models
begin

text \<open>
  \<open>internal/engine/plan.go\<close>: the indexed view of a chain graph and the choice of the next
  block. A \<open>*store.ChainNode\<close> that may be nil is an option.
\<close>

datatype plan_error = EmptyChain | ErrNoStartNode

record Plan =
  pl_chain :: Chain
  pl_nodes :: "string \<rightharpoonup> ChainNode"
  pl_out :: "string \<Rightarrow> ChainEdge list"
  pl_order :: "string list"
  pl_start :: ChainNode

subsection \<open>Block kinds\<close>

definition Kind :: "ChainNode option \<Rightarrow> string" where
  "Kind no =
     (case no of None \<Rightarrow> []
      | Some n \<Rightarrow>
          (let k = ToLower (TrimSpace (n_Kind n))
           in if k = NodeKindStart then NodeKindStart
              else if k = NodeKindJoin then NodeKindJoin
              else NodeKindProvider))"

abbreviation is_provider :: "ChainNode \<Rightarrow> bool" where
  "is_provider n \<equiv> Kind (Some n) = NodeKindProvider"

subsection \<open>Building the plan\<close>

definition index_nodes :: "ChainNode list \<Rightarrow> string \<rightharpoonup> ChainNode" where
  "index_nodes ns = foldl (\<lambda>m n. m(n_Key n \<mapsto> n)) Map.empty ns"

definition index_edges :: "ChainEdge list \<Rightarrow> string \<Rightarrow> ChainEdge list" where
  "index_edges es = foldl (\<lambda>m e. m(e_FromKey e := m (e_FromKey e) @ [e])) (\<lambda>_. []) es"

definition start_block :: "(string \<rightharpoonup> ChainNode) \<Rightarrow> string \<Rightarrow> bool" where
  "start_block nodes k \<longleftrightarrow> Kind (nodes k) = NodeKindStart"

definition legacy_start :: "(string \<rightharpoonup> ChainNode) \<Rightarrow> string \<Rightarrow> bool" where
  "legacy_start nodes k \<longleftrightarrow> (case nodes k of None \<Rightarrow> False | Some n \<Rightarrow> n_IsStart n)"

definition BuildPlan :: "Chain option \<Rightarrow> plan_error + Plan" where
  "BuildPlan co =
     (case co of None \<Rightarrow> Inl EmptyChain
      | Some c \<Rightarrow>
          if c_Nodes c = [] then Inl EmptyChain
          else
            (let nodes = index_nodes (c_Nodes c);
                 ord = map n_Key (c_Nodes c);
                 pick = (case find (start_block nodes) ord of
                     Some k \<Rightarrow> Some k
                   | None \<Rightarrow> find (legacy_start nodes) ord)
             in case Option.bind pick nodes of
                  None \<Rightarrow> Inl ErrNoStartNode
                | Some n \<Rightarrow> Inr \<lparr>pl_chain = c, pl_nodes = nodes, pl_out = index_edges (c_Edges c),
                               pl_order = ord, pl_start = n\<rparr>))"

definition HasStartBlock :: "Plan \<Rightarrow> bool" where
  "HasStartBlock p \<longleftrightarrow> (\<exists>k \<in> set (pl_order p). start_block (pl_nodes p) k)"

definition PlanMode :: "Plan \<Rightarrow> string" where
  "PlanMode p = (if c_Mode (pl_chain p) = ChainModeFullChain then ChainModeFullChain
                 else ChainModeFirstSuccess)"

definition Snapshot :: "Plan \<Rightarrow> Chain" where
  "Snapshot p = (pl_chain p)\<lparr>c_Mode := PlanMode p\<rparr>"

subsection \<open>Choosing the next block\<close>

definition defaultPolicy :: "string \<Rightarrow> string \<Rightarrow> string" where
  "defaultPolicy v fallback = (let v' = ToLower (TrimSpace v) in if v' = [] then fallback else v')"

definition policyFor :: "ChainNode \<Rightarrow> string \<Rightarrow> string" where
  "policyFor n outcome =
     (if outcome = ''success'' then defaultPolicy (n_OnSuccess n) ''stop''
      else if outcome = ''empty'' then defaultPolicy (n_OnEmpty n) ''next''
      else defaultPolicy (n_OnFail n) ''next'')"

definition neutral :: "string \<Rightarrow> bool" where
  "neutral cond \<longleftrightarrow> cond = ''next'' \<or> cond = ''any'' \<or> cond = []"

definition edgeMatches :: "string \<Rightarrow> string \<Rightarrow> bool" where
  "edgeMatches cond outcome \<longleftrightarrow> (if neutral cond then True else cond = outcome)"

definition Next :: "Plan \<Rightarrow> ChainNode option \<Rightarrow> string \<Rightarrow> ChainNode option" where
  "Next p no outcome =
     (case no of None \<Rightarrow> None
      | Some n \<Rightarrow>
          (let policy = policyFor n outcome;
               es = pl_out p (n_Key n)
           in if policy = ''stop'' then None
              else if es = [] then None
              else if policy = ''edge'' then
                (case find (\<lambda>e. edgeMatches (e_Condition e) outcome) es of
                   Some e \<Rightarrow> pl_nodes p (e_ToKey e)
                 | None \<Rightarrow> None)
              else
                (case find (\<lambda>e. e_Condition e = outcome) es of
                   Some e \<Rightarrow> pl_nodes p (e_ToKey e)
                 | None \<Rightarrow>
                     (case find (\<lambda>e. neutral (e_Condition e)) es of
                        Some e \<Rightarrow> pl_nodes p (e_ToKey e)
                      | None \<Rightarrow> pl_nodes p (e_ToKey (hd es))))))"

definition NextInFullChain :: "Plan \<Rightarrow> ChainNode option \<Rightarrow> ChainNode option" where
  "NextInFullChain p no =
     (case no of None \<Rightarrow> None
      | Some n \<Rightarrow>
          (case find (\<lambda>e. neutral (e_Condition e)) (pl_out p (n_Key n)) of
             Some e \<Rightarrow> pl_nodes p (e_ToKey e)
           | None \<Rightarrow> None))"

fun neutral_targets :: "(string \<rightharpoonup> ChainNode) \<Rightarrow> ChainEdge list \<Rightarrow> ChainNode list" where
  "neutral_targets nodes [] = []"
| "neutral_targets nodes (e # es) =
     (if neutral (e_Condition e)
      then (case nodes (e_ToKey e) of
              Some m \<Rightarrow> m # neutral_targets nodes es
            | None \<Rightarrow> neutral_targets nodes es)
      else neutral_targets nodes es)"

definition NeutralSuccessors :: "Plan \<Rightarrow> ChainNode option \<Rightarrow> ChainNode list" where
  "NeutralSuccessors p no =
     (case no of None \<Rightarrow> []
      | Some n \<Rightarrow> neutral_targets (pl_nodes p) (pl_out p (n_Key n)))"

text \<open>\<open>firstNeutral\<close> of \<open>engine.go\<close>: the first neutral successor of a logical block.\<close>

definition firstNeutral :: "Plan \<Rightarrow> ChainNode \<Rightarrow> ChainNode option" where
  "firstNeutral p n = (case NeutralSuccessors p (Some n) of [] \<Rightarrow> None | m # _ \<Rightarrow> Some m)"

subsection \<open>Facts about the indexes\<close>

lemma index_nodes_foldl:
  "foldl (\<lambda>m n. m(n_Key n \<mapsto> n)) m ns = m ++ map_of (rev (map (\<lambda>n. (n_Key n, n)) ns))"
  by (induction ns arbitrary: m) auto

lemma index_nodes_map_of: "index_nodes ns = map_of (map (\<lambda>n. (n_Key n, n)) (rev ns))"
  by (simp add: index_nodes_def index_nodes_foldl rev_map)

lemma index_nodes_Some: "index_nodes ns k = Some n \<Longrightarrow> n_Key n = k \<and> n \<in> set ns"
  unfolding index_nodes_map_of by (drule map_of_map_pair) simp

lemma dom_index_nodes [simp]: "dom (index_nodes ns) = n_Key ` set ns"
  unfolding index_nodes_map_of by (simp add: dom_map_of_pair)

lemma index_nodes_distinct:
  "distinct (map n_Key ns) \<Longrightarrow> n \<in> set ns \<Longrightarrow> index_nodes ns (n_Key n) = Some n"
  unfolding index_nodes_map_of by (intro map_of_is_SomeI) (auto simp: comp_def simp flip: rev_map)

lemma index_edges_foldl:
  "foldl (\<lambda>m e. m(e_FromKey e := m (e_FromKey e) @ [e])) m es k
     = m k @ filter (\<lambda>e. e_FromKey e = k) es"
  by (induction es arbitrary: m) auto

lemma index_edges_filter [simp]: "index_edges es k = filter (\<lambda>e. e_FromKey e = k) es"
  by (simp add: index_edges_def index_edges_foldl)

lemma Kind_cases: "Kind (Some n) = NodeKindStart \<or> Kind (Some n) = NodeKindJoin \<or> is_provider n"
  by (auto simp: Kind_def Let_def)

lemma Kind_None [simp]: "Kind None = []"
  by (simp add: Kind_def)

subsection \<open>Well-formed plans\<close>

text \<open>
  What \<open>BuildPlan\<close> guarantees of the index; the walkers rely on nothing else.
\<close>

definition plan_wf :: "Plan \<Rightarrow> bool" where
  "plan_wf p \<longleftrightarrow>
     pl_nodes p = index_nodes (c_Nodes (pl_chain p)) \<and>
     pl_out p = index_edges (c_Edges (pl_chain p)) \<and>
     pl_order p = map n_Key (c_Nodes (pl_chain p)) \<and>
     pl_nodes p (n_Key (pl_start p)) = Some (pl_start p)"

lemma BuildPlan_Inr:
  assumes "BuildPlan (Some c) = Inr p"
  shows "plan_wf p" "pl_chain p = c"
proof -
  from assms show "pl_chain p = c"
    by (auto simp: BuildPlan_def Let_def split: if_splits option.splits)
  have "\<exists>k. index_nodes (c_Nodes c) k = Some (pl_start p)"
    using assms by (auto simp: BuildPlan_def Let_def bind_eq_Some_conv split: if_splits option.splits)
  then have "index_nodes (c_Nodes c) (n_Key (pl_start p)) = Some (pl_start p)"
    using index_nodes_Some by blast
  with assms show "plan_wf p"
    by (auto simp: BuildPlan_def Let_def plan_wf_def split: if_splits option.splits)
qed

lemma plan_nodeD:
  "plan_wf p \<Longrightarrow> pl_nodes p k = Some n \<Longrightarrow> n_Key n = k \<and> n \<in> set (c_Nodes (pl_chain p))"
  by (auto simp: plan_wf_def dest: index_nodes_Some)

lemma plan_start_node: "plan_wf p \<Longrightarrow> pl_nodes p (n_Key (pl_start p)) = Some (pl_start p)"
  unfolding plan_wf_def by blast

lemma plan_start_in_order: "plan_wf p \<Longrightarrow> n_Key (pl_start p) \<in> set (pl_order p)"
  by (metis (no_types, lifting) image_eqI list.set_map plan_nodeD plan_wf_def)

lemma plan_order_dom: "plan_wf p \<Longrightarrow> set (pl_order p) = dom (pl_nodes p)"
  by (simp add: plan_wf_def)

text \<open>
  The edge relation between the blocks of a plan: every walker moves along it.
\<close>

definition plan_edge :: "Plan \<Rightarrow> (string \<times> string) set" where
  "plan_edge p = {(a, b). \<exists>e \<in> set (c_Edges (pl_chain p)). e_FromKey e = a \<and> e_ToKey e = b
                          \<and> a \<in> dom (pl_nodes p) \<and> b \<in> dom (pl_nodes p)}"

lemma find_out_edge:
  assumes wf: "plan_wf p" and n: "pl_nodes p (n_Key n) = Some n"
    and e: "e \<in> set (pl_out p (n_Key n))" and m: "pl_nodes p (e_ToKey e) = Some m"
  shows "(n_Key n, n_Key m) \<in> plan_edge p \<and> pl_nodes p (n_Key m) = Some m"
proof -
  have "e_FromKey e = n_Key n" "e \<in> set (c_Edges (pl_chain p))"
    using wf e by (auto simp: plan_wf_def)
  moreover have "n_Key m = e_ToKey e"
    using plan_nodeD [OF wf m] by simp
  ultimately show ?thesis
    using n m by (force simp: plan_edge_def)
qed

lemma Next_edge:
  assumes "plan_wf p" "pl_nodes p (n_Key n) = Some n" "Next p (Some n) outcome = Some m"
  shows "(n_Key n, n_Key m) \<in> plan_edge p \<and> pl_nodes p (n_Key m) = Some m"
proof -
  obtain e where "e \<in> set (pl_out p (n_Key n))" "pl_nodes p (e_ToKey e) = Some m"
    using assms(3) that [OF hd_in_set]
    by (auto simp: Next_def Let_def dest!: find_SomeD split: if_splits option.splits)
  then show ?thesis using find_out_edge assms(1,2) by blast
qed

lemma NextInFullChain_edge:
  assumes "plan_wf p" "pl_nodes p (n_Key n) = Some n" "NextInFullChain p (Some n) = Some m"
  shows "(n_Key n, n_Key m) \<in> plan_edge p \<and> pl_nodes p (n_Key m) = Some m"
proof -
  obtain e where "e \<in> set (pl_out p (n_Key n))" "pl_nodes p (e_ToKey e) = Some m"
    using assms(3) by (auto simp: NextInFullChain_def dest!: find_SomeD split: option.splits)
  then show ?thesis using find_out_edge assms(1,2) by blast
qed

lemma set_neutral_targets:
  "m \<in> set (neutral_targets nodes es) \<longleftrightarrow>
     (\<exists>e \<in> set es. neutral (e_Condition e) \<and> nodes (e_ToKey e) = Some m)"
  by (induction es) (auto split: option.splits)

lemma set_NeutralSuccessors:
  "m \<in> set (NeutralSuccessors p (Some n)) \<longleftrightarrow>
     (\<exists>e \<in> set (pl_out p (n_Key n)). neutral (e_Condition e) \<and> pl_nodes p (e_ToKey e) = Some m)"
  by (simp add: NeutralSuccessors_def set_neutral_targets)

lemma firstNeutral_edge:
  assumes "plan_wf p" "pl_nodes p (n_Key n) = Some n" "firstNeutral p n = Some m"
  shows "(n_Key n, n_Key m) \<in> plan_edge p \<and> pl_nodes p (n_Key m) = Some m"
proof -
  have "m \<in> set (NeutralSuccessors p (Some n))"
    using assms(3) by (auto simp: firstNeutral_def split: list.splits)
  then show ?thesis
    using find_out_edge assms(1,2) by (auto simp: set_NeutralSuccessors)
qed

lemmas next_edges = Next_edge NextInFullChain_edge firstNeutral_edge

text \<open>
  In full-chain mode the legacy walker's single successor is the head of the successors
  the fan-out executor follows, unless an edge leaves the graph.
\<close>

lemma neutral_targets_find:
  assumes "\<And>e. e \<in> set es \<Longrightarrow> e_ToKey e \<in> dom nodes"
  shows "(case find (\<lambda>e. neutral (e_Condition e)) es of Some e \<Rightarrow> nodes (e_ToKey e) | None \<Rightarrow> None)
       = (case neutral_targets nodes es of [] \<Rightarrow> None | m # _ \<Rightarrow> Some m)"
  using assms by (induction es) (auto split: option.splits)

lemma NextInFullChain_firstNeutral:
  assumes "\<And>e. e \<in> set (pl_out p (n_Key n)) \<Longrightarrow> e_ToKey e \<in> dom (pl_nodes p)"
  shows "NextInFullChain p (Some n) = firstNeutral p n"
  unfolding NextInFullChain_def firstNeutral_def NeutralSuccessors_def option.case
  using assms by (rule neutral_targets_find)

end
