(* ===== verification/Cooldown.thy ===== *)
theory Cooldown
  imports Prelude "HOL-Library.AList"
begin

text \<open>
  The circuit breaker of \<open>internal/engine/cooldown.go\<close>: consecutive failures per provider
  instance and the time until which an instance is skipped. \<open>until\<close> is ranged over, so it
  is an association list with distinct keys; \<open>fails\<close> is only indexed. Nil receivers do not
  occur (the engine always has a breaker).
\<close>

record cooldowns =
  cd_fails :: "string \<rightharpoonup> nat"
  cd_until :: "(string \<times> time) list"

definition newProviderCooldowns :: cooldowns where
  "newProviderCooldowns = \<lparr>cd_fails = Map.empty, cd_until = []\<rparr>"

definition forget :: "string \<Rightarrow> cooldowns \<Rightarrow> cooldowns" where
  "forget key c = c\<lparr>cd_fails := (cd_fails c)(key := None), cd_until := AList.delete key (cd_until c)\<rparr>"

definition blocked :: "cooldowns \<Rightarrow> string \<Rightarrow> time \<Rightarrow> bool \<times> cooldowns" where
  "blocked c key now =
     (if key = [] then (False, c)
      else (case map_of (cd_until c) key of
              None \<Rightarrow> (False, c)
            | Some until \<Rightarrow> if \<not> now < until then (False, forget key c) else (True, c)))"

definition minute :: int64 where
  "minute = int64_of (60 * 10 ^ 9)"

definition fail_count :: "cooldowns \<Rightarrow> string \<Rightarrow> nat" where
  "fail_count c key = (case cd_fails c key of None \<Rightarrow> 0 | Some n \<Rightarrow> n)"

definition observe ::
  "cooldowns \<Rightarrow> string \<Rightarrow> bool \<Rightarrow> int \<Rightarrow> int64 \<Rightarrow> time \<Rightarrow> bool \<times> cooldowns" where
  "observe c key ok threshold cooldown now =
     (if key = [] \<or> threshold \<le> 0 then (False, c)
      else
        (let cooldown' = (if sint cooldown \<le> 0 then minute else cooldown)
         in if ok then (False, forget key c)
            else
              (let n = fail_count c key + 1
               in if int n \<ge> threshold
                  then (True, c\<lparr>cd_until := AList.update key (now + sint cooldown') (cd_until c),
                                cd_fails := (cd_fails c)(key := None)\<rparr>)
                  else (False, c\<lparr>cd_fails := (cd_fails c)(key \<mapsto> n)\<rparr>))))"

fun active_loop :: "time \<Rightarrow> (string \<times> time) list \<Rightarrow> nat \<Rightarrow> cooldowns \<Rightarrow> nat \<times> cooldowns" where
  "active_loop now [] n c = (n, c)"
| "active_loop now ((key, until) # rest) n c =
     (if now < until then active_loop now rest (n + 1) c
      else active_loop now rest n (forget key c))"

text \<open>\<open>active\<close> deletes expired entries while it ranges over the map, as Go permits.\<close>

definition active :: "cooldowns \<Rightarrow> time \<Rightarrow> nat \<times> cooldowns" where
  "active c now = active_loop now (cd_until c) 0 c"

subsection \<open>What the breaker promises\<close>

definition is_blocked :: "cooldowns \<Rightarrow> string \<Rightarrow> time \<Rightarrow> bool" where
  "is_blocked c key now \<longleftrightarrow> fst (blocked c key now)"

lemma is_blocked_iff:
  "is_blocked c key now \<longleftrightarrow> key \<noteq> [] \<and> (\<exists>u. map_of (cd_until c) key = Some u \<and> now < u)"
  by (auto simp: is_blocked_def blocked_def split: option.splits)

lemma forget_simps [simp]:
  "map_of (cd_until (forget key c)) = (map_of (cd_until c))(key := None)"
  "cd_fails (forget key c) = (cd_fails c)(key := None)"
  "fail_count (forget key c) key = 0"
  "k \<noteq> key \<Longrightarrow> fail_count (forget key c) k = fail_count c k"
  by (simp_all add: forget_def delete_conv' fail_count_def)

lemma blocked_query_pure [frame]:
  "is_blocked (snd (blocked c key now)) k t = (is_blocked c k t \<and> (k = key \<longrightarrow> is_blocked c key now))"
  by (auto simp: is_blocked_iff blocked_def split: option.splits)

lemma observe_other [frame]:
  "k \<noteq> key \<Longrightarrow> is_blocked (snd (observe c key ok th cd now)) k t = is_blocked c k t"
  "k \<noteq> key \<Longrightarrow> fail_count (snd (observe c key ok th cd now)) k = fail_count c k"
  by (auto simp: observe_def is_blocked_iff Let_def update_conv' fail_count_def forget_def delete_conv')

lemma observe_disabled: "threshold \<le> 0 \<Longrightarrow> observe c key ok threshold cd now = (False, c)"
  by (simp add: observe_def)

lemma observe_ok_clears:
  assumes "0 < threshold"
  shows "\<not> is_blocked (snd (observe c key True threshold cd now)) key t"
    and "key \<noteq> [] \<Longrightarrow> fail_count (snd (observe c key True threshold cd now)) key = 0"
  using assms by (auto simp: observe_def is_blocked_iff Let_def)

definition effective_cooldown :: "int64 \<Rightarrow> int" where
  "effective_cooldown cd = (if sint cd \<le> 0 then 60 * 10 ^ 9 else sint cd)"

lemma effective_cooldown_pos: "0 < effective_cooldown cd"
  by (simp add: effective_cooldown_def)

lemma sint_minute: "sint minute = 60 * 10 ^ 9"
  by (simp add: minute_def sint_int64_of)

lemma observe_trip:
  assumes "key \<noteq> []" "0 < threshold" "threshold \<le> int (fail_count c key) + 1"
  shows "fst (observe c key False threshold cd now)"
    and "is_blocked (snd (observe c key False threshold cd now)) key t \<longleftrightarrow> t < now + effective_cooldown cd"
    and "fail_count (snd (observe c key False threshold cd now)) key = 0"
  using assms
  by (auto simp: observe_def is_blocked_iff Let_def update_conv' sint_minute effective_cooldown_def fail_count_def)

lemma observe_below:
  assumes "key \<noteq> []" "int (fail_count c key) + 1 < threshold"
  shows "\<not> fst (observe c key False threshold cd now)"
    and "\<And>t. is_blocked (snd (observe c key False threshold cd now)) key t = is_blocked c key t"
    and "fail_count (snd (observe c key False threshold cd now)) key = fail_count c key + 1"
  using assms by (auto simp: observe_def is_blocked_iff Let_def fail_count_def)

text \<open>A run of failures of one instance, at the given times.\<close>

fun observe_fails :: "cooldowns \<Rightarrow> string \<Rightarrow> int \<Rightarrow> int64 \<Rightarrow> time list \<Rightarrow> bool list \<times> cooldowns" where
  "observe_fails c key threshold cd [] = ([], c)"
| "observe_fails c key threshold cd (t # ts) =
     (let (b, c1) = observe c key False threshold cd t;
          (bs, c2) = observe_fails c1 key threshold cd ts
      in (b # bs, c2))"

lemma observe_fails_below:
  assumes "key \<noteq> []" "int (fail_count c key + length ts) < threshold"
  shows "fst (observe_fails c key threshold cd ts) = replicate (length ts) False \<and>
    fail_count (snd (observe_fails c key threshold cd ts)) key = fail_count c key + length ts \<and>
    is_blocked (snd (observe_fails c key threshold cd ts)) key t = is_blocked c key t"
  using assms(2)
proof (induction ts arbitrary: c)
  case Nil
  then show ?case by simp
next
  case (Cons u ts)
  let ?c1 = "snd (observe c key False threshold cd u)"
  have lt: "int (fail_count c key) + 1 < threshold" using Cons.prems by simp
  note step = observe_below [OF assms(1) lt, of cd u]
  have "int (fail_count ?c1 key + length ts) < threshold" using step(3) Cons.prems by simp
  from Cons.IH [OF this] step show ?case
    by (simp add: Let_def split_beta)
qed

lemma active_loop_count: "fst (active_loop now us n c) = n + length (filter (\<lambda>(k, u). now < u) us)"
  by (induction now us n c rule: active_loop.induct) auto

lemma active_loop_blocked:
  "is_blocked (snd (active_loop now us n c)) k t \<Longrightarrow> is_blocked c k t"
  by (induction now us n c rule: active_loop.induct) (auto simp: is_blocked_iff split: if_splits)

lemma active_count: "fst (active c now) = length (filter (\<lambda>(k, u). now < u) (cd_until c))"
  by (simp add: active_def active_loop_count)

end
