(* ===== verification/Walk_State.thy ===== *)
theory Walk_State
  imports Prelude
begin

text \<open>
  The shared counters of a request (\<open>walkState\<close> of \<open>internal/engine/engine.go\<close>) and the
  resizable concurrency limiter (\<open>semLimiter\<close>). Each operation runs under its mutex, so an
  execution with parallel branches is a sequence of operations in some order; what holds
  of every sequence holds of every interleaving.
\<close>

subsection \<open>Attempt budgets\<close>

text \<open>
  The interface the block executor relies on: a reservation succeeds exactly while the
  count is below the limit and then costs one; nothing lowers the count.
\<close>

locale step_budget =
  fixes take :: "'s \<Rightarrow> bool \<times> 's"
    and add :: "int \<Rightarrow> 's \<Rightarrow> 's"
    and used :: "'s \<Rightarrow> int"
    and limit :: "'s \<Rightarrow> int"
  assumes take_iff: "fst (take s) \<longleftrightarrow> used s < limit s"
    and take_used: "used (snd (take s)) = (if used s < limit s then used s + 1 else used s)"
    and take_limit: "limit (snd (take s)) = limit s"
    and add_used: "used s \<le> used (add n s)"
    and add_limit: "limit (add n s) = limit s"
begin

text \<open>An operation is a reservation (\<open>None\<close>) or extra consumption.\<close>

fun grants :: "'s \<Rightarrow> int option list \<Rightarrow> nat \<times> 's" where
  "grants s [] = (0, s)"
| "grants s (None # ops) =
     (let (b, s') = take s; (n, t) = grants s' ops in (if b then Suc n else n, t))"
| "grants s (Some k # ops) = grants (add k s) ops"

lemma grants_bound:
  "int (fst (grants s ops)) \<le> max 0 (limit s - used s) \<and> used s \<le> used (snd (grants s ops))
   \<and> limit (snd (grants s ops)) = limit s"
proof (induction s ops rule: grants.induct)
  case (1 s)
  then show ?case by simp
next
  case (2 s ops)
  obtain b s' where t: "take s = (b, s')" by fastforce
  then show ?case
    using 2 [OF t [symmetric]] take_iff [of s] take_used [of s] take_limit [of s]
    by (auto simp: split_beta split: if_splits)
next
  case (3 s k ops)
  then show ?case using add_used [of s k] add_limit [of k s] by (auto split: if_splits)
qed

lemma grants_le: "used s = 0 \<Longrightarrow> int (fst (grants s ops)) \<le> max 0 (limit s)"
  using grants_bound [of s ops] by simp

end

record walkState =
  ws_maxAttempts :: int
  ws_stepNo :: int
  ws_dead :: "string list"

definition newWalkState :: "int \<Rightarrow> walkState" where
  "newWalkState maxAttempts = \<lparr>ws_maxAttempts = maxAttempts, ws_stepNo = 0, ws_dead = []\<rparr>"

definition takeStep :: "walkState \<Rightarrow> bool \<times> walkState" where
  "takeStep ws =
     (if ws_stepNo ws \<ge> ws_maxAttempts ws then (False, ws)
      else (True, ws\<lparr>ws_stepNo := ws_stepNo ws + 1\<rparr>))"

definition addSteps :: "int \<Rightarrow> walkState \<Rightarrow> walkState" where
  "addSteps n ws = (if n \<le> 0 then ws else ws\<lparr>ws_stepNo := ws_stepNo ws + n\<rparr>)"

definition hasBudget :: "walkState \<Rightarrow> bool" where
  "hasBudget ws \<longleftrightarrow> ws_stepNo ws < ws_maxAttempts ws"

definition ws_steps :: "walkState \<Rightarrow> int" where
  "ws_steps ws = ws_stepNo ws"

definition markDead :: "string \<Rightarrow> walkState \<Rightarrow> walkState" where
  "markDead i ws = ws\<lparr>ws_dead := List.insert i (ws_dead ws)\<rparr>"

definition isDead :: "walkState \<Rightarrow> string \<Rightarrow> bool" where
  "isDead ws i \<longleftrightarrow> i \<in> set (ws_dead ws)"

interpretation ws: step_budget takeStep addSteps ws_stepNo ws_maxAttempts
  by unfold_locales (auto simp: takeStep_def addSteps_def)

lemma hasBudget_takeStep: "hasBudget ws \<longleftrightarrow> fst (takeStep ws)"
  by (simp add: hasBudget_def takeStep_def)

lemma markDead_simps [simp]:
  "isDead (markDead i ws) j \<longleftrightarrow> j = i \<or> isDead ws j"
  "ws_stepNo (markDead i ws) = ws_stepNo ws" "ws_maxAttempts (markDead i ws) = ws_maxAttempts ws"
  by (auto simp: markDead_def isDead_def)

lemma takeStep_dead [simp]: "isDead (snd (takeStep ws)) j = isDead ws j"
  by (simp add: takeStep_def isDead_def)

lemma addSteps_dead [simp]: "isDead (addSteps n ws) j = isDead ws j"
  by (simp add: addSteps_def isDead_def)

subsection \<open>The concurrency limiter\<close>

text \<open>
  A buffered channel is an index into the list of channels made so far, each with its
  capacity and the number of slots taken; the last one is the current one. \<open>acquire\<close>
  captures the current channel, so a release frees a slot of the channel it was taken from.
  \<open>None\<close> as current means unlimited.
\<close>

record semLimiter =
  sl_limit :: int
  sl_ch :: "nat option"
  sl_made :: "(nat \<times> nat) list"

definition setLimitLocked :: "int \<Rightarrow> semLimiter \<Rightarrow> semLimiter" where
  "setLimitLocked limit l =
     (if limit > 0
      then l\<lparr>sl_limit := limit, sl_ch := Some (length (sl_made l)), sl_made := sl_made l @ [(nat limit, 0)]\<rparr>
      else l\<lparr>sl_limit := limit, sl_ch := None\<rparr>)"

definition newSemLimiter :: "int \<Rightarrow> semLimiter" where
  "newSemLimiter limit = setLimitLocked limit \<lparr>sl_limit = 0, sl_ch = None, sl_made = []\<rparr>"

definition setLimit :: "int \<Rightarrow> semLimiter \<Rightarrow> semLimiter" where
  "setLimit limit l = (if limit = sl_limit l then l else setLimitLocked limit l)"

text \<open>
  One attempt of \<open>acquire\<close>: the channel to release on, or \<open>None\<close> when the send would
  block (the caller then waits until a slot is free or its context is done).
\<close>

definition acquire :: "semLimiter \<Rightarrow> (nat option \<times> semLimiter) option" where
  "acquire l =
     (case sl_ch l of
        None \<Rightarrow> Some (None, l)
      | Some ch \<Rightarrow>
          (let (cap, n) = sl_made l ! ch
           in if n < cap then Some (Some ch, l\<lparr>sl_made := (sl_made l)[ch := (cap, n + 1)]\<rparr>) else None))"

definition release :: "nat option \<Rightarrow> semLimiter \<Rightarrow> semLimiter" where
  "release slot l =
     (case slot of
        None \<Rightarrow> l
      | Some ch \<Rightarrow> (let (cap, n) = sl_made l ! ch in l\<lparr>sl_made := (sl_made l)[ch := (cap, n - 1)]\<rparr>))"

definition sl_inv :: "semLimiter \<Rightarrow> bool" where
  "sl_inv l \<longleftrightarrow>
     (\<forall>(cap, n) \<in> set (sl_made l). n \<le> cap) \<and>
     (case sl_ch l of None \<Rightarrow> sl_limit l \<le> 0
      | Some ch \<Rightarrow> ch < length (sl_made l) \<and> int (fst (sl_made l ! ch)) = sl_limit l \<and> 0 < sl_limit l)"

lemma setLimitLocked_inv [preserve]:
  "(\<forall>(cap, n) \<in> set (sl_made l). n \<le> cap) \<Longrightarrow> sl_inv (setLimitLocked limit l)"
  by (auto simp: sl_inv_def setLimitLocked_def nth_append)

lemma newSemLimiter_inv [preserve]: "sl_inv (newSemLimiter limit)"
  unfolding newSemLimiter_def by (rule setLimitLocked_inv) simp

lemma setLimit_inv [preserve]: "sl_inv l \<Longrightarrow> sl_inv (setLimit limit l)"
  unfolding setLimit_def by (auto intro: setLimitLocked_inv simp: sl_inv_def [of l])

lemma sl_made_update:
  "(\<forall>(cap, n) \<in> set xs. n \<le> cap) \<Longrightarrow> m \<le> c \<Longrightarrow> \<forall>(cap, n) \<in> set (xs[i := (c, m)]). n \<le> cap"
  using set_update_subset_insert [of xs i "(c, m)"] by fastforce

lemma acquire_inv [preserve]:
  assumes inv: "sl_inv l" and a: "acquire l = Some (slot, l')" shows "sl_inv l'"
proof (cases "sl_ch l")
  case None
  with inv a show ?thesis by (simp add: acquire_def)
next
  case (Some ch)
  obtain cap n where e: "sl_made l ! ch = (cap, n)" by fastforce
  with a Some have n: "n < cap" and l': "l' = l\<lparr>sl_made := (sl_made l)[ch := (cap, n + 1)]\<rparr>"
    by (auto simp: acquire_def split: if_splits)
  have "\<forall>(cap, n) \<in> set ((sl_made l)[ch := (cap, n + 1)]). n \<le> cap"
    using inv n by (intro sl_made_update) (auto simp: sl_inv_def)
  with inv Some e show ?thesis by (simp add: sl_inv_def l')
qed

lemma release_inv [preserve]:
  assumes inv: "sl_inv l" shows "sl_inv (release slot l)"
proof (cases slot)
  case None
  with inv show ?thesis by (simp add: release_def)
next
  case (Some ch)
  obtain cap n where e: "sl_made l ! ch = (cap, n)" by fastforce
  show ?thesis
  proof (cases "ch < length (sl_made l)")
    case True
    with e have "(cap, n) \<in> set (sl_made l)" by (metis nth_mem)
    with inv have "n - 1 \<le> cap" by (auto simp: sl_inv_def)
    then have "\<forall>(cap, n) \<in> set ((sl_made l)[ch := (cap, n - 1)]). n \<le> cap"
      using inv by (intro sl_made_update) (auto simp: sl_inv_def)
    moreover have "fst ((sl_made l)[ch := (cap, n - 1)] ! i) = fst (sl_made l ! i)" for i
      using e True by (cases "i = ch") simp_all
    ultimately show ?thesis
      using inv Some e by (simp add: sl_inv_def release_def split: option.splits)
  next
    case False
    with inv Some e show ?thesis by (simp add: release_def sl_inv_def list_update_beyond)
  qed
qed

text \<open>
  While the limit is unchanged at most \<open>limit\<close> slots of the current channel are taken; a
  resize makes a new channel with all its slots free.
\<close>

definition sl_in_use :: "semLimiter \<Rightarrow> nat" where
  "sl_in_use l = (case sl_ch l of None \<Rightarrow> 0 | Some ch \<Rightarrow> snd (sl_made l ! ch))"

definition sl_total :: "semLimiter \<Rightarrow> nat" where
  "sl_total l = sum_list (map snd (sl_made l))"

lemma sl_in_use_le: "sl_inv l \<Longrightarrow> 0 < sl_limit l \<Longrightarrow> int (sl_in_use l) \<le> sl_limit l"
proof -
  assume inv: "sl_inv l" and pos: "0 < sl_limit l"
  then obtain ch where ch: "sl_ch l = Some ch" "ch < length (sl_made l)"
      "int (fst (sl_made l ! ch)) = sl_limit l"
    by (auto simp: sl_inv_def split: option.splits)
  then have "sl_made l ! ch \<in> set (sl_made l)" by simp
  with inv have "snd (sl_made l ! ch) \<le> fst (sl_made l ! ch)"
    by (auto simp: sl_inv_def split_beta)
  with ch show ?thesis by (simp add: sl_in_use_def)
qed

text \<open>A resize while slots are held lets more calls run than the new limit.\<close>

lemma resize_exceeds:
  "\<exists>l1 l2 l3. acquire (newSemLimiter 1) = Some (Some 0, l1) \<and> acquire (setLimit 2 l1) = Some (Some 1, l2)
     \<and> acquire l2 = Some (Some 1, l3) \<and> sl_limit l3 = 2 \<and> sl_total l3 = 3"
  by (simp add: newSemLimiter_def setLimit_def setLimitLocked_def acquire_def sl_total_def)

end
