(* ===== verification/Logging.thy ===== *)
theory Logging
  imports Go_Strings
begin

text \<open>
  \<open>internal/logging\<close>: the registry of secrets and its masking of strings
  (\<open>redact.go\<close>), the layout of a log line and of the record handed to the sinks
  (\<open>logger.go\<close>), and the bounded asynchronous sink (\<open>sink.go\<close>). A timestamp is given
  already formatted; attribute values are the strings the program passes.
\<close>

subsection \<open>The redactor\<close>

type_synonym redactor = "string list"

definition stars :: string where
  "stars = ''***''"

definition redactor_add1 :: "redactor \<Rightarrow> string \<Rightarrow> redactor" where
  "redactor_add1 secrets value =
     (let v = TrimSpace value
      in if length v < 4 then secrets else if v \<in> set secrets then secrets else secrets @ [v])"

definition redactor_Add :: "redactor \<Rightarrow> string list \<Rightarrow> redactor" where
  "redactor_Add secrets values = foldl redactor_add1 secrets values"

fun redact_loop :: "redactor \<Rightarrow> string \<Rightarrow> string" where
  "redact_loop [] s = s"
| "redact_loop (secret # rest) s =
     redact_loop rest (if secret \<noteq> [] \<and> Contains s secret then ReplaceAll s secret stars else s)"

definition redactor_String :: "redactor \<Rightarrow> string \<Rightarrow> string" where
  "redactor_String secrets s = (if s = [] then s else redact_loop secrets s)"

subsection \<open>Log lines\<close>

text \<open>Levels are ordered as in \<open>slog\<close>.\<close>

definition LevelDebug :: int where
  "LevelDebug = - 4"

definition LevelInfo :: int where
  "LevelInfo = 0"

definition LevelWarn :: int where
  "LevelWarn = 4"

definition LevelError :: int where
  "LevelError = 8"


definition parseLevel :: "string \<Rightarrow> int" where
  "parseLevel level =
     (let l = ToLower (TrimSpace level)
      in if l = ''debug'' then LevelDebug
         else if l = ''warn'' \<or> l = ''warning'' then LevelWarn
         else if l = ''error'' then LevelError
         else LevelInfo)"

definition level_name :: "int \<Rightarrow> string" where
  "level_name l = (if l < LevelInfo then ''DEBUG'' else if l < LevelWarn then ''INFO''
                   else if l < LevelError then ''WARN'' else ''ERROR'')"

record Record =
  rec_Time :: string
  rec_Level :: string
  rec_RID :: string
  rec_API :: string
  rec_Message :: string

record handler =
  h_level :: int
  h_redact :: redactor
  h_json :: bool

text \<open>The verb \<open>%q\<close> on printable ASCII and the usual control characters.\<close>

definition quote_char :: "char \<Rightarrow> string" where
  "quote_char c =
     (if c = CHR 0x22 then [CHR 0x5C, CHR 0x22]
      else if c = CHR 0x5C then [CHR 0x5C, CHR 0x5C]
      else if c = CHR 0x0A then [CHR 0x5C, CHR ''n'']
      else if c = CHR 0x09 then [CHR 0x5C, CHR ''t'']
      else if c = CHR 0x0D then [CHR 0x5C, CHR ''r'']
      else [c])"

definition quote :: "string \<Rightarrow> string" where
  "quote s = [CHR 0x22] @ concat (map quote_char s) @ [CHR 0x22]"

definition formatValue :: "string \<Rightarrow> string" where
  "formatValue s = (if \<exists>c \<in> set s. c = CHR '' '' \<or> c = CHR 0x09 \<or> c = CHR 0x0A then quote s else s)"

text \<open>\<open>emit\<close> pairs up the variadic arguments; a dangling key gets an empty value.\<close>

fun pair_args :: "string list \<Rightarrow> (string \<times> string) list" where
  "pair_args [] = []"
| "pair_args [k] = [(k, [])]"
| "pair_args (k # v # rest) = (k, v) # pair_args rest"

definition log_kv :: "string list \<Rightarrow> string list" where
  "log_kv args = map (\<lambda>(k, v). k @ ''='' @ formatValue v) (filter (\<lambda>(k, v). k \<noteq> ''rid'' \<and> k \<noteq> ''api'') (pair_args args))"

definition last_attr :: "string \<Rightarrow> string \<Rightarrow> string list \<Rightarrow> string" where
  "last_attr key v args = foldl (\<lambda>acc (k, v). if k = key then v else acc) v (pair_args args)"

definition json_field :: "string \<Rightarrow> string \<Rightarrow> string" where
  "json_field k v = quote k @ '':'' @ quote v"

definition log_line :: "handler \<Rightarrow> string \<Rightarrow> int \<Rightarrow> string \<Rightarrow> string \<Rightarrow> string \<Rightarrow> string list \<Rightarrow> string" where
  "log_line h tm level rid api msg args =
     (let message = redactor_String (h_redact h) msg;
          kv = log_kv args;
          tag = (if api \<noteq> [] then rid @ ''|'' @ api else rid)
      in (if h_json h
          then ''{'' @ Join ([json_field ''time'' tm, json_field ''level'' (ToLower (level_name level)),
                 json_field ''rid'' rid, json_field ''api'' api, json_field ''msg'' message]
                 @ map (\<lambda>item. json_field ''kv'' (redactor_String (h_redact h) item)) kv) '','' @ ''}''
          else tm @ '' '' @ level_name level @ '' ['' @ tag @ ''] '' @ message
               @ concat (map (\<lambda>item. '' '' @ redactor_String (h_redact h) item) kv)) @ [CHR 0x0A])"

definition log_record :: "handler \<Rightarrow> string \<Rightarrow> int \<Rightarrow> string \<Rightarrow> string \<Rightarrow> string \<Rightarrow> string list \<Rightarrow> Record" where
  "log_record h tm level rid api msg args =
     \<lparr>rec_Time = tm, rec_Level = ToLower (level_name level), rec_RID = rid, rec_API = api,
      rec_Message = redactor_String (h_redact h)
        (TrimSpace (redactor_String (h_redact h) msg @ '' '' @ Join (log_kv args) '' ''))\<rparr>"

text \<open>\<open>emit\<close>: nothing below the configured level; otherwise the line and the sink record.\<close>

definition emit ::
  "handler \<Rightarrow> string \<Rightarrow> int \<Rightarrow> string \<Rightarrow> string \<Rightarrow> string \<Rightarrow> string list \<Rightarrow> (string \<times> Record) option" where
  "emit h tm level rid api msg args =
     (if \<not> level \<ge> h_level h then None
      else let rid' = last_attr ''rid'' rid args; api' = last_attr ''api'' api args
           in Some (log_line h tm level rid' api' msg args, log_record h tm level rid' api' msg args))"

subsection \<open>The asynchronous sink\<close>

record buffer_sink =
  bs_cap :: nat
  bs_queue :: "Record list"
  bs_written :: "Record list"
  bs_closed :: bool

definition NewBufferSink :: "int \<Rightarrow> buffer_sink" where
  "NewBufferSink sz =
     \<lparr>bs_cap = nat (if sz \<le> 0 then 1024 else sz), bs_queue = [], bs_written = [], bs_closed = False\<rparr>"

text \<open>A send on a closed channel panics: \<open>None\<close>.\<close>

definition sink_Write :: "Record \<Rightarrow> buffer_sink \<Rightarrow> buffer_sink option" where
  "sink_Write r b =
     (if bs_closed b then None
      else if length (bs_queue b) < bs_cap b then Some (b\<lparr>bs_queue := bs_queue b @ [r]\<rparr>)
      else Some b)"

text \<open>One iteration of the forwarding goroutine.\<close>

definition sink_loop_step :: "buffer_sink \<Rightarrow> buffer_sink" where
  "sink_loop_step b =
     (case bs_queue b of [] \<Rightarrow> b
      | r # q \<Rightarrow> b\<lparr>bs_queue := q, bs_written := bs_written b @ [r]\<rparr>)"

text \<open>\<open>Close\<close> closes the channel once and waits until the goroutine has drained it.\<close>

definition sink_Close :: "buffer_sink \<Rightarrow> buffer_sink" where
  "sink_Close b = b\<lparr>bs_closed := True, bs_queue := [], bs_written := bs_written b @ bs_queue b\<rparr>"

subsection \<open>Masking\<close>

definition star_free :: "string \<Rightarrow> bool" where
  "star_free p \<longleftrightarrow> p \<noteq> [] \<and> CHR ''*'' \<notin> set p"

text \<open>
  Replacing with the stars creates no occurrence of a string without asterisks: such a
  prefix of the result was a prefix of the input.
\<close>

lemma HasPrefix_mask: "CHR ''*'' \<notin> set p \<Longrightarrow> HasPrefix (stars @ r) p \<longleftrightarrow> p = []"
  by (cases p) (auto simp: stars_def)

lemma HasPrefix_ReplaceAll:
  "CHR ''*'' \<notin> set p \<Longrightarrow> HasPrefix (ReplaceAll s old stars) p \<Longrightarrow> HasPrefix s p"
proof (induction s arbitrary: p)
  case Nil
  then show ?case by (simp add: ReplaceAll.simps)
next
  case (Cons c cs)
  then show ?case
    by (cases p) (auto simp: ReplaceAll.simps [of "c # cs"] HasPrefix_mask split: if_splits)
qed

lemma Contains_mask_append:
  assumes "star_free p" shows "Contains (stars @ r) p \<longleftrightarrow> Contains r p"
  using assms by (cases p) (auto simp: stars_def star_free_def)

lemma Contains_drop: "Contains (drop n s) p \<Longrightarrow> Contains s p"
  by (metis Contains_iff append.assoc append_take_drop_id)

lemma ReplaceAll_no_new:
  "star_free p \<Longrightarrow> Contains (ReplaceAll s old stars) p \<Longrightarrow> Contains s p"
proof (induction s old "stars" rule: ReplaceAll.induct)
  case (1 s old)
  show ?case
  proof (cases s)
    case Nil
    with 1 show ?thesis by (simp add: ReplaceAll.simps)
  next
    case (Cons c cs)
    show ?thesis
    proof (cases "old \<noteq> [] \<and> HasPrefix s old")
      case True
      then have "ReplaceAll s old stars = stars @ ReplaceAll (drop (length old) s) old stars"
        using Cons by (subst ReplaceAll.simps) auto
      with "1.prems" have "Contains (ReplaceAll (drop (length old) s) old stars) p"
        by (simp add: Contains_mask_append)
      then have "Contains (drop (length old) s) p"
        using "1.hyps"(1) [OF Cons True "1.prems"(1)] Cons by simp
      then show ?thesis by (rule Contains_drop)
    next
      case False
      let ?r = "ReplaceAll cs old stars"
      have r: "ReplaceAll s old stars = c # ?r" using False Cons by (subst ReplaceAll.simps) auto
      then consider "HasPrefix (ReplaceAll s old stars) p" | "Contains ?r p"
        using "1.prems"(2) by auto
      then show ?thesis
      proof cases
        case 1
        then have "HasPrefix s p" using HasPrefix_ReplaceAll "1.prems"(1) by (auto simp: star_free_def)
        then show ?thesis using Cons by simp
      next
        case 2
        have "Contains cs p" using "1.hyps"(2) [OF Cons False "1.prems"(1) 2] .
        then show ?thesis using Cons by simp
      qed
    qed
  qed
qed

lemma ReplaceAll_removes:
  "star_free old \<Longrightarrow> \<not> Contains (ReplaceAll s old stars) old"
proof (induction s old "stars" rule: ReplaceAll.induct)
  case (1 s old)
  show ?case
  proof (cases s)
    case Nil
    with 1 show ?thesis by (simp add: ReplaceAll.simps star_free_def)
  next
    case (Cons c cs)
    have ne: "old \<noteq> []" using "1.prems" by (simp add: star_free_def)
    show ?thesis
    proof (cases "HasPrefix s old")
      case True
      then have "ReplaceAll s old stars = stars @ ReplaceAll (drop (length old) s) old stars"
        using Cons ne by (subst ReplaceAll.simps) auto
      moreover have "\<not> Contains (ReplaceAll (drop (length old) s) old stars) old"
        using "1.hyps"(1) [OF Cons _ "1.prems"] True ne Cons by simp
      ultimately show ?thesis using "1.prems" by (simp add: Contains_mask_append)
    next
      case False
      then have r: "ReplaceAll s old stars = c # ReplaceAll cs old stars"
        using Cons by (subst ReplaceAll.simps) auto
      have "\<not> HasPrefix (ReplaceAll s old stars) old"
        using HasPrefix_ReplaceAll False "1.prems" by (auto simp: star_free_def)
      moreover have "\<not> Contains (ReplaceAll cs old stars) old"
        using "1.hyps"(2) [OF Cons _ "1.prems"] False by blast
      ultimately show ?thesis using r by simp
    qed
  qed
qed

lemma redact_loop_no_new:
  "star_free p \<Longrightarrow> Contains (redact_loop secrets s) p \<Longrightarrow> Contains s p"
  by (induction secrets s rule: redact_loop.induct) (auto dest: ReplaceAll_no_new split: if_splits)

lemma redact_loop_masks:
  "secret \<in> set secrets \<Longrightarrow> star_free secret \<Longrightarrow> \<not> Contains (redact_loop secrets s) secret"
proof (induction secrets s rule: redact_loop.induct)
  case (2 x rest s)
  show ?case
  proof (cases "secret = x")
    case True
    have "\<not> Contains (if x \<noteq> [] \<and> Contains s x then ReplaceAll s x stars else s) secret"
      using True "2.prems"(2) ReplaceAll_removes by (auto simp: star_free_def)
    then show ?thesis using redact_loop_no_new "2.prems"(2) by (metis redact_loop.simps(2))
  next
    case False
    with 2 show ?thesis by simp
  qed
qed simp

lemma redactor_String_masks:
  "secret \<in> set secrets \<Longrightarrow> star_free secret \<Longrightarrow> \<not> Contains (redactor_String secrets s) secret"
  by (simp add: redactor_String_def redact_loop_masks) (simp add: star_free_def)

subsection \<open>The registry\<close>

definition redactor_wf :: "redactor \<Rightarrow> bool" where
  "redactor_wf secrets \<longleftrightarrow> distinct secrets \<and> (\<forall>s \<in> set secrets. 4 \<le> length s \<and> (\<exists>v. s = TrimSpace v))"

lemma redactor_add1_wf [preserve]: "redactor_wf secrets \<Longrightarrow> redactor_wf (redactor_add1 secrets v)"
  by (auto simp: redactor_wf_def redactor_add1_def Let_def)

lemma redactor_Add_wf [preserve]: "redactor_wf secrets \<Longrightarrow> redactor_wf (redactor_Add secrets vs)"
  unfolding redactor_Add_def by (induction vs arbitrary: secrets) (simp_all add: redactor_add1_wf)

lemma set_redactor_add1: "set (redactor_add1 secrets v) = set secrets \<union> {s. s = TrimSpace v \<and> 4 \<le> length s}"
  by (auto simp: redactor_add1_def Let_def)

lemma set_redactor_Add:
  "set (redactor_Add secrets vs) = set secrets \<union> {s \<in> TrimSpace ` set vs. 4 \<le> length s}"
  unfolding redactor_Add_def by (induction vs arbitrary: secrets) (auto simp: set_redactor_add1)

subsection \<open>Records and the bounded queue\<close>

lemma emit_record_masked:
  assumes "emit h tm level rid api msg args = Some (line, r)"
    and "secret \<in> set (h_redact h)" "star_free secret"
  shows "\<not> Contains (rec_Message r) secret"
  using assms by (auto simp: emit_def log_record_def Let_def redactor_String_masks split: if_splits)

definition sink_inv :: "Record list \<Rightarrow> buffer_sink \<Rightarrow> bool" where
  "sink_inv offered b \<longleftrightarrow> length (bs_queue b) \<le> bs_cap b \<and> subseq (bs_written b @ bs_queue b) offered"

lemma sink_Write_inv:
  "sink_inv offered b \<Longrightarrow> sink_Write r b = Some b' \<Longrightarrow> sink_inv (offered @ [r]) b'"
  by (auto simp: sink_inv_def sink_Write_def split: if_splits simp flip: append_assoc
      intro: subseq_order.order_trans [OF _ prefix_imp_subseq])

lemma sink_loop_step_inv: "sink_inv offered b \<Longrightarrow> sink_inv offered (sink_loop_step b)"
  by (auto simp: sink_inv_def sink_loop_step_def split: list.splits)

lemma sink_Close_inv:
  "sink_inv offered b \<Longrightarrow> sink_inv offered (sink_Close b) \<and> bs_queue (sink_Close b) = []"
  by (simp add: sink_inv_def sink_Close_def)

end
