(* ===== verification/Metrics.thy ===== *)
theory Metrics
  imports Go_Strings "HOL-Library.AList" "HOL-Library.List_Lexorder" "HOL-Library.Char_ord"
begin

text \<open>
  \<open>internal/metrics/metrics.go\<close>: the counters and gauges of the process and their
  rendering in the Prometheus text format. A map that is ranged over is an association
  list with distinct keys; counters are unbounded integers.
\<close>

record agg =
  ag_count :: int
  ag_sumMS :: int

definition zero_agg :: agg where
  "zero_agg = \<lparr>ag_count = 0, ag_sumMS = 0\<rparr>"

type_synonym counters = "(string \<times> agg) list"

record metrics =
  mt_active :: int
  mt_search :: counters
  mt_providers :: "(string \<times> counters) list"
  mt_quotaRejected :: counters

definition metrics_New :: metrics where
  "metrics_New = \<lparr>mt_active = 0, mt_search = [], mt_providers = [], mt_quotaRejected = []\<rparr>"

definition RequestStarted :: "metrics \<Rightarrow> metrics" where
  "RequestStarted m = m\<lparr>mt_active := mt_active m + 1\<rparr>"

definition RequestEnded :: "metrics \<Rightarrow> metrics" where
  "RequestEnded m = m\<lparr>mt_active := mt_active m - 1\<rparr>"

definition get_agg :: "counters \<Rightarrow> string \<Rightarrow> agg" where
  "get_agg byKey key = (case map_of byKey key of None \<Rightarrow> zero_agg | Some a \<Rightarrow> a)"

definition metrics_record :: "counters \<Rightarrow> string \<Rightarrow> int \<Rightarrow> counters" where
  "metrics_record byKey key ms =
     (let a = get_agg byKey key
      in AList.update key (a\<lparr>ag_count := ag_count a + 1, ag_sumMS := ag_sumMS a + ms\<rparr>) byKey)"

definition RecordSearch :: "string \<Rightarrow> int \<Rightarrow> metrics \<Rightarrow> metrics" where
  "RecordSearch status ms m =
     m\<lparr>mt_search := metrics_record (mt_search m) (if status = [] then ''fail'' else status) ms\<rparr>"

definition provider_counters :: "metrics \<Rightarrow> string \<Rightarrow> counters" where
  "provider_counters m p = (case map_of (mt_providers m) p of None \<Rightarrow> [] | Some c \<Rightarrow> c)"

definition RecordProvider :: "string \<Rightarrow> string \<Rightarrow> int \<Rightarrow> metrics \<Rightarrow> metrics" where
  "RecordProvider provider status ms m =
     (let p = (if provider = [] then ''unknown'' else provider);
          s = (if status = [] then ''fail'' else status)
      in m\<lparr>mt_providers := AList.update p (metrics_record (provider_counters m p) s ms) (mt_providers m)\<rparr>)"

definition RecordQuotaRejected :: "string \<Rightarrow> metrics \<Rightarrow> metrics" where
  "RecordQuotaRejected period m =
     (let p = (if period = [] then ''unknown'' else period);
          a = get_agg (mt_quotaRejected m) p
      in m\<lparr>mt_quotaRejected := AList.update p (a\<lparr>ag_count := ag_count a + 1\<rparr>) (mt_quotaRejected m)\<rparr>)"

text \<open>\<open>QuotaRejected\<close> dereferences the entry: \<open>None\<close> is the nil-pointer panic.\<close>

definition QuotaRejected :: "metrics \<Rightarrow> string \<Rightarrow> int option" where
  "QuotaRejected m period = map_option ag_count (map_of (mt_quotaRejected m) period)"

subsection \<open>Rendering\<close>

definition nl :: string where
  "nl = [CHR 0x0A]"

definition header :: "string \<Rightarrow> string \<Rightarrow> string \<Rightarrow> string" where
  "header name help typ = ''# HELP '' @ name @ '' '' @ help @ nl @ ''# TYPE '' @ name @ '' '' @ typ @ nl"

definition escape_char :: "char \<Rightarrow> string" where
  "escape_char c =
     (if c = CHR 0x5C then [CHR 0x5C, CHR 0x5C]
      else if c = CHR 0x22 then [CHR 0x5C, CHR 0x22]
      else if c = CHR 0x0A then [CHR 0x5C, CHR ''n''] else [c])"

definition escapeLabel :: "string \<Rightarrow> string" where
  "escapeLabel s =
     (if \<not> (\<exists>c \<in> set s. c \<in> {CHR 0x5C, CHR 0x22, CHR 0x0A}) then s
      else concat (map escape_char s))"

definition label :: "string \<Rightarrow> string \<Rightarrow> string" where
  "label name value = name @ ''='' @ [CHR 0x22] @ escapeLabel value @ [CHR 0x22]"

text \<open>
  \<open>FormatFloat(ms/1000, 'f', 6)\<close>: milliseconds give three exact decimals (for sums below
  \<open>2^53\<close>, beyond which the quotient of the code is rounded).
\<close>

definition digits3 :: "int \<Rightarrow> string" where
  "digits3 n = map (\<lambda>d. digit_char (nat d)) [n div 100 mod 10, n div 10 mod 10, n mod 10]"

definition seconds :: "int \<Rightarrow> string" where
  "seconds ms = (if ms < 0 then ''-'' else []) @ Itoa (\<bar>ms\<bar> div 1000) @ ''.'' @ digits3 (\<bar>ms\<bar> mod 1000) @ ''000''"

definition metrics_sortedKeys :: "(string \<times> 'a) list \<Rightarrow> string list" where
  "metrics_sortedKeys m = sort (map fst m)"

definition searchStatuses :: "string list" where
  "searchStatuses = [''ok'', ''empty'', ''fail'']"

definition metric_line :: "string \<Rightarrow> string list \<Rightarrow> string \<Rightarrow> string" where
  "metric_line name labels value =
     name @ (if labels = [] then [] else ''{'' @ Join labels '','' @ ''}'') @ '' '' @ value @ nl"

definition agg_totals :: "counters \<Rightarrow> int \<times> int" where
  "agg_totals cs = (sum_list (map (ag_sumMS \<circ> snd) cs), sum_list (map (ag_count \<circ> snd) cs))"

definition Render :: "string \<Rightarrow> int \<Rightarrow> metrics \<Rightarrow> string" where
  "Render version sseClients m =
     (let search = mt_search m; provs = mt_providers m; quota = mt_quotaRejected m;
          searchSum = sum_list (map (\<lambda>s. ag_sumMS (get_agg search s)) searchStatuses);
          searchCount = sum_list (map (\<lambda>s. ag_count (get_agg search s)) searchStatuses);
          names = metrics_sortedKeys provs
      in header ''serpentseek_build_info'' ''Build information (always 1).'' ''gauge''
         @ metric_line ''serpentseek_build_info'' [label ''version'' version] ''1''
         @ header ''serpentseek_active_requests'' ''In-flight search requests.'' ''gauge''
         @ metric_line ''serpentseek_active_requests'' [] (Itoa (mt_active m))
         @ header ''serpentseek_sse_clients'' ''Connected SSE subscribers.'' ''gauge''
         @ metric_line ''serpentseek_sse_clients'' [] (Itoa sseClients)
         @ header ''serpentseek_search_requests_total'' ''Completed search requests by final status.'' ''counter''
         @ concat (map (\<lambda>s. metric_line ''serpentseek_search_requests_total'' [label ''status'' s]
                               (Itoa (ag_count (get_agg search s)))) searchStatuses)
         @ header ''serpentseek_search_duration_seconds'' ''Search execution time.'' ''summary''
         @ metric_line ''serpentseek_search_duration_seconds_sum'' [] (seconds searchSum)
         @ metric_line ''serpentseek_search_duration_seconds_count'' [] (Itoa searchCount)
         @ header ''serpentseek_provider_requests_total'' ''Provider attempts by outcome.'' ''counter''
         @ concat (map (\<lambda>n. concat (map (\<lambda>s. metric_line ''serpentseek_provider_requests_total''
                               [label ''provider'' n, label ''status'' s]
                               (Itoa (ag_count (get_agg (provider_counters m n) s))))
                             (metrics_sortedKeys (provider_counters m n)))) names)
         @ header ''serpentseek_quota_rejected_total''
             ''Search requests rejected by a per-user quota, by reset period.'' ''counter''
         @ concat (map (\<lambda>p. metric_line ''serpentseek_quota_rejected_total'' [label ''period'' p]
                               (Itoa (ag_count (get_agg quota p)))) (metrics_sortedKeys quota))
         @ header ''serpentseek_provider_duration_seconds'' ''Provider attempt execution time.'' ''summary''
         @ concat (map (\<lambda>n. let (sm, ct) = agg_totals (provider_counters m n)
                            in metric_line ''serpentseek_provider_duration_seconds_sum'' [label ''provider'' n] (seconds sm)
                             @ metric_line ''serpentseek_provider_duration_seconds_count'' [label ''provider'' n] (Itoa ct))
                     names))"

subsection \<open>Counting\<close>

definition search_count :: "metrics \<Rightarrow> string \<Rightarrow> int" where
  "search_count m status = ag_count (get_agg (mt_search m) status)"

definition provider_count :: "metrics \<Rightarrow> string \<Rightarrow> string \<Rightarrow> int" where
  "provider_count m p status = ag_count (get_agg (provider_counters m p) status)"

lemma get_agg_update: "get_agg (AList.update key a cs) k = (if k = key then a else get_agg cs k)"
  by (simp add: get_agg_def update_conv')

lemma get_agg_record:
  "get_agg (metrics_record cs key ms) k =
     (if k = key then \<lparr>ag_count = ag_count (get_agg cs k) + 1, ag_sumMS = ag_sumMS (get_agg cs k) + ms\<rparr>
      else get_agg cs k)"
  by (cases "get_agg cs key") (simp add: metrics_record_def get_agg_update)

lemma RecordProvider_count:
  "provider_count (RecordProvider p s ms m) q t =
     provider_count m q t + (if q = (if p = [] then ''unknown'' else p) \<and> t = (if s = [] then ''fail'' else s) then 1 else 0)"
  by (simp add: RecordProvider_def provider_count_def provider_counters_def update_conv' get_agg_record Let_def)

lemma RecordSearch_count:
  "search_count (RecordSearch s ms m) t = search_count m t + (if t = (if s = [] then ''fail'' else s) then 1 else 0)"
  by (simp add: RecordSearch_def search_count_def get_agg_record)

lemma Record_frame [frame]:
  "search_count (RecordProvider p s ms m) t = search_count m t"
  "provider_count (RecordSearch s ms m) q t = provider_count m q t"
  "mt_active (RecordProvider p s ms m) = mt_active m" "mt_active (RecordSearch s ms m) = mt_active m"
  by (simp_all add: RecordProvider_def RecordSearch_def search_count_def provider_count_def
      provider_counters_def Let_def)

lemma QuotaRejected_after: "\<exists>n. QuotaRejected (RecordQuotaRejected p m) (if p = [] then ''unknown'' else p) = Some n"
  by (simp add: QuotaRejected_def RecordQuotaRejected_def Let_def update_conv')

text \<open>An escaped label value has no raw quote or newline, so it cannot end the label early.\<close>

lemma escapeLabel_safe: "CHR 0x0A \<notin> set (escapeLabel s)"
  by (auto simp: escapeLabel_def escape_char_def)

fun unescape :: "string \<Rightarrow> string" where
  "unescape (a # b # rest) =
     (if a = CHR 0x5C then (if b = CHR ''n'' then CHR 0x0A else b) # unescape rest
      else a # unescape (b # rest))"
| "unescape s = s"

lemma unescape_Cons: "c \<noteq> CHR 0x5C \<Longrightarrow> unescape (c # s) = c # unescape s"
  by (cases s) auto

lemma unescape_escape: "unescape (concat (map escape_char s)) = s"
  by (induction s) (auto simp: escape_char_def unescape_Cons)

lemma escapeLabel_plain: "\<not> (\<exists>c \<in> set s. c \<in> {CHR 0x5C, CHR 0x22, CHR 0x0A}) \<Longrightarrow> concat (map escape_char s) = s"
  by (induction s) (auto simp: escape_char_def)

lemma escapeLabel_concat: "escapeLabel s = concat (map escape_char s)"
  using escapeLabel_plain [of s] by (simp add: escapeLabel_def)

lemma escapeLabel_roundtrip: "unescape (escapeLabel s) = s"
  by (simp add: escapeLabel_concat unescape_escape)

end
