(* ===== verification/Engine_State.thy ===== *)
theory Engine_State
  imports Plan Cooldown Walk_State Logging Metrics
begin

text \<open>
  What a running request reads and writes (\<open>internal/engine/engine.go\<close>, \<open>events.go\<close>):
  the events it publishes, the environment that is fixed for the run, and the state the
  operations thread. A provider's \<open>Search\<close> is the argument \<open>env_search\<close> of the
  environment, indexed by the number of attempts begun before, so that it may answer
  differently each time. Time passes in provider calls and in sleeps only.
\<close>

subsection \<open>Events\<close>

record StepStarted =
  ss_Idx :: nat
  ss_Node :: string
  ss_Provider :: string
  ss_Engine :: string
  ss_Attempt :: nat
  ss_T0 :: time

record StepFinished =
  sf_Idx :: nat
  sf_Node :: string
  sf_Provider :: string
  sf_Engine :: string
  sf_Stage :: string
  sf_Attempt :: nat
  sf_HTTP :: int
  sf_Kind :: string
  sf_Results :: nat
  sf_TookMS :: int
  sf_Permanent :: bool
  sf_Error :: string

record ProviderDead =
  pd_Provider :: string
  pd_Reason :: string

record MergeProgress =
  mp_Collected :: nat
  mp_Unique :: nat

record MergeDone =
  md_CollectedTotal :: nat
  md_UniqueLinks :: nat
  md_DuplicatesRemoved :: nat

record RequestDone =
  rd_ID :: string
  rd_RID :: string
  rd_Status :: string
  rd_Used :: string
  rd_Steps :: int
  rd_TotalMS :: int
  rd_Results :: nat
  rd_Answer :: string
  rd_Error :: string
  rd_CollectedTotal :: nat
  rd_UniqueLinks :: nat
  rd_DuplicatesRemoved :: nat

datatype event =
    EventStepStarted StepStarted
  | EventStepFinished StepFinished
  | EventProviderDead ProviderDead
  | EventRequestDone RequestDone
  | EventMergeProgress MergeProgress
  | EventMergeDone MergeDone
  | EventRequestNew Request
  | Webhook string string

text \<open>An event goes to the request's own stream, or to every dashboard.\<close>

datatype audience = ToRequest | Everyone

subsection \<open>Calls of a provider\<close>

record ProxyConfig =
  pc_Type :: string
  pc_Host :: string
  pc_Port :: string
  pc_Username :: string
  pc_Password :: string

record call_args =
  ca_Driver :: string
  ca_Text :: string
  ca_Count :: int
  ca_Attempt :: string
  ca_Creds :: "(string \<times> string) list"
  ca_Params :: "string \<rightharpoonup> string"
  ca_Proxy :: "ProxyConfig option"
  ca_Deadline :: time

text \<open>
  What one attempt meets: the error of the concurrency limiter, if the slot is not granted
  before the deadline; the result of the search otherwise, with the stages a multi-call
  driver reported; and the nanoseconds that pass.
\<close>

record call_outcome =
  co_Acquire :: "go_error option"
  co_Result :: Result
  co_Stages :: "StageCall list"
  co_Elapsed :: nat

record invocation =
  iv_Node :: string
  iv_Provider :: string
  iv_Attempt :: nat
  iv_Args :: call_args
  iv_Result :: Result

subsection \<open>Environment and state\<close>

text \<open>The settings a run reads, as resolved by the settings manager.\<close>

record engine_settings =
  es_ChainTimeout :: int
  es_MaxAttempts :: int
  es_MaxConcurrency :: int
  es_ProviderFailures :: int
  es_ProviderCooldown :: int
  es_TreatEmptyAsFail :: bool
  es_AllowSparseSources :: bool
  es_IgnoreRequestCount :: bool
  es_RetryHTTPCodes :: "int list"
  es_APRetryCodes :: "string list"
  es_WebhookURL :: string

text \<open>
  \<open>env_req\<close> is the request row as created; \<open>env_done\<close> is the instant the context of the run ends (deadline or cancellation);
  \<open>env_link\<close> the normalization of links.
\<close>

record run_env =
  env_settings :: engine_settings
  env_registry :: "string set"
  env_search :: "nat \<Rightarrow> call_args \<Rightarrow> call_outcome"
  env_providers :: "string \<rightharpoonup> Provider"
  env_proxies :: "string \<rightharpoonup> Proxy"
  env_plan :: Plan
  env_req :: Request
  env_startedAt :: time
  env_done :: "time option"
  env_link :: "string \<Rightarrow> string"

abbreviation env_Query :: "run_env \<Rightarrow> string" where
  "env_Query env \<equiv> rq_Query (env_req env)"

abbreviation env_Count :: "run_env \<Rightarrow> int" where
  "env_Count env \<equiv> rq_Count (env_req env)"

abbreviation env_ReqID :: "run_env \<Rightarrow> string" where
  "env_ReqID env \<equiv> rq_ID (env_req env)"

record run_state =
  rs_ws :: walkState
  rs_cooldowns :: cooldowns
  rs_secrets :: redactor
  rs_metrics :: metrics
  rs_clock :: time
  rs_answer :: string
  rs_error :: string
  rs_steps :: "RequestStep list"
  rs_events :: "(audience \<times> event) list"
  rs_invoked :: "invocation list"
  rs_attempts :: nat

definition publish :: "event \<Rightarrow> run_state \<Rightarrow> run_state" where
  "publish ev st = st\<lparr>rs_events := rs_events st @ [(ToRequest, ev)]\<rparr>"

definition publish_global :: "event \<Rightarrow> run_state \<Rightarrow> run_state" where
  "publish_global ev st = st\<lparr>rs_events := rs_events st @ [(Everyone, ev)]\<rparr>"

definition SaveStep :: "RequestStep \<Rightarrow> run_state \<Rightarrow> run_state" where
  "SaveStep step st = st\<lparr>rs_steps := rs_steps st @ [step]\<rparr>"

definition AddSecret :: "string list \<Rightarrow> run_state \<Rightarrow> run_state" where
  "AddSecret vs st = st\<lparr>rs_secrets := redactor_Add (rs_secrets st) vs\<rparr>"

definition Redact :: "run_state \<Rightarrow> string \<Rightarrow> string" where
  "Redact st s = redactor_String (rs_secrets st) s"

definition notifyEvent :: "run_env \<Rightarrow> string \<Rightarrow> string \<Rightarrow> run_state \<Rightarrow> run_state" where
  "notifyEvent env event target st =
     (if es_WebhookURL (env_settings env) = [] then st else publish_global (Webhook event target) st)"

definition ctx_ended :: "run_env \<Rightarrow> run_state \<Rightarrow> bool" where
  "ctx_ended env st \<longleftrightarrow> (case env_done env of None \<Rightarrow> False | Some d \<Rightarrow> d \<le> rs_clock st)"

subsection \<open>Delays\<close>

definition millisecond :: int64 where
  "millisecond = int64_of (10 ^ 6)"

definition second :: int64 where
  "second = int64_of (10 ^ 9)"

definition max_delay :: int64 where
  "max_delay = 30 * second"

definition capDelay :: "int64 \<Rightarrow> int64" where
  "capDelay d = (if sint d < 0 then 0 else if sint d > sint max_delay then max_delay else d)"

definition backoffDelay :: "ChainNode \<Rightarrow> nat \<Rightarrow> bool \<Rightarrow> int64" where
  "backoffDelay node attempt sameProvider =
     (if \<not> sameProvider then 0
      else
        (let base = int64_of (n_RetryDelayMS node) * millisecond;
             policy = ToLower (n_DelayPolicy node)
         in if policy = ''none'' then 0
            else if policy = ''fixed'' then capDelay base
            else capDelay (base * int64_of (int attempt + 1))))"

text \<open>The instant a sleep ends, and whether it was not cut short by the context.\<close>

definition sleep_end :: "run_env \<Rightarrow> time \<Rightarrow> int64 \<Rightarrow> time \<times> bool" where
  "sleep_end env now d =
     (case env_done env of
        None \<Rightarrow> (now + max 0 (sint d), True)
      | Some e \<Rightarrow>
          if sint d \<le> 0 then (now, \<not> e \<le> now)
          else if e < now + sint d then (max now e, False)
          else (now + sint d, True))"

definition sleepCtx :: "run_env \<Rightarrow> int64 \<Rightarrow> run_state \<Rightarrow> bool \<times> run_state" where
  "sleepCtx env d st =
     (let (t, ok) = sleep_end env (rs_clock st) d in (ok, st\<lparr>rs_clock := max (rs_clock st) t\<rparr>))"

definition honorRetryAfter :: "run_env \<Rightarrow> Result \<Rightarrow> run_state \<Rightarrow> run_state" where
  "honorRetryAfter env r st =
     (if r_RetryAfterMS r \<le> 0 then st
      else snd (sleepCtx env (capDelay (int64_of (r_RetryAfterMS r) * millisecond)) st))"

lemma sint_second: "sint second = 10 ^ 9"
  by (simp add: second_def sint_int64_of)

lemma max_delay_eq: "max_delay = int64_of (30 * 10 ^ 9)"
  by (simp add: max_delay_def second_def int64_of_def)

lemma sint_max_delay: "sint max_delay = 30 * 10 ^ 9"
  unfolding max_delay_eq by (rule sint_int64_of) simp_all

lemma capDelay_range: "0 \<le> sint (capDelay d) \<and> sint (capDelay d) \<le> 30 * 10 ^ 9"
  by (auto simp: capDelay_def sint_max_delay)

lemma capDelay_id: "0 \<le> sint d \<Longrightarrow> sint d \<le> 30 * 10 ^ 9 \<Longrightarrow> capDelay d = d"
  by (simp add: capDelay_def sint_max_delay)

lemma backoffDelay_range: "0 \<le> sint (backoffDelay n a s) \<and> sint (backoffDelay n a s) \<le> 30 * 10 ^ 9"
  using capDelay_range by (simp add: backoffDelay_def Let_def)

lemma sleep_end_ge: "now \<le> fst (sleep_end env now d)"
  by (auto simp: sleep_end_def split: option.splits)

lemma sleep_end_le: "fst (sleep_end env now d) \<le> now + max 0 (sint d)"
  by (auto simp: sleep_end_def split: option.splits)

lemma sleepCtx_clock: "rs_clock st \<le> rs_clock (snd (sleepCtx env d st))
    \<and> rs_clock (snd (sleepCtx env d st)) \<le> rs_clock st + max 0 (sint d)"
  using sleep_end_ge [of "rs_clock st" env d] sleep_end_le [of env "rs_clock st" d]
  by (auto simp: sleepCtx_def split: prod.splits)

text \<open>
  The exact value of the linear backoff, when the multiplication does not leave 64 bits:
  node delays are validated to be non-negative but not bounded above.
\<close>

lemma int64_of_mult: "int64_of a * int64_of b = int64_of (a * b)"
  by (simp add: int64_of_def)

lemma backoffDelay_linear:
  assumes "ToLower (n_DelayPolicy n) \<notin> {''none'', ''fixed''}" "0 \<le> n_RetryDelayMS n"
    and "n_RetryDelayMS n * 10 ^ 6 * (int attempt + 1) < 2 ^ 63"
  shows "sint (backoffDelay n attempt True) = min (30 * 10 ^ 9) (n_RetryDelayMS n * 10 ^ 6 * (int attempt + 1))"
proof -
  let ?d = "n_RetryDelayMS n * 10 ^ 6 * (int attempt + 1)"
  have "backoffDelay n attempt True = capDelay (int64_of ?d)"
    using assms(1) by (simp add: backoffDelay_def millisecond_def int64_of_mult Let_def)
  moreover have "sint (int64_of ?d) = ?d"
    using assms(2,3) by (intro sint_int64_of) (auto intro: order_trans [of _ 0])
  moreover have "0 \<le> ?d" using assms(2) by simp
  ultimately show ?thesis
    by (auto simp: capDelay_def sint_max_delay simp del: mult_less_0_iff)
qed

end
