(* ===== verification/Exec_Node.thy ===== *)
theory Exec_Node
  imports Engine_State
begin

text \<open>
  One block of a chain (\<open>internal/engine/engine.go\<close>: \<open>resolveNode\<close>, \<open>execNode\<close> and what
  they call). The attempt loop is a state machine \<open>exec_step\<close> cut where other branches of
  the request may run: before an attempt, while its call is in flight, and while it sleeps.
  \<open>execNode\<close> runs it to the end.
\<close>

subsection \<open>Results\<close>

abbreviation KindOK :: string where "KindOK \<equiv> ''ok''"
abbreviation KindEmpty :: string where "KindEmpty \<equiv> ''empty''"
abbreviation KindAPI :: string where "KindAPI \<equiv> ''api''"
abbreviation KindHTTP :: string where "KindHTTP \<equiv> ''http''"
abbreviation KindNet :: string where "KindNet \<equiv> ''net''"
abbreviation KindTimeout :: string where "KindTimeout \<equiv> ''timeout''"

definition ClassifyTransport :: "go_error option \<Rightarrow> string" where
  "ClassifyTransport e =
     (case e of None \<Rightarrow> []
      | Some err \<Rightarrow>
          if err_DeadlineExceeded err then KindTimeout
          else if err_NetTimeout err then KindTimeout
          else (let msg = ToLower (err_Message err)
                in if Contains msg ''timeout'' \<or> Contains msg ''timed out'' \<or> Contains msg ''deadline exceeded''
                   then KindTimeout else KindNet))"

definition outcomeOf :: "Result \<Rightarrow> bool \<Rightarrow> string" where
  "outcomeOf r treatEmpty =
     (if r_OK r then (if r_Rows r = [] \<and> treatEmpty then ''empty'' else ''success'') else ''fail'')"

definition outcomeOfAnswer :: "Result \<Rightarrow> bool \<Rightarrow> string" where
  "outcomeOfAnswer r sparse =
     (if \<not> r_OK r then ''fail''
      else if TrimSpace (r_Answer r) \<noteq> [] then ''success''
      else if sparse \<and> r_Rows r \<noteq> [] then ''success'' else ''empty'')"

definition providerRows :: "Row list \<Rightarrow> int \<Rightarrow> Row list" where
  "providerRows rows count = (if count > 0 \<and> int (length rows) > count then take (nat count) rows else rows)"

definition providerMetricStatus :: "Result \<Rightarrow> string" where
  "providerMetricStatus r =
     (if \<not> r_OK r then ''fail'' else if r_Kind r = KindEmpty then ''empty'' else ''ok'')"

subsection \<open>Parameters and credentials\<close>

definition truthy :: "string \<Rightarrow> bool" where
  "truthy v \<longleftrightarrow> ToLower (TrimSpace v) \<in> {''1'', ''true'', ''yes'', ''on''}"

definition falsy :: "string \<Rightarrow> bool" where
  "falsy v \<longleftrightarrow> ToLower (TrimSpace v) \<in> {''0'', ''false'', ''no'', ''off''}"

definition param_override :: "(string \<rightharpoonup> string) \<Rightarrow> string \<Rightarrow> bool \<Rightarrow> bool" where
  "param_override params key dflt =
     (case params key of None \<Rightarrow> dflt
      | Some v \<Rightarrow> if truthy v then True else if falsy v then False else dflt)"

definition treatEmptyAsFail :: "run_env \<Rightarrow> ChainNode \<Rightarrow> bool" where
  "treatEmptyAsFail env node =
     param_override (n_Params node) ''treat_empty_as_fail'' (es_TreatEmptyAsFail (env_settings env))"

definition allowSparseSources :: "run_env \<Rightarrow> ChainNode \<Rightarrow> bool" where
  "allowSparseSources env node =
     param_override (n_Params node) ''allow_sparse_sources'' (es_AllowSparseSources (env_settings env))"

definition joinInts :: "int list \<Rightarrow> string" where
  "joinInts v = (if v = [] then [] else Join (map Itoa v) '','')"

definition set_default :: "string \<Rightarrow> string \<Rightarrow> (string \<rightharpoonup> string) \<Rightarrow> string \<rightharpoonup> string" where
  "set_default key val m = (if key \<in> dom m then m else m(key \<mapsto> val))"

definition buildParams :: "run_env \<Rightarrow> string \<Rightarrow> Provider option \<Rightarrow> ChainNode \<Rightarrow> string \<rightharpoonup> string" where
  "buildParams env driver inst node =
     (let m0 = (case inst of None \<Rightarrow> Map.empty
                | Some p \<Rightarrow> if p_BaseURL p \<noteq> [] then (p_Params p)(''base_url'' \<mapsto> p_BaseURL p) else p_Params p);
          m1 = set_default ''retry_http_codes'' (joinInts (es_RetryHTTPCodes (env_settings env))) m0;
          m2 = (if driver = ''apiserpent''
                then set_default ''ap_retry_codes'' (Join (es_APRetryCodes (env_settings env)) '','') m1 else m1)
      in m2 ++ n_Params node)"

definition creds_of :: "Provider option \<Rightarrow> (string \<times> string) list" where
  "creds_of inst = (case inst of None \<Rightarrow> [] | Some p \<Rightarrow> p_Credentials p)"

definition buildCredentials :: "Provider option \<Rightarrow> run_state \<Rightarrow> (string \<times> string) list \<times> run_state" where
  "buildCredentials inst st =
     (creds_of inst, AddSecret (filter (\<lambda>v. v \<noteq> []) (map snd (creds_of inst))) st)"

definition credential :: "(string \<times> string) list \<Rightarrow> string \<Rightarrow> string" where
  "credential creds k = (case map_of creds k of None \<Rightarrow> [] | Some v \<Rightarrow> v)"

definition proxyConfig :: "Proxy option \<Rightarrow> run_state \<Rightarrow> ProxyConfig option \<times> run_state" where
  "proxyConfig po st =
     (case po of None \<Rightarrow> (None, st)
      | Some p \<Rightarrow>
          if \<not> px_Enabled p \<or> TrimSpace (px_Host p) = [] then (None, st)
          else (Some \<lparr>pc_Type = px_Type p, pc_Host = TrimSpace (px_Host p), pc_Port = TrimSpace (px_Port p),
                      pc_Username = px_Username p, pc_Password = px_Password p\<rparr>,
                AddSecret [px_Password p] st))"

definition key_drivers :: "string list" where
  "key_drivers =
     [''apiserpent'', ''serpbase'', ''yandex'', ''yandex_gen'', ''google'', ''google_vertex'', ''google_cse'',
      ''brave'', ''serper'', ''serpapi'', ''searchapi'', ''dataforseo'', ''youcom'', ''jina'', ''firecrawl'',
      ''mojeek'', ''marginalia'', ''tavily'', ''exa'', ''linkup'', ''perplexity'', ''valyu'',
      ''parallel'', ''kagi'', ''vectara'', ''anthropic'', ''kimi_search'', ''kimi_search_pro'',
      ''deepseek_search'', ''ollama'']"

definition providerRequiresKey :: "string \<Rightarrow> bool" where
  "providerRequiresKey code \<longleftrightarrow> code \<in> set key_drivers"

subsection \<open>Resolving a block\<close>

record nodeTarget =
  nt_inst :: "Provider option"
  nt_proxy :: "Proxy option"
  nt_driver :: string
  nt_display :: string
  nt_known :: bool
  nt_answer :: bool
  nt_reason :: string

definition providerDisplay :: "string \<Rightarrow> Provider option \<Rightarrow> string" where
  "providerDisplay i po =
     (case po of None \<Rightarrow> i
      | Some p \<Rightarrow> if TrimSpace (p_Name p) \<noteq> [] then p_Name p else if p_Code p \<noteq> [] then p_Code p else i)"

definition deadDisabled :: string where "deadDisabled = ''provider_disabled''"
definition deadSearxngURL :: string where "deadSearxngURL = ''searxng_url_missing''"
definition deadServiceAccount :: string where "deadServiceAccount = ''service_account_missing''"
definition deadAPIKey :: string where "deadAPIKey = ''api_key_missing''"
definition deadMarked :: string where "deadMarked = ''provider_marked_dead''"
definition deadUnknownDriver :: string where "deadUnknownDriver = ''unknown_driver''"
definition deadCooldown :: string where "deadCooldown = ''provider_cooldown''"

lemmas dead_codes = deadDisabled_def deadSearxngURL_def deadServiceAccount_def deadAPIKey_def
  deadMarked_def deadUnknownDriver_def deadCooldown_def

definition instanceDeadReason :: "string \<Rightarrow> Provider option \<Rightarrow> run_state \<Rightarrow> string \<times> run_state" where
  "instanceDeadReason driver p st =
     (if (case p of None \<Rightarrow> False | Some i \<Rightarrow> \<not> p_Enabled i) then (deadDisabled, st)
      else if driver = ''searxng'' \<and> TrimSpace (case p of None \<Rightarrow> [] | Some i \<Rightarrow> p_BaseURL i) = []
      then (deadSearxngURL, st)
      else if driver = ''vertex_search''
      then (let (creds, st1) = buildCredentials p st
            in (if TrimSpace (credential creds ''service_account_json'') = [] then deadServiceAccount else [], st1))
      else if providerRequiresKey driver
      then (let (creds, st1) = buildCredentials p st
            in (if TrimSpace (credential creds ''api_key'') = [] then deadAPIKey else [], st1))
      else ([], st))"

definition driver_of :: "run_env \<Rightarrow> ChainNode \<Rightarrow> string" where
  "driver_of env node =
     (case env_providers env (n_ProviderID node) of None \<Rightarrow> n_ProviderID node | Some p \<Rightarrow> ToLower (p_Code p))"

definition registry_Get :: "run_env \<Rightarrow> string \<Rightarrow> bool" where
  "registry_Get env code \<longleftrightarrow> ToLower (TrimSpace code) \<in> env_registry env"

definition is_answer :: "ChainNode \<Rightarrow> bool" where
  "is_answer node \<longleftrightarrow> EqualFold (TrimSpace (n_Mode node)) NodeModeAnswer"

definition resolveNode :: "run_env \<Rightarrow> ChainNode \<Rightarrow> run_state \<Rightarrow> nodeTarget \<times> run_state" where
  "resolveNode env node st =
     (let inst = env_providers env (n_ProviderID node);
          driver = driver_of env node;
          known = registry_Get env driver;
          (r0, st1) = instanceDeadReason driver inst st;
          r1 = (if r0 = [] \<and> isDead (rs_ws st1) (n_ProviderID node) then deadMarked else r0);
          (bl, cd) = (if r1 = [] then blocked (rs_cooldowns st1) (n_ProviderID node) (rs_clock st1)
                      else (False, rs_cooldowns st1));
          r2 = (if bl then deadCooldown else r1);
          r3 = (if \<not> known then deadUnknownDriver @ '':'' @ driver else r2)
      in (\<lparr>nt_inst = inst,
           nt_proxy = (case inst of None \<Rightarrow> None
                       | Some p \<Rightarrow> if p_ProxyID p \<noteq> [] then env_proxies env (p_ProxyID p) else None),
           nt_driver = driver, nt_display = providerDisplay (n_ProviderID node) inst, nt_known = known,
           nt_answer = is_answer node, nt_reason = r3\<rparr>,
          st1\<lparr>rs_cooldowns := cd\<rparr>))"

definition recordSkip :: "run_env \<Rightarrow> nat \<Rightarrow> ChainNode \<Rightarrow> string \<Rightarrow> string \<Rightarrow> run_state \<Rightarrow> run_state" where
  "recordSkip env idx node code reason st =
     (let st1 = st\<lparr>rs_metrics := RecordProvider code ''skip'' 0 (rs_metrics st)\<rparr>;
          now = rs_clock st;
          step = \<lparr>st_RequestID = env_ReqID env, st_Idx = idx, st_NodeKey = n_Key node, st_Provider = code,
            st_Engine = [], st_AttemptNo = 1, st_Stage = [], st_Status = ''skip'', st_Kind = ''skip'',
            st_HTTPStatus = 0, st_Error = reason, st_Permanent = False, st_ResultsCount = 0,
            st_WaitBeforeMS = 0, st_TookMS = 0, st_Cost = Finite 0, st_StartedAt = now, st_FinishedAt = now\<rparr>
      in publish (EventStepFinished \<lparr>sf_Idx = idx, sf_Node = n_Key node, sf_Provider = code, sf_Engine = [],
            sf_Stage = [], sf_Attempt = 0, sf_HTTP = 0, sf_Kind = ''skip'', sf_Results = 0, sf_TookMS = 0,
            sf_Permanent = False, sf_Error = reason\<rparr>) (SaveStep step st1))"

subsection \<open>One attempt\<close>

record nodeRun =
  nr_rows :: "Row list"
  nr_won :: bool
  nr_result :: Result
  nr_attempted :: bool

text \<open>What is fixed while the attempts of one block run.\<close>

record block =
  bk_idx :: nat
  bk_node :: ChainNode
  bk_target :: nodeTarget
  bk_params :: "string \<rightharpoonup> string"
  bk_creds :: "(string \<times> string) list"

datatype branch =
    BTry nat Result bool
  | BCall nat time call_outcome
  | BSleep nat time bool Result
  | BDone nodeRun

definition gave_up :: "Result \<Rightarrow> bool \<Rightarrow> nodeRun" where
  "gave_up r attempted = \<lparr>nr_rows = [], nr_won = False, nr_result = r, nr_attempted = attempted\<rparr>"

definition attempts_of :: "ChainNode \<Rightarrow> int" where
  "attempts_of node = n_Retries node + 1"

definition call_timeout :: "ChainNode \<Rightarrow> int64" where
  "call_timeout node =
     (let t = int64_of (n_TimeoutMS node) * millisecond in if sint t \<le> 0 then 20 * second else t)"

text \<open>Reserve a step, announce the attempt and send the request.\<close>

definition begin_attempt :: "run_env \<Rightarrow> block \<Rightarrow> nat \<Rightarrow> Result \<Rightarrow> run_state \<Rightarrow> branch \<times> run_state" where
  "begin_attempt env bk attempt prev st =
     (let node = bk_node bk; target = bk_target bk;
          t0 = rs_clock st;
          st2 = publish (EventStepStarted \<lparr>ss_Idx = bk_idx bk, ss_Node = n_Key node,
                  ss_Provider = nt_display target, ss_Engine = r_Engine prev, ss_Attempt = attempt, ss_T0 = t0\<rparr>) st;
          (pc, st3) = proxyConfig (nt_proxy target) st2;
          deadline = t0 + sint (call_timeout node);
          args = \<lparr>ca_Driver = ToLower (TrimSpace (nt_driver target)), ca_Text = env_Query env,
                  ca_Count = env_Count env, ca_Attempt = Itoa (int attempt), ca_Creds = bk_creds bk,
                  ca_Params = bk_params bk, ca_Proxy = pc,
                  ca_Deadline = (case env_done env of None \<Rightarrow> deadline | Some d \<Rightarrow> min d deadline)\<rparr>;
          out = env_search env (rs_attempts st3) args;
          st4 = st3\<lparr>rs_attempts := rs_attempts st3 + 1\<rparr>;
          st5 = (if co_Acquire out = None
                 then st4\<lparr>rs_invoked := rs_invoked st4 @ [\<lparr>iv_Node = n_Key node, iv_Provider = n_ProviderID node,
                            iv_Attempt = attempt, iv_Args = args, iv_Result = co_Result out\<rparr>]\<rparr>
                 else st4)
      in (BCall attempt t0 out, st5))"

text \<open>The result as the engine sees it: display name and redacted error.\<close>

definition attempt_result :: "block \<Rightarrow> call_outcome \<Rightarrow> run_state \<Rightarrow> Result" where
  "attempt_result bk out st =
     (let r = (case co_Acquire out of
                 Some err \<Rightarrow> zero_result\<lparr>r_Kind := KindTimeout,
                   r_Error := ''engine: waiting for concurrency slot: '' @ err_Message err\<rparr>
               | None \<Rightarrow> co_Result out)
      in r\<lparr>r_Provider := nt_display (bk_target bk), r_Error := Redact st (r_Error r)\<rparr>)"

definition step_rows :: "run_env \<Rightarrow> block \<Rightarrow> Result \<Rightarrow> Row list" where
  "step_rows env bk r =
     (if nt_answer (bk_target bk) \<and> \<not> allowSparseSources env (bk_node bk) then [] else r_Rows r)"

definition has_answer :: "block \<Rightarrow> Result \<Rightarrow> bool" where
  "has_answer bk r \<longleftrightarrow> nt_answer (bk_target bk) \<and> TrimSpace (r_Answer r) \<noteq> []"

definition will_sleep :: "block \<Rightarrow> nat \<Rightarrow> Result \<Rightarrow> run_state \<Rightarrow> bool" where
  "will_sleep bk attempt r st \<longleftrightarrow>
     \<not> r_OK r \<and> \<not> r_Permanent r \<and> int attempt + 1 < attempts_of (bk_node bk) \<and> hasBudget (rs_ws st)"

definition retry_delay :: "block \<Rightarrow> nat \<Rightarrow> Result \<Rightarrow> int64" where
  "retry_delay bk attempt r =
     (let d = backoffDelay (bk_node bk) attempt True;
          ra = capDelay (int64_of (r_RetryAfterMS r) * millisecond)
      in if sint ra > sint d then ra else d)"

definition attempt_status :: "run_env \<Rightarrow> block \<Rightarrow> Result \<Rightarrow> string" where
  "attempt_status env bk r =
     (if r_OK r \<and> has_answer bk r then ''ok''
      else if r_OK r \<and> step_rows env bk r \<noteq> [] then ''ok''
      else if r_OK r then ''empty'' else ''fail'')"

definition attempt_step ::
  "run_env \<Rightarrow> block \<Rightarrow> nat \<Rightarrow> time \<Rightarrow> call_outcome \<Rightarrow> Result \<Rightarrow> int64 \<Rightarrow> run_state \<Rightarrow> RequestStep" where
  "attempt_step env bk attempt t0 out r delay st =
     \<lparr>st_RequestID = env_ReqID env, st_Idx = bk_idx bk, st_NodeKey = n_Key (bk_node bk),
      st_Provider = nt_display (bk_target bk), st_Engine = r_Engine r, st_AttemptNo = attempt + 1,
      st_Stage = [], st_Status = attempt_status env bk r, st_Kind = r_Kind r, st_HTTPStatus = r_HTTPStatus r,
      st_Error = r_Error r, st_Permanent = r_Permanent r, st_ResultsCount = length (step_rows env bk r),
      st_WaitBeforeMS = sint delay div 10 ^ 6, st_TookMS = (rs_clock st - t0) div 10 ^ 6,
      st_Cost = (if co_Acquire out = None then CostPerRequest (nt_inst (bk_target bk)) else Finite 0),
      st_StartedAt = t0, st_FinishedAt = rs_clock st\<rparr>"

definition attempt_finished :: "block \<Rightarrow> nat \<Rightarrow> string \<Rightarrow> string \<Rightarrow> int \<Rightarrow> string \<Rightarrow> nat \<Rightarrow> int \<Rightarrow> bool \<Rightarrow> string \<Rightarrow> event" where
  "attempt_finished bk attempt engine stage http kind results took permanent err =
     EventStepFinished \<lparr>sf_Idx = bk_idx bk, sf_Node = n_Key (bk_node bk),
       sf_Provider = nt_display (bk_target bk), sf_Engine = engine, sf_Stage = stage, sf_Attempt = attempt,
       sf_HTTP = http, sf_Kind = kind, sf_Results = results, sf_TookMS = took, sf_Permanent = permanent,
       sf_Error = err\<rparr>"

text \<open>One history row and event per upstream call of a multi-call driver.\<close>

definition stage_step :: "run_env \<Rightarrow> block \<Rightarrow> nat \<Rightarrow> time \<Rightarrow> Result \<Rightarrow> StageCall \<Rightarrow> run_state \<Rightarrow> run_state" where
  "stage_step env bk attempt t0 r sc st =
     (let kind = (case sc_Err sc of None \<Rightarrow> KindOK
                  | Some e \<Rightarrow> if sc_HTTPStatus sc = 0 then ClassifyTransport (Some e) else KindHTTP);
          err = (case sc_Err sc of None \<Rightarrow> [] | Some e \<Rightarrow> Redact st (err_Message e));
          sub = \<lparr>st_RequestID = env_ReqID env, st_Idx = bk_idx bk, st_NodeKey = n_Key (bk_node bk),
            st_Provider = nt_display (bk_target bk), st_Engine = r_Engine r, st_AttemptNo = attempt + 1,
            st_Stage = sc_Stage sc, st_Status = (if sc_Err sc = None then ''ok'' else ''fail''), st_Kind = kind,
            st_HTTPStatus = sc_HTTPStatus sc, st_Error = err, st_Permanent = False, st_ResultsCount = 0,
            st_WaitBeforeMS = 0, st_TookMS = sc_TookMS sc, st_Cost = Finite 0, st_StartedAt = t0,
            st_FinishedAt = rs_clock st\<rparr>
      in publish (attempt_finished bk attempt (r_Engine r) (sc_Stage sc) (sc_HTTPStatus sc) kind 0
                    (sc_TookMS sc) False err) (SaveStep sub st))"

definition extra_steps :: "call_outcome \<Rightarrow> run_state \<Rightarrow> run_state" where
  "extra_steps out st =
     (let extra = int (length (co_Stages out)) - 1
      in if extra > 0 then st\<lparr>rs_ws := addSteps extra (rs_ws st)\<rparr> else st)"

text \<open>The part of the loop body between the return of the call and the decision.\<close>

definition record_attempt ::
  "run_env \<Rightarrow> block \<Rightarrow> nat \<Rightarrow> time \<Rightarrow> call_outcome \<Rightarrow> Result \<Rightarrow> int64 \<Rightarrow> run_state \<Rightarrow> run_state" where
  "record_attempt env bk attempt t0 out r delay st =
     (let node = bk_node bk; es = env_settings env;
          took = (rs_clock st - t0) div 10 ^ 6;
          st1 = SaveStep (attempt_step env bk attempt t0 out r delay st) st;
          st2 = publish (attempt_finished bk attempt (r_Engine r) [] (r_HTTPStatus r) (r_Kind r)
                   (length (step_rows env bk r)) took (r_Permanent r) (r_Error r)) st1;
          st3 = st2\<lparr>rs_metrics := RecordProvider (nt_display (bk_target bk)) (providerMetricStatus r) took (rs_metrics st2)\<rparr>;
          (tripped, cd) = observe (rs_cooldowns st3) (n_ProviderID node) (r_OK r) (es_ProviderFailures es)
                            (int64_of (es_ProviderCooldown es) * second) (rs_clock st3);
          st4 = st3\<lparr>rs_cooldowns := cd\<rparr>;
          st5 = (if tripped then notifyEvent env ''provider_cooldown'' (n_ProviderID node) st4 else st4)
      in extra_steps out (fold (stage_step env bk attempt t0 r) (co_Stages out) st5))"

text \<open>The call returns: its result, whether and how long to sleep, and the state once recorded.\<close>

definition call_return :: "block \<Rightarrow> time \<Rightarrow> call_outcome \<Rightarrow> run_state \<Rightarrow> Result \<times> run_state" where
  "call_return bk t0 out st =
     (let st1 = st\<lparr>rs_clock := max (rs_clock st) (t0 + int (co_Elapsed out))\<rparr>;
          r = attempt_result bk out st1
      in (r, if has_answer bk r then st1\<lparr>rs_answer := r_Answer r\<rparr> else st1))"

definition settle_attempt ::
  "run_env \<Rightarrow> block \<Rightarrow> nat \<Rightarrow> time \<Rightarrow> call_outcome \<Rightarrow> run_state \<Rightarrow> Result \<times> bool \<times> int64 \<times> run_state" where
  "settle_attempt env bk attempt t0 out st =
     (let (r, st2) = call_return bk t0 out st;
          sleep = will_sleep bk attempt r st2;
          delay = (if sleep then retry_delay bk attempt r else 0)
      in (r, sleep, delay, record_attempt env bk attempt t0 out r delay st2))"

text \<open>The end of the loop body: win, give up on the provider, sleep, or try again.\<close>

definition wins :: "run_env \<Rightarrow> block \<Rightarrow> Result \<Rightarrow> bool" where
  "wins env bk r \<longleftrightarrow> r_OK r \<and>
     (if nt_answer (bk_target bk) then TrimSpace (r_Answer r) \<noteq> [] \<or> step_rows env bk r \<noteq> []
      else r_Rows r \<noteq> [] \<or> \<not> treatEmptyAsFail env (bk_node bk))"

definition decide_attempt ::
  "run_env \<Rightarrow> block \<Rightarrow> nat \<Rightarrow> Result \<Rightarrow> bool \<Rightarrow> int64 \<Rightarrow> run_state \<Rightarrow> branch \<times> run_state" where
  "decide_attempt env bk attempt r sleep delay st =
     (if wins env bk r
      then (BDone \<lparr>nr_rows = (if nt_answer (bk_target bk) then step_rows env bk r else r_Rows r),
                   nr_won = True, nr_result = r, nr_attempted = True\<rparr>, st)
      else if r_Permanent r
      then (BDone (gave_up r True),
            publish (EventProviderDead \<lparr>pd_Provider = nt_display (bk_target bk), pd_Reason = r_Error r\<rparr>)
              (st\<lparr>rs_ws := markDead (n_ProviderID (bk_node bk)) (rs_ws st)\<rparr>))
      else if sleep
      then (let (t, ok) = sleep_end env (rs_clock st) delay in (BSleep attempt t ok r, st))
      else (BTry (Suc attempt) r True, st))"

definition finish_attempt :: "run_env \<Rightarrow> block \<Rightarrow> nat \<Rightarrow> time \<Rightarrow> call_outcome \<Rightarrow> run_state \<Rightarrow> branch \<times> run_state" where
  "finish_attempt env bk attempt t0 out st =
     (let (r, sleep, delay, st1) = settle_attempt env bk attempt t0 out st
      in decide_attempt env bk attempt r sleep delay st1)"

subsection \<open>The attempt loop\<close>

fun exec_step :: "run_env \<Rightarrow> block \<Rightarrow> branch \<Rightarrow> run_state \<Rightarrow> branch \<times> run_state" where
  "exec_step env bk (BTry attempt r attempted) st =
     (if int attempt < attempts_of (bk_node bk)
      then (let (granted, ws) = takeStep (rs_ws st); st1 = st\<lparr>rs_ws := ws\<rparr>
            in if granted then begin_attempt env bk attempt r st1 else (BDone (gave_up r attempted), st1))
      else (BDone (gave_up r attempted), st))"
| "exec_step env bk (BCall attempt t0 out) st = finish_attempt env bk attempt t0 out st"
| "exec_step env bk (BSleep attempt t ok r) st =
     (let st1 = st\<lparr>rs_clock := max (rs_clock st) t\<rparr>
      in (if ok then BTry (Suc attempt) r True else BDone (gave_up r True), st1))"
| "exec_step env bk (BDone run) st = (BDone run, st)"

fun exec_steps :: "nat \<Rightarrow> run_env \<Rightarrow> block \<Rightarrow> branch \<Rightarrow> run_state \<Rightarrow> branch \<times> run_state" where
  "exec_steps 0 env bk b st = (b, st)"
| "exec_steps (Suc n) env bk b st = (let (b', st') = exec_step env bk b st in exec_steps n env bk b' st')"

text \<open>Steps that are enough: three per attempt, and the final one.\<close>

definition branch_rank :: "ChainNode \<Rightarrow> branch \<Rightarrow> nat" where
  "branch_rank node b =
     (let left = (\<lambda>k. nat (attempts_of node) - k) in
      case b of
        BTry k r a \<Rightarrow> 3 * left k + 1
      | BCall k t out \<Rightarrow> 3 * left (Suc k) + 3
      | BSleep k t ok r \<Rightarrow> 3 * left (Suc k) + 2
      | BDone run \<Rightarrow> 0)"

definition start_branch :: branch where
  "start_branch = BTry 0 zero_result False"

definition branch_run :: "branch \<Rightarrow> nodeRun" where
  "branch_run b = (case b of BDone run \<Rightarrow> run | _ \<Rightarrow> gave_up zero_result False)"

definition mk_block :: "run_env \<Rightarrow> nat \<Rightarrow> ChainNode \<Rightarrow> nodeTarget \<Rightarrow> run_state \<Rightarrow> block \<times> run_state" where
  "mk_block env idx node target st =
     (let (creds, st1) = buildCredentials (nt_inst target) st
      in (\<lparr>bk_idx = idx, bk_node = node, bk_target = target,
           bk_params = buildParams env (nt_driver target) (nt_inst target) node, bk_creds = creds\<rparr>, st1))"

definition execNode :: "run_env \<Rightarrow> nat \<Rightarrow> ChainNode \<Rightarrow> nodeTarget \<Rightarrow> run_state \<Rightarrow> nodeRun \<times> run_state" where
  "execNode env idx node target st =
     (let (bk, st1) = mk_block env idx node target st;
          (b, st2) = exec_steps (branch_rank node start_branch) env bk start_branch st1
      in (branch_run b, st2))"

lemma exec_step_rank:
  "(\<forall>run. b \<noteq> BDone run) \<Longrightarrow> branch_rank (bk_node bk) (fst (exec_step env bk b st)) < branch_rank (bk_node bk) b"
  by (cases b) (auto simp: branch_rank_def begin_attempt_def finish_attempt_def
      decide_attempt_def Let_def split: prod.splits if_splits)

lemma exec_steps_done:
  "branch_rank (bk_node bk) b \<le> n \<Longrightarrow> \<exists>run. fst (exec_steps n env bk b st) = BDone run"
proof (induction n arbitrary: b st)
  case 0
  then show ?case by (cases b) (auto simp: branch_rank_def)
next
  case (Suc n)
  obtain b' st' where e: "exec_step env bk b st = (b', st')" by fastforce
  have "branch_rank (bk_node bk) b' \<le> n"
  proof (cases "\<exists>run. b = BDone run")
    case True
    with e show ?thesis by (auto simp: branch_rank_def)
  next
    case False
    with exec_step_rank [of b bk env st] e Suc.prems show ?thesis by simp
  qed
  with Suc.IH e show ?case by simp
qed

end
