(* ===== verification/Base64.thy ===== *)
theory Base64
  imports Go_Strings
begin

text \<open>
  The parts of \<open>encoding/base64\<close> and \<open>encoding/hex\<close> that the program calls, on byte
  strings: the standard and URL alphabets, raw (unpadded) and padded. As in Go, decoding
  ignores carriage returns and newlines and does not demand that unused bits are zero.
\<close>

subsection \<open>Alphabets and digits\<close>

definition alphabet_start :: string where
  "alphabet_start = ''ABCDEFGHIJKLMNOPQRSTUVWXYZabcdefghijklmnopqrstuvwxyz0123456789''"

definition std_alphabet :: string where
  "std_alphabet = alphabet_start @ ''+/''"

definition url_alphabet :: string where
  "url_alphabet = alphabet_start @ ''-_''"

definition byte :: "char \<Rightarrow> nat" where
  "byte c = of_char c"

definition digit_of :: "string \<Rightarrow> char \<Rightarrow> nat option" where
  "digit_of alpha c = IndexByte alpha c"

fun digits_of :: "string \<Rightarrow> string \<Rightarrow> nat list option" where
  "digits_of alpha [] = Some []"
| "digits_of alpha (c # cs) =
     (case (digit_of alpha c, digits_of alpha cs) of (Some d, Some ds) \<Rightarrow> Some (d # ds) | _ \<Rightarrow> None)"

subsection \<open>Groups of three bytes and four digits\<close>

fun to_sextets :: "nat list \<Rightarrow> nat list" where
  "to_sextets [] = []"
| "to_sextets [a] = [a div 4, a mod 4 * 16]"
| "to_sextets [a, b] = [a div 4, a mod 4 * 16 + b div 16, b mod 16 * 4]"
| "to_sextets (a # b # c # rest) =
     [a div 4, a mod 4 * 16 + b div 16, b mod 16 * 4 + c div 64, c mod 64] @ to_sextets rest"

fun from_sextets :: "nat list \<Rightarrow> nat list option" where
  "from_sextets [] = Some []"
| "from_sextets [x] = None"
| "from_sextets [x, y] = Some [x * 4 + y div 16]"
| "from_sextets [x, y, z] = Some [x * 4 + y div 16, y mod 16 * 16 + z div 4]"
| "from_sextets (x # y # z # w # rest) =
     map_option (\<lambda>bs. [x * 4 + y div 16, y mod 16 * 16 + z div 4, z mod 4 * 64 + w] @ bs) (from_sextets rest)"

definition raw_encode :: "string \<Rightarrow> string \<Rightarrow> string" where
  "raw_encode alpha s = map (\<lambda>d. alpha ! d) (to_sextets (map byte s))"

definition no_newlines :: "string \<Rightarrow> string" where
  "no_newlines s = filter (\<lambda>c. c \<noteq> CHR 0x0A \<and> c \<noteq> CHR 0x0D) s"

definition decode_digits :: "string \<Rightarrow> string \<Rightarrow> string option" where
  "decode_digits alpha s =
     (case digits_of alpha s of None \<Rightarrow> None
      | Some ds \<Rightarrow> map_option (map char_of) (from_sextets ds))"

definition raw_decode :: "string \<Rightarrow> string \<Rightarrow> string option" where
  "raw_decode alpha s = decode_digits alpha (no_newlines s)"

definition pad_encode :: "string \<Rightarrow> string \<Rightarrow> string" where
  "pad_encode alpha s = (let e = raw_encode alpha s in e @ replicate ((4 - length e mod 4) mod 4) CHR ''='')"

text \<open>With padding, the length is a multiple of four and at most two \<open>=\<close> end the input.\<close>

definition pad_decode :: "string \<Rightarrow> string \<Rightarrow> string option" where
  "pad_decode alpha s =
     (let t = no_newlines s; body = TrimSuffix (TrimSuffix t ''='') ''='' in
      if length t mod 4 \<noteq> 0 then None else decode_digits alpha body)"

subsection \<open>Hexadecimal\<close>

definition hex_alphabet :: string where
  "hex_alphabet = ''0123456789abcdef''"

definition hex_val :: "char \<Rightarrow> nat option" where
  "hex_val c = digit_of hex_alphabet (if CHR ''A'' \<le> c \<and> c \<le> CHR ''F'' then lower_char c else c)"

definition hex_encode :: "string \<Rightarrow> string" where
  "hex_encode s = concat (map (\<lambda>c. [hex_alphabet ! (byte c div 16), hex_alphabet ! (byte c mod 16)]) s)"

fun hex_decode :: "string \<Rightarrow> string option" where
  "hex_decode [] = Some []"
| "hex_decode [c] = None"
| "hex_decode (c # d # cs) =
     (case (hex_val c, hex_val d, hex_decode cs) of
        (Some x, Some y, Some r) \<Rightarrow> Some (char_of (16 * x + y) # r) | _ \<Rightarrow> None)"

subsection \<open>Decoding inverts encoding\<close>

lemma byte_less [simp]: "byte c < 256"
  unfolding byte_def by (metis mod_less_divisor of_char_mod_256 zero_less_numeral)

lemma char_of_byte [simp]: "char_of (byte c) = c"
  by (simp add: byte_def)

lemma map_char_of_byte [simp]: "map (char_of \<circ> byte) s = s"
  by (simp add: comp_def)

lemma IndexByte_nth: "distinct xs \<Longrightarrow> i < length xs \<Longrightarrow> IndexByte xs (xs ! i) = Some i"
proof (induction xs arbitrary: i)
  case (Cons a xs)
  then show ?case by (cases i) auto
qed simp

lemma IndexByte_SomeD: "IndexByte xs c = Some i \<Longrightarrow> i < length xs \<and> xs ! i = c"
  by (induction xs arbitrary: i) (auto split: if_splits)

lemma IndexByte_append: "IndexByte (xs @ ys) c = (case IndexByte xs c of Some i \<Rightarrow> Some i
     | None \<Rightarrow> map_option ((+) (length xs)) (IndexByte ys c))"
  by (induction xs) (auto split: option.splits simp: option.map_comp comp_def map_option_case)

lemma alphabets:
  "length std_alphabet = 64" "distinct std_alphabet" "length url_alphabet = 64" "distinct url_alphabet"
  by code_simp+

lemma to_sextets_less: "\<forall>b \<in> set bs. b < 256 \<Longrightarrow> \<forall>d \<in> set (to_sextets bs). d < 64"
  by (induction bs rule: to_sextets.induct) auto

lemma from_to_sextets: "\<forall>b \<in> set bs. b < 256 \<Longrightarrow> from_sextets (to_sextets bs) = Some bs"
proof (induction bs rule: to_sextets.induct)
  case (4 a b c rest)
  then have "(a mod 4 * 16 + b div 16) div 16 = a mod 4" "(a mod 4 * 16 + b div 16) mod 16 = b div 16"
    "(b mod 16 * 4 + c div 64) div 4 = b mod 16" "(b mod 16 * 4 + c div 64) mod 4 = c div 64" by auto
  with 4 show ?case by (simp add: mult.commute)
qed auto

lemma digits_of_nth: "distinct alpha \<Longrightarrow> \<forall>d \<in> set ds. d < length alpha \<Longrightarrow>
    digits_of alpha (map (\<lambda>d. alpha ! d) ds) = Some ds"
  by (induction ds) (auto simp: digit_of_def IndexByte_nth)

lemma decode_digits_encode:
  assumes "distinct alpha" and "length alpha = 64"
  shows "decode_digits alpha (raw_encode alpha s) = Some s"
proof -
  have b: "\<forall>b \<in> set (map byte s). b < 256" by auto
  then have "\<forall>d \<in> set (to_sextets (map byte s)). d < length alpha" using to_sextets_less assms(2) by metis
  then have "digits_of alpha (raw_encode alpha s) = Some (to_sextets (map byte s))"
    unfolding raw_encode_def using digits_of_nth [OF assms(1)] by blast
  then show ?thesis using from_to_sextets [OF b] by (simp add: decode_digits_def)
qed

lemma raw_encode_chars:
  assumes "length alpha = 64"
  shows "set (raw_encode alpha s) \<subseteq> set alpha"
  using to_sextets_less [of "map byte s"] assms by (auto simp: raw_encode_def)

lemma no_newlines_id: "CHR 0x0A \<notin> set s \<Longrightarrow> CHR 0x0D \<notin> set s \<Longrightarrow> no_newlines s = s"
  by (auto simp: no_newlines_def filter_id_conv)

lemma no_newline_alphabets:
  "CHR 0x0A \<notin> set std_alphabet" "CHR 0x0D \<notin> set std_alphabet" "CHR ''='' \<notin> set std_alphabet"
  "CHR 0x0A \<notin> set url_alphabet" "CHR 0x0D \<notin> set url_alphabet" "CHR ''='' \<notin> set url_alphabet"
  by code_simp+

definition b64_alphabet :: "string \<Rightarrow> bool" where
  "b64_alphabet alpha \<longleftrightarrow> alpha \<in> {std_alphabet, url_alphabet}"

lemma b64_alphabetD:
  assumes "b64_alphabet alpha"
  shows "distinct alpha" "length alpha = 64" "CHR 0x0A \<notin> set alpha" "CHR 0x0D \<notin> set alpha" "CHR ''='' \<notin> set alpha"
  using assms alphabets no_newline_alphabets by (auto simp: b64_alphabet_def)

lemma raw_roundtrip: "b64_alphabet alpha \<Longrightarrow> raw_decode alpha (raw_encode alpha s) = Some s"
  using b64_alphabetD [of alpha] raw_encode_chars [of alpha s] decode_digits_encode [of alpha s]
  unfolding raw_decode_def by (subst no_newlines_id) auto

subsection \<open>Lengths and padding\<close>

lemma length_to_sextets: "length (to_sextets bs) = (4 * length bs + 2) div 3"
  by (induction bs rule: to_sextets.induct) auto

lemma length_raw_encode [simp]: "length (raw_encode alpha s) = (4 * length s + 2) div 3"
  by (simp add: raw_encode_def length_to_sextets)

lemma length_from_sextets: "from_sextets ds = Some bs \<Longrightarrow> length bs = 3 * length ds div 4"
  by (induction ds arbitrary: bs rule: from_sextets.induct) auto

lemma length_digits_of: "digits_of alpha s = Some ds \<Longrightarrow> length ds = length s"
  by (induction s arbitrary: ds) (auto split: option.splits)

lemma length_decode_digits: "decode_digits alpha s = Some r \<Longrightarrow> length r = 3 * length s div 4"
  by (auto simp: decode_digits_def length_digits_of dest!: length_from_sextets split: option.splits)

lemma length_no_newlines: "length (no_newlines s) \<le> length s"
  by (simp add: no_newlines_def)

lemma length_raw_decode: "raw_decode alpha s = Some r \<Longrightarrow> length r \<le> 3 * length s div 4"
  using length_no_newlines [of s] by (auto simp: raw_decode_def dest!: length_decode_digits)

lemma length_TrimSuffix: "length (TrimSuffix s p) \<le> length s"
  by (simp add: TrimSuffix_def)

lemma length_pad_decode: "pad_decode alpha s = Some r \<Longrightarrow> length r \<le> 3 * length s div 4"
proof -
  assume "pad_decode alpha s = Some r"
  then have "length r = 3 * length (TrimSuffix (TrimSuffix (no_newlines s) ''='') ''='') div 4"
    by (auto simp: pad_decode_def Let_def split: if_splits dest: length_decode_digits)
  moreover have "length (TrimSuffix (TrimSuffix (no_newlines s) ''='') ''='') \<le> length s"
    using length_TrimSuffix length_no_newlines le_trans by metis
  ultimately show ?thesis by simp
qed

lemma TrimSuffix_snoc [simp]: "TrimSuffix (s @ [c]) [c] = s"
  by (simp add: TrimSuffix_def HasSuffix_def)

lemma TrimSuffix_absent: "c \<notin> set s \<Longrightarrow> TrimSuffix s [c] = s"
proof (cases s rule: rev_cases)
  case (snoc t d)
  then show "c \<notin> set s \<Longrightarrow> ?thesis" by (auto simp: TrimSuffix_def HasSuffix_def)
qed (simp add: TrimSuffix_def HasSuffix_def)

lemma padding_length:
  fixes x :: nat
  assumes "x mod 4 \<noteq> 1"
  shows "(4 - x mod 4) mod 4 \<in> {0, 1, 2} \<and> (x + (4 - x mod 4) mod 4) mod 4 = 0"
proof -
  have "x mod 4 < 4" by simp
  with assms consider "x mod 4 = 0" | "x mod 4 = 2" | "x mod 4 = 3" by linarith
  then show ?thesis
  proof cases
    case 1
    then show ?thesis by simp
  next
    case 2
    then have "(x + 2) mod 4 = 0" by presburger
    with 2 show ?thesis by simp
  next
    case 3
    then have "(x + 1) mod 4 = 0" by presburger
    with 3 show ?thesis by simp
  qed
qed

lemma pad_roundtrip:
  assumes a: "b64_alphabet alpha"
  shows "pad_decode alpha (pad_encode alpha s) = Some s"
proof -
  let ?e = "raw_encode alpha s" and ?n = "(4 - (4 * length s + 2) div 3 mod 4) mod 4"
  have eq: "CHR ''='' \<notin> set ?e" and nl: "CHR 0x0A \<notin> set ?e" "CHR 0x0D \<notin> set ?e"
    using b64_alphabetD [OF a] raw_encode_chars [of alpha s] by auto
  have "(4 * length s + 2) div 3 mod 4 \<noteq> 1" by presburger
  then have n: "?n \<in> {0, 1, 2}" and len: "((4 * length s + 2) div 3 + ?n) mod 4 = 0"
    using padding_length by blast+
  have body: "TrimSuffix (TrimSuffix (?e @ replicate ?n CHR ''='') ''='') ''='' = ?e"
    using n TrimSuffix_absent [OF eq] TrimSuffix_snoc [of "?e @ ''=''" "CHR ''=''"] by (auto simp: numeral_2_eq_2)
  have nn: "no_newlines (?e @ replicate ?n CHR ''='') = ?e @ replicate ?n CHR ''=''"
    using nl by (intro no_newlines_id) (auto simp: set_replicate_conv_if)
  show ?thesis
    using decode_digits_encode [OF b64_alphabetD(1) [OF a] b64_alphabetD(2) [OF a]] len
    unfolding pad_decode_def pad_encode_def Let_def length_raw_encode nn body by simp
qed

lemma hex_alphabet_val: "n < 16 \<Longrightarrow> hex_val (hex_alphabet ! n) = Some n"
proof -
  assume "n < 16"
  moreover have "list_all (\<lambda>n. hex_val (hex_alphabet ! n) = Some n) [0..<16]" by code_simp
  ultimately show ?thesis by (auto simp: list_all_iff)
qed

lemma hex_roundtrip: "hex_decode (hex_encode s) = Some s"
proof (induction s)
  case (Cons c s)
  have "byte c div 16 < 16" "byte c mod 16 < 16" using byte_less [of c] by (auto simp: less_mult_imp_div_less)
  with Cons show ?case by (simp add: hex_encode_def hex_alphabet_val)
qed (simp add: hex_encode_def)

lemma length_hex_encode [simp]: "length (hex_encode s) = 2 * length s"
  by (induction s) (simp_all add: hex_encode_def)

subsection \<open>The alphabets agree but for the last two digits\<close>

lemma digit_of_std_url:
  assumes "digit_of url_alphabet c = Some d"
  shows "digit_of std_alphabet c \<in> {None, Some d}"
proof (cases "IndexByte alphabet_start c")
  case None
  with assms have "c \<in> {CHR ''-'', CHR ''_''}"
    by (auto simp: digit_of_def url_alphabet_def IndexByte_append split: if_splits)
  moreover have "digit_of std_alphabet CHR ''-'' = None" "digit_of std_alphabet CHR ''_'' = None" by code_simp+
  ultimately show ?thesis by auto
next
  case (Some i)
  with assms show ?thesis by (auto simp: digit_of_def url_alphabet_def std_alphabet_def IndexByte_append)
qed

lemma digits_of_std_url: "digits_of url_alphabet s = Some ds \<Longrightarrow> digits_of std_alphabet s \<in> {None, Some ds}"
proof (induction s arbitrary: ds)
  case (Cons c cs)
  then obtain d es where d: "digit_of url_alphabet c = Some d" "digits_of url_alphabet cs = Some es" "ds = d # es"
    by (auto split: option.splits)
  from Cons.IH [OF d(2)] digit_of_std_url [OF d(1)] d(3) show ?case by auto
qed simp

lemma decode_std_url: "decode_digits url_alphabet s = Some r \<Longrightarrow> decode_digits std_alphabet s \<in> {None, Some r}"
  using digits_of_std_url [of s] by (fastforce simp: decode_digits_def split: option.splits)

lemma pad_decode_std_url: "pad_decode url_alphabet s = Some r \<Longrightarrow> pad_decode std_alphabet s \<in> {None, Some r}"
  using decode_std_url by (auto simp: pad_decode_def Let_def split: if_splits)

lemma raw_decode_std_url: "raw_decode url_alphabet s = Some r \<Longrightarrow> raw_decode std_alphabet s \<in> {None, Some r}"
  using decode_std_url by (simp add: raw_decode_def)

lemma pad_decode_length: "length (no_newlines s) mod 4 \<noteq> 0 \<Longrightarrow> pad_decode alpha s = None"
  by (simp add: pad_decode_def)

lemma IndexByte_None: "c \<notin> set xs \<Longrightarrow> IndexByte xs c = None"
  by (induction xs) auto

lemma digits_of_foreign: "c \<in> set s \<Longrightarrow> c \<notin> set alpha \<Longrightarrow> digits_of alpha s = None"
  by (induction s) (auto simp: digit_of_def IndexByte_None split: option.splits)

lemma raw_decode_foreign:
  assumes "c \<in> set s" "c \<notin> set alpha" "c \<noteq> CHR 0x0A" "c \<noteq> CHR 0x0D"
  shows "raw_decode alpha s = None"
proof -
  have "c \<in> set (no_newlines s)" using assms by (simp add: no_newlines_def)
  then show ?thesis using digits_of_foreign assms(2) by (simp add: raw_decode_def decode_digits_def)
qed

lemma raw_encode_no_newlines: "b64_alphabet alpha \<Longrightarrow> no_newlines (raw_encode alpha s) = raw_encode alpha s"
  using b64_alphabetD [of alpha] raw_encode_chars [of alpha s] by (intro no_newlines_id) auto

end
