(* ===== verification/Json.thy ===== *)
theory Json
  imports Base64 "HOL-Library.List_Lexorder" "HOL-Library.Char_ord"
begin

text \<open>
  The part of \<open>encoding/json\<close> the program relies on: a decoder to a value tree, and the encoder
  of string maps and string lists (\<open>store.EncodeMap\<close>, \<open>store.DecodeMap\<close> of
  \<open>internal/store/util.go\<close>). Strings are the bytes of valid UTF-8 texts without U+2028 and
  U+2029; the nesting limit of the decoder (ten thousand) is not modelled. The decoder takes fuel;
  one more than the length of the input is enough.
\<close>

datatype json =
  JNull | JBool bool | JNum string | JStr string | JArr "json list" | JObj "(string \<times> json) list"

subsection \<open>Strings\<close>

definition is_ws :: "char \<Rightarrow> bool" where
  "is_ws c \<longleftrightarrow> c = CHR '' '' \<or> c = CHR 0x09 \<or> c = CHR 0x0A \<or> c = CHR 0x0D"

abbreviation skip_ws :: "string \<Rightarrow> string" where
  "skip_ws \<equiv> dropWhile is_ws"

definition escape :: "char \<Rightarrow> string" where
  "escape c =
     (if c = CHR 0x22 \<or> c = CHR 0x5C then [CHR 0x5C, c]
      else if c = CHR 0x0A then [CHR 0x5C, CHR ''n'']
      else if c = CHR 0x0D then [CHR 0x5C, CHR ''r'']
      else if c = CHR 0x09 then [CHR 0x5C, CHR ''t'']
      else if c = CHR 0x08 then [CHR 0x5C, CHR ''b'']
      else if c = CHR 0x0C then [CHR 0x5C, CHR ''f'']
      else if c < CHR 0x20 \<or> c = CHR ''<'' \<or> c = CHR ''>'' \<or> c = CHR ''&''
      then CHR 0x5C # ''u00'' @ hex_encode [c]
      else [c])"

definition quote :: "string \<Rightarrow> string" where
  "quote s = CHR 0x22 # concat (map escape s) @ [CHR 0x22]"

fun hex4 :: "string \<Rightarrow> (nat \<times> string) option" where
  "hex4 (a # b # c # d # r) =
     (case (hex_val a, hex_val b, hex_val c, hex_val d) of
        (Some w, Some x, Some y, Some z) \<Rightarrow> Some (4096 * w + 256 * x + 16 * y + z, r)
      | _ \<Rightarrow> None)"
| "hex4 _ = None"

definition utf8 :: "nat \<Rightarrow> string" where
  "utf8 n =
     (if n < 128 then [char_of n]
      else if n < 2048 then [char_of (192 + n div 64), char_of (128 + n mod 64)]
      else if n < 65536 then [char_of (224 + n div 4096), char_of (128 + n div 64 mod 64), char_of (128 + n mod 64)]
      else [char_of (240 + n div 262144), char_of (128 + n div 4096 mod 64), char_of (128 + n div 64 mod 64),
            char_of (128 + n mod 64)])"

text \<open>What follows \<open>\u\<close>: a code unit, or a surrogate pair; an unpaired surrogate is U+FFFD.\<close>

definition read_unit :: "string \<Rightarrow> (string \<times> string) option" where
  "read_unit s =
     (case hex4 s of None \<Rightarrow> None
      | Some (n, r) \<Rightarrow>
          if 0xD800 \<le> n \<and> n < 0xE000
          then (case (if n < 0xDC00 \<and> take 2 r = [CHR 0x5C, CHR ''u''] then hex4 (drop 2 r) else None) of
                  Some (m, r') \<Rightarrow>
                    if 0xDC00 \<le> m \<and> m < 0xE000
                    then Some (utf8 (65536 + (n - 0xD800) * 1024 + (m - 0xDC00)), r')
                    else Some (utf8 0xFFFD, r)
                | None \<Rightarrow> Some (utf8 0xFFFD, r))
          else Some (utf8 n, r))"

definition read_escape :: "char \<Rightarrow> string \<Rightarrow> (string \<times> string) option" where
  "read_escape e r =
     (if e = CHR 0x22 \<or> e = CHR 0x5C \<or> e = CHR ''/'' then Some ([e], r)
      else if e = CHR ''n'' then Some ([CHR 0x0A], r)
      else if e = CHR ''r'' then Some ([CHR 0x0D], r)
      else if e = CHR ''t'' then Some ([CHR 0x09], r)
      else if e = CHR ''b'' then Some ([CHR 0x08], r)
      else if e = CHR ''f'' then Some ([CHR 0x0C], r)
      else if e = CHR ''u'' then read_unit r else None)"

lemma hex4_length: "hex4 s = Some (n, r) \<Longrightarrow> length r < length s"
  by (induction s rule: hex4.induct) (auto split: option.splits)

lemma read_unit_length: "read_unit s = Some (t, r) \<Longrightarrow> length r < length s"
  by (auto simp: read_unit_def dest!: hex4_length split: option.splits if_splits prod.splits)

lemma read_escape_length: "read_escape e s = Some (t, r) \<Longrightarrow> length r \<le> length s"
  by (auto simp: read_escape_def dest!: read_unit_length split: if_splits)

text \<open>The rest of a string literal, after its opening quote.\<close>

function string_body :: "string \<Rightarrow> (string \<times> string) option" where
  "string_body [] = None"
| "string_body (c # cs) =
     (if c = CHR 0x22 then Some ([], cs)
      else if c = CHR 0x5C
      then (case cs of [] \<Rightarrow> None
            | e # es \<Rightarrow>
                (case read_escape e es of None \<Rightarrow> None
                 | Some (t, r) \<Rightarrow> map_option (\<lambda>(u, r'). (t @ u, r')) (string_body r)))
      else if c < CHR 0x20 then None
      else map_option (\<lambda>(u, r'). (c # u, r')) (string_body cs))"
  by pat_completeness auto
termination
  by (relation "measure length") (auto dest!: read_escape_length)

subsection \<open>Numbers and values\<close>

definition is_num_digit :: "char \<Rightarrow> bool" where
  "is_num_digit c \<longleftrightarrow> CHR ''0'' \<le> c \<and> c \<le> CHR ''9''"

text \<open>One or more digits, moved to the accumulator.\<close>

definition read_digits :: "string \<times> string \<Rightarrow> (string \<times> string) option" where
  "read_digits = (\<lambda>(acc, s). let d = takeWhile is_num_digit s
     in if d = [] then None else Some (acc @ d, dropWhile is_num_digit s))"

definition read_int_part :: "string \<times> string \<Rightarrow> (string \<times> string) option" where
  "read_int_part = (\<lambda>(acc, s). if HasPrefix s ''0'' then Some (acc @ ''0'', drop 1 s) else read_digits (acc, s))"

definition read_fraction :: "string \<times> string \<Rightarrow> (string \<times> string) option" where
  "read_fraction = (\<lambda>(acc, s). if HasPrefix s ''.'' then read_digits (acc @ ''.'', drop 1 s) else Some (acc, s))"

definition read_exponent :: "string \<times> string \<Rightarrow> (string \<times> string) option" where
  "read_exponent = (\<lambda>(acc, s). case s of [] \<Rightarrow> Some (acc, s)
     | c # r \<Rightarrow> if c = CHR ''e'' \<or> c = CHR ''E''
         then (case r of [] \<Rightarrow> None
               | d # r' \<Rightarrow> if d = CHR ''+'' \<or> d = CHR ''-'' then read_digits (acc @ [c, d], r') else read_digits (acc @ [c], r))
         else Some (acc, s))"

definition read_number :: "string \<Rightarrow> (string \<times> string) option" where
  "read_number s =
     (let start = (if HasPrefix s ''-'' then (''-'', drop 1 s) else ([], s))
      in Option.bind (Option.bind (read_int_part start) read_fraction) read_exponent)"

definition read_word :: "string \<Rightarrow> json \<Rightarrow> string \<Rightarrow> (json \<times> string) option" where
  "read_word w v s = (if HasPrefix s w then Some (v, TrimPrefix s w) else None)"

text \<open>The next character after white space, when it is the given one.\<close>

definition expect :: "char \<Rightarrow> string \<Rightarrow> string option" where
  "expect c s = (case skip_ws s of [] \<Rightarrow> None | d # r \<Rightarrow> if d = c then Some r else None)"

fun json_value :: "nat \<Rightarrow> string \<Rightarrow> (json \<times> string) option"
  and json_items :: "nat \<Rightarrow> string \<Rightarrow> (json list \<times> string) option"
  and json_members :: "nat \<Rightarrow> string \<Rightarrow> ((string \<times> json) list \<times> string) option" where
  "json_value 0 s = None"
| "json_value (Suc k) s =
     (case skip_ws s of [] \<Rightarrow> None
      | c # r \<Rightarrow>
          if c = CHR ''{'' then
            (case expect CHR ''}'' r of Some r' \<Rightarrow> Some (JObj [], r')
             | None \<Rightarrow> map_option (\<lambda>(ms, r'). (JObj ms, r')) (json_members k r))
          else if c = CHR ''['' then
            (case expect CHR '']'' r of Some r' \<Rightarrow> Some (JArr [], r')
             | None \<Rightarrow> map_option (\<lambda>(xs, r'). (JArr xs, r')) (json_items k r))
          else if c = CHR 0x22 then map_option (\<lambda>(t, r'). (JStr t, r')) (string_body r)
          else if c = CHR ''t'' then read_word ''true'' (JBool True) (c # r)
          else if c = CHR ''f'' then read_word ''false'' (JBool False) (c # r)
          else if c = CHR ''n'' then read_word ''null'' JNull (c # r)
          else map_option (\<lambda>(t, r'). (JNum t, r')) (read_number (c # r)))"
| "json_items 0 s = None"
| "json_items (Suc k) s =
     (case json_value k s of None \<Rightarrow> None
      | Some (v, r) \<Rightarrow>
          (case expect CHR '','' r of
             Some r' \<Rightarrow> map_option (\<lambda>(vs, r''). (v # vs, r'')) (json_items k r')
           | None \<Rightarrow> map_option (\<lambda>r'. ([v], r')) (expect CHR '']'' r)))"
| "json_members 0 s = None"
| "json_members (Suc k) s =
     (case Option.bind (expect CHR 0x22 s) string_body of None \<Rightarrow> None
      | Some (key, r1) \<Rightarrow>
          (case Option.bind (expect CHR '':'' r1) (json_value k) of None \<Rightarrow> None
           | Some (v, r3) \<Rightarrow>
               (case expect CHR '','' r3 of
                  Some r4 \<Rightarrow> map_option (\<lambda>(ms, r5). ((key, v) # ms, r5)) (json_members k r4)
                | None \<Rightarrow> map_option (\<lambda>r4. ([(key, v)], r4)) (expect CHR ''}'' r3))))"

definition json_parse :: "string \<Rightarrow> json option" where
  "json_parse s =
     (case json_value (Suc (2 * length s)) s of None \<Rightarrow> None
      | Some (v, r) \<Rightarrow> if skip_ws r = [] then Some v else None)"

subsection \<open>The fuel is enough\<close>

lemma length_skip_ws: "length (skip_ws s) \<le> length s"
  by (rule length_dropWhile_le)

lemma expect_length: "expect c s = Some r \<Longrightarrow> length r < length s"
  using length_skip_ws [of s] by (auto simp: expect_def split: list.splits if_splits)

lemma string_body_length: "string_body s = Some (t, r) \<Longrightarrow> length r < length s"
proof (induction s arbitrary: t r rule: string_body.induct)
  case (2 c cs)
  show ?case
  proof (cases "c = CHR 0x5C")
    case True
    then obtain e es t' r' u where e: "cs = e # es" "read_escape e es = Some (t', r')" "string_body r' = Some (u, r)"
      using "2.prems" by (auto split: list.splits option.splits prod.splits)
    then show ?thesis using True "2.IH"(1) [OF _ True e(1,2) refl e(3)] read_escape_length [OF e(2)] by auto
  next
    case False
    then show ?thesis using "2.prems" "2.IH"(2) [OF _ False] by (fastforce split: if_splits)
  qed
qed simp

lemma read_digits_length: "read_digits (acc, s) = Some (acc', r) \<Longrightarrow> length r < length s"
proof -
  assume "read_digits (acc, s) = Some (acc', r)"
  then have "takeWhile is_num_digit s \<noteq> []" "r = dropWhile is_num_digit s"
    by (auto simp: read_digits_def Let_def split: if_splits)
  moreover have "length s = length (takeWhile is_num_digit s) + length (dropWhile is_num_digit s)"
    by (metis length_append takeWhile_dropWhile_id)
  ultimately show ?thesis by simp
qed

lemma HasPrefix_single: "HasPrefix s [c] \<Longrightarrow> 0 < length s"
  by (cases s) auto

lemma read_int_part_length: "read_int_part (acc, s) = Some (acc', r) \<Longrightarrow> length r < length s"
  by (auto simp: read_int_part_def dest: read_digits_length HasPrefix_single split: if_splits)

lemma read_fraction_length: "read_fraction (acc, s) = Some (acc', r) \<Longrightarrow> length r \<le> length s"
  by (auto simp: read_fraction_def dest!: read_digits_length split: if_splits)

lemma read_exponent_length: "read_exponent (acc, s) = Some (acc', r) \<Longrightarrow> length r \<le> length s"
  by (auto simp: read_exponent_def dest!: read_digits_length split: list.splits if_splits)

lemma read_number_length: "read_number s = Some (t, r) \<Longrightarrow> length r < length s"
proof -
  assume n: "read_number s = Some (t, r)"
  define s0 where "s0 = (if HasPrefix s ''-'' then drop 1 s else s)"
  have "length s0 \<le> length s" by (simp add: s0_def)
  moreover have "length r < length s0"
    using n by (auto simp: read_number_def s0_def Let_def bind_eq_Some_conv split: if_splits
        dest!: read_int_part_length read_fraction_length read_exponent_length)
  ultimately show ?thesis by simp
qed

lemma read_word_length: "read_word w v s = Some (x, r) \<Longrightarrow> w \<noteq> [] \<Longrightarrow> length r < length s"
  by (cases s; cases w) (auto simp: read_word_def TrimPrefix_def split: if_splits)

lemma json_length:
  "json_value k s = Some (v, r) \<Longrightarrow> length r < length s"
  "json_items k s = Some (vs, r) \<Longrightarrow> length r < length s"
  "json_members k s = Some (ms, r) \<Longrightarrow> length r < length s"
proof (induction k arbitrary: s v vs ms r)
  case (Suc k)
  { case 1
    obtain c t where t: "skip_ws s = c # t" using 1 by (auto split: list.splits)
    then have "length t < length s" using length_skip_ws [of s] by simp
    then show ?case using 1 t Suc.IH(2,3)
      by (auto split: if_splits option.splits dest!: expect_length string_body_length read_word_length
          read_number_length) fastforce+ }
  { case 2
    then show ?case using Suc.IH(1,2) by (auto split: option.splits dest!: expect_length) fastforce+ }
  { case 3
    then show ?case using Suc.IH(1,3)
      by (auto simp: bind_eq_Some_conv split: option.splits dest!: expect_length string_body_length) fastforce+ }
qed simp_all

lemma json_fuel_step:
  "2 * length s < k \<Longrightarrow> json_value (Suc k) s = json_value k s"
  "2 * length s + 1 < k \<Longrightarrow> json_items (Suc k) s = json_items k s"
  "2 * length s + 1 < k \<Longrightarrow> json_members (Suc k) s = json_members k s"
proof (induction k arbitrary: s)
  case (Suc k)
  { case 1
    show ?case
    proof (cases "skip_ws s")
      case (Cons c t)
      then have "length t < length s" using length_skip_ws [of s] by simp
      then have "json_items (Suc k) t = json_items k t" "json_members (Suc k) t = json_members k t"
        using 1 by (auto intro!: Suc.IH(2,3) simp del: json_items.simps json_members.simps)
      then show ?thesis by (simp only: json_value.simps(2) Cons list.case)
    qed (simp only: json_value.simps(2) list.case) }
  { case 2
    have "json_value (Suc k) s = json_value k s" using 2 by (intro Suc.IH(1)) simp
    moreover have "json_items (Suc k) r' = json_items k r'"
      if "json_value k s = Some (v, r)" "expect CHR '','' r = Some r'" for v r r'
      using 2 json_length(1) [OF that(1)] expect_length [OF that(2)] by (intro Suc.IH(2)) simp
    ultimately show ?case
      by (simp only: json_items.simps(2)) (auto split: option.split prod.split simp del: json_items.simps) }
  { case 3
    have vals: "json_value (Suc k) r2 = json_value k r2" if "length r2 < length s" for r2
      using 3 that by (intro Suc.IH(1)) simp
    have rest: "json_members (Suc k) r4 = json_members k r4" if "length r4 < length s" for r4
      using 3 that by (intro Suc.IH(3)) simp
    show ?case
    proof (cases "Option.bind (expect CHR 0x22 s) string_body")
      case None
      then show ?thesis by (simp only: json_members.simps(2) option.case)
    next
      case (Some kr)
      then obtain key r1 where kr: "kr = (key, r1)" "length r1 < length s"
        by (cases kr) (auto simp: bind_eq_Some_conv dest!: expect_length string_body_length)
      have same: "Option.bind (expect CHR '':'' r1) (json_value (Suc k)) = Option.bind (expect CHR '':'' r1) (json_value k)"
        using kr(2) by (cases "expect CHR '':'' r1") (auto simp del: json_value.simps intro!: vals dest: expect_length)
      show ?thesis
      proof (cases "Option.bind (expect CHR '':'' r1) (json_value k)")
        case None
        then show ?thesis by (simp only: json_members.simps(2) Some kr same option.case prod.case)
      next
        case vr: (Some vr)
        then obtain v r3 where v: "vr = (v, r3)" "length r3 < length s"
          using kr(2) by (cases vr) (fastforce simp: bind_eq_Some_conv dest!: expect_length json_length(1))
        note step = json_members.simps(2) [of "Suc k" s] json_members.simps(2) [of k s]
        show ?thesis
        proof (cases "expect CHR '','' r3")
          case None
          then show ?thesis by (simp only: step Some kr same vr v option.case prod.case)
        next
          case r4: (Some r4)
          then have "length r4 < length s" using v(2) expect_length [OF r4] by simp
          then show ?thesis by (simp only: step Some kr same vr v r4 rest option.case prod.case)
        qed
      qed
    qed }
qed simp_all

text \<open>More fuel than the length of the text asks for changes nothing.\<close>

lemma json_fuel: "2 * length s < k \<Longrightarrow> json_value k s = json_value (Suc (2 * length s)) s"
proof (induction k)
  case (Suc k)
  then show ?case by (cases "2 * length s = k") (auto simp: json_fuel_step(1) simp del: json_value.simps)
qed simp

subsection \<open>String maps and string lists\<close>

text \<open>The encoder orders the keys of a map.\<close>

definition EncodeMap :: "(string \<times> string) list \<Rightarrow> string" where
  "EncodeMap m =
     (if m = [] then ''{}''
      else CHR ''{'' # Join (map (\<lambda>(k, v). quote k @ '':'' @ quote v) (sort_key fst m)) '','' @ ''}'')"

text \<open>A later member replaces an earlier one; a value that is not a string leaves the empty string.\<close>

definition string_value :: "json \<Rightarrow> string" where
  "string_value v = (case v of JStr t \<Rightarrow> t | _ \<Rightarrow> [])"

definition DecodeMap :: "string \<Rightarrow> string \<rightharpoonup> string" where
  "DecodeMap s =
     (if s = [] then Map.empty
      else (case json_parse s of
              Some (JObj ms) \<Rightarrow> foldl (\<lambda>m (k, v). m(k \<mapsto> string_value v)) Map.empty ms
            | _ \<Rightarrow> Map.empty))"

text \<open>A list of strings; \<open>null\<close> elements are empty strings, \<open>null\<close> itself is the nil list.\<close>

definition encode_strings :: "string list \<Rightarrow> string" where
  "encode_strings xs = CHR ''['' # Join (map quote xs) '','' @ '']''"

definition is_text :: "json \<Rightarrow> bool" where
  "is_text v = (case v of JStr _ \<Rightarrow> True | JNull \<Rightarrow> True | _ \<Rightarrow> False)"

definition decode_strings :: "string \<Rightarrow> string list option" where
  "decode_strings s =
     (case json_parse s of
        Some (JArr vs) \<Rightarrow> if list_all is_text vs then Some (map string_value vs) else None
      | Some JNull \<Rightarrow> Some []
      | _ \<Rightarrow> None)"

subsection \<open>What is encoded is decoded\<close>

lemma string_body_escape:
  "string_body (escape c @ s) = map_option (\<lambda>(u, r). (c # u, r)) (string_body s)"
proof -
  have unit: "read_unit (''00'' @ hex_encode [c] @ s) = Some ([c], s)" if "byte c < 128"
  proof -
    have v: "hex_val (hex_alphabet ! (byte c div 16)) = Some (byte c div 16)"
        "hex_val (hex_alphabet ! (byte c mod 16)) = Some (byte c mod 16)"
      using that by (intro hex_alphabet_val; simp)+
    have "hex_val CHR ''0'' = Some 0" by code_simp
    then have "hex4 (''00'' @ hex_encode [c] @ s) = Some (byte c, s)"
      by (simp add: hex_encode_def v)
    then show ?thesis using that by (simp add: read_unit_def utf8_def)
  qed
  have low: "byte c < 128" if "c < CHR 0x20 \<or> c = CHR ''<'' \<or> c = CHR ''>'' \<or> c = CHR ''&''"
    using that by (auto simp: less_char_def byte_def)
  show ?thesis
    using unit low by (auto simp: escape_def read_escape_def not_less)
qed

lemma string_body_quoted: "string_body (concat (map escape t) @ CHR 0x22 # r) = Some (t, r)"
  by (induction t) (simp_all add: string_body_escape)

lemma is_ws_simps [simp]: "\<not> is_ws CHR 0x22" "\<not> is_ws CHR '':''" "\<not> is_ws CHR '',''" "\<not> is_ws CHR ''}''"
  "\<not> is_ws CHR '']''" "\<not> is_ws CHR ''{''" "\<not> is_ws CHR ''[''"
  by (simp_all add: is_ws_def)

lemma expect_simps [simp]: "\<not> is_ws d \<Longrightarrow> expect c (d # r) = (if d = c then Some r else None)"
  by (simp add: expect_def)

lemma json_value_quote [simp]: "json_value (Suc k) (quote v @ r) = Some (JStr v, r)"
  by (simp add: quote_def string_body_quoted)

lemma Join_Cons: "Join (x # xs) sep = (if xs = [] then x else x @ sep @ Join xs sep)"
  by (cases xs) simp_all

definition member_text :: "string \<times> string \<Rightarrow> string" where
  "member_text = (\<lambda>(k, v). quote k @ '':'' @ quote v)"

lemma json_members_encoded:
  assumes "ms \<noteq> []" "length ms < k"
  shows "json_members k (Join (map member_text ms) '','' @ CHR ''}'' # r) = Some (map (\<lambda>(k, v). (k, JStr v)) ms, r)"
  using assms
proof (induction ms arbitrary: k)
  case (Cons m ms)
  obtain j where k: "k = Suc (Suc j)" using Cons.prems(2) by (cases k; cases "k - 1") auto
  obtain a b where m: "m = (a, b)" by fastforce
  have head: "json_members (Suc (Suc j)) (member_text (a, b) @ rest) =
      (case expect CHR '','' rest of
         Some r4 \<Rightarrow> map_option (\<lambda>(ms, r5). ((a, JStr b) # ms, r5)) (json_members (Suc j) r4)
       | None \<Rightarrow> map_option (\<lambda>r4. ([(a, JStr b)], r4)) (expect CHR ''}'' rest))" for rest
    by (simp add: member_text_def quote_def [of a] string_body_quoted expect_simps del: json_value.simps)
  show ?case
  proof (cases "ms = []")
    case True
    then show ?thesis using head by (simp add: k m)
  next
    case False
    then have "json_members (Suc j) (Join (map member_text ms) '','' @ CHR ''}'' # r) = Some (map (\<lambda>(k, v). (k, JStr v)) ms, r)"
      using Cons.prems(2) by (intro Cons.IH) (auto simp: k)
    then show ?thesis using head False by (simp add: k m Join_Cons)
  qed
qed simp

lemma json_items_encoded:
  assumes "xs \<noteq> []" "length xs < k"
  shows "json_items k (Join (map quote xs) '','' @ CHR '']'' # r) = Some (map JStr xs, r)"
  using assms
proof (induction xs arbitrary: k)
  case (Cons x xs)
  obtain j where k: "k = Suc (Suc j)" using Cons.prems(2) by (cases k; cases "k - 1") auto
  show ?case
  proof (cases "xs = []")
    case False
    then have "json_items (Suc j) (Join (map quote xs) '','' @ CHR '']'' # r) = Some (map JStr xs, r)"
      using Cons.prems(2) by (intro Cons.IH) (auto simp: k)
    then show ?thesis using False by (simp add: k Join_Cons del: json_value.simps)
  qed (simp add: k del: json_value.simps)
qed simp

lemma length_Join_ge: "(\<And>x. x \<in> set xs \<Longrightarrow> x \<noteq> []) \<Longrightarrow> length xs \<le> length (Join xs sep)"
proof (induction xs)
  case (Cons x xs)
  then have "1 \<le> length x" "length xs \<le> length (Join xs sep)" by (auto simp: Suc_le_eq)
  then show ?case by (auto simp: Join_Cons)
qed simp

lemma Join_quote_head:
  "xs \<noteq> [] \<Longrightarrow> (\<And>x. x \<in> set xs \<Longrightarrow> \<exists>t. f x = CHR 0x22 # t) \<Longrightarrow> \<exists>t. Join (map f xs) sep = CHR 0x22 # t"
  by (cases xs) (force simp: Join_Cons)+

lemma foldl_update_map_of:
  "foldl (\<lambda>m (k, v). m(k \<mapsto> f v)) m0 ms = m0 ++ map_of (rev (map (\<lambda>(k, v). (k, f v)) ms))"
  by (induction ms arbitrary: m0) (auto simp: map_add_def fun_eq_iff split: option.splits)

lemma map_of_perm: "distinct (map fst xs) \<Longrightarrow> set xs = set ys \<Longrightarrow> distinct (map fst ys) \<Longrightarrow> map_of xs = map_of ys"
  by (metis map_of_inject_set)

theorem DecodeMap_EncodeMap:
  assumes "distinct (map fst m)"
  shows "DecodeMap (EncodeMap m) = map_of m"
proof (cases "m = []")
  case True
  have "json_parse ''{}'' = Some (JObj [])" by code_simp
  then show ?thesis using True by (simp add: DecodeMap_def EncodeMap_def)
next
  case False
  define ms where "ms = sort_key fst m"
  have ms: "ms \<noteq> []" "set ms = set m" "distinct (map fst ms)"
    using False assms by (auto simp: ms_def distinct_map) (metis length_0_conv length_sort)
  let ?body = "Join (map member_text ms) '',''"
  have e: "EncodeMap m = CHR ''{'' # ?body @ ''}''"
    using False by (simp add: EncodeMap_def ms_def member_text_def)
  have fuel: "length ms < 2 * length (EncodeMap m)"
    using length_Join_ge [of "map member_text ms" "'',''"] by (force simp: e member_text_def quote_def)
  obtain t where t: "?body = CHR 0x22 # t"
    using Join_quote_head [OF ms(1), of member_text "'',''"] by (auto simp: member_text_def quote_def)
  have "json_value (Suc (2 * length (EncodeMap m))) (EncodeMap m) = Some (JObj (map (\<lambda>(k, v). (k, JStr v)) ms), [])"
    using json_members_encoded [OF ms(1) fuel, of "[]"] by (simp add: e t)
  then have "json_parse (EncodeMap m) = Some (JObj (map (\<lambda>(k, v). (k, JStr v)) ms))"
    by (simp add: json_parse_def)
  then have "DecodeMap (EncodeMap m) = map_of (rev ms)"
    by (simp add: DecodeMap_def e foldl_update_map_of string_value_def comp_def case_prod_beta)
  also have "\<dots> = map_of m"
    using ms assms by (intro map_of_perm) (auto simp: rev_map [symmetric])
  finally show ?thesis .
qed

theorem decode_encode_strings: "decode_strings (encode_strings xs) = Some xs"
proof (cases "xs = []")
  case True
  have "json_parse ''[]'' = Some (JArr [])" by code_simp
  then show ?thesis using True by (simp add: decode_strings_def encode_strings_def)
next
  case False
  let ?body = "Join (map quote xs) '',''"
  have fuel: "length xs < 2 * length (encode_strings xs)"
    using length_Join_ge [of "map quote xs" "'',''"] by (force simp: encode_strings_def quote_def)
  obtain t where t: "?body = CHR 0x22 # t"
    using Join_quote_head [OF False, of quote "'',''"] by (auto simp: quote_def)
  have "json_value (Suc (2 * length (encode_strings xs))) (encode_strings xs) = Some (JArr (map JStr xs), [])"
    using json_items_encoded [OF False fuel, of "[]"] by (simp add: encode_strings_def t)
  then have "json_parse (encode_strings xs) = Some (JArr (map JStr xs))" by (simp add: json_parse_def)
  then show ?thesis by (simp add: decode_strings_def list_all_iff is_text_def comp_def string_value_def)
qed

end
