(* ===== verification/Json_Values.thy ===== *)
theory Json_Values
  imports Models Json
begin

text \<open>
  The JSON values a driver handles as \<open>any\<close>: numbers are \<open>float64\<close> values, so a decoded number is
  the nearest double of its literal (ties to even, subnormals included) and an encoded one is the
  shortest decimal that reads back as the same double. Objects are maps: of two members with the same
  name the later one counts, and members are written in the order of their names. Zero keeps the sign
  of its literal.
\<close>

subsection \<open>Doubles\<close>

fun bit_length :: "int \<Rightarrow> int" where
  "bit_length n = (if n \<le> 0 then 0 else 1 + bit_length (n div 2))"

declare bit_length.simps [simp del]

definition pow2 :: "int \<Rightarrow> rat" where
  "pow2 e = (if e \<ge> 0 then 2 ^ nat e else 1 / 2 ^ nat (- e))"

definition pow10 :: "int \<Rightarrow> rat" where
  "pow10 e = (if e \<ge> 0 then 10 ^ nat e else 1 / 10 ^ nat (- e))"

definition floor_log2 :: "rat \<Rightarrow> int" where
  "floor_log2 q =
     (let (n, d) = quotient_of q; k = bit_length n - bit_length d in if pow2 k \<le> q then k else k - 1)"

definition round_even :: "rat \<Rightarrow> int" where
  "round_even q =
     (let f = \<lfloor>q\<rfloor>; r = q - of_int f in
      if r < 1 / 2 then f else if r > 1 / 2 then f + 1 else if even f then f else f + 1)"

text \<open>The exponent of the unit in the last place, and the nearest double of a positive number.\<close>

definition ulp_exponent :: "rat \<Rightarrow> int" where
  "ulp_exponent q = max (floor_log2 q - 52) (- 1074)"

definition round64 :: "rat \<Rightarrow> rat option" where
  "round64 q =
     (if q \<le> 0 then Some 0
      else let x = of_int (round_even (q / pow2 (ulp_exponent q))) * pow2 (ulp_exponent q)
           in if x < pow2 1024 then Some x else None)"

subsection \<open>Number literals\<close>

definition digits_value :: "string \<Rightarrow> int" where
  "digits_value s = foldl (\<lambda>n c. 10 * n + (of_char c - 48)) 0 s"

text \<open>The absolute value of a literal: digits, fraction, exponent.\<close>

definition literal_value :: "string \<Rightarrow> rat" where
  "literal_value lit =
     (let s = TrimPrefix lit ''-'';
          i = takeWhile is_num_digit s; r = dropWhile is_num_digit s;
          f = (if HasPrefix r ''.'' then takeWhile is_num_digit (drop 1 r) else []);
          e = drop 1 (dropWhile (\<lambda>c. c \<noteq> CHR ''e'' \<and> c \<noteq> CHR ''E'') r);
          x = (if HasPrefix e ''-'' then - digits_value (drop 1 e) else digits_value (TrimPrefix e ''+''))
      in of_int (digits_value (i @ f)) * pow10 (x - int (length f)))"

definition negative_literal :: "string \<Rightarrow> bool" where
  "negative_literal lit = HasPrefix lit ''-''"

text \<open>The double of a literal; \<open>None\<close> when it is out of range.\<close>

definition number_value :: "string \<Rightarrow> rat option" where
  "number_value lit =
     map_option (\<lambda>q. if negative_literal lit then - q else q) (round64 (literal_value lit))"

subsection \<open>The shortest decimal\<close>

text \<open>The decimal digits of a natural number.\<close>

fun digits_text :: "int \<Rightarrow> string" where
  "digits_text n = (if n < 10 then [char_of (48 + n)] else digits_text (n div 10) @ [char_of (48 + n mod 10)])"

declare digits_text.simps [simp del]

definition floor_log10 :: "rat \<Rightarrow> int" where
  "floor_log10 q =
     (let (n, d) = quotient_of q; k = int (length (digits_text n)) - int (length (digits_text d))
      in if pow10 k \<le> q then k else k - 1)"

text \<open>A decimal with the given exponent that reads back as \<open>q\<close>, the nearer one when there are two.\<close>

definition decimal_at :: "rat \<Rightarrow> int \<Rightarrow> int option" where
  "decimal_at q p =
     (let x = q / pow10 p; lo = \<lfloor>x\<rfloor>;
          ok = (\<lambda>n. round64 (of_int n * pow10 p) = Some q) in
      if ok lo \<and> ok (lo + 1) then Some (round_even x)
      else if ok lo then Some lo else if ok (lo + 1) then Some (lo + 1) else None)"

fun shortest_from :: "rat \<Rightarrow> int \<Rightarrow> nat \<Rightarrow> int \<times> int" where
  "shortest_from q p 0 = (\<lfloor>q / pow10 p\<rfloor>, p)"
| "shortest_from q p (Suc n) =
     (case decimal_at q p of Some d \<Rightarrow> (d, p) | None \<Rightarrow> shortest_from q (p - 1) n)"

definition shortest :: "rat \<Rightarrow> int \<times> int" where
  "shortest q = shortest_from q (floor_log10 q) 17"

definition fixed_text :: "string \<Rightarrow> int \<Rightarrow> string" where
  "fixed_text ds p =
     (if p \<ge> 0 then ds @ replicate (nat p) CHR ''0''
      else let k = nat (- p) in
        if k < length ds then take (length ds - k) ds @ ''.'' @ drop (length ds - k) ds
        else ''0.'' @ replicate (k - length ds) CHR ''0'' @ ds)"

definition exponent_text :: "string \<Rightarrow> int \<Rightarrow> string" where
  "exponent_text ds p =
     (let x = p + int (length ds) - 1 in
      take 1 ds @ (if length ds > 1 then CHR ''.'' # drop 1 ds else []) @ CHR ''e''
      # (if x < 0 then CHR ''-'' # digits_text (- x) else CHR ''+'' # (if x < 10 then ''0'' else []) @ digits_text x))"

text \<open>\<open>encoding/json\<close> writes very small and very large numbers with an exponent.\<close>

definition abs_float_text :: "rat \<Rightarrow> string" where
  "abs_float_text q =
     (if q = 0 then ''0''
      else let (d, p) = shortest q; ds = digits_text d in
        if q < 1 / 10 ^ 6 \<or> q \<ge> 10 ^ 21 then exponent_text ds p else fixed_text ds p)"

definition number_text :: "string \<Rightarrow> string" where
  "number_text lit =
     (case round64 (literal_value lit) of None \<Rightarrow> []
      | Some q \<Rightarrow> (if negative_literal lit then ''-'' else []) @ abs_float_text q)"

text \<open>
  \<open>int(x)\<close> for a double: truncation; out of the range of \<open>int\<close> the result is the one of the
  amd64 instruction (Go leaves it to the implementation).
\<close>

definition float_to_int :: "rat option \<Rightarrow> int" where
  "float_to_int x =
     (case x of None \<Rightarrow> - (2 ^ 63)
      | Some q \<Rightarrow> let t = (if q < 0 then - \<lfloor>- q\<rfloor> else \<lfloor>q\<rfloor>) in if in_int64 t then t else - (2 ^ 63))"

definition float_times :: "rat \<Rightarrow> rat \<Rightarrow> rat option" where
  "float_times a b = (if a * b < 0 then map_option uminus (round64 (- (a * b))) else round64 (a * b))"

subsection \<open>Objects\<close>

type_synonym object = "(string \<times> json) list"

text \<open>A member that is missing reads as nil, as a member that is \<open>null\<close> does.\<close>

definition obj_get :: "object \<Rightarrow> string \<Rightarrow> json" where
  "obj_get m k = (case map_of (rev m) k of Some v \<Rightarrow> v | None \<Rightarrow> JNull)"

fun as_object :: "json \<Rightarrow> object option" where
  "as_object (JObj m) = Some m"
| "as_object _ = None"

fun as_array :: "json \<Rightarrow> json list option" where
  "as_array (JArr xs) = Some xs"
| "as_array _ = None"

fun as_float :: "json \<Rightarrow> rat option" where
  "as_float (JNum lit) = number_value lit"
| "as_float _ = None"

fun last_wins :: "(string \<times> 'a) list \<Rightarrow> (string \<times> 'a) list" where
  "last_wins [] = []"
| "last_wins ((k, v) # r) = (if k \<in> fst ` set r then last_wins r else (k, v) # last_wins r)"

text \<open>\<open>json.Marshal\<close>, with the way numbers are written.\<close>

fun json_encode :: "(string \<Rightarrow> string) \<Rightarrow> json \<Rightarrow> string" where
  "json_encode num JNull = ''null''"
| "json_encode num (JBool b) = (if b then ''true'' else ''false'')"
| "json_encode num (JNum lit) = num lit"
| "json_encode num (JStr s) = quote s"
| "json_encode num (JArr xs) = CHR ''['' # Join (map (json_encode num) xs) '','' @ '']''"
| "json_encode num (JObj ms) =
     CHR ''{'' # Join (map (\<lambda>(k, v). quote k @ CHR '':'' # v)
       (sort_key fst (last_wins (map (\<lambda>m. (fst m, json_encode num (snd m))) ms)))) '','' @ ''}''"

text \<open>Decoded values, and values built by the program, whose integers are Go integers.\<close>

abbreviation marshal_any :: "json \<Rightarrow> string" where
  "marshal_any \<equiv> json_encode number_text"

abbreviation marshal :: "json \<Rightarrow> string" where
  "marshal \<equiv> json_encode id"

fun numbers_in_range :: "json \<Rightarrow> bool" where
  "numbers_in_range (JNum lit) = (number_value lit \<noteq> None)"
| "numbers_in_range (JArr xs) = (\<forall>x \<in> set xs. numbers_in_range x)"
| "numbers_in_range (JObj ms) = (\<forall>m \<in> set ms. numbers_in_range (snd m))"
| "numbers_in_range _ = True"

end
