(* ===== verification/Provider_Rows.thy ===== *)
theory Provider_Rows
  imports Json_Values
begin

text \<open>
  What the drivers share in reading an answer: \<open>internal/providers/rows.go\<close> (decoded values as
  strings, integers and rows), \<open>params.go\<close> (comma separated parameters) and the text helpers of
  \<open>rest.go\<close>. \<open>None\<close> is a runtime panic where a function can have one. A range over a map follows
  the order of the members.
\<close>

subsection \<open>Decoded values\<close>

text \<open>
  \<open>json.Unmarshal\<close> into a map: an object, or \<open>null\<close>, which leaves the map nil. A number out of
  range anywhere in the value is an error.
\<close>

definition parseJSONObject :: "string \<Rightarrow> object option" where
  "parseJSONObject body =
     (case json_parse body of
        Some (JObj m) \<Rightarrow> if numbers_in_range (JObj m) then Some m else None
      | Some JNull \<Rightarrow> Some []
      | _ \<Rightarrow> None)"

definition trim_cutset :: "string \<Rightarrow> string \<Rightarrow> string" where
  "trim_cutset cs s = rev (dropWhile (\<lambda>c. c \<in> set cs) (rev (dropWhile (\<lambda>c. c \<in> set cs) s)))"

definition asString :: "json \<Rightarrow> string" where
  "asString v =
     (case v of JStr t \<Rightarrow> TrimSpace t
      | JNull \<Rightarrow> []
      | _ \<Rightarrow> TrimSpace (trim_cutset [CHR '' '', CHR 0x0A, CHR 0x09] (filter (\<lambda>c. c \<noteq> CHR 0x22) (marshal_any v))))"

fun asInt_loop :: "int \<Rightarrow> string \<Rightarrow> int" where
  "asInt_loop n [] = n"
| "asInt_loop n (c # cs) =
     (if c < CHR ''0'' \<or> CHR ''9'' < c then (if n = 0 then 0 else n)
      else asInt_loop (sint (int64_of (n * 10 + int (byte c - 48)))) cs)"

definition asInt :: "json \<Rightarrow> int" where
  "asInt v =
     (case v of JNum lit \<Rightarrow> float_to_int (number_value lit)
      | JStr t \<Rightarrow> asInt_loop 0 (TrimSpace t)
      | _ \<Rightarrow> 0)"

definition asBool :: "json \<Rightarrow> bool \<Rightarrow> bool" where
  "asBool v def =
     (case v of JBool b \<Rightarrow> b
      | JStr t \<Rightarrow>
          (let s = ToLower (TrimSpace t) in
            if s \<in> {''true'', ''1'', ''yes''} then True
            else if s \<in> {''false'', ''0'', ''no''} then False else def)
      | JNum lit \<Rightarrow> number_value lit \<noteq> Some 0
      | _ \<Rightarrow> def)"

fun firstString :: "object \<Rightarrow> string list \<Rightarrow> string" where
  "firstString m [] = []"
| "firstString m (k # ks) = (let s = asString (obj_get m k) in if s \<noteq> [] then s else firstString m ks)"

subsection \<open>Rows\<close>

definition mk_row :: "string \<Rightarrow> string \<Rightarrow> string \<Rightarrow> Row" where
  "mk_row link title snippet = \<lparr>row_Link = link, row_Title = title, row_Snippet = snippet, row_Sources = []\<rparr>"

definition toRow :: "object \<Rightarrow> string list \<Rightarrow> string \<Rightarrow> string list \<Rightarrow> Row option" where
  "toRow m linkKeys titleKey snippetKeys =
     (let link = firstString m linkKeys in
      if link = [] then None
      else Some (mk_row link (firstString m [titleKey]) (firstString m snippetKeys)))"

definition item_row :: "string list \<Rightarrow> string \<Rightarrow> string list \<Rightarrow> json \<Rightarrow> Row option" where
  "item_row linkKeys titleKey snippetKeys item =
     Option.bind (as_object item) (\<lambda>m. toRow m linkKeys titleKey snippetKeys)"

definition collectRows :: "json \<Rightarrow> string list \<Rightarrow> string \<Rightarrow> string list \<Rightarrow> Row list" where
  "collectRows v linkKeys titleKey snippetKeys =
     (case v of JArr items \<Rightarrow> List.map_filter (item_row linkKeys titleKey snippetKeys) items | _ \<Rightarrow> [])"

fun getArrayAtPath :: "json \<Rightarrow> string list \<Rightarrow> json list" where
  "getArrayAtPath cur [] = (case cur of JArr xs \<Rightarrow> xs | _ \<Rightarrow> [])"
| "getArrayAtPath cur (seg # path) = (case cur of JObj m \<Rightarrow> getArrayAtPath (obj_get m seg) path | _ \<Rightarrow> [])"

subsection \<open>Parameters\<close>

type_synonym params = "(string \<times> string) list"

text \<open>A parameter that is missing reads as the empty string.\<close>

definition param :: "params \<Rightarrow> string \<Rightarrow> string" where
  "param ps k = (case map_of ps k of Some v \<Rightarrow> v | None \<Rightarrow> [])"

definition defaultStr :: "string \<Rightarrow> string \<Rightarrow> string" where
  "defaultStr v def = (if TrimSpace v = [] then def else TrimSpace v)"

definition parseCSV :: "string \<Rightarrow> string list" where
  "parseCSV v = filter (\<lambda>p. p \<noteq> []) (map TrimSpace (Split v CHR '',''))"

definition parseUpperCSV :: "string \<Rightarrow> string list" where
  "parseUpperCSV v = map ToUpper (parseCSV v)"

definition parseInt :: "string \<Rightarrow> int \<Rightarrow> int" where
  "parseInt v def = (case Atoi (TrimSpace v) of None \<Rightarrow> def | Some n \<Rightarrow> n)"

definition parseIntCSV :: "string \<Rightarrow> int list \<Rightarrow> int list" where
  "parseIntCSV v def =
     (let out = List.map_filter Atoi (parseCSV v) in if out = [] then def else out)"

definition TrimRight :: "string \<Rightarrow> char \<Rightarrow> string" where
  "TrimRight s d = rev (dropWhile (\<lambda>c. c = d) (rev s))"

subsection \<open>Texts\<close>

definition ellipsis :: string where
  "ellipsis = [CHR 0xE2, CHR 0x80, CHR 0xA6]"

text \<open>What is before the last blank, when that is not the first byte.\<close>

definition before_last_space :: "string \<Rightarrow> string" where
  "before_last_space s =
     (let tail = takeWhile (\<lambda>c. c \<noteq> CHR '' '') (rev s); i = length s - Suc (length tail) in
      if CHR '' '' \<in> set s \<and> 0 < i then take i s else s)"

definition truncateString :: "string \<Rightarrow> int \<Rightarrow> string" where
  "truncateString s n =
     (let t = TrimSpace s in
      if n \<le> 0 \<or> int (length t) \<le> n then t
      else TrimSpace (before_last_space (take (nat n) t)) @ ellipsis)"

fun strip_tags :: "bool \<Rightarrow> string \<Rightarrow> string" where
  "strip_tags inTag [] = []"
| "strip_tags inTag (c # cs) =
     (if c = CHR ''<'' then strip_tags True cs
      else if c = CHR ''>'' then strip_tags False cs
      else if \<not> inTag then c # strip_tags inTag cs
      else strip_tags inTag cs)"

definition stripHTML :: "string \<Rightarrow> string" where
  "stripHTML s = TrimSpace (strip_tags False s)"

definition githubTextMatch :: "object \<Rightarrow> string" where
  "githubTextMatch item =
     (case obj_get item ''text_matches'' of
        JArr ms \<Rightarrow>
          (case filter (\<lambda>f. f \<noteq> []) (map (\<lambda>mm. firstString mm [''fragment'']) (List.map_filter as_object ms)) of
             [] \<Rightarrow> [] | f # _ \<Rightarrow> f)
      | _ \<Rightarrow> [])"

text \<open>
  The abstract of an OpenAlex work from its inverted index: the word at each position, in the order of
  the positions. The slice of words is allocated for the largest position, which panics when it is
  too large for an allocation.
\<close>

definition word_positions :: "object \<Rightarrow> (int \<times> string) list" where
  "word_positions index =
     concat (map (\<lambda>(word, v). case v of JArr list \<Rightarrow> map (\<lambda>n. (n, word)) (filter (\<lambda>n. n \<ge> 0) (map asInt list)) | _ \<Rightarrow> [])
       (last_wins index))"

definition openAlexAbstract :: "object \<Rightarrow> string option" where
  "openAlexAbstract data =
     (case obj_get data ''abstract_inverted_index'' of
        JObj index \<Rightarrow>
          (let ps = word_positions index; positions = remdups (map fst ps) in
           if ps = [] then Some []
           else if 16 * (Max (set positions) + 1) > 2 ^ 48 then None
           else Some (Join (map (\<lambda>n. the (map_of (rev ps) n)) (sort positions)) '' ''))
      | _ \<Rightarrow> Some [])"

end
