(* ===== verification/Go_Url.thy ===== *)
theory Go_Url
  imports Base64 "HOL-Library.List_Lexorder"
begin

text \<open>
  The part of Go's \<open>net/url\<close> that the drivers call: percent escaping, query values and their
  encoding, and \<open>Parse\<close>/\<open>String\<close> for URLs whose host is a registered name or an IPv4 address
  with an optional port (a bracketed IPv6 literal is refused here). Errors are the texts Go reports.
\<close>

subsection \<open>Escaping\<close>

datatype encoding = Enc_Path | Enc_PathSegment | Enc_Host | Enc_UserPassword | Enc_Query | Enc_Fragment

definition in_span :: "char \<Rightarrow> char \<Rightarrow> char \<Rightarrow> bool" where
  "in_span lo hi c \<longleftrightarrow> lo \<le> c \<and> c \<le> hi"

definition is_alpha :: "char \<Rightarrow> bool" where
  "is_alpha c \<longleftrightarrow> in_span CHR ''a'' CHR ''z'' c \<or> in_span CHR ''A'' CHR ''Z'' c"

definition alphanumeric :: "char \<Rightarrow> bool" where
  "alphanumeric c \<longleftrightarrow> is_alpha c \<or> in_span CHR ''0'' CHR ''9'' c"

definition escape_reserved :: "encoding \<Rightarrow> char \<Rightarrow> bool" where
  "escape_reserved mode c =
     (case mode of
        Enc_Path \<Rightarrow> c = CHR ''?''
      | Enc_PathSegment \<Rightarrow> c \<in> set ''/;,?''
      | Enc_UserPassword \<Rightarrow> c \<in> set ''@/?:''
      | Enc_Query \<Rightarrow> True
      | Enc_Fragment \<Rightarrow> False
      | Enc_Host \<Rightarrow> True)"

definition shouldEscape :: "encoding \<Rightarrow> char \<Rightarrow> bool" where
  "shouldEscape mode c =
     (if alphanumeric c then False
      else if mode = Enc_Host \<and> c \<in> set ''!$&()*+,;=:[]<>'' \<union> {CHR 0x22, CHR 0x27} then False
      else if c \<in> set ''-_.~'' then False
      else if c \<in> set ''$&+,/:;=?@'' then escape_reserved mode c
      else if mode = Enc_Fragment \<and> c \<in> set ''!()*'' then False
      else True)"

definition upper_hex :: "nat \<Rightarrow> char" where
  "upper_hex n = upper_char (hex_alphabet ! n)"

definition escape_byte :: "encoding \<Rightarrow> char \<Rightarrow> string" where
  "escape_byte mode c =
     (if c = CHR '' '' \<and> mode = Enc_Query then ''+''
      else if shouldEscape mode c then [CHR ''%'', upper_hex (byte c div 16), upper_hex (byte c mod 16)]
      else [c])"

definition url_escape :: "encoding \<Rightarrow> string \<Rightarrow> string" where
  "url_escape mode s = concat (map (escape_byte mode) s)"

abbreviation QueryEscape :: "string \<Rightarrow> string" where
  "QueryEscape \<equiv> url_escape Enc_Query"

abbreviation PathEscape :: "string \<Rightarrow> string" where
  "PathEscape \<equiv> url_escape Enc_PathSegment"

text \<open>\<open>None\<close> is an escape error or a host character that is not allowed.\<close>

fun url_unescape :: "encoding \<Rightarrow> string \<Rightarrow> string option" where
  "url_unescape mode [] = Some []"
| "url_unescape mode (c # cs) =
     (if c = CHR ''%'' then
        (case cs of
           a # b # r \<Rightarrow>
             (case (hex_val a, hex_val b) of
                (Some x, Some y) \<Rightarrow>
                  if mode = Enc_Host \<and> x < 8 \<and> (x \<noteq> 2 \<or> y \<noteq> 5) then None
                  else map_option ((#) (char_of (16 * x + y))) (url_unescape mode r)
              | _ \<Rightarrow> None)
         | _ \<Rightarrow> None)
      else if c = CHR ''+'' \<and> mode = Enc_Query then map_option ((#) CHR '' '') (url_unescape mode cs)
      else if mode = Enc_Host \<and> byte c < 128 \<and> shouldEscape mode c then None
      else map_option ((#) c) (url_unescape mode cs))"

subsection \<open>Query values\<close>

text \<open>\<open>url.Values\<close>: the values of each key, in the order they were added.\<close>

type_synonym query_values = "(string \<times> string list) list"

definition Values_Set :: "string \<Rightarrow> string \<Rightarrow> query_values \<Rightarrow> query_values" where
  "Values_Set k v vs = (if map_of vs k = None then vs @ [(k, [v])] else map (\<lambda>(k', w). (k', if k' = k then [v] else w)) vs)"

definition Values_Add :: "string \<Rightarrow> string \<Rightarrow> query_values \<Rightarrow> query_values" where
  "Values_Add k v vs = (if map_of vs k = None then vs @ [(k, [v])] else map (\<lambda>(k', w). (k', if k' = k then w @ [v] else w)) vs)"

definition Values_Get :: "query_values \<Rightarrow> string \<Rightarrow> string" where
  "Values_Get vs k = (case map_of vs k of Some (v # _) \<Rightarrow> v | _ \<Rightarrow> [])"

definition encode_pair :: "string \<times> string \<Rightarrow> string" where
  "encode_pair = (\<lambda>(k, v). QueryEscape k @ ''='' @ QueryEscape v)"

definition value_pairs :: "query_values \<Rightarrow> (string \<times> string) list" where
  "value_pairs vs = concat (map (\<lambda>(k, ws). map (Pair k) ws) vs)"

text \<open>\<open>Values.Encode\<close> sorts by key.\<close>

definition Values_Encode :: "query_values \<Rightarrow> string" where
  "Values_Encode vs = Join (map encode_pair (value_pairs (sort_key fst vs))) ''&''"

text \<open>
  \<open>URL.Query\<close>: the well-formed pairs of the raw query. A pair with a semicolon or a bad escape is
  dropped, and so is an empty one.
\<close>

definition parse_pair :: "string \<Rightarrow> (string \<times> string) option" where
  "parse_pair p =
     (if p = [] \<or> CHR '';'' \<in> set p then None
      else case SplitN2 p CHR ''='' of
             k # r \<Rightarrow> (case (url_unescape Enc_Query k, url_unescape Enc_Query (case r of [] \<Rightarrow> [] | v # _ \<Rightarrow> v)) of
                         (Some k', Some v') \<Rightarrow> Some (k', v') | _ \<Rightarrow> None)
           | [] \<Rightarrow> None)"

definition ParseQuery :: "string \<Rightarrow> query_values" where
  "ParseQuery s = foldl (\<lambda>vs (k, v). Values_Add k v vs) [] (List.map_filter parse_pair (Split s CHR ''&''))"

subsection \<open>URLs\<close>

record url =
  url_Scheme :: string
  url_Opaque :: string
  url_User :: "(string \<times> string option) option"
  url_Host :: string
  url_Path :: string
  url_RawPath :: string
  url_OmitHost :: bool
  url_ForceQuery :: bool
  url_RawQuery :: string
  url_Fragment :: string
  url_RawFragment :: string

definition empty_url :: url where
  "empty_url = \<lparr>url_Scheme = [], url_Opaque = [], url_User = None, url_Host = [], url_Path = [], url_RawPath = [],
     url_OmitHost = False, url_ForceQuery = False, url_RawQuery = [], url_Fragment = [], url_RawFragment = []\<rparr>"

text \<open>\<open>strings.Cut\<close> at a byte: what is before, what is after, and whether it was found.\<close>

definition Cut :: "string \<Rightarrow> char \<Rightarrow> string \<times> string \<times> bool" where
  "Cut s d = (let a = takeWhile (\<lambda>c. c \<noteq> d) s in (a, drop (Suc (length a)) s, length a < length s))"

fun scheme_loop :: "string \<Rightarrow> string \<Rightarrow> string \<Rightarrow> string + (string \<times> string)" where
  "scheme_loop raw acc [] = Inr ([], raw)"
| "scheme_loop raw acc (c # cs) =
     (if is_alpha c then scheme_loop raw (acc @ [c]) cs
      else if in_span CHR ''0'' CHR ''9'' c \<or> c \<in> set ''+-.''
      then (if acc = [] then Inr ([], raw) else scheme_loop raw (acc @ [c]) cs)
      else if c = CHR '':'' then (if acc = [] then Inl ''missing protocol scheme'' else Inr (acc, cs))
      else Inr ([], raw))"

definition validOptionalPort :: "string \<Rightarrow> bool" where
  "validOptionalPort p \<longleftrightarrow> p = [] \<or> hd p = CHR '':'' \<and> list_all (in_span CHR ''0'' CHR ''9'') (tl p)"

definition go_quote :: "string \<Rightarrow> string" where
  "go_quote s = CHR 0x22 # concat (map (\<lambda>c. if c = CHR 0x22 \<or> c = CHR 0x5C then [CHR 0x5C, c] else [c]) s) @ [CHR 0x22]"

definition parseHost :: "string \<Rightarrow> string + string" where
  "parseHost host =
     (if HasPrefix host ''['' then Inl ''invalid host''
      else if \<not> validOptionalPort (dropWhile (\<lambda>c. c \<noteq> CHR '':'') host)
      then Inl (''invalid port '' @ go_quote (dropWhile (\<lambda>c. c \<noteq> CHR '':'') host) @ '' after host'')
      else (case url_unescape Enc_Host host of None \<Rightarrow> Inl ''invalid host'' | Some h \<Rightarrow> Inr h))"

definition validUserinfo :: "string \<Rightarrow> bool" where
  "validUserinfo s \<longleftrightarrow> (\<forall>c \<in> set s. alphanumeric c \<or> c \<in> set ''-._:~!$&()*+,;=%@'' \<union> {CHR 0x27})"

text \<open>The authority at its last \<open>@\<close>.\<close>

definition split_authority :: "string \<Rightarrow> string option \<times> string" where
  "split_authority a =
     (if CHR ''@'' \<in> set a
      then (Some (rev (drop 1 (dropWhile (\<lambda>c. c \<noteq> CHR ''@'') (rev a)))),
            rev (takeWhile (\<lambda>c. c \<noteq> CHR ''@'') (rev a)))
      else (None, a))"

definition parseUserinfo :: "string \<Rightarrow> string + (string \<times> string option)" where
  "parseUserinfo u =
     (if \<not> validUserinfo u then Inl ''net/url: invalid userinfo''
      else let (name, pass, found) = Cut u CHR '':'' in
        (case (url_unescape Enc_UserPassword name, url_unescape Enc_UserPassword pass) of
           (Some n, Some p) \<Rightarrow> Inr (n, if found then Some p else None)
         | _ \<Rightarrow> Inl ''invalid URL escape''))"

definition parseAuthority :: "string \<Rightarrow> string + ((string \<times> string option) option \<times> string)" where
  "parseAuthority a =
     (let (info, host) = split_authority a in
      (case parseHost host of Inl e \<Rightarrow> Inl e
       | Inr h \<Rightarrow>
           (case info of None \<Rightarrow> Inr (None, h)
            | Some u \<Rightarrow> (case parseUserinfo u of Inl e \<Rightarrow> Inl e | Inr ui \<Rightarrow> Inr (Some ui, h)))))"

definition setPath :: "string \<Rightarrow> url \<Rightarrow> string + url" where
  "setPath p u =
     (case url_unescape Enc_Path p of None \<Rightarrow> Inl ''invalid URL escape''
      | Some path \<Rightarrow> Inr (u\<lparr>url_Path := path, url_RawPath := (if url_escape Enc_Path path = p then [] else p)\<rparr>))"

definition has_control :: "string \<Rightarrow> bool" where
  "has_control s \<longleftrightarrow> (\<exists>c \<in> set s. c < CHR '' '' \<or> c = CHR 0x7F)"

text \<open>The hierarchical part, once the scheme and the query are set.\<close>

definition parse_rest :: "string \<Rightarrow> url \<Rightarrow> string + url" where
  "parse_rest r u =
     (if \<not> HasPrefix r ''/'' \<and> url_Scheme u \<noteq> [] then Inr (u\<lparr>url_Opaque := r\<rparr>)
      else if \<not> HasPrefix r ''/'' \<and> CHR '':'' \<in> set (takeWhile (\<lambda>c. c \<noteq> CHR ''/'') r)
      then Inl ''first path segment in URL cannot contain colon''
      else if HasPrefix r ''//'' \<and> (url_Scheme u \<noteq> [] \<or> \<not> HasPrefix r ''///'')
      then (let a = takeWhile (\<lambda>c. c \<noteq> CHR ''/'') (drop 2 r); path = drop (2 + length a) r in
            (case parseAuthority a of Inl e \<Rightarrow> Inl e
             | Inr (ui, h) \<Rightarrow> setPath path (u\<lparr>url_User := ui, url_Host := h\<rparr>)))
      else setPath r (u\<lparr>url_OmitHost := (url_Scheme u \<noteq> [] \<and> HasPrefix r ''/'')\<rparr>))"

definition parse_before_fragment :: "string \<Rightarrow> string + url" where
  "parse_before_fragment s =
     (if has_control s then Inl ''net/url: invalid control character in URL''
      else if s = ''*'' then Inr (empty_url\<lparr>url_Path := s\<rparr>)
      else (case scheme_loop s [] s of Inl e \<Rightarrow> Inl e
            | Inr (scheme, r) \<Rightarrow>
                let force = (HasSuffix r ''?'' \<and> count_list r CHR ''?'' = 1);
                    (before, query, _) = Cut r CHR ''?'' in
                parse_rest before (empty_url\<lparr>url_Scheme := ToLower scheme, url_ForceQuery := force, url_RawQuery := query\<rparr>)))"

definition Parse :: "string \<Rightarrow> string + url" where
  "Parse raw =
     (let (s, frag, _) = Cut raw CHR ''#'' in
      (case parse_before_fragment s of
         Inl e \<Rightarrow> Inl (''parse '' @ go_quote s @ '': '' @ e)
       | Inr u \<Rightarrow>
           if frag = [] then Inr u
           else (case url_unescape Enc_Fragment frag of
                   None \<Rightarrow> Inl (''parse '' @ go_quote raw @ '': invalid URL escape'')
                 | Some f \<Rightarrow> Inr (u\<lparr>url_Fragment := f,
                                 url_RawFragment := (if url_escape Enc_Fragment f = frag then [] else frag)\<rparr>))))"

text \<open>\<open>EscapedPath\<close> and \<open>EscapedFragment\<close>: the text given, when it is a valid encoding of the value.\<close>

definition validEncoded :: "encoding \<Rightarrow> string \<Rightarrow> bool" where
  "validEncoded mode s \<longleftrightarrow>
     (\<forall>c \<in> set s. c \<in> set ''!$&()*+,;=:@[]%'' \<union> {CHR 0x27} \<or> \<not> shouldEscape mode c)"

definition EscapedPath :: "url \<Rightarrow> string" where
  "EscapedPath u =
     (if url_RawPath u \<noteq> [] \<and> validEncoded Enc_Path (url_RawPath u) \<and> url_unescape Enc_Path (url_RawPath u) = Some (url_Path u)
      then url_RawPath u
      else if url_Path u = ''*'' then ''*'' else url_escape Enc_Path (url_Path u))"

definition EscapedFragment :: "url \<Rightarrow> string" where
  "EscapedFragment u =
     (if url_RawFragment u \<noteq> [] \<and> validEncoded Enc_Fragment (url_RawFragment u)
         \<and> url_unescape Enc_Fragment (url_RawFragment u) = Some (url_Fragment u)
      then url_RawFragment u else url_escape Enc_Fragment (url_Fragment u))"

definition userinfo_text :: "string \<times> string option \<Rightarrow> string" where
  "userinfo_text = (\<lambda>(n, p). url_escape Enc_UserPassword n @
     (case p of None \<Rightarrow> [] | Some w \<Rightarrow> CHR '':'' # url_escape Enc_UserPassword w))"

definition authority_text :: "url \<Rightarrow> string" where
  "authority_text u =
     (if url_Scheme u = [] \<and> url_Host u = [] \<and> url_User u = None then []
      else if url_OmitHost u \<and> url_Host u = [] \<and> url_User u = None then []
      else (if url_Host u \<noteq> [] \<or> url_Path u \<noteq> [] \<or> url_User u \<noteq> None then ''//'' else [])
        @ (case url_User u of None \<Rightarrow> [] | Some ui \<Rightarrow> userinfo_text ui @ ''@'')
        @ url_escape Enc_Host (url_Host u))"

definition path_text :: "url \<Rightarrow> string" where
  "path_text u =
     (let p = EscapedPath u;
          before = (if url_Scheme u = [] then [] else url_Scheme u @ '':'') @ authority_text u in
      (if p \<noteq> [] \<and> \<not> HasPrefix p ''/'' \<and> url_Host u \<noteq> [] then ''/''
       else if before = [] \<and> CHR '':'' \<in> set (takeWhile (\<lambda>c. c \<noteq> CHR ''/'') p) then ''./'' else []) @ p)"

definition URL_String :: "url \<Rightarrow> string" where
  "URL_String u =
     (if url_Scheme u = [] then [] else url_Scheme u @ '':'')
     @ (if url_Opaque u \<noteq> [] then url_Opaque u else authority_text u @ path_text u)
     @ (if url_ForceQuery u \<or> url_RawQuery u \<noteq> [] then CHR ''?'' # url_RawQuery u else [])
     @ (if url_Fragment u \<noteq> [] then CHR ''#'' # EscapedFragment u else [])"

subsection \<open>What is escaped is unescaped\<close>

lemma hex_val_upper: "n < 16 \<Longrightarrow> hex_val (upper_hex n) = Some n"
proof -
  assume "n < 16"
  moreover have "list_all (\<lambda>n. hex_val (upper_hex n) = Some n) [0..<16]" by code_simp
  ultimately show ?thesis by (auto simp: list_all_iff)
qed

lemma url_unescape_escape_byte:
  assumes "mode \<noteq> Enc_Host"
  shows "url_unescape mode (escape_byte mode c @ s) = map_option ((#) c) (url_unescape mode s)"
proof -
  have b: "byte c div 16 < 16" "byte c mod 16 < 16" using byte_less [of c] by (auto simp: less_mult_imp_div_less)
  have "shouldEscape mode CHR ''%''" for mode
    by (cases mode) (simp_all add: shouldEscape_def alphanumeric_def is_alpha_def in_span_def less_eq_char_def)
  moreover have "shouldEscape Enc_Query CHR ''+''"
    by (simp add: shouldEscape_def alphanumeric_def is_alpha_def in_span_def less_eq_char_def escape_reserved_def)
  moreover have "char_of (16 * (byte c div 16) + byte c mod 16) = c"
    by (simp add: byte_def)
  ultimately show ?thesis
    using assms by (auto simp: escape_byte_def hex_val_upper [OF b(1)] hex_val_upper [OF b(2)])
qed

theorem url_unescape_escape: "mode \<noteq> Enc_Host \<Longrightarrow> url_unescape mode (url_escape mode s) = Some s"
  by (induction s) (simp_all add: url_escape_def url_unescape_escape_byte)


subsection \<open>What is encoded is parsed\<close>

lemma upper_hex_alphanumeric: "n < 16 \<Longrightarrow> alphanumeric (upper_hex n)"
proof -
  assume "n < 16"
  moreover have "list_all (\<lambda>n. alphanumeric (upper_hex n)) [0..<16]" by code_simp
  ultimately show ?thesis by (auto simp: list_all_iff)
qed

lemma QueryEscape_chars: "d \<in> set (QueryEscape s) \<Longrightarrow> alphanumeric d \<or> d \<in> set ''%+-_.~''"
proof (induction s)
  case (Cons c s)
  have b: "byte c div 16 < 16" "byte c mod 16 < 16" using byte_less [of c] by (auto simp: less_mult_imp_div_less)
  have "alphanumeric d \<or> d \<in> set ''%+-_.~''" if "d \<in> set (escape_byte Enc_Query c)"
  proof (cases "c = CHR '' '' \<or> shouldEscape Enc_Query c")
    case True
    then show ?thesis
      using that upper_hex_alphanumeric [OF b(1)] upper_hex_alphanumeric [OF b(2)]
      by (auto simp: escape_byte_def split: if_splits)
  next
    case False
    then have "d = c" using that by (simp add: escape_byte_def)
    then show ?thesis using False by (auto simp: shouldEscape_def escape_reserved_def split: if_splits)
  qed
  then show ?case using Cons by (auto simp: url_escape_def)
qed (simp add: url_escape_def)

lemma QueryEscape_clean:
  "CHR ''&'' \<notin> set (QueryEscape s)" "CHR ''='' \<notin> set (QueryEscape s)" "CHR '';'' \<notin> set (QueryEscape s)"
  using QueryEscape_chars [of "CHR ''&''" s] QueryEscape_chars [of "CHR ''=''" s] QueryEscape_chars [of "CHR '';''" s]
  by (auto simp: alphanumeric_def is_alpha_def in_span_def less_eq_char_def)

lemma parse_pair_encode: "parse_pair (encode_pair (k, v)) = Some (k, v)"
proof -
  have "SplitN2 (encode_pair (k, v)) CHR ''='' = [QueryEscape k, QueryEscape v]"
    using SplitN2_append [OF QueryEscape_clean(2)] by (simp add: encode_pair_def)
  moreover have "encode_pair (k, v) \<noteq> []" "CHR '';'' \<notin> set (encode_pair (k, v))"
    by (auto simp: encode_pair_def QueryEscape_clean)
  ultimately show ?thesis by (simp add: parse_pair_def url_unescape_escape)
qed

lemma map_filter_parse: "List.map_filter parse_pair (map encode_pair ps) = ps"
  by (induction ps) (auto simp: List.map_filter_simps parse_pair_encode)

lemma parse_pair_Nil: "parse_pair [] = None"
  by (simp add: parse_pair_def)

lemma Values_Add_same:
  assumes "k \<notin> fst ` set vs"
  shows "foldl (\<lambda>vs (k, v). Values_Add k v vs) (vs @ [(k, w)]) (map (Pair k) ws) = vs @ [(k, w @ ws)]"
proof (induction ws arbitrary: w)
  case (Cons x ws)
  have m: "map_of (vs @ [(k, w)]) k = Some w" using assms by (simp add: map_add_def iffD2 [OF map_of_eq_None_iff])
  have "map (\<lambda>(k', u). (k', if k' = k then u @ [x] else u)) vs = vs"
    using assms by (intro map_idI) force
  then have "Values_Add k x (vs @ [(k, w)]) = vs @ [(k, w @ [x])]" using m by (simp add: Values_Add_def)
  then show ?case using Cons by simp
qed simp

lemma Values_Add_group:
  assumes "k \<notin> fst ` set vs" "ws \<noteq> []"
  shows "foldl (\<lambda>vs (k, v). Values_Add k v vs) vs (map (Pair k) ws) = vs @ [(k, ws)]"
proof -
  obtain x xs where ws: "ws = x # xs" using assms(2) by (cases ws) auto
  have "map_of vs k = None" using assms(1) by (simp add: map_of_eq_None_iff)
  then have "Values_Add k x vs = vs @ [(k, [x])]" by (simp add: Values_Add_def)
  then show ?thesis using Values_Add_same [OF assms(1), of "[x]" xs] by (simp add: ws)
qed

lemma Values_Add_pairs:
  assumes "distinct (map fst vs)" "fst ` set acc \<inter> fst ` set vs = {}" "\<forall>(k, ws) \<in> set vs. ws \<noteq> []"
  shows "foldl (\<lambda>vs (k, v). Values_Add k v vs) acc (value_pairs vs) = acc @ vs"
  using assms
proof (induction vs arbitrary: acc)
  case (Cons a vs)
  obtain k ws where a: "a = (k, ws)" by fastforce
  have "foldl (\<lambda>vs (k, v). Values_Add k v vs) acc (map (Pair k) ws) = acc @ [(k, ws)]"
    using Cons.prems a by (intro Values_Add_group) auto
  moreover have "foldl (\<lambda>vs (k, v). Values_Add k v vs) (acc @ [(k, ws)]) (value_pairs vs) = (acc @ [(k, ws)]) @ vs"
    using Cons.prems a by (intro Cons.IH) auto
  ultimately show ?case by (simp add: a value_pairs_def)
qed (simp add: value_pairs_def)

theorem ParseQuery_Encode:
  assumes "distinct (map fst vs)" "\<forall>(k, ws) \<in> set vs. ws \<noteq> []"
  shows "ParseQuery (Values_Encode vs) = sort_key fst vs"
proof (cases "vs = []")
  case True
  then have "Values_Encode vs = []" by (simp add: Values_Encode_def value_pairs_def)
  then have "ParseQuery (Values_Encode vs) = []" by (simp add: ParseQuery_def parse_pair_Nil List.map_filter_simps)
  then show ?thesis using True by simp
next
  case False
  define ps where "ps = value_pairs (sort_key fst vs)"
  have same: "set (sort_key fst vs) = set vs" by simp
  then have "sort_key fst vs \<noteq> []" using False by (metis set_empty)
  with same have ps: "ps \<noteq> []" using assms(2) by (cases "sort_key fst vs") (auto simp: ps_def value_pairs_def)
  have "Split (Values_Encode vs) CHR ''&'' = map encode_pair ps"
    unfolding Values_Encode_def ps_def [symmetric]
    by (rule Split_Join) (use ps in \<open>auto simp: encode_pair_def QueryEscape_clean\<close>)
  then have "ParseQuery (Values_Encode vs) = foldl (\<lambda>vs (k, v). Values_Add k v vs) [] ps"
    by (simp add: ParseQuery_def map_filter_parse)
  also have "\<dots> = [] @ sort_key fst vs"
    unfolding ps_def using assms by (intro Values_Add_pairs) (auto simp: distinct_map)
  finally show ?thesis by simp
qed

end
