(* ===== verification/Go_Time.thy ===== *)
theory Go_Time
  imports Go_Strings "HOL-Library.List_Lexorder" "HOL-Library.Char_ord"
begin

text \<open>
  The parts of Go's \<open>time\<close> package that the program calls, in UTC. A \<open>time.Time\<close> is its number of
  nanoseconds since the Unix epoch; dates are proleptic Gregorian. \<open>RFC3339Nano\<close> is the layout the
  program stores times in: the fraction is cut of its trailing zeros, and left out when zero.
  Parsing is of the strict form with two-digit fields.
\<close>

subsection \<open>Dates\<close>

definition ns_per_sec :: int where "ns_per_sec = 1000000000"
definition ns_per_min :: int where "ns_per_min = 60 * 1000000000"
definition ns_per_day :: int where "ns_per_day = 86400 * 1000000000"

lemmas ns_defs = ns_per_sec_def ns_per_min_def ns_per_day_def

definition is_leap :: "int \<Rightarrow> bool" where
  "is_leap y \<longleftrightarrow> y mod 4 = 0 \<and> (y mod 100 \<noteq> 0 \<or> y mod 400 = 0)"

text \<open>Days from 0001-01-01 to the first of January of year \<open>y\<close>.\<close>

definition days_before_year :: "int \<Rightarrow> int" where
  "days_before_year y = (let p = y - 1 in 365 * p + p div 4 - p div 100 + p div 400)"

definition month_lengths :: "int \<Rightarrow> int list" where
  "month_lengths y = [31, if is_leap y then 29 else 28, 31, 30, 31, 30, 31, 31, 30, 31, 30, 31]"

definition days_in_month :: "int \<Rightarrow> int \<Rightarrow> int" where
  "days_in_month y m = month_lengths y ! nat (m - 1)"

definition days_before_month :: "int \<Rightarrow> int \<Rightarrow> int" where
  "days_before_month y m = sum_list (take (nat (m - 1)) (month_lengths y))"

definition epoch_days :: int where
  "epoch_days = 719162"

record civil =
  cv_year :: int
  cv_month :: int
  cv_day :: int

text \<open>\<open>time.Date\<close> accepts a month beyond twelve and any day number.\<close>

definition days_of_date :: "int \<Rightarrow> int \<Rightarrow> int \<Rightarrow> int" where
  "days_of_date y m d =
     (let y' = y + (m - 1) div 12; m' = (m - 1) mod 12 + 1
      in days_before_year y' + days_before_month y' m' + (d - 1) - epoch_days)"

definition year_of_days :: "int \<Rightarrow> int" where
  "year_of_days n =
     (let e = (400 * n) div 146097 in
      if days_before_year (e + 2) \<le> n then e + 2
      else if days_before_year (e + 1) \<le> n then e + 1 else e)"

fun find_month :: "int list \<Rightarrow> int \<Rightarrow> int \<Rightarrow> int \<times> int" where
  "find_month [] m d = (m, d)"
| "find_month (l # ls) m d = (if d < l then (m, d) else find_month ls (m + 1) (d - l))"

definition civil_of_days :: "int \<Rightarrow> civil" where
  "civil_of_days n =
     (let a = n + epoch_days; y = year_of_days a;
          (m, d) = find_month (month_lengths y) 1 (a - days_before_year y)
      in \<lparr>cv_year = y, cv_month = m, cv_day = d + 1\<rparr>)"

definition day_of :: "time \<Rightarrow> int" where
  "day_of t = t div ns_per_day"

definition time_of_day :: "int \<Rightarrow> time" where
  "time_of_day n = n * ns_per_day"

definition civil_of :: "time \<Rightarrow> civil" where
  "civil_of t = civil_of_days (day_of t)"

text \<open>\<open>Weekday\<close>: Sunday is 0; the epoch was a Thursday.\<close>

definition weekday :: "time \<Rightarrow> int" where
  "weekday t = (day_of t + 4) mod 7"

subsection \<open>Formatting\<close>

text \<open>A field of \<open>w\<close> decimal digits, zero-padded; the values printed fit their fields (years up to 9999).\<close>

definition int_digit :: "int \<Rightarrow> char" where
  "int_digit d = char_of (48 + nat d)"

fun fixed :: "nat \<Rightarrow> int \<Rightarrow> string" where
  "fixed 0 n = []"
| "fixed (Suc w) n = fixed w (n div 10) @ [int_digit (n mod 10)]"

text \<open>The layout \<open>2006-01-02\<close>.\<close>

definition format_date :: "time \<Rightarrow> string" where
  "format_date t =
     (let c = civil_of t in fixed 4 (cv_year c) @ ''-'' @ fixed 2 (cv_month c) @ ''-'' @ fixed 2 (cv_day c))"

definition format_clock :: "int \<Rightarrow> string" where
  "format_clock secs =
     fixed 2 (secs div 3600) @ '':'' @ fixed 2 (secs div 60 mod 60) @ '':'' @ fixed 2 (secs mod 60)"

definition trim_zeros :: "string \<Rightarrow> string" where
  "trim_zeros s = rev (dropWhile (\<lambda>c. c = CHR ''0'') (rev s))"

definition format_frac :: "int \<Rightarrow> string" where
  "format_frac ns = (if ns = 0 then [] else CHR ''.'' # trim_zeros (fixed 9 ns))"

definition format_rfc3339nano :: "time \<Rightarrow> string" where
  "format_rfc3339nano t =
     format_date t @ ''T'' @ format_clock (t mod ns_per_day div ns_per_sec)
       @ format_frac (t mod ns_per_sec) @ ''Z''"

subsection \<open>Parsing\<close>

text \<open>A field of exactly \<open>w\<close> digits, then the rest.\<close>

fun read_int :: "int \<Rightarrow> string \<Rightarrow> int option" where
  "read_int acc [] = Some acc"
| "read_int acc (c # cs) =
     (case digit_val c of None \<Rightarrow> None | Some d \<Rightarrow> read_int (10 * acc + int d) cs)"

definition digits :: "nat \<Rightarrow> string \<Rightarrow> (int \<times> string) option" where
  "digits w s =
     (if length s < w then None
      else (case read_int 0 (take w s) of None \<Rightarrow> None | Some n \<Rightarrow> Some (n, drop w s)))"

definition lit :: "char \<Rightarrow> string \<Rightarrow> string option" where
  "lit c s = (case s of [] \<Rightarrow> None | d # ds \<Rightarrow> if d = c then Some ds else None)"

definition is_digit :: "char \<Rightarrow> bool" where
  "is_digit c \<longleftrightarrow> digit_val c \<noteq> None"

text \<open>The fraction of a second: nanoseconds beyond the ninth digit are dropped.\<close>

definition parse_frac :: "string \<Rightarrow> (int \<times> string) option" where
  "parse_frac s =
     (case s of
        c # cs \<Rightarrow>
          if c = CHR ''.'' \<or> c = CHR '',''
          then (let ds = takeWhile is_digit cs; nine = take 9 (ds @ replicate 9 CHR ''0'')
                in if ds = [] then None
                   else (case read_int 0 nine of None \<Rightarrow> None
                         | Some n \<Rightarrow> Some (n, dropWhile is_digit cs)))
          else Some (0, s)
      | [] \<Rightarrow> Some (0, s))"

text \<open>\<open>Z\<close>, or an offset \<open>+hh:mm\<close>, in seconds.\<close>

definition parse_zone :: "string \<Rightarrow> int option" where
  "parse_zone s =
     (if s = ''Z'' then Some 0
      else (case s of
        c # cs \<Rightarrow>
          if c = CHR ''+'' \<or> c = CHR ''-''
          then (case digits 2 cs of None \<Rightarrow> None
                | Some (h, s1) \<Rightarrow>
                    (case lit CHR '':'' s1 of None \<Rightarrow> None
                     | Some s2 \<Rightarrow>
                         (case digits 2 s2 of
                            Some (m, s3) \<Rightarrow>
                              if s3 = [] \<and> h \<le> 24 \<and> m < 60
                              then Some ((if c = CHR ''-'' then -1 else 1) * (h * 3600 + m * 60)) else None
                          | None \<Rightarrow> None)))
          else None
      | [] \<Rightarrow> None))"

definition parse_date :: "string \<Rightarrow> ((int \<times> int \<times> int) \<times> string) option" where
  "parse_date s =
     (case digits 4 s of None \<Rightarrow> None
      | Some (y, s1) \<Rightarrow>
          (case Option.bind (lit CHR ''-'' s1) (digits 2) of None \<Rightarrow> None
           | Some (m, s2) \<Rightarrow>
               (case Option.bind (lit CHR ''-'' s2) (digits 2) of None \<Rightarrow> None
                | Some (d, s3) \<Rightarrow>
                    if 1 \<le> m \<and> m \<le> 12 \<and> 1 \<le> d \<and> d \<le> days_in_month y m
                    then Some ((y, m, d), s3) else None)))"

definition parse_clock :: "string \<Rightarrow> (int \<times> string) option" where
  "parse_clock s =
     (case digits 2 s of None \<Rightarrow> None
      | Some (h, s1) \<Rightarrow>
          (case Option.bind (lit CHR '':'' s1) (digits 2) of None \<Rightarrow> None
           | Some (m, s2) \<Rightarrow>
               (case Option.bind (lit CHR '':'' s2) (digits 2) of None \<Rightarrow> None
                | Some (sec, s3) \<Rightarrow>
                    if h < 24 \<and> m < 60 \<and> sec < 60 then Some (h * 3600 + m * 60 + sec, s3) else None)))"

definition parse_rfc3339 :: "string \<Rightarrow> time option" where
  "parse_rfc3339 s =
     (case parse_date s of None \<Rightarrow> None
      | Some ((y, m, d), s1) \<Rightarrow>
          (case Option.bind (lit CHR ''T'' s1) parse_clock of None \<Rightarrow> None
           | Some (secs, s2) \<Rightarrow>
               (case parse_frac s2 of None \<Rightarrow> None
                | Some (ns, s3) \<Rightarrow>
                    (case parse_zone s3 of None \<Rightarrow> None
                     | Some off \<Rightarrow>
                         Some (days_of_date y m d * ns_per_day + (secs - off) * ns_per_sec + ns)))))"

subsection \<open>Years, months and days\<close>

lemma days_before_year_bounds:
  "400 * days_before_year y \<le> 146097 * (y - 1) + 396"
  "146097 * (y - 1) - 699 \<le> 400 * days_before_year y"
proof -
  define p where "p = y - 1"
  have "4 * (p div 4) \<le> p" "p \<le> 4 * (p div 4) + 3" "100 * (p div 100) \<le> p" "p \<le> 100 * (p div 100) + 99"
    "400 * (p div 400) \<le> p" "p \<le> 400 * (p div 400) + 399" by presburger+
  moreover have "days_before_year y = 365 * p + p div 4 - p div 100 + p div 400"
    by (simp add: days_before_year_def p_def Let_def)
  ultimately show "400 * days_before_year y \<le> 146097 * (y - 1) + 396"
    "146097 * (y - 1) - 699 \<le> 400 * days_before_year y"
    unfolding p_def [symmetric] by linarith+
qed

lemma year_of_days_bounds:
  "days_before_year (year_of_days n) \<le> n \<and> n < days_before_year (year_of_days n + 1)"
proof -
  define e where "e = (400 * n) div 146097"
  have e: "146097 * e \<le> 400 * n" "400 * n < 146097 * e + 146097"
    using div_mult_mod_eq [of "400 * n" 146097] pos_mod_bound [of 146097 "400 * n"] pos_mod_sign [of 146097 "400 * n"]
    unfolding e_def by linarith+
  have "days_before_year e \<le> n" using days_before_year_bounds(1) [of e] e by simp
  moreover have "n < days_before_year (e + 3)" using days_before_year_bounds(2) [of "e + 3"] e by simp
  ultimately show ?thesis unfolding year_of_days_def Let_def e_def [symmetric] by (simp add: add.assoc)
qed

lemma year_length: "days_before_year (y + 1) - days_before_year y = sum_list (month_lengths y)"
proof -
  have d: "y div k - (y - 1) div k = (if y mod k = 0 then 1 else 0)" if "0 < k" for k :: int
  proof (cases "y mod k = 0")
    case True
    then have "y - 1 = k * (y div k - 1) + (k - 1)" using mult_div_mod_eq [of k y] by (simp add: algebra_simps)
    with True that show ?thesis using int_div_pos_eq [of "y - 1" k "y div k - 1" "k - 1"] by simp
  next
    case False
    moreover have "y - 1 = k * (y div k) + (y mod k - 1)" using mult_div_mod_eq [of k y] by simp
    moreover have "0 \<le> y mod k" "y mod k < k" using that by simp_all
    ultimately show ?thesis using int_div_pos_eq [of "y - 1" k "y div k" "y mod k - 1"] by simp
  qed
  define l where "l k = (if y mod k = 0 then 1 else 0 :: int)" for k
  have "days_before_year (y + 1) = 365 * y + y div 4 - y div 100 + y div 400"
    by (simp only: days_before_year_def Let_def add_diff_cancel_right')
  moreover have "days_before_year y = 365 * (y - 1) + (y - 1) div 4 - (y - 1) div 100 + (y - 1) div 400"
    by (simp only: days_before_year_def Let_def)
  moreover have "y div 4 - (y - 1) div 4 = l 4" "y div 100 - (y - 1) div 100 = l 100" "y div 400 - (y - 1) div 400 = l 400"
    unfolding l_def by (rule d; simp)+
  ultimately have "days_before_year (y + 1) - days_before_year y = 365 + l 4 - l 100 + l 400" by algebra
  moreover have "y mod 400 = 0 \<Longrightarrow> y mod 100 = 0" "y mod 100 = 0 \<Longrightarrow> y mod 4 = 0"
    using dvd_trans [of 100 400 y] dvd_trans [of 4 100 y] by (simp_all add: dvd_eq_mod_eq_0)
  ultimately show ?thesis
    by (cases "y mod 4 = 0"; cases "y mod 100 = 0"; cases "y mod 400 = 0") (simp_all add: month_lengths_def is_leap_def l_def)
qed

lemma find_month_spec:
  "0 \<le> d \<Longrightarrow> d < sum_list ls \<Longrightarrow> find_month ls m d = (m', r) \<Longrightarrow>
   \<exists>k < length ls. m' = m + int k \<and> r = d - sum_list (take k ls) \<and> 0 \<le> r \<and> r < ls ! k"
proof (induction ls m d rule: find_month.induct)
  case (2 l ls m d)
  show ?case
  proof (cases "d < l")
    case True
    with 2 show ?thesis by (intro exI [of _ 0]) auto
  next
    case False
    with 2 obtain k where "k < length ls" "m' = m + 1 + int k" "r = d - l - sum_list (take k ls)" "0 \<le> r" "r < ls ! k"
      by fastforce
    then show ?thesis by (intro exI [of _ "Suc k"]) auto
  qed
qed simp

lemma length_month_lengths [simp]: "length (month_lengths y) = 12"
  by (simp add: month_lengths_def)

definition civil_ok :: "civil \<Rightarrow> bool" where
  "civil_ok c \<longleftrightarrow> 1 \<le> cv_month c \<and> cv_month c \<le> 12 \<and> 1 \<le> cv_day c \<and> cv_day c \<le> days_in_month (cv_year c) (cv_month c)"

text \<open>The date of a day number is a valid date, and is that day.\<close>

lemma civil_of_days_spec:
  "civil_ok (civil_of_days n) \<and>
   days_of_date (cv_year (civil_of_days n)) (cv_month (civil_of_days n)) (cv_day (civil_of_days n)) = n"
proof -
  define a where "a = n + epoch_days"
  define y where "y = year_of_days a"
  have b: "days_before_year y \<le> a" "a - days_before_year y < sum_list (month_lengths y)"
    using year_of_days_bounds [of a] year_length [of y] unfolding y_def [symmetric] by linarith+
  obtain m r where f: "find_month (month_lengths y) 1 (a - days_before_year y) = (m, r)" by fastforce
  obtain k where k: "k < 12" "m = 1 + int k" "r = a - days_before_year y - sum_list (take k (month_lengths y))"
      "0 \<le> r" "r < month_lengths y ! k"
    using find_month_spec [OF _ b(2) f] b(1) by auto
  have c: "civil_of_days n = \<lparr>cv_year = y, cv_month = m, cv_day = r + 1\<rparr>"
    using f by (simp add: civil_of_days_def Let_def a_def [symmetric] y_def [symmetric])
  show ?thesis
    using k unfolding c
    by (auto simp: civil_ok_def days_in_month_def days_of_date_def days_before_month_def a_def)
qed

lemmas civil_of_days_ok = civil_of_days_spec [THEN conjunct1]
lemmas days_of_civil_of_days = civil_of_days_spec [THEN conjunct2]

lemma days_in_month_le: "1 \<le> m \<Longrightarrow> m \<le> 12 \<Longrightarrow> days_in_month y m \<le> 31"
proof -
  assume "1 \<le> m" "m \<le> 12"
  then have "month_lengths y ! nat (m - 1) \<in> set (month_lengths y)" by (intro nth_mem) auto
  then show ?thesis by (auto simp: days_in_month_def month_lengths_def split: if_splits)
qed

subsection \<open>Fields of digits\<close>

lemma length_fixed [simp]: "length (fixed w n) = w"
  by (induction w n rule: fixed.induct) auto

lemma digit_val_int_digit: "0 \<le> d \<Longrightarrow> d < 10 \<Longrightarrow> digit_val (int_digit d) = Some (nat d)"
  using digit_val_digit_char [of "nat d"] by (simp add: int_digit_def digit_char_def)

lemma read_int_append: "read_int acc (s @ t) = Option.bind (read_int acc s) (\<lambda>a. read_int a t)"
  by (induction acc s rule: read_int.induct) (auto split: option.splits)

lemma read_int_fixed: "0 \<le> n \<Longrightarrow> n < 10 ^ w \<Longrightarrow> read_int acc (fixed w n) = Some (acc * 10 ^ w + n)"
proof (induction w n arbitrary: acc rule: fixed.induct)
  case (2 w n)
  then have "0 \<le> n div 10" "n div 10 < 10 ^ w" by (auto simp: div_less_iff_less_mult mult.commute)
  with 2 show ?case by (simp add: read_int_append digit_val_int_digit algebra_simps)
qed simp

lemma digits_fixed: "0 \<le> n \<Longrightarrow> n < 10 ^ w \<Longrightarrow> digits w (fixed w n @ s) = Some (n, s)"
  by (simp add: digits_def read_int_fixed)

lemma lit_Cons [simp]: "lit c (c # s) = Some s"
  by (simp add: lit_def)

lemma fixed_inject: "0 \<le> a \<Longrightarrow> a < 10 ^ w \<Longrightarrow> 0 \<le> b \<Longrightarrow> b < 10 ^ w \<Longrightarrow> fixed w a = fixed w b \<longleftrightarrow> a = b"
  using read_int_fixed [of a w 0] read_int_fixed [of b w 0] by (metis add_cancel_right_left mult_zero_left option.inject)

subsection \<open>Parsing inverts printing\<close>

definition printable :: "time \<Rightarrow> bool" where
  "printable t \<longleftrightarrow> 0 \<le> cv_year (civil_of t) \<and> cv_year (civil_of t) \<le> 9999"

lemma civil_fields:
  assumes "printable t"
  shows "0 \<le> cv_year (civil_of t)" "cv_year (civil_of t) < 10 ^ 4" "0 \<le> cv_month (civil_of t)"
    "cv_month (civil_of t) < 10 ^ 2" "0 \<le> cv_day (civil_of t)" "cv_day (civil_of t) < 10 ^ 2"
  using assms civil_of_days_ok [of "day_of t"] days_in_month_le [of "cv_month (civil_of t)" "cv_year (civil_of t)"]
  by (simp_all add: printable_def civil_of_def civil_ok_def)

lemma parse_format_date:
  assumes "printable t"
  shows "parse_date (format_date t @ s) =
     Some ((cv_year (civil_of t), cv_month (civil_of t), cv_day (civil_of t)), s)"
  using civil_fields [OF assms] civil_of_days_ok [of "day_of t"]
  by (simp add: parse_date_def format_date_def Let_def digits_fixed civil_ok_def civil_of_def
      del: fixed.simps power_numeral)

lemma parse_format_clock:
  assumes "0 \<le> secs" "secs < 86400"
  shows "parse_clock (format_clock secs @ s) = Some (secs, s)"
proof -
  have "0 \<le> secs div 3600" "secs div 3600 < 10 ^ 2" "secs div 3600 < 24" "0 \<le> secs div 60 mod 60"
    "secs div 60 mod 60 < 10 ^ 2" "0 \<le> secs mod 60" "secs mod 60 < 10 ^ 2"
    using assms pos_mod_bound [of 60 "secs div 60"] pos_mod_bound [of 60 secs] by (simp_all add: pos_imp_zdiv_nonneg_iff)
  moreover have "secs div 3600 * 3600 + secs div 60 mod 60 * 60 + secs mod 60 = secs"
  proof -
    have "secs div 60 div 60 = secs div 3600" using zdiv_zmult2_eq [of 60 secs 60] by simp
    then have "secs div 3600 * 60 + secs div 60 mod 60 = secs div 60" "secs div 60 * 60 + secs mod 60 = secs"
      using div_mult_mod_eq [of "secs div 60" 60] by simp_all
    then have "(secs div 3600 * 60 + secs div 60 mod 60) * 60 + secs mod 60 = secs" by (simp only:)
    then show ?thesis by (simp only: distrib_right mult.assoc)
  qed
  ultimately show ?thesis
    by (simp add: parse_clock_def format_clock_def digits_fixed del: fixed.simps power_numeral)
qed

lemma is_digit_fixed: "0 \<le> n \<Longrightarrow> c \<in> set (fixed w n) \<Longrightarrow> is_digit c"
  by (induction w n rule: fixed.induct) (auto simp: is_digit_def digit_val_int_digit)

lemma trim_zeros_replicate: "\<exists>k. trim_zeros s @ replicate k CHR ''0'' = s \<and> length (trim_zeros s) + k = length s"
proof (induction s rule: rev_induct)
  case (snoc c s)
  then obtain k where k: "trim_zeros s @ replicate k CHR ''0'' = s" "length (trim_zeros s) + k = length s" by blast
  show ?case
  proof (cases "c = CHR ''0''")
    case True
    with k show ?thesis
      by (intro exI [of _ "Suc k"]) (simp add: trim_zeros_def replicate_append_same [symmetric] flip: append_assoc)
  next
    case False
    then show ?thesis by (intro exI [of _ 0]) (simp add: trim_zeros_def)
  qed
qed (simp add: trim_zeros_def)

lemma read_int_zeros: "read_int 0 (replicate k CHR ''0'') = Some 0"
  by (induction k) (simp_all add: digit_val_def)

lemma parse_format_frac:
  assumes "0 \<le> ns" "ns < 10 ^ 9"
  shows "parse_frac (format_frac ns @ ''Z'') = Some (ns, ''Z'')"
proof (cases "ns = 0")
  case True
  then show ?thesis by (simp add: format_frac_def parse_frac_def)
next
  case False
  let ?f = "fixed 9 ns"
  obtain k where k: "trim_zeros ?f @ replicate k CHR ''0'' = ?f" "length (trim_zeros ?f) + k = 9"
    using trim_zeros_replicate [of ?f] by (auto simp del: fixed.simps)
  have read: "read_int 0 ?f = Some ns" using read_int_fixed [OF assms, of 0] by simp
  have ne: "trim_zeros ?f \<noteq> []"
  proof
    assume "trim_zeros ?f = []"
    with k have "?f = replicate k CHR ''0''" by simp
    with read read_int_zeros False show False by simp
  qed
  have dig: "\<forall>c \<in> set (trim_zeros ?f). is_digit c"
    using is_digit_fixed [OF assms(1)] k(1) by (metis in_set_conv_decomp append_assoc in_set_conv_decomp_first Un_iff set_append)
  have "\<not> is_digit CHR ''Z''" by (simp add: is_digit_def digit_val_def)
  with dig have "takeWhile is_digit (trim_zeros ?f @ ''Z'') = trim_zeros ?f"
    "dropWhile is_digit (trim_zeros ?f @ ''Z'') = ''Z''" by simp_all
  moreover have "take 9 (trim_zeros ?f @ replicate 9 CHR ''0'') = ?f"
  proof -
    have "take 9 (trim_zeros ?f @ replicate 9 CHR ''0'') = trim_zeros ?f @ replicate k CHR ''0''"
      using k(2) by (simp add: min_def)
    then show ?thesis using k(1) by simp
  qed
  ultimately show ?thesis
    using False ne read by (simp add: parse_frac_def format_frac_def Let_def del: fixed.simps)
qed

theorem parse_format_rfc3339nano:
  assumes "printable t"
  shows "parse_rfc3339 (format_rfc3339nano t) = Some t"
proof -
  define secs where "secs = t mod ns_per_day div ns_per_sec"
  have secs: "0 \<le> secs" "secs < 86400"
    by (simp_all add: secs_def ns_defs pos_imp_zdiv_nonneg_iff div_less_iff_less_mult)
  have ns: "0 \<le> t mod ns_per_sec" "t mod ns_per_sec < 10 ^ 9" by (simp_all add: ns_defs)
  have "t mod ns_per_day mod ns_per_sec = t mod ns_per_sec" by (simp add: ns_defs mod_mod_cancel)
  then have "t div ns_per_day * ns_per_day + secs * ns_per_sec + t mod ns_per_sec = t"
    using div_mult_mod_eq [of t ns_per_day] div_mult_mod_eq [of "t mod ns_per_day" ns_per_sec]
    unfolding secs_def by (simp only: add.assoc)
  moreover have "days_of_date (cv_year (civil_of t)) (cv_month (civil_of t)) (cv_day (civil_of t)) = t div ns_per_day"
    using days_of_civil_of_days [of "day_of t"] by (simp add: civil_of_def day_of_def)
  moreover have "parse_zone ''Z'' = Some 0" by (simp add: parse_zone_def)
  ultimately show ?thesis
    unfolding parse_rfc3339_def format_rfc3339nano_def secs_def [symmetric]
    by (simp add: parse_format_date [OF assms] parse_format_clock [OF secs] parse_format_frac [OF ns])
qed

subsection \<open>Dates order as strings\<close>

lemma same_length_less_append:
  fixes u v u' v' :: "'a::linorder list"
  assumes "length u = length u'"
  shows "u @ v < u' @ v' \<longleftrightarrow> u < u' \<or> u = u' \<and> v < v'"
  using assms by (induction u u' rule: list_induct2) auto

lemma int_digit_less: "0 \<le> a \<Longrightarrow> a < 10 \<Longrightarrow> 0 \<le> b \<Longrightarrow> b < 10 \<Longrightarrow> int_digit a < int_digit b \<longleftrightarrow> a < b"
  by (auto simp: int_digit_def less_char_def)

lemma fixed_less:
  "0 \<le> a \<Longrightarrow> a < 10 ^ w \<Longrightarrow> 0 \<le> b \<Longrightarrow> b < 10 ^ w \<Longrightarrow> fixed w a < fixed w b \<longleftrightarrow> a < b"
proof (induction w a arbitrary: b rule: fixed.induct)
  case (2 w a)
  have r: "0 \<le> a div 10" "a div 10 < 10 ^ w" "0 \<le> b div 10" "b div 10 < 10 ^ w"
    using "2.prems" by (auto simp: div_less_iff_less_mult mult.commute)
  have "fixed (Suc w) a < fixed (Suc w) b \<longleftrightarrow> a div 10 < b div 10 \<or> a div 10 = b div 10 \<and> a mod 10 < b mod 10"
    using "2.IH" [OF r] fixed_inject [OF r] by (simp add: same_length_less_append int_digit_less)
  also have "\<dots> \<longleftrightarrow> a < b"
    using div_mult_mod_eq [of a 10] div_mult_mod_eq [of b 10] pos_mod_bound [of 10 a] pos_mod_bound [of 10 b]
      pos_mod_sign [of 10 a] pos_mod_sign [of 10 b] by linarith
  finally show ?case .
qed simp

lemma sum_take_mono:
  fixes ls :: "int list"
  assumes "\<forall>x \<in> set ls. 0 \<le> x" and "k \<le> j"
  shows "sum_list (take k ls) \<le> sum_list (take j ls)"
proof -
  have "take j ls = take k ls @ take (j - k) (drop k ls)" using assms(2) by (metis le_add_diff_inverse take_add)
  moreover have "0 \<le> sum_list (take (j - k) (drop k ls))"
    using assms(1) by (intro sum_list_nonneg) (meson in_set_dropD in_set_takeD)
  ultimately show ?thesis by simp
qed

lemma month_lengths_nonneg: "\<forall>x \<in> set (month_lengths y). 0 \<le> x"
  by (simp add: month_lengths_def)

lemma days_before_month_next:
  assumes "1 \<le> m" "m < m'" "m' \<le> 13"
  shows "days_before_month y m + days_in_month y m \<le> days_before_month y m'"
proof -
  have "Suc (nat (m - 1)) = nat m" "nat (m - 1) < 12" "nat m \<le> nat (m' - 1)" using assms by auto
  then have "days_before_month y m + days_in_month y m = sum_list (take (nat m) (month_lengths y))"
    by (metis days_before_month_def days_in_month_def length_month_lengths sum_list.append sum_list.Cons
        sum_list.Nil add.right_neutral take_Suc_conv_app_nth)
  then show ?thesis
    using sum_take_mono [OF month_lengths_nonneg \<open>nat m \<le> nat (m' - 1)\<close>, of y] by (simp add: days_before_month_def)
qed

lemma days_of_date_ok: "civil_ok c \<Longrightarrow> days_of_date (cv_year c) (cv_month c) (cv_day c) =
    days_before_year (cv_year c) + days_before_month (cv_year c) (cv_month c) + (cv_day c - 1) - epoch_days"
  by (simp add: days_of_date_def civil_ok_def Let_def)

lemma day_in_year:
  assumes "civil_ok c"
  shows "0 \<le> days_before_month (cv_year c) (cv_month c) + (cv_day c - 1)"
    and "days_before_month (cv_year c) (cv_month c) + (cv_day c - 1) < sum_list (month_lengths (cv_year c))"
proof -
  have "0 \<le> days_before_month (cv_year c) (cv_month c)"
    using month_lengths_nonneg unfolding days_before_month_def by (intro sum_list_nonneg) (meson in_set_takeD)
  moreover have "days_before_month (cv_year c) (cv_month c) + days_in_month (cv_year c) (cv_month c)
      \<le> days_before_month (cv_year c) 13"
    using assms by (intro days_before_month_next) (simp_all add: civil_ok_def)
  moreover have "days_before_month y 13 = sum_list (month_lengths y)" for y by (simp add: days_before_month_def)
  ultimately show "0 \<le> days_before_month (cv_year c) (cv_month c) + (cv_day c - 1)"
    "days_before_month (cv_year c) (cv_month c) + (cv_day c - 1) < sum_list (month_lengths (cv_year c))"
    using assms by (simp_all add: civil_ok_def)
qed

lemma days_before_year_mono: "y < y' \<Longrightarrow> days_before_year (y + 1) \<le> days_before_year y'"
proof (induction "nat (y' - y)" arbitrary: y')
  case (Suc k)
  show ?case
  proof (cases "y' = y + 1")
    case False
    with Suc have "days_before_year (y + 1) \<le> days_before_year (y' - 1)" by (intro Suc.hyps(1)) auto
    moreover have "0 \<le> sum_list (month_lengths (y' - 1))" by (simp add: month_lengths_def)
    ultimately show ?thesis using year_length [of "y' - 1"] by simp
  qed simp
qed simp

definition civil_less :: "civil \<Rightarrow> civil \<Rightarrow> bool" where
  "civil_less c c' \<longleftrightarrow> cv_year c < cv_year c' \<or> cv_year c = cv_year c' \<and>
     (cv_month c < cv_month c' \<or> cv_month c = cv_month c' \<and> cv_day c < cv_day c')"

lemma civil_less_days:
  assumes "civil_ok c" "civil_ok c'" "civil_less c c'"
  shows "days_of_date (cv_year c) (cv_month c) (cv_day c) < days_of_date (cv_year c') (cv_month c') (cv_day c')"
proof -
  consider "cv_year c < cv_year c'" | "cv_year c = cv_year c'" "cv_month c < cv_month c'"
    | "cv_year c = cv_year c'" "cv_month c = cv_month c'" "cv_day c < cv_day c'"
    using assms(3) unfolding civil_less_def by blast
  then show ?thesis
  proof cases
    case 1
    then show ?thesis
      using day_in_year [OF assms(1)] day_in_year [OF assms(2)] days_before_year_mono [OF 1] year_length [of "cv_year c"]
      by (simp add: days_of_date_ok assms(1,2))
  next
    case 2
    then have "days_before_month (cv_year c) (cv_month c) + days_in_month (cv_year c) (cv_month c)
        \<le> days_before_month (cv_year c) (cv_month c')"
      using assms(1,2) by (intro days_before_month_next) (simp_all add: civil_ok_def)
    then show ?thesis
      unfolding days_of_date_ok [OF assms(1)] days_of_date_ok [OF assms(2)]
      using 2 assms(1,2) by (simp add: civil_ok_def)
  next
    case 3
    then show ?thesis unfolding days_of_date_ok [OF assms(1)] days_of_date_ok [OF assms(2)] by simp
  qed
qed

lemma civil_of_days_less: "civil_less (civil_of_days n) (civil_of_days n') \<longleftrightarrow> n < n'"
proof -
  let ?c = "civil_of_days n" and ?c' = "civil_of_days n'"
  have "civil_less ?c ?c' \<or> civil_less ?c' ?c \<or> ?c = ?c'" unfolding civil_less_def by (cases ?c; cases ?c') auto
  moreover have "civil_less ?c ?c' \<Longrightarrow> n < n'" "civil_less ?c' ?c \<Longrightarrow> n' < n"
    using civil_less_days civil_of_days_ok days_of_civil_of_days by metis+
  moreover have "?c = ?c' \<Longrightarrow> n = n'" using days_of_civil_of_days by metis
  ultimately show ?thesis by (metis order_less_asym order_less_irrefl)
qed

text \<open>The day keys of the usage counters compare, as strings, like the days they stand for.\<close>

lemma format_date_less:
  assumes "printable t" "printable t'"
  shows "format_date t < format_date t' \<longleftrightarrow> day_of t < day_of t'"
proof -
  have "format_date t < format_date t' \<longleftrightarrow> civil_less (civil_of t) (civil_of t')"
    using civil_fields [OF assms(1)] civil_fields [OF assms(2)]
    by (simp add: format_date_def Let_def same_length_less_append fixed_less fixed_inject civil_less_def
        del: fixed.simps power_numeral)
  then show ?thesis by (simp add: civil_of_def civil_of_days_less)
qed

lemma format_date_inject:
  assumes "printable t" "printable t'"
  shows "format_date t = format_date t' \<longleftrightarrow> day_of t = day_of t'"
  using format_date_less [OF assms] format_date_less [OF assms(2,1)]
  by (metis civil_of_def format_date_def linorder_neq_iff)

text \<open>Times in \<open>RFC3339Nano\<close> do not: a full second sorts after its fractions.\<close>

lemma rfc3339nano_order_wrong:
  "format_rfc3339nano 1500000000 < format_rfc3339nano 1000000000"
  by code_simp

end
