(* ===== verification/Driver_Http.thy ===== *)
theory Driver_Http
  imports Exec_Node Provider_Rows Go_Url Go_Time
begin

text \<open>
  The outbound HTTP client of the drivers (\<open>internal/providers/httpclient.go\<close>, \<open>limiter.go\<close>) and the
  values they exchange with it. A driver runs in a world that remembers the requests sent so far. The
  environment is a parameter: what a service answers to a request after those requests, how long the
  token bucket of \<open>golang.org/x/time/rate\<close> lets a driver wait, what the clock shows, and the digest and
  the RSA signature of the token sources. The dialer, the proxy choice and the transport settings of
  \<open>NewHTTPClient\<close> belong to that answer.
\<close>

subsection \<open>Queries\<close>

record Query =
  q_Text :: string
  q_Count :: int
  q_Lang :: string
  q_Country :: string
  q_Extra :: "(string \<times> string) list"

definition Query_Get :: "Query \<Rightarrow> string \<Rightarrow> string \<Rightarrow> string" where
  "Query_Get q key fallback =
     (case map_of (q_Extra q) key of Some v \<Rightarrow> if v \<noteq> [] then v else fallback | None \<Rightarrow> fallback)"

definition Query_With :: "Query \<Rightarrow> string \<Rightarrow> string \<Rightarrow> Query" where
  "Query_With q key v = q\<lparr>q_Extra := AList.update key v (q_Extra q)\<rparr>"

type_synonym credentials = "(string \<times> string) list"

abbreviation cred :: "credentials \<Rightarrow> string \<Rightarrow> string" where
  "cred \<equiv> param"

subsection \<open>Headers\<close>

text \<open>\<open>http.Header\<close> with one value per canonical name.\<close>

fun canonical_from :: "bool \<Rightarrow> string \<Rightarrow> string" where
  "canonical_from upper [] = []"
| "canonical_from upper (c # cs) = (if upper then upper_char c else lower_char c) # canonical_from (c = CHR ''-'') cs"

abbreviation canonical :: "string \<Rightarrow> string" where
  "canonical \<equiv> canonical_from True"

type_synonym http_header = "(string \<times> string) list"

definition header_set :: "string \<Rightarrow> string \<Rightarrow> http_header \<Rightarrow> http_header" where
  "header_set k v h = AList.update (canonical k) v h"

definition header_get :: "http_header \<Rightarrow> string \<Rightarrow> string" where
  "header_get h k = param h (canonical k)"

subsection \<open>Requests and answers\<close>

record out_request =
  out_Method :: string
  out_URL :: url
  out_Header :: http_header
  out_Body :: "string option"

definition removeEmptyPort :: "string \<Rightarrow> string" where
  "removeEmptyPort h = (if HasSuffix h '':'' then TrimSuffix h '':'' else h)"

definition NewRequest :: "string \<Rightarrow> string \<Rightarrow> string option \<Rightarrow> string + out_request" where
  "NewRequest method target body =
     (case Parse target of Inl e \<Rightarrow> Inl e
      | Inr u \<Rightarrow> Inr \<lparr>out_Method = method, out_URL = u\<lparr>url_Host := removeEmptyPort (url_Host u)\<rparr>,
                      out_Header = [], out_Body = body\<rparr>)"

definition put_header :: "string \<Rightarrow> string \<Rightarrow> out_request \<Rightarrow> out_request" where
  "put_header k v r = r\<lparr>out_Header := header_set k v (out_Header r)\<rparr>"

definition set_basic_auth :: "string \<Rightarrow> string \<Rightarrow> out_request \<Rightarrow> out_request" where
  "set_basic_auth login password r =
     put_header ''Authorization'' (''Basic '' @ pad_encode std_alphabet (login @ '':'' @ password)) r"

record http_response =
  resp_Code :: int
  resp_Status :: string
  resp_Header :: http_header
  resp_Body :: string

text \<open>What comes back: a transport error, an answer whose body cannot be read, or an answer.\<close>

datatype exchange = Transport_Error go_error | Broken_Body http_response go_error | Answer http_response

record HTTPClient =
  hc_userAgent :: string
  hc_redact :: "(string \<Rightarrow> string) option"

definition default_user_agent :: string where
  "default_user_agent =
     ''Mozilla/5.0 (X11; Linux x86_64) AppleWebKit/537.36 (KHTML, like Gecko) Chrome/126.0 Safari/537.36''"

definition NewHTTPClient :: "string \<Rightarrow> HTTPClient" where
  "NewHTTPClient userAgent =
     \<lparr>hc_userAgent = (if TrimSpace userAgent = [] then default_user_agent else userAgent), hc_redact = None\<rparr>"

definition SetRedactor :: "(string \<Rightarrow> string) \<Rightarrow> HTTPClient \<Rightarrow> HTTPClient" where
  "SetRedactor fn h = h\<lparr>hc_redact := Some fn\<rparr>"

definition client_redact :: "HTTPClient \<Rightarrow> string \<Rightarrow> string" where
  "client_redact h s = (case hc_redact h of None \<Rightarrow> s | Some fn \<Rightarrow> fn s)"

definition with_user_agent :: "HTTPClient \<Rightarrow> out_request \<Rightarrow> out_request" where
  "with_user_agent h r =
     (if header_get (out_Header r) ''User-Agent'' = [] then put_header ''User-Agent'' (hc_userAgent h) r else r)"

text \<open>A cached OAuth token and the grant that fetches a new one: the endpoint and the form it posts.\<close>

datatype grant = Entra_Grant string "(string \<times> string list) list" | Google_Grant string string string

record token_cache =
  tc_token :: string
  tc_expiry :: time
  tc_fetch :: grant

record world =
  w_sent :: "out_request list"
  w_tokens :: "(string \<times> token_cache) list"

record driver_env =
  de_client :: HTTPClient
  de_answer :: "out_request list \<Rightarrow> out_request \<Rightarrow> exchange"
  de_wait :: "out_request list \<Rightarrow> string \<Rightarrow> float64 \<Rightarrow> go_error option"
  de_now :: "out_request list \<Rightarrow> time"
  de_digest :: "string \<Rightarrow> string"
  de_rsa :: "string \<Rightarrow> string + (string \<Rightarrow> string + string)"

definition send :: "driver_env \<Rightarrow> out_request \<Rightarrow> world \<Rightarrow> exchange \<times> world" where
  "send env r w = (de_answer env (w_sent w) r, w\<lparr>w_sent := w_sent w @ [r]\<rparr>)"

definition Do :: "driver_env \<Rightarrow> out_request \<Rightarrow> world \<Rightarrow> exchange \<times> world" where
  "Do env r w = send env (with_user_agent (de_client env) r) w"

definition maxRPSParam :: "params \<Rightarrow> float64 \<Rightarrow> float64" where
  "maxRPSParam ps def =
     (let v = param ps ''max_rps'' in
      if v = [] then def else (case ParseFloat v of Some f \<Rightarrow> f | None \<Rightarrow> def))"

definition WaitLimit :: "driver_env \<Rightarrow> string \<Rightarrow> float64 \<Rightarrow> world \<Rightarrow> go_error option" where
  "WaitLimit env code rps w = (if float_le_zero rps then None else de_wait env (w_sent w) code rps)"

definition MaxResponseBytes :: int where
  "MaxResponseBytes = 4 * 1024 * 1024"

text \<open>The body kept, and whether it was cut.\<close>

definition ReadBody :: "http_response \<Rightarrow> string \<times> bool" where
  "ReadBody resp =
     (if int (length (resp_Body resp)) > MaxResponseBytes
      then (take (nat MaxResponseBytes) (resp_Body resp), True) else (resp_Body resp, False))"

subsection \<open>Classification\<close>

definition KindRead :: string where "KindRead = ''read''"
definition KindJSON :: string where "KindJSON = ''json''"

definition HTTPClassify :: "int \<Rightarrow> int list \<Rightarrow> string \<times> bool" where
  "HTTPClassify status retryCodes =
     (if status \<in> set retryCodes then (KindHTTP, False)
      else if status \<ge> 500 then (KindHTTP, False)
      else (KindHTTP, True))"

definition IsJSONStatus :: "int \<Rightarrow> bool" where
  "IsJSONStatus status \<longleftrightarrow> status \<ge> 200 \<and> status < 300"

text \<open>\<open>strings.Fields\<close>.\<close>

fun fields_from :: "string \<Rightarrow> string \<Rightarrow> string list" where
  "fields_from acc [] = (if acc = [] then [] else [acc])"
| "fields_from acc (c # cs) =
     (if is_space c then (if acc = [] then fields_from [] cs else acc # fields_from [] cs)
      else fields_from (acc @ [c]) cs)"

definition trimBody :: "HTTPClient \<Rightarrow> string \<Rightarrow> string" where
  "trimBody h body =
     (let s = Join (fields_from [] body) '' '' in
      client_redact h (if length s > 160 then take 160 s else s))"

definition HTTPError :: "HTTPClient \<Rightarrow> int \<Rightarrow> string \<Rightarrow> string \<Rightarrow> string" where
  "HTTPError h status reason body =
     TrimSpace (''HTTP '' @ Itoa status @ '' '' @ reason @ '' '' @ trimBody h body)"

definition fail :: "string \<Rightarrow> bool \<Rightarrow> string \<Rightarrow> string \<Rightarrow> Result" where
  "fail kind permanent provider msg =
     zero_result\<lparr>r_Kind := kind, r_Permanent := permanent, r_Provider := provider, r_Error := msg\<rparr>"

subsection \<open>The Retry-After header\<close>

text \<open>\<open>http.ParseTime\<close> on the fixed-length date of HTTP; the two obsolete forms are not modelled.\<close>

definition short_days :: "string list" where
  "short_days = [''sun'', ''mon'', ''tue'', ''wed'', ''thu'', ''fri'', ''sat'']"

definition short_months :: "string list" where
  "short_months = [''jan'', ''feb'', ''mar'', ''apr'', ''may'', ''jun'', ''jul'', ''aug'', ''sep'', ''oct'', ''nov'', ''dec'']"

definition month_number :: "string \<Rightarrow> int option" where
  "month_number s = map_of (zip short_months [1, 2, 3, 4, 5, 6, 7, 8, 9, 10, 11, 12]) (ToLower s)"

definition parse_http_day :: "string \<Rightarrow> ((int \<times> int \<times> int) \<times> string) option" where
  "parse_http_day s =
     (if ToLower (take 3 s) \<notin> set short_days \<or> \<not> HasPrefix (drop 3 s) '', '' then None
      else (case digits 2 (drop 5 s) of None \<Rightarrow> None
            | Some (d, s1) \<Rightarrow>
                (case (lit CHR '' '' s1, month_number (take 3 (drop 1 s1)), Option.bind (lit CHR '' '' (drop 4 s1)) (digits 4)) of
                   (Some _, Some m, Some (y, s2)) \<Rightarrow>
                     if 1 \<le> d \<and> d \<le> days_in_month y m then Some ((y, m, d), s2) else None
                 | _ \<Rightarrow> None)))"

definition ParseTime :: "string \<Rightarrow> time option" where
  "ParseTime s =
     (case parse_http_day s of None \<Rightarrow> None
      | Some ((y, m, d), s1) \<Rightarrow>
          (case Option.bind (lit CHR '' '' s1) parse_clock of None \<Rightarrow> None
           | Some (secs, s2) \<Rightarrow>
               (case parse_frac s2 of None \<Rightarrow> None
                | Some (ns, s3) \<Rightarrow>
                    if s3 = '' GMT'' then Some (days_of_date y m d * ns_per_day + secs * ns_per_sec + ns) else None)))"

definition retryAfterHeaderMS :: "time \<Rightarrow> http_response \<Rightarrow> int" where
  "retryAfterHeaderMS now resp =
     (let h = TrimSpace (header_get (resp_Header resp) ''Retry-After'') in
      if h = [] then 0
      else (case Atoi h of
              Some n \<Rightarrow> if n < 0 then 0 else sint (int64_of (n * 1000))
            | None \<Rightarrow>
                (case ParseTime h of
                   Some t \<Rightarrow> if t - now > 0 then (t - now) div 1000000 else 0
                 | None \<Rightarrow> 0)))"

end
