(* ===== verification/Token_Source.thy ===== *)
theory Token_Source
  imports Driver_Http
begin

text \<open>
  OAuth2 token sources (\<open>internal/providers/tokensource.go\<close>): one cache per key, kept in the world, with
  the grant captured when the cache was created. Errors are texts; the wording of the JSON decoder's own
  errors is left out.
\<close>

subsection \<open>The token endpoint\<close>

text \<open>
  Decoding into a struct: a member belongs to the field its name matches up to case, \<open>null\<close> leaves the
  field alone, a value of another type is an error.
\<close>

definition struct_members :: "object \<Rightarrow> string \<Rightarrow> json list" where
  "struct_members m name = filter (\<lambda>v. v \<noteq> JNull) (map snd (filter (\<lambda>x. EqualFold (fst x) name) m))"

definition string_member :: "object \<Rightarrow> string \<Rightarrow> string option" where
  "string_member m name =
     (let vs = struct_members m name in
      if list_all is_text vs
      then Some (if vs = [] then [] else string_value (List.last vs)) else None)"

definition int_literal :: "json \<Rightarrow> int option" where
  "int_literal v = (case v of JNum t \<Rightarrow> Atoi t | _ \<Rightarrow> None)"

definition int_member :: "object \<Rightarrow> string \<Rightarrow> int option" where
  "int_member m name =
     (let vs = map int_literal (struct_members m name) in
      if None \<in> set vs then None else Some (if vs = [] then 0 else the (List.last vs)))"

definition json_object :: "string \<Rightarrow> object option" where
  "json_object body = (case json_parse body of Some (JObj m) \<Rightarrow> Some m | Some JNull \<Rightarrow> Some [] | _ \<Rightarrow> None)"

definition decode_token :: "string \<Rightarrow> (string \<times> int) option" where
  "decode_token body =
     (case json_object body of None \<Rightarrow> None
      | Some m \<Rightarrow>
          (case (string_member m ''access_token'', int_member m ''expires_in'') of
             (Some tok, Some n) \<Rightarrow> if tok = [] then None else Some (tok, n)
           | _ \<Rightarrow> None))"

definition postTokenForm ::
    "driver_env \<Rightarrow> string \<Rightarrow> query_values \<Rightarrow> world \<Rightarrow> (string + string \<times> int) \<times> world" where
  "postTokenForm env tokenURL form w =
     (case NewRequest ''POST'' tokenURL (Some (Values_Encode form)) of
        Inl e \<Rightarrow> (Inl e, w)
      | Inr req \<Rightarrow>
          (case send env (put_header ''Accept'' ''application/json''
                   (put_header ''Content-Type'' ''application/x-www-form-urlencoded'' req)) w of
             (Transport_Error e, w1) \<Rightarrow> (Inl (err_Message e), w1)
           | (Broken_Body resp e, w1) \<Rightarrow> (Inl (err_Message e), w1)
           | (Answer resp, w1) \<Rightarrow>
               (let body = (if int (length (resp_Body resp)) > 2 ^ 20 then take (nat (2 ^ 20)) (resp_Body resp) else resp_Body resp) in
                if resp_Code resp div 100 \<noteq> 2
                then (Inl (''token endpoint HTTP '' @ Itoa (resp_Code resp) @ '': '' @ TrimSpace body), w1)
                else (case decode_token body of
                        None \<Rightarrow> (Inl ''token endpoint returned no access_token'', w1)
                      | Some t \<Rightarrow> (Inr t, w1)))))"

subsection \<open>Grants\<close>

text \<open>The signed assertion of a service account, valid for an hour.\<close>

definition jwt_claims :: "string \<Rightarrow> string \<Rightarrow> string \<Rightarrow> int \<Rightarrow> json" where
  "jwt_claims email uri scope now =
     JObj [(''iss'', JStr email), (''scope'', JStr scope), (''aud'', JStr uri),
           (''iat'', JNum (Itoa now)), (''exp'', JNum (Itoa (now + 3600)))]"

definition unsigned_jwt :: "string \<Rightarrow> string \<Rightarrow> string \<Rightarrow> int \<Rightarrow> string" where
  "unsigned_jwt email uri scope now =
     raw_encode url_alphabet (marshal (JObj [(''alg'', JStr ''RS256''), (''typ'', JStr ''JWT'')])) @ ''.''
     @ raw_encode url_alphabet (marshal (jwt_claims email uri scope now))"

definition googleJWTBearerToken ::
    "driver_env \<Rightarrow> string \<Rightarrow> string \<Rightarrow> string \<Rightarrow> string \<Rightarrow> world \<Rightarrow> (string + string \<times> int) \<times> world" where
  "googleJWTBearerToken env email key uri scope w =
     (case de_rsa env key of Inl e \<Rightarrow> (Inl e, w)
      | Inr sign \<Rightarrow>
          (let unsigned = unsigned_jwt email uri scope (de_now env (w_sent w) div ns_per_sec) in
           case sign unsigned of
             Inl e \<Rightarrow> (Inl (''sign JWT: '' @ e), w)
           | Inr sig \<Rightarrow>
               postTokenForm env uri
                 [(''grant_type'', [''urn:ietf:params:oauth:grant-type:jwt-bearer'']),
                  (''assertion'', [unsigned @ ''.'' @ raw_encode url_alphabet sig])] w))"

definition fetch_grant :: "driver_env \<Rightarrow> grant \<Rightarrow> world \<Rightarrow> (string + string \<times> int) \<times> world" where
  "fetch_grant env g w =
     (case g of
        Entra_Grant tokenURL form \<Rightarrow> postTokenForm env tokenURL form w
      | Google_Grant email key uri \<Rightarrow>
          googleJWTBearerToken env email key uri ''https://www.googleapis.com/auth/cloud-platform'' w)"

subsection \<open>The cache\<close>

definition cached_source :: "world \<Rightarrow> string \<Rightarrow> token_cache option" where
  "cached_source w key = map_of (w_tokens w) key"

definition put_source :: "string \<Rightarrow> token_cache \<Rightarrow> world \<Rightarrow> world" where
  "put_source key tc w = w\<lparr>w_tokens := AList.update key tc (w_tokens w)\<rparr>"

definition cachedTokenSource :: "string \<Rightarrow> grant \<Rightarrow> world \<Rightarrow> world" where
  "cachedTokenSource key g w =
     (if cached_source w key = None then put_source key \<lparr>tc_token = [], tc_expiry = 0, tc_fetch = g\<rparr> w else w)"

definition Token :: "driver_env \<Rightarrow> string \<Rightarrow> token_cache \<Rightarrow> world \<Rightarrow> (string + string) \<times> world" where
  "Token env key tc w =
     (if tc_token tc \<noteq> [] \<and> de_now env (w_sent w) < tc_expiry tc then (Inr (tc_token tc), w)
      else (case fetch_grant env (tc_fetch tc) w of
              (Inl e, w1) \<Rightarrow> (Inl e, w1)
            | (Inr (token, expiresIn), w1) \<Rightarrow>
                (let e = (if expiresIn \<le> 0 then 3600 else expiresIn) in
                 (Inr token,
                  put_source key (tc\<lparr>tc_token := token,
                      tc_expiry := de_now env (w_sent w1) + sint (int64_of ((e - 60) * ns_per_sec))\<rparr>) w1))))"

text \<open>\<open>Token\<close> and \<open>Invalidate\<close> on the shared cache of a key.\<close>

definition source_token :: "driver_env \<Rightarrow> string \<Rightarrow> world \<Rightarrow> (string + string) \<times> world" where
  "source_token env key w =
     (case cached_source w key of None \<Rightarrow> (Inl [], w) | Some tc \<Rightarrow> Token env key tc w)"

definition Invalidate :: "string \<Rightarrow> world \<Rightarrow> world" where
  "Invalidate key w =
     (case cached_source w key of None \<Rightarrow> w
      | Some tc \<Rightarrow> put_source key (tc\<lparr>tc_token := [], tc_expiry := 0\<rparr>) w)"

definition hashKey :: "driver_env \<Rightarrow> string list \<Rightarrow> string" where
  "hashKey env parts = de_digest env (Join parts [CHR 0x00])"

definition entra_form :: "string \<Rightarrow> string \<Rightarrow> query_values" where
  "entra_form clientID secret =
     [(''grant_type'', [''client_credentials'']), (''client_id'', [clientID]), (''client_secret'', [secret]),
      (''scope'', [''https://search.azure.com/.default''])]"

definition entraToken :: "driver_env \<Rightarrow> credentials \<Rightarrow> world \<Rightarrow> (string + string) \<times> world" where
  "entraToken env c w =
     (let tenant = TrimSpace (cred c ''tenant_id''); clientID = TrimSpace (cred c ''client_id'');
          secret = TrimSpace (cred c ''client_secret'') in
      if tenant = [] \<or> clientID = [] \<or> secret = []
      then (Inl ''auth_mode=aad requires tenant_id, client_id, client_secret credentials'', w)
      else (let tokenURL = ''https://login.microsoftonline.com/'' @ PathEscape tenant @ ''/oauth2/v2.0/token'';
                key = ''entra:'' @ hashKey env [tenant, clientID]
            in source_token env key (cachedTokenSource key (Entra_Grant tokenURL (entra_form clientID secret)) w)))"

definition vertexTokenSource :: "driver_env \<Rightarrow> string \<Rightarrow> world \<Rightarrow> (string + string) \<times> world" where
  "vertexTokenSource env raw w =
     (let saJSON = TrimSpace raw in
      if saJSON = [] then (Inl ''service_account_json credential is required'', w)
      else (case json_object saJSON of
              None \<Rightarrow> (Inl ''service_account_json is not valid JSON'', w)
            | Some m \<Rightarrow>
                (case (string_member m ''client_email'', string_member m ''private_key'', string_member m ''token_uri'') of
                   (Some email, Some key, Some uri) \<Rightarrow>
                     if email = [] \<or> key = []
                     then (Inl ''service_account_json: client_email and private_key are required'', w)
                     else (case de_rsa env key of
                             Inl e \<Rightarrow> (Inl (''service_account_json: private_key: '' @ e), w)
                           | Inr _ \<Rightarrow>
                               (let k = ''gsa:'' @ hashKey env [saJSON];
                                    uri' = (if uri = [] then ''https://oauth2.googleapis.com/token'' else uri)
                                in (Inr k, cachedTokenSource k (Google_Grant email key uri') w)))
                 | _ \<Rightarrow> (Inl ''service_account_json is not valid JSON'', w))))"

subsection \<open>Facts\<close>

lemma send_sent [simp]: "w_sent (snd (send env r w)) = w_sent w @ [r]" "w_tokens (snd (send env r w)) = w_tokens w"
  by (simp_all add: send_def)

lemma put_source_sent [simp]: "w_sent (put_source k tc w) = w_sent w"
  by (simp add: put_source_def)

lemma cached_put [simp]: "cached_source (put_source k tc w) k' = (if k' = k then Some tc else cached_source w k')"
  by (simp add: cached_source_def put_source_def update_conv')

text \<open>A token that is still valid is handed out without a request, and the cache stays as it is.\<close>

lemma valid_token_reused:
  assumes "cached_source w key = Some tc" "tc_token tc \<noteq> []" "de_now env (w_sent w) < tc_expiry tc"
  shows "source_token env key w = (Inr (tc_token tc), w)"
  using assms by (simp add: source_token_def Token_def)

text \<open>After a fetch the cache holds the token, with the grant it was created with.\<close>

lemma Token_stores:
  assumes "Token env key tc w = (Inr t, w')"
  shows "tc_token tc = t \<and> w' = w \<or> (\<exists>tc'. cached_source w' key = Some tc' \<and> tc_token tc' = t \<and> tc_fetch tc' = tc_fetch tc)"
  using assms by (auto simp: Token_def Let_def split: if_splits prod.splits sum.splits)

text \<open>
  The cache of a key keeps the grant it was created with: a client secret that is replaced later is not
  used by \<open>entraToken\<close> as long as the process runs.
\<close>

lemma cached_grant_kept:
  assumes "cached_source w key = Some tc"
  shows "cachedTokenSource key g w = w"
  using assms by (simp add: cachedTokenSource_def)

theorem entra_secret_pinned:
  assumes "cached_source w (''entra:'' @ hashKey env [TrimSpace (cred c ''tenant_id''), TrimSpace (cred c ''client_id'')]) = Some tc"
    and "TrimSpace (cred c ''tenant_id'') = TrimSpace (cred c' ''tenant_id'')"
    and "TrimSpace (cred c ''client_id'') = TrimSpace (cred c' ''client_id'')"
    and "TrimSpace (cred c ''client_secret'') \<noteq> []" "TrimSpace (cred c' ''client_secret'') \<noteq> []"
  shows "entraToken env c w = entraToken env c' w"
  using assms by (simp add: entraToken_def Let_def cached_grant_kept)

end
