(* ===== verification/Rest_Driver.thy ===== *)
theory Rest_Driver
  imports Token_Source
begin

text \<open>
  The configurable REST driver (\<open>internal/providers/rest.go\<close>): the specification of a provider, the
  request built from it, the rows read from an answer, and \<open>Search\<close>, which classifies the outcome.
  A range over the parameters follows the order of the list. A search that panics has no result
  (\<open>None\<close>).
\<close>

subsection \<open>Schemas\<close>

record ParamOption =
  po_Label :: string
  po_Value :: string

record CredentialField =
  cf_Key :: string
  cf_Multiline :: bool

record ParamField =
  pf_Key :: string
  pf_Label :: string
  pf_Type :: string
  pf_Default :: string
  pf_Options :: "ParamOption list"
  pf_Hint :: string
  pf_Required :: bool

record ProviderSchema =
  sch_Code :: string
  sch_Name :: string
  sch_Deprecated :: bool
  sch_DefaultBaseURL :: string
  sch_Credentials :: "CredentialField list"
  sch_Params :: "ParamField list"
  sch_Hints :: "string list"

abbreviation ParamTypeText :: string where "ParamTypeText \<equiv> ''text''"
abbreviation ParamTypeNumber :: string where "ParamTypeNumber \<equiv> ''number''"
abbreviation ParamTypeSelect :: string where "ParamTypeSelect \<equiv> ''select''"
abbreviation ParamTypeBoolean :: string where "ParamTypeBoolean \<equiv> ''boolean''"

definition credentialFields :: "string list \<Rightarrow> CredentialField list" where
  "credentialFields keys = map (\<lambda>k. \<lparr>cf_Key = k, cf_Multiline = False\<rparr>) keys"

definition multiline_credential :: "string \<Rightarrow> CredentialField" where
  "multiline_credential k = \<lparr>cf_Key = k, cf_Multiline = True\<rparr>"

definition param_field :: "string \<Rightarrow> string \<Rightarrow> string \<Rightarrow> string \<Rightarrow> string \<Rightarrow> ParamField" where
  "param_field t key lab def hint =
     \<lparr>pf_Key = key, pf_Label = lab, pf_Type = t, pf_Default = def, pf_Options = [], pf_Hint = hint, pf_Required = False\<rparr>"

definition selectParam :: "string \<Rightarrow> string \<Rightarrow> string \<Rightarrow> (string \<times> string) list \<Rightarrow> ParamField" where
  "selectParam key lab def opts =
     (param_field ParamTypeSelect key lab def [])\<lparr>pf_Options := map (\<lambda>(l, v). \<lparr>po_Label = l, po_Value = v\<rparr>) opts\<rparr>"

definition textParam :: "string \<Rightarrow> string \<Rightarrow> string \<Rightarrow> string \<Rightarrow> ParamField" where
  "textParam key lab def hint = param_field ParamTypeText key lab def hint"

definition requiredTextParam :: "string \<Rightarrow> string \<Rightarrow> string \<Rightarrow> string \<Rightarrow> ParamField" where
  "requiredTextParam key lab def hint = (textParam key lab def hint)\<lparr>pf_Required := True\<rparr>"

definition numberParam :: "string \<Rightarrow> string \<Rightarrow> string \<Rightarrow> string \<Rightarrow> ParamField" where
  "numberParam key lab def hint = param_field ParamTypeNumber key lab def hint"

definition boolParam :: "string \<Rightarrow> string \<Rightarrow> bool \<Rightarrow> string \<Rightarrow> ParamField" where
  "boolParam key lab def hint = param_field ParamTypeBoolean key lab (if def then ''true'' else ''false'') hint"

subsection \<open>The specification of a provider\<close>

record restAuth =
  ra_kind :: string
  ra_header :: string
  ra_queryKey :: string
  ra_credKey :: string
  ra_loginKey :: string
  ra_passwordKey :: string

type_synonym builder =
  "driver_env \<Rightarrow> Query \<Rightarrow> credentials \<Rightarrow> params \<Rightarrow> world \<Rightarrow> (string + out_request) \<times> world"

record restSpec =
  sp_code :: string
  sp_name :: string
  sp_baseURL :: string
  sp_schema :: ProviderSchema
  sp_method :: string
  sp_path :: string
  sp_auth :: restAuth
  sp_headers :: "(string \<times> string) list"
  sp_body :: bool
  sp_queryKey :: string
  sp_countField :: string
  sp_countCap :: int
  sp_langField :: string
  sp_countryField :: string
  sp_resultPath :: "string list"
  sp_linkKeys :: "string list"
  sp_titleKey :: string
  sp_snippetKeys :: "string list"
  sp_mergePaths :: "string list list"
  sp_build :: "builder option"
  sp_extract :: "(object \<Rightarrow> Row list option) option"
  sp_extractP :: "(object \<Rightarrow> params \<Rightarrow> Row list option) option"
  sp_isEmpty :: "(object \<Rightarrow> Row list \<Rightarrow> bool) option"
  sp_fatalHTTP :: "int list"
  sp_retryHTTP :: "int list"
  sp_maxRPS :: float64
  sp_throttleKey :: string
  sp_pathParam :: string
  sp_pathMap :: "(string \<times> string) list"

definition commonRetry :: "int list" where "commonRetry = [429, 500, 502, 503, 504]"
definition commonFatal :: "int list" where "commonFatal = [400, 401, 403, 404]"

text \<open>Parameters that configure the driver and are not sent.\<close>

definition isInternalParam :: "string \<Rightarrow> bool" where
  "isInternalParam key \<longleftrightarrow> key \<in> set
     [''base_url'', ''fatal_http'', ''retry_http_codes'', ''ap_retry_codes'', ''fatal_codes'',
      ''driver'', ''driver_mode'', ''model'', ''treat_empty_as_fail'', ''include_gen_answer'', ''max_rps'']"

subsection \<open>Building the request\<close>

text \<open>The loop over the parameters that a builder sends on, less the keys it handles itself.\<close>

definition sent_params :: "string list \<Rightarrow> params \<Rightarrow> params" where
  "sent_params own ps = filter (\<lambda>(k, v). \<not> (isInternalParam k \<or> v = [] \<or> k \<in> set own)) ps"

definition capped :: "int \<Rightarrow> int \<Rightarrow> int" where
  "capped cap n = (if n > cap then cap else n)"

text \<open>The fields the default builder adds, in its order; \<open>add\<close> ignores an empty value.\<close>

definition query_fields :: "restSpec \<Rightarrow> Query \<Rightarrow> (string \<times> string) list" where
  "query_fields sp q =
     (if sp_queryKey sp \<noteq> [] then [(sp_queryKey sp, q_Text q)] else [])
     @ (if sp_countField sp \<noteq> [] \<and> q_Count q > 0
        then [(sp_countField sp, Itoa (if sp_countCap sp > 0 then capped (sp_countCap sp) (q_Count q) else q_Count q))] else [])
     @ (if sp_langField sp \<noteq> [] \<and> q_Lang q \<noteq> [] then [(sp_langField sp, q_Lang q)] else [])
     @ (if sp_countryField sp \<noteq> [] \<and> q_Country q \<noteq> [] then [(sp_countryField sp, q_Country q)] else [])"

definition request_fields :: "restSpec \<Rightarrow> Query \<Rightarrow> params \<Rightarrow> (string \<times> string) list" where
  "request_fields sp q ps =
     filter (\<lambda>(k, v). v \<noteq> [])
       (query_fields sp q @ sent_params (if sp_pathParam sp \<noteq> [] then [sp_pathParam sp] else []) ps)"

definition set_all :: "(string \<times> string) list \<Rightarrow> query_values \<Rightarrow> query_values" where
  "set_all kvs vs = foldl (\<lambda>vs (k, v). Values_Set k v vs) vs kvs"

definition body_of :: "(string \<times> string) list \<Rightarrow> object \<Rightarrow> object" where
  "body_of kvs m = foldl (\<lambda>m (k, v). AList.update k (JStr v) m) m kvs"

definition request_path :: "restSpec \<Rightarrow> params \<Rightarrow> string" where
  "request_path sp ps =
     (let v = param ps (sp_pathParam sp) in
      if sp_pathParam sp \<noteq> [] \<and> v \<noteq> []
      then (case map_of (sp_pathMap sp) v of Some alt \<Rightarrow> alt | None \<Rightarrow> sp_path sp) else sp_path sp)"

definition base_of :: "params \<Rightarrow> string \<Rightarrow> string" where
  "base_of ps def = TrimRight (defaultStr (param ps ''base_url'') def) CHR ''/''"

text \<open>\<open>setAuth\<close>: a blank credential leaves the request alone.\<close>

definition setAuth :: "restSpec \<Rightarrow> credentials \<Rightarrow> out_request \<Rightarrow> out_request" where
  "setAuth sp c req =
     (let a = sp_auth sp; v = TrimSpace (cred c (ra_credKey a)) in
      if ra_kind a = ''header'' then (if v \<noteq> [] then put_header (ra_header a) v req else req)
      else if ra_kind a = ''bearer'' then (if v \<noteq> [] then put_header ''Authorization'' (''Bearer '' @ v) req else req)
      else if ra_kind a = ''api-key'' then (if v \<noteq> [] then put_header ''Authorization'' (''Api-Key '' @ v) req else req)
      else if ra_kind a = ''query''
      then (if v \<noteq> []
            then req\<lparr>out_URL := (out_URL req)\<lparr>url_RawQuery :=
                   Values_Encode (Values_Set (ra_queryKey a) v (ParseQuery (url_RawQuery (out_URL req))))\<rparr>\<rparr>
            else req)
      else if ra_kind a = ''basic''
      then (let login = TrimSpace (cred c (ra_loginKey a)); password = TrimSpace (cred c (ra_passwordKey a))
            in if login \<noteq> [] then set_basic_auth login password req else req)
      else req)"

definition set_headers :: "(string \<times> string) list \<Rightarrow> out_request \<Rightarrow> out_request" where
  "set_headers hs req = foldl (\<lambda>r (k, v). put_header k v r) req hs"

text \<open>The request without its credential.\<close>

definition plain_request :: "restSpec \<Rightarrow> Query \<Rightarrow> params \<Rightarrow> string + out_request" where
  "plain_request sp q ps =
     (case Parse (base_of ps (sp_baseURL sp) @ request_path sp ps) of Inl e \<Rightarrow> Inl e
      | Inr endpoint \<Rightarrow>
          (let kvs = request_fields sp q ps;
               values = (if sp_body sp then ParseQuery (url_RawQuery endpoint)
                         else set_all kvs (ParseQuery (url_RawQuery endpoint)));
               target = URL_String (endpoint\<lparr>url_RawQuery := Values_Encode values\<rparr>);
               body = (if sp_body sp then Some (marshal (JObj (body_of kvs []))) else None)
           in case NewRequest (sp_method sp) target body of Inl e \<Rightarrow> Inl e
              | Inr req \<Rightarrow>
                  Inr (set_headers ([(''Accept'', ''application/json'')]
                         @ (if sp_body sp then [(''Content-Type'', ''application/json'')] else []) @ sp_headers sp) req)))"

definition defaultBuild :: "restSpec \<Rightarrow> Query \<Rightarrow> credentials \<Rightarrow> params \<Rightarrow> string + out_request" where
  "defaultBuild sp q c ps =
     (case plain_request sp q ps of Inl e \<Rightarrow> Inl e | Inr req \<Rightarrow> Inr (setAuth sp c req))"

definition buildRequest :: "restSpec \<Rightarrow> builder" where
  "buildRequest sp env q c ps w =
     (case sp_build sp of Some b \<Rightarrow> b env q c ps w | None \<Rightarrow> (defaultBuild sp q c ps, w))"

subsection \<open>Reading the rows\<close>

definition extractRows :: "restSpec \<Rightarrow> object \<Rightarrow> params \<Rightarrow> Row list option" where
  "extractRows sp data ps =
     (let rows = (\<lambda>path. collectRows (JArr (getArrayAtPath (JObj data) path)) (sp_linkKeys sp) (sp_titleKey sp) (sp_snippetKeys sp)) in
      case sp_extractP sp of Some f \<Rightarrow> f data ps
      | None \<Rightarrow>
          (case sp_extract sp of Some f \<Rightarrow> f data
           | None \<Rightarrow>
               if sp_mergePaths sp \<noteq> [] then Some (concat (map rows (sp_mergePaths sp)))
               else Some (rows (sp_resultPath sp))))"

subsection \<open>Searching\<close>

definition retryHTTP :: "restSpec \<Rightarrow> params \<Rightarrow> int list" where
  "retryHTTP sp ps = parseIntCSV (param ps ''retry_http_codes'') (sp_retryHTTP sp)"

definition fatalHTTP :: "restSpec \<Rightarrow> params \<Rightarrow> int list" where
  "fatalHTTP sp ps = parseIntCSV (param ps ''fatal_http'') (sp_fatalHTTP sp)"

definition client_error :: "driver_env \<Rightarrow> restSpec \<Rightarrow> http_response \<Rightarrow> string \<Rightarrow> string \<Rightarrow> string" where
  "client_error env sp resp reason body =
     sp_code sp @ '': '' @ HTTPError (de_client env) (resp_Code resp) reason body"

text \<open>
  The throttle field: a failed result that asks to wait, or the wait to pass on with a success. The
  field counts when it is a positive number.
\<close>

definition backoff_of :: "restSpec \<Rightarrow> string \<Rightarrow> (object \<times> rat) option" where
  "backoff_of sp body =
     (if sp_throttleKey sp = [] then None
      else (case parseJSONObject body of None \<Rightarrow> None
            | Some data \<Rightarrow>
                (case as_float (obj_get data (sp_throttleKey sp)) of
                   Some b \<Rightarrow> if b > 0 then Some (data, b) else None
                 | None \<Rightarrow> None)))"

definition throttle_message :: "restSpec \<Rightarrow> object \<Rightarrow> rat \<Rightarrow> string" where
  "throttle_message sp data b =
     sp_code sp @ '': '' @ asString (obj_get data ''error_name'') @ '' backs off for '' @ Itoa (float_to_int (Some b)) @ ''s''
     @ (let em = asString (obj_get data ''error_message'') in if em \<noteq> [] then '' ('' @ em @ '')'' else [])
     @ (case as_float (obj_get data ''quota_remaining'') of
          Some n \<Rightarrow> '' quota_remaining='' @ Itoa (float_to_int (Some n)) | None \<Rightarrow> [])"

definition throttle :: "restSpec \<Rightarrow> http_response \<Rightarrow> string \<Rightarrow> Result + int" where
  "throttle sp resp body =
     (case backoff_of sp body of None \<Rightarrow> Inr 0
      | Some (data, b) \<Rightarrow>
          (let retryMS = float_to_int (float_times b 1000) in
           if \<not> IsJSONStatus (resp_Code resp) \<or> obj_get data ''error_id'' \<noteq> JNull \<or> obj_get data ''error_name'' \<noteq> JNull
           then Inl (zero_result\<lparr>r_Kind := KindAPI, r_Provider := sp_code sp, r_HTTPStatus := resp_Code resp,
                       r_RetryAfterMS := retryMS, r_Error := throttle_message sp data b\<rparr>)
           else Inr retryMS))"

definition http_failure :: "driver_env \<Rightarrow> restSpec \<Rightarrow> params \<Rightarrow> time \<Rightarrow> http_response \<Rightarrow> string \<Rightarrow> Result" where
  "http_failure env sp ps now resp body =
     (let (kind, permanent) = HTTPClassify (resp_Code resp) (retryHTTP sp ps) in
      zero_result\<lparr>r_Kind := kind, r_Permanent := (resp_Code resp \<in> set (fatalHTTP sp ps) \<or> permanent),
        r_Provider := sp_code sp, r_HTTPStatus := resp_Code resp, r_RetryAfterMS := retryAfterHeaderMS now resp,
        r_Error := client_error env sp resp (resp_Status resp) body\<rparr>)"

definition quota_counter :: "object \<Rightarrow> string \<Rightarrow> int" where
  "quota_counter data key = (case as_float (obj_get data key) of Some q \<Rightarrow> float_to_int (Some q) | None \<Rightarrow> 0)"

definition success :: "restSpec \<Rightarrow> int \<Rightarrow> int \<Rightarrow> object \<Rightarrow> Row list \<Rightarrow> Result" where
  "success sp status retryMS data rows =
     (let empty = (case sp_isEmpty sp of Some f \<Rightarrow> f data rows | None \<Rightarrow> rows = []) in
      zero_result\<lparr>r_OK := True, r_Kind := (if empty then KindEmpty else KindOK), r_Rows := (if empty then [] else rows),
        r_Provider := sp_code sp, r_HTTPStatus := status, r_RetryAfterMS := retryMS,
        r_QuotaRemaining := quota_counter data ''quota_remaining'', r_QuotaMax := quota_counter data ''quota_max'',
        r_HasQuota := (as_float (obj_get data ''quota_remaining'') \<noteq> None)\<rparr>)"

text \<open>What an answer is taken for; a panic of the row extraction leaves no result.\<close>

definition classify :: "driver_env \<Rightarrow> restSpec \<Rightarrow> params \<Rightarrow> time \<Rightarrow> http_response \<Rightarrow> Result option" where
  "classify env sp ps now resp =
     (let body = fst (ReadBody resp) in
      case throttle sp resp body of Inl r \<Rightarrow> Some r
      | Inr retryMS \<Rightarrow>
          if \<not> IsJSONStatus (resp_Code resp) then Some (http_failure env sp ps now resp body)
          else (case parseJSONObject body of
                  None \<Rightarrow> Some (zero_result\<lparr>r_Kind := KindJSON, r_Provider := sp_code sp, r_HTTPStatus := resp_Code resp,
                            r_Error := client_error env sp resp ''body is not a json object'' body\<rparr>)
                | Some data \<Rightarrow> map_option (success sp (resp_Code resp) retryMS data) (extractRows sp data ps)))"

definition Search :: "restSpec \<Rightarrow> driver_env \<Rightarrow> Query \<Rightarrow> credentials \<Rightarrow> params \<Rightarrow> world \<Rightarrow> Result option \<times> world" where
  "Search sp env q c ps w =
     (case buildRequest sp env q c ps w of
        (Inl e, w1) \<Rightarrow> (Some (fail KindAPI True (sp_code sp) (sp_code sp @ '': build request: '' @ e)), w1)
      | (Inr req, w1) \<Rightarrow>
          (case WaitLimit env (sp_code sp) (maxRPSParam ps (sp_maxRPS sp)) w1 of
             Some err \<Rightarrow> (Some (zero_result\<lparr>r_Kind := ClassifyTransport (Some err), r_Provider := sp_code sp,
                            r_Error := sp_code sp @ '': rate limiter wait: '' @ err_Message err\<rparr>), w1)
           | None \<Rightarrow>
               (case Do env req w1 of
                  (Transport_Error err, w2) \<Rightarrow>
                    (Some (zero_result\<lparr>r_Kind := ClassifyTransport (Some err), r_Provider := sp_code sp,
                       r_Error := sp_code sp @ '': '' @ client_redact (de_client env) (err_Message err)\<rparr>), w2)
                | (Broken_Body resp err, w2) \<Rightarrow>
                    (Some (zero_result\<lparr>r_Kind := KindRead, r_Provider := sp_code sp, r_HTTPStatus := resp_Code resp,
                       r_Error := sp_code sp @ '': body read failed: '' @ client_redact (de_client env) (err_Message err)\<rparr>), w2)
                | (Answer resp, w2) \<Rightarrow> (classify env sp ps (de_now env (w_sent w2)) resp, w2))))"

end
