(* ===== verification/Rest_Extract.thy ===== *)
theory Rest_Extract
  imports Rest_Driver
begin

text \<open>
  The closures of the REST catalog (\<open>restSpecs\<close> of \<open>internal/providers/rest.go\<close>): how the rows of a
  provider are read from its answer, and the requests of the providers that do not use the default
  builder. A closure that ranges over the parameters follows the order of the list.
\<close>

subsection \<open>Reading\<close>

text \<open>The objects of an array; anything else has none.\<close>

definition objects_in :: "json \<Rightarrow> object list" where
  "objects_in v = (case v of JArr xs \<Rightarrow> List.map_filter as_object xs | _ \<Rightarrow> [])"

definition members_of :: "json \<Rightarrow> object" where
  "members_of v = (case v of JObj m \<Rightarrow> m | _ \<Rightarrow> [])"

definition first_text :: "json \<Rightarrow> string" where
  "first_text v = (case v of JArr (x # _) \<Rightarrow> asString x | _ \<Rightarrow> [])"

text \<open>\<open>or_else s t\<close>: the fallback of an empty text.\<close>

definition or_else :: "string \<Rightarrow> string \<Rightarrow> string" where
  "or_else s t = (if s = [] then t else s)"

definition row_unless_blank :: "string \<Rightarrow> string \<Rightarrow> string \<Rightarrow> Row option" where
  "row_unless_blank link title snippet = (if link = [] then None else Some (mk_row link title snippet))"

definition serpapi_extract :: "object \<Rightarrow> Row list option" where
  "serpapi_extract data =
     Some (if asString (obj_get (members_of (obj_get data ''search_metadata'')) ''status'') = ''Error'' then []
       else collectRows (obj_get data ''organic_results'') [''link'', ''url''] ''title'' [''snippet''])"

definition searchapi_extract :: "object \<Rightarrow> Row list option" where
  "searchapi_extract data =
     (let status = asString (obj_get (members_of (obj_get data ''search_metadata'')) ''status'') in
      Some (if status \<noteq> ''Success'' \<and> status \<noteq> [] then []
        else collectRows (obj_get data ''organic_results'') [''link'', ''url''] ''title'' [''snippet'']))"

definition dataforseo_items :: "object \<Rightarrow> object list" where
  "dataforseo_items data =
     concat (map (\<lambda>task. concat (map (\<lambda>res. objects_in (obj_get res ''items'')) (objects_in (obj_get task ''result''))))
       (objects_in (obj_get data ''tasks'')))"

definition dataforseo_extract :: "object \<Rightarrow> Row list option" where
  "dataforseo_extract data =
     Some (List.map_filter (\<lambda>im. toRow im [''url''] ''title'' [''description'', ''extended_snippet''])
       (filter (\<lambda>im. asString (obj_get im ''type'') = ''organic'') (dataforseo_items data)))"

text \<open>The result of You.com is asserted to be an object: any other value panics.\<close>

definition youcom_row :: "object \<Rightarrow> Row option" where
  "youcom_row im =
     (let snippet = or_else (firstString im [''description'']) (first_text (obj_get im ''snippets'')) in
      toRow [(''url'', JStr (firstString im [''url''])), (''title'', JStr (firstString im [''title''])), (''snippet'', JStr snippet)]
        [''url''] ''title'' [''snippet''])"

definition youcom_extract :: "object \<Rightarrow> Row list option" where
  "youcom_extract data =
     (case obj_get data ''results'' of
        JObj m \<Rightarrow> Some (List.map_filter youcom_row (objects_in (obj_get m ''web'') @ objects_in (obj_get m ''news'')))
      | _ \<Rightarrow> None)"

definition firecrawl_extract :: "object \<Rightarrow> Row list option" where
  "firecrawl_extract data =
     Some (collectRows (obj_get (members_of (obj_get data ''data'')) ''web'') [''url''] ''title'' [''description'', ''markdown''])"

definition mojeek_extract :: "object \<Rightarrow> Row list option" where
  "mojeek_extract data =
     Some (if HasPrefix (asString (obj_get (members_of (obj_get data ''response'')) ''status'')) ''ERROR'' then []
       else collectRows (JArr (getArrayAtPath (JObj data) [''response'', ''results''])) [''url''] ''title'' [''desc''])"

definition exa_row :: "object \<Rightarrow> Row option" where
  "exa_row rm =
     (let snippet = or_else (first_text (obj_get rm ''highlights''))
            (or_else (firstString rm [''summary'']) (truncateString (firstString rm [''text'']) 400)) in
      row_unless_blank (firstString rm [''url'']) (firstString rm [''title'']) snippet)"

definition exa_extract :: "object \<Rightarrow> Row list option" where
  "exa_extract data = Some (List.map_filter exa_row (objects_in (obj_get data ''results'')))"

definition parallel_row :: "object \<Rightarrow> Row option" where
  "parallel_row rm =
     (let snippet = (case obj_get rm ''excerpts'' of
            JArr ex \<Rightarrow> truncateString (Join (map asString ex) ('' '' @ ellipsis @ '' '')) 400 | _ \<Rightarrow> []) in
      row_unless_blank (firstString rm [''url'']) (firstString rm [''title'']) snippet)"

definition parallel_extract :: "object \<Rightarrow> Row list option" where
  "parallel_extract data = Some (List.map_filter parallel_row (objects_in (obj_get data ''results'')))"

definition kagi_extract :: "object \<Rightarrow> Row list option" where
  "kagi_extract data =
     Some (case obj_get data ''data'' of
        JObj d \<Rightarrow> collectRows (obj_get d ''references'') [''url''] ''title'' [''snippet'']
      | v \<Rightarrow> collectRows v [''url''] ''title'' [''snippet''])"

text \<open>A DOI becomes a link of its resolver.\<close>

definition doi_link :: "string \<Rightarrow> string" where
  "doi_link doi = (if doi \<noteq> [] \<and> \<not> HasPrefix doi ''http'' then ''https://doi.org/'' @ doi else doi)"

definition openalex_link :: "object \<Rightarrow> string" where
  "openalex_link rm =
     or_else (doi_link (firstString rm [''doi'']))
       (or_else (firstString (members_of (obj_get rm ''primary_location'')) [''landing_page_url''])
          (asString (obj_get rm ''id'')))"

definition openalex_row :: "object \<Rightarrow> Row option option" where
  "openalex_row rm =
     (if openalex_link rm = [] then Some None
      else map_option (\<lambda>abstract.
             Some (mk_row (openalex_link rm) (or_else (firstString rm [''title'']) (firstString rm [''display_name''])) abstract))
           (openAlexAbstract rm))"

fun rows_or_panic :: "Row option option list \<Rightarrow> Row list option" where
  "rows_or_panic [] = Some []"
| "rows_or_panic (r # rs) =
     (case r of None \<Rightarrow> None
      | Some x \<Rightarrow> map_option (\<lambda>ys. (case x of None \<Rightarrow> ys | Some y \<Rightarrow> y # ys)) (rows_or_panic rs))"

definition openalex_extract :: "object \<Rightarrow> Row list option" where
  "openalex_extract data = rows_or_panic (map openalex_row (objects_in (obj_get data ''results'')))"

definition semanticscholar_row :: "object \<Rightarrow> Row option" where
  "semanticscholar_row rm =
     (let link = or_else (firstString rm [''url''])
            (doi_link (asString (obj_get (members_of (obj_get rm ''externalIds'')) ''DOI'')));
          snippet = or_else (firstString rm [''abstract'']) (firstString (members_of (obj_get rm ''tldr'')) [''text'']) in
      row_unless_blank link (firstString rm [''title'']) snippet)"

definition semanticscholar_extract :: "object \<Rightarrow> Row list option" where
  "semanticscholar_extract data = Some (List.map_filter semanticscholar_row (objects_in (obj_get data ''data'')))"

definition crossref_year :: "object \<Rightarrow> string" where
  "crossref_year im =
     (case obj_get (members_of (obj_get im ''published'')) ''date-parts'' of
        JArr (part # _) \<Rightarrow> first_text part | _ \<Rightarrow> [])"

definition crossref_row :: "object \<Rightarrow> Row option" where
  "crossref_row im =
     (let doi = asString (obj_get im ''DOI'');
          link = or_else (asString (obj_get im ''URL'')) (if doi \<noteq> [] then ''https://doi.org/'' @ doi else []);
          ct = first_text (obj_get im ''container-title''); year = crossref_year im;
          snippet = or_else (firstString im [''abstract''])
            (if ct \<noteq> [] \<or> year \<noteq> [] then TrimSpace (ct @ '' '' @ year) else []) in
      row_unless_blank link (first_text (obj_get im ''title'')) snippet)"

definition crossref_extract :: "object \<Rightarrow> Row list option" where
  "crossref_extract data =
     Some (List.map_filter crossref_row (objects_in (JArr (getArrayAtPath (JObj data) [''message'', ''items'']))))"

text \<open>A code match is named by its repository and path.\<close>

definition github_repo_title :: "object \<Rightarrow> string" where
  "github_repo_title im =
     (let full = firstString (members_of (obj_get im ''repository'')) [''full_name'']; path = firstString im [''path''] in
      if full = [] then [] else if path \<noteq> [] then full @ ''/'' @ path else full)"

definition github_row :: "object \<Rightarrow> Row option" where
  "github_row im =
     (let title = or_else (firstString im [''full_name'']) (or_else (github_repo_title im)
            (or_else (firstString im [''name'']) (firstString im [''title''])));
          snippet = or_else (firstString im [''description'']) (or_else (firstString im [''body'']) (githubTextMatch im)) in
      row_unless_blank (firstString im [''html_url'']) title snippet)"

definition github_extract :: "object \<Rightarrow> Row list option" where
  "github_extract data = Some (List.map_filter github_row (objects_in (obj_get data ''items'')))"

definition hn_row :: "object \<Rightarrow> Row option" where
  "hn_row hm =
     (let link = or_else (asString (obj_get hm ''url''))
            (''https://news.ycombinator.com/item?id='' @ asString (obj_get hm ''objectID'')) in
      row_unless_blank link (or_else (firstString hm [''title'']) (firstString hm [''story_title'']))
        (or_else (firstString hm [''story_text'']) (firstString hm [''comment_text''])))"

definition hn_extract :: "object \<Rightarrow> Row list option" where
  "hn_extract data = Some (List.map_filter hn_row (objects_in (obj_get data ''hits'')))"

definition stackexchange_row :: "object \<Rightarrow> Row option" where
  "stackexchange_row im =
     (let link = or_else (firstString im [''link'']) (''https://stackoverflow.com/q/'' @ asString (obj_get im ''question_id'')) in
      row_unless_blank link (firstString im [''title'']) (truncateString (stripHTML (firstString im [''body''])) 400))"

definition stackexchange_extract :: "object \<Rightarrow> Row list option" where
  "stackexchange_extract data = Some (List.map_filter stackexchange_row (objects_in (obj_get data ''items'')))"

definition azureTitleField :: "params \<Rightarrow> string" where
  "azureTitleField p = defaultStr (param p ''title_field'') ''title''"
definition azureURLField :: "params \<Rightarrow> string" where
  "azureURLField p = defaultStr (param p ''url_field'') ''url''"
definition azureSnippetField :: "params \<Rightarrow> string" where
  "azureSnippetField p = defaultStr (param p ''snippet_field'') ''description''"

definition azure_row :: "params \<Rightarrow> object \<Rightarrow> Row option" where
  "azure_row p vm =
     (let caption = (case obj_get vm ''@search.captions'' of JArr (JObj cm # _) \<Rightarrow> firstString cm [''text''] | _ \<Rightarrow> []);
          snippet = or_else caption (asString (obj_get vm (azureSnippetField p))) in
      row_unless_blank (asString (obj_get vm (azureURLField p))) (asString (obj_get vm (azureTitleField p)))
        (truncateString snippet 400))"

definition azure_search_extractP :: "object \<Rightarrow> params \<Rightarrow> Row list option" where
  "azure_search_extractP data p = Some (List.map_filter (azure_row p) (objects_in (obj_get data ''value'')))"

definition vectara_row :: "object \<Rightarrow> Row option" where
  "vectara_row rm =
     (let meta = members_of (obj_get rm ''document_metadata'') in
      row_unless_blank (firstString meta [''url'', ''source'']) (firstString meta [''title''])
        (truncateString (firstString rm [''text'']) 400))"

definition vectara_extract :: "object \<Rightarrow> Row list option" where
  "vectara_extract data = Some (List.map_filter vectara_row (objects_in (obj_get data ''search_results'')))"

definition kendra_extract :: "object \<Rightarrow> Row list option" where
  "kendra_extract data = Some []"

subsection \<open>Building\<close>

definition pure_build :: "(Query \<Rightarrow> credentials \<Rightarrow> params \<Rightarrow> string + out_request) \<Rightarrow> builder" where
  "pure_build f = (\<lambda>env q c p w. (f q c p, w))"

abbreviation json_headers :: "(string \<times> string) list" where
  "json_headers \<equiv> [(''Content-Type'', ''application/json''), (''Accept'', ''application/json'')]"

definition post_json :: "string \<Rightarrow> json \<Rightarrow> (string \<times> string) list \<Rightarrow> string + out_request" where
  "post_json target body hs =
     (case NewRequest ''POST'' target (Some (marshal body)) of Inl e \<Rightarrow> Inl e | Inr r \<Rightarrow> Inr (set_headers hs r))"

definition get_values ::
    "string \<Rightarrow> (query_values \<Rightarrow> query_values) \<Rightarrow> (string \<times> string) list \<Rightarrow> string + out_request" where
  "get_values target f hs =
     (case Parse target of Inl e \<Rightarrow> Inl e
      | Inr endpoint \<Rightarrow>
          (case NewRequest ''GET'' (URL_String (endpoint\<lparr>url_RawQuery := Values_Encode (f (ParseQuery (url_RawQuery endpoint)))\<rparr>)) None of
             Inl e \<Rightarrow> Inl e | Inr r \<Rightarrow> Inr (set_headers hs r)))"

text \<open>A header with the API key, left out when the key is blank.\<close>

definition key_header :: "credentials \<Rightarrow> string \<Rightarrow> string \<Rightarrow> (string \<times> string) list" where
  "key_header c name prefix' =
     (let v = TrimSpace (cred c ''api_key'') in if v \<noteq> [] then [(name, prefix' @ v)] else [])"

definition count_member :: "Query \<Rightarrow> string \<Rightarrow> int \<Rightarrow> object" where
  "count_member q key n = (if q_Count q > 0 then [(key, JNum (Itoa n))] else [])"

definition count_value :: "Query \<Rightarrow> string \<Rightarrow> int \<Rightarrow> (string \<times> string) list" where
  "count_value q key n = (if q_Count q > 0 then [(key, Itoa n)] else [])"

definition optional_member :: "string \<Rightarrow> string \<Rightarrow> object" where
  "optional_member key v = (if v \<noteq> [] then [(key, JStr v)] else [])"

definition dataforseo_task :: "Query \<Rightarrow> params \<Rightarrow> object" where
  "dataforseo_task q p =
     [(''keyword'', JStr (q_Text q))] @ count_member q ''depth'' (capped 200 (q_Count q))
     @ optional_member ''language_code'' (q_Lang q) @ optional_member ''location_code'' (param p ''location_code'')
     @ optional_member ''device'' (param p ''device'') @ optional_member ''os'' (param p ''os'')"

definition dataforseo_build :: builder where
  "dataforseo_build = pure_build (\<lambda>q c p.
     case post_json (base_of p ''https://api.dataforseo.com'' @ ''/v3/serp/google/organic/live/advanced'')
            (JArr [JObj (dataforseo_task q p)]) json_headers of
       Inl e \<Rightarrow> Inl e
     | Inr r \<Rightarrow> Inr (set_basic_auth (cred c ''login'') (cred c ''password'') r))"

definition jina_build :: builder where
  "jina_build = pure_build (\<lambda>q c p.
     let site = param p ''site'';
         target = base_of p ''https://s.jina.ai'' @ ''/'' @ PathEscape (q_Text q)
           @ (if site \<noteq> [] then ''?site='' @ QueryEscape site else []) in
     case NewRequest ''GET'' target None of
       Inl e \<Rightarrow> Inl e
     | Inr r \<Rightarrow> Inr (set_headers ([(''Accept'', ''application/json''), (''X-Respond-With'', ''no-content'')]
                 @ key_header c ''Authorization'' ''Bearer '') r))"

definition linkup_build :: builder where
  "linkup_build = pure_build (\<lambda>q c p.
     post_json (base_of p ''https://api.linkup.so'' @ ''/v1/search'')
       (JObj (body_of (sent_params [''outputType''] p)
          ([(''q'', JStr (q_Text q)), (''outputType'', JStr ''searchResults'')] @ count_member q ''maxResults'' (q_Count q))))
       (json_headers @ key_header c ''Authorization'' ''Bearer ''))"

definition perplexity_build :: builder where
  "perplexity_build = pure_build (\<lambda>q c p.
     post_json (base_of p ''https://api.perplexity.ai'' @ ''/search'')
       (JObj (body_of (sent_params [] p) ([(''query'', JStr (q_Text q))] @ count_member q ''max_results'' (q_Count q))))
       (json_headers @ key_header c ''Authorization'' ''Bearer ''))"

definition parallel_build :: builder where
  "parallel_build = pure_build (\<lambda>q c p.
     post_json (base_of p ''https://api.parallel.ai'' @ ''/v1/search'')
       (JObj (body_of (sent_params [''search_queries''] p)
          [(''objective'', JStr (q_Text q)), (''search_queries'', JArr [JStr (q_Text q)]), (''mode'', JStr ''advanced'')]))
       (json_headers @ key_header c ''x-api-key'' []))"

definition ollama_build :: builder where
  "ollama_build = pure_build (\<lambda>q c p.
     post_json (base_of p ''https://ollama.com'' @ ''/api/web_search'')
       (JObj ([(''query'', JStr (q_Text q))] @ count_member q ''max_results'' (capped 10 (q_Count q))))
       (json_headers @ key_header c ''Authorization'' ''Bearer ''))"

definition kagi_build :: builder where
  "kagi_build = pure_build (\<lambda>q c p.
     let base = base_of p ''https://kagi.com'' in
     if defaultStr (param p ''mode'') ''fastgpt'' = ''search''
     then get_values (base @ ''/api/v1/search'')
            (set_all ([(''q'', q_Text q)] @ count_value q ''limit'' (q_Count q) @ sent_params [''mode''] p))
            ([(''Accept'', ''application/json'')] @ key_header c ''Authorization'' ''Bot '')
     else post_json (base @ ''/api/v0/fastgpt'') (JObj [(''query'', JStr (q_Text q))])
            (json_headers @ key_header c ''Authorization'' ''Bot ''))"

definition semanticscholar_build :: builder where
  "semanticscholar_build = pure_build (\<lambda>q c p.
     get_values (base_of p ''https://api.semanticscholar.org'' @ ''/graph/v1/paper/search'')
       (set_all ([(''query'', q_Text q), (''fields'', defaultStr (param p ''fields'') ''title,abstract,url,year,citationCount,tldr'')]
          @ count_value q ''limit'' (capped 100 (q_Count q)) @ sent_params [''fields''] p))
       ([(''Accept'', ''application/json'')] @ key_header c ''x-api-key'' []))"

definition github_build :: builder where
  "github_build = pure_build (\<lambda>q c p.
     let searchType = defaultStr (param p ''search_type'') ''repositories'' in
     get_values (base_of p ''https://api.github.com'' @ ''/search/'' @ PathEscape searchType)
       (set_all ([(''q'', q_Text q)] @ count_value q ''per_page'' (capped 100 (q_Count q)) @ sent_params [''search_type''] p))
       ([(''Accept'', ''application/vnd.github+json'')]
        @ (if searchType = ''code'' then [(''Accept'', ''application/vnd.github.text-match+json'')] else [])
        @ [(''X-GitHub-Api-Version'', ''2022-11-28'')] @ key_header c ''Authorization'' ''Bearer ''))"

text \<open>The request carries no credential.\<close>

definition stackexchange_build :: builder where
  "stackexchange_build = pure_build (\<lambda>q c p.
     get_values (base_of p ''https://api.stackexchange.com'' @ ''/2.3/search/advanced'')
       (set_all ([(''q'', q_Text q), (''site'', defaultStr (param p ''site'') ''stackoverflow''), (''filter'', ''withbody'')]
          @ count_value q ''pagesize'' (capped 100 (q_Count q)) @ sent_params [''site''] p))
       [(''Accept'', ''application/json'')])"

definition azure_own_params :: "string list" where
  "azure_own_params =
     [''service_name'', ''index_name'', ''service'', ''index'', ''api_version'', ''query_type'', ''semanticConfiguration'',
      ''select'', ''auth_mode'', ''title_field'', ''url_field'', ''snippet_field'']"

definition azure_body :: "Query \<Rightarrow> params \<Rightarrow> object" where
  "azure_body q p =
     (let select = param p ''select'' in
      body_of (sent_params azure_own_params p)
        ([(''search'', JStr (q_Text q)), (''queryType'', JStr (defaultStr (param p ''query_type'') ''simple''))]
         @ count_member q ''top'' (q_Count q)
         @ [(''select'', JStr (if select \<noteq> [] then select
              else Join [azureTitleField p, azureURLField p, azureSnippetField p] '',''))]))"

definition azure_target :: "string \<Rightarrow> string \<Rightarrow> params \<Rightarrow> string" where
  "azure_target service index p =
     base_of p (''https://'' @ service @ ''.search.windows.net'') @ ''/indexes/'' @ PathEscape index
     @ ''/docs/search?api-version='' @ QueryEscape (defaultStr (param p ''api_version'') ''2024-07-01'')"

definition azure_search_build :: builder where
  "azure_search_build env q c p w =
     (let service = defaultStr (param p ''service_name'') (param p ''service'');
          index = defaultStr (param p ''index_name'') (param p ''index'') in
      if service = [] \<or> index = [] then (Inl ''service_name and index_name are required'', w)
      else (case post_json (azure_target service index p) (JObj (azure_body q p)) json_headers of
              Inl e \<Rightarrow> (Inl e, w)
            | Inr req \<Rightarrow>
                if ToLower (defaultStr (param p ''auth_mode'') ''api_key'') \<in> set [''aad'', ''entra'', ''oauth2'']
                then (case entraToken env c w of
                        (Inl e, w1) \<Rightarrow> (Inl (''entra token: '' @ e), w1)
                      | (Inr tok, w1) \<Rightarrow> (Inr (put_header ''Authorization'' (''Bearer '' @ tok) req), w1))
                else (Inr (set_headers (key_header c ''api-key'' []) req), w)))"

definition vectara_build :: builder where
  "vectara_build = pure_build (\<lambda>q c p.
     let corpus = defaultStr (param p ''corpus_key'') [] in
     if corpus = [] then Inl ''corpus_key is required''
     else post_json (base_of p ''https://api.vectara.io'' @ ''/v2/corpora/'' @ PathEscape corpus @ ''/query'')
       (JObj [(''query'', JStr (q_Text q)),
          (''search'', JObj (count_member q ''limit'' (q_Count q)
             @ optional_member ''metadata_filter'' (TrimSpace (param p ''metadata_filter'')))),
          (''stream_response'', JBool False)])
       (json_headers @ key_header c ''x-api-key'' []))"

definition kendra_build :: builder where
  "kendra_build = pure_build (\<lambda>q c p. Inl ''amazon Kendra requires AWS SigV4 signing and is not yet implemented'')"

end
