(* ===== verification/Rest_Catalog.thy ===== *)
theory Rest_Catalog
  imports Rest_Extract
begin

text \<open>
  The catalog of the REST providers (\<open>restSpecs\<close> and \<open>newRestRegistry\<close> of
  \<open>internal/providers/rest.go\<close>): one specification per provider, with the closures of
  \<open>Rest_Extract\<close>, and the drivers registered from it.
\<close>

definition blank_auth :: restAuth where
  "blank_auth = \<lparr>ra_kind = [], ra_header = [], ra_queryKey = [], ra_credKey = [], ra_loginKey = [], ra_passwordKey = []\<rparr>"

definition blank_schema :: ProviderSchema where
  "blank_schema = \<lparr>sch_Code = [], sch_Name = [], sch_Deprecated = False, sch_DefaultBaseURL = [], sch_Credentials = [],
     sch_Params = [], sch_Hints = []\<rparr>"

text \<open>The zero value of a specification: the fields a literal leaves out.\<close>

definition blank_spec :: restSpec where
  "blank_spec =
     \<lparr>sp_code = [], sp_name = [], sp_baseURL = [], sp_schema = blank_schema, sp_method = [], sp_path = [],
      sp_auth = blank_auth, sp_headers = [], sp_body = False, sp_queryKey = [], sp_countField = [], sp_countCap = 0,
      sp_langField = [], sp_countryField = [], sp_resultPath = [], sp_linkKeys = [], sp_titleKey = [],
      sp_snippetKeys = [], sp_mergePaths = [], sp_build = None, sp_extract = None, sp_extractP = None,
      sp_isEmpty = None, sp_fatalHTTP = [], sp_retryHTTP = [], sp_maxRPS = Finite 0, sp_throttleKey = [],
      sp_pathParam = [], sp_pathMap = []\<rparr>"

subsection \<open>The specifications\<close>

definition spec_brave :: restSpec where
  "spec_brave = blank_spec\<lparr>
     sp_code := ''brave'',
     sp_name := ''Brave Search'',
     sp_baseURL := ''https://api.search.brave.com'',
     sp_method := ''GET'',
     sp_path := ''/res/v1/web/search'',
     sp_auth := \<lparr>ra_kind = ''header'', ra_header = ''X-Subscription-Token'', ra_queryKey = [], ra_credKey = ''api_key'', ra_loginKey = [], ra_passwordKey = []\<rparr>,
     sp_queryKey := ''q'',
     sp_countField := ''count'',
     sp_langField := ''search_lang'',
     sp_countryField := ''country'',
     sp_titleKey := ''title'',
     sp_countCap := 20,
     sp_resultPath := [''web'', ''results''],
     sp_linkKeys := [''url''],
     sp_snippetKeys := [''description''],
     sp_fatalHTTP := commonFatal,
     sp_retryHTTP := commonRetry,
     sp_schema := \<lparr>sch_Code = ''brave'', sch_Name = ''Brave Search'', sch_Deprecated = False, sch_DefaultBaseURL = [],
       sch_Credentials = (credentialFields [''api_key'']),
       sch_Params = [textParam ''country'' ''Country'' ''us'' ''ISO country code'',
         textParam ''search_lang'' ''Search language'' ''en'' ''ISO language code'',
         selectParam ''safesearch'' ''Safe search'' ''off'' [(''Off'', ''off''), (''Strict'', ''strict'')],
         selectParam ''freshness'' ''Freshness'' [] [(''Any'', []), (''Past day'', ''pd''), (''Past week'', ''pw''), (''Past month'', ''pm''), (''Past year'', ''py'')],
         textParam ''offset'' ''Offset'' [] ''Pagination offset (0-9)'',
         textParam ''result_filter'' ''Result filter'' [] ''discussions,faq,infobox,news,query,videos,web'',
         textParam ''goggles'' ''Goggles'' [] ''Goggle URL or inline definition'',
         textParam ''ui_lang'' ''UI language'' [] ''e.g. en-US'',
         selectParam ''units'' ''Units'' [] [(''Default'', []), (''Metric'', ''metric''), (''Imperial'', ''imperial'')]],
       sch_Hints = []\<rparr>\<rparr>"

definition spec_serper :: restSpec where
  "spec_serper = blank_spec\<lparr>
     sp_code := ''serper'',
     sp_name := ''Serper'',
     sp_baseURL := ''https://google.serper.dev'',
     sp_method := ''POST'',
     sp_path := ''/search'',
     sp_auth := \<lparr>ra_kind = ''header'', ra_header = ''X-API-KEY'', ra_queryKey = [], ra_credKey = ''api_key'', ra_loginKey = [], ra_passwordKey = []\<rparr>,
     sp_body := True,
     sp_queryKey := ''q'',
     sp_countField := ''num'',
     sp_langField := ''hl'',
     sp_countryField := ''gl'',
     sp_titleKey := ''title'',
     sp_resultPath := [''organic''],
     sp_linkKeys := [''link'', ''url''],
     sp_snippetKeys := [''snippet''],
     sp_fatalHTTP := commonFatal,
     sp_retryHTTP := commonRetry,
     sp_schema := \<lparr>sch_Code = ''serper'', sch_Name = ''Serper'', sch_Deprecated = False, sch_DefaultBaseURL = [],
       sch_Credentials = (credentialFields [''api_key'']),
       sch_Params = [textParam ''gl'' ''Country'' ''us'' ''Country code (gl)'',
         textParam ''hl'' ''Language'' ''en'' ''Language code (hl)'',
         textParam ''location'' ''Location'' [] ''Optional location'',
         textParam ''page'' ''Page'' ''1'' ''Page number''],
       sch_Hints = []\<rparr>\<rparr>"

definition spec_serpapi :: restSpec where
  "spec_serpapi = blank_spec\<lparr>
     sp_code := ''serpapi'',
     sp_name := ''SerpApi'',
     sp_baseURL := ''https://serpapi.com'',
     sp_method := ''GET'',
     sp_path := ''/search'',
     sp_auth := \<lparr>ra_kind = ''query'', ra_header = [], ra_queryKey = ''api_key'', ra_credKey = ''api_key'', ra_loginKey = [], ra_passwordKey = []\<rparr>,
     sp_queryKey := ''q'',
     sp_countField := ''num'',
     sp_langField := ''hl'',
     sp_countryField := ''gl'',
     sp_titleKey := ''title'',
     sp_resultPath := [''organic_results''],
     sp_linkKeys := [''link'', ''url''],
     sp_snippetKeys := [''snippet''],
     sp_fatalHTTP := commonFatal,
     sp_retryHTTP := commonRetry,
     sp_extract := Some serpapi_extract,
     sp_isEmpty := Some (\<lambda>data rows. rows = []),
     sp_schema := \<lparr>sch_Code = ''serpapi'', sch_Name = ''SerpApi'', sch_Deprecated = False, sch_DefaultBaseURL = [],
       sch_Credentials = (credentialFields [''api_key'']),
       sch_Params = [selectParam ''engine'' ''Engine'' ''google'' [(''Google'', ''google''), (''Bing'', ''bing''), (''Yandex'', ''yandex''), (''Yahoo'', ''yahoo''), (''Baidu'', ''baidu''), (''Naver'', ''naver''), (''eBay'', ''ebay''), (''Walmart'', ''walmart''), (''YouTube'', ''youtube'')],
         textParam ''gl'' ''Country'' ''us'' ''Country code'',
         textParam ''hl'' ''Language'' ''en'' ''Language code'',
         textParam ''location'' ''Location'' [] ''Optional location/uule'',
         textParam ''device'' ''Device'' [] ''desktop | mobile | tablet''],
       sch_Hints = [''multi-engine provider: use the engine parameter to switch targets.'']\<rparr>\<rparr>"

definition spec_searchapi :: restSpec where
  "spec_searchapi = blank_spec\<lparr>
     sp_code := ''searchapi'',
     sp_name := ''SearchApi.io'',
     sp_baseURL := ''https://www.searchapi.io'',
     sp_method := ''GET'',
     sp_path := ''/api/v1/search'',
     sp_auth := \<lparr>ra_kind = ''query'', ra_header = [], ra_queryKey = ''api_key'', ra_credKey = ''api_key'', ra_loginKey = [], ra_passwordKey = []\<rparr>,
     sp_queryKey := ''q'',
     sp_countField := ''num'',
     sp_langField := ''hl'',
     sp_countryField := ''gl'',
     sp_titleKey := ''title'',
     sp_resultPath := [''organic_results''],
     sp_linkKeys := [''link'', ''url''],
     sp_snippetKeys := [''snippet''],
     sp_fatalHTTP := commonFatal,
     sp_retryHTTP := commonRetry,
     sp_extract := Some searchapi_extract,
     sp_schema := \<lparr>sch_Code = ''searchapi'', sch_Name = ''SearchApi.io'', sch_Deprecated = False, sch_DefaultBaseURL = [],
       sch_Credentials = (credentialFields [''api_key'']),
       sch_Params = [selectParam ''engine'' ''Engine'' ''google'' [(''Google'', ''google''), (''Bing'', ''bing''), (''Yandex'', ''yandex''), (''Yahoo'', ''yahoo''), (''DuckDuckGo'', ''duckduckgo'')],
         textParam ''gl'' ''Country'' ''us'' [],
         textParam ''hl'' ''Language'' ''en'' [],
         textParam ''page'' ''Page'' ''1'' [],
         textParam ''link'' ''Link resolution'' [] ''resolved to unwrap Google redirects''],
       sch_Hints = [''Google returns 10 results per page; use page for pagination.'']\<rparr>\<rparr>"

definition spec_dataforseo :: restSpec where
  "spec_dataforseo = blank_spec\<lparr>
     sp_code := ''dataforseo'',
     sp_name := ''DataForSEO'',
     sp_baseURL := ''https://api.dataforseo.com'',
     sp_method := ''POST'',
     sp_path := ''/v3/serp/google/organic/live/advanced'',
     sp_auth := \<lparr>ra_kind = ''basic'', ra_header = [], ra_queryKey = [], ra_credKey = [], ra_loginKey = ''login'', ra_passwordKey = ''password''\<rparr>,
     sp_body := True,
     sp_queryKey := ''keyword'',
     sp_countField := ''depth'',
     sp_langField := ''language_code'',
     sp_titleKey := ''title'',
     sp_countCap := 200,
     sp_linkKeys := [''url''],
     sp_snippetKeys := [''description'', ''extended_snippet''],
     sp_fatalHTTP := commonFatal,
     sp_retryHTTP := commonRetry,
     sp_build := Some dataforseo_build,
     sp_extract := Some dataforseo_extract,
     sp_isEmpty := Some (\<lambda>data rows. rows = []),
     sp_schema := \<lparr>sch_Code = ''dataforseo'', sch_Name = ''DataForSEO'', sch_Deprecated = False, sch_DefaultBaseURL = [],
       sch_Credentials = (credentialFields [''login'', ''password'']),
       sch_Params = [textParam ''location_code'' ''Location code'' [] ''DataForSEO location code'',
         selectParam ''device'' ''Device'' [] [(''Default'', []), (''Desktop'', ''desktop''), (''Mobile'', ''mobile'')],
         selectParam ''os'' ''OS'' [] [(''Default'', []), (''Windows'', ''windows''), (''macOS'', ''macos''), (''Android'', ''android''), (''iOS'', ''ios'')]],
       sch_Hints = [''Uses HTTP Basic auth.'',
         ''Live endpoint can be slow; set a generous node timeout.'',
         ''Live SERP depth is capped at 200 by DataForSEO (higher values are rejected).'']\<rparr>\<rparr>"

definition spec_youcom :: restSpec where
  "spec_youcom = blank_spec\<lparr>
     sp_code := ''youcom'',
     sp_name := ''You.com'',
     sp_baseURL := ''https://ydc-index.io'',
     sp_method := ''POST'',
     sp_path := ''/v1/search'',
     sp_auth := \<lparr>ra_kind = ''header'', ra_header = ''X-API-Key'', ra_queryKey = [], ra_credKey = ''api_key'', ra_loginKey = [], ra_passwordKey = []\<rparr>,
     sp_body := True,
     sp_queryKey := ''query'',
     sp_countField := ''count'',
     sp_langField := ''language'',
     sp_countryField := ''country'',
     sp_titleKey := ''title'',
     sp_linkKeys := [''url''],
     sp_snippetKeys := [''description''],
     sp_fatalHTTP := commonFatal,
     sp_retryHTTP := commonRetry,
     sp_extract := Some youcom_extract,
     sp_schema := \<lparr>sch_Code = ''youcom'', sch_Name = ''You.com'', sch_Deprecated = False, sch_DefaultBaseURL = [],
       sch_Credentials = (credentialFields [''api_key'']),
       sch_Params = [textParam ''country'' ''Country'' ''us'' [],
         textParam ''language'' ''Language'' [] [],
         textParam ''freshness'' ''Freshness'' [] [],
         textParam ''offset'' ''Offset'' [] []],
       sch_Hints = []\<rparr>\<rparr>"

definition spec_jina :: restSpec where
  "spec_jina = blank_spec\<lparr>
     sp_code := ''jina'',
     sp_name := ''Jina AI Search'',
     sp_baseURL := ''https://s.jina.ai'',
     sp_method := ''GET'',
     sp_path := ''/'',
     sp_auth := \<lparr>ra_kind = ''bearer'', ra_header = [], ra_queryKey = [], ra_credKey = ''api_key'', ra_loginKey = [], ra_passwordKey = []\<rparr>,
     sp_headers := [(''Accept'', ''application/json''), (''X-Respond-With'', ''no-content'')],
     sp_titleKey := ''title'',
     sp_resultPath := [''data''],
     sp_linkKeys := [''url''],
     sp_snippetKeys := [''description'', ''content''],
     sp_fatalHTTP := commonFatal,
     sp_retryHTTP := commonRetry,
     sp_build := Some jina_build,
     sp_schema := \<lparr>sch_Code = ''jina'', sch_Name = ''Jina AI Search'', sch_Deprecated = False, sch_DefaultBaseURL = [],
       sch_Credentials = (credentialFields [''api_key'']),
       sch_Params = [textParam ''site'' ''Site filter'' [] ''Restrict search to a domain''],
       sch_Hints = [''Query is placed in the URL path; set Accept: application/json for structured results.'']\<rparr>\<rparr>"

definition spec_firecrawl :: restSpec where
  "spec_firecrawl = blank_spec\<lparr>
     sp_code := ''firecrawl'',
     sp_name := ''Firecrawl'',
     sp_baseURL := ''https://api.firecrawl.dev'',
     sp_method := ''POST'',
     sp_path := ''/v2/search'',
     sp_auth := \<lparr>ra_kind = ''bearer'', ra_header = [], ra_queryKey = [], ra_credKey = ''api_key'', ra_loginKey = [], ra_passwordKey = []\<rparr>,
     sp_body := True,
     sp_queryKey := ''query'',
     sp_countField := ''limit'',
     sp_countryField := ''country'',
     sp_titleKey := ''title'',
     sp_linkKeys := [''url''],
     sp_snippetKeys := [''description''],
     sp_fatalHTTP := commonFatal,
     sp_retryHTTP := commonRetry,
     sp_extract := Some firecrawl_extract,
     sp_schema := \<lparr>sch_Code = ''firecrawl'', sch_Name = ''Firecrawl'', sch_Deprecated = False, sch_DefaultBaseURL = [],
       sch_Credentials = (credentialFields [''api_key'']),
       sch_Params = [textParam ''sources'' ''Sources'' ''web'' ''Comma-separated: web, news'',
         textParam ''country'' ''Country'' ''us'' [],
         textParam ''includeDomains'' ''Include domains'' [] [],
         textParam ''excludeDomains'' ''Exclude domains'' [] [],
         textParam ''tbs'' ''Time filter'' [] ''Google-style time filter''],
       sch_Hints = [(''Leave sources as '' @ [CHR 0x27] @ ''web'' @ [CHR 0x27] @ '' unless you need news.'')]\<rparr>\<rparr>"

definition spec_mojeek :: restSpec where
  "spec_mojeek = blank_spec\<lparr>
     sp_code := ''mojeek'',
     sp_name := ''Mojeek'',
     sp_baseURL := ''https://www.mojeek.com'',
     sp_method := ''GET'',
     sp_path := ''/search'',
     sp_auth := \<lparr>ra_kind = ''query'', ra_header = [], ra_queryKey = ''api_key'', ra_credKey = ''api_key'', ra_loginKey = [], ra_passwordKey = []\<rparr>,
     sp_queryKey := ''q'',
     sp_countField := ''t'',
     sp_titleKey := ''title'',
     sp_resultPath := [''response'', ''results''],
     sp_linkKeys := [''url''],
     sp_snippetKeys := [''desc''],
     sp_fatalHTTP := commonFatal,
     sp_retryHTTP := commonRetry,
     sp_extract := Some mojeek_extract,
     sp_schema := \<lparr>sch_Code = ''mojeek'', sch_Name = ''Mojeek'', sch_Deprecated = False, sch_DefaultBaseURL = [],
       sch_Credentials = (credentialFields [''api_key'']),
       sch_Params = [textParam ''fmt'' ''Format'' ''json'' ''json | xml'',
         textParam ''s'' ''Start'' [] ''Result offset'',
         textParam ''since'' ''Since'' [] ''Only results newer than this date'',
         textParam ''before'' ''Before'' [] ''Only results older than this date'',
         textParam ''lb'' ''Language boost'' [] [],
         textParam ''lbb'' ''Language boost weight'' [] [],
         textParam ''rb'' ''Region boost'' [] [],
         textParam ''rbb'' ''Region boost weight'' [] [],
         textParam ''lr'' ''Language restrict'' [] ''Beta'',
         textParam ''safe'' ''Safe search'' [] ''0 | 1'',
         textParam ''tlen'' ''Title length'' [] [],
         textParam ''dlen'' ''Snippet length'' [] [],
         textParam ''site'' ''Site'' [] ''Restrict to a domain''],
       sch_Hints = [''Key is sent in the query string and is redacted from logs automatically.'']\<rparr>\<rparr>"

definition spec_marginalia :: restSpec where
  "spec_marginalia = blank_spec\<lparr>
     sp_code := ''marginalia'',
     sp_name := ''Marginalia'',
     sp_baseURL := ''https://api2.marginalia-search.com'',
     sp_method := ''GET'',
     sp_path := ''/search'',
     sp_auth := \<lparr>ra_kind = ''header'', ra_header = ''API-Key'', ra_queryKey = [], ra_credKey = ''api_key'', ra_loginKey = [], ra_passwordKey = []\<rparr>,
     sp_queryKey := ''query'',
     sp_countField := ''count'',
     sp_titleKey := ''title'',
     sp_countCap := 100,
     sp_resultPath := [''results''],
     sp_linkKeys := [''url''],
     sp_snippetKeys := [''description''],
     sp_fatalHTTP := commonFatal,
     sp_retryHTTP := (commonRetry @ [503]),
     sp_schema := \<lparr>sch_Code = ''marginalia'', sch_Name = ''Marginalia'', sch_Deprecated = False, sch_DefaultBaseURL = [],
       sch_Credentials = (credentialFields [''api_key'']),
       sch_Params = [numberParam ''count'' ''Count'' ''10'' (''1'' @ [CHR 0xE2, CHR 0x80, CHR 0x93] @ ''100''),
         numberParam ''timeout'' ''Engine timeout'' [] (''50'' @ [CHR 0xE2, CHR 0x80, CHR 0x93] @ ''250 ms''),
         numberParam ''dc'' ''Max per domain'' [] [],
         textParam ''nsfw'' ''NSFW'' [] [],
         textParam ''filter'' ''Filter'' [] []],
       sch_Hints = [''Public API-Key is rate-limited; 503 is retryable.'']\<rparr>\<rparr>"

definition spec_tavily :: restSpec where
  "spec_tavily = blank_spec\<lparr>
     sp_code := ''tavily'',
     sp_name := ''Tavily'',
     sp_baseURL := ''https://api.tavily.com'',
     sp_method := ''POST'',
     sp_path := ''/search'',
     sp_auth := \<lparr>ra_kind = ''bearer'', ra_header = [], ra_queryKey = [], ra_credKey = ''api_key'', ra_loginKey = [], ra_passwordKey = []\<rparr>,
     sp_body := True,
     sp_queryKey := ''query'',
     sp_countField := ''max_results'',
     sp_langField := ''language'',
     sp_countryField := ''country'',
     sp_titleKey := ''title'',
     sp_countCap := 20,
     sp_resultPath := [''results''],
     sp_linkKeys := [''url''],
     sp_snippetKeys := [''content''],
     sp_fatalHTTP := commonFatal,
     sp_retryHTTP := commonRetry,
     sp_schema := \<lparr>sch_Code = ''tavily'', sch_Name = ''Tavily'', sch_Deprecated = False, sch_DefaultBaseURL = [],
       sch_Credentials = (credentialFields [''api_key'']),
       sch_Params = [selectParam ''search_depth'' ''Search depth'' ''basic'' [(''Basic'', ''basic''), (''Advanced'', ''advanced'')],
         selectParam ''topic'' ''Topic'' ''general'' [(''General'', ''general''), (''News'', ''news'')],
         selectParam ''time_range'' ''Time range'' [] [(''Any'', []), (''Day'', ''day''), (''Week'', ''week''), (''Month'', ''month''), (''Year'', ''year'')],
         textParam ''include_domains'' ''Include domains'' [] ''Comma-separated'',
         textParam ''exclude_domains'' ''Exclude domains'' [] ''Comma-separated''],
       sch_Hints = [''Advanced search costs 2 credits per query.'',
         ''Long content is truncated automatically.'']\<rparr>\<rparr>"

definition spec_exa :: restSpec where
  "spec_exa = blank_spec\<lparr>
     sp_code := ''exa'',
     sp_name := ''Exa'',
     sp_baseURL := ''https://api.exa.ai'',
     sp_method := ''POST'',
     sp_path := ''/search'',
     sp_auth := \<lparr>ra_kind = ''bearer'', ra_header = [], ra_queryKey = [], ra_credKey = ''api_key'', ra_loginKey = [], ra_passwordKey = []\<rparr>,
     sp_body := True,
     sp_queryKey := ''query'',
     sp_countField := ''numResults'',
     sp_titleKey := ''title'',
     sp_resultPath := [''results''],
     sp_linkKeys := [''url''],
     sp_snippetKeys := [''highlights''],
     sp_fatalHTTP := commonFatal,
     sp_retryHTTP := commonRetry,
     sp_extract := Some exa_extract,
     sp_schema := \<lparr>sch_Code = ''exa'', sch_Name = ''Exa'', sch_Deprecated = False, sch_DefaultBaseURL = [],
       sch_Credentials = (credentialFields [''api_key'']),
       sch_Params = [selectParam ''type'' ''Query type'' ''auto'' [(''Auto'', ''auto''), (''Neural'', ''neural''), (''Keyword'', ''keyword''), (''Fast'', ''fast'')],
         textParam ''category'' ''Category'' [] ''company, research paper, news, pdf, github, tweet, financial report'',
         textParam ''startPublishedDate'' ''Published after'' [] ''ISO 8601 date'',
         textParam ''endPublishedDate'' ''Published before'' [] ''ISO 8601 date'',
         textParam ''includeDomains'' ''Include domains'' [] [],
         textParam ''excludeDomains'' ''Exclude domains'' [] []],
       sch_Hints = [''Highlights are requested by default; avoid text:true unless you need full page content.'']\<rparr>\<rparr>"

definition spec_linkup :: restSpec where
  "spec_linkup = blank_spec\<lparr>
     sp_code := ''linkup'',
     sp_name := ''Linkup'',
     sp_baseURL := ''https://api.linkup.so'',
     sp_method := ''POST'',
     sp_path := ''/v1/search'',
     sp_auth := \<lparr>ra_kind = ''bearer'', ra_header = [], ra_queryKey = [], ra_credKey = ''api_key'', ra_loginKey = [], ra_passwordKey = []\<rparr>,
     sp_body := True,
     sp_queryKey := ''q'',
     sp_countField := ''maxResults'',
     sp_titleKey := ''name'',
     sp_resultPath := [''results''],
     sp_linkKeys := [''url''],
     sp_snippetKeys := [''content''],
     sp_fatalHTTP := commonFatal,
     sp_retryHTTP := commonRetry,
     sp_build := Some linkup_build,
     sp_schema := \<lparr>sch_Code = ''linkup'', sch_Name = ''Linkup'', sch_Deprecated = False, sch_DefaultBaseURL = [],
       sch_Credentials = (credentialFields [''api_key'']),
       sch_Params = [selectParam ''depth'' ''Depth'' ''standard'' [(''Standard'', ''standard''), (''Deep'', ''deep'')],
         textParam ''includeDomains'' ''Include domains'' [] [],
         textParam ''excludeDomains'' ''Exclude domains'' [] [],
         textParam ''fromDate'' ''From date'' [] ''ISO 8601 date'',
         textParam ''toDate'' ''To date'' [] ''ISO 8601 date'',
         textParam ''language'' ''Language'' [] ''e.g. en, fr''],
       sch_Hints = [''outputType is fixed to searchResults for the Row contract.'']\<rparr>\<rparr>"

definition spec_perplexity :: restSpec where
  "spec_perplexity = blank_spec\<lparr>
     sp_code := ''perplexity'',
     sp_name := ''Perplexity Search API'',
     sp_baseURL := ''https://api.perplexity.ai'',
     sp_method := ''POST'',
     sp_path := ''/search'',
     sp_auth := \<lparr>ra_kind = ''bearer'', ra_header = [], ra_queryKey = [], ra_credKey = ''api_key'', ra_loginKey = [], ra_passwordKey = []\<rparr>,
     sp_body := True,
     sp_queryKey := ''query'',
     sp_countField := ''max_results'',
     sp_countryField := ''country'',
     sp_titleKey := ''title'',
     sp_countCap := 50,
     sp_resultPath := [''results''],
     sp_linkKeys := [''url''],
     sp_snippetKeys := [''snippet''],
     sp_fatalHTTP := commonFatal,
     sp_retryHTTP := commonRetry,
     sp_build := Some perplexity_build,
     sp_schema := \<lparr>sch_Code = ''perplexity'', sch_Name = ''Perplexity Search API'', sch_Deprecated = False, sch_DefaultBaseURL = [],
       sch_Credentials = (credentialFields [''api_key'']),
       sch_Params = [selectParam ''search_context_size'' ''Context size'' ''medium'' [(''Low'', ''low''), (''Medium'', ''medium''), (''High'', ''high'')],
         selectParam ''search_type'' ''Search type'' ''web'' [(''Web'', ''web''), (''Fast'', ''fast''), (''People'', ''people'')],
         textParam ''search_recency_filter'' ''Recency filter'' [] ''month, week, day, hour'',
         textParam ''country'' ''Country'' ''us'' []],
       sch_Hints = [''This is the standalone /search endpoint, NOT the Sonar chat completions endpoint.'']\<rparr>\<rparr>"

definition spec_valyu :: restSpec where
  "spec_valyu = blank_spec\<lparr>
     sp_code := ''valyu'',
     sp_name := ''Valyu'',
     sp_baseURL := ''https://api.valyu.ai'',
     sp_method := ''POST'',
     sp_path := ''/v1/search'',
     sp_auth := \<lparr>ra_kind = ''header'', ra_header = ''X-API-Key'', ra_queryKey = [], ra_credKey = ''api_key'', ra_loginKey = [], ra_passwordKey = []\<rparr>,
     sp_body := True,
     sp_queryKey := ''query'',
     sp_countField := ''max_num_results'',
     sp_countryField := ''country_code'',
     sp_titleKey := ''title'',
     sp_countCap := 20,
     sp_resultPath := [''results''],
     sp_linkKeys := [''url''],
     sp_snippetKeys := [''content'', ''description''],
     sp_fatalHTTP := commonFatal,
     sp_retryHTTP := commonRetry,
     sp_schema := \<lparr>sch_Code = ''valyu'', sch_Name = ''Valyu'', sch_Deprecated = False, sch_DefaultBaseURL = [],
       sch_Credentials = (credentialFields [''api_key'']),
       sch_Params = [selectParam ''search_type'' ''Search type'' ''all'' [(''All'', ''all''), (''Web'', ''web''), (''Proprietary'', ''proprietary''), (''News'', ''news'')],
         selectParam ''response_length'' ''Response length'' ''short'' [(''Short'', ''short''), (''Medium'', ''medium''), (''Long'', ''long'')],
         textParam ''included_sources'' ''Included sources'' [] ''Comma-separated'',
         textParam ''excluded_sources'' ''Excluded sources'' [] ''Comma-separated'',
         textParam ''start_date'' ''Start date'' [] ''YYYY-MM-DD'',
         textParam ''end_date'' ''End date'' [] ''YYYY-MM-DD''],
       sch_Hints = [''Proprietary search requires a subscription.'']\<rparr>\<rparr>"

definition spec_parallel :: restSpec where
  "spec_parallel = blank_spec\<lparr>
     sp_code := ''parallel'',
     sp_name := ''Parallel'',
     sp_baseURL := ''https://api.parallel.ai'',
     sp_method := ''POST'',
     sp_path := ''/v1/search'',
     sp_auth := \<lparr>ra_kind = ''header'', ra_header = ''x-api-key'', ra_queryKey = [], ra_credKey = ''api_key'', ra_loginKey = [], ra_passwordKey = []\<rparr>,
     sp_body := True,
     sp_queryKey := ''objective'',
     sp_titleKey := ''title'',
     sp_resultPath := [''results''],
     sp_linkKeys := [''url''],
     sp_snippetKeys := [''excerpts''],
     sp_fatalHTTP := commonFatal,
     sp_retryHTTP := commonRetry,
     sp_build := Some parallel_build,
     sp_extract := Some parallel_extract,
     sp_schema := \<lparr>sch_Code = ''parallel'', sch_Name = ''Parallel'', sch_Deprecated = False, sch_DefaultBaseURL = [],
       sch_Credentials = (credentialFields [''api_key'']),
       sch_Params = [selectParam ''mode'' ''Mode'' ''advanced'' [(''Advanced'', ''advanced''), (''Fast'', ''fast''), (''Turbo'', ''turbo'')],
         numberParam ''max_chars_total'' ''Max total chars'' [] []],
       sch_Hints = [''search_queries is built automatically from the query text.'']\<rparr>\<rparr>"

definition spec_ollama :: restSpec where
  "spec_ollama = blank_spec\<lparr>
     sp_code := ''ollama'',
     sp_name := ''Ollama Web Search'',
     sp_baseURL := ''https://ollama.com'',
     sp_method := ''POST'',
     sp_path := ''/api/web_search'',
     sp_auth := \<lparr>ra_kind = ''bearer'', ra_header = [], ra_queryKey = [], ra_credKey = ''api_key'', ra_loginKey = [], ra_passwordKey = []\<rparr>,
     sp_body := True,
     sp_queryKey := ''query'',
     sp_countField := ''max_results'',
     sp_titleKey := ''title'',
     sp_countCap := 10,
     sp_resultPath := [''results''],
     sp_linkKeys := [''url''],
     sp_snippetKeys := [''content''],
     sp_fatalHTTP := commonFatal,
     sp_retryHTTP := commonRetry,
     sp_build := Some ollama_build,
     sp_schema := \<lparr>sch_Code = ''ollama'', sch_Name = ''Ollama Web Search'', sch_Deprecated = False, sch_DefaultBaseURL = [],
       sch_Credentials = (credentialFields [''api_key'']),
       sch_Params = [],
       sch_Hints = [''Requires an Ollama account API key; max_results defaults to 5, maximum 10.'',
         (''Each result'' @ [CHR 0x27] @ ''s content is used as the snippet.'')]\<rparr>\<rparr>"

definition spec_kagi :: restSpec where
  "spec_kagi = blank_spec\<lparr>
     sp_code := ''kagi'',
     sp_name := ''Kagi'',
     sp_baseURL := ''https://kagi.com'',
     sp_method := ''POST'',
     sp_path := ''/api/v0/fastgpt'',
     sp_auth := \<lparr>ra_kind = ''header'', ra_header = ''Authorization'', ra_queryKey = [], ra_credKey = ''api_key'', ra_loginKey = [], ra_passwordKey = []\<rparr>,
     sp_body := True,
     sp_queryKey := ''q'',
     sp_titleKey := ''title'',
     sp_linkKeys := [''url''],
     sp_snippetKeys := [''snippet''],
     sp_fatalHTTP := commonFatal,
     sp_retryHTTP := commonRetry,
     sp_build := Some kagi_build,
     sp_extract := Some kagi_extract,
     sp_schema := \<lparr>sch_Code = ''kagi'', sch_Name = ''Kagi'', sch_Deprecated = False, sch_DefaultBaseURL = [],
       sch_Credentials = (credentialFields [''api_key'']),
       sch_Params = [selectParam ''mode'' ''API'' ''fastgpt'' [(''FastGPT'', ''fastgpt''), (''Search API v1'', ''search'')],
         textParam ''limit'' ''Limit (Search API)'' [] ''Max results; count is used when empty'',
         textParam ''search_language'' ''Search language'' [] ''Search API v1'',
         textParam ''country'' ''Country'' [] ''Search API v1'',
         textParam ''no_cache'' ''No cache'' [] ''true | false''],
       sch_Hints = [''FastGPT returns data.references[]; Search API v1 returns data[]. Both use Bot auth.'']\<rparr>\<rparr>"

definition spec_openalex :: restSpec where
  "spec_openalex = blank_spec\<lparr>
     sp_code := ''openalex'',
     sp_name := ''OpenAlex'',
     sp_baseURL := ''https://api.openalex.org'',
     sp_method := ''GET'',
     sp_path := ''/works'',
     sp_auth := \<lparr>ra_kind = ''none'', ra_header = [], ra_queryKey = [], ra_credKey = [], ra_loginKey = [], ra_passwordKey = []\<rparr>,
     sp_queryKey := ''search'',
     sp_countField := ''per-page'',
     sp_titleKey := ''title'',
     sp_countCap := 200,
     sp_resultPath := [''results''],
     sp_linkKeys := [''doi'', ''primary_location.landing_page_url'', ''id''],
     sp_snippetKeys := [''display_name''],
     sp_fatalHTTP := [400],
     sp_retryHTTP := commonRetry,
     sp_extract := Some openalex_extract,
     sp_schema := \<lparr>sch_Code = ''openalex'', sch_Name = ''OpenAlex'', sch_Deprecated = False, sch_DefaultBaseURL = [],
       sch_Credentials = [],
       sch_Params = [textParam ''filter'' ''Filter'' [] ''OpenAlex filter string'',
         textParam ''sort'' ''Sort'' [] [],
         textParam ''mailto'' ''Email'' [] ''Polite pool email''],
       sch_Hints = [''Abstract is reconstructed from the inverted index when available.'']\<rparr>\<rparr>"

definition spec_semanticscholar :: restSpec where
  "spec_semanticscholar = blank_spec\<lparr>
     sp_code := ''semanticscholar'',
     sp_name := ''Semantic Scholar'',
     sp_baseURL := ''https://api.semanticscholar.org'',
     sp_method := ''GET'',
     sp_path := ''/graph/v1/paper/search'',
     sp_auth := \<lparr>ra_kind = ''header'', ra_header = ''x-api-key'', ra_queryKey = [], ra_credKey = ''api_key'', ra_loginKey = [], ra_passwordKey = []\<rparr>,
     sp_queryKey := ''query'',
     sp_countField := ''limit'',
     sp_titleKey := ''title'',
     sp_countCap := 100,
     sp_resultPath := [''data''],
     sp_linkKeys := [''url''],
     sp_snippetKeys := [''abstract''],
     sp_fatalHTTP := [400, 403],
     sp_retryHTTP := commonRetry,
     sp_maxRPS := Finite 1,
     sp_build := Some semanticscholar_build,
     sp_extract := Some semanticscholar_extract,
     sp_schema := \<lparr>sch_Code = ''semanticscholar'', sch_Name = ''Semantic Scholar'', sch_Deprecated = False, sch_DefaultBaseURL = [],
       sch_Credentials = (credentialFields [''api_key'']),
       sch_Params = [textParam ''fields'' ''Fields'' ''title,abstract,url,year,citationCount,tldr'' ''Comma-separated paper fields'',
         selectParam ''sort'' ''Sort'' [] [(''Default'', []), (''Relevance'', ''relevance''), (''Publication date'', ''publicationDate''), (''Citation count'', ''citationCount'')],
         textParam ''offset'' ''Offset'' [] []],
       sch_Hints = [''An API key increases rate limits but is optional.'']\<rparr>\<rparr>"

definition spec_crossref :: restSpec where
  "spec_crossref = blank_spec\<lparr>
     sp_code := ''crossref'',
     sp_name := ''Crossref'',
     sp_baseURL := ''https://api.crossref.org'',
     sp_method := ''GET'',
     sp_path := ''/works'',
     sp_auth := \<lparr>ra_kind = ''none'', ra_header = [], ra_queryKey = [], ra_credKey = [], ra_loginKey = [], ra_passwordKey = []\<rparr>,
     sp_queryKey := ''query'',
     sp_countField := ''rows'',
     sp_titleKey := ''title'',
     sp_countCap := 1000,
     sp_resultPath := [''message'', ''items''],
     sp_linkKeys := [''URL''],
     sp_snippetKeys := [''abstract''],
     sp_fatalHTTP := [400, 404],
     sp_retryHTTP := commonRetry,
     sp_extract := Some crossref_extract,
     sp_schema := \<lparr>sch_Code = ''crossref'', sch_Name = ''Crossref'', sch_Deprecated = False, sch_DefaultBaseURL = [],
       sch_Credentials = [],
       sch_Params = [textParam ''filter'' ''Filter'' [] ''Crossref filter query'',
         textParam ''sort'' ''Sort'' [] [],
         textParam ''order'' ''Order'' [] ''asc | desc'',
         textParam ''mailto'' ''Email'' [] ''Polite pool email''],
       sch_Hints = [''Title is a list; only the first item is used.'',
         ''DOI links are normalized to https://doi.org/.'']\<rparr>\<rparr>"

definition spec_github :: restSpec where
  "spec_github = blank_spec\<lparr>
     sp_code := ''github'',
     sp_name := ''GitHub'',
     sp_baseURL := ''https://api.github.com'',
     sp_method := ''GET'',
     sp_path := ''/search/repositories'',
     sp_auth := \<lparr>ra_kind = ''header'', ra_header = ''Authorization'', ra_queryKey = [], ra_credKey = ''api_key'', ra_loginKey = [], ra_passwordKey = []\<rparr>,
     sp_queryKey := ''q'',
     sp_countField := ''per_page'',
     sp_titleKey := ''full_name'',
     sp_countCap := 100,
     sp_resultPath := [''items''],
     sp_linkKeys := [''html_url''],
     sp_snippetKeys := [''description''],
     sp_fatalHTTP := [401, 422],
     sp_retryHTTP := commonRetry,
     sp_maxRPS := Finite (1 / 2),
     sp_build := Some github_build,
     sp_extract := Some github_extract,
     sp_schema := \<lparr>sch_Code = ''github'', sch_Name = ''GitHub Search'', sch_Deprecated = False, sch_DefaultBaseURL = [],
       sch_Credentials = (credentialFields [''api_key'']),
       sch_Params = [selectParam ''search_type'' ''Search type'' ''repositories'' [(''Repositories'', ''repositories''), (''Code'', ''code''), (''Issues'', ''issues''), (''Commits'', ''commits''), (''Users'', ''users'')],
         textParam ''sort'' ''Sort'' [] [],
         textParam ''order'' ''Order'' [] ''asc | desc''],
       sch_Hints = [''Code search requests the text-match media type and uses text_matches.fragment as the snippet.'']\<rparr>\<rparr>"

definition spec_hn :: restSpec where
  "spec_hn = blank_spec\<lparr>
     sp_code := ''hn'',
     sp_name := ''Hacker News'',
     sp_baseURL := ''https://hn.algolia.com'',
     sp_method := ''GET'',
     sp_path := ''/api/v1/search'',
     sp_auth := \<lparr>ra_kind = ''none'', ra_header = [], ra_queryKey = [], ra_credKey = [], ra_loginKey = [], ra_passwordKey = []\<rparr>,
     sp_queryKey := ''query'',
     sp_countField := ''hitsPerPage'',
     sp_titleKey := ''title'',
     sp_pathParam := ''search_type'',
     sp_countCap := 1000,
     sp_resultPath := [''hits''],
     sp_linkKeys := [''url''],
     sp_snippetKeys := [''story_text''],
     sp_pathMap := [(''date'', ''/api/v1/search_by_date'')],
     sp_fatalHTTP := [400],
     sp_retryHTTP := commonRetry,
     sp_extract := Some hn_extract,
     sp_schema := \<lparr>sch_Code = ''hn'', sch_Name = ''Hacker News'', sch_Deprecated = False, sch_DefaultBaseURL = [],
       sch_Credentials = [],
       sch_Params = [selectParam ''search_type'' ''Sort'' ''relevance'' [(''Relevance'', ''relevance''), (''Date'', ''date'')],
         selectParam ''tags'' ''Tags'' [] [(''Any'', []), (''Story'', ''story''), (''Comment'', ''comment''), (''Ask HN'', ''ask_hn''), (''Show HN'', ''show_hn''), (''Front page'', ''front_page'')],
         textParam ''numericFilters'' ''Numeric filters'' [] ''points>10,num_comments>5'',
         numberParam ''page'' ''Page'' ''0'' ''0-based pagination''],
       sch_Hints = []\<rparr>\<rparr>"

definition spec_stackexchange :: restSpec where
  "spec_stackexchange = blank_spec\<lparr>
     sp_code := ''stackexchange'',
     sp_name := ''Stack Exchange'',
     sp_baseURL := ''https://api.stackexchange.com'',
     sp_method := ''GET'',
     sp_path := ''/2.3/search/advanced'',
     sp_auth := \<lparr>ra_kind = ''query'', ra_header = [], ra_queryKey = ''key'', ra_credKey = ''api_key'', ra_loginKey = [], ra_passwordKey = []\<rparr>,
     sp_queryKey := ''q'',
     sp_countField := ''pagesize'',
     sp_titleKey := ''title'',
     sp_throttleKey := ''backoff'',
     sp_countCap := 100,
     sp_resultPath := [''items''],
     sp_linkKeys := [''link''],
     sp_snippetKeys := [''body''],
     sp_fatalHTTP := [400, 401, 403],
     sp_retryHTTP := commonRetry,
     sp_build := Some stackexchange_build,
     sp_extract := Some stackexchange_extract,
     sp_schema := \<lparr>sch_Code = ''stackexchange'', sch_Name = ''Stack Exchange'', sch_Deprecated = False, sch_DefaultBaseURL = [],
       sch_Credentials = (credentialFields [''api_key'']),
       sch_Params = [textParam ''site'' ''Site'' ''stackoverflow'' ''e.g. stackoverflow, serverfault'',
         textParam ''tagged'' ''Tagged'' [] ''Semicolon-separated tags'',
         textParam ''nottagged'' ''Not tagged'' [] [],
         selectParam ''sort'' ''Sort'' ''relevance'' [(''Relevance'', ''relevance''), (''Activity'', ''activity''), (''Votes'', ''votes''), (''Creation'', ''creation'')],
         selectParam ''order'' ''Order'' ''desc'' [(''Descending'', ''desc''), (''Ascending'', ''asc'')],
         textParam ''fromdate'' ''From date'' [] ''Unix epoch seconds'',
         textParam ''todate'' ''To date'' [] ''Unix epoch seconds''],
       sch_Hints = [''Responses are gzip; the HTTP client handles decompression.'']\<rparr>\<rparr>"

definition spec_azure_search :: restSpec where
  "spec_azure_search = blank_spec\<lparr>
     sp_code := ''azure_search'',
     sp_name := ''Azure AI Search'',
     sp_baseURL := ''https://{}.search.windows.net'',
     sp_method := ''POST'',
     sp_path := [],
     sp_auth := \<lparr>ra_kind = ''header'', ra_header = ''api-key'', ra_queryKey = [], ra_credKey = ''api_key'', ra_loginKey = [], ra_passwordKey = []\<rparr>,
     sp_body := True,
     sp_queryKey := ''search'',
     sp_countField := ''top'',
     sp_titleKey := ''title'',
     sp_resultPath := [''value''],
     sp_linkKeys := [''url''],
     sp_snippetKeys := [''snippet''],
     sp_fatalHTTP := [400, 401, 403, 404, 413],
     sp_retryHTTP := commonRetry,
     sp_build := Some azure_search_build,
     sp_extractP := Some azure_search_extractP,
     sp_schema := \<lparr>sch_Code = ''azure_search'', sch_Name = ''Azure AI Search'', sch_Deprecated = False, sch_DefaultBaseURL = [],
       sch_Credentials = (credentialFields [''api_key'', ''tenant_id'', ''client_id'', ''client_secret'']),
       sch_Params = [requiredTextParam ''service_name'' ''Service name'' [] ''Azure Search service name'',
         requiredTextParam ''index_name'' ''Index name'' [] [],
         selectParam ''auth_mode'' ''Auth mode'' ''api_key'' [(''API key'', ''api_key''), (''Microsoft Entra (RBAC)'', ''aad'')],
         selectParam ''query_type'' ''Query type'' ''simple'' [(''Simple'', ''simple''), (''Full'', ''full''), (''Semantic'', ''semantic'')],
         selectParam ''searchMode'' ''Search mode'' ''any'' [(''Any'', ''any''), (''All'', ''all'')],
         textParam ''semanticConfiguration'' ''Semantic config'' [] ''Required for semantic'',
         textParam ''title_field'' ''Title field'' ''title'' ''Index field mapped to Row.title'',
         textParam ''url_field'' ''URL field'' ''url'' ''Index field mapped to Row.link'',
         textParam ''snippet_field'' ''Snippet field'' ''description'' ''Index field mapped to Row.snippet (captions win when semantic)'',
         textParam ''select'' ''Select fields'' [] ''Override; default: the three mapped fields'',
         textParam ''api_version'' ''API version'' ''2024-07-01'' []],
       sch_Hints = [''Index field names are configurable: set title_field/url_field/snippet_field to your index schema. Entra mode requires the Search Index Data Reader role.'']\<rparr>\<rparr>"

definition spec_vectara :: restSpec where
  "spec_vectara = blank_spec\<lparr>
     sp_code := ''vectara'',
     sp_name := ''Vectara'',
     sp_baseURL := ''https://api.vectara.io'',
     sp_method := ''POST'',
     sp_path := ''/v2/query'',
     sp_auth := \<lparr>ra_kind = ''header'', ra_header = ''x-api-key'', ra_queryKey = [], ra_credKey = ''api_key'', ra_loginKey = [], ra_passwordKey = []\<rparr>,
     sp_body := True,
     sp_queryKey := ''query'',
     sp_countField := ''limit'',
     sp_titleKey := ''title'',
     sp_resultPath := [''search_results''],
     sp_linkKeys := [''url''],
     sp_snippetKeys := [''text''],
     sp_fatalHTTP := [400, 403, 404],
     sp_retryHTTP := commonRetry,
     sp_build := Some vectara_build,
     sp_extract := Some vectara_extract,
     sp_schema := \<lparr>sch_Code = ''vectara'', sch_Name = ''Vectara'', sch_Deprecated = False, sch_DefaultBaseURL = [],
       sch_Credentials = (credentialFields [''api_key'']),
       sch_Params = [requiredTextParam ''corpus_key'' ''Corpus key'' [] ''Required corpus key'',
         textParam ''metadata_filter'' ''Metadata filter'' [] ''Vectara metadata filter expression''],
       sch_Hints = [''stream_response is disabled so the response stays in Row format.'']\<rparr>\<rparr>"

definition spec_kendra :: restSpec where
  "spec_kendra = blank_spec\<lparr>
     sp_code := ''kendra'',
     sp_name := ''Amazon Kendra'',
     sp_baseURL := ''https://kendra.us-east-1.amazonaws.com'',
     sp_method := ''POST'',
     sp_path := [],
     sp_auth := \<lparr>ra_kind = ''none'', ra_header = [], ra_queryKey = [], ra_credKey = [], ra_loginKey = [], ra_passwordKey = []\<rparr>,
     sp_body := True,
     sp_titleKey := ''title'',
     sp_linkKeys := [''url''],
     sp_snippetKeys := [''snippet''],
     sp_fatalHTTP := [400],
     sp_retryHTTP := commonRetry,
     sp_build := Some kendra_build,
     sp_extract := Some kendra_extract,
     sp_schema := \<lparr>sch_Code = ''kendra'', sch_Name = ''Amazon Kendra'', sch_Deprecated = True, sch_DefaultBaseURL = [],
       sch_Credentials = (credentialFields [''access_key_id'', ''secret_access_key'']),
       sch_Params = [textParam ''index_id'' ''Index ID'' [] [],
         textParam ''region'' ''Region'' ''us-east-1'' [],
         selectParam ''QueryResultTypeFilter'' ''Result type filter'' ''DOCUMENT'' [(''Document'', ''DOCUMENT''), (''QUESTION_ANSWER'', ''QUESTION_ANSWER''), (''ANSWER'', ''ANSWER'')]],
       sch_Hints = [(''AWS moved Kendra to maintenance mode (2026-06-30) and closed it to new customers (2026-07-30) '' @ [CHR 0xE2, CHR 0x86, CHR 0x92] @ '' use Bedrock Knowledge Bases. AWS SigV4 signing is intentionally not implemented.'')]\<rparr>\<rparr>"

subsection \<open>The registry\<close>

definition restSpecs :: "restSpec list" where
  "restSpecs =
     [spec_brave, spec_serper, spec_serpapi, spec_searchapi, spec_dataforseo, spec_youcom,
      spec_jina, spec_firecrawl, spec_mojeek, spec_marginalia, spec_tavily, spec_exa,
      spec_linkup, spec_perplexity, spec_valyu, spec_parallel, spec_ollama, spec_kagi,
      spec_openalex, spec_semanticscholar, spec_crossref, spec_github, spec_hn, spec_stackexchange,
      spec_azure_search, spec_vectara, spec_kendra]"

text \<open>The driver of a specification shows its base URL as the default of the form.\<close>

definition registered_spec :: "restSpec \<Rightarrow> restSpec" where
  "registered_spec sp =
     (if sch_DefaultBaseURL (sp_schema sp) = []
      then sp\<lparr>sp_schema := (sp_schema sp)\<lparr>sch_DefaultBaseURL := sp_baseURL sp\<rparr>\<rparr> else sp)"

definition newRestRegistry :: "restSpec list" where
  "newRestRegistry = map registered_spec restSpecs"

end
