(* ===== verification/Rest_Facts.thy ===== *)
theory Rest_Facts
  imports Rest_Catalog "HOL-Library.Multiset"
begin

text \<open>
  Facts about the REST drivers: the order in which a map of parameters is visited does not matter, what
  is sent is what the service decodes, how outcomes are classified, which rows come out, and how many
  requests a search makes.
\<close>

subsection \<open>Keyed lists\<close>

lemma sort_key_unique:
  fixes xs ys :: "(string \<times> 'a) list"
  assumes "distinct (map fst xs)" "distinct (map fst ys)" "map_of xs = map_of ys"
  shows "sort_key fst xs = sort_key fst ys"
proof (rule sort_key_inj_key_eq)
  have "set xs = set ys" using assms by (metis map_of_inject_set)
  then show "mset xs = mset (sort_key fst ys)"
    using assms(1,2) by (simp add: set_eq_iff_mset_eq_distinct [symmetric] distinct_map)
  show "inj_on fst (set xs)" using assms(1) by (simp add: distinct_map)
qed simp

lemma map_of_mset:
  assumes "distinct (map fst ps)" "mset ps = mset ps'"
  shows "map_of ps = map_of ps'" "distinct (map fst ps')"
proof -
  show d: "distinct (map fst ps')" using assms by (metis mset_eq_imp_distinct_iff mset_map)
  show "map_of ps = map_of ps'" using assms d by (intro map_of_perm) (auto dest: mset_eq_setD)
qed

lemma param_mset: "distinct (map fst ps) \<Longrightarrow> mset ps = mset ps' \<Longrightarrow> param ps k = param ps' k"
  by (simp add: param_def map_of_mset(1) [of ps ps'])

lemma map_of_Values_Set [simp]: "map_of (Values_Set k v vs) = (map_of vs)(k \<mapsto> [v])"
proof -
  have m: "map_of (map (\<lambda>(k', w). (k', if k' = k then [v] else w)) vs) x =
      (if x = k then map_option (\<lambda>_. [v]) (map_of vs k) else map_of vs x)" for x
    by (induction vs) auto
  show ?thesis
    by (rule ext) (auto simp: Values_Set_def m map_add_def split: option.splits)
qed

lemma keys_Values_Set: "map fst (Values_Set k v vs) = (if k \<in> fst ` set vs then map fst vs else map fst vs @ [k])"
proof -
  have "map fst (map (\<lambda>(k', w). (k', if k' = k then [v] else w)) vs) = map fst vs" by (induction vs) auto
  then show ?thesis by (auto simp: Values_Set_def map_of_eq_None_iff)
qed

lemma distinct_Values_Set: "distinct (map fst vs) \<Longrightarrow> distinct (map fst (Values_Set k v vs))"
  by (simp add: keys_Values_Set)

lemma set_all_Nil [simp]: "set_all [] vs = vs"
  by (simp add: set_all_def)

lemma set_all_Cons [simp]: "set_all ((k, v) # kvs) vs = set_all kvs (Values_Set k v vs)"
  by (simp add: set_all_def)

lemma set_all_append: "set_all (a @ b) vs = set_all b (set_all a vs)"
  by (simp add: set_all_def)

lemma map_of_set_all: "map_of (set_all kvs vs) = map_of vs ++ map_of (rev (map (\<lambda>(k, v). (k, [v])) kvs))"
  by (induction kvs arbitrary: vs) auto

lemma distinct_set_all: "distinct (map fst vs) \<Longrightarrow> distinct (map fst (set_all kvs vs))"
  by (induction kvs arbitrary: vs) (auto simp: distinct_Values_Set)

lemma map_of_body_of: "map_of (body_of kvs m) = map_of m ++ map_of (rev (map (\<lambda>(k, v). (k, JStr v)) kvs))"
  by (induction kvs arbitrary: m) (auto simp: body_of_def update_conv')

lemma distinct_body_of: "distinct (map fst m) \<Longrightarrow> distinct (map fst (body_of kvs m))"
  by (induction kvs arbitrary: m) (auto simp: body_of_def distinct_update)

lemma keys_Values_Add: "map fst (Values_Add k v vs) = (if k \<in> fst ` set vs then map fst vs else map fst vs @ [k])"
proof -
  have "map fst (map (\<lambda>(k', w). (k', if k' = k then w @ [v] else w)) vs) = map fst vs" by (induction vs) auto
  then show ?thesis by (auto simp: Values_Add_def map_of_eq_None_iff)
qed

lemma distinct_keys_Values_Add: "distinct (map fst vs) \<Longrightarrow> distinct (map fst (Values_Add k v vs))"
  by (simp add: keys_Values_Add)

lemma distinct_ParseQuery: "distinct (map fst (ParseQuery s))"
proof -
  have "distinct (map fst (foldl (\<lambda>vs (k, v). Values_Add k v vs) vs ps))" if "distinct (map fst vs)" for vs ps
    using that by (induction ps arbitrary: vs) (auto simp: distinct_keys_Values_Add)
  then show ?thesis by (simp add: ParseQuery_def)
qed

lemma last_wins_distinct: "distinct (map fst m) \<Longrightarrow> last_wins m = m"
  by (induction m rule: last_wins.induct) auto

text \<open>What is written of a map depends on the map only.\<close>

lemma encode_object_unique:
  assumes "distinct (map fst m)" "distinct (map fst m')" "map_of m = map_of m'"
  shows "json_encode num (JObj m) = json_encode num (JObj m')"
proof -
  let ?f = "map (\<lambda>m. (fst m, json_encode num (snd m)))"
  have d: "distinct (map fst (?f m))" "distinct (map fst (?f m'))" using assms(1,2) by (simp_all add: comp_def)
  have m: "map_of (?f xs) = map_option (json_encode num) \<circ> map_of xs" for xs
    using map_of_map [of "json_encode num" xs] by (simp add: case_prod_unfold)
  have "map_of (?f m) = map_of (?f m')" using m [of m] m [of m'] assms(3) by metis
  then have "sort_key fst (?f m) = sort_key fst (?f m')" by (intro sort_key_unique d)
  then show ?thesis using d by (simp add: last_wins_distinct)
qed

lemma encode_values_unique:
  "distinct (map fst vs) \<Longrightarrow> distinct (map fst vs') \<Longrightarrow> map_of vs = map_of vs' \<Longrightarrow> Values_Encode vs = Values_Encode vs'"
  by (simp add: Values_Encode_def sort_key_unique [of vs vs'])

subsection \<open>The order of the parameters\<close>

lemma sent_params_mset:
  assumes "distinct (map fst ps)" "mset ps = mset ps'"
  shows "distinct (map fst (sent_params own ps))" "mset (sent_params own ps) = mset (sent_params own ps')"
  using assms by (simp_all add: sent_params_def distinct_map_filter)

lemma map_of_rev_mset:
  assumes "distinct (map fst kvs)" "mset kvs = mset kvs'"
  shows "map_of (rev (map (\<lambda>(k, v). (k, f v)) kvs)) = map_of (rev (map (\<lambda>(k, v). (k, f v)) kvs'))"
proof (rule map_of_mset(1))
  have "map fst (map (\<lambda>(k, v). (k, f v)) kvs) = map fst kvs" by (simp add: comp_def case_prod_beta)
  then show "distinct (map fst (rev (map (\<lambda>(k, v). (k, f v)) kvs)))"
    using assms(1) by (metis distinct_rev rev_map)
  show "mset (rev (map (\<lambda>(k, v). (k, f v)) kvs)) = mset (rev (map (\<lambda>(k, v). (k, f v)) kvs'))"
    using assms(2) by simp
qed

lemma values_order:
  assumes "distinct (map fst ps)" "mset ps = mset ps'" "distinct (map fst vs)"
  shows "Values_Encode (set_all (sent_params own ps) vs) = Values_Encode (set_all (sent_params own ps') vs)"
  using sent_params_mset [OF assms(1,2)] assms(3)
  by (intro encode_values_unique distinct_set_all)
     (simp_all add: map_of_set_all map_of_rev_mset [where f = "\<lambda>v. [v]", of "sent_params own ps" "sent_params own ps'"])

lemma body_order:
  assumes "distinct (map fst ps)" "mset ps = mset ps'" "distinct (map fst m)"
  shows "json_encode num (JObj (body_of (sent_params own ps) m)) = json_encode num (JObj (body_of (sent_params own ps') m))"
  using sent_params_mset [OF assms(1,2)] assms(3)
  by (intro encode_object_unique distinct_body_of)
     (simp_all add: map_of_body_of map_of_rev_mset [where f = JStr, of "sent_params own ps" "sent_params own ps'"])

lemma body_of_append: "body_of (a @ b) m = body_of b (body_of a m)"
  by (simp add: body_of_def)

lemma request_fields_split:
  "request_fields sp q ps =
     filter (\<lambda>(k, v). v \<noteq> []) (query_fields sp q) @ sent_params (if sp_pathParam sp \<noteq> [] then [sp_pathParam sp] else []) ps"
proof -
  have "filter (\<lambda>(k, v). v \<noteq> []) (sent_params own ps) = sent_params own ps" for own
    by (auto simp: sent_params_def intro!: filter_cong)
  then show ?thesis by (simp add: request_fields_def)
qed

lemma plain_request_order:
  assumes "distinct (map fst ps)" "mset ps = mset ps'"
  shows "plain_request sp q ps = plain_request sp q ps'"
proof -
  note P = param_mset [OF assms] and V = values_order [OF assms] and B = body_order [OF assms]
  let ?own = "if sp_pathParam sp \<noteq> [] then [sp_pathParam sp] else []"
  have v: "Values_Encode (set_all (request_fields sp q ps) (ParseQuery r)) = Values_Encode (set_all (request_fields sp q ps') (ParseQuery r))" for r
    unfolding request_fields_split set_all_append by (intro V distinct_set_all distinct_ParseQuery)
  have b: "marshal (JObj (body_of (request_fields sp q ps) [])) = marshal (JObj (body_of (request_fields sp q ps') []))"
    unfolding request_fields_split body_of_append by (intro B distinct_body_of) simp
  have same: "base_of ps d = base_of ps' d" "request_path sp ps = request_path sp ps'" for d
    by (simp_all only: base_of_def request_path_def P)
  show ?thesis
    by (cases "sp_body sp") (simp_all only: plain_request_def same v b if_True if_False Let_def)
qed

text \<open>The builders of the catalog.\<close>

lemmas spec_defs = spec_brave_def spec_serper_def spec_serpapi_def spec_searchapi_def spec_dataforseo_def spec_youcom_def
  spec_jina_def spec_firecrawl_def spec_mojeek_def spec_marginalia_def spec_tavily_def spec_exa_def spec_linkup_def
  spec_perplexity_def spec_valyu_def spec_parallel_def spec_ollama_def spec_kagi_def spec_openalex_def
  spec_semanticscholar_def spec_crossref_def spec_github_def spec_hn_def spec_stackexchange_def spec_azure_search_def
  spec_vectara_def spec_kendra_def

definition catalog_builders :: "builder list" where
  "catalog_builders =
     [dataforseo_build, jina_build, linkup_build, perplexity_build, parallel_build, ollama_build, kagi_build,
      semanticscholar_build, github_build, stackexchange_build, vectara_build, kendra_build]"

lemma catalog_build:
  "sp \<in> set restSpecs \<Longrightarrow> sp_build sp = Some b \<Longrightarrow> b = azure_search_build \<and> sp_code sp = ''azure_search'' \<or> b \<in> set catalog_builders"
  unfolding restSpecs_def catalog_builders_def by (auto simp: spec_defs blank_spec_def)

lemma get_values_order:
  assumes "\<And>vs. distinct (map fst vs) \<Longrightarrow> Values_Encode (f vs) = Values_Encode (g vs)"
  shows "get_values target f hs = get_values target g hs"
  by (simp add: get_values_def assms distinct_ParseQuery cong: sum.case_cong)

lemma set_all_order:
  assumes "distinct (map fst ps)" "mset ps = mset ps'"
  shows "get_values target (set_all (kvs @ sent_params own ps)) hs = get_values target (set_all (kvs @ sent_params own ps')) hs"
  by (rule get_values_order) (simp add: set_all_append values_order [OF assms] distinct_set_all)

lemma catalog_builder_order:
  assumes "b \<in> set catalog_builders" "distinct (map fst ps)" "mset ps = mset ps'"
  shows "b env q c ps w = b env q c ps' w"
proof -
  note P = param_mset [OF assms(2,3)] and B = body_order [OF assms(2,3)] and V = set_all_order [OF assms(2,3)]
  have base: "base_of ps d = base_of ps' d" for d by (simp add: base_of_def P)
  have post: "post_json t (JObj (body_of (sent_params own ps) m)) hs = post_json t (JObj (body_of (sent_params own ps') m)) hs"
    if "distinct (map fst m)" for t own m hs
    using B [OF that, of id own] by (simp add: post_json_def)
  have vals: "get_values t (set_all (x # kvs @ sent_params own ps)) hs = get_values t (set_all (x # kvs @ sent_params own ps')) hs"
      "get_values t (set_all (x # y # kvs @ sent_params own ps)) hs = get_values t (set_all (x # y # kvs @ sent_params own ps')) hs"
      "get_values t (set_all (x # y # z # kvs @ sent_params own ps)) hs = get_values t (set_all (x # y # z # kvs @ sent_params own ps')) hs"
    for t x y z kvs own hs
    using V [of t "x # kvs"] V [of t "x # y # kvs"] V [of t "x # y # z # kvs"] by simp_all
  consider "b = dataforseo_build" | "b = jina_build" | "b = linkup_build" | "b = perplexity_build" | "b = parallel_build"
    | "b = ollama_build" | "b = kagi_build" | "b = semanticscholar_build" | "b = github_build" | "b = stackexchange_build"
    | "b = vectara_build" | "b = kendra_build"
    using assms(1) unfolding catalog_builders_def by auto
  then show ?thesis
  proof cases
    case 1 then show ?thesis by (simp add: dataforseo_build_def pure_build_def dataforseo_task_def base P)
  next
    case 2 then show ?thesis by (simp add: jina_build_def pure_build_def base P)
  next
    case 3 then show ?thesis by (simp add: linkup_build_def pure_build_def base post count_member_def)
  next
    case 4 then show ?thesis by (simp add: perplexity_build_def pure_build_def base post count_member_def)
  next
    case 5 then show ?thesis by (simp add: parallel_build_def pure_build_def base post)
  next
    case 6 then show ?thesis by (simp add: ollama_build_def pure_build_def base)
  next
    case 7 then show ?thesis by (simp add: kagi_build_def pure_build_def base P vals Let_def)
  next
    case 8 then show ?thesis by (simp add: semanticscholar_build_def pure_build_def base P vals)
  next
    case 9 then show ?thesis by (simp add: github_build_def pure_build_def base P vals Let_def)
  next
    case 10 then show ?thesis by (simp add: stackexchange_build_def pure_build_def base P vals)
  next
    case 11 then show ?thesis by (simp add: vectara_build_def pure_build_def base P Let_def)
  next
    case 12 then show ?thesis by (simp add: kendra_build_def pure_build_def)
  qed
qed

lemma azure_build_order:
  assumes "distinct (map fst ps)" "mset ps = mset ps'"
  shows "azure_search_build env q c ps w = azure_search_build env q c ps' w"
proof -
  note P = param_mset [OF assms] and B = body_order [OF assms]
  have body: "json_encode id (JObj (azure_body q ps)) = json_encode id (JObj (azure_body q ps'))"
    by (simp add: azure_body_def azureTitleField_def azureURLField_def azureSnippetField_def P Let_def B count_member_def
          del: json_encode.simps)
  then have post: "post_json t (JObj (azure_body q ps)) hs = post_json t (JObj (azure_body q ps')) hs" for t hs
    by (simp add: post_json_def)
  have target: "azure_target s i ps = azure_target s i ps'" for s i
    by (simp add: azure_target_def base_of_def P)
  show ?thesis unfolding azure_search_build_def P post target Let_def ..
qed

lemma catalog_extractP:
  "sp \<in> set restSpecs \<Longrightarrow> sp_extractP sp = Some f \<Longrightarrow> f = azure_search_extractP"
  unfolding restSpecs_def by (auto simp: spec_defs blank_spec_def)

lemma extractRows_order:
  assumes "sp \<in> set restSpecs" "\<And>k. param ps k = param ps' k"
  shows "extractRows sp data ps = extractRows sp data ps'"
proof (cases "sp_extractP sp")
  case None
  then show ?thesis by (simp add: extractRows_def)
next
  case (Some f)
  have "azure_row ps = azure_row ps'"
    by (rule ext) (simp add: azure_row_def azureTitleField_def azureURLField_def azureSnippetField_def assms(2))
  then show ?thesis using Some catalog_extractP [OF assms(1) Some] by (simp add: extractRows_def azure_search_extractP_def)
qed

lemma search_order:
  assumes "sp \<in> set restSpecs" "distinct (map fst ps)" "mset ps = mset ps'"
  shows "Search sp env q c ps w = Search sp env q c ps' w"
proof -
  note P = param_mset [OF assms(2,3)]
  have build: "buildRequest sp env q c ps w = buildRequest sp env q c ps' w"
  proof (cases "sp_build sp")
    case None
    then show ?thesis by (simp add: buildRequest_def defaultBuild_def plain_request_order [OF assms(2,3)])
  next
    case (Some b)
    then show ?thesis
      using catalog_build [OF assms(1) Some] catalog_builder_order [OF _ assms(2,3)] azure_build_order [OF assms(2,3)]
      by (auto simp: buildRequest_def)
  qed
  have "classify env sp ps now resp = classify env sp ps' now resp" for now resp
    unfolding classify_def extractRows_order [OF assms(1) P] http_failure_def retryHTTP_def fatalHTTP_def P Let_def ..
  then have c: "classify env sp ps = classify env sp ps'" by (intro ext)
  show ?thesis unfolding Search_def build maxRPSParam_def P Let_def c ..
qed

subsection \<open>Rows\<close>

definition linked :: "Row list \<Rightarrow> bool" where
  "linked rows \<longleftrightarrow> (\<forall>r \<in> set rows. row_Link r \<noteq> [])"

lemma linked_simps [simp]: "linked []" "linked (r # rs) \<longleftrightarrow> row_Link r \<noteq> [] \<and> linked rs" "linked (xs @ ys) \<longleftrightarrow> linked xs \<and> linked ys"
  by (auto simp: linked_def)

lemma linked_map_filter: "(\<And>x r. f x = Some r \<Longrightarrow> row_Link r \<noteq> []) \<Longrightarrow> linked (List.map_filter f xs)"
  by (induction xs) (auto simp: List.map_filter_simps split: option.splits)

lemma row_unless_blank_link: "row_unless_blank l t s = Some r \<Longrightarrow> row_Link r \<noteq> []"
  by (auto simp: row_unless_blank_def mk_row_def split: if_splits)

lemma toRow_link: "toRow m ks t ss = Some r \<Longrightarrow> row_Link r \<noteq> []"
  by (auto simp: toRow_def mk_row_def Let_def split: if_splits)

lemma linked_collectRows [simp]: "linked (collectRows v ks t ss)"
proof (cases v)
  case (JArr items)
  then show ?thesis
    by (auto simp: collectRows_def item_row_def intro!: linked_map_filter dest: toRow_link split: Option.bind_splits)
qed (simp_all add: collectRows_def)

lemma linked_rows_or_panic:
  "rows_or_panic rs = Some rows \<Longrightarrow> (\<And>r. Some (Some r) \<in> set rs \<Longrightarrow> row_Link r \<noteq> []) \<Longrightarrow> linked rows"
  by (induction rs arbitrary: rows) (auto split: option.splits)

lemma openalex_row_link: "openalex_row rm = Some (Some r) \<Longrightarrow> row_Link r \<noteq> []"
  by (auto simp: openalex_row_def mk_row_def split: if_splits)

lemma linked_openalex: "openalex_extract data = Some rows \<Longrightarrow> linked rows"
  unfolding openalex_extract_def
  by (erule linked_rows_or_panic) (auto dest!: openalex_row_link [OF sym])

lemma linked_youcom: "youcom_extract data = Some rows \<Longrightarrow> linked rows"
  by (auto simp: youcom_extract_def youcom_row_def Let_def intro!: linked_map_filter dest: toRow_link split: json.splits)

text \<open>The closures of the catalog other than the two that can panic.\<close>

definition total_extracts :: "(object \<Rightarrow> Row list option) list" where
  "total_extracts =
     [serpapi_extract, searchapi_extract, dataforseo_extract, firecrawl_extract, mojeek_extract, exa_extract,
      parallel_extract, kagi_extract, semanticscholar_extract, crossref_extract, github_extract, hn_extract,
      stackexchange_extract, vectara_extract, kendra_extract]"

lemma catalog_extracts:
  "map (\<lambda>sp. (sp_code sp, sp_extract sp)) restSpecs =
     [(''brave'', None), (''serper'', None), (''serpapi'', Some serpapi_extract),
      (''searchapi'', Some searchapi_extract), (''dataforseo'', Some dataforseo_extract), (''youcom'', Some youcom_extract),
      (''jina'', None), (''firecrawl'', Some firecrawl_extract), (''mojeek'', Some mojeek_extract),
      (''marginalia'', None), (''tavily'', None), (''exa'', Some exa_extract),
      (''linkup'', None), (''perplexity'', None), (''valyu'', None),
      (''parallel'', Some parallel_extract), (''ollama'', None), (''kagi'', Some kagi_extract),
      (''openalex'', Some openalex_extract), (''semanticscholar'', Some semanticscholar_extract), (''crossref'', Some crossref_extract),
      (''github'', Some github_extract), (''hn'', Some hn_extract), (''stackexchange'', Some stackexchange_extract),
      (''azure_search'', None), (''vectara'', Some vectara_extract), (''kendra'', Some kendra_extract)]"
  by (simp add: restSpecs_def spec_defs blank_spec_def)

lemma catalog_extract:
  assumes "sp \<in> set restSpecs" "sp_extract sp = Some f"
  shows "f = youcom_extract \<and> sp_code sp = ''youcom'' \<or> f = openalex_extract \<and> sp_code sp = ''openalex'' \<or> f \<in> set total_extracts"
proof -
  have "(sp_code sp, Some f) \<in> set (map (\<lambda>sp. (sp_code sp, sp_extract sp)) restSpecs)"
    using assms by (force simp flip: assms(2))
  then show ?thesis unfolding catalog_extracts total_extracts_def by auto
qed

lemma linked_row_functions:
  "exa_row o' = Some r \<Longrightarrow> row_Link r \<noteq> []" "parallel_row o' = Some r \<Longrightarrow> row_Link r \<noteq> []"
  "semanticscholar_row o' = Some r \<Longrightarrow> row_Link r \<noteq> []" "crossref_row o' = Some r \<Longrightarrow> row_Link r \<noteq> []"
  "github_row o' = Some r \<Longrightarrow> row_Link r \<noteq> []" "hn_row o' = Some r \<Longrightarrow> row_Link r \<noteq> []"
  "stackexchange_row o' = Some r \<Longrightarrow> row_Link r \<noteq> []" "vectara_row o' = Some r \<Longrightarrow> row_Link r \<noteq> []"
  "azure_row ps o' = Some r \<Longrightarrow> row_Link r \<noteq> []"
  by (simp_all add: exa_row_def parallel_row_def semanticscholar_row_def crossref_row_def github_row_def hn_row_def
        stackexchange_row_def vectara_row_def azure_row_def Let_def row_unless_blank_link)

lemma total_extract:
  assumes "f \<in> set total_extracts"
  shows "\<exists>rows. f data = Some rows \<and> linked rows"
  using assms unfolding total_extracts_def
  by (auto simp: serpapi_extract_def searchapi_extract_def dataforseo_extract_def firecrawl_extract_def mojeek_extract_def
        exa_extract_def parallel_extract_def kagi_extract_def semanticscholar_extract_def crossref_extract_def
        github_extract_def hn_extract_def stackexchange_extract_def vectara_extract_def kendra_extract_def Let_def
        intro!: linked_map_filter dest: linked_row_functions toRow_link split: json.splits)

lemma linked_concat: "(\<And>x. x \<in> set xss \<Longrightarrow> linked x) \<Longrightarrow> linked (concat xss)"
  by (auto simp: linked_def)

lemma catalog_rows_linked:
  assumes "sp \<in> set restSpecs" "extractRows sp data ps = Some rows"
  shows "linked rows"
proof (cases "sp_extractP sp")
  case (Some f)
  then have "rows = List.map_filter (azure_row ps) (objects_in (obj_get data ''value''))"
    using assms(2) catalog_extractP [OF assms(1) Some] by (simp add: extractRows_def azure_search_extractP_def)
  then show ?thesis by (auto intro!: linked_map_filter dest: linked_row_functions)
next
  case None
  show ?thesis
  proof (cases "sp_extract sp")
    case (Some f)
    with None assms(2) have f: "f data = Some rows" by (simp add: extractRows_def)
    from catalog_extract [OF assms(1) Some] show ?thesis
      using f linked_youcom linked_openalex total_extract [of f data] by auto
  next
    case e: None
    then show ?thesis
      using None assms(2) by (auto simp: extractRows_def Let_def intro!: linked_concat split: if_splits)
  qed
qed

text \<open>Only the closures of You.com and OpenAlex can panic.\<close>

lemma catalog_panics:
  assumes "sp \<in> set restSpecs" "extractRows sp data ps = None"
  shows "sp_code sp = ''youcom'' \<and> as_object (obj_get data ''results'') = None \<or> sp_code sp = ''openalex''"
proof (cases "sp_extractP sp")
  case (Some f)
  then show ?thesis
    using assms(2) catalog_extractP [OF assms(1) Some] by (simp add: extractRows_def azure_search_extractP_def)
next
  case None
  then obtain f where f: "sp_extract sp = Some f" "f data = None"
    using assms(2) by (auto simp: extractRows_def Let_def split: option.splits if_splits)
  have "as_object (obj_get data ''results'') = None" if "youcom_extract data = None"
    using that by (cases "obj_get data ''results''") (simp_all add: youcom_extract_def)
  then show ?thesis
    using catalog_extract [OF assms(1) f(1)] f(2) total_extract [of f data] by auto
qed

lemma youcom_panics:
  assumes "sp \<in> set restSpecs" "sp_code sp = ''youcom''"
  shows "extractRows sp data ps = None \<longleftrightarrow> as_object (obj_get data ''results'') = None"
proof -
  have "(''youcom'', sp_extract sp) \<in> set (map (\<lambda>sp. (sp_code sp, sp_extract sp)) restSpecs)"
    using assms by (force simp flip: assms(2))
  then have f: "sp_extract sp = Some youcom_extract" unfolding catalog_extracts by auto
  have "(sp_code sp, sp_extractP sp) \<in> set (map (\<lambda>sp. (sp_code sp, sp_extractP sp)) restSpecs)"
    using assms(1) by force
  then have "sp_extractP sp = None"
    using assms(2) by (auto simp: restSpecs_def spec_defs blank_spec_def)
  then show ?thesis
    using f by (cases "obj_get data ''results''") (simp_all add: extractRows_def youcom_extract_def)
qed

lemma catalog_panics_exactly:
  assumes "sp \<in> set restSpecs" "sp_code sp \<noteq> ''openalex''"
  shows "extractRows sp data ps = None \<longleftrightarrow> sp_code sp = ''youcom'' \<and> as_object (obj_get data ''results'') = None"
  using assms catalog_panics [OF assms(1)] youcom_panics [OF assms(1)] by blast

end
