(* ===== verification/Rest_Outcomes.thy ===== *)
theory Rest_Outcomes
  imports Rest_Facts
begin

text \<open>
  What comes of a REST search: when it is permanent, what a success is, how many requests it makes, and
  that a service decodes from the request what was put into it.
\<close>

subsection \<open>Classification\<close>

lemma throttle_result:
  "throttle sp resp body = Inl r \<Longrightarrow> r_Permanent r = False \<and> r_OK r = False \<and> r_Kind r = KindAPI \<and> r_Rows r = [] \<and> backoff_of sp body \<noteq> None"
  by (auto simp: throttle_def Let_def zero_result_def split: option.splits if_splits)

lemma http_failure_fields:
  "r_Permanent (http_failure env sp ps now resp body) \<longleftrightarrow>
     resp_Code resp \<in> set (fatalHTTP sp ps) \<or> resp_Code resp \<notin> set (retryHTTP sp ps) \<and> resp_Code resp < 500"
  "\<not> r_OK (http_failure env sp ps now resp body)" "r_Kind (http_failure env sp ps now resp body) = KindHTTP"
  by (auto simp: http_failure_def HTTPClassify_def zero_result_def)

lemma success_fields [simp]:
  "r_Permanent (success sp status ms data rows) = False" "r_OK (success sp status ms data rows)"
  "r_HTTPStatus (success sp status ms data rows) = status" "r_RetryAfterMS (success sp status ms data rows) = ms"
  by (simp_all add: success_def zero_result_def Let_def)

lemma classify_permanent:
  assumes "classify env sp ps now resp = Some r" "r_Permanent r"
  shows "\<not> IsJSONStatus (resp_Code resp) \<and>
    (resp_Code resp \<in> set (fatalHTTP sp ps) \<or> resp_Code resp \<notin> set (retryHTTP sp ps) \<and> resp_Code resp < 500)"
  using assms
  by (auto simp: classify_def Let_def http_failure_fields(1) zero_result_def dest: throttle_result
        split: sum.splits if_splits option.splits)

lemma classify_ok:
  assumes "classify env sp ps now resp = Some r" "r_OK r"
  obtains data rows where "IsJSONStatus (resp_Code resp)" "parseJSONObject (fst (ReadBody resp)) = Some data"
    "extractRows sp data ps = Some rows" "r = success sp (resp_Code resp) (r_RetryAfterMS r) data rows"
proof -
  obtain ms where t: "throttle sp resp (fst (ReadBody resp)) = Inr ms"
    using assms throttle_result by (cases "throttle sp resp (fst (ReadBody resp))") (auto simp: classify_def Let_def)
  have s: "IsJSONStatus (resp_Code resp)"
    using assms t http_failure_fields(2) by (auto simp: classify_def Let_def split: if_splits)
  obtain data where d: "parseJSONObject (fst (ReadBody resp)) = Some data"
    using assms t s by (cases "parseJSONObject (fst (ReadBody resp))") (auto simp: classify_def Let_def zero_result_def)
  obtain rows where "extractRows sp data ps = Some rows" "r = success sp (resp_Code resp) ms data rows"
    using assms t s d by (auto simp: classify_def Let_def)
  with that [OF s d] show thesis by simp
qed

text \<open>A search that ends permanently could not be built, or was refused by the service.\<close>

lemma search_permanent:
  assumes "Search sp env q c ps w = (Some r, w')" "r_Permanent r"
  shows "(\<exists>e. buildRequest sp env q c ps w = (Inl e, w')) \<or>
    (\<exists>req w1 resp. buildRequest sp env q c ps w = (Inr req, w1) \<and> Do env req w1 = (Answer resp, w') \<and>
       \<not> IsJSONStatus (resp_Code resp) \<and>
       (resp_Code resp \<in> set (fatalHTTP sp ps) \<or> resp_Code resp \<notin> set (retryHTTP sp ps) \<and> resp_Code resp < 500))"
proof -
  obtain b w1 where b: "buildRequest sp env q c ps w = (b, w1)" by fastforce
  show ?thesis
  proof (cases b)
    case (Inl e)
    then show ?thesis using assms b by (auto simp: Search_def)
  next
    case (Inr req)
    have wait: "WaitLimit env (sp_code sp) (maxRPSParam ps (sp_maxRPS sp)) w1 = None"
      using assms b Inr by (auto simp: Search_def zero_result_def split: option.splits)
    obtain x w2 where x: "Do env req w1 = (x, w2)" by fastforce
    obtain resp where resp: "x = Answer resp"
      using assms b Inr wait x by (cases x) (auto simp: Search_def zero_result_def)
    have "w' = w2" "classify env sp ps (de_now env (w_sent w2)) resp = Some r"
      using assms(1) b Inr wait x resp by (auto simp: Search_def)
    with classify_permanent [OF _ assms(2)] b Inr x resp show ?thesis by blast
  qed
qed

text \<open>A successful search has a 2xx answer, no error, and is empty exactly when it has no rows.\<close>

lemma catalog_isEmpty: "sp \<in> set restSpecs \<Longrightarrow> (case sp_isEmpty sp of Some f \<Rightarrow> f data rows | None \<Rightarrow> rows = []) \<longleftrightarrow> rows = []"
proof -
  have "set (map sp_isEmpty restSpecs) \<subseteq> {None, Some (\<lambda>data rows. rows = [])}"
    by (simp add: restSpecs_def spec_defs blank_spec_def)
  moreover assume "sp \<in> set restSpecs"
  then have "sp_isEmpty sp \<in> set (map sp_isEmpty restSpecs)" by (simp only: set_map imageI)
  ultimately have "sp_isEmpty sp \<in> {None, Some (\<lambda>data rows. rows = [])}" by (rule subsetD)
  then show ?thesis by auto
qed

lemma search_ok:
  assumes "sp \<in> set restSpecs" "Search sp env q c ps w = (Some r, w')" "r_OK r"
  shows "IsJSONStatus (r_HTTPStatus r) \<and> r_Error r = [] \<and> \<not> r_Permanent r \<and> linked (r_Rows r) \<and>
    r_Kind r = (if r_Rows r = [] then KindEmpty else KindOK)"
proof -
  obtain b w1 where b: "buildRequest sp env q c ps w = (b, w1)" by fastforce
  obtain req where Inr: "b = Inr req" using assms b by (cases b) (auto simp: Search_def fail_def zero_result_def)
  have wait: "WaitLimit env (sp_code sp) (maxRPSParam ps (sp_maxRPS sp)) w1 = None"
    using assms b Inr by (auto simp: Search_def zero_result_def split: option.splits)
  obtain x w2 where x: "Do env req w1 = (x, w2)" by fastforce
  obtain resp where resp: "x = Answer resp"
    using assms b Inr wait x by (cases x) (auto simp: Search_def zero_result_def)
  have "classify env sp ps (de_now env (w_sent w2)) resp = Some r"
    using assms(2) b Inr wait x resp by (auto simp: Search_def)
  then obtain data rows where *: "IsJSONStatus (resp_Code resp)" "extractRows sp data ps = Some rows"
    "r = success sp (resp_Code resp) (r_RetryAfterMS r) data rows"
    using assms(3) by (rule classify_ok)
  have "r_Rows (success sp s ms data rows) = rows" "r_Error (success sp s ms data rows) = []"
    "r_Kind (success sp s ms data rows) = (if rows = [] then KindEmpty else KindOK)" for s ms
    using catalog_isEmpty [OF assms(1), where data = data and rows = rows] by (simp_all add: success_def zero_result_def Let_def)
  then have "r_Rows r = rows" "r_Error r = []" "r_Kind r = (if rows = [] then KindEmpty else KindOK)"
    "r_HTTPStatus r = resp_Code resp" "\<not> r_Permanent r"
    using *(3) success_fields by metis+
  then show ?thesis using *(1) catalog_rows_linked [OF assms(1) *(2)] by simp
qed

subsection \<open>How many requests\<close>

definition sent_at_most :: "nat \<Rightarrow> world \<Rightarrow> world \<Rightarrow> bool" where
  "sent_at_most n w w' \<longleftrightarrow> (\<exists>rs. w_sent w' = w_sent w @ rs \<and> length rs \<le> n)"

lemma sent_none [simp]: "sent_at_most n w w"
  by (simp add: sent_at_most_def)

lemma sent_one: "w_sent w' = w_sent w @ [r] \<Longrightarrow> sent_at_most (Suc n) w w'"
  by (auto simp: sent_at_most_def)

lemma sent_trans: "sent_at_most m w w1 \<Longrightarrow> sent_at_most n w1 w2 \<Longrightarrow> sent_at_most (m + n) w w2"
  by (fastforce simp: sent_at_most_def)

lemma sent_mono: "sent_at_most m w w' \<Longrightarrow> m \<le> n \<Longrightarrow> sent_at_most n w w'"
  by (fastforce simp: sent_at_most_def)

lemma sent_put [simp]: "sent_at_most n w (put_source k tc w') = sent_at_most n w w'"
  by (simp add: sent_at_most_def)

lemma sent_cached [simp]: "sent_at_most n (cachedTokenSource k g w) w' = sent_at_most n w w'"
  by (simp add: sent_at_most_def cachedTokenSource_def)

lemma send_sends: "send env r w = (x, w') \<Longrightarrow> sent_at_most 1 w w'"
  using send_sent(1) [of env r w] by (auto intro: sent_one [of w' w r 0, simplified])

lemma Do_sends: "Do env r w = (x, w') \<Longrightarrow> sent_at_most 1 w w'"
  unfolding Do_def by (rule send_sends)

lemma postTokenForm_sends: "postTokenForm env u f w = (x, w') \<Longrightarrow> sent_at_most 1 w w'"
  by (auto simp: postTokenForm_def Let_def dest!: send_sends split: sum.splits prod.splits exchange.splits if_splits option.splits)

lemma fetch_grant_sends: "fetch_grant env g w = (x, w') \<Longrightarrow> sent_at_most 1 w w'"
  by (auto simp: fetch_grant_def googleJWTBearerToken_def Let_def dest!: postTokenForm_sends split: grant.splits sum.splits)

lemma source_token_sends: "source_token env k w = (x, w') \<Longrightarrow> sent_at_most 1 w w'"
  by (auto simp: source_token_def Token_def Let_def dest!: fetch_grant_sends split: option.splits if_splits prod.splits sum.splits)

lemma entraToken_sends: "entraToken env c w = (x, w') \<Longrightarrow> sent_at_most 1 w w'"
  by (auto simp: entraToken_def Let_def dest!: source_token_sends split: if_splits)

lemma azure_build_sends: "azure_search_build env q c ps w = (x, w') \<Longrightarrow> sent_at_most 1 w w'"
  by (auto simp: azure_search_build_def Let_def dest!: entraToken_sends split: if_splits sum.splits prod.splits)

lemma catalog_builder_sends: "b \<in> set catalog_builders \<Longrightarrow> snd (b env q c ps w) = w"
  unfolding catalog_builders_def
  by (auto simp: dataforseo_build_def jina_build_def linkup_build_def perplexity_build_def parallel_build_def ollama_build_def
        kagi_build_def semanticscholar_build_def github_build_def stackexchange_build_def vectara_build_def kendra_build_def
        pure_build_def)

lemma build_sends:
  assumes "sp \<in> set restSpecs" "buildRequest sp env q c ps w = (x, w')"
  shows "sent_at_most (if sp_code sp = ''azure_search'' then 1 else 0) w w'"
proof (cases "sp_build sp")
  case None
  then show ?thesis using assms by (simp add: buildRequest_def)
next
  case (Some b)
  then have b: "b env q c ps w = (x, w')" using assms by (simp add: buildRequest_def)
  from catalog_build [OF assms(1) Some] show ?thesis
  proof
    assume "b = azure_search_build \<and> sp_code sp = ''azure_search''"
    then show ?thesis using azure_build_sends b by simp
  next
    assume "b \<in> set catalog_builders"
    then have "w' = w" using catalog_builder_sends b by (metis snd_conv)
    then show ?thesis by simp
  qed
qed

lemma search_requests:
  assumes "sp \<in> set restSpecs"
  shows "sent_at_most (if sp_code sp = ''azure_search'' then 2 else 1) w (snd (Search sp env q c ps w))"
proof -
  obtain b w1 where b: "buildRequest sp env q c ps w = (b, w1)" by fastforce
  have one: "sent_at_most (if sp_code sp = ''azure_search'' then 1 else 0) w w1" by (rule build_sends [OF assms b])
  have step: "sent_at_most 1 w1 (snd (Search sp env q c ps w))"
  proof (cases b)
    case (Inl e)
    then show ?thesis using b by (simp add: Search_def)
  next
    case (Inr req)
    obtain x w2 where x: "Do env req w1 = (x, w2)" by fastforce
    have "snd (Search sp env q c ps w) \<in> {w1, w2}"
      using b Inr x by (cases x) (simp_all add: Search_def split: option.split)
    then show ?thesis using Do_sends [OF x] by auto
  qed
  show ?thesis
    using sent_trans [OF one step] by (cases "sp_code sp = ''azure_search''") (simp_all only: if_True if_False one_add_one add_0 simp_thms)
qed

end
