(* ===== verification/Serp_Drivers.thy ===== *)
theory Serp_Drivers
  imports Rest_Extract
begin

text \<open>
  The dedicated drivers of search services: \<open>apiserpent.go\<close>, \<open>serpbase.go\<close>, \<open>searxng.go\<close>,
  \<open>google_cse.go\<close>, \<open>deepseek.go\<close> and \<open>kimi.go\<close> of \<open>internal/providers\<close>. Each builds its request,
  makes one call and classifies the answer in its own way; what they do alike is defined once.
\<close>

subsection \<open>What the drivers do alike\<close>

type_synonym driver = "driver_env \<Rightarrow> Query \<Rightarrow> credentials \<Rightarrow> params \<Rightarrow> world \<Rightarrow> Result \<times> world"

definition failed :: "string \<Rightarrow> string \<Rightarrow> int \<Rightarrow> string \<Rightarrow> Result" where
  "failed code kind status msg =
     zero_result\<lparr>r_Kind := kind, r_Provider := code, r_HTTPStatus := status, r_Error := code @ '': '' @ msg\<rparr>"

definition found :: "string \<Rightarrow> int \<Rightarrow> Row list \<Rightarrow> Result" where
  "found code status rows =
     zero_result\<lparr>r_OK := True, r_Kind := KindOK, r_Rows := rows, r_Provider := code, r_HTTPStatus := status\<rparr>"

definition found_or_empty :: "string \<Rightarrow> int \<Rightarrow> Row list \<Rightarrow> Result" where
  "found_or_empty code status rows =
     (found code status rows)\<lparr>r_Kind := (if rows = [] then KindEmpty else KindOK)\<rparr>"

text \<open>One call: a transport or read failure, or the answer with its body.\<close>

definition fetch :: "string \<Rightarrow> driver_env \<Rightarrow> out_request \<Rightarrow> world \<Rightarrow> (Result + http_response \<times> string) \<times> world" where
  "fetch code env req w =
     (case Do env req w of
        (Transport_Error err, w1) \<Rightarrow>
          (Inl (failed code (ClassifyTransport (Some err)) 0 (client_redact (de_client env) (err_Message err))), w1)
      | (Broken_Body resp err, w1) \<Rightarrow>
          (Inl (failed code KindRead (resp_Code resp) (''body read failed: '' @ client_redact (de_client env) (err_Message err))), w1)
      | (Answer resp, w1) \<Rightarrow> (Inr (resp, fst (ReadBody resp)), w1))"

definition http_error_text :: "driver_env \<Rightarrow> http_response \<Rightarrow> string \<Rightarrow> string" where
  "http_error_text env resp body = HTTPError (de_client env) (resp_Code resp) (resp_Status resp) body"

definition not_json :: "string \<Rightarrow> driver_env \<Rightarrow> http_response \<Rightarrow> string \<Rightarrow> Result" where
  "not_json code env resp body =
     failed code KindJSON (resp_Code resp) (HTTPError (de_client env) (resp_Code resp) ''body is not a json object'' body)"

definition build_failed :: "string \<Rightarrow> string \<Rightarrow> Result" where
  "build_failed code e = fail KindNet False code (code @ '': build request: '' @ e)"

definition waiting_failed :: "string \<Rightarrow> go_error \<Rightarrow> Result" where
  "waiting_failed code err = failed code (ClassifyTransport (Some err)) 0 (''rate limiter wait: '' @ err_Message err)"

text \<open>
  A refusal classified by the retryable codes, made permanent by the fatal ones, with the wait the
  service asks for.
\<close>

definition refused :: "string \<Rightarrow> driver_env \<Rightarrow> int list \<Rightarrow> int list \<Rightarrow> time \<Rightarrow> http_response \<Rightarrow> string \<Rightarrow> Result" where
  "refused code env fatal retry now resp body =
     (failed code (fst (HTTPClassify (resp_Code resp) retry)) (resp_Code resp) (http_error_text env resp body))
       \<lparr>r_Permanent := (resp_Code resp \<in> set fatal \<or> snd (HTTPClassify (resp_Code resp) retry)),
        r_RetryAfterMS := retryAfterHeaderMS now resp\<rparr>"

subsection \<open>ApiSerpent\<close>

definition apiserpent_keys :: "json \<Rightarrow> Row list" where
  "apiserpent_keys v = collectRows v [''url'', ''link''] ''title'' [''snippet'', ''description'', ''content'']"

definition extractAPISerpentRows :: "object \<Rightarrow> Row list" where
  "extractAPISerpentRows data =
     (case obj_get data ''results'' of
        JObj t \<Rightarrow> apiserpent_keys (obj_get t ''organic'')
      | JArr t \<Rightarrow> apiserpent_keys (JArr t)
      | _ \<Rightarrow> apiserpent_keys (obj_get data ''organic''))"

definition apiserpent_values :: "Query \<Rightarrow> params \<Rightarrow> (string \<times> string) list" where
  "apiserpent_values q ps =
     [(''q'', q_Text q)] @ count_value q ''num'' (q_Count q)
     @ [(''country'', defaultStr (param ps ''country'') (defaultStr (q_Country q) ''us'')),
        (''engine'', defaultStr (param ps ''engine'') ''google'')]"

definition apiserpent_answer :: "driver_env \<Rightarrow> params \<Rightarrow> http_response \<Rightarrow> string \<Rightarrow> Result" where
  "apiserpent_answer env ps resp body =
     (let code = ''apiserpent''; retry = parseIntCSV (param ps ''retry_http_codes'') [429, 500, 502, 503, 504];
          apRetry = parseUpperCSV (param ps ''ap_retry_codes'') in
      if \<not> IsJSONStatus (resp_Code resp)
      then (failed code (fst (HTTPClassify (resp_Code resp) retry)) (resp_Code resp) (http_error_text env resp body))
             \<lparr>r_Permanent := snd (HTTPClassify (resp_Code resp) retry)\<rparr>
      else (case parseJSONObject body of
              None \<Rightarrow> not_json code env resp body
            | Some data \<Rightarrow>
                if \<not> asBool (obj_get data ''success'') True
                then (let apiCode = ToUpper (asString (obj_get data ''code'')) in
                      (failed code KindAPI (resp_Code resp)
                         (''success=false code='' @ apiCode @ '' message=''
                          @ client_redact (de_client env) (asString (obj_get data ''message''))))
                        \<lparr>r_Permanent := (apRetry \<noteq> [] \<and> apiCode \<notin> set apRetry)\<rparr>)
                else found code (resp_Code resp) (extractAPISerpentRows data)))"

definition apiserpent_Search :: driver where
  "apiserpent_Search env q c ps w =
     (let code = ''apiserpent''; engine = defaultStr (param ps ''engine'') ''google'';
          path = (if defaultStr (param ps ''mode'') ''quick'' = ''deep'' then ''/api/search'' else ''/api/search/quick'') in
      case Parse (base_of ps ''https://apiserpent.com'' @ path) of
        Inl e \<Rightarrow> (fail KindAPI True code (''apiserpent: invalid base url: '' @ e), w)
      | Inr endpoint \<Rightarrow>
          (case NewRequest ''GET''
              (URL_String (endpoint\<lparr>url_RawQuery := Values_Encode (set_all (apiserpent_values q ps) (ParseQuery (url_RawQuery endpoint)))\<rparr>)) None of
             Inl e \<Rightarrow> (build_failed code e, w)
           | Inr req \<Rightarrow>
               (case fetch code env (set_headers [(''X-API-Key'', cred c ''api_key''), (''Accept'', ''application/json'')] req) w of
                  (Inl r, w1) \<Rightarrow> (r\<lparr>r_Engine := engine\<rparr>, w1)
                | (Inr (resp, body), w1) \<Rightarrow> ((apiserpent_answer env ps resp body)\<lparr>r_Engine := engine\<rparr>, w1))))"

subsection \<open>SerpBase\<close>

definition serpbaseStatus :: "object \<Rightarrow> int option" where
  "serpbaseStatus data = (case obj_get data ''status'' of JNull \<Rightarrow> None | v \<Rightarrow> Some (asInt v))"

definition serpbase_retryable :: "params \<Rightarrow> int option \<Rightarrow> int \<Rightarrow> bool" where
  "serpbase_retryable ps status httpCode =
     (let fatalCodes = parseIntCSV (param ps ''fatal_codes'') [1000, 1001, 1004, 1020];
          fatalHTTP = parseIntCSV (param ps ''fatal_http'') [401, 403];
          retryHTTP = parseIntCSV (param ps ''retry_http_codes'') [429, 500, 502, 503, 504] in
      case status of
        None \<Rightarrow> httpCode \<notin> set fatalHTTP \<and> httpCode \<in> set retryHTTP
      | Some s \<Rightarrow> s \<notin> set fatalCodes \<and> s \<notin> set fatalHTTP)"

definition serpbase_refused :: "driver_env \<Rightarrow> params \<Rightarrow> http_response \<Rightarrow> string \<Rightarrow> Result" where
  "serpbase_refused env ps resp body =
     (let hit = resp_Code resp \<in> set (parseIntCSV (param ps ''fatal_http'') [401, 403]);
          parsed = parseJSONObject body;
          data = (case parsed of Some m \<Rightarrow> m | None \<Rightarrow> []);
          status = serpbaseStatus data;
          msg = ''HTTP '' @ Itoa (resp_Code resp) @ '' '' @ resp_Status resp
            @ (case (parsed, status) of
                 (Some _, Some s) \<Rightarrow> '' status='' @ Itoa s @ '' error='' @ client_redact (de_client env) (asString (obj_get data ''error''))
               | _ \<Rightarrow> '' '' @ HTTPError (de_client env) (resp_Code resp) [] body) in
      (failed ''serpbase'' (if parsed \<noteq> None \<and> status \<noteq> None \<and> \<not> hit then KindAPI else KindHTTP) (resp_Code resp) msg)
        \<lparr>r_Permanent := (hit \<or> \<not> serpbase_retryable ps status (resp_Code resp))\<rparr>)"

definition serpbase_answer :: "driver_env \<Rightarrow> params \<Rightarrow> http_response \<Rightarrow> string \<Rightarrow> Result" where
  "serpbase_answer env ps resp body =
     (if \<not> IsJSONStatus (resp_Code resp) then serpbase_refused env ps resp body
      else (case parseJSONObject body of
              None \<Rightarrow> not_json ''serpbase'' env resp body
            | Some data \<Rightarrow>
                (case serpbaseStatus data of
                   Some s \<Rightarrow>
                     if s \<noteq> 0
                     then (failed ''serpbase'' KindAPI (resp_Code resp)
                            (''HTTP '' @ Itoa (resp_Code resp) @ '' status='' @ Itoa s
                             @ '' error='' @ client_redact (de_client env) (asString (obj_get data ''error''))
                             @ '' request_id='' @ asString (obj_get data ''request_id'')))
                            \<lparr>r_Permanent := \<not> serpbase_retryable ps (Some s) (resp_Code resp)\<rparr>
                     else found ''serpbase'' (resp_Code resp)
                            (collectRows (obj_get data ''organic'') [''link'', ''url''] ''title'' [''snippet'', ''description'', ''content''])
                 | None \<Rightarrow> found ''serpbase'' (resp_Code resp)
                            (collectRows (obj_get data ''organic'') [''link'', ''url''] ''title'' [''snippet'', ''description'', ''content'']))))"

definition serpbase_Search :: driver where
  "serpbase_Search env q c ps w =
     (let gl = defaultStr (param ps ''gl'') (defaultStr (q_Country q) ''us'');
          hl = defaultStr (param ps ''hl'') (defaultStr (q_Lang q) ''en'') in
      case post_json (base_of ps ''https://api.serpbase.dev'' @ ''/google/search'')
             (JObj [(''q'', JStr (q_Text q)), (''hl'', JStr hl), (''gl'', JStr gl), (''page'', JNum ''1''), (''device'', JStr ''default'')])
             ([(''X-API-Key'', cred c ''api_key'')] @ json_headers @ [(''X-SerpBase-Source'', ''serpentseek'')]) of
        Inl e \<Rightarrow> (build_failed ''serpbase'' e, w)
      | Inr req \<Rightarrow>
          (case fetch ''serpbase'' env req w of
             (Inl r, w1) \<Rightarrow> (r, w1)
           | (Inr (resp, body), w1) \<Rightarrow> (serpbase_answer env ps resp body, w1)))"

subsection \<open>SearXNG\<close>

text \<open>A placeholder in the address takes the query; otherwise the query is a value.\<close>

definition expand_query :: "string \<Rightarrow> string \<Rightarrow> string \<times> bool" where
  "expand_query base query =
     (if Contains base ''{query}'' then (ReplaceAll base ''{query}'' (QueryEscape query), True)
      else if Contains base ''<query>'' then (ReplaceAll base ''<query>'' (QueryEscape query), True)
      else (base, False))"

definition buildSearxngURL :: "string \<Rightarrow> string \<Rightarrow> string \<Rightarrow> string" where
  "buildSearxngURL base query lang =
     (let (target, expanded) = expand_query base query in
      case Parse target of Inl _ \<Rightarrow> target
      | Inr u \<Rightarrow>
          (let v0 = ParseQuery (url_RawQuery u);
               v1 = (if expanded then v0 else Values_Set ''q'' query v0);
               v2 = (if Values_Get v1 ''format'' = [] then Values_Set ''format'' ''json'' v1 else v1);
               v3 = (if lang \<noteq> [] \<and> Values_Get v2 ''language'' = [] then Values_Set ''language'' lang v2 else v2)
           in URL_String (u\<lparr>url_RawQuery := Values_Encode v3\<rparr>)))"

definition searxng_hint :: "int \<Rightarrow> bool \<Rightarrow> string" where
  "searxng_hint status keyed =
     (if status = 401
      then (if keyed then '' -> SearXNG gate rejected X-API-Key (check SEARXNG_API_KEY)''
            else '' -> search requires auth: set SEARXNG_API_KEY or disable auth on SearXNG'')
      else if status = 403
      then (if keyed then '' -> gate rejected X-API-Key, verify SEARXNG_API_KEY''
            else '' -> enable json in SearXNG settings.yml (search.formats: [html, json])'')
      else if status = 429
      then '' -> SearXNG limiter (botdetection) is enabled for internal requests (set limiter: false)''
      else [])"

definition searxng_answer :: "driver_env \<Rightarrow> bool \<Rightarrow> http_response \<Rightarrow> string \<Rightarrow> Result" where
  "searxng_answer env keyed resp body =
     (if \<not> IsJSONStatus (resp_Code resp)
      then failed ''searxng'' KindHTTP (resp_Code resp) (http_error_text env resp body @ searxng_hint (resp_Code resp) keyed)
      else (case parseJSONObject body of
              None \<Rightarrow> not_json ''searxng'' env resp body
            | Some data \<Rightarrow>
                if as_array (obj_get data ''results'') = None \<and> asString (obj_get data ''error'') \<noteq> []
                then failed ''searxng'' KindAPI (resp_Code resp)
                       (''error='' @ client_redact (de_client env) (asString (obj_get data ''error'')))
                else found ''searxng'' (resp_Code resp)
                       (collectRows (obj_get data ''results'') [''url'', ''link''] ''title'' [''content'', ''snippet''])))"

definition searxng_Search :: driver where
  "searxng_Search env q c ps w =
     (let base = TrimSpace (param ps ''base_url'');
          key = or_else (TrimSpace (cred c ''api_key'')) (TrimSpace (param ps ''api_key'')) in
      if base = [] then (fail KindAPI True ''searxng'' ''searxng: external URL is not configured (set base_url or SEARXNG_URL)'', w)
      else (case NewRequest ''GET'' (buildSearxngURL base (q_Text q) (defaultStr (param ps ''language'') (q_Lang q))) None of
              Inl e \<Rightarrow> (build_failed ''searxng'' e, w)
            | Inr req \<Rightarrow>
                (case fetch ''searxng'' env
                    (set_headers ([(''Accept'', ''application/json''), (''X-Serpent-Source'', ''serpentseek'')]
                       @ (if key \<noteq> [] then [(''X-API-Key'', key)] else [])) req) w of
                   (Inl r, w1) \<Rightarrow> (r, w1)
                 | (Inr (resp, body), w1) \<Rightarrow> (searxng_answer env (key \<noteq> []) resp body, w1))))"

subsection \<open>Google Custom Search\<close>

definition google_cse_values :: "Query \<Rightarrow> credentials \<Rightarrow> params \<Rightarrow> (string \<times> string) list" where
  "google_cse_values q c ps =
     (let num = capped 10 (q_Count q); start = TrimSpace (param ps ''start'') in
      [(''key'', cred c ''api_key''), (''cx'', or_else (cred c ''cx'') (param ps ''cx'')), (''q'', q_Text q)]
      @ (if num > 0 then [(''num'', Itoa num)] else [])
      @ (if start \<noteq> [] then [(''start'', start)] else [])
      @ (if q_Lang q \<noteq> [] then [(''hl'', q_Lang q)] else [])
      @ (if q_Country q \<noteq> [] then [(''gl'', q_Country q)] else []))"

definition google_cse_answer :: "driver_env \<Rightarrow> params \<Rightarrow> http_response \<Rightarrow> string \<Rightarrow> Result" where
  "google_cse_answer env ps resp body =
     (let code = ''google_cse''; fatal = parseIntCSV (param ps ''fatal_http'') [400, 401, 403];
          retry = parseIntCSV (param ps ''retry_http_codes'') [429, 500, 502, 503, 504] in
      if \<not> IsJSONStatus (resp_Code resp)
      then (failed code (fst (HTTPClassify (resp_Code resp) retry)) (resp_Code resp) (http_error_text env resp body))
             \<lparr>r_Permanent := (resp_Code resp \<in> set fatal)\<rparr>
      else (case parseJSONObject body of
              None \<Rightarrow> not_json code env resp body
            | Some data \<Rightarrow>
                (case obj_get data ''error'' of
                   JObj e \<Rightarrow> (failed code KindAPI (resp_Code resp)
                               (''error='' @ client_redact (de_client env) (asString (obj_get e ''message''))))\<lparr>r_Permanent := True\<rparr>
                 | _ \<Rightarrow> found code (resp_Code resp) (collectRows (obj_get data ''items'') [''link''] ''title'' [''snippet'']))))"

definition google_cse_Search :: driver where
  "google_cse_Search env q c ps w =
     (let base = defaultStr (param ps ''base_url'') ''https://www.googleapis.com/customsearch/v1'' in
      case NewRequest ''GET'' (base @ ''?'' @ Values_Encode (set_all (google_cse_values q c ps) [])) None of
        Inl e \<Rightarrow> (build_failed ''google_cse'' e, w)
      | Inr req \<Rightarrow>
          (case fetch ''google_cse'' env (put_header ''Accept'' ''application/json'' req) w of
             (Inl r, w1) \<Rightarrow> (r, w1)
           | (Inr (resp, body), w1) \<Rightarrow> (google_cse_answer env ps resp body, w1)))"

subsection \<open>Calls with a bearer key\<close>

text \<open>\<open>deepseekCall\<close> and \<open>kimiCall\<close> are the same code: the decoded answer with its status, or a failure.\<close>

definition bearer_call ::
    "string \<Rightarrow> driver_env \<Rightarrow> string \<Rightarrow> string \<Rightarrow> object \<Rightarrow> int list \<Rightarrow> int list \<Rightarrow> world \<Rightarrow> (Result + object \<times> int) \<times> world" where
  "bearer_call code env target apiKey payload fatal retry w =
     (case post_json target (JObj payload) ([(''Authorization'', ''Bearer '' @ apiKey)] @ json_headers) of
        Inl e \<Rightarrow> (Inl (build_failed code e), w)
      | Inr req \<Rightarrow>
          (case fetch code env req w of
             (Inl r, w1) \<Rightarrow> (Inl r, w1)
           | (Inr (resp, body), w1) \<Rightarrow>
               if \<not> IsJSONStatus (resp_Code resp)
               then (Inl (refused code env fatal retry (de_now env (w_sent w1)) resp body), w1)
               else (case parseJSONObject body of
                       None \<Rightarrow> (Inl (not_json code env resp body), w1)
                     | Some data \<Rightarrow> (Inr (data, resp_Code resp), w1))))"

definition deepseekCall ::
    "string \<Rightarrow> driver_env \<Rightarrow> string \<Rightarrow> string \<Rightarrow> object \<Rightarrow> int list \<Rightarrow> int list \<Rightarrow> world \<Rightarrow> (Result + object \<times> int) \<times> world" where
  "deepseekCall = bearer_call"

definition kimiCall ::
    "string \<Rightarrow> driver_env \<Rightarrow> string \<Rightarrow> string \<Rightarrow> object \<Rightarrow> int list \<Rightarrow> int list \<Rightarrow> world \<Rightarrow> (Result + object \<times> int) \<times> world" where
  "kimiCall = bearer_call"

abbreviation unlimited :: float64 where
  "unlimited \<equiv> Finite 0"

definition flag_member :: "string \<Rightarrow> bool \<Rightarrow> object" where
  "flag_member key b = (if b then [(key, JBool True)] else [])"

subsection \<open>DeepSeek\<close>

definition deepseekCount :: "int \<Rightarrow> int" where
  "deepseekCount n = (if n > 50 then 50 else n)"

definition deepseek_row :: "bool \<Rightarrow> object \<Rightarrow> Row option" where
  "deepseek_row needContent m =
     (let content = firstString m [''content'']; summary = firstString m [''summary'', ''snippet''] in
      row_unless_blank (firstString m [''url'']) (firstString m [''title''])
        (if needContent \<and> content \<noteq> [] then content else summary))"

definition deepseekRows :: "object \<Rightarrow> bool \<Rightarrow> Row list" where
  "deepseekRows data needContent = List.map_filter (deepseek_row needContent) (objects_in (obj_get data ''results''))"

definition deepseek_Search :: driver where
  "deepseek_Search env q c ps w =
     (let code = ''deepseek_search'';
          fatal = parseIntCSV (param ps ''fatal_http'') [400, 401, 402, 403, 404];
          retry = parseIntCSV (param ps ''retry_http_codes'') [408, 429, 500, 502, 503, 504];
          needContent = asBool (JStr (param ps ''need_content'')) False in
      case WaitLimit env code (maxRPSParam ps unlimited) w of
        Some err \<Rightarrow> (waiting_failed code err, w)
      | None \<Rightarrow>
          (case deepseekCall code env (base_of ps ''https://api.deepseek.com'' @ ''/v1/tools/search'') (TrimSpace (cred c ''api_key''))
              ([(''query'', JStr (q_Text q))] @ count_member q ''count'' (deepseekCount (q_Count q))
               @ optional_member ''ori_question'' (TrimSpace (param ps ''ori_question''))
               @ optional_member ''localization'' (TrimSpace (param ps ''localization''))
               @ flag_member ''need_content'' needContent) fatal retry w of
             (Inl r, w1) \<Rightarrow> (r, w1)
           | (Inr (data, status), w1) \<Rightarrow> (found_or_empty code status (deepseekRows data needContent), w1)))"

subsection \<open>Kimi\<close>

definition kimiBaseURL :: "params \<Rightarrow> string" where
  "kimiBaseURL ps =
     (let region = defaultStr (param ps ''region'') [] in
      if region = ''intl'' then ''https://api.moonshot.ai''
      else if region = ''cn'' then ''https://api.moonshot.cn''
      else defaultStr (param ps ''base_url'') ''https://api.moonshot.ai'')"

definition kimiCount :: "int \<Rightarrow> int" where
  "kimiCount n = (if n > 20 then 20 else n)"

definition kimi_timeout :: "params \<Rightarrow> object" where
  "kimi_timeout ps =
     (let v = TrimSpace (param ps ''timeout_seconds'') in
      if v = [] then []
      else (case Atoi v of Some n \<Rightarrow> if 1 \<le> n \<and> n \<le> 60 then [(''timeout_seconds'', JNum (Itoa n))] else [] | None \<Rightarrow> []))"

definition kimiSites :: "string \<Rightarrow> string list" where
  "kimiSites raw = take 5 (parseCSV raw)"

definition kimiTimeWindow :: "string \<Rightarrow> string \<Rightarrow> object option" where
  "kimiTimeWindow from until =
     (let s = TrimSpace from; e = TrimSpace until in
      if s = [] \<and> e = [] then None else Some (optional_member ''start'' s @ optional_member ''end'' e))"

definition kimi_basic_row :: "bool \<Rightarrow> object \<Rightarrow> Row option" where
  "kimi_basic_row includeContent m =
     (let txt = asString (obj_get m ''text'') in
      row_unless_blank (firstString m [''url'']) (firstString m [''title''])
        (if includeContent \<and> txt \<noteq> [] then txt else firstString m [''snippet'']))"

definition kimiBasicRows :: "object \<Rightarrow> bool \<Rightarrow> Row list" where
  "kimiBasicRows data includeContent =
     List.map_filter (kimi_basic_row includeContent) (objects_in (obj_get data ''search_results''))"

definition kimiChunkSnippet :: "object \<Rightarrow> string" where
  "kimiChunkSnippet m =
     Join (filter (\<lambda>s. s \<noteq> []) (map (\<lambda>cm. asString (obj_get cm ''text'')) (objects_in (obj_get m ''chunks''))))
       ('' '' @ ellipsis @ '' '')"

definition kimi_pro_row :: "object \<Rightarrow> Row option" where
  "kimi_pro_row m =
     row_unless_blank (firstString m [''url'']) (firstString m [''title''])
       (or_else (kimiChunkSnippet m) (firstString m [''snippet'']))"

definition kimiProRows :: "object \<Rightarrow> Row list" where
  "kimiProRows data = List.map_filter kimi_pro_row (objects_in (obj_get data ''search_results''))"

definition kimi_search ::
    "string \<Rightarrow> string \<Rightarrow> (params \<Rightarrow> object) \<Rightarrow> (params \<Rightarrow> object \<Rightarrow> Row list) \<Rightarrow> driver" where
  "kimi_search code path extra rows env q c ps w =
     (let fatal = parseIntCSV (param ps ''fatal_http'') [400, 401, 403];
          retry = parseIntCSV (param ps ''retry_http_codes'') commonRetry in
      case WaitLimit env code (maxRPSParam ps unlimited) w of
        Some err \<Rightarrow> (waiting_failed code err, w)
      | None \<Rightarrow>
          (case kimiCall code env (TrimRight (kimiBaseURL ps) CHR ''/'' @ path) (TrimSpace (cred c ''api_key''))
              ([(''text_query'', JStr (q_Text q))] @ count_member q ''limit'' (kimiCount (q_Count q)) @ kimi_timeout ps @ extra ps)
              fatal retry w of
             (Inl r, w1) \<Rightarrow> (r, w1)
           | (Inr (data, status), w1) \<Rightarrow> (found_or_empty code status (rows ps data), w1)))"

definition include_content :: "params \<Rightarrow> bool" where
  "include_content ps = asBool (JStr (param ps ''include_content'')) False"

definition kimi_Search :: driver where
  "kimi_Search =
     kimi_search ''kimi_search'' ''/v1/tools/search'' (\<lambda>ps. flag_member ''include_content'' (include_content ps))
       (\<lambda>ps data. kimiBasicRows data (include_content ps))"

definition kimi_pro_extra :: "params \<Rightarrow> object" where
  "kimi_pro_extra ps =
     (let sites = kimiSites (param ps ''sites'') in if sites \<noteq> [] then [(''sites'', JArr (map JStr sites))] else [])
     @ (case kimiTimeWindow (param ps ''time_window_start'') (param ps ''time_window_end'') of
          Some tw \<Rightarrow> [(''time_window'', JObj tw)] | None \<Rightarrow> [])"

definition kimi_pro_Search :: driver where
  "kimi_pro_Search = kimi_search ''kimi_search_pro'' ''/v1/tools/search_pro'' kimi_pro_extra (\<lambda>ps. kimiProRows)"

end
