(* ===== verification/Answer_Drivers.thy ===== *)
theory Answer_Drivers
  imports Serp_Drivers
begin

text \<open>
  The drivers that answer with text or need a token: \<open>anthropic.go\<close>, \<open>google_vertex.go\<close> (Gemini
  grounding and the dispatcher), \<open>vertex_search.go\<close> and the generative part of \<open>yandex.go\<close>.
\<close>

subsection \<open>Anthropic\<close>

definition positive_or :: "int \<Rightarrow> int \<Rightarrow> int" where
  "positive_or n def = (if n \<le> 0 then def else n)"

definition strings_json :: "string list \<Rightarrow> json" where
  "strings_json xs = JArr (map JStr xs)"

definition anthropic_fetches :: "params \<Rightarrow> int" where
  "anthropic_fetches ps = parseInt (defaultStr (param ps ''max_fetches'') ''0'') 0"

text \<open>The allowed domains win over the blocked ones.\<close>

definition anthropic_tools :: "params \<Rightarrow> json list" where
  "anthropic_tools ps =
     (let maxUses = positive_or (parseInt (defaultStr (param ps ''max_uses'') ''5'') 5) 5;
          allowed = parseCSV (param ps ''allowed_domains''); blocked = parseCSV (param ps ''blocked_domains'');
          fetches = anthropic_fetches ps in
      [JObj ([(''type'', JStr ''web_search_20250305''), (''name'', JStr ''web_search''), (''max_uses'', JNum (Itoa maxUses))]
         @ (if allowed \<noteq> [] then [(''allowed_domains'', strings_json allowed)]
            else if blocked \<noteq> [] then [(''blocked_domains'', strings_json blocked)] else []))]
      @ (if fetches > 0
         then [JObj [(''type'', JStr ''web_fetch_20250910''), (''name'', JStr ''web_fetch''), (''max_uses'', JNum (Itoa fetches))]]
         else []))"

definition anthropic_body :: "string \<Rightarrow> Query \<Rightarrow> params \<Rightarrow> object" where
  "anthropic_body model q ps =
     [(''model'', JStr model),
      (''max_tokens'', JNum (Itoa (positive_or (parseInt (defaultStr (param ps ''max_tokens'') ''1024'') 1024) 1024))),
      (''messages'', JArr [JObj [(''role'', JStr ''user''), (''content'', JStr (q_Text q))]]),
      (''tools'', JArr (anthropic_tools ps))]"

definition anthropicAnswer :: "object \<Rightarrow> string" where
  "anthropicAnswer data =
     TrimSpace (Join (filter (\<lambda>t. t \<noteq> [])
       (map (\<lambda>bm. asString (obj_get bm ''text''))
          (filter (\<lambda>bm. asString (obj_get bm ''type'') = ''text'') (objects_in (obj_get data ''content''))))) [CHR 0x0A])"

text \<open>The link, title and snippet of every source named, in order; \<open>add\<close> keeps the first of a link.\<close>

definition anthropic_candidates :: "object \<Rightarrow> (string \<times> string \<times> string) list" where
  "anthropic_candidates bm =
     (let t = asString (obj_get bm ''type'') in
      if t = ''text''
      then map (\<lambda>cm. (firstString cm [''url''], firstString cm [''title''], firstString cm [''cited_text'']))
             (objects_in (obj_get bm ''citations''))
      else if t = ''web_search_tool_result''
      then map (\<lambda>rm. (firstString rm [''url''], firstString rm [''title''], firstString rm [''snippet'']))
             (filter (\<lambda>rm. asString (obj_get rm ''type'') = ''web_search_result'') (objects_in (obj_get bm ''content'')))
      else [])"

definition add_source :: "Row list \<Rightarrow> string \<times> string \<times> string \<Rightarrow> Row list" where
  "add_source rows = (\<lambda>(link, title, snippet).
     let l = TrimSpace link in
     if l = [] \<or> l \<in> row_Link ` set rows then rows else rows @ [mk_row l (TrimSpace title) (TrimSpace snippet)])"

definition anthropicSources :: "object \<Rightarrow> Row list" where
  "anthropicSources data =
     foldl add_source [] (concat (map anthropic_candidates (objects_in (obj_get data ''content''))))"

definition answered :: "string \<Rightarrow> int \<Rightarrow> string \<Rightarrow> Row list \<Rightarrow> Result" where
  "answered code status answer rows =
     (found code status rows)\<lparr>r_Kind := (if answer = [] then KindEmpty else KindOK), r_Answer := answer\<rparr>"

definition anthropic_Search :: driver where
  "anthropic_Search env q c ps w =
     (let code = ''anthropic''; model = TrimSpace (param ps ''model'');
          fatal = parseIntCSV (param ps ''fatal_http'') [400, 401, 403];
          retry = parseIntCSV (param ps ''retry_http_codes'') commonRetry in
      if model = [] then (fail KindAPI True code ''anthropic: model is required'', w)
      else (case WaitLimit env code (maxRPSParam ps unlimited) w of
              Some err \<Rightarrow> (waiting_failed code err, w)
            | None \<Rightarrow>
                (case post_json (base_of ps ''https://api.anthropic.com'' @ ''/v1/messages'') (JObj (anthropic_body model q ps))
                    (json_headers @ [(''anthropic-version'', ''2023-06-01'')]
                     @ (if anthropic_fetches ps > 0 then [(''anthropic-beta'', ''web-fetch-2025-09-10'')] else [])
                     @ key_header c ''x-api-key'' []) of
                   Inl e \<Rightarrow> (build_failed code e, w)
                 | Inr req \<Rightarrow>
                     (case fetch code env req w of
                        (Inl r, w1) \<Rightarrow> (r, w1)
                      | (Inr (resp, body), w1) \<Rightarrow>
                          if \<not> IsJSONStatus (resp_Code resp)
                          then (refused code env fatal retry (de_now env (w_sent w1)) resp body, w1)
                          else (case parseJSONObject body of
                                  None \<Rightarrow> (not_json code env resp body, w1)
                                | Some data \<Rightarrow> (answered code (resp_Code resp) (anthropicAnswer data) (anthropicSources data), w1))))))"

subsection \<open>Vertex AI Search\<close>

definition vertexSearchBody :: "Query \<Rightarrow> params \<Rightarrow> object" where
  "vertexSearchBody q ps =
     [(''query'', JStr (q_Text q)),
      (''contentSearchSpec'', JObj [(''snippetSpec'', JObj [(''returnSnippet'', JBool True)])]),
      (''safeSearch'', JBool False)]
     @ count_member q ''pageSize'' (q_Count q)
     @ (let v = param ps ''queryExpansionSpec.condition'' in
        if v \<noteq> [] then [(''queryExpansionSpec'', JObj [(''condition'', JStr v)])] else [])
     @ (let v = param ps ''spellCorrectionSpec.mode'' in
        if v \<noteq> [] then [(''spellCorrectionSpec'', JObj [(''mode'', JStr v)])] else [])"

definition vertex_row :: "object \<Rightarrow> Row option" where
  "vertex_row rm =
     (let derived = members_of (obj_get (members_of (obj_get rm ''document'')) ''derivedStructData'');
          snippet = (case obj_get derived ''snippets'' of JArr (JObj sm # _) \<Rightarrow> firstString sm [''snippet''] | _ \<Rightarrow> []) in
      row_unless_blank (firstString derived [''link'', ''url'']) (firstString derived [''title'']) snippet)"

definition extractVertexRows :: "object \<Rightarrow> Row list" where
  "extractVertexRows data = List.map_filter vertex_row (objects_in (obj_get data ''results''))"

definition vertex_target :: "params \<Rightarrow> string" where
  "vertex_target ps =
     base_of ps ''https://discoveryengine.googleapis.com''
     @ ''/v1/projects/'' @ PathEscape (TrimSpace (param ps ''project_id''))
     @ ''/locations/'' @ PathEscape (defaultStr (param ps ''location'') ''global'')
     @ ''/collections/'' @ PathEscape (defaultStr (param ps ''collection'') ''default_collection'')
     @ ''/engines/'' @ PathEscape (TrimSpace (param ps ''engine_id''))
     @ ''/servingConfigs/'' @ PathEscape (defaultStr (param ps ''serving_config'') ''default_search'') @ '':search''"

text \<open>
  \<open>doCall\<close>: one attempt with a token; the status, the body and the error of the attempt. An error
  of the address has no cause but its text.
\<close>

definition plain_error :: "string \<Rightarrow> go_error" where
  "plain_error msg = \<lparr>err_DeadlineExceeded = False, err_NetTimeout = False, err_Message = msg\<rparr>"

definition vertex_call ::
    "driver_env \<Rightarrow> Query \<Rightarrow> params \<Rightarrow> string \<Rightarrow> world \<Rightarrow> (int \<times> string \<times> go_error option) \<times> world" where
  "vertex_call env q ps token w =
     (case WaitLimit env ''vertex_search'' (maxRPSParam ps unlimited) w of
        Some err \<Rightarrow> ((0, [], Some err), w)
      | None \<Rightarrow>
          (case post_json (vertex_target ps) (JObj (vertexSearchBody q ps))
                  ([(''Authorization'', ''Bearer '' @ token)] @ json_headers) of
             Inl e \<Rightarrow> ((0, [], Some (plain_error e)), w)
           | Inr req \<Rightarrow>
               (case Do env req w of
                  (Transport_Error err, w1) \<Rightarrow> ((0, [], Some err), w1)
                | (Broken_Body resp err, w1) \<Rightarrow> ((resp_Code resp, [], Some err), w1)
                | (Answer resp, w1) \<Rightarrow> ((resp_Code resp, fst (ReadBody resp), None), w1))))"

definition vertex_outcome :: "driver_env \<Rightarrow> params \<Rightarrow> int \<Rightarrow> string \<Rightarrow> go_error option \<Rightarrow> Result" where
  "vertex_outcome env ps status body err =
     (let code = ''vertex_search'' in
      case err of
        Some e \<Rightarrow> failed code (ClassifyTransport (Some e)) status (client_redact (de_client env) (err_Message e))
      | None \<Rightarrow>
          if \<not> IsJSONStatus status
          then (let (kind, permanent) = HTTPClassify status (parseIntCSV (param ps ''retry_http_codes'') commonRetry) in
                (failed code kind status (HTTPError (de_client env) status [] body))
                  \<lparr>r_Permanent := (status \<in> set (parseIntCSV (param ps ''fatal_http'') [400, 401, 403, 404]) \<or> permanent)\<rparr>)
          else (case parseJSONObject body of
                  None \<Rightarrow> failed code KindJSON status (HTTPError (de_client env) status ''body is not a json object'' body)
                | Some data \<Rightarrow> found_or_empty code status (extractVertexRows data)))"

text \<open>A refused token is dropped and fetched once more.\<close>

definition vertex_attempts :: "string \<Rightarrow> driver_env \<Rightarrow> Query \<Rightarrow> params \<Rightarrow> world \<Rightarrow> Result \<times> world" where
  "vertex_attempts key env q ps w =
     (let code = ''vertex_search'' in
      case source_token env key w of
        (Inl e, w1) \<Rightarrow> (fail KindAPI True code (''vertex_search: token: '' @ e), w1)
      | (Inr token, w1) \<Rightarrow>
          (case vertex_call env q ps token w1 of
             ((status, body, err), w2) \<Rightarrow>
               if status = 401
               then (case source_token env key (Invalidate key w2) of
                       (Inl e, w3) \<Rightarrow> (fail KindAPI True code (''vertex_search: token refresh: '' @ e), w3)
                     | (Inr token', w3) \<Rightarrow>
                         (case vertex_call env q ps token' w3 of
                            ((status', body', err'), w4) \<Rightarrow> (vertex_outcome env ps status' body' err', w4)))
               else (vertex_outcome env ps status body err, w2)))"

definition vertex_search_Search :: driver where
  "vertex_search_Search env q c ps w =
     (let code = ''vertex_search'' in
      if TrimSpace (param ps ''project_id'') = [] \<or> TrimSpace (param ps ''engine_id'') = []
      then (fail KindAPI True code ''vertex_search: project_id and engine_id params are required'', w)
      else (case vertexTokenSource env (cred c ''service_account_json'') w of
              (Inl e, w1) \<Rightarrow> (fail KindAPI True code (''vertex_search: '' @ e), w1)
            | (Inr key, w1) \<Rightarrow> vertex_attempts key env q ps w1))"

subsection \<open>Gemini grounding\<close>

text \<open>The characters of a valid UTF-8 text: a continuation byte belongs to the one before it.\<close>

function runes :: "string \<Rightarrow> string list" where
  "runes [] = []"
| "runes (c # cs) =
     (let tail = takeWhile (\<lambda>d. 128 \<le> byte d \<and> byte d < 192) cs
      in (c # tail) # runes (dropWhile (\<lambda>d. 128 \<le> byte d \<and> byte d < 192) cs))"
  by pat_completeness auto
termination
  by (relation "measure length") (auto simp: le_imp_less_Suc length_dropWhile_le)

definition citationSnippet :: "string \<Rightarrow> int \<Rightarrow> int \<Rightarrow> string" where
  "citationSnippet text start fin =
     (if text = [] \<or> start < 0 \<or> fin \<le> start then []
      else let rs = runes text in
        if start \<ge> int (length rs) then []
        else let e = (if fin > int (length rs) then int (length rs) else fin)
             in TrimSpace (concat (take (nat (e - start)) (drop (nat start) rs))))"

definition model_outputs :: "object \<Rightarrow> object list" where
  "model_outputs data =
     concat (map (\<lambda>sm. objects_in (obj_get sm ''content''))
       (filter (\<lambda>sm. asString (obj_get sm ''type'') = ''model_output'') (objects_in (obj_get data ''steps''))))"

definition extractGroundingText :: "object \<Rightarrow> string" where
  "extractGroundingText data =
     Join (filter (\<lambda>t. t \<noteq> [])
       (map (\<lambda>cm. TrimSpace (asString (obj_get cm ''text'')))
          (filter (\<lambda>cm. asString (obj_get cm ''type'') = ''text'') (model_outputs data)))) [CHR 0x0A]"

definition citations_of :: "object \<Rightarrow> (string \<times> string \<times> string) list" where
  "citations_of cm =
     map (\<lambda>am. (firstString am [''url''], firstString am [''title''],
            citationSnippet (asString (obj_get cm ''text'')) (asInt (obj_get am ''start_index'')) (asInt (obj_get am ''end_index''))))
       (filter (\<lambda>am. asString (obj_get am ''type'') = ''url_citation'') (objects_in (obj_get cm ''annotations'')))"

definition add_citation :: "Row list \<Rightarrow> string \<times> string \<times> string \<Rightarrow> Row list" where
  "add_citation rows = (\<lambda>(link, title, snippet).
     if link = [] \<or> link \<in> row_Link ` set rows then rows else rows @ [mk_row link title snippet])"

definition extractGroundingRows :: "object \<Rightarrow> Row list" where
  "extractGroundingRows data = foldl add_citation [] (concat (map citations_of (model_outputs data)))"

definition grounding_body :: "string \<Rightarrow> Query \<Rightarrow> object" where
  "grounding_body model q =
     [(''model'', JStr model), (''input'', JStr (q_Text q)), (''tools'', JArr [JObj [(''type'', JStr ''google_search'')]])]"

definition grounding_answer :: "driver_env \<Rightarrow> params \<Rightarrow> http_response \<Rightarrow> string \<Rightarrow> Result" where
  "grounding_answer env ps resp body =
     (let code = ''google_vertex''; fatal = parseIntCSV (param ps ''fatal_http'') [400, 401, 403];
          retry = parseIntCSV (param ps ''retry_http_codes'') [429, 500, 502, 503, 504] in
      if \<not> IsJSONStatus (resp_Code resp)
      then (failed code (fst (HTTPClassify (resp_Code resp) retry)) (resp_Code resp) (http_error_text env resp body))
             \<lparr>r_Permanent := (resp_Code resp \<in> set fatal)\<rparr>
      else (case parseJSONObject body of
              None \<Rightarrow> not_json code env resp body
            | Some data \<Rightarrow>
                (let rows = extractGroundingRows data; answer = extractGroundingText data in
                 (found code (resp_Code resp) rows)
                   \<lparr>r_Kind := (if rows = [] \<and> answer = [] then KindEmpty else KindOK), r_Answer := answer\<rparr>)))"

definition searchGrounding :: driver where
  "searchGrounding env q c ps w =
     (case post_json (base_of ps ''https://generativelanguage.googleapis.com'' @ ''/v1beta/interactions'')
             (JObj (grounding_body (defaultStr (param ps ''model'') ''gemini-3.8-flash'') q))
             (json_headers @ [(''x-goog-api-key'', TrimSpace (cred c ''api_key''))]) of
        Inl e \<Rightarrow> (build_failed ''google_vertex'' e, w)
      | Inr req \<Rightarrow>
          (case fetch ''google_vertex'' env req w of
             (Inl r, w1) \<Rightarrow> (r, w1)
           | (Inr (resp, body), w1) \<Rightarrow> (grounding_answer env ps resp body, w1)))"

definition fill_param :: "string \<Rightarrow> string \<Rightarrow> params \<Rightarrow> params" where
  "fill_param k v ps = (if param ps k = [] then AList.update k v ps else ps)"

definition searchEnterprise :: driver where
  "searchEnterprise env q c ps w =
     (let merged = fill_param ''engine_id'' (cred c ''engine_id'') (fill_param ''project_id'' (cred c ''project_id'') ps) in
      case vertex_search_Search env q c merged w of (r, w1) \<Rightarrow> (r\<lparr>r_Provider := ''google_vertex''\<rparr>, w1))"

definition google_vertex_Search :: driver where
  "google_vertex_Search env q c ps w =
     (let mode = ToLower (defaultStr (param ps ''driver_mode'') (defaultStr (param ps ''driver'') ''gemini'')) in
      if mode \<in> set [''enterprise'', ''vertex_search'', ''search''] then searchEnterprise env q c ps w
      else searchGrounding env q c ps w)"

definition google_dispatcher_Search :: driver where
  "google_dispatcher_Search env q c ps w =
     (let d = ToLower (defaultStr (param ps ''driver'') ''vertex'') in
      if d \<in> set [''cse'', ''customsearch'', ''legacy''] then google_cse_Search env q c ps w
      else if d \<in> set [''vertex_search'', ''enterprise'', ''search'']
      then google_vertex_Search env q c (AList.update ''driver_mode'' ''enterprise'' ps) w
      else google_vertex_Search env q c ps w)"

subsection \<open>Yandex generative search\<close>

definition yandexGenAnswer :: "object \<Rightarrow> string" where
  "yandexGenAnswer data =
     or_else (firstString data [''answer'', ''text'']) (firstString (members_of (obj_get data ''message'')) [''text'', ''answer''])"

definition yandex_source :: "object \<Rightarrow> Row option" where
  "yandex_source m =
     row_unless_blank (firstString m [''url'', ''link'']) (firstString m [''title'', ''name'']) (firstString m [''snippet'', ''description''])"

text \<open>The first list of sources that gives a row.\<close>

definition yandexGenSources :: "object \<Rightarrow> Row list" where
  "yandexGenSources data =
     (case filter (\<lambda>rows. rows \<noteq> [])
         (map (\<lambda>key. List.map_filter yandex_source (objects_in (obj_get data key)))
            [''sources'', ''references'', ''search_results'', ''searchResults'']) of
        [] \<Rightarrow> [] | rows # _ \<Rightarrow> rows)"

definition yandex_gen_body :: "Query \<Rightarrow> credentials \<Rightarrow> params \<Rightarrow> object" where
  "yandex_gen_body q c ps =
     [(''query'', JObj [(''searchType'', JStr (defaultStr (param ps ''search_type'') ''SEARCH_TYPE_RU'')),
         (''queryText'', JStr (q_Text q)),
         (''familyMode'', JStr (defaultStr (param ps ''family_mode'') ''FAMILY_MODE_NONE'')),
         (''getPartialResults'', JBool False)]),
      (''folderId'', JStr (or_else (cred c ''folder_id'') (param ps ''folder_id'')))]"

definition yandex_gen_Search :: driver where
  "yandex_gen_Search env q c ps w =
     (let code = ''yandex_gen''; fatal = parseIntCSV (param ps ''fatal_http'') [400, 401, 403];
          retry = parseIntCSV (param ps ''retry_http_codes'') [429, 500, 502, 503, 504] in
      case post_json (base_of ps ''https://searchapi.api.cloud.yandex.net'' @ ''/v2/gen/search'') (JObj (yandex_gen_body q c ps))
             ([(''Authorization'', ''Api-Key '' @ cred c ''api_key'')] @ json_headers) of
        Inl e \<Rightarrow> (build_failed code e, w)
      | Inr req \<Rightarrow>
          (case fetch code env req w of
             (Inl r, w1) \<Rightarrow> (r, w1)
           | (Inr (resp, body), w1) \<Rightarrow>
               if \<not> IsJSONStatus (resp_Code resp)
               then (refused code env fatal retry (de_now env (w_sent w1)) resp body, w1)
               else (case parseJSONObject body of
                       None \<Rightarrow> (not_json code env resp body, w1)
                     | Some data \<Rightarrow>
                         (let answer = yandexGenAnswer data; rows = yandexGenSources data in
                          ((found code (resp_Code resp) rows)
                             \<lparr>r_Kind := (if rows = [] \<and> answer = [] then KindEmpty else KindOK), r_Answer := answer\<rparr>, w1)))))"

end
