(* ===== verification/Driver_Facts.thy ===== *)
theory Driver_Facts
  imports Rest_Outcomes Answer_Drivers
begin

text \<open>
  What the dedicated drivers have in common with the REST ones: a success comes with a 2xx answer, no
  error and rows that have links; a failure is no success; the number of requests is bounded; and the
  sources of an answer are listed once.
\<close>

subsection \<open>Honest results\<close>

definition honest :: "Result \<Rightarrow> bool" where
  "honest r \<longleftrightarrow> (if r_OK r then IsJSONStatus (r_HTTPStatus r) \<and> r_Error r = [] \<and> \<not> r_Permanent r \<and> linked (r_Rows r)
     else r_Rows r = [] \<and> r_Kind r \<noteq> KindOK \<and> r_Kind r \<noteq> KindEmpty)"

lemma ClassifyTransport_kind [simp]: "ClassifyTransport (Some e) \<noteq> KindOK" "ClassifyTransport (Some e) \<noteq> KindEmpty"
  by (simp_all add: ClassifyTransport_def Let_def)

lemma honest_failed [simp]:
  "honest (failed code kind status msg) \<longleftrightarrow> kind \<noteq> KindOK \<and> kind \<noteq> KindEmpty"
  "honest ((failed code kind status msg)\<lparr>r_Permanent := p\<rparr>) \<longleftrightarrow> kind \<noteq> KindOK \<and> kind \<noteq> KindEmpty"
  "honest ((failed code kind status msg)\<lparr>r_Permanent := p, r_RetryAfterMS := ms\<rparr>) \<longleftrightarrow> kind \<noteq> KindOK \<and> kind \<noteq> KindEmpty"
  "honest (fail kind p code msg) \<longleftrightarrow> kind \<noteq> KindOK \<and> kind \<noteq> KindEmpty"
  by (auto simp: honest_def failed_def fail_def zero_result_def)

lemma honest_engine [simp]: "honest (r\<lparr>r_Engine := e\<rparr>) = honest r" "honest (r\<lparr>r_Provider := e\<rparr>) = honest r"
  by (simp_all add: honest_def)

lemma honest_found [simp]:
  "honest (found code status rows) \<longleftrightarrow> IsJSONStatus status \<and> linked rows"
  "honest (found_or_empty code status rows) \<longleftrightarrow> IsJSONStatus status \<and> linked rows"
  "honest (answered code status answer rows) \<longleftrightarrow> IsJSONStatus status \<and> linked rows"
  "honest ((found code status rows)\<lparr>r_Kind := k, r_Answer := a\<rparr>) \<longleftrightarrow> IsJSONStatus status \<and> linked rows"
  by (auto simp: honest_def found_or_empty_def answered_def found_def zero_result_def)

lemma honest_common [simp]:
  "honest (not_json code env resp body)" "honest (build_failed code e)" "honest (waiting_failed code err)"
  "honest (refused code env fatal retry now resp body)"
  by (auto simp: not_json_def build_failed_def waiting_failed_def refused_def KindJSON_def HTTPClassify_def)

lemma HTTPClassify_kind [simp]: "fst (HTTPClassify status retry) = KindHTTP"
  by (simp add: HTTPClassify_def)

lemma fetch_honest: "fetch code env req w = (Inl r, w') \<Longrightarrow> honest r"
  by (auto simp: fetch_def KindRead_def split: prod.splits exchange.splits)

lemma fetch_sends: "fetch code env req w = (x, w') \<Longrightarrow> sent_at_most 1 w w'"
  by (auto simp: fetch_def dest!: Do_sends split: prod.splits exchange.splits)

lemma bearer_call_honest:
  "bearer_call code env t k p fatal retry w = (Inl r, w') \<Longrightarrow> honest r"
  "bearer_call code env t k p fatal retry w = (Inr (data, status), w') \<Longrightarrow> IsJSONStatus status"
  by (auto simp: bearer_call_def dest!: fetch_honest split: sum.splits prod.splits if_splits option.splits)

lemma bearer_call_sends: "bearer_call code env t k p fatal retry w = (x, w') \<Longrightarrow> sent_at_most 1 w w'"
  by (auto simp: bearer_call_def dest!: fetch_sends split: sum.splits prod.splits if_splits option.splits)

subsection \<open>Rows with links\<close>

lemma linked_dedicated [simp]:
  "linked (extractAPISerpentRows data)" "linked (deepseekRows data b)" "linked (kimiBasicRows data b)"
  "linked (kimiProRows data)" "linked (extractVertexRows data)"
  by (auto simp: extractAPISerpentRows_def apiserpent_keys_def deepseekRows_def deepseek_row_def kimiBasicRows_def
        kimi_basic_row_def kimiProRows_def kimi_pro_row_def extractVertexRows_def vertex_row_def Let_def
        intro!: linked_map_filter dest: row_unless_blank_link split: json.splits)

lemma first_nonempty_linked:
  assumes "\<And>x. x \<in> set xss \<Longrightarrow> linked x"
  shows "linked (case filter P xss of [] \<Rightarrow> [] | rows # _ \<Rightarrow> rows)"
proof (cases "filter P xss")
  case (Cons rows rest)
  then have "rows \<in> set (filter P xss)" by simp
  then have "rows \<in> set xss" by simp
  with assms Cons show ?thesis by simp
qed simp

lemma linked_yandexGen [simp]: "linked (yandexGenSources data)"
  unfolding yandexGenSources_def
  by (rule first_nonempty_linked)
     (auto simp: yandex_source_def intro!: linked_map_filter dest: row_unless_blank_link)

text \<open>The sources of an answer: every link once.\<close>

definition listed_once :: "Row list \<Rightarrow> bool" where
  "listed_once rows \<longleftrightarrow> distinct (map row_Link rows) \<and> linked rows"

lemma listed_once_fold:
  assumes "\<And>rows x. listed_once rows \<Longrightarrow> listed_once (f rows x)" "listed_once rows"
  shows "listed_once (foldl f rows xs)"
  using assms(2) by (induction xs arbitrary: rows) (auto simp: assms(1))

lemma add_source_once: "listed_once rows \<Longrightarrow> listed_once (add_source rows x)"
  by (cases x) (auto simp: add_source_def listed_once_def mk_row_def Let_def)

lemma add_citation_once: "listed_once rows \<Longrightarrow> listed_once (add_citation rows x)"
  by (cases x) (auto simp: add_citation_def listed_once_def mk_row_def)

lemma anthropic_once: "listed_once (anthropicSources data)"
  unfolding anthropicSources_def by (rule listed_once_fold [OF add_source_once]) (simp_all add: listed_once_def)

lemma grounding_once: "listed_once (extractGroundingRows data)"
  unfolding extractGroundingRows_def by (rule listed_once_fold [OF add_citation_once]) (simp_all add: listed_once_def)

lemma linked_answer_sources [simp]: "linked (anthropicSources data)" "linked (extractGroundingRows data)"
  using anthropic_once grounding_once by (simp_all add: listed_once_def)

subsection \<open>Every dedicated driver\<close>

lemma apiserpent_honest: "honest (fst (apiserpent_Search env q c ps w))"
  by (auto simp: apiserpent_Search_def apiserpent_answer_def Let_def dest!: fetch_honest
        split: sum.split prod.split option.split)

lemma serpbase_answer_honest: "honest (serpbase_answer env ps resp body)"
  by (auto simp: serpbase_answer_def serpbase_refused_def Let_def split: option.split)

lemma serpbase_honest: "honest (fst (serpbase_Search env q c ps w))"
  by (auto simp: serpbase_Search_def serpbase_answer_honest Let_def dest!: fetch_honest split: sum.split prod.split)

lemma searxng_honest: "honest (fst (searxng_Search env q c ps w))"
  by (auto simp: searxng_Search_def searxng_answer_def Let_def dest!: fetch_honest split: sum.split prod.split option.split)

lemma google_cse_honest: "honest (fst (google_cse_Search env q c ps w))"
  by (auto simp: google_cse_Search_def google_cse_answer_def Let_def dest!: fetch_honest
        split: sum.split prod.split option.split json.split)

lemma deepseek_honest: "honest (fst (deepseek_Search env q c ps w))"
  by (auto simp: deepseek_Search_def deepseekCall_def Let_def dest!: bearer_call_honest split: sum.split prod.split option.split)

lemma kimi_search_honest: "(\<And>ps data. linked (rows ps data)) \<Longrightarrow> honest (fst (kimi_search code path extra rows env q c ps w))"
  by (auto simp: kimi_search_def kimiCall_def Let_def dest!: bearer_call_honest split: sum.split prod.split option.split)

lemma anthropic_honest: "honest (fst (anthropic_Search env q c ps w))"
  by (auto simp: anthropic_Search_def Let_def dest!: fetch_honest split: sum.split prod.split option.split)

lemma yandex_gen_honest: "honest (fst (yandex_gen_Search env q c ps w))"
  by (auto simp: yandex_gen_Search_def Let_def dest!: fetch_honest split: sum.split prod.split option.split)

lemma vertex_outcome_honest: "honest (vertex_outcome env ps status body err)"
  by (auto simp: vertex_outcome_def KindJSON_def HTTPClassify_def Let_def split: option.split)

lemma vertex_attempts_honest: "honest (fst (vertex_attempts key env q ps w))"
  by (auto simp: vertex_attempts_def vertex_outcome_honest Let_def split: sum.split prod.split)

lemma vertex_honest: "honest (fst (vertex_search_Search env q c ps w))"
  by (auto simp: vertex_search_Search_def vertex_attempts_honest Let_def split: sum.split prod.split)

lemma google_vertex_honest: "honest (fst (google_vertex_Search env q c ps w))"
proof -
  have "honest (fst (searchGrounding env q c ps w))"
    by (auto simp: searchGrounding_def grounding_answer_def Let_def dest!: fetch_honest split: sum.split prod.split option.split)
  moreover have "honest (fst (searchEnterprise env q c ps w))"
    using vertex_honest by (auto simp: searchEnterprise_def Let_def split: prod.split) (metis fst_conv)
  ultimately show ?thesis by (simp add: google_vertex_Search_def Let_def)
qed

lemma google_dispatcher_honest: "honest (fst (google_dispatcher_Search env q c ps w))"
  by (simp add: google_dispatcher_Search_def google_cse_honest google_vertex_honest Let_def)

text \<open>The dedicated drivers by code.\<close>

definition dedicated_drivers :: "(string \<times> driver) list" where
  "dedicated_drivers =
     [(''apiserpent'', apiserpent_Search), (''serpbase'', serpbase_Search), (''searxng'', searxng_Search),
      (''yandex_gen'', yandex_gen_Search), (''google_vertex'', google_vertex_Search), (''google_cse'', google_cse_Search),
      (''google'', google_dispatcher_Search), (''vertex_search'', vertex_search_Search), (''anthropic'', anthropic_Search),
      (''kimi_search'', kimi_Search), (''kimi_search_pro'', kimi_pro_Search), (''deepseek_search'', deepseek_Search)]"

lemma dedicated_honest:
  assumes "(code, d) \<in> set dedicated_drivers"
  shows "honest (fst (d env q c ps w))"
  using assms unfolding dedicated_drivers_def
  by (auto simp: apiserpent_honest serpbase_honest searxng_honest yandex_gen_honest google_vertex_honest google_cse_honest
        google_dispatcher_honest vertex_honest anthropic_honest deepseek_honest kimi_Search_def kimi_pro_Search_def
        intro!: kimi_search_honest)

subsection \<open>Requests of a driver\<close>

lemma vertex_call_sends: "vertex_call env q ps token w = (x, w') \<Longrightarrow> sent_at_most 1 w w'"
  by (auto simp: vertex_call_def dest!: Do_sends split: option.splits sum.splits prod.splits exchange.splits)

lemma Invalidate_sent [simp]: "sent_at_most n (Invalidate k w) w' = sent_at_most n w w'"
  by (simp add: Invalidate_def sent_at_most_def split: option.split)

lemma vertex_attempts_sends: "sent_at_most 4 w (snd (vertex_attempts key env q ps w))"
proof -
  obtain x1 w1 where 1: "source_token env key w = (x1, w1)" by fastforce
  show ?thesis
  proof (cases x1)
    case (Inl e)
    then show ?thesis using source_token_sends [OF 1] 1 by (auto simp: vertex_attempts_def intro: sent_mono)
  next
    case (Inr token)
    obtain status body err w2 where 2: "vertex_call env q ps token w1 = ((status, body, err), w2)" by (metis prod_cases3 surj_pair)
    have two: "sent_at_most 2 w w2"
      using sent_trans [OF source_token_sends [OF 1] vertex_call_sends [OF 2]] by (simp only: one_add_one)
    show ?thesis
    proof (cases "status = 401")
      case False
      then show ?thesis using two 1 2 Inr by (auto simp: vertex_attempts_def intro: sent_mono)
    next
      case True
      obtain x3 w3 where 3: "source_token env key (Invalidate key w2) = (x3, w3)" by fastforce
      have three: "sent_at_most 1 w2 w3" using source_token_sends [OF 3] by simp
      show ?thesis
      proof (cases x3)
        case (Inl e)
        then have "snd (vertex_attempts key env q ps w) = w3" using 1 2 3 Inr True by (simp add: vertex_attempts_def)
        then show ?thesis using sent_mono [OF sent_trans [OF two three], of 4] by simp
      next
        case (Inr token')
        obtain y w4 where 4: "vertex_call env q ps token' w3 = (y, w4)" by fastforce
        then have "snd (vertex_attempts key env q ps w) = w4"
          using 1 2 3 Inr True \<open>x1 = Inr token\<close> by (cases y) (simp add: vertex_attempts_def)
        then show ?thesis
          using sent_mono [OF sent_trans [OF sent_trans [OF two three] vertex_call_sends [OF 4]], of 4] by simp
      qed
    qed
  qed
qed

lemma vertexTokenSource_sends: "vertexTokenSource env raw w = (x, w') \<Longrightarrow> w_sent w' = w_sent w"
  by (auto simp: vertexTokenSource_def cachedTokenSource_def Let_def split: if_splits option.splits sum.splits)

lemma vertex_requests: "sent_at_most 4 w (snd (vertex_search_Search env q c ps w))"
proof -
  obtain x w1 where 1: "vertexTokenSource env (cred c ''service_account_json'') w = (x, w1)" by fastforce
  have same: "sent_at_most n w v = sent_at_most n w1 v" for n v
    using vertexTokenSource_sends [OF 1] by (simp add: sent_at_most_def)
  have still: "sent_at_most 4 w1 w" using same [of 4 w] by simp
  show ?thesis
    using 1 still vertex_attempts_sends [of w1] by (cases x) (simp_all add: vertex_search_Search_def Let_def same)
qed

end
