(* ===== verification/Driver_Schemas.thy ===== *)
theory Driver_Schemas
  imports Rest_Driver
begin

text \<open>
  The configuration forms of the dedicated drivers: the \<open>Schema\<close> methods of \<open>internal/providers\<close>.
\<close>

definition schema_apiserpent :: ProviderSchema where
  "schema_apiserpent =
     \<lparr>sch_Code = ''apiserpent'', sch_Name = ''ApiSerpent'', sch_Deprecated = False, sch_DefaultBaseURL = ''https://apiserpent.com'',
      sch_Credentials = [\<lparr>cf_Key = ''api_key'', cf_Multiline = False\<rparr>],
      sch_Params = [selectParam ''mode'' ''Search mode'' ''quick'' [(''Quick'', ''quick''), (''Deep'', ''deep'')],
         selectParam ''engine'' ''Engine'' ''google'' [(''Google'', ''google''), (''Bing'', ''bing''), (''Yahoo'', ''yahoo''), (''DuckDuckGo'', ''ddg''), (''Brave'', ''brave'')],
         param_field ParamTypeText ''country'' ''Country'' ''us'' [],
         param_field ParamTypeText ''ap_retry_codes'' ''Retry error codes'' [] ''Temporary API error codes; empty = retry any''],
      sch_Hints = [''Create a separate provider instance for each engine.'',
         ''num/country/language are taken from the request when available.'']\<rparr>"

definition schema_serpbase :: ProviderSchema where
  "schema_serpbase =
     \<lparr>sch_Code = ''serpbase'', sch_Name = ''SerpBase'', sch_Deprecated = False, sch_DefaultBaseURL = ''https://api.serpbase.dev'',
      sch_Credentials = [\<lparr>cf_Key = ''api_key'', cf_Multiline = False\<rparr>],
      sch_Params = [param_field ParamTypeText ''hl'' ''Interface language'' ''en'' [],
         param_field ParamTypeText ''gl'' ''Country code'' ''us'' [],
         param_field ParamTypeText ''fatal_codes'' ''Fatal status codes'' ''1000,1001,1004,1020'' [],
         param_field ParamTypeText ''fatal_http'' ''Fatal HTTP codes'' ''401,403'' [],
         param_field ParamTypeText ''retry_http_codes'' ''Retry HTTP codes'' ''429,500,502,503,504'' []],
      sch_Hints = []\<rparr>"

definition schema_searxng :: ProviderSchema where
  "schema_searxng =
     \<lparr>sch_Code = ''searxng'', sch_Name = ''SearXNG'', sch_Deprecated = False, sch_DefaultBaseURL = [],
      sch_Credentials = [\<lparr>cf_Key = ''api_key'', cf_Multiline = False\<rparr>],
      sch_Params = [param_field ParamTypeText ''language'' ''Language'' [] ''Optional interface language code''],
      sch_Hints = [(''The optional X-API-Key is a gate/proxy token, not SearXNG'' @ [CHR 0x27] @ ''s server.secret_key.''),
         ''Instance must enable JSON format: search.formats: [html, json].'']\<rparr>"

definition schema_yandex :: ProviderSchema where
  "schema_yandex =
     \<lparr>sch_Code = ''yandex'', sch_Name = ''Yandex Search API'', sch_Deprecated = False, sch_DefaultBaseURL = ''https://searchapi.api.cloud.yandex.net'',
      sch_Credentials = [\<lparr>cf_Key = ''api_key'', cf_Multiline = False\<rparr>, \<lparr>cf_Key = ''folder_id'', cf_Multiline = False\<rparr>],
      sch_Params = [selectParam ''search_type'' ''Search type'' ''SEARCH_TYPE_RU'' [(''RU'', ''SEARCH_TYPE_RU''), (''TR'', ''SEARCH_TYPE_TR''), (''COM'', ''SEARCH_TYPE_COM'')],
         selectParam ''family_mode'' ''Family mode'' ''FAMILY_MODE_NONE'' [(''None'', ''FAMILY_MODE_NONE''), (''Moderate'', ''FAMILY_MODE_MODERATE''), (''Strict'', ''FAMILY_MODE_STRICT'')],
         param_field ParamTypeNumber ''max_passages'' ''Max passages'' ''3'' (''1'' @ [CHR 0xE2, CHR 0x80, CHR 0x93] @ ''5, controls the snippet length''),
         param_field ParamTypeText ''region'' ''Region'' [] ''Yandex region code, e.g. 213 = Moscow'',
         param_field ParamTypeText ''xml_empty_codes'' ''XML empty codes'' ''15'' (''<error code> values treated as '' @ [CHR 0xE2, CHR 0x80, CHR 0x9C] @ ''no results'' @ [CHR 0xE2, CHR 0x80, CHR 0x9D]),
         param_field ParamTypeText ''xml_retry_codes'' ''XML retry codes'' [] ''<error code> values treated as transient (quota/overload); empty = unknown codes are permanent'',
         selectParam ''l10n'' ''Localization'' [] [(''Auto'', []), (''RU'', ''LOCALIZATION_RU''), (''EN'', ''LOCALIZATION_EN''), (''UK'', ''LOCALIZATION_UK''), (''BE'', ''LOCALIZATION_BE''), (''KK'', ''LOCALIZATION_KK''), (''TR'', ''LOCALIZATION_TR'')],
         param_field ParamTypeNumber ''max_rps'' ''Max requests/sec'' [] ''Per-driver rate limit override'',
         param_field ParamTypeText ''fatal_http'' ''Fatal HTTP codes'' ''400,401,403'' [],
         param_field ParamTypeText ''retry_http_codes'' ''Retry HTTP codes'' ''429,500,502,503,504'' []],
      sch_Hints = [''Uses /v2/web/search with responseFormat=FORMAT_XML; the answer arrives as base64-encoded XML in rawData and is parsed locally.'',
         (''XML error code 15 means '' @ [CHR 0xE2, CHR 0x80, CHR 0x9C] @ ''no results'' @ [CHR 0xE2, CHR 0x80, CHR 0x9D] @ '' and maps to an empty result.'')]\<rparr>"

definition schema_yandex_gen :: ProviderSchema where
  "schema_yandex_gen =
     \<lparr>sch_Code = ''yandex_gen'', sch_Name = ''Yandex AI Studio (generative answer)'', sch_Deprecated = False, sch_DefaultBaseURL = ''https://searchapi.api.cloud.yandex.net'',
      sch_Credentials = [\<lparr>cf_Key = ''api_key'', cf_Multiline = False\<rparr>, \<lparr>cf_Key = ''folder_id'', cf_Multiline = False\<rparr>],
      sch_Params = [selectParam ''search_type'' ''Search type'' ''SEARCH_TYPE_RU'' [(''RU'', ''SEARCH_TYPE_RU''), (''TR'', ''SEARCH_TYPE_TR''), (''COM'', ''SEARCH_TYPE_COM'')],
         selectParam ''family_mode'' ''Family mode'' ''FAMILY_MODE_NONE'' [(''None'', ''FAMILY_MODE_NONE''), (''Moderate'', ''FAMILY_MODE_MODERATE''), (''Strict'', ''FAMILY_MODE_STRICT'')],
         param_field ParamTypeText ''fatal_http'' ''Fatal HTTP codes'' ''400,401,403'' [],
         param_field ParamTypeText ''retry_http_codes'' ''Retry HTTP codes'' ''429,500,502,503,504'' []],
      sch_Hints = [''Generative answer endpoint /v2/gen/search: put this driver on an answer-mode node so the generated text lands in the request answer panel.'',
         ''Cited sources are returned as sparse rows (link+title).'']\<rparr>"

definition schema_google_vertex :: ProviderSchema where
  "schema_google_vertex =
     \<lparr>sch_Code = ''google_vertex'', sch_Name = ''Google / Vertex AI'', sch_Deprecated = False, sch_DefaultBaseURL = ''https://generativelanguage.googleapis.com'',
      sch_Credentials = [\<lparr>cf_Key = ''api_key'', cf_Multiline = False\<rparr>, multiline_credential ''service_account_json'', \<lparr>cf_Key = ''project_id'', cf_Multiline = False\<rparr>, \<lparr>cf_Key = ''engine_id'', cf_Multiline = False\<rparr>],
      sch_Params = [selectParam ''driver_mode'' ''Driver mode'' ''gemini'' [(''Gemini grounding'', ''gemini''), (''Vertex AI Search'', ''vertex_search''), (''Enterprise'', ''enterprise''), (''Search'', ''search'')],
         param_field ParamTypeText ''model'' ''Gemini model'' ''gemini-3.8-flash'' [],
         param_field ParamTypeText ''fatal_http'' ''Fatal HTTP codes'' ''400,401,403'' [],
         param_field ParamTypeText ''retry_http_codes'' ''Retry HTTP codes'' ''429,500,502,503,504'' [],
         param_field ParamTypeText ''location'' ''Location'' ''global'' ''For Vertex AI Search'',
         param_field ParamTypeText ''serving_config'' ''Serving config'' ''default_search'' ''For Vertex AI Search''],
      sch_Hints = [''Gemini mode uses the api_key directly (Interactions API /v1beta/interactions).'',
         ''Vertex/Enterprise mode uses OAuth2: set service_account_json plus project_id/engine_id; Vertex AI Search does not accept API keys.'']\<rparr>"

definition schema_google_cse :: ProviderSchema where
  "schema_google_cse =
     \<lparr>sch_Code = ''google_cse'', sch_Name = ''Google Custom Search (legacy)'', sch_Deprecated = True, sch_DefaultBaseURL = ''https://www.googleapis.com/customsearch/v1'',
      sch_Credentials = [\<lparr>cf_Key = ''api_key'', cf_Multiline = False\<rparr>, \<lparr>cf_Key = ''cx'', cf_Multiline = False\<rparr>],
      sch_Params = [param_field ParamTypeNumber ''start'' ''Start index'' [] ''1-91; pagination start index'',
         param_field ParamTypeText ''fatal_http'' ''Fatal HTTP codes'' ''400,401,403'' [],
         param_field ParamTypeText ''retry_http_codes'' ''Retry HTTP codes'' ''429,500,502,503,504'' []],
      sch_Hints = [''Legacy API closed to new customers, shuts down 2027-01-01.'',
         ''Hard limit 10 results per page; pagination is not implemented in this driver.'']\<rparr>"

definition schema_google :: ProviderSchema where
  "schema_google =
     \<lparr>sch_Code = ''google'', sch_Name = ''Google (dispatcher)'', sch_Deprecated = False, sch_DefaultBaseURL = [],
      sch_Credentials = [\<lparr>cf_Key = ''api_key'', cf_Multiline = False\<rparr>, multiline_credential ''service_account_json'', \<lparr>cf_Key = ''cx'', cf_Multiline = False\<rparr>, \<lparr>cf_Key = ''project_id'', cf_Multiline = False\<rparr>, \<lparr>cf_Key = ''engine_id'', cf_Multiline = False\<rparr>],
      sch_Params = [selectParam ''driver'' ''Driver'' ''vertex'' [(''Vertex / Gemini'', ''vertex''), (''Vertex AI Search'', ''vertex_search''), (''Custom Search (legacy)'', ''cse''), (''Custom Search'', ''customsearch''), (''Legacy'', ''legacy'')],
         param_field ParamTypeText ''model'' ''Gemini model'' ''gemini-3.8-flash'' []],
      sch_Hints = [(''Dispatcher picks the underlying driver based on the '' @ [CHR 0x27] @ ''driver'' @ [CHR 0x27] @ '' parameter.''),
         ''Vertex AI Search uses OAuth2: set service_account_json with project_id/engine_id.'']\<rparr>"

definition schema_vertex_search :: ProviderSchema where
  "schema_vertex_search =
     \<lparr>sch_Code = ''vertex_search'', sch_Name = ''Vertex AI Search'', sch_Deprecated = False, sch_DefaultBaseURL = ''https://discoveryengine.googleapis.com'',
      sch_Credentials = [multiline_credential ''service_account_json''],
      sch_Params = [requiredTextParam ''project_id'' ''Project ID'' [] ''GCP project hosting the engine'',
         requiredTextParam ''engine_id'' ''Engine ID'' [] ''Discovery Engine engine id'',
         textParam ''location'' ''Location'' ''global'' [],
         textParam ''collection'' ''Collection'' ''default_collection'' [],
         textParam ''serving_config'' ''Serving config'' ''default_search'' [],
         selectParam ''queryExpansionSpec.condition'' ''Query expansion'' ''AUTO'' [(''Auto'', ''AUTO''), (''Disabled'', ''DISABLED'')],
         textParam ''max_rps'' ''Max requests/sec'' [] ''Per-driver rate limit override''],
      sch_Hints = [''Vertex AI Search does not support API keys: put the full service-account JSON into credentials.'',
         ''The access token is cached for its lifetime (~1h) and refreshed on 401.'']\<rparr>"

definition schema_pubmed :: ProviderSchema where
  "schema_pubmed =
     \<lparr>sch_Code = ''pubmed'', sch_Name = ''PubMed (NCBI)'', sch_Deprecated = False, sch_DefaultBaseURL = ''https://eutils.ncbi.nlm.nih.gov/entrez/eutils'',
      sch_Credentials = credentialFields [''api_key''],
      sch_Params = [numberParam ''retmax'' ''Max results'' ''10'' ''esearch retmax'',
         selectParam ''sort'' ''Sort'' ''relevance'' [(''Relevance'', ''relevance''), (''Pub date'', ''pub date'')],
         boolParam ''fetch_abstracts'' ''Fetch abstracts'' False ''Adds a third efetch call per request'',
         numberParam ''snippet_max_chars'' ''Snippet max chars'' ''600'' ''Abstracts are truncated to this length'',
         textParam ''tool'' ''NCBI tool name'' ''serpentseek'' ''Polite identification, recommended by NCBI'',
         textParam ''email'' ''NCBI contact e-mail'' [] ''Recommended by NCBI'',
         numberParam ''max_rps'' ''Max requests/sec'' [] ''Default 3 without api_key, 10 with one'',
         textParam ''fatal_http'' ''Fatal HTTP codes'' ''400'' [],
         textParam ''retry_http_codes'' ''Retry HTTP codes'' ''429,500,502,503,504'' []],
      sch_Hints = [(''Two-step NCBI E-utilities flow (esearch '' @ [CHR 0xE2, CHR 0x86, CHR 0x92] @ '' esummary); each upstream call is a separate history step.''),
         (''An empty PMID list short-circuits the flow to '' @ [CHR 0x60] @ ''empty'' @ [CHR 0x60] @ '' '' @ [CHR 0xE2, CHR 0x80, CHR 0x94] @ '' the second call is skipped.'')]\<rparr>"

definition schema_anthropic :: ProviderSchema where
  "schema_anthropic =
     \<lparr>sch_Code = ''anthropic'', sch_Name = ''Anthropic (web search)'', sch_Deprecated = False, sch_DefaultBaseURL = ''https://api.anthropic.com'',
      sch_Credentials = credentialFields [''api_key''],
      sch_Params = [textParam ''model'' ''Model'' ''claude-sonnet-4-5'' ''Anthropic model id'',
         numberParam ''max_tokens'' ''Max tokens'' ''1024'' ''Answer length budget'',
         numberParam ''max_uses'' ''Max web searches'' ''5'' ''web_search tool max_uses'',
         textParam ''allowed_domains'' ''Allowed domains'' [] ''Comma-separated, max 15; mutually exclusive with blocked_domains'',
         textParam ''blocked_domains'' ''Blocked domains'' [] ''Comma-separated, max 15; mutually exclusive with allowed_domains'',
         numberParam ''max_fetches'' ''Max web fetches'' ''0'' ''Adds the web_fetch tool when > 0'',
         numberParam ''max_rps'' ''Max requests/sec'' [] ''Per-driver rate limit override'',
         textParam ''fatal_http'' ''Fatal HTTP codes'' ''400,401,403'' [],
         textParam ''retry_http_codes'' ''Retry HTTP codes'' ''429,500,502,503,504'' []],
      sch_Hints = [''Use this driver on an answer-mode node: the generated text goes to the request answer panel.'',
         ''Sources are returned as sparse rows (link+title); a snippet is present only for cited passages.'']\<rparr>"

definition schema_kimi_search :: ProviderSchema where
  "schema_kimi_search =
     \<lparr>sch_Code = ''kimi_search'', sch_Name = ''Kimi (Moonshot) Web Search'', sch_Deprecated = False, sch_DefaultBaseURL = ''https://api.moonshot.ai'',
      sch_Credentials = credentialFields [''api_key''],
      sch_Params = [selectParam ''region'' ''API region'' [] [(''Auto (base URL)'', []), (''International (api.moonshot.ai)'', ''intl''), (''China (api.moonshot.cn)'', ''cn'')],
         numberParam ''timeout_seconds'' ''Timeout seconds'' [] ''1-60; empty = no per-request timeout'',
         boolParam ''include_content'' ''Include full content'' False ''Put the full page text into the result snippet'',
         numberParam ''max_rps'' ''Max requests/sec'' [] ''Per-driver rate limit override'',
         textParam ''fatal_http'' ''Fatal HTTP codes'' ''400,401,403'' [],
         textParam ''retry_http_codes'' ''Retry HTTP codes'' ''429,500,502,503,504'' []],
      sch_Hints = [(''Web Search Basic returns title/url/snippet; enable '' @ [CHR 0x22] @ ''Include full content'' @ [CHR 0x22] @ '' to fetch page text.''),
         ''Billed per call returning a non-empty result list; empty results are free.'',
         ''Keys are not interchangeable between api.moonshot.ai and api.moonshot.cn.'']\<rparr>"

definition schema_kimi_search_pro :: ProviderSchema where
  "schema_kimi_search_pro =
     \<lparr>sch_Code = ''kimi_search_pro'', sch_Name = ''Kimi (Moonshot) Web Search Pro'', sch_Deprecated = False, sch_DefaultBaseURL = ''https://api.moonshot.ai'',
      sch_Credentials = credentialFields [''api_key''],
      sch_Params = [selectParam ''region'' ''API region'' [] [(''Auto (base URL)'', []), (''International (api.moonshot.ai)'', ''intl''), (''China (api.moonshot.cn)'', ''cn'')],
         textParam ''sites'' ''Sites'' [] ''Comma-separated domains (max 5), OR-combined'',
         textParam ''time_window_start'' ''Date from'' [] ''YYYY / YYYY-MM / YYYY-MM-DD'',
         textParam ''time_window_end'' ''Date to'' [] ''YYYY / YYYY-MM / YYYY-MM-DD'',
         numberParam ''timeout_seconds'' ''Timeout seconds'' [] ''1-60; empty = no per-request timeout'',
         numberParam ''max_rps'' ''Max requests/sec'' [] ''Per-driver rate limit override'',
         textParam ''fatal_http'' ''Fatal HTTP codes'' ''400,401,403'' [],
         textParam ''retry_http_codes'' ''Retry HTTP codes'' ''429,500,502,503,504'' []],
      sch_Hints = [''Web Search Pro returns ranked content chunks (most relevant passages) per result.'',
         ''sites and time_window narrow the search; billed per call returning a non-empty result list.'',
         ''Keys are not interchangeable between api.moonshot.ai and api.moonshot.cn.'']\<rparr>"

definition schema_deepseek_search :: ProviderSchema where
  "schema_deepseek_search =
     \<lparr>sch_Code = ''deepseek_search'', sch_Name = ''DeepSeek Search'', sch_Deprecated = False, sch_DefaultBaseURL = ''https://api.deepseek.com'',
      sch_Credentials = credentialFields [''api_key''],
      sch_Params = [boolParam ''need_content'' ''Include page content'' False ''Send need_content=true; the returned page text replaces the summary in the snippet'',
         textParam ''ori_question'' ''Original question'' [] ''Optional user question that triggered the search (1-128 chars)'',
         textParam ''localization'' ''Localization IP'' [] ''Optional IP address used to localize results'',
         numberParam ''max_rps'' ''Max requests/sec'' [] ''Per-driver rate limit override (Search allows 100 rps)'',
         textParam ''fatal_http'' ''Fatal HTTP codes'' ''400,401,402,403,404'' [],
         textParam ''retry_http_codes'' ''Retry HTTP codes'' ''408,429,500,502,503,504'' []],
      sch_Hints = [(''Results use the long model-oriented summary as the snippet; enable '' @ [CHR 0x22] @ ''Include page content'' @ [CHR 0x22] @ '' to use the full page text instead.''),
         ''count is capped at 50; the API default is 10.'',
         ''Billed per successful request ($0.75 per 1,000); failed and empty requests are free.'']\<rparr>"

end
