(* ===== verification/Registry.thy ===== *)
theory Registry
  imports Driver_Facts Driver_Schemas
begin

text \<open>
  The registry of provider implementations (\<open>NewRegistry\<close> of \<open>internal/providers/provider.go\<close>): a code, a
  form and a search each. The searches of the two drivers that read XML, PubMed and the Yandex web
  search, are arguments; a search that panics has no result.
\<close>

subsection \<open>Implementations\<close>

type_synonym search = "driver_env \<Rightarrow> Query \<Rightarrow> credentials \<Rightarrow> params \<Rightarrow> world \<Rightarrow> Result option \<times> world"

record driver_impl =
  di_Code :: string
  di_Schema :: ProviderSchema
  di_Search :: search

definition total_search :: "driver \<Rightarrow> search" where
  "total_search d env q c ps w = (case d env q c ps w of (r, w') \<Rightarrow> (Some r, w'))"

definition dedicated_impl :: "string \<Rightarrow> ProviderSchema \<Rightarrow> driver \<Rightarrow> driver_impl" where
  "dedicated_impl code schema d = \<lparr>di_Code = code, di_Schema = schema, di_Search = total_search d\<rparr>"

definition rest_impl :: "restSpec \<Rightarrow> driver_impl" where
  "rest_impl sp = \<lparr>di_Code = sp_code sp, di_Schema = sp_schema sp, di_Search = Search sp\<rparr>"

subsection \<open>The registry\<close>

type_synonym registry = "(string \<times> driver_impl) list"

definition Register :: "driver_impl \<Rightarrow> registry \<Rightarrow> registry" where
  "Register p r = AList.update (di_Code p) p r"

definition builtin_drivers :: "driver \<Rightarrow> driver \<Rightarrow> driver_impl list" where
  "builtin_drivers yandex pubmed =
     [dedicated_impl ''apiserpent'' schema_apiserpent apiserpent_Search,
      dedicated_impl ''serpbase'' schema_serpbase serpbase_Search,
      dedicated_impl ''searxng'' schema_searxng searxng_Search,
      dedicated_impl ''yandex'' schema_yandex yandex,
      dedicated_impl ''yandex_gen'' schema_yandex_gen yandex_gen_Search,
      dedicated_impl ''google_vertex'' schema_google_vertex google_vertex_Search,
      dedicated_impl ''google_cse'' schema_google_cse google_cse_Search,
      dedicated_impl ''google'' schema_google google_dispatcher_Search,
      dedicated_impl ''vertex_search'' schema_vertex_search vertex_search_Search,
      dedicated_impl ''pubmed'' schema_pubmed pubmed,
      dedicated_impl ''anthropic'' schema_anthropic anthropic_Search,
      dedicated_impl ''kimi_search'' schema_kimi_search kimi_Search,
      dedicated_impl ''kimi_search_pro'' schema_kimi_search_pro kimi_pro_Search,
      dedicated_impl ''deepseek_search'' schema_deepseek_search deepseek_Search]"

definition NewRegistry :: "driver \<Rightarrow> driver \<Rightarrow> registry" where
  "NewRegistry yandex pubmed = fold Register (builtin_drivers yandex pubmed @ map rest_impl newRestRegistry) []"

definition Get :: "registry \<Rightarrow> string \<Rightarrow> driver_impl option" where
  "Get r code = map_of r (ToLower (TrimSpace code))"

definition Codes :: "registry \<Rightarrow> string list" where
  "Codes r = sort (map fst r)"

subsection \<open>Facts\<close>

lemma Register_new: "di_Code p \<notin> fst ` set r \<Longrightarrow> Register p r = r @ [(di_Code p, p)]"
proof -
  have "k \<notin> fst ` set r \<Longrightarrow> AList.update k v r = r @ [(k, v)]" for k :: string and v and r :: registry
    by (induction r) auto
  then show "di_Code p \<notin> fst ` set r \<Longrightarrow> Register p r = r @ [(di_Code p, p)]" by (simp add: Register_def)
qed

lemma fold_Register:
  "distinct (map di_Code ps) \<Longrightarrow> di_Code ` set ps \<inter> fst ` set r = {} \<Longrightarrow> fold Register ps r = r @ map (\<lambda>p. (di_Code p, p)) ps"
proof (induction ps arbitrary: r)
  case (Cons p ps)
  then show ?case by (simp add: Register_new)
qed simp

lemma registered_spec_code [simp]: "sp_code (registered_spec sp) = sp_code sp"
  by (simp add: registered_spec_def)

lemma registered_spec_schema_code [simp]: "sch_Code (sp_schema (registered_spec sp)) = sch_Code (sp_schema sp)"
  by (simp add: registered_spec_def)

lemma catalog_codes:
  "map sp_code restSpecs =
     [''brave'', ''serper'', ''serpapi'', ''searchapi'', ''dataforseo'', ''youcom'', ''jina'', ''firecrawl'', ''mojeek'',
      ''marginalia'', ''tavily'', ''exa'', ''linkup'', ''perplexity'', ''valyu'', ''parallel'', ''ollama'', ''kagi'',
      ''openalex'', ''semanticscholar'', ''crossref'', ''github'', ''hn'', ''stackexchange'', ''azure_search'', ''vectara'', ''kendra'']"
  by (simp add: restSpecs_def spec_defs blank_spec_def)

definition all_drivers :: "driver \<Rightarrow> driver \<Rightarrow> driver_impl list" where
  "all_drivers yandex pubmed = builtin_drivers yandex pubmed @ map rest_impl newRestRegistry"

definition driver_codes :: "string list" where
  "driver_codes =
     [''apiserpent'', ''serpbase'', ''searxng'', ''yandex'', ''yandex_gen'', ''google_vertex'', ''google_cse'', ''google'',
      ''vertex_search'', ''pubmed'', ''anthropic'', ''kimi_search'', ''kimi_search_pro'', ''deepseek_search'']
     @ map sp_code restSpecs"

lemma all_driver_codes: "map di_Code (all_drivers y p) = driver_codes"
  by (simp add: all_drivers_def builtin_drivers_def dedicated_impl_def driver_codes_def newRestRegistry_def rest_impl_def comp_def)

lemma driver_codes_distinct: "distinct driver_codes"
  unfolding driver_codes_def catalog_codes by code_simp

lemma driver_codes_plain: "list_all (\<lambda>c. ToLower (TrimSpace c) = c) driver_codes"
  unfolding driver_codes_def catalog_codes by code_simp

lemma NewRegistry_entries: "NewRegistry y p = map (\<lambda>d. (di_Code d, d)) (all_drivers y p)"
  using fold_Register [of "all_drivers y p" "[]"] driver_codes_distinct
  by (simp add: NewRegistry_def all_driver_codes flip: all_drivers_def)

lemma NewRegistry_codes: "map fst (NewRegistry y p) = driver_codes"
  by (simp add: NewRegistry_entries comp_def all_driver_codes)

lemma registry_complete:
  "sorted (Codes (NewRegistry y p)) \<and> distinct (Codes (NewRegistry y p)) \<and> length (Codes (NewRegistry y p)) = 41"
  by (simp add: Codes_def NewRegistry_codes driver_codes_distinct) (simp add: driver_codes_def catalog_codes)

text \<open>A listed code is found, under any capitalization and with blanks around it, and describes itself.\<close>

lemma Get_listed:
  assumes "ToLower (TrimSpace code) \<in> set (Codes (NewRegistry y p))"
  shows "\<exists>d \<in> set (all_drivers y p). Get (NewRegistry y p) code = Some d \<and> di_Code d = ToLower (TrimSpace code)"
proof -
  have "ToLower (TrimSpace code) \<in> di_Code ` set (all_drivers y p)"
    using assms by (simp add: Codes_def NewRegistry_codes flip: all_driver_codes [of y p])
  then obtain d where d: "d \<in> set (all_drivers y p)" "di_Code d = ToLower (TrimSpace code)" by auto
  have "distinct (map fst (NewRegistry y p))" by (simp add: NewRegistry_codes driver_codes_distinct)
  then have "map_of (NewRegistry y p) (di_Code d) = Some d"
    using d(1) by (intro map_of_is_SomeI) (auto simp: NewRegistry_entries)
  then show ?thesis using d by (auto simp: Get_def)
qed

lemma Get_Some:
  assumes "Get (NewRegistry y p) code = Some d"
  shows "d \<in> set (all_drivers y p) \<and> di_Code d = ToLower (TrimSpace code)"
  using assms by (auto simp: Get_def NewRegistry_entries dest!: map_of_SomeD)

text \<open>A form names the driver it belongs to.\<close>

lemma schema_codes:
  assumes "d \<in> set (all_drivers y p)"
  shows "sch_Code (di_Schema d) = di_Code d"
proof -
  have r: "map (\<lambda>sp. (sp_code sp, sch_Code (sp_schema sp))) restSpecs = map (\<lambda>sp. (sp_code sp, sp_code sp)) restSpecs"
    by (simp add: restSpecs_def spec_defs blank_spec_def)
  then have "sch_Code (sp_schema sp) = sp_code sp" if "sp \<in> set restSpecs" for sp
    using that by (auto simp: map_eq_conv)
  then show ?thesis
    using assms
    by (auto simp: all_drivers_def builtin_drivers_def dedicated_impl_def rest_impl_def newRestRegistry_def
        schema_apiserpent_def schema_serpbase_def schema_searxng_def schema_yandex_def schema_yandex_gen_def
        schema_google_vertex_def schema_google_cse_def schema_google_def schema_vertex_search_def schema_pubmed_def
        schema_anthropic_def schema_kimi_search_def schema_kimi_search_pro_def schema_deepseek_search_def)
qed

lemma no_google: "''google'' \<notin> set (map sp_code restSpecs)"
  unfolding catalog_codes by simp

subsection \<open>Attribution\<close>

text \<open>
  A result names the provider it came from. The dispatcher of Google names the driver it picked, not
  itself.
\<close>

definition speaks_for :: "string \<Rightarrow> string set" where
  "speaks_for code = (if code = ''google'' then {''google_vertex'', ''google_cse''} else {code})"

lemma provider_fields [simp]:
  "r_Provider (failed code kind status msg) = code" "r_Provider (found code status rows) = code"
  "r_Provider (found_or_empty code status rows) = code" "r_Provider (not_json code env resp body) = code"
  "r_Provider (build_failed code e) = code" "r_Provider (waiting_failed code err) = code"
  "r_Provider (refused code env fatal retry now resp body) = code" "r_Provider (fail kind permanent code msg) = code"
  "r_Provider (answered code status answer rows) = code"
  by (simp_all add: failed_def found_def found_or_empty_def not_json_def build_failed_def waiting_failed_def refused_def fail_def
      answered_def)

lemma fetch_provider: "fetch code env req w = (Inl r, w') \<Longrightarrow> r_Provider r = code"
  by (auto simp: fetch_def split: prod.splits exchange.splits)

lemma bearer_call_provider: "bearer_call code env t k p fatal retry w = (Inl r, w') \<Longrightarrow> r_Provider r = code"
  by (auto simp: bearer_call_def dest!: fetch_provider split: prod.splits sum.splits if_splits option.splits)

lemma apiserpent_provider: "r_Provider (fst (apiserpent_Search env q c ps w)) = ''apiserpent''"
  by (auto simp: apiserpent_Search_def apiserpent_answer_def Let_def dest!: fetch_provider split: sum.split prod.split option.split)

lemma serpbase_provider: "r_Provider (fst (serpbase_Search env q c ps w)) = ''serpbase''"
  by (auto simp: serpbase_Search_def serpbase_answer_def serpbase_refused_def Let_def dest!: fetch_provider split: sum.split prod.split option.split)

lemma searxng_provider: "r_Provider (fst (searxng_Search env q c ps w)) = ''searxng''"
  by (auto simp: searxng_Search_def searxng_answer_def Let_def dest!: fetch_provider split: sum.split prod.split option.split)

lemma google_cse_provider: "r_Provider (fst (google_cse_Search env q c ps w)) = ''google_cse''"
  by (auto simp: google_cse_Search_def google_cse_answer_def Let_def dest!: fetch_provider split: sum.split prod.split option.split json.split)

lemma deepseek_provider: "r_Provider (fst (deepseek_Search env q c ps w)) = ''deepseek_search''"
  by (auto simp: deepseek_Search_def deepseekCall_def Let_def dest!: bearer_call_provider split: sum.split prod.split option.split)

lemma kimi_search_provider: "r_Provider (fst (kimi_search code path extra rows env q c ps w)) = code"
  by (auto simp: kimi_search_def kimiCall_def Let_def dest!: bearer_call_provider split: sum.split prod.split option.split)

lemma anthropic_provider: "r_Provider (fst (anthropic_Search env q c ps w)) = ''anthropic''"
  by (auto simp: anthropic_Search_def Let_def dest!: fetch_provider split: sum.split prod.split option.split)

lemma yandex_gen_provider: "r_Provider (fst (yandex_gen_Search env q c ps w)) = ''yandex_gen''"
  by (auto simp: yandex_gen_Search_def Let_def dest!: fetch_provider split: sum.split prod.split option.split)

lemma vertex_outcome_provider [simp]: "r_Provider (vertex_outcome env ps status body err) = ''vertex_search''"
  by (simp add: vertex_outcome_def Let_def case_prod_unfold split: option.split)

lemma vertex_provider: "r_Provider (fst (vertex_search_Search env q c ps w)) = ''vertex_search''"
  by (auto simp: vertex_search_Search_def vertex_attempts_def Let_def split: sum.split prod.split)

lemma google_vertex_provider: "r_Provider (fst (google_vertex_Search env q c ps w)) = ''google_vertex''"
  by (auto simp: google_vertex_Search_def searchEnterprise_def searchGrounding_def grounding_answer_def Let_def dest!: fetch_provider
      split: sum.split prod.split option.split)

lemma google_provider: "r_Provider (fst (google_dispatcher_Search env q c ps w)) \<in> {''google_vertex'', ''google_cse''}"
  by (simp add: google_dispatcher_Search_def Let_def google_vertex_provider google_cse_provider)

lemma success_provider [simp]: "r_Provider (success sp status ms data rows) = sp_code sp"
  by (simp add: success_def Let_def)

lemma http_failure_provider [simp]: "r_Provider (http_failure env sp ps now resp body) = sp_code sp"
  by (simp add: http_failure_def case_prod_unfold)

lemma throttle_provider: "throttle sp resp body = Inl r \<Longrightarrow> r_Provider r = sp_code sp"
  by (auto simp: throttle_def Let_def split: option.splits if_splits)

lemma classify_provider: "classify env sp ps now resp = Some r \<Longrightarrow> r_Provider r = sp_code sp"
  by (auto simp: classify_def Let_def dest: throttle_provider split: sum.splits option.splits if_splits)

lemma google_cases:
  "r_Provider (fst (google_dispatcher_Search env q c ps w)) \<noteq> ''google_cse'' \<Longrightarrow>
     r_Provider (fst (google_dispatcher_Search env q c ps w)) = ''google_vertex''"
  using google_provider [of env q c ps w] by simp

lemma rest_provider:
  assumes "Search sp env q c ps w = (Some r, w')"
  shows "r_Provider r = sp_code sp"
proof -
  obtain b w1 where b: "buildRequest sp env q c ps w = (b, w1)" by fastforce
  show ?thesis
  proof (cases b)
    case (Inr req)
    obtain x w2 where x: "Do env req w1 = (x, w2)" by fastforce
    show ?thesis
      using assms b x Inr
      by (cases "WaitLimit env (sp_code sp) (maxRPSParam ps (sp_maxRPS sp)) w1"; cases x)
        (auto simp: Search_def dest: classify_provider)
  qed (use assms b in \<open>auto simp: Search_def\<close>)
qed

lemma total_search_Some: "total_search d env q c ps w = (Some r, w') \<Longrightarrow> r = fst (d env q c ps w)"
  by (auto simp: total_search_def split: prod.splits)

lemma results_attributed:
  assumes "Get (NewRegistry y p) code = Some d" "di_Search d env q c ps w = (Some r, w')"
    and "\<And>env q c ps w. r_Provider (fst (y env q c ps w)) = ''yandex''"
    and "\<And>env q c ps w. r_Provider (fst (p env q c ps w)) = ''pubmed''"
  shows "r_Provider r \<in> speaks_for (ToLower (TrimSpace code))"
proof -
  have d: "d \<in> set (all_drivers y p)" "di_Code d = ToLower (TrimSpace code)" using Get_Some [OF assms(1)] by auto
  have "r_Provider r \<in> speaks_for (di_Code d)"
  proof (cases "d \<in> rest_impl ` set newRestRegistry")
    case True
    then obtain sp where sp: "sp \<in> set restSpecs" "d = rest_impl (registered_spec sp)" by (auto simp: newRestRegistry_def)
    then have "''google'' \<noteq> sp_code sp" using no_google by force
    then show ?thesis using sp assms(2) rest_provider [of "registered_spec sp"] by (auto simp: rest_impl_def speaks_for_def)
  next
    case False
    then have "d \<in> set (builtin_drivers y p)" using d(1) by (auto simp: all_drivers_def)
    then show ?thesis
      using assms(2-4)
      by (auto simp: builtin_drivers_def dedicated_impl_def speaks_for_def apiserpent_provider serpbase_provider searxng_provider
          google_cse_provider deepseek_provider anthropic_provider yandex_gen_provider vertex_provider google_vertex_provider
          kimi_Search_def kimi_pro_Search_def kimi_search_provider google_cases
          dest!: total_search_Some)
  qed
  then show ?thesis using d(2) by simp
qed

end
