(* ===== verification/Url_Facts.thy ===== *)
theory Url_Facts
  imports Rest_Facts
begin

text \<open>
  A query put on an address is the query of the address that is sent: \<open>Parse\<close> after \<open>String\<close> keeps the
  raw query. With it, what a service decodes from a request of the default builder is what was put
  into the request.
\<close>

subsection \<open>A query after an address\<close>

definition query_char :: "char \<Rightarrow> bool" where
  "query_char c \<longleftrightarrow> alphanumeric c \<or> c \<in> set ''%+-_.~&=''"

definition plain_query :: "string \<Rightarrow> bool" where
  "plain_query r \<longleftrightarrow> (\<forall>c \<in> set r. query_char c)"

lemma query_char_clean: "query_char c \<Longrightarrow> c \<noteq> CHR ''?'' \<and> c \<noteq> CHR ''#'' \<and> \<not> c < CHR '' '' \<and> c \<noteq> CHR 0x7F"
  by (auto simp: query_char_def alphanumeric_def is_alpha_def in_span_def less_eq_char_def less_char_def)

lemma plain_query_clean:
  assumes "plain_query r"
  shows "CHR ''?'' \<notin> set r" "CHR ''#'' \<notin> set r" "\<not> has_control r"
  using assms query_char_clean by (fastforce simp: plain_query_def has_control_def)+

lemma Join_chars: "c \<in> set (Join xs sep) \<Longrightarrow> c \<in> set sep \<or> (\<exists>x \<in> set xs. c \<in> set x)"
  by (induction xs sep rule: Join.induct) auto

lemma plain_query_Encode: "plain_query (Values_Encode vs)"
proof -
  have "query_char c" if "c \<in> set (Values_Encode vs)" for c
  proof -
    from that consider "c = CHR ''&''" | k v where "c \<in> set (encode_pair (k, v))"
      by (auto simp: Values_Encode_def dest!: Join_chars)
    then show ?thesis
    proof cases
      case 2
      then consider "c \<in> set (QueryEscape k)" | "c = CHR ''=''" | "c \<in> set (QueryEscape v)" by (auto simp: encode_pair_def)
      then show ?thesis
        by cases (auto simp: query_char_def dest: QueryEscape_chars)
    qed (simp add: query_char_def)
  qed
  then show ?thesis by (simp add: plain_query_def)
qed

lemma Cut_absent: "d \<notin> set s \<Longrightarrow> Cut s d = (s, [], False)"
proof -
  assume "d \<notin> set s"
  then have t: "takeWhile (\<lambda>c. c \<noteq> d) s = s" by (auto simp: takeWhile_eq_all_conv)
  show ?thesis unfolding Cut_def t Let_def by simp
qed

lemma Cut_append: "d \<notin> set s \<Longrightarrow> Cut (s @ d # r) d = (s, r, True)"
proof -
  assume "d \<notin> set s"
  then have t: "takeWhile (\<lambda>c. c \<noteq> d) (s @ d # r) = s" by (subst takeWhile_append2) auto
  show ?thesis unfolding Cut_def t Let_def by simp
qed

lemma scheme_loop_append:
  "scheme_loop raw acc s = Inr (sc, r) \<Longrightarrow> sc \<noteq> [] \<Longrightarrow> scheme_loop raw' acc (s @ t) = Inr (sc, r @ t)"
  by (induction raw acc s rule: scheme_loop.induct) (auto split: if_splits)

lemma scheme_loop_rest:
  "scheme_loop raw acc s = Inr (sc, r) \<Longrightarrow> sc \<noteq> [] \<Longrightarrow> set r \<subseteq> set s"
  by (induction raw acc s rule: scheme_loop.induct) (auto split: if_splits)

text \<open>The hierarchical part does not look at the query.\<close>

lemma parse_rest_query: "parse_rest p (u\<lparr>url_RawQuery := r\<rparr>) = map_sum id (\<lambda>u. u\<lparr>url_RawQuery := r\<rparr>) (parse_rest p u)"
  by (cases u) (auto simp: parse_rest_def setPath_def Let_def split: sum.split prod.split option.split)

text \<open>An address that is printed as it was written, without a query or a fragment.\<close>

definition clean_address :: "string \<Rightarrow> url \<Rightarrow> bool" where
  "clean_address s u \<longleftrightarrow> Parse s = Inr u \<and> URL_String u = s \<and> url_Scheme u \<noteq> [] \<and> url_Fragment u = [] \<and> url_RawQuery u = []
     \<and> \<not> url_ForceQuery u \<and> CHR ''?'' \<notin> set s \<and> CHR ''#'' \<notin> set s"

lemma parse_rest_scheme: "parse_rest p u = Inr v \<Longrightarrow> url_Scheme v = url_Scheme u"
  by (auto simp: parse_rest_def setPath_def Let_def split: if_splits sum.splits option.splits prod.splits)

lemma Parse_with_query:
  assumes "clean_address s u" "plain_query r" "r \<noteq> []"
  shows "Parse (s @ CHR ''?'' # r) = Inr (u\<lparr>url_RawQuery := r\<rparr>)"
proof -
  note c = assms(1) [unfolded clean_address_def]
  note q = plain_query_clean [OF assms(2)]
  have p: "parse_before_fragment s = Inr u"
    using c by (auto simp: Parse_def Cut_absent split: sum.splits if_splits option.splits)
  have nc: "\<not> has_control s" "s \<noteq> ''*''"
    using p c by (auto simp: parse_before_fragment_def empty_url_def split: if_splits)
  obtain scheme rest where sl: "scheme_loop s [] s = Inr (scheme, rest)"
    using p nc by (auto simp: parse_before_fragment_def split: sum.splits)
  have pr: "parse_rest (fst (Cut rest CHR ''?'')) (empty_url\<lparr>url_Scheme := ToLower scheme,
      url_ForceQuery := HasSuffix rest ''?'' \<and> count_list rest CHR ''?'' = 1, url_RawQuery := fst (snd (Cut rest CHR ''?''))\<rparr>) = Inr u"
    using p nc sl by (simp add: parse_before_fragment_def Let_def case_prod_unfold)
  have sc: "scheme \<noteq> []"
    using parse_rest_scheme [OF pr] c by auto
  have nq: "CHR ''?'' \<notin> set rest"
    using scheme_loop_rest [OF sl sc] c by auto
  have hs: "\<not> HasSuffix rest ''?''"
    using nq by (auto simp: HasSuffix_def HasPrefix_iff)
  have base: "parse_rest rest (empty_url\<lparr>url_Scheme := ToLower scheme, url_ForceQuery := False, url_RawQuery := []\<rparr>) = Inr u"
    using pr nq hs by (simp add: Cut_absent)
  have hs': "\<not> HasSuffix (rest @ CHR ''?'' # r) ''?''"
  proof
    assume "HasSuffix (rest @ CHR ''?'' # r) ''?''"
    then have "hd (rev r) = CHR ''?''" using assms(3) by (cases "rev r") (auto simp: HasSuffix_def)
    then have "CHR ''?'' \<in> set (rev r)" using assms(3) by (metis hd_in_set rev_is_Nil_conv)
    then show False using q(1) by simp
  qed
  have sl': "scheme_loop (s @ CHR ''?'' # r) [] (s @ CHR ''?'' # r) = Inr (scheme, rest @ CHR ''?'' # r)"
    by (rule scheme_loop_append [OF sl sc])
  have "parse_rest rest (empty_url\<lparr>url_Scheme := ToLower scheme, url_ForceQuery := False, url_RawQuery := r\<rparr>) = Inr (u\<lparr>url_RawQuery := r\<rparr>)"
    using parse_rest_query [where p = rest and r = r and
        u = "empty_url\<lparr>url_Scheme := ToLower scheme, url_ForceQuery := False, url_RawQuery := []\<rparr>"] base
    by simp
  moreover have "\<not> has_control (s @ CHR ''?'' # r)" using nc q by (auto simp: has_control_def)
  moreover have "s @ CHR ''?'' # r \<noteq> ''*''" using assms(3) by (cases s) auto
  ultimately have "parse_before_fragment (s @ CHR ''?'' # r) = Inr (u\<lparr>url_RawQuery := r\<rparr>)"
    by (simp add: parse_before_fragment_def sl' Cut_append [OF nq] hs')
  moreover have "CHR ''#'' \<notin> set (s @ CHR ''?'' # r)" using c q by simp
  ultimately show ?thesis by (simp add: Parse_def Cut_absent)
qed

lemma URL_String_query:
  assumes "clean_address s u" "r \<noteq> []"
  shows "URL_String (u\<lparr>url_RawQuery := r\<rparr>) = s @ CHR ''?'' # r"
proof -
  have a: "authority_text (u\<lparr>url_RawQuery := r\<rparr>) = authority_text u" by (simp add: authority_text_def)
  have e: "EscapedPath (u\<lparr>url_RawQuery := r\<rparr>) = EscapedPath u" by (simp add: EscapedPath_def)
  have "path_text (u\<lparr>url_RawQuery := r\<rparr>) = path_text u" by (simp add: path_text_def a e Let_def)
  note a this
  moreover have "URL_String u = s" "url_Fragment u = []" "url_RawQuery u = []" "\<not> url_ForceQuery u"
    using assms(1) by (simp_all add: clean_address_def)
  ultimately show ?thesis using assms(2) by (auto simp: URL_String_def split: if_splits)
qed

text \<open>The request made for an address and a list of values.\<close>

lemma NewRequest_query:
  assumes "clean_address s u" "Values_Encode vs \<noteq> []"
  shows "NewRequest m (URL_String (u\<lparr>url_RawQuery := Values_Encode vs\<rparr>)) b =
    Inr \<lparr>out_Method = m, out_URL = u\<lparr>url_RawQuery := Values_Encode vs, url_Host := removeEmptyPort (url_Host u)\<rparr>,
         out_Header = [], out_Body = b\<rparr>"
  unfolding URL_String_query [OF assms] NewRequest_def Parse_with_query [OF assms(1) plain_query_Encode assms(2)]
  by simp

subsection \<open>What a service decodes\<close>

definition valued :: "query_values \<Rightarrow> bool" where
  "valued vs \<longleftrightarrow> distinct (map fst vs) \<and> (\<forall>(k, ws) \<in> set vs. ws \<noteq> [])"

lemma valued_Nil [simp]: "valued []"
  by (simp add: valued_def)

lemma valued_Set: "valued vs \<Longrightarrow> valued (Values_Set k v vs)"
  unfolding valued_def using distinct_Values_Set [of vs k v] by (auto simp: Values_Set_def split: if_splits)

lemma valued_set_all: "valued vs \<Longrightarrow> valued (set_all kvs vs)"
  by (induction kvs arbitrary: vs) (auto simp: valued_Set)

lemma valued_sort: "valued vs \<Longrightarrow> valued (sort_key fst vs)"
  by (simp add: valued_def distinct_map)

lemma Values_Set_nonempty: "Values_Set k v vs \<noteq> []"
  by (cases vs) (auto simp: Values_Set_def)

lemma set_all_nonempty: "kvs \<noteq> [] \<or> vs \<noteq> [] \<Longrightarrow> set_all kvs vs \<noteq> []"
proof (induction kvs arbitrary: vs)
  case (Cons kv kvs)
  obtain k v where "kv = (k, v)" by fastforce
  then show ?case using Cons.IH [of "Values_Set k v vs"] Values_Set_nonempty by simp
qed simp

lemma Values_Encode_nonempty:
  assumes "valued vs" "vs \<noteq> []"
  shows "Values_Encode vs \<noteq> []"
proof
  assume "Values_Encode vs = []"
  then have "sort_key fst vs = ParseQuery []" using ParseQuery_Encode [of vs] assms(1) by (simp add: valued_def)
  then have "sort_key fst vs = []" by (simp add: ParseQuery_def parse_pair_Nil List.map_filter_simps)
  then show False using assms(2) by (metis set_empty set_sort)
qed

lemma map_of_sort: "distinct (map fst vs) \<Longrightarrow> map_of (sort_key fst vs) = map_of (vs :: (string \<times> 'a) list)"
  by (rule map_of_perm) (auto simp: distinct_map)

lemma ParseQuery_Nil: "ParseQuery [] = []"
  by (simp add: ParseQuery_def parse_pair_Nil List.map_filter_simps)

lemma set_headers_fields [simp]:
  "out_URL (set_headers hs r) = out_URL r" "out_Body (set_headers hs r) = out_Body r" "out_Method (set_headers hs r) = out_Method r"
  by (induction hs arbitrary: r) (auto simp: set_headers_def put_header_def)

text \<open>The credential that travels in the query.\<close>

definition auth_fields :: "restSpec \<Rightarrow> credentials \<Rightarrow> (string \<times> string) list" where
  "auth_fields sp c =
     (let a = sp_auth sp; v = TrimSpace (cred c (ra_credKey a)) in
      if ra_kind a = ''query'' \<and> v \<noteq> [] then [(ra_queryKey a, v)] else [])"

lemma setAuth_url:
  "out_URL (setAuth sp c r) =
     (if auth_fields sp c = [] then out_URL r
      else (out_URL r)\<lparr>url_RawQuery := Values_Encode (set_all (auth_fields sp c) (ParseQuery (url_RawQuery (out_URL r))))\<rparr>)"
  "out_Body (setAuth sp c r) = out_Body r"
  by (auto simp: setAuth_def auth_fields_def Let_def put_header_def set_basic_auth_def)

lemma setAuth_query:
  assumes "url_RawQuery (out_URL r) = Values_Encode vs" "valued vs"
  shows "ParseQuery (url_RawQuery (out_URL (setAuth sp c r))) = sort_key fst (set_all (auth_fields sp c) vs)"
proof -
  have p: "ParseQuery (Values_Encode vs) = sort_key fst vs" using ParseQuery_Encode [of vs] assms(2) by (simp add: valued_def)
  show ?thesis
  proof (cases "auth_fields sp c = []")
    case True
    then show ?thesis by (simp add: setAuth_url assms(1) p)
  next
    case False
    let ?vs = "set_all (auth_fields sp c) (sort_key fst vs)"
    have v: "valued ?vs" by (rule valued_set_all [OF valued_sort [OF assms(2)]])
    then have "ParseQuery (Values_Encode ?vs) = sort_key fst ?vs" using ParseQuery_Encode [of ?vs] by (simp add: valued_def)
    also have "\<dots> = sort_key fst (set_all (auth_fields sp c) vs)"
      using v valued_set_all [OF assms(2)] assms(2)
      by (intro sort_key_unique) (simp_all add: valued_def map_of_set_all map_of_sort)
    finally show ?thesis using False by (simp add: setAuth_url assms(1) p)
  qed
qed

text \<open>A body of texts is the encoding of a map of strings.\<close>

definition text_members :: "(string \<times> string) list \<Rightarrow> object" where
  "text_members m = map (\<lambda>(k, v). (k, JStr v)) m"

definition keep_last :: "(string \<times> string) list \<Rightarrow> (string \<times> string) list" where
  "keep_last kvs = foldl (\<lambda>m (k, v). AList.update k v m) [] kvs"

lemma update_text_members: "AList.update k (JStr v) (text_members m) = text_members (AList.update k v m)"
  by (induction m) (auto simp: text_members_def)

lemma body_of_text: "body_of kvs [] = text_members (keep_last kvs)"
proof -
  have "body_of kvs (text_members m) = text_members (foldl (\<lambda>m (k, v). AList.update k v m) m kvs)" for m
    by (induction kvs arbitrary: m) (auto simp: body_of_def update_text_members)
  then show ?thesis by (simp add: keep_last_def) (metis list.simps(8) text_members_def)
qed

lemma keep_last_facts: "distinct (map fst (keep_last kvs))" "map_of (keep_last kvs) = map_of (rev kvs)"
proof -
  have "distinct (map fst (foldl (\<lambda>m (k, v). AList.update k v m) m kvs))" if "distinct (map fst m)" for m
    using that by (induction kvs arbitrary: m) (auto simp: distinct_update)
  then show "distinct (map fst (keep_last kvs))" by (simp add: keep_last_def)
  have "map_of (foldl (\<lambda>m (k, v). AList.update k v m) m kvs) = map_of m ++ map_of (rev kvs)" for m :: "(string \<times> string) list"
    by (induction kvs arbitrary: m) (auto simp: update_conv')
  then show "map_of (keep_last kvs) = map_of (rev kvs)" by (simp add: keep_last_def)
qed

lemma marshal_text:
  assumes "distinct (map fst m)"
  shows "json_encode num (JObj (text_members m)) = EncodeMap m"
proof -
  have "map (\<lambda>x. (fst x, json_encode num (snd x))) (text_members m) = map (\<lambda>(k, v). (k, quote v)) m"
    by (auto simp: text_members_def)
  moreover have "last_wins (map (\<lambda>(k, v). (k, quote v)) m) = map (\<lambda>(k, v). (k, quote v)) m"
    using assms by (intro last_wins_distinct) (simp add: comp_def case_prod_beta)
  moreover have "sort_key fst (map (\<lambda>(k, v). (k, quote v)) m) = map (\<lambda>(k, v). (k, quote v)) (sort_key fst m)"
    by (intro sort_key_inj_key_eq) (use assms in \<open>auto simp: distinct_map comp_def case_prod_beta inj_on_def\<close>)
  ultimately show ?thesis
    unfolding case_prod_unfold by (simp add: EncodeMap_def comp_def case_prod_unfold)
qed

text \<open>
  The address is clean: then the request is built, and its body or its query decodes to the fields that
  were put into it, the later of two fields with the same name winning.
\<close>

lemma request_decodes:
  assumes "clean_address (base_of ps (sp_baseURL sp) @ request_path sp ps) u" "request_fields sp q ps \<noteq> []"
  shows "\<exists>req. defaultBuild sp q c ps = Inr req \<and>
    (if sp_body sp then DecodeMap (the (out_Body req)) = map_of (rev (request_fields sp q ps))
     else ParseQuery (url_RawQuery (out_URL req)) = sort_key fst (set_all (request_fields sp q ps @ auth_fields sp c) []))"
proof (cases "sp_body sp")
  case True
  let ?b = "EncodeMap (keep_last (request_fields sp q ps))"
  have c: "Parse (base_of ps (sp_baseURL sp) @ request_path sp ps) = Inr u" "url_RawQuery u = []"
      "URL_String u = base_of ps (sp_baseURL sp) @ request_path sp ps"
    using assms(1) by (simp_all add: clean_address_def)
  have u: "u\<lparr>url_RawQuery := Values_Encode (ParseQuery [])\<rparr> = u"
    using c(2) by (cases u) (simp add: ParseQuery_Nil Values_Encode_def value_pairs_def)
  have body: "marshal (JObj (body_of (request_fields sp q ps) [])) = ?b"
    by (simp only: body_of_text marshal_text [OF keep_last_facts(1)])
  have "\<exists>r. plain_request sp q ps = Inr r \<and> out_Body r = Some ?b"
    unfolding plain_request_def Let_def c(1) sum.case if_P [OF True] c(2) u c(3) NewRequest_def body
    by simp
  then obtain r where r: "plain_request sp q ps = Inr r" "out_Body r = Some ?b" by blast
  have "DecodeMap ?b = map_of (rev (request_fields sp q ps))"
    using DecodeMap_EncodeMap keep_last_facts by metis
  then show ?thesis using True r by (simp add: defaultBuild_def setAuth_url)
next
  case False
  let ?vs = "set_all (request_fields sp q ps) []"
  have v: "valued ?vs" "Values_Encode ?vs \<noteq> []"
    using assms(2) by (simp_all add: valued_set_all Values_Encode_nonempty set_all_nonempty)
  have c: "Parse (base_of ps (sp_baseURL sp) @ request_path sp ps) = Inr u" "url_RawQuery u = []"
    using assms(1) by (simp_all add: clean_address_def)
  have "\<exists>r. plain_request sp q ps = Inr r \<and> url_RawQuery (out_URL r) = Values_Encode ?vs"
    unfolding plain_request_def Let_def using False v
    by (simp add: c ParseQuery_Nil NewRequest_query [OF assms(1) v(2)])
  then obtain r where r: "plain_request sp q ps = Inr r" "url_RawQuery (out_URL r) = Values_Encode ?vs" by blast
  then show ?thesis
    using False setAuth_query [OF r(2) v(1)] by (simp add: defaultBuild_def set_all_append)
qed

end
