(* ===== verification/Database.thy ===== *)
theory Database
  imports Models Go_Time "HOL-Library.AList"
begin

text \<open>
  The database behind \<open>internal/store/sqlstore\<close>: one list of rows per table of
  \<open>internal/store/sqlite/migrations\<close>, in insertion order, and the failure the connection
  reports, if any. A nullable text column that the code only writes through \<open>nullStr\<close> and
  only reads through \<open>COALESCE(_, '')\<close> holds the empty string for \<open>NULL\<close>. Text columns compare bytewise.
  Statements are built from the generic operations below; each statement states the
  constraints of the schema it can violate.
\<close>

subsection \<open>Rows\<close>

record Passkey =
  pk_ID :: string
  pk_UserID :: string
  pk_Name :: string
  pk_CredentialID :: string
  pk_PublicKey :: string
  pk_SignCount :: nat
  pk_Transports :: string
  pk_AAGUID :: string
  pk_CreatedAt :: string
  pk_LastUsedAt :: string

record chain_row =
  cr_ID :: string
  cr_Name :: string
  cr_Active :: bool
  cr_Mode :: string
  cr_Version :: int
  cr_CreatedAt :: string
  cr_UpdatedAt :: string

text \<open>A row of \<open>requests\<close>; the JSON columns are kept as the text the code writes.\<close>

record request_row =
  rw_ID :: string
  rw_RID :: string
  rw_Query :: string
  rw_Count :: int
  rw_Status :: string
  rw_UsedProvider :: string
  rw_ResultsCount :: int
  rw_TotalMS :: int
  rw_StepsCount :: int
  rw_ChainID :: string
  rw_Snapshot :: string
  rw_UserID :: string
  rw_Client :: string
  rw_Error :: string
  rw_CreatedAt :: string
  rw_MergeCollected :: "int option"
  rw_MergeUnique :: "int option"
  rw_MergeDuplicates :: "int option"
  rw_Results :: string
  rw_Answer :: string

record step_row =
  sr_ID :: string
  sr_RequestID :: string
  sr_Idx :: int
  sr_NodeKey :: string
  sr_Provider :: string
  sr_Engine :: string
  sr_AttemptNo :: int
  sr_Status :: string
  sr_Kind :: string
  sr_HTTPStatus :: int
  sr_Error :: string
  sr_Permanent :: bool
  sr_ResultsCount :: int
  sr_WaitBeforeMS :: int
  sr_TookMS :: int
  sr_Cost :: float64
  sr_StartedAt :: string
  sr_FinishedAt :: string
  sr_Stage :: string

text \<open>A provider instance as stored: parameters and (encrypted) credentials are text.\<close>

record provider_row =
  pr_ID :: string
  pr_Code :: string
  pr_Name :: string
  pr_Enabled :: bool
  pr_BaseURL :: string
  pr_ProxyID :: string
  pr_Credentials :: string
  pr_Params :: string
  pr_UpdatedAt :: string

record LogEntry =
  le_ID :: int
  le_TS :: string
  le_Level :: string
  le_RID :: string
  le_API :: string
  le_Message :: string

record AuditEntry =
  au_ID :: string
  au_TS :: string
  au_UserID :: string
  au_User :: string
  au_Via :: string
  au_IP :: string
  au_Action :: string
  au_Target :: string
  au_Details :: string

record database =
  t_users :: "User list"
  t_keys :: "APIKey list"
  t_passkeys :: "Passkey list"
  t_sessions :: "Session list"
  t_quotas :: "UserQuota list"
  t_usage :: "((string \<times> string) \<times> int) list"
  t_rolling :: "(string \<times> string) list"
  t_chains :: "chain_row list"
  t_nodes :: "ChainNode list"
  t_edges :: "ChainEdge list"
  t_requests :: "request_row list"
  t_steps :: "step_row list"
  t_logs :: "LogEntry list"
  t_audit :: "AuditEntry list"
  t_providers :: "provider_row list"
  t_proxies :: "Proxy list"
  t_log_seq :: int
  t_down :: "string option"

definition empty_db :: database where
  "empty_db = \<lparr>t_users = [], t_keys = [], t_passkeys = [], t_sessions = [], t_quotas = [], t_usage = [],
     t_rolling = [], t_chains = [], t_nodes = [], t_edges = [], t_requests = [], t_steps = [], t_logs = [],
     t_audit = [], t_providers = [], t_proxies = [], t_log_seq = 0, t_down = None\<rparr>"

subsection \<open>Statements\<close>

definition violation :: store_error where
  "violation = StoreFailure ''constraint failed''"

text \<open>A statement that cannot reach the database changes nothing; neither does one that fails a constraint.\<close>

definition run_exec :: "bool \<Rightarrow> database \<Rightarrow> database \<Rightarrow> store_error option \<times> database" where
  "run_exec admissible db' db =
     (case t_down db of Some e \<Rightarrow> (Some (StoreFailure e), db)
      | None \<Rightarrow> if admissible then (None, db') else (Some violation, db))"

definition run_count :: "nat \<Rightarrow> database \<Rightarrow> database \<Rightarrow> (store_error + nat) \<times> database" where
  "run_count affected db' db =
     (case t_down db of Some e \<Rightarrow> (Inl (StoreFailure e), db) | None \<Rightarrow> (Inr affected, db'))"

definition run_query :: "'a \<Rightarrow> database \<Rightarrow> store_error + 'a" where
  "run_query x db = (case t_down db of Some e \<Rightarrow> Inl (StoreFailure e) | None \<Rightarrow> Inr x)"

text \<open>\<open>queryRow\<close> with \<open>sql.ErrNoRows\<close> turned into \<open>store.ErrNotFound\<close>.\<close>

definition run_row :: "('r \<Rightarrow> bool) \<Rightarrow> 'r list \<Rightarrow> database \<Rightarrow> store_error + 'r" where
  "run_row P t db =
     (case t_down db of Some e \<Rightarrow> Inl (StoreFailure e)
      | None \<Rightarrow> (case find P t of None \<Rightarrow> Inl ErrNotFound | Some r \<Rightarrow> Inr r))"

definition update_where :: "('r \<Rightarrow> bool) \<Rightarrow> ('r \<Rightarrow> 'r) \<Rightarrow> 'r list \<Rightarrow> 'r list" where
  "update_where P f t = map (\<lambda>r. if P r then f r else r) t"

definition delete_where :: "('r \<Rightarrow> bool) \<Rightarrow> 'r list \<Rightarrow> 'r list" where
  "delete_where P t = filter (\<lambda>r. \<not> P r) t"

definition count_where :: "('r \<Rightarrow> bool) \<Rightarrow> 'r list \<Rightarrow> nat" where
  "count_where P t = length (filter P t)"

definition has :: "('r \<Rightarrow> 'k) \<Rightarrow> 'k \<Rightarrow> 'r list \<Rightarrow> bool" where
  "has key k t \<longleftrightarrow> list_ex (\<lambda>r. key r = k) t"

text \<open>\<open>ORDER BY\<close> on text columns; equal keys stay in insertion order.\<close>

definition order_by :: "('r \<Rightarrow> string) \<Rightarrow> 'r list \<Rightarrow> 'r list" where
  "order_by key t = sort_key key t"

definition order_by_desc :: "('r \<Rightarrow> string) \<Rightarrow> 'r list \<Rightarrow> 'r list" where
  "order_by_desc key t = rev (sort_key key (rev t))"

subsection \<open>Facts\<close>

lemmas run_defs = run_exec_def run_count_def run_query_def run_row_def

lemma has_iff [simp]: "has key k t \<longleftrightarrow> k \<in> key ` set t"
  by (auto simp: has_def list_ex_iff)

lemma update_where_Cons: "update_where P f (r # t) = (if P r then f r else r) # update_where P f t"
  by (simp add: update_where_def)

lemma set_update_where: "set (update_where P f t) = (\<lambda>r. if P r then f r else r) ` set t"
  by (simp add: update_where_def)

lemma set_delete_where [simp]: "set (delete_where P t) = {r \<in> set t. \<not> P r}"
  by (auto simp: delete_where_def)

lemma map_update_where:
  "(\<And>r. P r \<Longrightarrow> key (f r) = key r) \<Longrightarrow> map key (update_where P f t) = map key t"
  by (auto simp: update_where_def)

lemma image_update_where:
  "(\<And>r. P r \<Longrightarrow> key (f r) = key r) \<Longrightarrow> key ` set (update_where P f t) = key ` set t"
  by (metis map_update_where set_map)

lemma distinct_delete_where: "distinct (map key t) \<Longrightarrow> distinct (map key (delete_where P t))"
  by (simp add: delete_where_def distinct_map_filter)

lemma fk_delete: "f ` A \<subseteq> g ` B \<Longrightarrow> f ` {x \<in> A. f x \<noteq> i} \<subseteq> g ` {x \<in> B. g x \<noteq> i}"
  by blast

lemma subset_image_filter: "f ` A \<subseteq> S \<Longrightarrow> f ` {x \<in> A. P x} \<subseteq> S"
  by blast

lemma run_exec_None: "run_exec ok db' db = (None, d) \<longleftrightarrow> t_down db = None \<and> ok \<and> d = db'"
  by (auto simp: run_exec_def split: option.splits)

lemma run_exec_Some: "run_exec ok db' db = (Some e, d) \<Longrightarrow> d = db"
  by (auto simp: run_exec_def split: option.splits if_splits)

lemma run_exec_cases: "snd (run_exec ok db' db) = db \<or> (ok \<and> snd (run_exec ok db' db) = db')"
  by (auto simp: run_exec_def split: option.splits)

lemma run_count_cases: "snd (run_count n db' db) = db \<or> snd (run_count n db' db) = db'"
  by (auto simp: run_count_def split: option.splits)

lemma run_exec_inv: "P db \<Longrightarrow> (ok \<Longrightarrow> P db') \<Longrightarrow> P (snd (run_exec ok db' db))"
  using run_exec_cases [of ok db' db] by auto

lemma run_count_inv: "P db \<Longrightarrow> P db' \<Longrightarrow> P (snd (run_count n db' db))"
  using run_count_cases [of n db' db] by auto

lemma run_row_Inr: "run_row P t db = Inr r \<Longrightarrow> r \<in> set t \<and> P r"
  by (auto simp: run_row_def split: option.splits dest: find_SomeD)

lemma run_row_NotFound: "run_row P t db = Inl ErrNotFound \<Longrightarrow> r \<in> set t \<Longrightarrow> \<not> P r"
  by (auto simp: run_row_def split: option.splits dest: find_NoneD)

text \<open>On a column without duplicates a row is found by its key, and only it.\<close>

lemma find_unique:
  assumes "distinct (map key t)" and "r \<in> set t"
  shows "find (\<lambda>x. key x = key r) t = Some r"
  using assms by (induction t) auto

lemma run_row_unique:
  assumes "distinct (map key t)" and "r \<in> set t" and "t_down db = None"
  shows "run_row (\<lambda>x. key x = key r) t db = Inr r"
  using find_unique [OF assms(1,2)] assms(3) by (simp add: run_row_def)

lemma unique_rowD: "distinct (map key t) \<Longrightarrow> a \<in> set t \<Longrightarrow> b \<in> set t \<Longrightarrow> key a = key b \<Longrightarrow> a = b"
  by (metis find_unique option.inject)

lemma find_append: "find P (xs @ ys) = (case find P xs of None \<Rightarrow> find P ys | Some x \<Rightarrow> Some x)"
  by (induction xs) auto

lemma find_update_where:
  "(\<And>x. P (if Q x then f x else x) = P x) \<Longrightarrow>
     find P (update_where Q f t) = map_option (\<lambda>x. if Q x then f x else x) (find P t)"
  by (induction t) (auto simp: update_where_def)

lemma find_update_other:
  "(\<And>x. Q x \<Longrightarrow> \<not> P x \<and> \<not> P (f x)) \<Longrightarrow> find P (update_where Q f t) = find P t"
  by (induction t) (auto simp: update_where_def)

lemma set_order_by [simp]: "set (order_by key t) = set t"
  by (simp add: order_by_def)

lemma set_order_by_desc [simp]: "set (order_by_desc key t) = set t"
  by (simp add: order_by_desc_def)

lemma sorted_order_by: "sorted (map key (order_by key t))"
  by (simp add: order_by_def)

end
