(* ===== verification/Accounts.thy ===== *)
theory Accounts
  imports Database
begin

text \<open>
  The account tables of \<open>internal/store/sqlstore/sqlstore.go\<close>: users, API keys, passkeys,
  sessions, quotas and usage counters. The schema invariant \<open>accounts_ok\<close> (keys, unique
  columns, references with their delete actions) is kept by every statement.
\<close>

subsection \<open>Users\<close>

definition CreateUser :: "User \<Rightarrow> database \<Rightarrow> store_error option \<times> database" where
  "CreateUser u db =
     run_exec (\<not> has u_ID (u_ID u) (t_users db) \<and> \<not> has u_Name (u_Name u) (t_users db)
               \<and> u_Role u \<in> {''admin'', ''viewer''})
       (db\<lparr>t_users := t_users db @ [u]\<rparr>) db"

definition GetUser :: "string \<Rightarrow> database \<Rightarrow> store_error + User" where
  "GetUser i db = run_row (\<lambda>u. u_ID u = i) (t_users db) db"

definition GetUserByName :: "string \<Rightarrow> database \<Rightarrow> store_error + User" where
  "GetUserByName nm db = run_row (\<lambda>u. u_Name u = nm) (t_users db) db"

definition ListUsers :: "database \<Rightarrow> store_error + User list" where
  "ListUsers db = run_query (order_by u_CreatedAt (t_users db)) db"

definition UpdateUser :: "User \<Rightarrow> database \<Rightarrow> store_error option \<times> database" where
  "UpdateUser u db =
     run_exec (has u_ID (u_ID u) (t_users db) \<longrightarrow>
                 \<not> list_ex (\<lambda>x. u_Name x = u_Name u \<and> u_ID x \<noteq> u_ID u) (t_users db)
                 \<and> u_Role u \<in> {''admin'', ''viewer''})
       (db\<lparr>t_users := update_where (\<lambda>x. u_ID x = u_ID u)
             (\<lambda>x. x\<lparr>u_Name := u_Name u, u_Role := u_Role u, u_Disabled := u_Disabled u\<rparr>) (t_users db)\<rparr>) db"

text \<open>\<open>ON DELETE CASCADE\<close> on the keys, passkeys, sessions and quota of the user.\<close>

definition DeleteUser :: "string \<Rightarrow> database \<Rightarrow> store_error option \<times> database" where
  "DeleteUser i db =
     run_exec True
       (db\<lparr>t_users := delete_where (\<lambda>u. u_ID u = i) (t_users db),
           t_keys := delete_where (\<lambda>k. k_UserID k = i) (t_keys db),
           t_passkeys := delete_where (\<lambda>p. pk_UserID p = i) (t_passkeys db),
           t_sessions := delete_where (\<lambda>s. s_UserID s = i) (t_sessions db),
           t_quotas := delete_where (\<lambda>q. uq_UserID q = i) (t_quotas db)\<rparr>) db"

definition CountAdmins :: "database \<Rightarrow> store_error + nat" where
  "CountAdmins db = run_query (count_where (\<lambda>u. u_Role u = ''admin'' \<and> \<not> u_Disabled u) (t_users db)) db"

subsection \<open>API keys\<close>

definition CreateAPIKey :: "APIKey \<Rightarrow> database \<Rightarrow> store_error option \<times> database" where
  "CreateAPIKey k db =
     run_exec (\<not> has k_ID (k_ID k) (t_keys db) \<and> \<not> has k_Prefix (k_Prefix k) (t_keys db)
               \<and> has u_ID (k_UserID k) (t_users db) \<and> (k_ChainID k = [] \<or> has cr_ID (k_ChainID k) (t_chains db)))
       (db\<lparr>t_keys := t_keys db @ [k]\<rparr>) db"

definition GetAPIKey :: "string \<Rightarrow> database \<Rightarrow> store_error + APIKey" where
  "GetAPIKey i db = run_row (\<lambda>k. k_ID k = i) (t_keys db) db"

definition GetAPIKeyByPrefix :: "string \<Rightarrow> database \<Rightarrow> store_error + APIKey" where
  "GetAPIKeyByPrefix pre db = run_row (\<lambda>k. k_Prefix k = pre) (t_keys db) db"

definition ListAPIKeys :: "string \<Rightarrow> database \<Rightarrow> store_error + APIKey list" where
  "ListAPIKeys userID db =
     run_query (order_by_desc k_CreatedAt
       (if userID \<noteq> [] then filter (\<lambda>k. k_UserID k = userID) (t_keys db) else t_keys db)) db"

definition UpdateAPIKey :: "APIKey \<Rightarrow> database \<Rightarrow> store_error option \<times> database" where
  "UpdateAPIKey k db =
     run_exec (has k_ID (k_ID k) (t_keys db) \<longrightarrow> k_ChainID k = [] \<or> has cr_ID (k_ChainID k) (t_chains db))
       (db\<lparr>t_keys := update_where (\<lambda>x. k_ID x = k_ID k)
             (\<lambda>x. x\<lparr>k_Name := k_Name k, k_Scopes := k_Scopes k, k_ChainID := k_ChainID k,
                    k_Permissions := k_Permissions k, k_LastUsedAt := k_LastUsedAt k,
                    k_ExpiresAt := k_ExpiresAt k, k_RevokedAt := k_RevokedAt k\<rparr>) (t_keys db)\<rparr>) db"

definition DeleteAPIKey :: "string \<Rightarrow> database \<Rightarrow> store_error option \<times> database" where
  "DeleteAPIKey i db = run_exec True (db\<lparr>t_keys := delete_where (\<lambda>k. k_ID k = i) (t_keys db)\<rparr>) db"

definition CountKeysByChain :: "string \<Rightarrow> database \<Rightarrow> store_error + nat" where
  "CountKeysByChain chainID db =
     (if chainID = [] then Inr 0 else run_query (count_where (\<lambda>k. k_ChainID k = chainID) (t_keys db)) db)"

definition CountActiveKeysByChain :: "string \<Rightarrow> database \<Rightarrow> store_error + nat" where
  "CountActiveKeysByChain chainID db =
     (if chainID = [] then Inr 0
      else run_query (count_where (\<lambda>k. k_ChainID k = chainID \<and> k_RevokedAt k = []) (t_keys db)) db)"

text \<open>
  The comparison \<open>chain_id = ?\<close> is never true of \<open>NULL\<close>, so an empty argument affects no row.
\<close>

definition ClearKeyChainRefs :: "string \<Rightarrow> database \<Rightarrow> (store_error + nat) \<times> database" where
  "ClearKeyChainRefs chainID db =
     (let bound = (\<lambda>k. chainID \<noteq> [] \<and> k_ChainID k = chainID)
      in run_count (count_where bound (t_keys db))
           (db\<lparr>t_keys := update_where bound (\<lambda>k. k\<lparr>k_ChainID := []\<rparr>) (t_keys db)\<rparr>) db)"

subsection \<open>Usage counters and rolling hits\<close>

definition usage_of :: "database \<Rightarrow> string \<Rightarrow> string \<Rightarrow> int" where
  "usage_of db subject day = (case map_of (t_usage db) (subject, day) of None \<Rightarrow> 0 | Some n \<Rightarrow> n)"

definition IncrementUsage :: "string \<Rightarrow> string \<Rightarrow> database \<Rightarrow> (store_error + int) \<times> database" where
  "IncrementUsage subject day db =
     (case t_down db of Some e \<Rightarrow> (Inl (StoreFailure e), db)
      | None \<Rightarrow>
          (let n = usage_of db subject day + 1
           in (Inr n, db\<lparr>t_usage := AList.update (subject, day) n (t_usage db)\<rparr>)))"

definition GetUsage :: "string \<Rightarrow> string \<Rightarrow> database \<Rightarrow> store_error + int" where
  "GetUsage subject day db = run_query (usage_of db subject day) db"

definition UsageByDay :: "string \<Rightarrow> database \<Rightarrow> store_error + (string \<rightharpoonup> int)" where
  "UsageByDay day db = run_query (\<lambda>subject. map_of (t_usage db) (subject, day)) db"

definition DeleteOldUsage :: "string \<Rightarrow> database \<Rightarrow> (store_error + nat) \<times> database" where
  "DeleteOldUsage beforeDay db =
     (let old = (\<lambda>((subject, day), n). take 10 day < beforeDay)
      in run_count (count_where old (t_usage db)) (db\<lparr>t_usage := delete_where old (t_usage db)\<rparr>) db)"

definition AddRollingHit :: "string \<Rightarrow> string \<Rightarrow> database \<Rightarrow> store_error option \<times> database" where
  "AddRollingHit subject ts db =
     run_exec True (db\<lparr>t_rolling := (if (subject, ts) \<in> set (t_rolling db) then t_rolling db
                                  else t_rolling db @ [(subject, ts)])\<rparr>) db"

definition CountRollingHits :: "string \<Rightarrow> string \<Rightarrow> database \<Rightarrow> store_error + nat" where
  "CountRollingHits subject since db =
     run_query (count_where (\<lambda>(s, ts). s = subject \<and> since \<le> ts) (t_rolling db)) db"

definition DeleteOldRollingHits :: "string \<Rightarrow> database \<Rightarrow> (store_error + nat) \<times> database" where
  "DeleteOldRollingHits before db =
     (let old = (\<lambda>(s, ts). ts < before)
      in run_count (count_where old (t_rolling db)) (db\<lparr>t_rolling := delete_where old (t_rolling db)\<rparr>) db)"

subsection \<open>Quotas of users\<close>

definition GetUserQuota :: "string \<Rightarrow> database \<Rightarrow> store_error + UserQuota" where
  "GetUserQuota userID db = run_row (\<lambda>q. uq_UserID q = userID) (t_quotas db) db"

definition quota_periods :: "string list" where
  "quota_periods = [''daily'', ''weekly'', ''monthly'', ''rolling'']"

definition SetUserQuota :: "UserQuota \<Rightarrow> database \<Rightarrow> store_error option \<times> database" where
  "SetUserQuota q db =
     run_exec (uq_Period q \<in> set quota_periods \<and> has u_ID (uq_UserID q) (t_users db))
       (db\<lparr>t_quotas := (if has uq_UserID (uq_UserID q) (t_quotas db)
             then update_where (\<lambda>x. uq_UserID x = uq_UserID q) (\<lambda>_. q) (t_quotas db)
             else t_quotas db @ [q])\<rparr>) db"

definition DeleteUserQuota :: "string \<Rightarrow> database \<Rightarrow> store_error option \<times> database" where
  "DeleteUserQuota userID db =
     run_exec True (db\<lparr>t_quotas := delete_where (\<lambda>q. uq_UserID q = userID) (t_quotas db)\<rparr>) db"

definition ListUserQuotas :: "database \<Rightarrow> store_error + (string \<rightharpoonup> UserQuota)" where
  "ListUserQuotas db = run_query (map_of (map (\<lambda>q. (uq_UserID q, q)) (t_quotas db))) db"

subsection \<open>Passkeys\<close>

definition CreatePasskey :: "Passkey \<Rightarrow> database \<Rightarrow> store_error option \<times> database" where
  "CreatePasskey p db =
     run_exec (\<not> has pk_ID (pk_ID p) (t_passkeys db) \<and> \<not> has pk_CredentialID (pk_CredentialID p) (t_passkeys db)
               \<and> has u_ID (pk_UserID p) (t_users db))
       (db\<lparr>t_passkeys := t_passkeys db @ [p]\<rparr>) db"

definition GetPasskeyByCredentialID :: "string \<Rightarrow> database \<Rightarrow> store_error + Passkey" where
  "GetPasskeyByCredentialID cid db = run_row (\<lambda>p. pk_CredentialID p = cid) (t_passkeys db) db"

definition ListPasskeys :: "string \<Rightarrow> database \<Rightarrow> store_error + Passkey list" where
  "ListPasskeys userID db =
     run_query (order_by pk_CreatedAt (filter (\<lambda>p. pk_UserID p = userID) (t_passkeys db))) db"

definition UpdatePasskey :: "Passkey \<Rightarrow> database \<Rightarrow> store_error option \<times> database" where
  "UpdatePasskey p db =
     run_exec True
       (db\<lparr>t_passkeys := update_where (\<lambda>x. pk_ID x = pk_ID p)
             (\<lambda>x. x\<lparr>pk_SignCount := pk_SignCount p, pk_LastUsedAt := pk_LastUsedAt p, pk_Name := pk_Name p\<rparr>)
             (t_passkeys db)\<rparr>) db"

definition DeletePasskey :: "string \<Rightarrow> database \<Rightarrow> store_error option \<times> database" where
  "DeletePasskey i db = run_exec True (db\<lparr>t_passkeys := delete_where (\<lambda>p. pk_ID p = i) (t_passkeys db)\<rparr>) db"

subsection \<open>Sessions\<close>

definition CreateSessionRow :: "Session \<Rightarrow> database \<Rightarrow> store_error option \<times> database" where
  "CreateSessionRow s db =
     run_exec (\<not> has s_ID (s_ID s) (t_sessions db) \<and> \<not> has s_TokenHash (s_TokenHash s) (t_sessions db)
               \<and> has u_ID (s_UserID s) (t_users db))
       (db\<lparr>t_sessions := t_sessions db @ [s]\<rparr>) db"

definition GetSession :: "string \<Rightarrow> database \<Rightarrow> store_error + Session" where
  "GetSession i db = run_row (\<lambda>s. s_ID s = i) (t_sessions db) db"

definition GetSessionByTokenHash :: "string \<Rightarrow> database \<Rightarrow> store_error + Session" where
  "GetSessionByTokenHash h db = run_row (\<lambda>s. s_TokenHash s = h) (t_sessions db) db"

definition UpdateSessionExpiry :: "string \<Rightarrow> string \<Rightarrow> database \<Rightarrow> store_error option \<times> database" where
  "UpdateSessionExpiry i expiresAt db =
     run_exec True
       (db\<lparr>t_sessions := update_where (\<lambda>s. s_ID s = i) (\<lambda>s. s\<lparr>s_ExpiresAt := expiresAt\<rparr>) (t_sessions db)\<rparr>) db"

definition DeleteSession :: "string \<Rightarrow> database \<Rightarrow> store_error option \<times> database" where
  "DeleteSession i db = run_exec True (db\<lparr>t_sessions := delete_where (\<lambda>s. s_ID s = i) (t_sessions db)\<rparr>) db"

definition DeleteUserSessions :: "string \<Rightarrow> database \<Rightarrow> store_error option \<times> database" where
  "DeleteUserSessions userID db =
     run_exec True (db\<lparr>t_sessions := delete_where (\<lambda>s. s_UserID s = userID) (t_sessions db)\<rparr>) db"

definition DeleteExpiredSessions :: "string \<Rightarrow> database \<Rightarrow> (store_error + nat) \<times> database" where
  "DeleteExpiredSessions now db =
     (let old = (\<lambda>s. s_ExpiresAt s < now)
      in run_count (count_where old (t_sessions db)) (db\<lparr>t_sessions := delete_where old (t_sessions db)\<rparr>) db)"

subsection \<open>The schema invariant\<close>

definition accounts_ok :: "database \<Rightarrow> bool" where
  "accounts_ok db \<longleftrightarrow>
     distinct (map u_ID (t_users db)) \<and> distinct (map u_Name (t_users db)) \<and>
     u_Role ` set (t_users db) \<subseteq> {''admin'', ''viewer''} \<and>
     distinct (map k_ID (t_keys db)) \<and> distinct (map k_Prefix (t_keys db)) \<and>
     distinct (map pk_ID (t_passkeys db)) \<and> distinct (map pk_CredentialID (t_passkeys db)) \<and>
     distinct (map s_ID (t_sessions db)) \<and> distinct (map s_TokenHash (t_sessions db)) \<and>
     distinct (map uq_UserID (t_quotas db)) \<and> distinct (map fst (t_usage db)) \<and> distinct (t_rolling db) \<and>
     k_UserID ` set (t_keys db) \<union> pk_UserID ` set (t_passkeys db) \<union> s_UserID ` set (t_sessions db)
       \<union> uq_UserID ` set (t_quotas db) \<subseteq> u_ID ` set (t_users db) \<and>
     k_ChainID ` set (t_keys db) \<subseteq> insert [] (cr_ID ` set (t_chains db))"

text \<open>The statements that change the account tables, as one type of commands.\<close>

datatype account_stmt =
  Create_user User | Update_user User | Delete_user string
| Create_key APIKey | Update_key APIKey | Delete_key string | Clear_chain_refs string
| Increment_usage string string | Delete_old_usage string | Add_rolling string string | Delete_old_rolling string
| Set_quota UserQuota | Delete_quota string
| Create_passkey Passkey | Update_passkey Passkey | Delete_passkey string
| Create_session Session | Update_expiry string string | Delete_session string
| Delete_user_sessions string | Delete_expired string

fun exec_stmt :: "account_stmt \<Rightarrow> database \<Rightarrow> database" where
  "exec_stmt (Create_user u) db = snd (CreateUser u db)"
| "exec_stmt (Update_user u) db = snd (UpdateUser u db)"
| "exec_stmt (Delete_user i) db = snd (DeleteUser i db)"
| "exec_stmt (Create_key k) db = snd (CreateAPIKey k db)"
| "exec_stmt (Update_key k) db = snd (UpdateAPIKey k db)"
| "exec_stmt (Delete_key i) db = snd (DeleteAPIKey i db)"
| "exec_stmt (Clear_chain_refs i) db = snd (ClearKeyChainRefs i db)"
| "exec_stmt (Increment_usage s d) db = snd (IncrementUsage s d db)"
| "exec_stmt (Delete_old_usage d) db = snd (DeleteOldUsage d db)"
| "exec_stmt (Add_rolling s ts) db = snd (AddRollingHit s ts db)"
| "exec_stmt (Delete_old_rolling b) db = snd (DeleteOldRollingHits b db)"
| "exec_stmt (Set_quota q) db = snd (SetUserQuota q db)"
| "exec_stmt (Delete_quota i) db = snd (DeleteUserQuota i db)"
| "exec_stmt (Create_passkey p) db = snd (CreatePasskey p db)"
| "exec_stmt (Update_passkey p) db = snd (UpdatePasskey p db)"
| "exec_stmt (Delete_passkey i) db = snd (DeletePasskey i db)"
| "exec_stmt (Create_session s) db = snd (CreateSessionRow s db)"
| "exec_stmt (Update_expiry i e) db = snd (UpdateSessionExpiry i e db)"
| "exec_stmt (Delete_session i) db = snd (DeleteSession i db)"
| "exec_stmt (Delete_user_sessions i) db = snd (DeleteUserSessions i db)"
| "exec_stmt (Delete_expired now) db = snd (DeleteExpiredSessions now db)"

lemmas account_stmt_defs = CreateUser_def UpdateUser_def DeleteUser_def CreateAPIKey_def UpdateAPIKey_def
  DeleteAPIKey_def ClearKeyChainRefs_def IncrementUsage_def DeleteOldUsage_def AddRollingHit_def
  DeleteOldRollingHits_def SetUserQuota_def DeleteUserQuota_def CreatePasskey_def UpdatePasskey_def
  DeletePasskey_def CreateSessionRow_def UpdateSessionExpiry_def DeleteSession_def DeleteUserSessions_def
  DeleteExpiredSessions_def

lemma accounts_ok_empty: "accounts_ok empty_db"
  by (simp add: accounts_ok_def empty_db_def)

lemma update_where_none: "(\<And>r. r \<in> set t \<Longrightarrow> \<not> P r) \<Longrightarrow> update_where P f t = t"
  by (simp add: update_where_def map_idI)

lemma not_in_map: "(\<And>y. y \<in> set t \<Longrightarrow> key y \<noteq> k) \<Longrightarrow> k \<notin> set (map key t)"
  by auto

lemma distinct_update_key:
  assumes "distinct (map key t)" and "\<not> list_ex (\<lambda>x. key x = key u \<and> i x \<noteq> i u) t"
    and "\<And>x. i x = i u \<Longrightarrow> key (f x) = key u" and "distinct (map i t)"
  shows "distinct (map key (update_where (\<lambda>x. i x = i u) f t))"
  using assms
proof (induction t)
  case (Cons a t)
  then have IH: "distinct (map key (update_where (\<lambda>x. i x = i u) f t))" by simp
  have "key y \<noteq> key (if i a = i u then f a else a)" if "y \<in> set (update_where (\<lambda>x. i x = i u) f t)" for y
    using that Cons.prems by (fastforce simp: set_update_where list_ex_iff image_iff split: if_splits)
  then have "key (if i a = i u then f a else a) \<notin> set (map key (update_where (\<lambda>x. i x = i u) f t))"
    by (rule not_in_map)
  with IH show ?case by (simp only: update_where_Cons list.map distinct.simps) blast
qed (simp add: update_where_def)

lemma distinct_update_row:
  "distinct (map key t) \<Longrightarrow> (\<And>x. P x \<Longrightarrow> key (f x) = key x) \<Longrightarrow> distinct (map key (update_where P f t))"
  by (simp add: map_update_where)

lemma accounts_ok_run_exec: "accounts_ok db \<Longrightarrow> (accounts_ok db \<Longrightarrow> ok \<Longrightarrow> accounts_ok db') \<Longrightarrow> accounts_ok (snd (run_exec ok db' db))"
  using run_exec_cases [of ok db' db] by auto

lemma accounts_ok_run_count: "accounts_ok db \<Longrightarrow> (accounts_ok db \<Longrightarrow> accounts_ok db') \<Longrightarrow> accounts_ok (snd (run_count n db' db))"
  using run_count_cases [of n db' db] by auto

lemma accounts_ok_IncrementUsage: "accounts_ok db \<Longrightarrow> accounts_ok (snd (IncrementUsage s d db))"
  by (auto simp: IncrementUsage_def Let_def accounts_ok_def distinct_update split: option.split)

lemma accounts_ok_UpdateUser: "accounts_ok db \<Longrightarrow> accounts_ok (snd (UpdateUser u db))"
  unfolding UpdateUser_def
proof (erule accounts_ok_run_exec)
  let ?f = "\<lambda>x. x\<lparr>u_Name := u_Name u, u_Role := u_Role u, u_Disabled := u_Disabled u\<rparr>"
  assume ok: "accounts_ok db"
    and c: "has u_ID (u_ID u) (t_users db) \<longrightarrow>
      \<not> list_ex (\<lambda>x. u_Name x = u_Name u \<and> u_ID x \<noteq> u_ID u) (t_users db) \<and> u_Role u \<in> {''admin'', ''viewer''}"
  have ids: "map u_ID (update_where (\<lambda>x. u_ID x = u_ID u) ?f (t_users db)) = map u_ID (t_users db)"
    by (rule map_update_where) simp
  show "accounts_ok (db\<lparr>t_users := update_where (\<lambda>x. u_ID x = u_ID u) ?f (t_users db)\<rparr>)"
  proof (cases "has u_ID (u_ID u) (t_users db)")
    case True
    have "distinct (map u_Name (update_where (\<lambda>x. u_ID x = u_ID u) ?f (t_users db)))"
      using ok c True by (intro distinct_update_key) (auto simp: accounts_ok_def)
    moreover have "u_Role ` set (update_where (\<lambda>x. u_ID x = u_ID u) ?f (t_users db)) \<subseteq> {''admin'', ''viewer''}"
      using ok c True by (auto simp: accounts_ok_def set_update_where)
    ultimately show ?thesis
      using ok ids image_update_where [of "\<lambda>x. u_ID x = u_ID u" u_ID ?f "t_users db"] by (simp add: accounts_ok_def)
  next
    case False
    then have "update_where (\<lambda>x. u_ID x = u_ID u) ?f (t_users db) = t_users db"
      by (intro update_where_none) (auto simp: image_iff)
    then show ?thesis using ok by simp
  qed
qed

lemma accounts_ok_UpdateAPIKey: "accounts_ok db \<Longrightarrow> accounts_ok (snd (UpdateAPIKey k db))"
  unfolding UpdateAPIKey_def
proof (erule accounts_ok_run_exec)
  let ?f = "\<lambda>x. x\<lparr>k_Name := k_Name k, k_Scopes := k_Scopes k, k_ChainID := k_ChainID k,
    k_Permissions := k_Permissions k, k_LastUsedAt := k_LastUsedAt k,
    k_ExpiresAt := k_ExpiresAt k, k_RevokedAt := k_RevokedAt k\<rparr>"
  assume ok: "accounts_ok db"
    and c: "has k_ID (k_ID k) (t_keys db) \<longrightarrow> k_ChainID k = [] \<or> has cr_ID (k_ChainID k) (t_chains db)"
  show "accounts_ok (db\<lparr>t_keys := update_where (\<lambda>x. k_ID x = k_ID k) ?f (t_keys db)\<rparr>)"
  proof (cases "has k_ID (k_ID k) (t_keys db)")
    case True
    then have "k_ChainID k \<in> insert [] (cr_ID ` set (t_chains db))" using c by auto
    then have "k_ChainID ` set (update_where (\<lambda>x. k_ID x = k_ID k) ?f (t_keys db)) \<subseteq> insert [] (cr_ID ` set (t_chains db))"
      using ok by (auto simp: accounts_ok_def set_update_where)
    moreover have "k_UserID ` set (update_where (\<lambda>x. k_ID x = k_ID k) ?f (t_keys db)) = k_UserID ` set (t_keys db)"
      by (rule image_update_where) simp
    ultimately show ?thesis using ok by (simp add: accounts_ok_def distinct_update_row)
  next
    case False
    then have "update_where (\<lambda>x. k_ID x = k_ID k) ?f (t_keys db) = t_keys db"
      by (intro update_where_none) (auto simp: image_iff)
    then show ?thesis using ok by simp
  qed
qed

lemma accounts_ok_DeleteUser: "accounts_ok db \<Longrightarrow> accounts_ok (snd (DeleteUser i db))"
  unfolding DeleteUser_def
  by (rule accounts_ok_run_exec) (auto simp: accounts_ok_def distinct_delete_where)

theorem accounts_ok_exec: "accounts_ok db \<Longrightarrow> accounts_ok (exec_stmt s db)"
proof (induction s)
  case (Create_user u) then show ?case
    by (simp add: CreateUser_def) (rule accounts_ok_run_exec, auto simp: accounts_ok_def)
next
  case (Update_user u) then show ?case by (simp add: accounts_ok_UpdateUser)
next
  case (Delete_user i) then show ?case by (simp add: accounts_ok_DeleteUser)
next
  case (Create_key k) then show ?case
    by (simp add: CreateAPIKey_def) (rule accounts_ok_run_exec, auto simp: accounts_ok_def)
next
  case (Update_key k) then show ?case by (simp add: accounts_ok_UpdateAPIKey)
next
  case (Clear_chain_refs i) then show ?case
    unfolding exec_stmt.simps ClearKeyChainRefs_def Let_def
    by (rule accounts_ok_run_count) (auto simp: accounts_ok_def distinct_update_row set_update_where)
next
  case (Increment_usage s d) then show ?case by (simp add: accounts_ok_IncrementUsage)
next
  case (Set_quota q) then show ?case
    unfolding exec_stmt.simps SetUserQuota_def
    by (rule accounts_ok_run_exec) (auto simp: accounts_ok_def distinct_update_row set_update_where)
next
  case (Create_passkey p) then show ?case
    by (simp add: CreatePasskey_def) (rule accounts_ok_run_exec, auto simp: accounts_ok_def)
next
  case (Update_passkey p) then show ?case
    unfolding exec_stmt.simps UpdatePasskey_def
    by (rule accounts_ok_run_exec) (auto simp: accounts_ok_def distinct_update_row set_update_where)
next
  case (Create_session s) then show ?case
    by (simp add: CreateSessionRow_def) (rule accounts_ok_run_exec, auto simp: accounts_ok_def)
next
  case (Update_expiry i e) then show ?case
    unfolding exec_stmt.simps UpdateSessionExpiry_def
    by (rule accounts_ok_run_exec) (auto simp: accounts_ok_def distinct_update_row set_update_where)
next
  case (Delete_old_usage d) then show ?case
    unfolding exec_stmt.simps DeleteOldUsage_def Let_def
    by (rule accounts_ok_run_count) (auto simp: accounts_ok_def distinct_delete_where)
next
  case (Delete_old_rolling d) then show ?case
    unfolding exec_stmt.simps DeleteOldRollingHits_def Let_def
    by (rule accounts_ok_run_count) (auto simp: accounts_ok_def delete_where_def)
next
  case (Delete_expired d) then show ?case
    unfolding exec_stmt.simps DeleteExpiredSessions_def Let_def
    by (rule accounts_ok_run_count) (auto simp: accounts_ok_def distinct_delete_where)
next
  case (Delete_key i) then show ?case
    unfolding exec_stmt.simps DeleteAPIKey_def
    by (rule accounts_ok_run_exec) (auto simp: accounts_ok_def distinct_delete_where)
next
  case (Add_rolling a b) then show ?case
    unfolding exec_stmt.simps AddRollingHit_def
    by (rule accounts_ok_run_exec) (auto simp: accounts_ok_def distinct_delete_where)
next
  case (Delete_quota i) then show ?case
    unfolding exec_stmt.simps DeleteUserQuota_def
    by (rule accounts_ok_run_exec) (auto simp: accounts_ok_def distinct_delete_where)
next
  case (Delete_passkey i) then show ?case
    unfolding exec_stmt.simps DeletePasskey_def
    by (rule accounts_ok_run_exec) (auto simp: accounts_ok_def distinct_delete_where)
next
  case (Delete_session i) then show ?case
    unfolding exec_stmt.simps DeleteSession_def
    by (rule accounts_ok_run_exec) (auto simp: accounts_ok_def distinct_delete_where)
next
  case (Delete_user_sessions i) then show ?case
    unfolding exec_stmt.simps DeleteUserSessions_def
    by (rule accounts_ok_run_exec) (auto simp: accounts_ok_def distinct_delete_where)
qed

text \<open>Deleting a user leaves none of the credentials of the user behind.\<close>

lemma DeleteUser_purges:
  assumes "DeleteUser i db = (None, db')"
  shows "i \<notin> u_ID ` set (t_users db') \<union> k_UserID ` set (t_keys db') \<union> pk_UserID ` set (t_passkeys db')
           \<union> s_UserID ` set (t_sessions db') \<union> uq_UserID ` set (t_quotas db')"
  using assms by (auto simp: DeleteUser_def run_exec_None)

lemma IncrementUsage_value:
  "IncrementUsage s d db = (Inr n, db') \<Longrightarrow> n = usage_of db s d + 1 \<and> usage_of db' s d = n"
  by (auto simp: IncrementUsage_def Let_def usage_of_def update_conv' split: option.splits)

lemma IncrementUsage_other:
  "(s', d') \<noteq> (s, d) \<Longrightarrow> usage_of (snd (IncrementUsage s d db)) s' d' = usage_of db s' d'"
  by (auto simp: IncrementUsage_def Let_def usage_of_def update_conv' split: option.splits)

end
