(* ===== verification/Auth_Keys.thy ===== *)
theory Auth_Keys
  imports Base64 Models
begin

text \<open>
  \<open>internal/auth/keys.go\<close>: generating, parsing and verifying API keys. The derivation
  \<open>argon2.IDKey\<close> (password, salt, time, memory, threads, length) is an argument; random bytes
  are arguments too, \<open>None\<close> for a failing source.
\<close>

definition SearchKeyPrefix :: string where "SearchKeyPrefix = ''seek_ak_''"
definition AdminKeyPrefix :: string where "AdminKeyPrefix = ''seek_admin_''"
definition DeveloperKeyPrefix :: string where "DeveloperKeyPrefix = ''seek_dev_''"

datatype key_kind = KindSearch | KindAdmin | KindDeveloper

definition prefix_of :: "key_kind \<Rightarrow> string" where
  "prefix_of k = (case k of KindSearch \<Rightarrow> SearchKeyPrefix | KindAdmin \<Rightarrow> AdminKeyPrefix
                  | KindDeveloper \<Rightarrow> DeveloperKeyPrefix)"

lemmas key_prefix_defs = SearchKeyPrefix_def AdminKeyPrefix_def DeveloperKeyPrefix_def

subsection \<open>Hashing secrets\<close>

type_synonym idkey = "string \<Rightarrow> string \<Rightarrow> nat \<Rightarrow> nat \<Rightarrow> nat \<Rightarrow> nat \<Rightarrow> string"

definition argonTime :: nat where "argonTime = 3"
definition argonMemory :: nat where "argonMemory = 16 * 1024"
definition argonThreads :: nat where "argonThreads = 2"
definition argonKeyLen :: nat where "argonKeyLen = 32"
definition argonSaltLen :: nat where "argonSaltLen = 16"

definition hash_params :: string where
  "hash_params = ''m=16384,t=3,p=2''"

definition HashSecret :: "idkey \<Rightarrow> string option \<Rightarrow> string \<Rightarrow> string option" where
  "HashSecret kdf rnd secret =
     (case rnd of None \<Rightarrow> None
      | Some salt \<Rightarrow>
          (let key = kdf secret salt argonTime argonMemory argonThreads argonKeyLen
           in Some (''argon2id$v=19$'' @ hash_params @ ''$'' @ raw_encode std_alphabet salt @ ''$''
                    @ raw_encode std_alphabet key)))"

text \<open>
  \<open>fmt.Sscanf\<close> with the layout \<open>m=%d,t=%d,p=%d\<close>: literals match exactly, a number is read
  after optional spaces and must fit its type, and what follows the last number is ignored.
\<close>

definition scan_lit :: "string \<Rightarrow> string \<Rightarrow> string option" where
  "scan_lit p s = (if HasPrefix s p then Some (TrimPrefix s p) else None)"

definition is_dec :: "char \<Rightarrow> bool" where
  "is_dec c \<longleftrightarrow> CHR ''0'' \<le> c \<and> c \<le> CHR ''9''"

definition scan_uint :: "nat \<Rightarrow> string \<Rightarrow> (nat \<times> string) option" where
  "scan_uint bits s =
     (let t = dropWhile (\<lambda>c. c = CHR '' '') s
      in (case parse_nat (takeWhile is_dec t) of None \<Rightarrow> None
          | Some n \<Rightarrow> if n < 2 ^ bits then Some (n, dropWhile is_dec t) else None))"

definition scan_params :: "string \<Rightarrow> (nat \<times> nat \<times> nat) option" where
  "scan_params s =
     (case Option.bind (scan_lit ''m='' s) (scan_uint 32) of None \<Rightarrow> None
      | Some (m, s1) \<Rightarrow>
          (case Option.bind (scan_lit '',t='' s1) (scan_uint 32) of None \<Rightarrow> None
           | Some (t, s2) \<Rightarrow>
               (case Option.bind (scan_lit '',p='' s2) (scan_uint 8) of None \<Rightarrow> None
                | Some (p, s3) \<Rightarrow> Some (m, t, p))))"

definition VerifySecret :: "idkey \<Rightarrow> string \<Rightarrow> string \<Rightarrow> bool" where
  "VerifySecret kdf encoded secret =
     (let parts = Split encoded CHR ''$'' in
      if length parts \<noteq> 5 \<or> parts ! 0 \<noteq> ''argon2id'' then False
      else (case scan_params (parts ! 2) of None \<Rightarrow> False
            | Some (memory, timeCost, threads) \<Rightarrow>
                (case (raw_decode std_alphabet (parts ! 3), raw_decode std_alphabet (parts ! 4)) of
                   (Some salt, Some want) \<Rightarrow> kdf secret salt timeCost memory threads (length want) = want
                 | _ \<Rightarrow> False)))"

subsection \<open>Generating and parsing\<close>

definition randomHex :: "string option \<Rightarrow> string option" where
  "randomHex rnd = map_option hex_encode rnd"

text \<open>The prefix of three random bytes, the secret of twelve, and the salt.\<close>

definition generate ::
  "idkey \<Rightarrow> string \<Rightarrow> string option \<Rightarrow> string option \<Rightarrow> string option \<Rightarrow> (string \<times> string \<times> string) option" where
  "generate kdf keyPrefix rnd3 rnd12 rnd16 =
     (case randomHex rnd3 of None \<Rightarrow> None
      | Some pref \<Rightarrow>
          (case randomHex rnd12 of None \<Rightarrow> None
           | Some secret \<Rightarrow>
               (case HashSecret kdf rnd16 secret of None \<Rightarrow> None
                | Some hash \<Rightarrow> Some (keyPrefix @ pref @ ''_'' @ secret, pref, hash))))"

definition GenerateKey ::
  "idkey \<Rightarrow> bool \<Rightarrow> string option \<Rightarrow> string option \<Rightarrow> string option \<Rightarrow> (string \<times> string \<times> string) option" where
  "GenerateKey kdf admin = generate kdf (if admin then AdminKeyPrefix else SearchKeyPrefix)"

definition GenerateDeveloperKey ::
  "idkey \<Rightarrow> string option \<Rightarrow> string option \<Rightarrow> string option \<Rightarrow> (string \<times> string \<times> string) option" where
  "GenerateDeveloperKey kdf = generate kdf DeveloperKeyPrefix"

definition split_key :: "key_kind \<Rightarrow> string \<Rightarrow> (key_kind \<times> string \<times> string) option" where
  "split_key kind token =
     (case SplitN2 token CHR ''_'' of
        [p, s] \<Rightarrow> if p = [] \<or> s = [] then None else Some (kind, p, s)
      | _ \<Rightarrow> None)"

definition ParseKey :: "string \<Rightarrow> (key_kind \<times> string \<times> string) option" where
  "ParseKey raw =
     (let token = TrimSpace raw in
      if HasPrefix token AdminKeyPrefix then split_key KindAdmin (TrimPrefix token AdminKeyPrefix)
      else if HasPrefix token DeveloperKeyPrefix then split_key KindDeveloper (TrimPrefix token DeveloperKeyPrefix)
      else if HasPrefix token SearchKeyPrefix then split_key KindSearch (TrimPrefix token SearchKeyPrefix)
      else None)"

subsection \<open>Facts\<close>

lemma hex_alphabet_nth: "n < 16 \<Longrightarrow> hex_alphabet ! n \<in> set hex_alphabet"
  by (intro nth_mem) (simp add: hex_alphabet_def)

lemma hex_encode_chars: "set (hex_encode s) \<subseteq> set hex_alphabet"
proof (induction s)
  case (Cons c s)
  have "byte c div 16 < 16" "byte c mod 16 < 16" using byte_less [of c] by (auto simp: less_mult_imp_div_less)
  with Cons show ?case by (auto simp: hex_encode_def hex_alphabet_nth)
qed (simp add: hex_encode_def)

lemma hex_encode_clean:
  "CHR ''_'' \<notin> set (hex_encode s)" "c \<in> set (hex_encode s) \<Longrightarrow> \<not> is_space c"
  using hex_encode_chars [of s] by (auto simp: hex_alphabet_def is_space_def)

lemma prefix_clean: "c \<in> set (prefix_of k) \<Longrightarrow> \<not> is_space c"
  by (cases k) (auto simp: prefix_of_def key_prefix_defs is_space_def)

lemma prefix_disjoint:
  "HasPrefix (prefix_of k @ s) (prefix_of k') \<longleftrightarrow> k = k'"
  by (cases k; cases k') (auto simp: prefix_of_def key_prefix_defs)

lemma ParseKey_prefix:
  assumes "\<And>c. c \<in> set s \<Longrightarrow> \<not> is_space c"
  shows "ParseKey (prefix_of k @ s) = split_key k s"
proof -
  have "TrimSpace (prefix_of k @ s) = prefix_of k @ s" using assms prefix_clean by (intro TrimSpace_clean) auto
  then show ?thesis
    using prefix_disjoint [of k s KindAdmin] prefix_disjoint [of k s KindDeveloper] prefix_disjoint [of k s KindSearch]
      TrimPrefix_append [of "prefix_of k" s]
    by (cases k) (simp_all add: ParseKey_def prefix_of_def)
qed

lemma hex_encode_Nil [simp]: "hex_encode s = [] \<longleftrightarrow> s = []"
  by (cases s) (simp_all add: hex_encode_def)

lemma is_space_us [simp]: "\<not> is_space CHR ''_''"
  by (simp add: is_space_def)

text \<open>A generated key parses to its kind, stored prefix and secret.\<close>

lemma ParseKey_generate:
  assumes "generate kdf (prefix_of k) (Some r3) (Some r12) (Some r16) = Some (plain, p, h)" "r3 \<noteq> []" "r12 \<noteq> []"
  shows "ParseKey plain = Some (k, p, hex_encode r12)" and "p = hex_encode r3"
    and "HashSecret kdf (Some r16) (hex_encode r12) = Some h"
proof -
  from assms(1) have e: "plain = prefix_of k @ hex_encode r3 @ ''_'' @ hex_encode r12" "p = hex_encode r3"
    "HashSecret kdf (Some r16) (hex_encode r12) = Some h"
    by (auto simp: generate_def randomHex_def split: option.splits)
  then show "p = hex_encode r3" "HashSecret kdf (Some r16) (hex_encode r12) = Some h" by simp_all
  have "ParseKey plain = split_key k (hex_encode r3 @ CHR ''_'' # hex_encode r12)"
    using hex_encode_clean by (auto simp: e(1) intro!: ParseKey_prefix)
  then show "ParseKey plain = Some (k, p, hex_encode r12)"
    using assms(2,3) e(2) by (simp add: split_key_def SplitN2_append hex_encode_clean)
qed

lemma std_no_dollar: "CHR ''$'' \<notin> set (raw_encode std_alphabet s)"
proof -
  have "CHR ''$'' \<notin> set std_alphabet" by code_simp
  then show ?thesis using raw_encode_chars [of std_alphabet s] alphabets(1) by blast
qed

lemma scan_params_hash: "scan_params hash_params = Some (argonMemory, argonTime, argonThreads)"
  by (simp add: scan_params_def hash_params_def scan_lit_def scan_uint_def TrimPrefix_def is_dec_def parse_nat_def
      digit_val_def less_eq_char_def argonMemory_def argonTime_def argonThreads_def)

text \<open>Verification accepts exactly the secrets that derive the stored key.\<close>

lemma VerifySecret_HashSecret:
  assumes "HashSecret kdf (Some salt) secret = Some h"
    and "\<And>s t. length (kdf s salt argonTime argonMemory argonThreads argonKeyLen) = argonKeyLen"
  shows "VerifySecret kdf h guess \<longleftrightarrow>
     kdf guess salt argonTime argonMemory argonThreads argonKeyLen = kdf secret salt argonTime argonMemory argonThreads argonKeyLen"
proof -
  let ?k = "kdf secret salt argonTime argonMemory argonThreads argonKeyLen"
  have h: "h = ''argon2id'' @ CHR ''$'' # ''v=19'' @ CHR ''$'' # hash_params @ CHR ''$'' #
      raw_encode std_alphabet salt @ CHR ''$'' # raw_encode std_alphabet ?k"
    using assms(1) by (simp add: HashSecret_def Let_def)
  have "CHR ''$'' \<notin> set hash_params" by (simp add: hash_params_def)
  then have "Split h CHR ''$'' = [''argon2id'', ''v=19'', hash_params, raw_encode std_alphabet salt, raw_encode std_alphabet ?k]"
    unfolding h using std_no_dollar by (simp add: Split_append Split_single)
  then show ?thesis
    using assms(2) by (simp add: VerifySecret_def scan_params_hash raw_roundtrip b64_alphabet_def)
qed

end
