(* ===== verification/Sessions.thy ===== *)
theory Sessions
  imports Accounts Auth_Keys
begin

text \<open>
  \<open>internal/auth/sessions.go\<close>: browser sessions with a rolling lifetime. The calls of the
  storage layer that authentication makes form the record \<open>auth_store\<close>; the locale
  \<open>session_store\<close> states what they promise, and the tables of \<open>Accounts\<close> discharge it.
  The digest (\<open>crypto/sha256\<close>), random bytes, fresh ids and the clock are arguments.
\<close>

subsection \<open>The storage calls of authentication\<close>

record 's auth_store =
  as_CreateSession :: "Session \<Rightarrow> 's \<Rightarrow> store_error option \<times> 's"
  as_GetSessionByTokenHash :: "string \<Rightarrow> 's \<Rightarrow> store_error + Session"
  as_UpdateSessionExpiry :: "string \<Rightarrow> string \<Rightarrow> 's \<Rightarrow> store_error option \<times> 's"
  as_DeleteSession :: "string \<Rightarrow> 's \<Rightarrow> store_error option \<times> 's"
  as_GetUser :: "string \<Rightarrow> 's \<Rightarrow> store_error + User"
  as_GetAPIKeyByPrefix :: "string \<Rightarrow> 's \<Rightarrow> store_error + APIKey"
  as_UpdateAPIKey :: "APIKey \<Rightarrow> 's \<Rightarrow> store_error option \<times> 's"

definition sql_auth :: "database auth_store" where
  "sql_auth = \<lparr>as_CreateSession = CreateSessionRow, as_GetSessionByTokenHash = GetSessionByTokenHash,
     as_UpdateSessionExpiry = UpdateSessionExpiry, as_DeleteSession = DeleteSession, as_GetUser = GetUser,
     as_GetAPIKeyByPrefix = GetAPIKeyByPrefix, as_UpdateAPIKey = UpdateAPIKey\<rparr>"

subsection \<open>Sessions\<close>

abbreviation SessionCookieName :: string where "SessionCookieName \<equiv> ''seek_sid''"
abbreviation CSRFCookieName :: string where "CSRFCookieName \<equiv> ''seek_csrf''"
abbreviation CSRFHeaderName :: string where "CSRFHeaderName \<equiv> ''X-CSRF-Token''"

definition SessionTTL :: time where
  "SessionTTL = 30 * 24 * 3600 * 1000000000"

definition HashToken :: "(string \<Rightarrow> string) \<Rightarrow> string \<Rightarrow> string" where
  "HashToken sha256 token = hex_encode (sha256 token)"

definition RandomToken :: "string option \<Rightarrow> string option" where
  "RandomToken rnd = map_option hex_encode rnd"

datatype auth_error = ErrInvalidKey | NoEntropy | AuthStore store_error

definition CreateSession ::
  "'s auth_store \<Rightarrow> (string \<Rightarrow> string) \<Rightarrow> string \<Rightarrow> string \<Rightarrow> string \<Rightarrow> string option \<Rightarrow> string \<Rightarrow> time \<Rightarrow> 's
     \<Rightarrow> (auth_error + string) \<times> 's" where
  "CreateSession st sha userID ip ua rnd uuid now s =
     (case RandomToken rnd of None \<Rightarrow> (Inl NoEntropy, s)
      | Some token \<Rightarrow>
          (case as_CreateSession st
                  \<lparr>s_ID = uuid, s_UserID = userID, s_TokenHash = HashToken sha token,
                   s_CreatedAt = format_rfc3339nano now, s_ExpiresAt = format_rfc3339nano (now + SessionTTL),
                   s_IP = ip, s_UA = ua\<rparr> s of
             (Some e, s') \<Rightarrow> (Inl (AuthStore e), s')
           | (None, s') \<Rightarrow> (Inr token, s')))"

text \<open>\<open>now\<close> is read for the expiry test and \<open>now'\<close>, a little later, for the rolled expiry.\<close>

definition LookupSession ::
  "'s auth_store \<Rightarrow> (string \<Rightarrow> string) \<Rightarrow> string \<Rightarrow> time \<Rightarrow> time \<Rightarrow> 's
     \<Rightarrow> (auth_error + Session \<times> User) \<times> 's" where
  "LookupSession st sha token now now' s =
     (if token = [] then (Inl ErrInvalidKey, s)
      else (case as_GetSessionByTokenHash st (HashToken sha token) s of
              Inl e \<Rightarrow> (Inl ErrInvalidKey, s)
            | Inr sess \<Rightarrow>
                (if (case parse_rfc3339 (s_ExpiresAt sess) of None \<Rightarrow> True | Some e \<Rightarrow> e < now)
                 then (Inl ErrInvalidKey, snd (as_DeleteSession st (s_ID sess) s))
                 else (case as_GetUser st (s_UserID sess) s of
                         Inl e \<Rightarrow> (Inl ErrInvalidKey, s)
                       | Inr user \<Rightarrow>
                           if u_Disabled user then (Inl ErrInvalidKey, s)
                           else (let sess' = sess\<lparr>s_ExpiresAt := format_rfc3339nano (now' + SessionTTL)\<rparr>
                                 in (Inr (sess', user),
                                     snd (as_UpdateSessionExpiry st (s_ID sess') (s_ExpiresAt sess') s)))))))"

definition SessionUserID :: "Session option \<Rightarrow> string" where
  "SessionUserID so = (case so of None \<Rightarrow> [] | Some s \<Rightarrow> s_UserID s)"

subsection \<open>The contract of the session storage\<close>

text \<open>
  \<open>sess\<close> finds a session by the hash of its token, \<open>usr\<close> an account by its id; \<open>up\<close> says that
  the storage answers.
\<close>

locale session_store =
  fixes st :: "'s auth_store" and inv :: "'s \<Rightarrow> bool" and up :: "'s \<Rightarrow> bool"
    and sess :: "'s \<Rightarrow> string \<rightharpoonup> Session" and usr :: "'s \<Rightarrow> string \<rightharpoonup> User"
  assumes get_session: "as_GetSessionByTokenHash st h s = Inr x \<Longrightarrow> sess s h = Some x"
    and find_session: "up s \<Longrightarrow> sess s h = Some x \<Longrightarrow> as_GetSessionByTokenHash st h s = Inr x"
    and hash_session: "sess s h = Some x \<Longrightarrow> s_TokenHash x = h"
    and get_user: "as_GetUser st i s = Inr u \<Longrightarrow> usr s i = Some u"
    and find_user: "up s \<Longrightarrow> usr s i = Some u \<Longrightarrow> as_GetUser st i s = Inr u"
    and create: "inv s \<Longrightarrow> as_CreateSession st x s = (None, s') \<Longrightarrow>
          inv s' \<and> up s' \<and> sess s' = (sess s)(s_TokenHash x \<mapsto> x) \<and> usr s' = usr s"
    and expiry: "inv s \<Longrightarrow> up s \<Longrightarrow> as_UpdateSessionExpiry st i e s = (err, s') \<Longrightarrow>
          inv s' \<and> up s' \<and> usr s' = usr s \<and>
          sess s' = (\<lambda>h. map_option (\<lambda>x. if s_ID x = i then x\<lparr>s_ExpiresAt := e\<rparr> else x) (sess s h))"
    and delete: "inv s \<Longrightarrow> up s \<Longrightarrow> sess s h = Some x \<Longrightarrow> as_DeleteSession st (s_ID x) s = (err, s') \<Longrightarrow>
          inv s' \<and> up s' \<and> usr s' = usr s \<and> sess s' = (sess s)(h := None)"
begin

text \<open>An accepted token names a stored session that has not expired, of an enabled account.\<close>

lemma lookup_sound:
  assumes "LookupSession st sha token now now' s = (Inr (x, u), s')"
  shows "\<exists>y e. sess s (HashToken sha token) = Some y \<and> parse_rfc3339 (s_ExpiresAt y) = Some e \<and> now \<le> e
      \<and> x = y\<lparr>s_ExpiresAt := format_rfc3339nano (now' + SessionTTL)\<rparr>
      \<and> usr s (s_UserID y) = Some u \<and> \<not> u_Disabled u"
  using assms
  by (auto simp: LookupSession_def Let_def not_less split: if_splits sum.splits option.splits
      dest!: get_session get_user)

text \<open>A session that is in time is accepted and gets the full lifetime again.\<close>

lemma lookup_accepts:
  assumes "inv s" "up s" "token \<noteq> []" "sess s (HashToken sha token) = Some x"
    and "parse_rfc3339 (s_ExpiresAt x) = Some e" "now \<le> e" "usr s (s_UserID x) = Some u" "\<not> u_Disabled u"
  shows "\<exists>s'. LookupSession st sha token now now' s =
        (Inr (x\<lparr>s_ExpiresAt := format_rfc3339nano (now' + SessionTTL)\<rparr>, u), s')
      \<and> inv s' \<and> up s' \<and> usr s' = usr s
      \<and> sess s' (HashToken sha token) = Some (x\<lparr>s_ExpiresAt := format_rfc3339nano (now' + SessionTTL)\<rparr>)"
proof -
  let ?e = "format_rfc3339nano (now' + SessionTTL)"
  obtain err s' where u: "as_UpdateSessionExpiry st (s_ID x) ?e s = (err, s')" by fastforce
  have "LookupSession st sha token now now' s = (Inr (x\<lparr>s_ExpiresAt := ?e\<rparr>, u), s')"
    using assms find_session [OF assms(2,4)] find_user [OF assms(2,7)] u
    by (simp add: LookupSession_def Let_def)
  then show ?thesis using expiry [OF assms(1,2) u] assms(4) by auto
qed

text \<open>One that is not is rejected, and gone afterwards.\<close>

lemma lookup_expired:
  assumes "inv s" "up s" "token \<noteq> []" "sess s (HashToken sha token) = Some x"
    and "case parse_rfc3339 (s_ExpiresAt x) of None \<Rightarrow> True | Some e \<Rightarrow> e < now"
  shows "\<exists>s'. LookupSession st sha token now now' s = (Inl ErrInvalidKey, s')
      \<and> inv s' \<and> up s' \<and> usr s' = usr s \<and> sess s' = (sess s)(HashToken sha token := None)"
proof -
  obtain err s' where d: "as_DeleteSession st (s_ID x) s = (err, s')" by fastforce
  then have "LookupSession st sha token now now' s = (Inl ErrInvalidKey, s')"
    using assms(3,5) find_session [OF assms(2,4)] by (simp add: LookupSession_def)
  then show ?thesis using delete [OF assms(1,2,4) d] by auto
qed

lemma lookup_unknown:
  "sess s (HashToken sha token) = None \<Longrightarrow> LookupSession st sha token now now' s = (Inl ErrInvalidKey, s)"
  by (auto simp: LookupSession_def split: sum.split dest: get_session)

lemma created_session:
  assumes "inv s" and "CreateSession st sha userID ip ua rnd uuid now s = (Inr token, s')"
  shows "inv s' \<and> up s' \<and> usr s' = usr s \<and> (\<exists>x. sess s' (HashToken sha token) = Some x \<and> s_UserID x = userID
      \<and> s_ExpiresAt x = format_rfc3339nano (now + SessionTTL))"
  using assms(2) create [OF assms(1)]
  by (fastforce simp: CreateSession_def split: option.splits prod.splits)

end

text \<open>
  The life of a session: it answers every request that comes within the lifetime of the
  previous one, at increasing times, as long as its account stays enabled.
\<close>

fun lookups :: "'s auth_store \<Rightarrow> (string \<Rightarrow> string) \<Rightarrow> string \<Rightarrow> time list \<Rightarrow> 's
     \<Rightarrow> (auth_error + Session \<times> User) list \<times> 's" where
  "lookups st sha token [] s = ([], s)"
| "lookups st sha token (t # ts) s =
     (let (r, s1) = LookupSession st sha token t t s; (rs, s2) = lookups st sha token ts s1
      in (r # rs, s2))"

fun in_time :: "time \<Rightarrow> time list \<Rightarrow> bool" where
  "in_time t0 [] = True"
| "in_time t0 (t # ts) = (t \<le> t0 + SessionTTL \<and> printable (t + SessionTTL) \<and> in_time t ts)"

context session_store
begin

lemma lookups_alive:
  assumes "inv s" "up s" "token \<noteq> []" "sess s (HashToken sha token) = Some x"
    and "s_ExpiresAt x = format_rfc3339nano (t0 + SessionTTL)" "printable (t0 + SessionTTL)"
    and "usr s (s_UserID x) = Some u" "\<not> u_Disabled u" "in_time t0 ts"
  shows "\<forall>r \<in> set (fst (lookups st sha token ts s)). \<exists>y. r = Inr (y, u)"
  using assms
proof (induction ts arbitrary: s x t0)
  case (Cons t ts)
  let ?y = "x\<lparr>s_ExpiresAt := format_rfc3339nano (t + SessionTTL)\<rparr>"
  have "parse_rfc3339 (s_ExpiresAt x) = Some (t0 + SessionTTL)"
    using Cons.prems(5,6) by (simp add: parse_format_rfc3339nano)
  moreover have "t \<le> t0 + SessionTTL" using Cons.prems(9) by simp
  ultimately obtain s' where s': "LookupSession st sha token t t s = (Inr (?y, u), s')"
      "inv s'" "up s'" "usr s' = usr s" "sess s' (HashToken sha token) = Some ?y"
    using lookup_accepts [OF Cons.prems(1-4) _ _ Cons.prems(7,8)] by blast
  have "\<forall>r \<in> set (fst (lookups st sha token ts s')). \<exists>y. r = Inr (y, u)"
    using Cons.prems s' by (intro Cons.IH [of s' ?y t]) auto
  then show ?case using s'(1) by (simp add: split_beta Let_def)
qed simp

end

subsection \<open>The session table keeps the contract\<close>

definition session_by_hash :: "database \<Rightarrow> string \<rightharpoonup> Session" where
  "session_by_hash db h = find (\<lambda>s. s_TokenHash s = h) (t_sessions db)"

definition user_by_id :: "database \<Rightarrow> string \<rightharpoonup> User" where
  "user_by_id db i = find (\<lambda>u. u_ID u = i) (t_users db)"

lemma find_delete_unique:
  assumes "distinct (map key t)" "distinct (map i t)" "x \<in> set t" "key x = h"
  shows "find (\<lambda>y. key y = h') (delete_where (\<lambda>y. i y = i x) t)
       = (if h' = h then None else find (\<lambda>y. key y = h') t)"
  using assms
proof (induction t)
  case (Cons a t)
  show ?case
  proof (cases "a = x")
    case True
    then have "delete_where (\<lambda>y. i y = i x) (a # t) = t"
      using Cons.prems(2) by (auto simp: delete_where_def filter_id_conv image_iff)
    moreover have "find (\<lambda>y. key y = h) t = None"
      using True Cons.prems(1,4) by (auto simp: find_None_iff image_iff)
    ultimately show ?thesis using True Cons.prems(4) by auto
  next
    case False
    then have "x \<in> set t" using Cons.prems(3) by simp
    then have "i a \<noteq> i x" "key a \<noteq> h" using Cons.prems by force+
    then show ?thesis using Cons.IH Cons.prems \<open>x \<in> set t\<close> by (auto simp: delete_where_def)
  qed
qed simp

lemma accounts_distinct:
  assumes "accounts_ok db"
  shows "distinct (map u_ID (t_users db))" "distinct (map s_ID (t_sessions db))"
    "distinct (map s_TokenHash (t_sessions db))" "distinct (map k_ID (t_keys db))" "distinct (map k_Prefix (t_keys db))"
  using assms by (auto simp: accounts_ok_def)

lemma sql_create_session:
  assumes "accounts_ok s" "CreateSessionRow x s = (None, s')"
  shows "accounts_ok s' \<and> t_down s' = None \<and> session_by_hash s' = (session_by_hash s)(s_TokenHash x \<mapsto> x)
       \<and> user_by_id s' = user_by_id s"
proof -
  have "accounts_ok s'" using accounts_ok_exec [OF assms(1), of "Create_session x"] assms(2) by simp
  moreover have s': "s' = s\<lparr>t_sessions := t_sessions s @ [x]\<rparr>" "t_down s = None"
      "s_TokenHash x \<notin> s_TokenHash ` set (t_sessions s)"
    using assms(2) by (auto simp: CreateSessionRow_def run_exec_None)
  moreover have "find (\<lambda>y. s_TokenHash y = s_TokenHash x) (t_sessions s) = None"
    using s'(3) by (auto simp: find_None_iff image_iff)
  ultimately show ?thesis
    by (auto simp: session_by_hash_def user_by_id_def find_append fun_eq_iff split: option.split)
qed

lemma sql_expiry:
  assumes "accounts_ok s" "t_down s = None" "UpdateSessionExpiry i e s = (err, s')"
  shows "accounts_ok s' \<and> t_down s' = None \<and> user_by_id s' = user_by_id s \<and>
     session_by_hash s' = (\<lambda>h. map_option (\<lambda>x. if s_ID x = i then x\<lparr>s_ExpiresAt := e\<rparr> else x) (session_by_hash s h))"
proof -
  have "accounts_ok s'" using accounts_ok_exec [OF assms(1), of "Update_expiry i e"] assms(3) by simp
  moreover have "s' = s\<lparr>t_sessions := update_where (\<lambda>s. s_ID s = i) (\<lambda>s. s\<lparr>s_ExpiresAt := e\<rparr>) (t_sessions s)\<rparr>"
    using assms(2,3) by (simp add: UpdateSessionExpiry_def run_exec_def)
  ultimately show ?thesis using assms(2)
    by (simp add: session_by_hash_def user_by_id_def find_update_where fun_eq_iff)
qed

lemma sql_delete_session:
  assumes "accounts_ok s" "t_down s = None" "session_by_hash s h = Some x" "DeleteSession (s_ID x) s = (err, s')"
  shows "accounts_ok s' \<and> t_down s' = None \<and> user_by_id s' = user_by_id s \<and> session_by_hash s' = (session_by_hash s)(h := None)"
proof -
  have "accounts_ok s'" using accounts_ok_exec [OF assms(1), of "Delete_session (s_ID x)"] assms(4) by simp
  moreover have s': "s' = s\<lparr>t_sessions := delete_where (\<lambda>y. s_ID y = s_ID x) (t_sessions s)\<rparr>"
    using assms(2,4) by (simp add: DeleteSession_def run_exec_def)
  moreover have "x \<in> set (t_sessions s)" "s_TokenHash x = h"
    using assms(3) find_SomeD by (fastforce simp: session_by_hash_def)+
  then have "session_by_hash s' = (session_by_hash s)(h := None)"
    using accounts_distinct(2,3) [OF assms(1)]
    by (simp add: session_by_hash_def s' fun_eq_iff find_delete_unique [where key = s_TokenHash and i = s_ID])
  ultimately show ?thesis using assms(2) by (simp add: user_by_id_def fun_eq_iff)
qed

interpretation sql_sessions: session_store sql_auth accounts_ok "\<lambda>db. t_down db = None" session_by_hash user_by_id
proof unfold_locales
  fix s i e err s'
  assume "accounts_ok s" "t_down s = None" "as_UpdateSessionExpiry sql_auth i e s = (err, s')"
  then show "accounts_ok s' \<and> t_down s' = None \<and> user_by_id s' = user_by_id s \<and>
     session_by_hash s' = (\<lambda>h. map_option (\<lambda>x. if s_ID x = i then x\<lparr>s_ExpiresAt := e\<rparr> else x) (session_by_hash s h))"
    by (intro sql_expiry) (simp_all add: sql_auth_def)
next
  fix s h x err s'
  assume "accounts_ok s" "t_down s = None" "session_by_hash s h = Some x" "as_DeleteSession sql_auth (s_ID x) s = (err, s')"
  then show "accounts_ok s' \<and> t_down s' = None \<and> user_by_id s' = user_by_id s \<and> session_by_hash s' = (session_by_hash s)(h := None)"
    by (intro sql_delete_session) (simp_all add: sql_auth_def)
next
  fix s x s'
  assume "accounts_ok s" "as_CreateSession sql_auth x s = (None, s')"
  then show "accounts_ok s' \<and> t_down s' = None \<and> session_by_hash s' = (session_by_hash s)(s_TokenHash x \<mapsto> x)
       \<and> user_by_id s' = user_by_id s"
    by (intro sql_create_session) (simp_all add: sql_auth_def)
qed (auto simp: sql_auth_def GetSessionByTokenHash_def GetUser_def run_row_def session_by_hash_def user_by_id_def
      split: option.splits dest: find_SomeD)

end
