(* ===== verification/Crypt.thy ===== *)
theory Crypt
  imports Base64 Models
begin

text \<open>
  \<open>internal/crypt/crypt.go\<close> (encryption of secrets at rest) and \<open>internal/store/cursor.go\<close>
  (opaque page tokens). AES-GCM is the argument \<open>aead\<close>, the Go interface \<open>cipher.AEAD\<close>: what
  is assumed of it, where something is, is that opening inverts sealing. The random nonce is
  an argument; \<open>None\<close> stands for a failing random source.
\<close>

subsection \<open>The cipher\<close>

record aead =
  ae_NonceSize :: nat
  ae_Seal :: "string \<Rightarrow> string \<Rightarrow> string"
  ae_Open :: "string \<Rightarrow> string \<Rightarrow> string option"

type_synonym Cipher = "aead option"

definition crypt_prefix :: string where
  "crypt_prefix = ''enc:v1:''"

text \<open>Go's \<open>Seal(nonce, nonce, plain)\<close> appends the sealed text to the nonce.\<close>

definition Encrypt :: "Cipher \<Rightarrow> string option \<Rightarrow> string \<Rightarrow> string" where
  "Encrypt c rnd plain =
     (case c of None \<Rightarrow> plain
      | Some a \<Rightarrow>
          if plain = [] then plain
          else (case rnd of None \<Rightarrow> plain
                | Some nonce \<Rightarrow> crypt_prefix @ raw_encode std_alphabet (nonce @ ae_Seal a nonce plain)))"

definition Decrypt :: "Cipher \<Rightarrow> string \<Rightarrow> string" where
  "Decrypt c v =
     (case c of None \<Rightarrow> v
      | Some a \<Rightarrow>
          if v = [] \<or> \<not> HasPrefix v crypt_prefix then v
          else (case raw_decode std_alphabet (TrimPrefix v crypt_prefix) of
                  None \<Rightarrow> v
                | Some raw \<Rightarrow>
                    if length raw < ae_NonceSize a then v
                    else (case ae_Open a (take (ae_NonceSize a) raw) (drop (ae_NonceSize a) raw) of
                            None \<Rightarrow> v | Some plain \<Rightarrow> plain)))"

subsection \<open>Keys\<close>

definition key_of_length :: "string option \<Rightarrow> string option" where
  "key_of_length d = (case d of Some b \<Rightarrow> if length b = 32 then Some b else None | None \<Rightarrow> None)"

fun first_some :: "'a option list \<Rightarrow> 'a option" where
  "first_some [] = None"
| "first_some (None # xs) = first_some xs"
| "first_some (Some x # xs) = Some x"

definition parseKey :: "string \<Rightarrow> string option" where
  "parseKey material =
     first_some [if length material = 64 then key_of_length (hex_decode material) else None,
       key_of_length (pad_decode std_alphabet material),
       key_of_length (raw_decode std_alphabet material),
       key_of_length (pad_decode url_alphabet material),
       key_of_length (raw_decode url_alphabet material),
       if length material = 32 then Some material else None]"

text \<open>\<open>New\<close>: no key, no cipher; \<open>gcm\<close> builds the AEAD of a 32-byte key.\<close>

datatype crypt_error = BadKey

definition crypt_New :: "(string \<Rightarrow> aead) \<Rightarrow> string \<Rightarrow> crypt_error + Cipher" where
  "crypt_New gcm keyMaterial =
     (let material = TrimSpace keyMaterial in
      if material = [] then Inr None
      else (case parseKey material of None \<Rightarrow> Inl BadKey | Some key \<Rightarrow> Inr (Some (gcm key))))"

subsection \<open>Cursors\<close>

definition cursorSep :: char where
  "cursorSep = CHR 0x1F"

definition EncodeCursor :: "string list \<Rightarrow> string" where
  "EncodeCursor vs = (if vs = [] then [] else raw_encode url_alphabet (Join vs [cursorSep]))"

definition DecodeCursor :: "string \<Rightarrow> string list option" where
  "DecodeCursor token =
     (if token = [] then None
      else (case raw_decode url_alphabet token of
              None \<Rightarrow> None
            | Some raw \<Rightarrow> if raw = [] then None else Some (Split raw cursorSep)))"

subsection \<open>Facts\<close>

text \<open>What AES-GCM promises of a nonce of the right size.\<close>

definition aead_ok :: "aead \<Rightarrow> bool" where
  "aead_ok a \<longleftrightarrow> (\<forall>nonce p. length nonce = ae_NonceSize a \<longrightarrow> ae_Open a nonce (ae_Seal a nonce p) = Some p)"

lemma b64_std [simp]: "b64_alphabet std_alphabet" and b64_url [simp]: "b64_alphabet url_alphabet"
  by (simp_all add: b64_alphabet_def)

lemma Decrypt_Encrypt:
  assumes "aead_ok a" "length nonce = ae_NonceSize a"
  shows "Decrypt (Some a) (Encrypt (Some a) (Some nonce) plain) = plain"
proof -
  have "crypt_prefix \<noteq> []" by (simp add: crypt_prefix_def)
  with assms show ?thesis by (simp add: Decrypt_def Encrypt_def raw_roundtrip aead_ok_def)
qed

lemma Decrypt_plain: "\<not> HasPrefix v crypt_prefix \<Longrightarrow> Decrypt c v = v"
  by (simp add: Decrypt_def split: option.split)

lemma Decrypt_nil [simp]: "Decrypt None v = v" "Encrypt None rnd v = v"
  by (simp_all add: Decrypt_def Encrypt_def)

lemma parseKey_length: "parseKey m = Some k \<Longrightarrow> length k = 32"
  by (auto simp: parseKey_def key_of_length_def split: option.splits if_splits elim!: first_some.elims)

lemma key_of_length_Some [simp]: "length k = 32 \<Longrightarrow> key_of_length (Some k) = Some k"
  by (simp add: key_of_length_def)

lemma key_of_length_None [simp]: "key_of_length None = None"
  by (simp add: key_of_length_def)

lemma parseKey_hex: "length k = 32 \<Longrightarrow> parseKey (hex_encode k) = Some k"
  by (simp add: parseKey_def hex_roundtrip)

lemma key_of_length_short: "(\<And>b. d = Some b \<Longrightarrow> length b < 32) \<Longrightarrow> key_of_length d = None"
  by (auto simp: key_of_length_def split: option.splits)

text \<open>Raw text of 32 bytes cannot be taken for a base64 key: it decodes to at most 24 bytes.\<close>

lemma parseKey_text:
  assumes "length m = 32"
  shows "parseKey m = Some m"
proof -
  have "key_of_length (raw_decode alpha m) = None" "key_of_length (pad_decode alpha m) = None" for alpha
    using assms by (auto intro!: key_of_length_short dest!: length_raw_decode length_pad_decode)
  with assms show ?thesis by (simp add: parseKey_def)
qed

definition key_encodings :: "(string \<Rightarrow> string) list" where
  "key_encodings = [hex_encode, pad_encode std_alphabet, raw_encode std_alphabet,
     pad_encode url_alphabet, raw_encode url_alphabet]"

lemma key_lengths:
  assumes "length k = 32"
  shows "length (pad_encode alpha k) = 44" "length (raw_encode alpha k) = 43"
  using assms by (simp_all add: pad_encode_def Let_def)

lemma parseKey_raw:
  assumes k: "length k = 32" and a: "alpha = std_alphabet \<or> alpha = url_alphabet"
  shows "parseKey (raw_encode alpha k) = Some k"
proof -
  have b: "b64_alphabet alpha" using a by auto
  have "pad_decode beta (raw_encode alpha k) = None" for beta
    using k raw_encode_no_newlines [OF b, of k] by (intro pad_decode_length) (simp del: length_raw_encode add: key_lengths)
  moreover have "raw_decode alpha (raw_encode alpha k) = Some k" by (rule raw_roundtrip [OF b])
  moreover have "raw_decode std_alphabet (raw_encode alpha k) \<in> {None, Some k}"
    using a calculation(2) raw_decode_std_url by auto
  ultimately show ?thesis using k a key_lengths(2) [OF k, of alpha]
    by (auto simp: parseKey_def simp del: length_raw_encode)
qed

lemma parseKey_pad:
  assumes k: "length k = 32" and a: "alpha = std_alphabet \<or> alpha = url_alphabet"
  shows "parseKey (pad_encode alpha k) = Some k"
proof -
  have b: "b64_alphabet alpha" using a by auto
  have eq: "CHR ''='' \<in> set (pad_encode alpha k)" using k by (simp add: pad_encode_def Let_def)
  have "raw_decode std_alphabet (pad_encode alpha k) = None"
    using raw_decode_foreign [OF eq] no_newline_alphabets by simp
  moreover have "pad_decode alpha (pad_encode alpha k) = Some k" by (rule pad_roundtrip [OF b])
  moreover have "pad_decode std_alphabet (pad_encode alpha k) \<in> {None, Some k}"
    using a calculation(2) pad_decode_std_url by auto
  ultimately show ?thesis using k a key_lengths(1) [OF k, of alpha] by (auto simp: parseKey_def)
qed

lemma parseKey_encoded: "length k = 32 \<Longrightarrow> e \<in> set key_encodings \<Longrightarrow> parseKey (e k) = Some k"
  using parseKey_raw parseKey_pad parseKey_hex by (auto simp: key_encodings_def)

lemma EncodeCursor_roundtrip:
  assumes "vs \<noteq> []" "vs \<noteq> [[]]" and "\<And>v. v \<in> set vs \<Longrightarrow> cursorSep \<notin> set v"
  shows "DecodeCursor (EncodeCursor vs) = Some vs"
proof -
  have j: "Join vs [cursorSep] \<noteq> []" using assms(1,2) by (cases "(vs, [cursorSep])" rule: Join.cases) auto
  then have "raw_encode url_alphabet (Join vs [cursorSep]) \<noteq> []"
    using raw_roundtrip [of url_alphabet "Join vs [cursorSep]"] by (auto simp: raw_decode_def decode_digits_def no_newlines_def)
  with j assms show ?thesis by (simp add: DecodeCursor_def EncodeCursor_def raw_roundtrip Split_Join)
qed

end
