(* ===== verification/Config.thy ===== *)
theory Config
  imports Crypt Engine_State "HOL-Library.AList"
begin

text \<open>
  \<open>internal/config/config.go\<close>: the process configuration read from the environment
  (\<open>Load\<close>) and the settings manager, which resolves a key from the environment pin, the
  cache, the database and the compiled-in default, in that order. The key-value storage
  behind the manager is an interface: \<open>kv_store\<close> states its laws and proves the manager's
  properties from them; the settings table of \<open>sqlstore.go\<close> discharges the laws.
\<close>

subsection \<open>Settings keys and their descriptors\<close>

definition DefaultUserAgent :: string where
  "DefaultUserAgent = ''Mozilla/5.0 (X11; Linux x86_64) AppleWebKit/537.36 (KHTML, like Gecko) Chrome/126.0 Safari/537.36''"

definition DefaultUpdateCheckURL :: string where
  "DefaultUpdateCheckURL = ''https://api.github.com/repos/liberide/serpent-seek/releases/latest''"

abbreviation KeyAuthEnabled :: string where
  "KeyAuthEnabled \<equiv> ''auth_enabled''"

abbreviation KeyHideAuthOffNotice :: string where
  "KeyHideAuthOffNotice \<equiv> ''hide_auth_off_notice''"

abbreviation KeyHistoryRetention :: string where
  "KeyHistoryRetention \<equiv> ''history_retention_days''"

abbreviation KeyLogsRetention :: string where
  "KeyLogsRetention \<equiv> ''logs_retention_days''"

abbreviation KeyUsageRetention :: string where
  "KeyUsageRetention \<equiv> ''usage_retention_days''"

abbreviation KeyAuditRetention :: string where
  "KeyAuditRetention \<equiv> ''audit_retention_days''"

abbreviation KeyMaxConcurrency :: string where
  "KeyMaxConcurrency \<equiv> ''max_concurrency''"

abbreviation KeyMaxAttempts :: string where
  "KeyMaxAttempts \<equiv> ''max_attempts''"

abbreviation KeyUserAgent :: string where
  "KeyUserAgent \<equiv> ''user_agent''"

abbreviation KeyRetryHTTPCodes :: string where
  "KeyRetryHTTPCodes \<equiv> ''retry_http_codes''"

abbreviation KeyAPRetryCodes :: string where
  "KeyAPRetryCodes \<equiv> ''ap_retry_codes''"

abbreviation KeySearxngURL :: string where
  "KeySearxngURL \<equiv> ''searxng_url''"

abbreviation KeySearxngAPIKey :: string where
  "KeySearxngAPIKey \<equiv> ''searxng_api_key''"

abbreviation KeySearxngLanguage :: string where
  "KeySearxngLanguage \<equiv> ''searxng_language''"

abbreviation KeyYandexAPIKey :: string where
  "KeyYandexAPIKey \<equiv> ''yandex_api_key''"

abbreviation KeyYandexFolderID :: string where
  "KeyYandexFolderID \<equiv> ''yandex_folder_id''"

abbreviation KeyGoogleAPIKey :: string where
  "KeyGoogleAPIKey \<equiv> ''google_api_key''"

abbreviation KeyGoogleModel :: string where
  "KeyGoogleModel \<equiv> ''google_model''"

abbreviation KeyGoogleCX :: string where
  "KeyGoogleCX \<equiv> ''google_cx''"

abbreviation KeyGoogleDriver :: string where
  "KeyGoogleDriver \<equiv> ''google_driver''"

abbreviation KeyPublicOrigin :: string where
  "KeyPublicOrigin \<equiv> ''public_origin''"

abbreviation KeyRPID :: string where
  "KeyRPID \<equiv> ''rp_id''"

abbreviation KeyRPName :: string where
  "KeyRPName \<equiv> ''rp_name''"

abbreviation KeyLogLevel :: string where
  "KeyLogLevel \<equiv> ''log_level''"

abbreviation KeyStorageDriver :: string where
  "KeyStorageDriver \<equiv> ''storage_driver''"

abbreviation KeyDatabaseURL :: string where
  "KeyDatabaseURL \<equiv> ''database_url''"

abbreviation KeyTreatEmptyAsFail :: string where
  "KeyTreatEmptyAsFail \<equiv> ''treat_empty_as_fail''"

abbreviation KeyIgnoreRequestCount :: string where
  "KeyIgnoreRequestCount \<equiv> ''ignore_request_count''"

abbreviation KeyAllowSparseSources :: string where
  "KeyAllowSparseSources \<equiv> ''allow_sparse_sources''"

abbreviation KeySearchRateLimit :: string where
  "KeySearchRateLimit \<equiv> ''search_rate_limit_per_minute''"

abbreviation KeySearchDailyQuota :: string where
  "KeySearchDailyQuota \<equiv> ''search_daily_quota''"

abbreviation KeyChainTimeout :: string where
  "KeyChainTimeout \<equiv> ''chain_timeout_seconds''"

abbreviation KeyProviderFailures :: string where
  "KeyProviderFailures \<equiv> ''provider_failure_threshold''"

abbreviation KeyProviderCooldown :: string where
  "KeyProviderCooldown \<equiv> ''provider_cooldown_seconds''"

abbreviation KeyDebug :: string where
  "KeyDebug \<equiv> ''debug''"

abbreviation KeyDeveloperMode :: string where
  "KeyDeveloperMode \<equiv> ''developer_mode''"

abbreviation KeyUpdateCheck :: string where
  "KeyUpdateCheck \<equiv> ''update_check_enabled''"

abbreviation KeyUpdateCheckURL :: string where
  "KeyUpdateCheckURL \<equiv> ''update_check_url''"

abbreviation KeyUpdateCheckInterval :: string where
  "KeyUpdateCheckInterval \<equiv> ''update_check_interval_hours''"

abbreviation KeyWebhookURL :: string where
  "KeyWebhookURL \<equiv> ''webhook_url''"

abbreviation KeySetupToken :: string where
  "KeySetupToken \<equiv> ''setup_token''"

record SettingDef =
  sd_Key :: string
  sd_Env :: string
  sd_Type :: string
  sd_Default :: string
  sd_EnvOnly :: bool
  sd_Secret :: bool
  sd_Group :: string
  sd_Required :: bool
  sd_Hidden :: bool

definition setting :: "string \<Rightarrow> string \<Rightarrow> string \<Rightarrow> string \<Rightarrow> string \<Rightarrow> SettingDef" where
  "setting key env typ dflt grp = \<lparr>sd_Key = key, sd_Env = env, sd_Type = typ, sd_Default = dflt,
     sd_EnvOnly = False, sd_Secret = False, sd_Group = grp, sd_Required = False, sd_Hidden = False\<rparr>"

definition envBindings :: "SettingDef list" where
  "envBindings =
    [setting KeyAuthEnabled ''AUTH_ENABLED'' ''bool'' ''true'' ''auth'',
     setting KeyHideAuthOffNotice ''HIDE_AUTH_OFF_NOTICE'' ''bool'' ''false'' ''auth'',
     setting KeyHistoryRetention ''HISTORY_RETENTION_DAYS'' ''int'' ''30'' ''retention'',
     setting KeyLogsRetention ''LOGS_RETENTION_DAYS'' ''int'' ''14'' ''retention'',
     setting KeyUsageRetention ''USAGE_RETENTION_DAYS'' ''int'' ''90'' ''retention'',
     setting KeyAuditRetention ''AUDIT_RETENTION_DAYS'' ''int'' ''180'' ''retention'',
     setting KeyMaxConcurrency ''MAX_CONCURRENCY'' ''int'' ''32'' ''network'',
     setting KeyMaxAttempts ''MAX_ATTEMPTS'' ''int'' ''10'' ''network'',
     setting KeyUserAgent ''USER_AGENT'' ''string'' DefaultUserAgent ''network'',
     setting KeyRetryHTTPCodes ''RETRY_HTTP_CODES'' ''csv'' ''429,500,502,503,504'' ''providers'',
     setting KeyAPRetryCodes ''AP_RETRY_CODES'' ''csv'' [] ''providers'',
     setting KeyPublicOrigin ''PUBLIC_ORIGIN'' ''string'' [] ''auth'',
     setting KeyRPID ''RP_ID'' ''string'' [] ''auth'',
     setting KeyRPName ''RP_NAME'' ''string'' ''SerpentSeek'' ''auth'',
     setting KeyLogLevel ''LOG_LEVEL'' ''string'' ''info'' ''general'',
     (setting KeyStorageDriver ''STORAGE_DRIVER'' ''string'' ''sqlite'' ''storage'')\<lparr>sd_EnvOnly := True\<rparr>,
     (setting KeyDatabaseURL ''DATABASE_URL'' ''string'' [] ''storage'')\<lparr>sd_EnvOnly := True, sd_Secret := True\<rparr>,
     setting KeyTreatEmptyAsFail ''TREAT_EMPTY_AS_FAIL'' ''bool'' ''true'' ''network'',
     setting KeyIgnoreRequestCount ''IGNORE_REQUEST_COUNT'' ''bool'' ''false'' ''network'',
     setting KeyAllowSparseSources ''ALLOW_SPARSE_SOURCES'' ''bool'' ''false'' ''network'',
     setting KeySearchRateLimit ''SEARCH_RATE_LIMIT_PER_MINUTE'' ''int'' ''0'' ''network'',
     setting KeySearchDailyQuota ''SEARCH_DAILY_QUOTA'' ''int'' ''0'' ''network'',
     setting KeyChainTimeout ''CHAIN_TIMEOUT'' ''int'' ''0'' ''network'',
     setting KeyProviderFailures ''PROVIDER_FAILURE_THRESHOLD'' ''int'' ''0'' ''network'',
     setting KeyProviderCooldown ''PROVIDER_COOLDOWN_SECONDS'' ''int'' ''60'' ''network'',
     setting KeyDebug ''DEBUG'' ''bool'' ''false'' ''general'',
     (setting KeyDeveloperMode ''DEVELOPER_MODE'' ''bool'' ''false'' ''auth'')\<lparr>sd_Hidden := True\<rparr>,
     setting KeyUpdateCheck ''UPDATE_CHECK_ENABLED'' ''bool'' ''true'' ''general'',
     (setting KeyUpdateCheckURL ''UPDATE_CHECK_URL'' ''string'' DefaultUpdateCheckURL ''general'')\<lparr>sd_EnvOnly := True\<rparr>,
     setting KeyUpdateCheckInterval ''UPDATE_CHECK_INTERVAL_HOURS'' ''int'' ''24'' ''general'',
     setting KeyWebhookURL ''WEBHOOK_URL'' ''string'' [] ''general'']"

subsection \<open>Reading the environment\<close>

text \<open>\<open>os.LookupEnv\<close>, and the file system's answers for paths.\<close>

record environment =
  ev_lookup :: "string \<rightharpoonup> string"
  ev_join :: "string \<Rightarrow> string \<Rightarrow> string"
  ev_abs :: "string \<rightharpoonup> string"

definition envStr :: "environment \<Rightarrow> string \<Rightarrow> string \<Rightarrow> string" where
  "envStr env key def = (case ev_lookup env key of Some v \<Rightarrow> TrimSpace v | None \<Rightarrow> def)"

definition envInt :: "environment \<Rightarrow> string \<Rightarrow> int \<Rightarrow> int" where
  "envInt env key def =
     (case ev_lookup env key of
        Some v \<Rightarrow> (case Atoi (TrimSpace v) of Some n \<Rightarrow> n | None \<Rightarrow> def)
      | None \<Rightarrow> def)"

definition envBool :: "environment \<Rightarrow> string \<Rightarrow> bool \<Rightarrow> bool" where
  "envBool env key def =
     (case ev_lookup env key of
        Some v \<Rightarrow>
          (let l = ToLower (TrimSpace v)
           in if l \<in> {''1'', ''true'', ''yes'', ''on''} then True
              else if l \<in> {''0'', ''false'', ''no'', ''off'', []} then False
              else def)
      | None \<Rightarrow> def)"

definition csv_parts :: "string \<Rightarrow> string list" where
  "csv_parts v = filter (\<lambda>p. p \<noteq> []) (map TrimSpace (Split v CHR '',''))"

definition envIntList :: "environment \<Rightarrow> string \<Rightarrow> int list \<Rightarrow> int list" where
  "envIntList env key def =
     (case ev_lookup env key of None \<Rightarrow> def
      | Some v \<Rightarrow> (let out = List.map_filter Atoi (csv_parts v) in if out = [] then def else out))"

definition envStrList :: "environment \<Rightarrow> string \<Rightarrow> string list" where
  "envStrList env key = (case ev_lookup env key of None \<Rightarrow> [] | Some v \<Rightarrow> map ToUpper (csv_parts v))"

definition envList :: "environment \<Rightarrow> string \<Rightarrow> string list" where
  "envList env key = (case ev_lookup env key of None \<Rightarrow> [] | Some v \<Rightarrow> csv_parts v)"

record Config =
  cf_Port :: int
  cf_Host :: string
  cf_PublicOrigin :: string
  cf_RPID :: string
  cf_RPName :: string
  cf_TrustedProxies :: "string list"
  cf_BlockPrivateNetworks :: bool
  cf_DataDir :: string
  cf_SQLitePath :: string
  cf_StorageDriver :: string
  cf_DatabaseURL :: string
  cf_EncryptionKey :: string
  cf_UserAgent :: string
  cf_MaxConcurrency :: int
  cf_MaxAttempts :: int
  cf_LogLevel :: string
  cf_LogFormat :: string
  cf_CleanupCron :: string
  cf_VacuumCron :: string
  cf_SetupToken :: string
  cf_DefaultAuthEnabled :: bool
  cf_DefaultHistoryRetention :: int
  cf_DefaultLogsRetention :: int
  cf_DefaultUsageRetention :: int
  cf_DefaultAuditRetention :: int
  cf_DefaultRetryHTTPCodes :: "int list"
  cf_DefaultAPRetryCodes :: "string list"
  cf_DefaultAPISerpentAPIKey :: string
  cf_DefaultSerpBaseAPIKey :: string
  cf_DefaultSearxngURL :: string
  cf_DefaultSearxngAPIKey :: string
  cf_DefaultSearxngLanguage :: string
  cf_DefaultYandexAPIKey :: string
  cf_DefaultYandexFolderID :: string
  cf_DefaultNCBIAPIKey :: string
  cf_DefaultGoogleAPIKey :: string
  cf_DefaultGoogleModel :: string
  cf_DefaultGoogleCX :: string
  cf_DefaultGoogleDriver :: string
  cf_DefaultHistoryCleanupRuns :: bool
  cf_DefaultProviderTimeoutMs :: int
  cf_DefaultTreatEmptyAsFailure :: bool
  cf_DefaultUpdateCheck :: bool
  cf_DefaultUpdateCheckURL :: string
  cf_DefaultUpdateCheckInterval :: int
  cf_DefaultWebhookURL :: string
  cf_DefaultSearchRateLimit :: int
  cf_DefaultSearchDailyQuota :: int
  cf_DefaultChainTimeout :: int
  cf_DefaultProviderFailures :: int
  cf_DefaultProviderCooldown :: int
  cf_DefaultDebug :: bool
  cf_DefaultDeveloperMode :: bool
  cf_envSet :: "string \<Rightarrow> bool"

datatype load_error = BadStorageDriver string | MissingDatabaseURL

definition abs_path :: "environment \<Rightarrow> string \<Rightarrow> string" where
  "abs_path env p = (case ev_abs env p of Some a \<Rightarrow> a | None \<Rightarrow> p)"

text \<open>Which settings the environment provides.\<close>

definition env_provides :: "environment \<Rightarrow> string \<Rightarrow> bool" where
  "env_provides env key \<longleftrightarrow> (\<exists>b \<in> set envBindings. sd_Key b = key \<and> ev_lookup env (sd_Env b) \<noteq> None)"

definition read_config :: "environment \<Rightarrow> Config" where
  "read_config env =
     (let dir = envStr env ''DATA_DIR'' ''data''; db = envStr env ''SQLITE_PATH'' [] in
      \<lparr>cf_Port = envInt env ''PORT'' 8080,
       cf_Host = envStr env ''HOST'' ''0.0.0.0'',
       cf_PublicOrigin = envStr env ''PUBLIC_ORIGIN'' [],
       cf_RPID = envStr env ''RP_ID'' [],
       cf_RPName = envStr env ''RP_NAME'' ''SerpentSeek'',
       cf_TrustedProxies = envList env ''TRUSTED_PROXIES'',
       cf_BlockPrivateNetworks = envBool env ''BLOCK_PRIVATE_NETWORKS'' False,
       cf_DataDir = abs_path env dir,
       cf_SQLitePath = abs_path env (if db = [] then ev_join env dir ''serpentseek.db'' else db),
       cf_StorageDriver = ToLower (envStr env ''STORAGE_DRIVER'' ''sqlite''),
       cf_DatabaseURL = envStr env ''DATABASE_URL'' [],
       cf_EncryptionKey = envStr env ''ENCRYPTION_KEY'' [],
       cf_UserAgent = envStr env ''USER_AGENT'' DefaultUserAgent,
       cf_MaxConcurrency = envInt env ''MAX_CONCURRENCY'' 32,
       cf_MaxAttempts = envInt env ''MAX_ATTEMPTS'' 10,
       cf_LogLevel = ToLower (envStr env ''LOG_LEVEL'' ''info''),
       cf_LogFormat = ToLower (envStr env ''LOG_FORMAT'' ''text''),
       cf_CleanupCron = envStr env ''HISTORY_CLEANUP_CRON'' ''0 4 * * *'',
       cf_VacuumCron = envStr env ''VACUUM_CRON'' ''0 3 * * 0'',
       cf_SetupToken = envStr env ''SETUP_TOKEN'' [],
       cf_DefaultAuthEnabled = envBool env ''AUTH_ENABLED'' True,
       cf_DefaultHistoryRetention = envInt env ''HISTORY_RETENTION_DAYS'' 30,
       cf_DefaultLogsRetention = envInt env ''LOGS_RETENTION_DAYS'' 14,
       cf_DefaultUsageRetention = envInt env ''USAGE_RETENTION_DAYS'' 90,
       cf_DefaultAuditRetention = envInt env ''AUDIT_RETENTION_DAYS'' 180,
       cf_DefaultRetryHTTPCodes = envIntList env ''RETRY_HTTP_CODES'' [429, 500, 502, 503, 504],
       cf_DefaultAPRetryCodes = envStrList env ''AP_RETRY_CODES'',
       cf_DefaultAPISerpentAPIKey = envStr env ''APISERPENT_API_KEY'' (envStr env ''SERPENT_API_KEY'' []),
       cf_DefaultSerpBaseAPIKey = envStr env ''SERPBASE_API_KEY'' [],
       cf_DefaultSearxngURL = envStr env ''SEARXNG_URL'' [],
       cf_DefaultSearxngAPIKey = envStr env ''SEARXNG_API_KEY'' [],
       cf_DefaultSearxngLanguage = envStr env ''SEARXNG_LANGUAGE'' [],
       cf_DefaultYandexAPIKey = envStr env ''YANDEX_API_KEY'' [],
       cf_DefaultYandexFolderID = envStr env ''YANDEX_FOLDER_ID'' [],
       cf_DefaultNCBIAPIKey = envStr env ''NCBI_API_KEY'' [],
       cf_DefaultGoogleAPIKey = envStr env ''GOOGLE_API_KEY'' [],
       cf_DefaultGoogleModel = envStr env ''GOOGLE_MODEL'' ''gemini-3.8-flash'',
       cf_DefaultGoogleCX = envStr env ''GOOGLE_CX'' [],
       cf_DefaultGoogleDriver = ToLower (envStr env ''GOOGLE_DRIVER'' ''vertex''),
       cf_DefaultHistoryCleanupRuns = False,
       cf_DefaultProviderTimeoutMs = 0,
       cf_DefaultTreatEmptyAsFailure = envBool env ''TREAT_EMPTY_AS_FAIL'' True,
       cf_DefaultUpdateCheck = envBool env ''UPDATE_CHECK_ENABLED'' True,
       cf_DefaultUpdateCheckURL = envStr env ''UPDATE_CHECK_URL'' DefaultUpdateCheckURL,
       cf_DefaultUpdateCheckInterval = envInt env ''UPDATE_CHECK_INTERVAL_HOURS'' 24,
       cf_DefaultWebhookURL = envStr env ''WEBHOOK_URL'' [],
       cf_DefaultSearchRateLimit = envInt env ''SEARCH_RATE_LIMIT_PER_MINUTE'' 0,
       cf_DefaultSearchDailyQuota = envInt env ''SEARCH_DAILY_QUOTA'' 0,
       cf_DefaultChainTimeout = envInt env ''CHAIN_TIMEOUT'' 0,
       cf_DefaultProviderFailures = envInt env ''PROVIDER_FAILURE_THRESHOLD'' 0,
       cf_DefaultProviderCooldown = envInt env ''PROVIDER_COOLDOWN_SECONDS'' 60,
       cf_DefaultDebug = envBool env ''DEBUG'' False,
       cf_DefaultDeveloperMode = envBool env ''DEVELOPER_MODE'' False,
       cf_envSet = env_provides env\<rparr>)"

definition Load :: "environment \<Rightarrow> load_error + Config" where
  "Load env =
     (let c = read_config env in
      if cf_StorageDriver c \<noteq> ''sqlite'' \<and> cf_StorageDriver c \<noteq> ''postgres''
      then Inl (BadStorageDriver (cf_StorageDriver c))
      else if cf_StorageDriver c = ''postgres'' \<and> cf_DatabaseURL c = [] then Inl MissingDatabaseURL
      else Inr (c\<lparr>cf_MaxConcurrency := max 0 (cf_MaxConcurrency c), cf_MaxAttempts := max 1 (cf_MaxAttempts c)\<rparr>))"

definition IsEnv :: "Config \<Rightarrow> string \<Rightarrow> bool" where
  "IsEnv c key = cf_envSet c key"

definition DefaultFor :: "string \<Rightarrow> string" where
  "DefaultFor key = (case find (\<lambda>b. sd_Key b = key) envBindings of Some b \<Rightarrow> sd_Default b | None \<Rightarrow> [])"

subsection \<open>The settings manager\<close>

definition FormatBool :: "bool \<Rightarrow> string" where
  "FormatBool b = (if b then ''true'' else ''false'')"

definition joinIntCSV :: "int list \<Rightarrow> string" where
  "joinIntCSV v = Join (map Itoa v) '',''"

definition defaultResolved :: "Config \<Rightarrow> string \<Rightarrow> string" where
  "defaultResolved cfg key =
     (if key = KeyAuthEnabled then FormatBool (cf_DefaultAuthEnabled cfg)
      else if key = KeyHistoryRetention then Itoa (cf_DefaultHistoryRetention cfg)
      else if key = KeyLogsRetention then Itoa (cf_DefaultLogsRetention cfg)
      else if key = KeyUsageRetention then Itoa (cf_DefaultUsageRetention cfg)
      else if key = KeyAuditRetention then Itoa (cf_DefaultAuditRetention cfg)
      else if key = KeyMaxConcurrency then Itoa (cf_MaxConcurrency cfg)
      else if key = KeyMaxAttempts then Itoa (cf_MaxAttempts cfg)
      else if key = KeyRetryHTTPCodes then joinIntCSV (cf_DefaultRetryHTTPCodes cfg)
      else if key = KeyAPRetryCodes then Join (cf_DefaultAPRetryCodes cfg) '',''
      else if key = KeySearchRateLimit then Itoa (cf_DefaultSearchRateLimit cfg)
      else if key = KeySearchDailyQuota then Itoa (cf_DefaultSearchDailyQuota cfg)
      else if key = KeyChainTimeout then Itoa (cf_DefaultChainTimeout cfg)
      else if key = KeyProviderFailures then Itoa (cf_DefaultProviderFailures cfg)
      else if key = KeyProviderCooldown then Itoa (cf_DefaultProviderCooldown cfg)
      else if key = KeyDebug then FormatBool (cf_DefaultDebug cfg)
      else if key = KeyDeveloperMode then FormatBool (cf_DefaultDeveloperMode cfg)
      else if key = KeyUpdateCheck then FormatBool (cf_DefaultUpdateCheck cfg)
      else if key = KeyUpdateCheckURL then cf_DefaultUpdateCheckURL cfg
      else if key = KeyUpdateCheckInterval then Itoa (cf_DefaultUpdateCheckInterval cfg)
      else if key = KeyWebhookURL then cf_DefaultWebhookURL cfg
      else DefaultFor key)"

text \<open>
  The storage interface \<open>KV\<close>. A call can fail; a state of the storage is of type \<open>'s\<close>.
\<close>

record 's kv =
  kv_Get :: "'s \<Rightarrow> string \<Rightarrow> store_error + string"
  kv_All :: "'s \<Rightarrow> store_error + (string \<rightharpoonup> string)"
  kv_Set :: "string \<Rightarrow> string \<Rightarrow> 's \<Rightarrow> store_error option \<times> 's"

record manager =
  mn_cfg :: Config
  mn_cache :: "string \<rightharpoonup> string"
  mn_loaded :: bool

datatype set_error = PinnedByEnv string | SetFailed store_error

definition NewManager :: "Config \<Rightarrow> manager" where
  "NewManager cfg = \<lparr>mn_cfg = cfg, mn_cache = Map.empty, mn_loaded = False\<rparr>"

definition Refresh :: "'s kv \<Rightarrow> 's \<Rightarrow> manager \<Rightarrow> store_error option \<times> manager" where
  "Refresh kv s m =
     (case kv_All kv s of
        Inl e \<Rightarrow> (Some e, m)
      | Inr all \<Rightarrow> (None, m\<lparr>mn_cache := all, mn_loaded := True\<rparr>))"

definition authEnvOverridable :: "manager \<Rightarrow> string \<Rightarrow> bool" where
  "authEnvOverridable m key \<longleftrightarrow> key = KeyAuthEnabled \<and> \<not> cf_DefaultAuthEnabled (mn_cfg m)"

definition pinned :: "manager \<Rightarrow> string \<Rightarrow> bool" where
  "pinned m key \<longleftrightarrow> IsEnv (mn_cfg m) key \<and> \<not> authEnvOverridable m key"

definition mgr_lookup :: "'s kv \<Rightarrow> 's \<Rightarrow> manager \<Rightarrow> string \<Rightarrow> string" where
  "mgr_lookup kv s m key =
     (if pinned m key then defaultResolved (mn_cfg m) key
      else (case if mn_loaded m then mn_cache m key else None of
              Some v \<Rightarrow> v
            | None \<Rightarrow>
                (case kv_Get kv s key of
                   Inr v \<Rightarrow> if v \<noteq> [] then v else defaultResolved (mn_cfg m) key
                 | Inl e \<Rightarrow> defaultResolved (mn_cfg m) key)))"

definition GetInt :: "'s kv \<Rightarrow> 's \<Rightarrow> manager \<Rightarrow> string \<Rightarrow> int" where
  "GetInt kv s m key =
     (case Atoi (TrimSpace (mgr_lookup kv s m key)) of
        Some v \<Rightarrow> v
      | None \<Rightarrow> (case Atoi (defaultResolved (mn_cfg m) key) of Some d \<Rightarrow> d | None \<Rightarrow> 0))"

definition GetBool :: "'s kv \<Rightarrow> 's \<Rightarrow> manager \<Rightarrow> string \<Rightarrow> bool" where
  "GetBool kv s m key \<longleftrightarrow> ToLower (TrimSpace (mgr_lookup kv s m key)) \<in> {''1'', ''true'', ''yes'', ''on''}"

definition GetCSV :: "'s kv \<Rightarrow> 's \<Rightarrow> manager \<Rightarrow> string \<Rightarrow> string list" where
  "GetCSV kv s m key = csv_parts (mgr_lookup kv s m key)"

definition GetIntCSV :: "'s kv \<Rightarrow> 's \<Rightarrow> manager \<Rightarrow> string \<Rightarrow> int list" where
  "GetIntCSV kv s m key = List.map_filter Atoi (GetCSV kv s m key)"

definition mgr_Set ::
  "'s kv \<Rightarrow> string \<Rightarrow> string \<Rightarrow> manager \<Rightarrow> 's \<Rightarrow> set_error option \<times> manager \<times> 's" where
  "mgr_Set kv key v m s =
     (if pinned m key then (Some (PinnedByEnv key), m, s)
      else (case kv_Set kv key v s of
              (Some e, s') \<Rightarrow> (Some (SetFailed e), m, s')
            | (None, s') \<Rightarrow> (None, m\<lparr>mn_cache := (mn_cache m)(key \<mapsto> v), mn_loaded := True\<rparr>, s')))"

text \<open>\<open>Snapshot\<close>: the values shown in the settings form and the keys marked read-only.\<close>

definition mgr_Snapshot :: "'s kv \<Rightarrow> 's \<Rightarrow> manager \<Rightarrow> (string \<times> string) list \<times> (string \<Rightarrow> bool)" where
  "mgr_Snapshot kv s m =
     (map (\<lambda>b. (sd_Key b, mgr_lookup kv s m (sd_Key b))) envBindings,
      \<lambda>k. IsEnv (mn_cfg m) k \<and> \<not> (k = KeyAuthEnabled \<and> authEnvOverridable m KeyAuthEnabled))"

text \<open>The settings one run of the engine reads.\<close>

definition settings_of :: "'s kv \<Rightarrow> 's \<Rightarrow> manager \<Rightarrow> engine_settings" where
  "settings_of kv s m =
     \<lparr>es_ChainTimeout = GetInt kv s m KeyChainTimeout, es_MaxAttempts = GetInt kv s m KeyMaxAttempts,
      es_MaxConcurrency = GetInt kv s m KeyMaxConcurrency, es_ProviderFailures = GetInt kv s m KeyProviderFailures,
      es_ProviderCooldown = GetInt kv s m KeyProviderCooldown,
      es_TreatEmptyAsFail = GetBool kv s m KeyTreatEmptyAsFail,
      es_AllowSparseSources = GetBool kv s m KeyAllowSparseSources,
      es_IgnoreRequestCount = GetBool kv s m KeyIgnoreRequestCount,
      es_RetryHTTPCodes = GetIntCSV kv s m KeyRetryHTTPCodes, es_APRetryCodes = GetCSV kv s m KeyAPRetryCodes,
      es_WebhookURL = mgr_lookup kv s m KeyWebhookURL\<rparr>"

subsection \<open>The settings table\<close>

text \<open>
  \<open>GetSetting\<close>, \<open>SetSetting\<close> and \<open>AllSettings\<close> of \<open>sqlstore.go\<close>: rows of key and (possibly
  encrypted) value; \<open>db_fails\<close> is the failure the database reports, if any.
\<close>

record settings_db =
  db_settings :: "(string \<times> string) list"
  db_fails :: "string option"

definition GetSetting :: "Cipher \<Rightarrow> settings_db \<Rightarrow> string \<Rightarrow> store_error + string" where
  "GetSetting c db key =
     (case db_fails db of Some e \<Rightarrow> Inl (StoreFailure e)
      | None \<Rightarrow> (case map_of (db_settings db) key of None \<Rightarrow> Inl ErrNotFound | Some v \<Rightarrow> Inr (Decrypt c v)))"

definition SetSetting :: "Cipher \<Rightarrow> string option \<Rightarrow> string \<Rightarrow> string \<Rightarrow> settings_db \<Rightarrow> store_error option \<times> settings_db" where
  "SetSetting c rnd key v db =
     (case db_fails db of Some e \<Rightarrow> (Some (StoreFailure e), db)
      | None \<Rightarrow> (None, db\<lparr>db_settings := AList.update key (Encrypt c rnd v) (db_settings db)\<rparr>))"

definition AllSettings :: "Cipher \<Rightarrow> settings_db \<Rightarrow> store_error + (string \<rightharpoonup> string)" where
  "AllSettings c db =
     (case db_fails db of Some e \<Rightarrow> Inl (StoreFailure e)
      | None \<Rightarrow> Inr (\<lambda>k. map_option (Decrypt c) (map_of (db_settings db) k)))"

definition settings_kv :: "Cipher \<Rightarrow> string option \<Rightarrow> settings_db kv" where
  "settings_kv c rnd = \<lparr>kv_Get = GetSetting c, kv_All = AllSettings c, kv_Set = SetSetting c rnd\<rparr>"

definition settings_values :: "Cipher \<Rightarrow> settings_db \<Rightarrow> (string \<rightharpoonup> string)" where
  "settings_values c db k = map_option (Decrypt c) (map_of (db_settings db) k)"

subsection \<open>The contract of the storage, and what the manager makes of it\<close>

locale kv_store =
  fixes kv :: "'s kv" and stored :: "'s \<Rightarrow> (string \<rightharpoonup> string)"
  assumes get_value: "kv_Get kv s k = Inr v \<Longrightarrow> stored s k = Some v"
    and get_missing: "kv_Get kv s k = Inl ErrNotFound \<Longrightarrow> stored s k = None"
    and all_values: "kv_All kv s = Inr m \<Longrightarrow> m = stored s"
    and set_value: "kv_Set kv k v s = (None, s') \<Longrightarrow> stored s' = (stored s)(k \<mapsto> v)"
    and set_failed: "kv_Set kv k v s = (Some e, s') \<Longrightarrow> stored s' = stored s"
begin

lemma lookup_after_Set:
  assumes "mgr_Set kv k v m s = (None, m', s')"
  shows "mgr_lookup kv s'' m' k = v" and "stored s' k = Some v"
  using assms set_value
  by (auto simp: mgr_Set_def mgr_lookup_def pinned_def authEnvOverridable_def split: if_splits prod.splits option.splits)

lemma Set_other_keys:
  assumes "mgr_Set kv k v m s = (err, m', s')" and "k' \<noteq> k"
  shows "stored s' k' = stored s k'"
  using assms set_value set_failed
  by (fastforce simp: mgr_Set_def split: if_splits prod.splits option.splits)

text \<open>A manager that has loaded the table agrees with it on every key that is not pinned.\<close>

lemma lookup_after_Refresh:
  assumes "Refresh kv s m = (None, m')" and "\<not> pinned m k"
  shows "mgr_lookup kv s m' k = (case stored s k of Some v \<Rightarrow> v | None \<Rightarrow> defaultResolved (mn_cfg m) k)"
proof -
  have m': "m' = m\<lparr>mn_cache := stored s, mn_loaded := True\<rparr>"
    using assms(1) all_values by (auto simp: Refresh_def split: sum.splits)
  then show ?thesis
    using assms(2) get_value [of s k]
    by (auto simp: mgr_lookup_def pinned_def authEnvOverridable_def split: option.splits sum.splits)
qed

text \<open>Another replica sees a non-empty value at once, as long as it has not cached the key.\<close>

lemma lookup_other_replica:
  assumes "mgr_Set kv k v m s = (None, m', s')" and "v \<noteq> []" and "\<not> pinned r k"
    and "mn_loaded r \<longrightarrow> mn_cache r k = None" and "\<exists>u. kv_Get kv s' k = Inr u"
  shows "mgr_lookup kv s' r k = v"
proof -
  have "stored s' k = Some v" using lookup_after_Set(2) [OF assms(1)] .
  then have "kv_Get kv s' k = Inr v" using assms(5) get_value by fastforce
  then show ?thesis using assms(2-4) by (auto simp: mgr_lookup_def)
qed

end

text \<open>Without an encryption key the settings table keeps the contract.\<close>

interpretation plain_settings: kv_store "settings_kv None rnd" "settings_values None"
  by unfold_locales
    (auto simp: settings_kv_def settings_values_def GetSetting_def SetSetting_def AllSettings_def update_conv'
      split: option.splits)

text \<open>With one it does too, as far as the cipher opens what it sealed.\<close>

lemma encrypted_settings_contract:
  assumes "aead_ok a" and "length nonce = ae_NonceSize a"
  shows "kv_store (settings_kv (Some a) (Some nonce)) (settings_values (Some a))"
  using Decrypt_Encrypt [OF assms]
  by unfold_locales
    (auto simp: settings_kv_def settings_values_def GetSetting_def SetSetting_def AllSettings_def update_conv'
      split: option.splits)

subsection \<open>What the environment pins\<close>

lemma Load_Inr:
  assumes "Load env = Inr cfg"
  shows "cfg = (read_config env)\<lparr>cf_MaxConcurrency := max 0 (cf_MaxConcurrency (read_config env)),
      cf_MaxAttempts := max 1 (cf_MaxAttempts (read_config env))\<rparr>"
  using assms by (auto simp: Load_def Let_def split: if_splits)

lemma IsEnv_Load: "Load env = Inr cfg \<Longrightarrow> IsEnv cfg key = env_provides env key"
  by (drule Load_Inr) (simp add: IsEnv_def read_config_def Let_def)

lemma env_provides_iff: "env_provides env key \<longleftrightarrow>
    (\<exists>b \<in> set (filter (\<lambda>b. sd_Key b = key) envBindings). ev_lookup env (sd_Env b) \<noteq> None)"
  by (auto simp: env_provides_def)

lemma is_space_digit: "d < 10 \<Longrightarrow> \<not> is_space (digit_char d)"
proof -
  assume "d < 10"
  moreover have "list_all (\<lambda>d. \<not> is_space (digit_char d)) [0..<10]" by code_simp
  ultimately show ?thesis by (auto simp: list_all_iff)
qed

lemma show_nat_no_space: "c \<in> set (show_nat n) \<Longrightarrow> \<not> is_space c"
proof (induction n rule: less_induct)
  case (less n)
  show ?case
  proof (cases "n < 10")
    case True
    with less.prems show ?thesis by (simp add: show_nat.simps [of n] is_space_digit)
  next
    case False
    with less.prems less.IH [of "n div 10"] show ?thesis
      by (auto simp: show_nat.simps [of n] is_space_digit)
  qed
qed

lemma Itoa_no_space: "c \<in> set (Itoa n) \<Longrightarrow> \<not> is_space c"
  by (auto simp: Itoa_def is_space_def show_nat_no_space split: if_splits dest: show_nat_no_space)

lemma TrimSpace_Itoa [simp]: "TrimSpace (Itoa n) = Itoa n"
  by (rule TrimSpace_clean) (rule Itoa_no_space)

lemma envInt_range: "in_int64 def \<Longrightarrow> in_int64 (envInt env key def)"
  by (auto simp: envInt_def Atoi_def split: option.splits if_splits)

lemma GetInt_pinned:
  assumes "pinned m key" and "defaultResolved (mn_cfg m) key = Itoa n" and "in_int64 n"
  shows "GetInt kv s m key = n"
  using assms by (simp add: GetInt_def mgr_lookup_def Atoi_Itoa)

lemma GetBool_pinned:
  assumes "pinned m key" and "defaultResolved (mn_cfg m) key = FormatBool b"
  shows "GetBool kv s m key = b"
proof -
  have "ToLower (TrimSpace ''true'') = ''true''" "ToLower (TrimSpace ''false'') = ''false''" by code_simp+
  with assms show ?thesis by (cases b) (simp_all add: GetBool_def mgr_lookup_def FormatBool_def)
qed

text \<open>
  The keys whose environment variable reaches the setting: key, variable, compiled-in
  default. \<open>max_concurrency\<close> and \<open>max_attempts\<close> are bounded below by \<open>Load\<close>.
\<close>

definition wired_ints :: "(string \<times> string \<times> int) list" where
  "wired_ints =
    [(KeyHistoryRetention, ''HISTORY_RETENTION_DAYS'', 30), (KeyLogsRetention, ''LOGS_RETENTION_DAYS'', 14),
     (KeyUsageRetention, ''USAGE_RETENTION_DAYS'', 90), (KeyAuditRetention, ''AUDIT_RETENTION_DAYS'', 180),
     (KeySearchRateLimit, ''SEARCH_RATE_LIMIT_PER_MINUTE'', 0), (KeySearchDailyQuota, ''SEARCH_DAILY_QUOTA'', 0),
     (KeyChainTimeout, ''CHAIN_TIMEOUT'', 0), (KeyProviderFailures, ''PROVIDER_FAILURE_THRESHOLD'', 0),
     (KeyProviderCooldown, ''PROVIDER_COOLDOWN_SECONDS'', 60),
     (KeyUpdateCheckInterval, ''UPDATE_CHECK_INTERVAL_HOURS'', 24)]"

definition wired_bools :: "(string \<times> string \<times> bool) list" where
  "wired_bools =
    [(KeyDebug, ''DEBUG'', False), (KeyDeveloperMode, ''DEVELOPER_MODE'', False),
     (KeyUpdateCheck, ''UPDATE_CHECK_ENABLED'', True)]"

text \<open>The keys whose variable marks the setting as pinned without giving it its value.\<close>

definition unwired_keys :: "(string \<times> string) list" where
  "unwired_keys =
    [(KeyHideAuthOffNotice, ''HIDE_AUTH_OFF_NOTICE''), (KeyUserAgent, ''USER_AGENT''),
     (KeyPublicOrigin, ''PUBLIC_ORIGIN''), (KeyRPID, ''RP_ID''), (KeyRPName, ''RP_NAME''),
     (KeyLogLevel, ''LOG_LEVEL''), (KeyStorageDriver, ''STORAGE_DRIVER''), (KeyDatabaseURL, ''DATABASE_URL''),
     (KeyTreatEmptyAsFail, ''TREAT_EMPTY_AS_FAIL''), (KeyIgnoreRequestCount, ''IGNORE_REQUEST_COUNT''),
     (KeyAllowSparseSources, ''ALLOW_SPARSE_SOURCES'')]"

lemma bound_variable:
  "(key, var) \<in> set (map (\<lambda>(k, v, d). (k, v)) wired_ints @ map (\<lambda>(k, v, d). (k, v)) wired_bools @ unwired_keys) \<Longrightarrow>
   \<exists>b \<in> set envBindings. sd_Key b = key \<and> sd_Env b = var"
proof -
  have "list_all (\<lambda>(k, v). list_ex (\<lambda>b. sd_Key b = k \<and> sd_Env b = v) envBindings)
    (map (\<lambda>(k, v, d). (k, v)) wired_ints @ map (\<lambda>(k, v, d). (k, v)) wired_bools @ unwired_keys)" by code_simp
  then show "(key, var) \<in> set (map (\<lambda>(k, v, d). (k, v)) wired_ints @ map (\<lambda>(k, v, d). (k, v)) wired_bools @ unwired_keys) \<Longrightarrow>
   \<exists>b \<in> set envBindings. sd_Key b = key \<and> sd_Env b = var"
    by (fastforce simp only: list_all_iff list_ex_iff)
qed

lemma pinned_Load:
  assumes "Load env = Inr (mn_cfg m)" and "\<exists>b \<in> set envBindings. sd_Key b = key \<and> sd_Env b = var"
    and "ev_lookup env var \<noteq> None" and "key \<noteq> KeyAuthEnabled"
  shows "pinned m key"
  using assms by (auto simp: pinned_def IsEnv_Load authEnvOverridable_def env_provides_def)

lemma default_ints:
  "defaultResolved cfg KeyHistoryRetention = Itoa (cf_DefaultHistoryRetention cfg)"
  "defaultResolved cfg KeyLogsRetention = Itoa (cf_DefaultLogsRetention cfg)"
  "defaultResolved cfg KeyUsageRetention = Itoa (cf_DefaultUsageRetention cfg)"
  "defaultResolved cfg KeyAuditRetention = Itoa (cf_DefaultAuditRetention cfg)"
  "defaultResolved cfg KeySearchRateLimit = Itoa (cf_DefaultSearchRateLimit cfg)"
  "defaultResolved cfg KeySearchDailyQuota = Itoa (cf_DefaultSearchDailyQuota cfg)"
  "defaultResolved cfg KeyChainTimeout = Itoa (cf_DefaultChainTimeout cfg)"
  "defaultResolved cfg KeyProviderFailures = Itoa (cf_DefaultProviderFailures cfg)"
  "defaultResolved cfg KeyProviderCooldown = Itoa (cf_DefaultProviderCooldown cfg)"
  "defaultResolved cfg KeyUpdateCheckInterval = Itoa (cf_DefaultUpdateCheckInterval cfg)"
  by (simp_all add: defaultResolved_def)

lemma default_bools:
  "defaultResolved cfg KeyDebug = FormatBool (cf_DefaultDebug cfg)"
  "defaultResolved cfg KeyDeveloperMode = FormatBool (cf_DefaultDeveloperMode cfg)"
  "defaultResolved cfg KeyUpdateCheck = FormatBool (cf_DefaultUpdateCheck cfg)"
  by (simp_all add: defaultResolved_def)

lemma Load_ints:
  assumes "Load env = Inr cfg"
  shows "cf_DefaultHistoryRetention cfg = envInt env ''HISTORY_RETENTION_DAYS'' 30"
    "cf_DefaultLogsRetention cfg = envInt env ''LOGS_RETENTION_DAYS'' 14"
    "cf_DefaultUsageRetention cfg = envInt env ''USAGE_RETENTION_DAYS'' 90"
    "cf_DefaultAuditRetention cfg = envInt env ''AUDIT_RETENTION_DAYS'' 180"
    "cf_DefaultSearchRateLimit cfg = envInt env ''SEARCH_RATE_LIMIT_PER_MINUTE'' 0"
    "cf_DefaultSearchDailyQuota cfg = envInt env ''SEARCH_DAILY_QUOTA'' 0"
    "cf_DefaultChainTimeout cfg = envInt env ''CHAIN_TIMEOUT'' 0"
    "cf_DefaultProviderFailures cfg = envInt env ''PROVIDER_FAILURE_THRESHOLD'' 0"
    "cf_DefaultProviderCooldown cfg = envInt env ''PROVIDER_COOLDOWN_SECONDS'' 60"
    "cf_DefaultUpdateCheckInterval cfg = envInt env ''UPDATE_CHECK_INTERVAL_HOURS'' 24"
  unfolding Load_Inr [OF assms] by (simp_all add: read_config_def Let_def)

lemma Load_bools:
  assumes "Load env = Inr cfg"
  shows "cf_DefaultDebug cfg = envBool env ''DEBUG'' False"
    "cf_DefaultDeveloperMode cfg = envBool env ''DEVELOPER_MODE'' False"
    "cf_DefaultUpdateCheck cfg = envBool env ''UPDATE_CHECK_ENABLED'' True"
  unfolding Load_Inr [OF assms] by (simp_all add: read_config_def Let_def)

lemma defaultResolved_wired_int:
  assumes "Load env = Inr cfg" and "(key, var, d) \<in> set wired_ints"
  shows "defaultResolved cfg key = Itoa (envInt env var d)"
proof -
  have "list_all (\<lambda>(k, v, d). defaultResolved cfg k = Itoa (envInt env v d)) wired_ints"
    by (simp only: wired_ints_def list.pred_inject prod.case default_ints Load_ints [OF assms(1)] simp_thms)
  with assms(2) show ?thesis by (fastforce simp only: list_all_iff)
qed

lemma defaultResolved_wired_bool:
  assumes "Load env = Inr cfg" and "(key, var, d) \<in> set wired_bools"
  shows "defaultResolved cfg key = FormatBool (envBool env var d)"
proof -
  have "list_all (\<lambda>(k, v, d). defaultResolved cfg k = FormatBool (envBool env v d)) wired_bools"
    by (simp only: wired_bools_def list.pred_inject prod.case default_bools Load_bools [OF assms(1)] simp_thms)
  with assms(2) show ?thesis by (fastforce simp only: list_all_iff)
qed

lemma defaultResolved_unwired:
  assumes "(key, var) \<in> set unwired_keys"
  shows "defaultResolved cfg key = DefaultFor key"
proof -
  have "list_all (\<lambda>(k, v). k \<notin> {KeyAuthEnabled, KeyHistoryRetention, KeyLogsRetention, KeyUsageRetention,
      KeyAuditRetention, KeyMaxConcurrency, KeyMaxAttempts, KeyRetryHTTPCodes, KeyAPRetryCodes, KeySearchRateLimit,
      KeySearchDailyQuota, KeyChainTimeout, KeyProviderFailures, KeyProviderCooldown, KeyDebug, KeyDeveloperMode,
      KeyUpdateCheck, KeyUpdateCheckURL, KeyUpdateCheckInterval, KeyWebhookURL}) unwired_keys" by code_simp
  then have "key \<notin> {KeyAuthEnabled, KeyHistoryRetention, KeyLogsRetention, KeyUsageRetention,
      KeyAuditRetention, KeyMaxConcurrency, KeyMaxAttempts, KeyRetryHTTPCodes, KeyAPRetryCodes, KeySearchRateLimit,
      KeySearchDailyQuota, KeyChainTimeout, KeyProviderFailures, KeyProviderCooldown, KeyDebug, KeyDeveloperMode,
      KeyUpdateCheck, KeyUpdateCheckURL, KeyUpdateCheckInterval, KeyWebhookURL}"
    using assms by (fastforce simp only: list_all_iff)
  then show ?thesis by (simp only: defaultResolved_def insert_iff de_Morgan_disj if_False)
qed

lemma wired_keys_not_auth:
  "(key, var, d) \<in> set wired_ints \<Longrightarrow> key \<noteq> KeyAuthEnabled"
  "(key, var, b) \<in> set wired_bools \<Longrightarrow> key \<noteq> KeyAuthEnabled"
  "(key, var) \<in> set unwired_keys \<Longrightarrow> key \<noteq> KeyAuthEnabled"
  by (auto simp: wired_ints_def wired_bools_def unwired_keys_def)

lemma wired_int_range: "(key, var, d) \<in> set wired_ints \<Longrightarrow> in_int64 d"
  by (auto simp: wired_ints_def in_int64_def)

lemma wired_int_value:
  assumes "Load env = Inr (mn_cfg m)" "(key, var, d) \<in> set wired_ints" "ev_lookup env var \<noteq> None"
  shows "GetInt kv s m key = envInt env var d"
proof (rule GetInt_pinned)
  have "(key, var) \<in> set (map (\<lambda>(k, v, d). (k, v)) wired_ints)" using assms(2) by force
  then show "pinned m key"
    using assms bound_variable [of key var] pinned_Load wired_keys_not_auth(1) by (metis Un_iff set_append)
  show "defaultResolved (mn_cfg m) key = Itoa (envInt env var d)"
    using defaultResolved_wired_int assms(1,2) by blast
  show "in_int64 (envInt env var d)" using envInt_range wired_int_range assms(2) by blast
qed

lemma wired_bool_value:
  assumes "Load env = Inr (mn_cfg m)" "(key, var, d) \<in> set wired_bools" "ev_lookup env var \<noteq> None"
  shows "GetBool kv s m key = envBool env var d"
proof (rule GetBool_pinned)
  have "(key, var) \<in> set (map (\<lambda>(k, v, d). (k, v)) wired_bools)" using assms(2) by force
  then show "pinned m key"
    using assms bound_variable [of key var] pinned_Load wired_keys_not_auth(2) by (metis Un_iff set_append)
  show "defaultResolved (mn_cfg m) key = FormatBool (envBool env var d)"
    using defaultResolved_wired_bool assms(1,2) by blast
qed

lemma unwired_value:
  assumes "Load env = Inr (mn_cfg m)" "(key, var) \<in> set unwired_keys" "ev_lookup env var \<noteq> None"
  shows "pinned m key" and "mgr_lookup kv s m key = DefaultFor key"
    and "mgr_Set kv key v m s = (Some (PinnedByEnv key), m, s)"
proof -
  show p: "pinned m key"
    using assms bound_variable [of key var] pinned_Load wired_keys_not_auth(3) by (metis Un_iff set_append)
  then show "mgr_lookup kv s m key = DefaultFor key"
    using defaultResolved_unwired assms(2) by (simp add: mgr_lookup_def)
  from p show "mgr_Set kv key v m s = (Some (PinnedByEnv key), m, s)" by (simp add: mgr_Set_def)
qed

text \<open>Authentication: the environment can force it on, and can never keep it off.\<close>

lemma auth_enabled_pin:
  assumes "Load env = Inr (mn_cfg m)" and "ev_lookup env ''AUTH_ENABLED'' \<noteq> None"
  shows "pinned m KeyAuthEnabled \<longleftrightarrow> envBool env ''AUTH_ENABLED'' True"
proof -
  have "env_provides env KeyAuthEnabled" using assms(2) by (simp add: env_provides_def envBindings_def setting_def)
  moreover have "cf_DefaultAuthEnabled (mn_cfg m) = envBool env ''AUTH_ENABLED'' True"
    unfolding Load_Inr [OF assms(1)] by (simp add: read_config_def Let_def)
  ultimately show ?thesis using IsEnv_Load [OF assms(1)] by (simp add: pinned_def authEnvOverridable_def)
qed

end
