(* ===== verification/Middleware.thy ===== *)
theory Middleware
  imports Sessions Config
begin

text \<open>
  \<open>internal/auth/middleware.go\<close>, \<open>csrf.go\<close> and \<open>internal/httpd/permissions.go\<close>: who a
  request is from, what that identity may do, and what the guards let through. A handler
  is reached exactly when the guards answer \<open>Proceed\<close>.
\<close>

subsection \<open>Requests and answers\<close>

record http_request =
  hr_Method :: string
  hr_Route :: string
  hr_Header :: "string \<Rightarrow> string"
  hr_Cookie :: "string \<rightharpoonup> string"
  hr_TLS :: bool
  hr_RemoteAddr :: string

datatype 'a guard_answer = Unauthorized | Forbidden string | TooManyRequests string | Proceed 'a

subsection \<open>Identities\<close>

record Identity =
  i_User :: "User option"
  i_Scopes :: "string set"
  i_Via :: string
  i_KeyID :: string
  i_Developer :: bool
  i_Permissions :: "string list"
  i_ChainID :: string

definition PermissionAll :: string where "PermissionAll = ''*''"

definition HasScope :: "Identity option \<Rightarrow> string \<Rightarrow> bool" where
  "HasScope io scope = (case io of None \<Rightarrow> False
     | Some i \<Rightarrow> if i_Via i = ''disabled'' then True else scope \<in> i_Scopes i)"

definition IsAdmin :: "Identity option \<Rightarrow> bool" where
  "IsAdmin io = HasScope io ''admin''"

definition IsDeveloper :: "Identity option \<Rightarrow> bool" where
  "IsDeveloper io = (case io of None \<Rightarrow> False | Some i \<Rightarrow> i_Developer i)"

definition IsFullAccess :: "string list \<Rightarrow> bool" where
  "IsFullAccess ps = (if ps = [] then True else list_ex (\<lambda>p. p = PermissionAll) ps)"

definition AllowsAll :: "Identity option \<Rightarrow> bool" where
  "AllowsAll io = (case io of None \<Rightarrow> True | Some i \<Rightarrow> \<not> i_Developer i \<or> IsFullAccess (i_Permissions i))"

definition AllowsEndpoint :: "Identity option \<Rightarrow> string \<Rightarrow> bool" where
  "AllowsEndpoint io endpoint =
     (if AllowsAll io then True
      else (case io of None \<Rightarrow> False | Some i \<Rightarrow> list_ex (\<lambda>p. p = endpoint) (i_Permissions i)))"

definition disabled_identity :: Identity where
  "disabled_identity = \<lparr>i_User = None, i_Scopes = {''admin'', ''search'', ''read''}, i_Via = ''disabled'',
     i_KeyID = [], i_Developer = False, i_Permissions = [], i_ChainID = []\<rparr>"

text \<open>
  What authentication reads besides the request: the storage calls, the settings (the getters
  of the settings manager), the digests and the JSON decoder of a list of strings.
\<close>

record 's authenticator =
  a_Store :: "'s auth_store"
  a_GetBool :: "string \<Rightarrow> bool"
  a_GetString :: "string \<Rightarrow> string"
  a_kdf :: idkey
  a_sha256 :: "string \<Rightarrow> string"
  a_Unmarshal :: "string \<Rightarrow> string list option"

definition ParsePermissions :: "(string \<Rightarrow> string list option) \<Rightarrow> string \<Rightarrow> string list" where
  "ParsePermissions unmarshal raw =
     (let t = TrimSpace raw in
      if t = [] then [] else (case unmarshal t of None \<Rightarrow> [] | Some ps \<Rightarrow> ps))"

definition AuthEnabled :: "'s authenticator \<Rightarrow> bool" where
  "AuthEnabled a = a_GetBool a KeyAuthEnabled"

definition Secure :: "'s authenticator \<Rightarrow> http_request \<Rightarrow> bool" where
  "Secure a r =
     (if hr_TLS r then True
      else if EqualFold (hr_Header r ''X-Forwarded-Proto'') ''https'' then True
      else HasPrefix (ToLower (a_GetString a KeyPublicOrigin)) ''https://'')"

definition scopes_of :: "string \<Rightarrow> string set" where
  "scopes_of s = set (csv_parts s)"

definition key_expired :: "APIKey \<Rightarrow> time \<Rightarrow> bool" where
  "key_expired k now \<longleftrightarrow> k_ExpiresAt k \<noteq> [] \<and>
     (case parse_rfc3339 (k_ExpiresAt k) of None \<Rightarrow> False | Some e \<Rightarrow> e < now)"

definition key_identity :: "'s authenticator \<Rightarrow> key_kind \<Rightarrow> APIKey \<Rightarrow> User \<Rightarrow> Identity" where
  "key_identity a kind key user =
     (let developer = (kind = KindDeveloper) in
      \<lparr>i_User = Some user,
       i_Scopes = scopes_of (k_Scopes key)
         \<union> (if kind = KindAdmin \<or> developer then {''admin''} else {})
         \<union> (if developer then {''developer'', ''read''} else {}) \<union> {''search''},
       i_Via = ''key'', i_KeyID = k_ID key, i_Developer = developer,
       i_Permissions = (if developer then ParsePermissions (a_Unmarshal a) (k_Permissions key) else []),
       i_ChainID = k_ChainID key\<rparr>)"

definition resolveKey ::
  "'s authenticator \<Rightarrow> string \<Rightarrow> time \<Rightarrow> 's \<Rightarrow> (auth_error + Identity) \<times> 's" where
  "resolveKey a token now s =
     (case ParseKey token of
        None \<Rightarrow> (Inl ErrInvalidKey, s)
      | Some (kind, pre, secret) \<Rightarrow>
          if kind = KindDeveloper \<and> \<not> a_GetBool a KeyDeveloperMode then (Inl ErrInvalidKey, s)
          else (case as_GetAPIKeyByPrefix (a_Store a) pre s of
                  Inl e \<Rightarrow> (Inl ErrInvalidKey, s)
                | Inr key \<Rightarrow>
                    if k_RevokedAt key \<noteq> [] then (Inl ErrInvalidKey, s)
                    else if key_expired key now then (Inl ErrInvalidKey, s)
                    else if \<not> VerifySecret (a_kdf a) (k_Hash key) secret then (Inl ErrInvalidKey, s)
                    else (case as_GetUser (a_Store a) (k_UserID key) s of
                            Inl e \<Rightarrow> (Inl ErrInvalidKey, s)
                          | Inr user \<Rightarrow>
                              if u_Disabled user then (Inl ErrInvalidKey, s)
                              else (Inr (key_identity a kind key user),
                                    snd (as_UpdateAPIKey (a_Store a)
                                           (key\<lparr>k_LastUsedAt := format_rfc3339nano now\<rparr>) s)))))"

definition resolveSession ::
  "'s authenticator \<Rightarrow> string \<Rightarrow> time \<Rightarrow> 's \<Rightarrow> (auth_error + Identity) \<times> 's" where
  "resolveSession a token now s =
     (case LookupSession (a_Store a) (a_sha256 a) token now now s of
        (Inl e, s') \<Rightarrow> (Inl ErrInvalidKey, s')
      | (Inr (sess, user), s') \<Rightarrow>
          (Inr \<lparr>i_User = Some user,
                i_Scopes = {''search'', ''read''} \<union> (if u_Role user = ''admin'' then {''admin''} else {}),
                i_Via = ''session'', i_KeyID = [], i_Developer = False, i_Permissions = [], i_ChainID = []\<rparr>, s'))"

text \<open>\<open>Inr None\<close>: no credentials.\<close>

definition Resolve ::
  "'s authenticator \<Rightarrow> http_request \<Rightarrow> time \<Rightarrow> 's \<Rightarrow> (auth_error + Identity option) \<times> 's" where
  "Resolve a r now s =
     (if \<not> AuthEnabled a then (Inr (Some disabled_identity), s)
      else (let header = hr_Header r ''Authorization'' in
            if HasPrefix (ToLower header) ''bearer '' then
              (case resolveKey a (TrimSpace (drop 7 header)) now s of
                 (Inl e, s') \<Rightarrow> (Inl e, s') | (Inr i, s') \<Rightarrow> (Inr (Some i), s'))
            else (case hr_Cookie r SessionCookieName of
                    None \<Rightarrow> (Inr None, s)
                  | Some v \<Rightarrow>
                      if v = [] then (Inr None, s)
                      else (case resolveSession a v now s of
                              (Inl e, s') \<Rightarrow> (Inl e, s') | (Inr i, s') \<Rightarrow> (Inr (Some i), s')))))"

definition LoginWithKey :: "'s authenticator \<Rightarrow> string \<Rightarrow> time \<Rightarrow> 's \<Rightarrow> (auth_error + Identity) \<times> 's" where
  "LoginWithKey a token now s = resolveKey a token now s"

subsection \<open>Cross-site request forgery\<close>

definition ValidateCSRF :: "http_request \<Rightarrow> bool" where
  "ValidateCSRF r =
     (if hr_Method r \<in> {''GET'', ''HEAD'', ''OPTIONS''} then True
      else (case hr_Cookie r CSRFCookieName of
              None \<Rightarrow> False
            | Some v \<Rightarrow> v \<noteq> [] \<and> hr_Header r CSRFHeaderName \<noteq> [] \<and> v = hr_Header r CSRFHeaderName))"

text \<open>The value of the cookie that is set, if one is.\<close>

definition EnsureCSRFCookie :: "http_request \<Rightarrow> string option \<Rightarrow> string option" where
  "EnsureCSRFCookie r rnd = (if hr_Cookie r CSRFCookieName \<noteq> None then None else RandomToken rnd)"

subsection \<open>The guards\<close>

definition Authenticate ::
  "'s authenticator \<Rightarrow> http_request \<Rightarrow> time \<Rightarrow> 's \<Rightarrow> Identity guard_answer \<times> 's" where
  "Authenticate a r now s =
     (if \<not> AuthEnabled a then (Proceed disabled_identity, s)
      else (case Resolve a r now s of
              (Inl e, s') \<Rightarrow> (Unauthorized, s')
            | (Inr None, s') \<Rightarrow> (Unauthorized, s')
            | (Inr (Some i), s') \<Rightarrow>
                if i_Via i = ''session'' \<and> \<not> ValidateCSRF r then (Forbidden ''csrf validation failed'', s')
                else (Proceed i, s')))"

definition RequireScope :: "string \<Rightarrow> Identity option \<Rightarrow> unit guard_answer" where
  "RequireScope scope io =
     (if io = None \<or> \<not> HasScope io scope then Forbidden (''scope '' @ scope @ '' required'') else Proceed ())"

definition RequireAdmin :: "Identity option \<Rightarrow> unit guard_answer" where
  "RequireAdmin io = (if io = None \<or> \<not> IsAdmin io then Forbidden ''admin scope required'' else Proceed ())"

definition Optional :: "'s authenticator \<Rightarrow> http_request \<Rightarrow> time \<Rightarrow> 's \<Rightarrow> Identity option \<times> 's" where
  "Optional a r now s =
     (case Resolve a r now s of (Inr (Some i), s') \<Rightarrow> (Some i, s') | (_, s') \<Rightarrow> (None, s'))"

definition alwaysAllowedEndpoints :: "string list" where
  "alwaysAllowedEndpoints = [''GET /api/me'', ''POST /api/auth/logout'']"

definition normalizeRoutePattern :: "string \<Rightarrow> string" where
  "normalizeRoutePattern p = (if p = [] \<or> p = ''/'' then p else TrimSuffix p ''/'')"

text \<open>\<open>hr_Route\<close> is the route pattern the router matched.\<close>

definition endpointAllowed :: "http_request \<Rightarrow> Identity option \<Rightarrow> bool" where
  "endpointAllowed r io =
     (case io of None \<Rightarrow> True
      | Some i \<Rightarrow>
          if \<not> i_Developer i \<or> AllowsAll io then True
          else (let endpoint = ToUpper (hr_Method r) @ '' '' @ normalizeRoutePattern (hr_Route r)
                in endpoint \<in> set alwaysAllowedEndpoints \<or> AllowsEndpoint io endpoint))"

definition authenticate ::
  "'s authenticator \<Rightarrow> http_request \<Rightarrow> time \<Rightarrow> 's \<Rightarrow> Identity guard_answer \<times> 's" where
  "authenticate a r now s =
     (case Authenticate a r now s of
        (Proceed i, s') \<Rightarrow> if endpointAllowed r (Some i) then (Proceed i, s') else (Forbidden ''endpoint_forbidden'', s')
      | (other, s') \<Rightarrow> (other, s'))"

subsection \<open>What an identity stands for\<close>

lemma resolveKey_sound:
  assumes "resolveKey a token now s = (Inr i, s')"
  shows "\<exists>kind pre secret key user.
      ParseKey token = Some (kind, pre, secret) \<and> (kind = KindDeveloper \<longrightarrow> a_GetBool a KeyDeveloperMode)
      \<and> as_GetAPIKeyByPrefix (a_Store a) pre s = Inr key \<and> k_RevokedAt key = [] \<and> \<not> key_expired key now
      \<and> VerifySecret (a_kdf a) (k_Hash key) secret
      \<and> as_GetUser (a_Store a) (k_UserID key) s = Inr user \<and> \<not> u_Disabled user
      \<and> i = key_identity a kind key user
      \<and> s' = snd (as_UpdateAPIKey (a_Store a) (key\<lparr>k_LastUsedAt := format_rfc3339nano now\<rparr>) s)"
  using assms by (auto simp: resolveKey_def split: option.splits prod.splits if_splits sum.splits)

lemma resolveKey_complete:
  assumes "ParseKey token = Some (kind, pre, secret)" "kind = KindDeveloper \<longrightarrow> a_GetBool a KeyDeveloperMode"
    and "as_GetAPIKeyByPrefix (a_Store a) pre s = Inr key" "k_RevokedAt key = []" "\<not> key_expired key now"
    and "VerifySecret (a_kdf a) (k_Hash key) secret"
    and "as_GetUser (a_Store a) (k_UserID key) s = Inr user" "\<not> u_Disabled user"
  shows "fst (resolveKey a token now s) = Inr (key_identity a kind key user)"
  using assms by (simp add: resolveKey_def)

lemma key_identity_simps [simp]:
  "i_User (key_identity a kind key user) = Some user" "i_KeyID (key_identity a kind key user) = k_ID key"
  "i_ChainID (key_identity a kind key user) = k_ChainID key" "i_Via (key_identity a kind key user) = ''key''"
  "i_Developer (key_identity a kind key user) \<longleftrightarrow> kind = KindDeveloper"
  by (simp_all add: key_identity_def Let_def)

lemma resolveSession_sound:
  assumes "resolveSession a token now s = (Inr i, s')"
  shows "\<exists>sess user. LookupSession (a_Store a) (a_sha256 a) token now now s = (Inr (sess, user), s')
      \<and> i_User i = Some user \<and> i_Via i = ''session'' \<and> \<not> i_Developer i
      \<and> (''admin'' \<in> i_Scopes i \<longleftrightarrow> u_Role user = ''admin'')"
  using assms by (auto simp: resolveSession_def split: prod.splits sum.splits if_splits)

lemma authenticate_Next:
  assumes "authenticate a r now s = (Proceed i, s')"
  shows "endpointAllowed r (Some i) \<and>
    (if AuthEnabled a then Resolve a r now s = (Inr (Some i), s') \<and> (i_Via i = ''session'' \<longrightarrow> ValidateCSRF r)
     else i = disabled_identity \<and> s' = s)"
  using assms
  by (auto simp: authenticate_def Authenticate_def split: prod.splits sum.splits guard_answer.splits if_splits option.splits
      simp: endpointAllowed_def disabled_identity_def)

lemma Resolve_cases:
  assumes "Resolve a r now s = (Inr (Some i), s')" and "AuthEnabled a"
  obtains (key) token where "hr_Header r ''Authorization'' \<noteq> []" "resolveKey a token now s = (Inr i, s')"
  | (session) token where "hr_Cookie r SessionCookieName = Some token" "resolveSession a token now s = (Inr i, s')"
proof -
  let ?h = "hr_Header r ''Authorization''"
  consider "HasPrefix (ToLower ?h) ''bearer ''" | v where "hr_Cookie r SessionCookieName = Some v"
      "\<not> HasPrefix (ToLower ?h) ''bearer ''" "v \<noteq> []"
    using assms by (auto simp: Resolve_def Let_def split: if_splits option.splits)
  then show thesis
  proof cases
    case 1
    then have "?h \<noteq> []" by (auto simp: ToLower_def)
    moreover have "resolveKey a (TrimSpace (drop 7 ?h)) now s = (Inr i, s')"
      using 1 assms by (auto simp: Resolve_def Let_def split: prod.splits sum.splits)
    ultimately show thesis by (rule key)
  next
    case 2
    then have "resolveSession a v now s = (Inr i, s')"
      using assms by (auto simp: Resolve_def Let_def split: prod.splits sum.splits)
    with 2(1) show thesis by (rule session)
  qed
qed

lemma resolveKey_developer:
  "resolveKey a token now s = (Inr i, s') \<Longrightarrow> i_Developer i \<Longrightarrow> a_GetBool a KeyDeveloperMode"
  by (drule resolveKey_sound) auto

subsection \<open>The contract of the key storage\<close>

definition store_key :: "APIKey \<Rightarrow> APIKey \<Rightarrow> APIKey" where
  "store_key k x = x\<lparr>k_Name := k_Name k, k_Scopes := k_Scopes k, k_ChainID := k_ChainID k,
     k_Permissions := k_Permissions k, k_LastUsedAt := k_LastUsedAt k, k_ExpiresAt := k_ExpiresAt k,
     k_RevokedAt := k_RevokedAt k\<rparr>"

lemma store_key_used: "store_key (x\<lparr>k_LastUsedAt := t\<rparr>) x = x\<lparr>k_LastUsedAt := t\<rparr>"
  by (simp add: store_key_def)

locale key_store =
  fixes st :: "'s auth_store" and inv :: "'s \<Rightarrow> bool" and up :: "'s \<Rightarrow> bool"
    and keys :: "'s \<Rightarrow> string \<rightharpoonup> APIKey" and usr :: "'s \<Rightarrow> string \<rightharpoonup> User"
  assumes get_key: "as_GetAPIKeyByPrefix st p s = Inr k \<Longrightarrow> keys s p = Some k"
    and find_key: "up s \<Longrightarrow> keys s p = Some k \<Longrightarrow> as_GetAPIKeyByPrefix st p s = Inr k"
    and get_user: "as_GetUser st i s = Inr u \<Longrightarrow> usr s i = Some u"
    and find_user: "up s \<Longrightarrow> usr s i = Some u \<Longrightarrow> as_GetUser st i s = Inr u"
    and update_key: "inv s \<Longrightarrow> up s \<Longrightarrow> keys s p = Some x \<Longrightarrow>
          as_UpdateAPIKey st (x\<lparr>k_LastUsedAt := t\<rparr>) s = (err, s') \<Longrightarrow>
          inv s' \<and> up s' \<and> usr s' = usr s \<and> keys s' p = Some (store_key (x\<lparr>k_LastUsedAt := t\<rparr>) x)"
begin

text \<open>A key that was accepted is accepted again, with the same rights, until it expires.\<close>

lemma resolve_again:
  assumes "inv s" "up s" "a_Store a = st" "resolveKey a token now s = (Inr i, s')"
    and "\<And>k. keys s (fst (snd (the (ParseKey token)))) = Some k \<Longrightarrow> \<not> key_expired k now'"
  shows "inv s' \<and> up s' \<and> fst (resolveKey a token now' s') = Inr i"
proof -
  obtain kind pre secret key user where r: "ParseKey token = Some (kind, pre, secret)"
      "kind = KindDeveloper \<longrightarrow> a_GetBool a KeyDeveloperMode"
      "as_GetAPIKeyByPrefix st pre s = Inr key" "k_RevokedAt key = []"
      "VerifySecret (a_kdf a) (k_Hash key) secret"
      "as_GetUser st (k_UserID key) s = Inr user" "\<not> u_Disabled user"
      "i = key_identity a kind key user"
      "s' = snd (as_UpdateAPIKey st (key\<lparr>k_LastUsedAt := format_rfc3339nano now\<rparr>) s)"
    using resolveKey_sound [OF assms(4)] assms(3) by blast
  define key' where "key' = key\<lparr>k_LastUsedAt := format_rfc3339nano now\<rparr>"
  have k: "keys s pre = Some key" using r(3) by (rule get_key)
  have s': "inv s' \<and> up s' \<and> usr s' = usr s \<and> keys s' pre = Some key'"
    using update_key [OF assms(1,2) k] r(9) by (metis key'_def prod.collapse store_key_used)
  have "\<not> key_expired key' now'" using assms(5) k r(1) by (simp add: key_expired_def key'_def)
  moreover have "as_GetAPIKeyByPrefix st pre s' = Inr key'" using s' by (intro find_key) auto
  moreover have "as_GetUser st (k_UserID key') s' = Inr user"
    using s' get_user [OF r(6)] by (intro find_user) (auto simp: key'_def)
  ultimately have "fst (resolveKey a token now' s') = Inr (key_identity a kind key' user)"
    using r assms(3) by (intro resolveKey_complete [where secret = secret]) (auto simp: key'_def)
  moreover have "key_identity a kind key' user = i" by (simp add: r(8) key_identity_def key'_def Let_def)
  ultimately show ?thesis using s' by simp
qed

end

definition key_by_prefix :: "database \<Rightarrow> string \<rightharpoonup> APIKey" where
  "key_by_prefix db p = find (\<lambda>k. k_Prefix k = p) (t_keys db)"

lemma sql_update_key:
  assumes "accounts_ok s" "t_down s = None" "key_by_prefix s p = Some x" "UpdateAPIKey (x\<lparr>k_LastUsedAt := t\<rparr>) s = (err, s')"
  shows "accounts_ok s' \<and> t_down s' = None \<and> user_by_id s' = user_by_id s
     \<and> key_by_prefix s' p = Some (store_key (x\<lparr>k_LastUsedAt := t\<rparr>) x)"
proof -
  let ?k = "x\<lparr>k_LastUsedAt := t\<rparr>"
  have "accounts_ok s'" using accounts_ok_exec [OF assms(1), of "Update_key ?k"] assms(4) by simp
  moreover have "x \<in> set (t_keys s)" using assms(3) find_SomeD by (fastforce simp: key_by_prefix_def)
  then have "k_ChainID x = [] \<or> has cr_ID (k_ChainID x) (t_chains s)" using assms(1) by (auto simp: accounts_ok_def)
  then have s': "s' = s\<lparr>t_keys := update_where (\<lambda>y. k_ID y = k_ID ?k) (store_key ?k) (t_keys s)\<rparr>"
    using assms(2,4) by (simp add: UpdateAPIKey_def run_exec_def store_key_def [abs_def])
  moreover have "key_by_prefix s' p = Some (store_key ?k x)"
    using assms(3) by (simp add: key_by_prefix_def s' find_update_where store_key_def)
  ultimately show ?thesis using assms(2) by (simp add: user_by_id_def fun_eq_iff)
qed

interpretation sql_keys: key_store sql_auth accounts_ok "\<lambda>db. t_down db = None" key_by_prefix user_by_id
proof unfold_locales
  fix s p x t err s'
  assume "accounts_ok s" "t_down s = None" "key_by_prefix s p = Some x"
    "as_UpdateAPIKey sql_auth (x\<lparr>k_LastUsedAt := t\<rparr>) s = (err, s')"
  then show "accounts_ok s' \<and> t_down s' = None \<and> user_by_id s' = user_by_id s
     \<and> key_by_prefix s' p = Some (store_key (x\<lparr>k_LastUsedAt := t\<rparr>) x)"
    by (intro sql_update_key) (simp_all add: sql_auth_def)
qed (auto simp: sql_auth_def GetAPIKeyByPrefix_def GetUser_def run_row_def key_by_prefix_def user_by_id_def
      split: option.splits)

subsection \<open>The kind of a key is the caller's word\<close>

text \<open>
  The stored key does not say which prefix it was handed out with, and \<open>resolveKey\<close> takes the
  kind from the token: the holder of any valid key is an administrator by presenting it with
  the admin prefix.
\<close>

lemma admin_prefix_escalates:
  assumes "resolveKey a token now s = (Inr i, s')" and "ParseKey token = Some (kind, pre, secret)"
    and "ParseKey token' = Some (KindAdmin, pre, secret)" "a_Store a' = a_Store a" "a_kdf a' = a_kdf a"
  shows "\<exists>i'. fst (resolveKey a' token' now s) = Inr i' \<and> IsAdmin (Some i') \<and> \<not> i_Developer i'
      \<and> i_User i' = i_User i \<and> i_KeyID i' = i_KeyID i"
proof -
  obtain key user where r: "as_GetAPIKeyByPrefix (a_Store a) pre s = Inr key" "k_RevokedAt key = []"
      "\<not> key_expired key now" "VerifySecret (a_kdf a) (k_Hash key) secret"
      "as_GetUser (a_Store a) (k_UserID key) s = Inr user" "\<not> u_Disabled user" "i = key_identity a kind key user"
    using resolveKey_sound [OF assms(1)] assms(2) by auto
  have "fst (resolveKey a' token' now s) = Inr (key_identity a' KindAdmin key user)"
    using r assms(3-5) by (intro resolveKey_complete [where secret = secret]) auto
  moreover have "IsAdmin (Some (key_identity a' KindAdmin key user))"
    by (simp add: IsAdmin_def HasScope_def key_identity_def Let_def)
  ultimately show ?thesis by (auto simp: r(7))
qed

end
