(* ===== verification/Client_IP.thy ===== *)
theory Client_IP
  imports Middleware
begin

text \<open>
  \<open>internal/auth/clientip.go\<close>: the address a request is counted against. Addresses are read
  by \<open>net.ParseIP\<close> and \<open>net.ParseCIDR\<close>, modelled here on the 128-bit value of an address (an IPv4
  address is its mapped form \<open>::ffff:a.b.c.d\<close>) and the length of a prefix.
\<close>

subsection \<open>Addresses and networks of package net\<close>

type_synonym ip = int

definition is_hex :: "char \<Rightarrow> bool" where
  "is_hex c \<longleftrightarrow> hex_val (lower_char c) \<noteq> None"

definition hex_int :: "string \<Rightarrow> int" where
  "hex_int s = foldl (\<lambda>n c. 16 * n + (case hex_val (lower_char c) of Some d \<Rightarrow> int d | None \<Rightarrow> 0)) 0 s"

text \<open>One octet: one to three digits, no leading zero, at most 255.\<close>

definition parse_octet :: "string \<Rightarrow> int option" where
  "parse_octet s =
     (if s = [] \<or> 3 < length s \<or> (1 < length s \<and> hd s = CHR ''0'') then None
      else (case read_int 0 s of None \<Rightarrow> None | Some n \<Rightarrow> if n \<le> 255 then Some n else None))"

definition parseIPv4 :: "string \<Rightarrow> int option" where
  "parseIPv4 s =
     (case map parse_octet (Split s CHR ''.'') of
        [Some a, Some b, Some c, Some d] \<Rightarrow> Some (((a * 256 + b) * 256 + c) * 256 + d)
      | _ \<Rightarrow> None)"

lemma length_dropWhile_hex: "length (dropWhile is_hex s) \<le> length s"
  by (rule length_dropWhile_le)

text \<open>The groups read so far and the place of \<open>::\<close> among them.\<close>

function v6_groups :: "string \<Rightarrow> int list \<Rightarrow> nat option \<Rightarrow> (int list \<times> nat option) option" where
  "v6_groups s gs ell =
     (if 8 \<le> length gs then (if s = [] then Some (gs, ell) else None)
      else
        (let d = takeWhile is_hex s; r = dropWhile is_hex s
         in if d = [] \<or> 4 < length d then None
            else if r \<noteq> [] \<and> hd r = CHR ''.'' then
              (if (ell = None \<and> length gs \<noteq> 6) \<or> 6 < length gs then None
               else (case parseIPv4 s of None \<Rightarrow> None
                     | Some v \<Rightarrow> Some (gs @ [v div 65536, v mod 65536], ell)))
            else
              (let gs' = gs @ [hex_int d]
               in if r = [] then Some (gs', ell)
                  else if hd r \<noteq> CHR '':'' \<or> tl r = [] then None
                  else if hd (tl r) = CHR '':'' then
                    (if ell \<noteq> None then None
                     else if tl (tl r) = [] then Some (gs', Some (length gs'))
                     else v6_groups (tl (tl r)) gs' (Some (length gs')))
                  else v6_groups (tl r) gs' ell)))"
  by pat_completeness auto

termination
proof (relation "measure (\<lambda>(s, gs, ell). length s)", goal_cases)
  case 1 show ?case by simp
next
  case (2 s gs ell d r gs')
  then have "length r \<le> length s" "r \<noteq> []" using length_dropWhile_hex by auto
  then show ?case by (cases r) auto
next
  case (3 s gs ell d r gs')
  then have "length r \<le> length s" "r \<noteq> []" using length_dropWhile_hex by auto
  then show ?case by (cases r) auto
qed

definition groups_ip :: "int list \<Rightarrow> ip" where
  "groups_ip gs = foldl (\<lambda>w g. 65536 * w + g) 0 gs"

definition expand :: "int list \<Rightarrow> nat option \<Rightarrow> int list option" where
  "expand gs ell =
     (case ell of
        None \<Rightarrow> if length gs = 8 then Some gs else None
      | Some i \<Rightarrow> if length gs < 8 then Some (take i gs @ replicate (8 - length gs) 0 @ drop i gs) else None)"

definition parseIPv6 :: "string \<Rightarrow> ip option" where
  "parseIPv6 s =
     (let start = (if HasPrefix s ''::'' then (if drop 2 s = [] then Some ([], Some 0) else v6_groups (drop 2 s) [] (Some 0))
                   else v6_groups s [] None)
      in case start of None \<Rightarrow> None | Some (gs, ell) \<Rightarrow> map_option groups_ip (expand gs ell))"

definition ip4 :: "int \<Rightarrow> ip" where
  "ip4 n = 0xFFFF * 2 ^ 32 + n"

text \<open>\<open>netip.ParseAddr\<close> without zones: whether the text was IPv4, and the address.\<close>

definition ParseAddr :: "string \<Rightarrow> (bool \<times> ip) option" where
  "ParseAddr s =
     (case find (\<lambda>c. c = CHR ''.'' \<or> c = CHR '':'') s of
        None \<Rightarrow> None
      | Some c \<Rightarrow>
          if c = CHR ''.'' then map_option (\<lambda>n. (True, ip4 n)) (parseIPv4 s)
          else map_option (\<lambda>i. (False, i)) (parseIPv6 s))"

definition ParseIP :: "string \<Rightarrow> ip option" where
  "ParseIP s = map_option snd (ParseAddr s)"

definition is4 :: "ip \<Rightarrow> bool" where
  "is4 i \<longleftrightarrow> i div 2 ^ 32 = 0xFFFF"

text \<open>A network: its first address and the number of leading bits, out of 128, that the mask keeps.\<close>

record ipnet =
  net_IP :: ip
  net_Bits :: nat

definition ParseCIDR :: "string \<Rightarrow> ipnet option" where
  "ParseCIDR s =
     (case IndexByte s CHR ''/'' of
        None \<Rightarrow> None
      | Some i \<Rightarrow>
          (case (ParseAddr (take i s), if drop (i + 1) s = [] then None else read_int 0 (drop (i + 1) s)) of
             (Some (v4, a), Some n) \<Rightarrow>
               if n \<le> (if v4 then 32 else 128)
               then (let bits = nat (if v4 then 96 + n else n)
                     in Some \<lparr>net_IP = a - a mod 2 ^ (128 - bits), net_Bits = bits\<rparr>)
               else None
           | _ \<Rightarrow> None))"

text \<open>
  \<open>Contains\<close> compares the bits under the mask, of addresses of one family: the mask of an
  IPv4 network covers the mapping prefix.
\<close>

definition net_Contains :: "ipnet \<Rightarrow> ip \<Rightarrow> bool" where
  "net_Contains n i \<longleftrightarrow> is4 i = is4 (net_IP n) \<and>
     net_IP n div 2 ^ (128 - net_Bits n) = i div 2 ^ (128 - net_Bits n)"

text \<open>\<open>net.SplitHostPort\<close>, the host only.\<close>

definition last_colon :: "string \<Rightarrow> nat option" where
  "last_colon s = map_option (\<lambda>i. length s - 1 - i) (IndexByte (rev s) CHR '':'')"

definition SplitHost :: "string \<Rightarrow> string option" where
  "SplitHost addr =
     (case last_colon addr of
        None \<Rightarrow> None
      | Some i \<Rightarrow>
          if HasPrefix addr ''['' then
            (case IndexByte addr CHR '']'' of
               None \<Rightarrow> None
             | Some e \<Rightarrow>
                 if e + 1 = i \<and> CHR ''['' \<notin> set (drop 1 addr) \<and> CHR '']'' \<notin> set (drop (e + 1) addr)
                 then Some (take (e - 1) (drop 1 addr)) else None)
          else if CHR '':'' \<in> set (take i addr) \<or> CHR ''['' \<in> set addr \<or> CHR '']'' \<in> set addr then None
          else Some (take i addr))"

subsection \<open>The resolver\<close>

text \<open>The trusted networks; the resolver is nil or has a list of them.\<close>

definition trusted_entry :: "string \<Rightarrow> ipnet option" where
  "trusted_entry e0 =
     (let e = TrimSpace e0 in
      if e = [] then None
      else (case ParseIP e of
              Some i \<Rightarrow> Some \<lparr>net_IP = i, net_Bits = 128\<rparr>
            | None \<Rightarrow> ParseCIDR e))"

definition NewClientIPResolver :: "string list \<Rightarrow> ipnet list" where
  "NewClientIPResolver entries = List.map_filter trusted_entry entries"

definition isTrusted :: "ipnet list \<Rightarrow> string \<Rightarrow> bool" where
  "isTrusted nets raw =
     (case ParseIP raw of None \<Rightarrow> False | Some i \<Rightarrow> list_ex (\<lambda>n. net_Contains n i) nets)"

definition hostOnly :: "string \<Rightarrow> string" where
  "hostOnly addr = (case SplitHost addr of Some h \<Rightarrow> h | None \<Rightarrow> addr)"

fun first_hop :: "ipnet list \<Rightarrow> string list \<Rightarrow> string option" where
  "first_hop nets [] = None"
| "first_hop nets (p # ps) =
     (let candidate = TrimSpace p in
      if candidate = [] \<or> ParseIP candidate = None then first_hop nets ps
      else if isTrusted nets candidate then first_hop nets ps
      else Some candidate)"

definition ClientIP :: "ipnet list option \<Rightarrow> http_request \<Rightarrow> string" where
  "ClientIP res r =
     (let remote = hostOnly (hr_RemoteAddr r) in
      case res of
        None \<Rightarrow> remote
      | Some nets \<Rightarrow>
          if nets = [] \<or> \<not> isTrusted nets remote then remote
          else (let xff = hr_Header r ''X-Forwarded-For'' in
                if xff = [] then remote
                else (case first_hop nets (rev (Split xff CHR '','')) of Some c \<Rightarrow> c | None \<Rightarrow> remote)))"

definition resolver_Trusted :: "ipnet list option \<Rightarrow> bool" where
  "resolver_Trusted res = (case res of None \<Rightarrow> False | Some nets \<Rightarrow> nets \<noteq> [])"

subsection \<open>Whose word is believed\<close>

text \<open>Without a trusted peer the headers do not matter.\<close>

lemma ClientIP_untrusted:
  assumes "\<And>nets. res = Some nets \<Longrightarrow> \<not> isTrusted nets (hostOnly (hr_RemoteAddr r))"
  shows "ClientIP res r = hostOnly (hr_RemoteAddr r)"
  using assms by (auto simp: ClientIP_def Let_def split: option.splits)

lemma first_hop_skip:
  "(\<And>p. p \<in> set ps \<Longrightarrow> TrimSpace p = [] \<or> ParseIP (TrimSpace p) = None \<or> isTrusted nets (TrimSpace p)) \<Longrightarrow>
   first_hop nets (ps @ qs) = first_hop nets qs"
proof (induction ps)
  case (Cons a ps)
  then have "TrimSpace a = [] \<or> ParseIP (TrimSpace a) = None \<or> isTrusted nets (TrimSpace a)" by simp
  moreover have "first_hop nets (ps @ qs) = first_hop nets qs" using Cons by simp
  ultimately show ?case by (auto simp: Let_def)
qed simp

lemma Split_append_sep: "Split (xs @ d # ys) d = Split xs d @ Split ys d"
  by (induction xs) (auto split: list.splits)

text \<open>
  Behind trusted proxies the address is the one the outermost of them saw, whatever the client
  itself put in front of it.
\<close>

lemma ClientIP_forwarded:
  assumes "isTrusted nets (hostOnly (hr_RemoteAddr r))" and "front = [] \<or> (\<exists>f. front = f @ '','')"
    and "hr_Header r ''X-Forwarded-For'' = front @ Join (client # hops) '',''"
    and "\<And>h. h \<in> set (client # hops) \<Longrightarrow> CHR '','' \<notin> set h"
    and "ParseIP (TrimSpace client) \<noteq> None" "\<not> isTrusted nets (TrimSpace client)" "TrimSpace client \<noteq> []"
    and "\<And>h. h \<in> set hops \<Longrightarrow> isTrusted nets (TrimSpace h)"
  shows "ClientIP (Some nets) r = TrimSpace client"
proof -
  let ?h = "hr_Header r ''X-Forwarded-For''"
  have j: "Split (Join (client # hops) '','') CHR '','' = client # hops"
    using assms(4) by (intro Split_Join) auto
  have "\<exists>fs. Split ?h CHR '','' = fs @ client # hops"
    using assms(2) j by (auto simp: assms(3) Split_append_sep)
  then obtain fs where fs: "Split ?h CHR '','' = fs @ client # hops" ..
  have "first_hop nets (rev (Split ?h CHR '','')) = first_hop nets (client # rev fs)"
    unfolding fs using first_hop_skip [of "rev hops" nets] assms(8) by simp
  also have "\<dots> = Some (TrimSpace client)" using assms(5-7) by (auto simp: Let_def)
  finally have "first_hop nets (rev (Split ?h CHR '','')) = Some (TrimSpace client)" .
  moreover have "?h \<noteq> []"
  proof
    assume "?h = []"
    then have "client = []" using fs by (cases fs) auto
    then show False using assms(7) by simp
  qed
  moreover have "nets \<noteq> []" using assms(1) by (auto simp: isTrusted_def split: option.splits)
  ultimately show ?thesis using assms(1) by (simp add: ClientIP_def Let_def)
qed

text \<open>The answer is always the peer or an address from the header.\<close>

lemma first_hop_valid: "first_hop nets ps = Some c \<Longrightarrow> ParseIP c \<noteq> None \<and> \<not> isTrusted nets c"
  by (induction ps) (auto simp: Let_def split: if_splits)

lemma ClientIP_cases:
  "ClientIP res r = hostOnly (hr_RemoteAddr r) \<or>
   (\<exists>nets. res = Some nets \<and> isTrusted nets (hostOnly (hr_RemoteAddr r)) \<and> ParseIP (ClientIP res r) \<noteq> None
      \<and> \<not> isTrusted nets (ClientIP res r))"
  by (auto simp: ClientIP_def Let_def split: option.splits dest: first_hop_valid)

text \<open>Concrete addresses.\<close>

lemma parse_examples:
  "ParseIP ''10.0.0.1'' = Some (ip4 167772161)" "ParseIP ''::ffff:10.0.0.1'' = ParseIP ''10.0.0.1''"
  "ParseIP ''010.0.0.1'' = None" "ParseIP ''1:2:3:4:5:6:7:8:9'' = None" "ParseIP ''::1'' = Some 1"
  "hostOnly ''[::1]:443'' = ''::1''" "hostOnly ''10.0.0.1:5000'' = ''10.0.0.1''" "hostOnly ''10.0.0.1'' = ''10.0.0.1''"
  by code_simp+

lemma cidr_examples:
  "isTrusted (NewClientIPResolver [''10.0.0.0/8'']) ''10.200.3.4''"
  "\<not> isTrusted (NewClientIPResolver [''10.0.0.0/8'']) ''11.0.0.1''"
  "isTrusted (NewClientIPResolver ['' 192.168.1.1 '', ''fd00::/8'']) ''fd12:3456::1''"
  by code_simp+

end
