(* ===== verification/Sql_History.thy ===== *)
theory Sql_History
  imports Database Crypt
begin

text \<open>
  The history, the log and the audit trail of \<open>internal/store/sqlstore/sqlstore.go\<close>, and the
  keyset pagination built on them (\<open>internal/store/cursor.go\<close>). The JSON encoders of a chain
  snapshot, of the results and of a string map are arguments, and so is \<open>LIKE\<close>: the two
  databases the program supports do not agree on its case rule.
\<close>

subsection \<open>Filters and pages\<close>

record RequestFilter =
  rf_Status :: string
  rf_Provider :: string
  rf_From :: string
  rf_To :: string
  rf_Query :: string
  rf_Cursor :: string
  rf_UserID :: string

record LogFilter =
  lf_Level :: string
  lf_Query :: string
  lf_Cursor :: string

record AuditFilter =
  af_Action :: string
  af_Actor :: string
  af_From :: string
  af_To :: string
  af_Query :: string

record page =
  pg_Limit :: int
  pg_Offset :: int

type_synonym like = "string \<Rightarrow> string \<Rightarrow> bool"

text \<open>\<open>LIMIT ? OFFSET ?\<close>; a negative offset counts as zero.\<close>

definition limit_offset :: "int \<Rightarrow> int \<Rightarrow> 'r list \<Rightarrow> 'r list" where
  "limit_offset limit offset t = take (nat limit) (drop (nat offset) t)"

subsection \<open>Requests\<close>

record encoders =
  js_Chain :: "Chain \<Rightarrow> string"
  js_Results :: "RequestResult list \<Rightarrow> string"

definition new_request_row :: "encoders \<Rightarrow> Request \<Rightarrow> request_row" where
  "new_request_row js r =
     \<lparr>rw_ID = rq_ID r, rw_RID = rq_RID r, rw_Query = rq_Query r, rw_Count = rq_Count r, rw_Status = rq_Status r,
      rw_UsedProvider = rq_UsedProvider r, rw_ResultsCount = int (rq_ResultsCount r), rw_TotalMS = rq_TotalMS r,
      rw_StepsCount = rq_StepsCount r, rw_ChainID = rq_ChainID r,
      rw_Snapshot = (case rq_ChainSnapshot r of None \<Rightarrow> [] | Some c \<Rightarrow> js_Chain js c),
      rw_UserID = rq_UserID r, rw_Client = rq_Client r, rw_Error = rq_Error r,
      rw_CreatedAt = format_rfc3339nano (rq_CreatedAt r),
      rw_MergeCollected = None, rw_MergeUnique = None, rw_MergeDuplicates = None, rw_Results = [], rw_Answer = []\<rparr>"

definition CreateRequest :: "encoders \<Rightarrow> Request \<Rightarrow> database \<Rightarrow> store_error option \<times> database" where
  "CreateRequest js r db =
     run_exec (\<not> has rw_ID (rq_ID r) (t_requests db) \<and> \<not> has rw_RID (rq_RID r) (t_requests db))
       (db\<lparr>t_requests := t_requests db @ [new_request_row js r]\<rparr>) db"

definition finish_row :: "encoders \<Rightarrow> Request \<Rightarrow> request_row \<Rightarrow> request_row" where
  "finish_row js r w =
     w\<lparr>rw_Status := rq_Status r, rw_UsedProvider := rq_UsedProvider r, rw_ResultsCount := int (rq_ResultsCount r),
       rw_TotalMS := rq_TotalMS r, rw_StepsCount := rq_StepsCount r, rw_Error := rq_Error r,
       rw_MergeCollected := map_option (\<lambda>m. int (ms_CollectedTotal m)) (rq_Merge r),
       rw_MergeUnique := map_option (\<lambda>m. int (ms_UniqueLinks m)) (rq_Merge r),
       rw_MergeDuplicates := map_option (\<lambda>m. int (ms_DuplicatesRemoved m)) (rq_Merge r),
       rw_Results := (if rq_Results r = [] then [] else js_Results js (rq_Results r)), rw_Answer := rq_Answer r\<rparr>"

definition UpdateRequest :: "encoders \<Rightarrow> Request \<Rightarrow> database \<Rightarrow> store_error option \<times> database" where
  "UpdateRequest js r db =
     run_exec True
       (db\<lparr>t_requests := update_where (\<lambda>w. rw_ID w = rq_ID r) (finish_row js r) (t_requests db)\<rparr>) db"

text \<open>The merge statistics are read back when all three columns are set.\<close>

definition row_merge :: "request_row \<Rightarrow> (int \<times> int \<times> int) option" where
  "row_merge w = (case (rw_MergeCollected w, rw_MergeUnique w, rw_MergeDuplicates w) of
     (Some c, Some u, Some d) \<Rightarrow> Some (c, u, d) | _ \<Rightarrow> None)"

definition step_row_of :: "string \<Rightarrow> RequestStep \<Rightarrow> step_row" where
  "step_row_of i st =
     \<lparr>sr_ID = i, sr_RequestID = st_RequestID st, sr_Idx = int (st_Idx st), sr_NodeKey = st_NodeKey st,
      sr_Provider = st_Provider st, sr_Engine = st_Engine st, sr_AttemptNo = int (st_AttemptNo st),
      sr_Status = st_Status st, sr_Kind = st_Kind st, sr_HTTPStatus = st_HTTPStatus st, sr_Error = st_Error st,
      sr_Permanent = st_Permanent st, sr_ResultsCount = int (st_ResultsCount st),
      sr_WaitBeforeMS = st_WaitBeforeMS st, sr_TookMS = st_TookMS st, sr_Cost = st_Cost st,
      sr_StartedAt = format_rfc3339nano (st_StartedAt st), sr_FinishedAt = format_rfc3339nano (st_FinishedAt st),
      sr_Stage = st_Stage st\<rparr>"

definition AddStep :: "step_row \<Rightarrow> database \<Rightarrow> store_error option \<times> database" where
  "AddStep s db =
     run_exec (\<not> has sr_ID (sr_ID s) (t_steps db) \<and> has rw_ID (sr_RequestID s) (t_requests db))
       (db\<lparr>t_steps := t_steps db @ [s]\<rparr>) db"

text \<open>\<open>ORDER BY idx, attempt_no, started_at\<close>, as three stable sorts.\<close>

definition steps_of :: "database \<Rightarrow> string \<Rightarrow> step_row list" where
  "steps_of db i =
     sort_key sr_Idx (sort_key sr_AttemptNo (order_by sr_StartedAt (filter (\<lambda>s. sr_RequestID s = i) (t_steps db))))"

definition ListSteps :: "string \<Rightarrow> database \<Rightarrow> store_error + step_row list" where
  "ListSteps i db = run_query (steps_of db i) db"

definition GetRequest :: "string \<Rightarrow> database \<Rightarrow> store_error + (request_row \<times> step_row list)" where
  "GetRequest i db =
     map_sum id (\<lambda>w. (w, steps_of db i)) (run_row (\<lambda>w. rw_ID w = i) (t_requests db) db)"

definition GetRequestByRID :: "string \<Rightarrow> database \<Rightarrow> store_error + request_row" where
  "GetRequestByRID rid db = run_row (\<lambda>w. rw_RID w = rid) (t_requests db) db"

definition request_matches :: "like \<Rightarrow> RequestFilter \<Rightarrow> request_row \<Rightarrow> bool" where
  "request_matches like f w \<longleftrightarrow>
     (rf_Status f \<noteq> [] \<longrightarrow> rw_Status w = rf_Status f) \<and>
     (rf_Provider f \<noteq> [] \<longrightarrow> rw_UsedProvider w = rf_Provider f) \<and>
     (rf_From f \<noteq> [] \<longrightarrow> rf_From f \<le> rw_CreatedAt w) \<and>
     (rf_To f \<noteq> [] \<longrightarrow> rw_CreatedAt w \<le> rf_To f) \<and>
     (rf_Query f \<noteq> [] \<longrightarrow> like (rw_Query w) (''%'' @ rf_Query f @ ''%'')) \<and>
     (rf_UserID f \<noteq> [] \<longrightarrow> rw_UserID w = rf_UserID f)"

text \<open>The sort key \<open>(created_at, id)\<close>, as the two strings a cursor carries.\<close>

definition request_key :: "request_row \<Rightarrow> string list" where
  "request_key w = [rw_CreatedAt w, rw_ID w]"

definition newest_first :: "('r \<Rightarrow> 'k::linorder) \<Rightarrow> 'r list \<Rightarrow> 'r list" where
  "newest_first key t = rev (sort_key key t)"

definition before_cursor :: "string \<Rightarrow> request_row \<Rightarrow> bool" where
  "before_cursor cursor w =
     (if cursor = [] then True
      else (case DecodeCursor cursor of
              Some [k0, k1] \<Rightarrow> rw_CreatedAt w < k0 \<or> rw_CreatedAt w = k0 \<and> rw_ID w < k1
            | _ \<Rightarrow> True))"

definition ListRequests ::
  "like \<Rightarrow> RequestFilter \<Rightarrow> page \<Rightarrow> database \<Rightarrow> store_error + (request_row list \<times> nat)" where
  "ListRequests like f p db =
     (let rows = filter (request_matches like f) (t_requests db);
          limit = (if pg_Limit p \<le> 0 then 50 else pg_Limit p);
          offset = (if pg_Offset p < 0 then 0 else pg_Offset p)
      in run_query (limit_offset limit offset (newest_first request_key (filter (before_cursor (rf_Cursor f)) rows)),
                    length rows) db)"

definition ClearHistory :: "database \<Rightarrow> (store_error + nat) \<times> database" where
  "ClearHistory db = run_count (length (t_requests db)) (db\<lparr>t_requests := [], t_steps := []\<rparr>) db"

definition DeleteOldRequests :: "string \<Rightarrow> database \<Rightarrow> (store_error + nat) \<times> database" where
  "DeleteOldRequests before db =
     (let kept = delete_where (\<lambda>w. rw_CreatedAt w < before) (t_requests db)
      in run_count (count_where (\<lambda>w. rw_CreatedAt w < before) (t_requests db))
           (db\<lparr>t_requests := kept, t_steps := delete_where (\<lambda>s. \<not> has rw_ID (sr_RequestID s) kept) (t_steps db)\<rparr>) db)"

subsection \<open>Logs\<close>

text \<open>The id is the next of a sequence that deletions do not rewind.\<close>

definition AddLog :: "LogEntry \<Rightarrow> database \<Rightarrow> store_error option \<times> database" where
  "AddLog e db =
     run_exec True
       (db\<lparr>t_logs := t_logs db @ [e\<lparr>le_ID := t_log_seq db + 1\<rparr>], t_log_seq := t_log_seq db + 1\<rparr>) db"

definition log_matches :: "like \<Rightarrow> LogFilter \<Rightarrow> LogEntry \<Rightarrow> bool" where
  "log_matches like f e \<longleftrightarrow>
     (lf_Level f \<noteq> [] \<longrightarrow> le_Level e = lf_Level f) \<and>
     (lf_Query f \<noteq> [] \<longrightarrow>
        like (le_Message e) (''%'' @ lf_Query f @ ''%'') \<or> like (le_RID e) (''%'' @ lf_Query f @ ''%''))"

definition before_log_cursor :: "string \<Rightarrow> LogEntry \<Rightarrow> bool" where
  "before_log_cursor cursor e =
     (if cursor = [] then True
      else (case DecodeCursor cursor of
              Some [k] \<Rightarrow> (case Atoi k of Some n \<Rightarrow> le_ID e < n | None \<Rightarrow> True)
            | _ \<Rightarrow> True))"

definition ListLogs :: "like \<Rightarrow> LogFilter \<Rightarrow> page \<Rightarrow> database \<Rightarrow> store_error + (LogEntry list \<times> nat)" where
  "ListLogs like f p db =
     (let rows = filter (log_matches like f) (t_logs db);
          limit = (if pg_Limit p \<le> 0 then 100 else pg_Limit p)
      in run_query (limit_offset limit (pg_Offset p) (newest_first le_ID (filter (before_log_cursor (lf_Cursor f)) rows)),
                    length rows) db)"

definition ClearLogs :: "database \<Rightarrow> (store_error + nat) \<times> database" where
  "ClearLogs db = run_count (length (t_logs db)) (db\<lparr>t_logs := []\<rparr>) db"

definition DeleteOldLogs :: "string \<Rightarrow> database \<Rightarrow> (store_error + nat) \<times> database" where
  "DeleteOldLogs before db =
     (let old = (\<lambda>e. le_TS e < before)
      in run_count (count_where old (t_logs db)) (db\<lparr>t_logs := delete_where old (t_logs db)\<rparr>) db)"

subsection \<open>Audit trail\<close>

definition AddAudit :: "AuditEntry \<Rightarrow> database \<Rightarrow> store_error option \<times> database" where
  "AddAudit e db = run_exec (\<not> has au_ID (au_ID e) (t_audit db)) (db\<lparr>t_audit := t_audit db @ [e]\<rparr>) db"

definition audit_matches :: "like \<Rightarrow> AuditFilter \<Rightarrow> AuditEntry \<Rightarrow> bool" where
  "audit_matches like f e \<longleftrightarrow>
     (af_Action f \<noteq> [] \<longrightarrow> au_Action e = af_Action f) \<and>
     (af_Actor f \<noteq> [] \<longrightarrow> au_User e = af_Actor f \<or> au_UserID e = af_Actor f) \<and>
     (af_From f \<noteq> [] \<longrightarrow> af_From f \<le> au_TS e) \<and> (af_To f \<noteq> [] \<longrightarrow> au_TS e \<le> af_To f) \<and>
     (af_Query f \<noteq> [] \<longrightarrow> list_ex (\<lambda>col. like col (''%'' @ af_Query f @ ''%''))
        [au_Action e, au_Target e, au_User e, au_Details e])"

definition ListAudit :: "like \<Rightarrow> AuditFilter \<Rightarrow> page \<Rightarrow> database \<Rightarrow> store_error + (AuditEntry list \<times> nat)" where
  "ListAudit like f p db =
     (let rows = filter (audit_matches like f) (t_audit db);
          limit = (if pg_Limit p \<le> 0 then 100 else pg_Limit p);
          offset = (if pg_Offset p < 0 then 0 else pg_Offset p)
      in run_query (limit_offset limit offset (newest_first (\<lambda>e. [au_TS e, au_ID e]) rows), length rows) db)"

definition DeleteOldAudit :: "string \<Rightarrow> database \<Rightarrow> (store_error + nat) \<times> database" where
  "DeleteOldAudit before db =
     (let old = (\<lambda>e. au_TS e < before)
      in run_count (count_where old (t_audit db)) (db\<lparr>t_audit := delete_where old (t_audit db)\<rparr>) db)"

subsection \<open>The invariant of the history tables\<close>

definition cursor_clean :: "string \<Rightarrow> bool" where
  "cursor_clean v \<longleftrightarrow> cursorSep \<notin> set v"

definition history_tables_ok :: "database \<Rightarrow> bool" where
  "history_tables_ok db \<longleftrightarrow>
     distinct (map rw_ID (t_requests db)) \<and> distinct (map rw_RID (t_requests db)) \<and>
     (\<forall>w \<in> set (t_requests db). cursor_clean (rw_CreatedAt w) \<and> cursor_clean (rw_ID w)) \<and>
     distinct (map sr_ID (t_steps db)) \<and> sr_RequestID ` set (t_steps db) \<subseteq> rw_ID ` set (t_requests db) \<and>
     sorted_wrt (<) (map le_ID (t_logs db)) \<and> le_ID ` set (t_logs db) \<subseteq> {1..t_log_seq db} \<and> 0 \<le> t_log_seq db \<and>
     distinct (map au_ID (t_audit db))"

datatype history_stmt =
  Create_request encoders Request | Update_request encoders Request | Add_step step_row | Clear_history
| Delete_old_requests string | Add_log LogEntry | Clear_logs | Delete_old_logs string
| Add_audit AuditEntry | Delete_old_audit string

fun exec_history :: "history_stmt \<Rightarrow> database \<Rightarrow> database" where
  "exec_history (Create_request js r) db = snd (CreateRequest js r db)"
| "exec_history (Update_request js r) db = snd (UpdateRequest js r db)"
| "exec_history (Add_step s) db = snd (AddStep s db)"
| "exec_history Clear_history db = snd (ClearHistory db)"
| "exec_history (Delete_old_requests b) db = snd (DeleteOldRequests b db)"
| "exec_history (Add_log e) db = snd (AddLog e db)"
| "exec_history Clear_logs db = snd (ClearLogs db)"
| "exec_history (Delete_old_logs b) db = snd (DeleteOldLogs b db)"
| "exec_history (Add_audit e) db = snd (AddAudit e db)"
| "exec_history (Delete_old_audit b) db = snd (DeleteOldAudit b db)"

fun stmt_clean :: "history_stmt \<Rightarrow> bool" where
  "stmt_clean (Create_request js r) = (cursor_clean (rq_ID r) \<and> cursor_clean (format_rfc3339nano (rq_CreatedAt r)))"
| "stmt_clean _ = True"

lemma finish_row_keys [simp]:
  "rw_ID (finish_row js r w) = rw_ID w" "rw_RID (finish_row js r w) = rw_RID w"
  "rw_CreatedAt (finish_row js r w) = rw_CreatedAt w"
  by (simp_all add: finish_row_def)

lemma history_requests:
  assumes "history_tables_ok db" "distinct (map rw_ID rs)" "distinct (map rw_RID rs)"
    and "\<forall>w \<in> set rs. cursor_clean (rw_CreatedAt w) \<and> cursor_clean (rw_ID w)"
    and "distinct (map sr_ID ss)" "sr_RequestID ` set ss \<subseteq> rw_ID ` set rs"
  shows "history_tables_ok (db\<lparr>t_requests := rs, t_steps := ss\<rparr>)"
  using assms by (simp add: history_tables_ok_def)

lemma history_requests_only:
  assumes "history_tables_ok db" "distinct (map rw_ID rs)" "distinct (map rw_RID rs)"
    and "\<forall>w \<in> set rs. cursor_clean (rw_CreatedAt w) \<and> cursor_clean (rw_ID w)"
    and "rw_ID ` set (t_requests db) \<subseteq> rw_ID ` set rs"
  shows "history_tables_ok (db\<lparr>t_requests := rs\<rparr>)"
proof -
  have "sr_RequestID ` set (t_steps db) \<subseteq> rw_ID ` set rs"
    using assms(1,5) unfolding history_tables_ok_def by (metis subset_trans)
  then show ?thesis using assms by (simp add: history_tables_ok_def)
qed

lemma history_logs:
  assumes "history_tables_ok db" "sorted_wrt (<) (map le_ID ls)" "le_ID ` set ls \<subseteq> {1..n}" "0 \<le> n"
  shows "history_tables_ok (db\<lparr>t_logs := ls, t_log_seq := n\<rparr>)"
  using assms by (simp add: history_tables_ok_def)

lemma history_audit:
  assumes "history_tables_ok db" "distinct (map au_ID as)"
  shows "history_tables_ok (db\<lparr>t_audit := as\<rparr>)"
  using assms by (simp add: history_tables_ok_def)

lemma history_fields:
  assumes "history_tables_ok db"
  shows "distinct (map rw_ID (t_requests db))" "distinct (map rw_RID (t_requests db))"
    "\<And>w. w \<in> set (t_requests db) \<Longrightarrow> cursor_clean (rw_CreatedAt w) \<and> cursor_clean (rw_ID w)"
    "distinct (map sr_ID (t_steps db))" "sr_RequestID ` set (t_steps db) \<subseteq> rw_ID ` set (t_requests db)"
    "sorted_wrt (<) (map le_ID (t_logs db))" "le_ID ` set (t_logs db) \<subseteq> {1..t_log_seq db}" "0 \<le> t_log_seq db"
    "distinct (map au_ID (t_audit db))"
  using assms by (simp_all add: history_tables_ok_def)

lemma sorted_wrt_map_filter: "sorted_wrt R (map f xs) \<Longrightarrow> sorted_wrt R (map f (filter P xs))"
  by (induction xs) auto

lemma history_ok_request_stmts:
  assumes "history_tables_ok db"
  shows "stmt_clean (Create_request js r) \<Longrightarrow> history_tables_ok (snd (CreateRequest js r db))"
    "history_tables_ok (snd (UpdateRequest js r db))" "history_tables_ok (snd (AddStep s db))"
    "history_tables_ok (snd (ClearHistory db))" "history_tables_ok (snd (DeleteOldRequests b db))"
proof -
  note h = history_fields [OF assms]
  show "history_tables_ok (snd (CreateRequest js r db))" if "stmt_clean (Create_request js r)"
    unfolding CreateRequest_def
    by (rule run_exec_inv, rule assms, rule history_requests_only [OF assms]) (use h that in \<open>auto simp: new_request_row_def\<close>)
  show "history_tables_ok (snd (UpdateRequest js r db))"
    unfolding UpdateRequest_def
  proof (rule run_exec_inv, rule assms, rule history_requests_only [OF assms])
    let ?t = "update_where (\<lambda>w. rw_ID w = rq_ID r) (finish_row js r) (t_requests db)"
    have ids: "map rw_ID ?t = map rw_ID (t_requests db)" "map rw_RID ?t = map rw_RID (t_requests db)"
      by (rule map_update_where; simp)+
    then show "distinct (map rw_ID ?t)" "distinct (map rw_RID ?t)" using h by simp_all
    show "rw_ID ` set (t_requests db) \<subseteq> rw_ID ` set ?t" using ids(1) by (metis set_map subset_refl)
    show "\<forall>w \<in> set ?t. cursor_clean (rw_CreatedAt w) \<and> cursor_clean (rw_ID w)"
      by (auto simp: set_update_where h(3) dest: h(3))
  qed
  show "history_tables_ok (snd (AddStep s db))"
    unfolding AddStep_def
    by (rule run_exec_inv, rule assms) (use assms in \<open>auto simp: history_tables_ok_def\<close>)
  show "history_tables_ok (snd (ClearHistory db))"
    unfolding ClearHistory_def by (rule run_count_inv, rule assms, rule history_requests [OF assms]) simp_all
  show "history_tables_ok (snd (DeleteOldRequests b db))"
    unfolding DeleteOldRequests_def Let_def
    by (rule run_count_inv, rule assms, rule history_requests [OF assms]) (use h in \<open>auto intro!: distinct_delete_where\<close>)
qed

lemma history_ok_log_stmts:
  assumes "history_tables_ok db"
  shows "history_tables_ok (snd (AddLog e db))" "history_tables_ok (snd (ClearLogs db))" "history_tables_ok (snd (DeleteOldLogs b db))"
    "history_tables_ok (snd (AddAudit a db))" "history_tables_ok (snd (DeleteOldAudit b db))"
proof -
  note h = history_fields [OF assms]
  have keep: "history_tables_ok (db\<lparr>t_logs := ls\<rparr>)"
    if "sorted_wrt (<) (map le_ID ls)" "set ls \<subseteq> set (t_logs db)" for ls
    using that h(7) assms by (auto simp: history_tables_ok_def)
  show "history_tables_ok (snd (AddLog e db))"
    unfolding AddLog_def
    by (rule run_exec_inv, rule assms, rule history_logs [OF assms]) (use h in \<open>auto simp: sorted_wrt_append intro: le_less_trans\<close>)
  show "history_tables_ok (snd (ClearLogs db))"
    unfolding ClearLogs_def by (rule run_count_inv, rule assms, rule keep) simp_all
  show "history_tables_ok (snd (DeleteOldLogs b db))"
    unfolding DeleteOldLogs_def Let_def
    by (rule run_count_inv, rule assms, rule keep) (use h in \<open>auto simp: delete_where_def intro!: sorted_wrt_map_filter\<close>)
  show "history_tables_ok (snd (AddAudit a db))"
    unfolding AddAudit_def by (rule run_exec_inv, rule assms, rule history_audit [OF assms]) (use h in auto)
  show "history_tables_ok (snd (DeleteOldAudit b db))"
    unfolding DeleteOldAudit_def Let_def
    by (rule run_count_inv, rule assms, rule history_audit [OF assms]) (use h in \<open>auto intro!: distinct_delete_where\<close>)
qed

lemma history_tables_ok_exec: "history_tables_ok db \<Longrightarrow> stmt_clean s \<Longrightarrow> history_tables_ok (exec_history s db)"
  by (cases s) (simp_all add: history_ok_request_stmts history_ok_log_stmts)

lemma history_tables_ok_empty: "history_tables_ok empty_db"
  by (simp add: history_tables_ok_def empty_db_def)

subsection \<open>Walking the pages\<close>

text \<open>
  What a client sees that follows \<open>next_cursor\<close> until there is none: each page, the next one
  fetched after the last row of a page that is full.
\<close>

fun page_walk :: "('c option \<Rightarrow> 'r list) \<Rightarrow> ('r \<Rightarrow> 'c) \<Rightarrow> nat \<Rightarrow> nat \<Rightarrow> 'c option \<Rightarrow> 'r list list" where
  "page_walk fetch cur n 0 c = []"
| "page_walk fetch cur n (Suc k) c =
     (let p = fetch c
      in p # (if length p < n then [] else page_walk fetch cur n k (Some (cur (List.last p)))))"

locale keyset =
  fixes fetch :: "'s \<Rightarrow> nat \<Rightarrow> 'c option \<Rightarrow> 'r list" and cur :: "'r \<Rightarrow> 'c"
    and rows :: "'s \<Rightarrow> 'r list" and inv :: "'s \<Rightarrow> bool"
  assumes fetch_first: "inv s \<Longrightarrow> 0 < n \<Longrightarrow> fetch s n None = take n (rows s)"
    and fetch_after: "inv s \<Longrightarrow> 0 < n \<Longrightarrow> r \<in> set (rows s) \<Longrightarrow>
          fetch s n (Some (cur r)) = take n (tl (dropWhile (\<lambda>x. x \<noteq> r) (rows s)))"
    and rows_distinct: "inv s \<Longrightarrow> distinct (rows s)"
begin

lemma fetch_position:
  assumes "inv s" "0 < n" "j < length (rows s)"
  shows "fetch s n (Some (cur (rows s ! j))) = take n (drop (Suc j) (rows s))"
proof -
  have "dropWhile (\<lambda>x. x \<noteq> rows s ! j) (rows s) = drop j (rows s)"
  proof -
    have "takeWhile (\<lambda>x. x \<noteq> rows s ! j) (rows s) = take j (rows s)"
      using assms(3) rows_distinct [OF assms(1)]
      by (intro takeWhile_eq_take_P_nth) (auto simp: nth_eq_iff_index_eq)
    then show ?thesis using assms(3)
      by (metis append_eq_conv_conj append_take_drop_id takeWhile_dropWhile_id length_take)
  qed
  then show ?thesis using fetch_after [OF assms(1,2), of "rows s ! j"] assms(3) by (simp add: drop_Suc tl_drop)
qed

lemma walk_from:
  assumes "inv s" "0 < n" "length (rows s) - j < k"
    and "fetch s n c = take n (drop j (rows s))"
  shows "concat (page_walk (fetch s n) cur n k c) = drop j (rows s)"
  using assms(3,4)
proof (induction k arbitrary: j c)
  case (Suc k)
  define p where "p = take n (drop j (rows s))"
  show ?case
  proof (cases "length p < n")
    case True
    then have "p = drop j (rows s)" by (auto simp: p_def)
    then show ?thesis using True Suc.prems(2) by (simp add: p_def)
  next
    case False
    then have len: "length p = n" "j + n \<le> length (rows s)" using \<open>0 < n\<close> by (auto simp: p_def)
    have "List.last p = rows s ! (j + n - 1)"
      using len \<open>0 < n\<close> by (subst last_conv_nth) (auto simp: p_def add.commute)
    then have "fetch s n (Some (cur (List.last p))) = take n (drop (j + n) (rows s))"
      using fetch_position [OF assms(1,2), of "j + n - 1"] len \<open>0 < n\<close> by simp
    then have "concat (page_walk (fetch s n) cur n k (Some (cur (List.last p)))) = drop (j + n) (rows s)"
      using Suc.prems(1) len \<open>0 < n\<close> by (intro Suc.IH) auto
    then show ?thesis using False Suc.prems(2)
      by (simp add: p_def Let_def) (metis append_take_drop_id drop_drop add.commute)
  qed
qed simp

text \<open>Following the cursors shows every row once, in the order of the listing.\<close>

lemma walk_all:
  assumes "inv s" "0 < n" "length (rows s) < k"
  shows "concat (page_walk (fetch s n) cur n k None) = rows s"
  using walk_from [OF assms(1,2), of 0 k None] fetch_first [OF assms(1,2)] assms(3) by simp

end

subsection \<open>The two listings are keyset listings\<close>

text \<open>Rows with pairwise different keys, listed newest first: those below the key of a row follow it.\<close>

lemma strict_newest: "distinct (map key t) \<Longrightarrow> sorted_wrt (\<lambda>x y. key y < key x) (newest_first key t)"
proof -
  assume "distinct (map key t)"
  then have "distinct (map key (sort_key key t))"
    by (metis distinct_map set_sort distinct_sort)
  then have "sorted_wrt (<) (map key (sort_key key t))"
    by (simp add: strict_sorted_iff)
  then show ?thesis by (simp add: newest_first_def sorted_wrt_rev sorted_wrt_map)
qed

lemma below_follows:
  fixes key :: "'r \<Rightarrow> 'k::linorder"
  assumes "sorted_wrt (\<lambda>x y. key y < key x) xs" "r \<in> set xs"
  shows "filter (\<lambda>x. key x < key r) xs = tl (dropWhile (\<lambda>x. x \<noteq> r) xs)"
  using assms
proof (induction xs)
  case (Cons a xs)
  show ?case
  proof (cases "a = r")
    case True
    then have "filter (\<lambda>x. key x < key r) xs = xs" using Cons.prems(1) by (auto simp: filter_id_conv)
    then show ?thesis using True by simp
  next
    case False
    then have "r \<in> set xs" using Cons.prems(2) by simp
    then have "\<not> key a < key r" using Cons.prems(1) less_asym by auto
    then show ?thesis using False Cons \<open>r \<in> set xs\<close> by simp

  qed
qed simp

lemma newest_first_filter: "newest_first key (filter P t) = filter P (newest_first key t)"
  by (simp add: newest_first_def filter_sort [symmetric] rev_filter)

lemma set_newest_first [simp]: "set (newest_first key t) = set t"
  by (simp add: newest_first_def)

definition request_cursor :: "request_row \<Rightarrow> string" where
  "request_cursor w = EncodeCursor [rw_CreatedAt w, rw_ID w]"

definition fetch_requests :: "like \<Rightarrow> RequestFilter \<Rightarrow> database \<Rightarrow> nat \<Rightarrow> string option \<Rightarrow> request_row list" where
  "fetch_requests like f db n c =
     (case ListRequests like (f\<lparr>rf_Cursor := (case c of None \<Rightarrow> [] | Some t \<Rightarrow> t)\<rparr>)
             \<lparr>pg_Limit = int n, pg_Offset = 0\<rparr> db of
        Inl _ \<Rightarrow> [] | Inr (rows, _) \<Rightarrow> rows)"

definition matching_requests :: "like \<Rightarrow> RequestFilter \<Rightarrow> database \<Rightarrow> request_row list" where
  "matching_requests like f db = newest_first request_key (filter (request_matches like f) (t_requests db))"

lemma request_matches_cursor [simp]: "request_matches like (f\<lparr>rf_Cursor := c\<rparr>) = request_matches like f"
  by (simp add: request_matches_def fun_eq_iff)

lemma before_cursor_key:
  assumes "cursor_clean (rw_CreatedAt r)" "cursor_clean (rw_ID r)"
  shows "before_cursor (request_cursor r) w \<longleftrightarrow> request_key w < request_key r"
proof -
  have d: "DecodeCursor (request_cursor r) = Some [rw_CreatedAt r, rw_ID r]"
    unfolding request_cursor_def using assms by (intro EncodeCursor_roundtrip) (auto simp: cursor_clean_def)
  then have "request_cursor r \<noteq> []" by (auto simp: DecodeCursor_def)
  then show ?thesis using d by (auto simp: before_cursor_def request_key_def)
qed

lemma before_cursor_Nil [simp]: "before_cursor [] w"
  by (simp add: before_cursor_def)

lemma fetch_requests_eq:
  assumes "t_down db = None" "0 < n"
  shows "fetch_requests like f db n c =
     take n (filter (before_cursor (case c of None \<Rightarrow> [] | Some t \<Rightarrow> t)) (matching_requests like f db))"
  using assms by (simp add: fetch_requests_def ListRequests_def run_query_def limit_offset_def matching_requests_def
      newest_first_filter)

lemma distinct_request_key: "history_tables_ok db \<Longrightarrow> distinct (map request_key (t_requests db))"
  using history_fields(1) [of db] by (auto simp: request_key_def distinct_map inj_on_def)

lemma distinct_newest_first: "distinct (map key t) \<Longrightarrow> distinct (newest_first key t)"
  by (simp add: newest_first_def distinct_map)

interpretation request_pages: keyset "fetch_requests like f" request_cursor "matching_requests like f"
  "\<lambda>db. history_tables_ok db \<and> t_down db = None"
proof (unfold_locales, goal_cases)
  case (1 db n)
  then show ?case by (simp add: fetch_requests_eq)
next
  case (2 db n r)
  let ?t = "filter (request_matches like f) (t_requests db)"
  have r: "r \<in> set ?t" using 2 by (simp add: matching_requests_def)
  have "sorted_wrt (\<lambda>x y. request_key y < request_key x) (newest_first request_key ?t)"
    using 2 by (intro strict_newest distinct_map_filter distinct_request_key) simp
  moreover have "before_cursor (request_cursor r) = (\<lambda>w. request_key w < request_key r)"
    using r 2 history_fields(3) [of db r] by (intro ext before_cursor_key) auto
  ultimately show ?case
    using 2 r below_follows [of request_key "newest_first request_key ?t" r]
    by (simp add: fetch_requests_eq matching_requests_def)
next
  case (3 db)
  then show ?case
    unfolding matching_requests_def by (intro distinct_newest_first distinct_map_filter distinct_request_key) simp
qed

definition log_cursor :: "LogEntry \<Rightarrow> string" where
  "log_cursor e = EncodeCursor [Itoa (le_ID e)]"

definition fetch_logs :: "like \<Rightarrow> LogFilter \<Rightarrow> database \<Rightarrow> nat \<Rightarrow> string option \<Rightarrow> LogEntry list" where
  "fetch_logs like f db n c =
     (case ListLogs like (f\<lparr>lf_Cursor := (case c of None \<Rightarrow> [] | Some t \<Rightarrow> t)\<rparr>)
             \<lparr>pg_Limit = int n, pg_Offset = 0\<rparr> db of
        Inl _ \<Rightarrow> [] | Inr (rows, _) \<Rightarrow> rows)"

definition matching_logs :: "like \<Rightarrow> LogFilter \<Rightarrow> database \<Rightarrow> LogEntry list" where
  "matching_logs like f db = newest_first le_ID (filter (log_matches like f) (t_logs db))"

lemma log_matches_cursor [simp]: "log_matches like (f\<lparr>lf_Cursor := c\<rparr>) = log_matches like f"
  by (simp add: log_matches_def fun_eq_iff)

lemma show_nat_digits: "c \<in> set (show_nat n) \<Longrightarrow> c \<in> digit_char ` {..<10}"
proof (induction n rule: less_induct)
  case (less n)
  show ?case
  proof (cases "n < 10")
    case True
    with less.prems show ?thesis by (simp add: show_nat.simps [of n])
  next
    case False
    with less.prems less.IH [of "n div 10"] show ?thesis by (auto simp: show_nat.simps [of n])
  qed
qed

lemma Itoa_chars: "c \<in> set (Itoa n) \<Longrightarrow> c \<noteq> cursorSep"
proof -
  have "list_all (\<lambda>d. digit_char d \<noteq> cursorSep) [0..<10]" by code_simp
  then have "c \<in> set (show_nat k) \<Longrightarrow> c \<noteq> cursorSep" for k
    using show_nat_digits [of c k] by (auto simp: list_all_iff)
  then show "c \<in> set (Itoa n) \<Longrightarrow> c \<noteq> cursorSep"
    by (auto simp: Itoa_def cursorSep_def split: if_splits)
qed

lemma before_log_cursor_key:
  assumes "in_int64 (le_ID r)"
  shows "before_log_cursor (log_cursor r) e \<longleftrightarrow> le_ID e < le_ID r"
proof -
  have "Itoa (le_ID r) \<noteq> []" by (simp add: Itoa_def)
  then have d: "DecodeCursor (log_cursor r) = Some [Itoa (le_ID r)]"
    unfolding log_cursor_def using Itoa_chars by (intro EncodeCursor_roundtrip) auto
  then have "log_cursor r \<noteq> []" by (auto simp: DecodeCursor_def)
  then show ?thesis using d assms by (simp add: before_log_cursor_def Atoi_Itoa)
qed

lemma before_log_cursor_Nil [simp]: "before_log_cursor [] e"
  by (simp add: before_log_cursor_def)

lemma fetch_logs_eq:
  assumes "t_down db = None" "0 < n"
  shows "fetch_logs like f db n c =
     take n (filter (before_log_cursor (case c of None \<Rightarrow> [] | Some t \<Rightarrow> t)) (matching_logs like f db))"
  using assms by (simp add: fetch_logs_def ListLogs_def run_query_def limit_offset_def matching_logs_def
      newest_first_filter)

lemma distinct_log_id: "history_tables_ok db \<Longrightarrow> distinct (map le_ID (t_logs db))"
  using history_fields(6) [of db] by (simp add: strict_sorted_iff)

interpretation log_pages: keyset "fetch_logs like f" log_cursor "matching_logs like f"
  "\<lambda>db. history_tables_ok db \<and> t_down db = None \<and> in_int64 (t_log_seq db)"
proof (unfold_locales, goal_cases)
  case (1 db n)
  then show ?case by (simp add: fetch_logs_eq)
next
  case (2 db n r)
  let ?t = "filter (log_matches like f) (t_logs db)"
  have r: "r \<in> set ?t" using 2 by (simp add: matching_logs_def)
  have "sorted_wrt (\<lambda>x y. le_ID y < le_ID x) (newest_first le_ID ?t)"
    using 2 by (intro strict_newest distinct_map_filter distinct_log_id) simp
  moreover have "in_int64 (le_ID r)" using r 2 history_fields(7) [of db] by (auto simp: in_int64_def)
  then have "before_log_cursor (log_cursor r) = (\<lambda>e. le_ID e < le_ID r)"
    by (intro ext before_log_cursor_key)
  ultimately show ?case
    using 2 r below_follows [of le_ID "newest_first le_ID ?t" r]
    by (simp add: fetch_logs_eq matching_logs_def)
next
  case (3 db)
  then show ?case
    unfolding matching_logs_def by (intro distinct_newest_first distinct_map_filter distinct_log_id) simp
qed

end
