(* ===== verification/Sql_Providers.thy ===== *)
theory Sql_Providers
  imports Database Crypt Json
begin

text \<open>
  Provider instances and proxies in \<open>internal/store/sqlstore/sqlstore.go\<close>: credentials and
  proxy passwords are encrypted when a cipher is set, maps are stored as JSON. A map that is
  written is the association list of its entries, in any order.
\<close>

subsection \<open>Providers\<close>

definition scanProvider :: "Cipher \<Rightarrow> provider_row \<Rightarrow> (string \<rightharpoonup> string) \<times> (string \<rightharpoonup> string)" where
  "scanProvider cipher r = (DecodeMap (Decrypt cipher (pr_Credentials r)), DecodeMap (pr_Params r))"

text \<open>\<open>ORDER BY code, name\<close>, as two stable sorts.\<close>

definition ListProviders :: "database \<Rightarrow> store_error + provider_row list" where
  "ListProviders db = run_query (order_by pr_Code (order_by pr_Name (t_providers db))) db"

definition GetProvider :: "string \<Rightarrow> database \<Rightarrow> store_error + provider_row" where
  "GetProvider i db = run_row (\<lambda>r. pr_ID r = i) (t_providers db) db"

text \<open>The row written for an instance with the given credentials and parameters.\<close>

definition provider_row_of ::
  "Cipher \<Rightarrow> string option \<Rightarrow> string \<Rightarrow> Provider \<Rightarrow> (string \<times> string) list \<Rightarrow> provider_row" where
  "provider_row_of cipher rnd now p params =
     \<lparr>pr_ID = p_ID p, pr_Code = p_Code p, pr_Name = p_Name p, pr_Enabled = p_Enabled p, pr_BaseURL = p_BaseURL p,
      pr_ProxyID = p_ProxyID p, pr_Credentials = Encrypt cipher rnd (EncodeMap (p_Credentials p)),
      pr_Params = EncodeMap params, pr_UpdatedAt = now\<rparr>"

text \<open>\<open>INSERT \<dots> ON CONFLICT (id) DO UPDATE\<close>; the names of the other instances must differ.\<close>

definition upsert :: "('r \<Rightarrow> string) \<Rightarrow> ('r \<Rightarrow> 'r \<Rightarrow> 'r) \<Rightarrow> 'r \<Rightarrow> 'r list \<Rightarrow> 'r list" where
  "upsert key merge r t =
     (if has key (key r) t then update_where (\<lambda>x. key x = key r) (merge r) t else t @ [r])"

definition name_free :: "('r \<Rightarrow> string) \<Rightarrow> ('r \<Rightarrow> string) \<Rightarrow> 'r \<Rightarrow> 'r list \<Rightarrow> bool" where
  "name_free key nam r t \<longleftrightarrow> \<not> list_ex (\<lambda>x. nam x = nam r \<and> key x \<noteq> key r) t"

definition UpsertProvider :: "provider_row \<Rightarrow> database \<Rightarrow> store_error option \<times> database" where
  "UpsertProvider r db =
     run_exec (name_free pr_ID pr_Name r (t_providers db))
       (db\<lparr>t_providers := upsert pr_ID (\<lambda>new _. new) r (t_providers db)\<rparr>) db"

text \<open>An update of one instance; \<open>ErrNotFound\<close> when no row was touched.\<close>

definition patch_provider :: "string \<Rightarrow> (provider_row \<Rightarrow> provider_row) \<Rightarrow> database \<Rightarrow> store_error option \<times> database" where
  "patch_provider i f db =
     (case t_down db of Some e \<Rightarrow> (Some (StoreFailure e), db)
      | None \<Rightarrow> if \<not> has pr_ID i (t_providers db) then (Some ErrNotFound, db)
                else (None, db\<lparr>t_providers := update_where (\<lambda>r. pr_ID r = i) f (t_providers db)\<rparr>))"

definition UpdateProviderBaseURL :: "string \<Rightarrow> string \<Rightarrow> string \<Rightarrow> database \<Rightarrow> store_error option \<times> database" where
  "UpdateProviderBaseURL now i baseURL =
     patch_provider i (\<lambda>r. r\<lparr>pr_BaseURL := baseURL, pr_UpdatedAt := now\<rparr>)"

definition SetProviderEnabled :: "string \<Rightarrow> string \<Rightarrow> bool \<Rightarrow> database \<Rightarrow> store_error option \<times> database" where
  "SetProviderEnabled now i enabled =
     patch_provider i (\<lambda>r. r\<lparr>pr_Enabled := enabled, pr_UpdatedAt := now\<rparr>)"

definition DeleteProvider :: "string \<Rightarrow> database \<Rightarrow> store_error option \<times> database" where
  "DeleteProvider i db = run_exec True (db\<lparr>t_providers := delete_where (\<lambda>r. pr_ID r = i) (t_providers db)\<rparr>) db"

subsection \<open>Proxies\<close>

definition scanProxy :: "Cipher \<Rightarrow> Proxy \<Rightarrow> Proxy" where
  "scanProxy cipher p = p\<lparr>px_Password := Decrypt cipher (px_Password p)\<rparr>"

definition ListProxies :: "Cipher \<Rightarrow> database \<Rightarrow> store_error + Proxy list" where
  "ListProxies cipher db = run_query (map (scanProxy cipher) (order_by px_Name (t_proxies db))) db"

definition GetProxy :: "Cipher \<Rightarrow> string \<Rightarrow> database \<Rightarrow> store_error + Proxy" where
  "GetProxy cipher i db = map_sum id (scanProxy cipher) (run_row (\<lambda>p. px_ID p = i) (t_proxies db) db)"

text \<open>The creation time of an existing row is kept.\<close>

definition UpsertProxy :: "Cipher \<Rightarrow> string option \<Rightarrow> string \<Rightarrow> Proxy \<Rightarrow> database \<Rightarrow> store_error option \<times> database" where
  "UpsertProxy cipher rnd now p db =
     (let r = p\<lparr>px_Password := Encrypt cipher rnd (px_Password p), px_UpdatedAt := now\<rparr>
      in run_exec (name_free px_ID px_Name r (t_proxies db))
           (db\<lparr>t_proxies := upsert px_ID (\<lambda>new old. new\<lparr>px_CreatedAt := px_CreatedAt old\<rparr>) r (t_proxies db)\<rparr>) db)"

definition SetProxyEnabled :: "string \<Rightarrow> string \<Rightarrow> bool \<Rightarrow> database \<Rightarrow> store_error option \<times> database" where
  "SetProxyEnabled now i enabled db =
     (case t_down db of Some e \<Rightarrow> (Some (StoreFailure e), db)
      | None \<Rightarrow> if \<not> has px_ID i (t_proxies db) then (Some ErrNotFound, db)
                else (None, db\<lparr>t_proxies := update_where (\<lambda>p. px_ID p = i)
                       (\<lambda>p. p\<lparr>px_Enabled := enabled, px_UpdatedAt := now\<rparr>) (t_proxies db)\<rparr>))"

definition DeleteProxy :: "string \<Rightarrow> database \<Rightarrow> store_error option \<times> database" where
  "DeleteProxy i db = run_exec True (db\<lparr>t_proxies := delete_where (\<lambda>p. px_ID p = i) (t_proxies db)\<rparr>) db"

definition ClearProxyRefs :: "string \<Rightarrow> string \<Rightarrow> database \<Rightarrow> (store_error + nat) \<times> database" where
  "ClearProxyRefs now i db =
     (let uses = (\<lambda>r. pr_ProxyID r = i)
      in run_count (count_where uses (t_providers db))
           (db\<lparr>t_providers := update_where uses (\<lambda>r. r\<lparr>pr_ProxyID := [], pr_UpdatedAt := now\<rparr>) (t_providers db)\<rparr>) db)"

subsection \<open>The invariant\<close>

definition providers_ok :: "database \<Rightarrow> bool" where
  "providers_ok db \<longleftrightarrow>
     distinct (map pr_ID (t_providers db)) \<and> distinct (map pr_Name (t_providers db)) \<and>
     distinct (map px_ID (t_proxies db)) \<and> distinct (map px_Name (t_proxies db))"

datatype provider_stmt =
  Upsert_provider provider_row | Update_base_url string string string | Set_provider string string bool
| Delete_provider string | Upsert_proxy Cipher "string option" string Proxy
| Set_proxy string string bool | Delete_proxy string | Clear_proxy_refs string string

fun exec_provider :: "provider_stmt \<Rightarrow> database \<Rightarrow> database" where
  "exec_provider (Upsert_provider r) db = snd (UpsertProvider r db)"
| "exec_provider (Update_base_url now i u) db = snd (UpdateProviderBaseURL now i u db)"
| "exec_provider (Set_provider now i b) db = snd (SetProviderEnabled now i b db)"
| "exec_provider (Delete_provider i) db = snd (DeleteProvider i db)"
| "exec_provider (Upsert_proxy c rnd now p) db = snd (UpsertProxy c rnd now p db)"
| "exec_provider (Set_proxy now i b) db = snd (SetProxyEnabled now i b db)"
| "exec_provider (Delete_proxy i) db = snd (DeleteProxy i db)"
| "exec_provider (Clear_proxy_refs now i) db = snd (ClearProxyRefs now i db)"

lemma providers_ok_empty: "providers_ok empty_db"
  by (simp add: providers_ok_def empty_db_def)

lemma providers_ok_providers:
  "providers_ok db \<Longrightarrow> distinct (map pr_ID t) \<Longrightarrow> distinct (map pr_Name t) \<Longrightarrow> providers_ok (db\<lparr>t_providers := t\<rparr>)"
  by (simp add: providers_ok_def)

lemma providers_ok_proxies:
  "providers_ok db \<Longrightarrow> distinct (map px_ID t) \<Longrightarrow> distinct (map px_Name t) \<Longrightarrow> providers_ok (db\<lparr>t_proxies := t\<rparr>)"
  by (simp add: providers_ok_def)

lemma upsert_distinct:
  assumes "distinct (map key t)" "distinct (map nam t)" "name_free key nam r t"
    and "\<And>x. key x = key r \<Longrightarrow> key (merge r x) = key r" "\<And>x. nam (merge r x) = nam r"
  shows "distinct (map key (upsert key merge r t))" "distinct (map nam (upsert key merge r t))"
proof -
  show "distinct (map key (upsert key merge r t))"
    using assms(1,4) map_update_where [of "\<lambda>x. key x = key r" key "merge r" t]
    by (auto simp: upsert_def)
  have free: "nam x \<noteq> nam r" if "x \<in> set t" "key x \<noteq> key r" for x
    using assms(3) that by (auto simp: name_free_def list_ex_iff)
  have "distinct (map nam (update_where (\<lambda>x. key x = key r) (merge r) t))"
    using assms(1,2,5) free
  proof (induction t)
    case (Cons a t)
    then have ih: "distinct (map nam (update_where (\<lambda>x. key x = key r) (merge r) t))" by simp
    show ?case
    proof (cases "key a = key r")
      case True
      have "nam r \<noteq> nam (if key x = key r then merge r x else x)" if "x \<in> set t" for x
      proof -
        have "key x \<noteq> key r" using Cons.prems(1) that True by (auto simp: image_iff)
        then show ?thesis using Cons.prems(4) [of x] that by auto
      qed
      then have "nam r \<notin> nam ` set (update_where (\<lambda>x. key x = key r) (merge r) t)"
        unfolding set_update_where by blast
      then show ?thesis using ih True assms(5) by (simp add: update_where_Cons)
    next
      case False
      have "nam a \<noteq> nam (if key x = key r then merge r x else x)" if "x \<in> set t" for x
        using Cons.prems(2) Cons.prems(4) [of a] False that assms(5) by (auto simp: image_iff)
      then have "nam a \<notin> nam ` set (update_where (\<lambda>x. key x = key r) (merge r) t)"
        unfolding set_update_where by blast
      then show ?thesis using ih False by (simp add: update_where_Cons)
    qed
  qed (simp add: update_where_def)
  moreover have "nam r \<notin> nam ` set t" if "key r \<notin> key ` set t" 
  proof
    assume "nam r \<in> nam ` set t"
    then obtain x where "x \<in> set t" "nam x = nam r" by (elim imageE) simp
    moreover from this have "key r = key x" using free [of x] by fastforce
    ultimately show False using that by simp
  qed
  ultimately show "distinct (map nam (upsert key merge r t))"
    using assms(2) by (simp add: upsert_def)
qed

lemma patch_provider_inv:
  assumes "providers_ok db" "\<And>r. pr_ID (f r) = pr_ID r \<and> pr_Name (f r) = pr_Name r"
  shows "providers_ok (snd (patch_provider i f db))"
  using assms by (auto simp: patch_provider_def providers_ok_def map_update_where split: option.split)

lemma providers_ok_exec:
  assumes "providers_ok db"
  shows "providers_ok (exec_provider s db)"
proof (cases s)
  case (Upsert_provider r)
  then show ?thesis
    using assms upsert_distinct [of pr_ID "t_providers db" pr_Name r "\<lambda>new _. new"]
    by (auto simp: UpsertProvider_def run_exec_def providers_ok_def split: option.split)
next
  case (Upsert_proxy c rnd now p)
  then show ?thesis
    using assms upsert_distinct [of px_ID "t_proxies db" px_Name _ "\<lambda>new old. new\<lparr>px_CreatedAt := px_CreatedAt old\<rparr>"]
    by (auto simp: UpsertProxy_def run_exec_def providers_ok_def Let_def split: option.split)
next
  case (Update_base_url now i u)
  then show ?thesis using assms by (simp add: UpdateProviderBaseURL_def patch_provider_inv)
next
  case (Set_provider now i b)
  then show ?thesis using assms by (simp add: SetProviderEnabled_def patch_provider_inv)
qed (use assms in \<open>auto simp: DeleteProvider_def SetProxyEnabled_def DeleteProxy_def ClearProxyRefs_def run_exec_def
    run_count_def Let_def distinct_delete_where map_update_where providers_ok_def split: option.split\<close>)

subsection \<open>Secrets survive storage, and are not stored in clear\<close>

theorem provider_roundtrip:
  assumes "providers_ok db" "t_down db = None" "UpsertProvider (provider_row_of cipher rnd now p params) db = (None, db')"
    and "\<And>a. cipher = Some a \<Longrightarrow> aead_ok a \<and> (\<exists>nonce. rnd = Some nonce \<and> length nonce = ae_NonceSize a)"
    and "distinct (map fst (p_Credentials p))" "distinct (map fst params)"
  shows "\<exists>r. GetProvider (p_ID p) db' = Inr r \<and> scanProvider cipher r = (map_of (p_Credentials p), map_of params)
     \<and> pr_Enabled r = p_Enabled p \<and> pr_Code r = p_Code p"
proof -
  define r where "r = provider_row_of cipher rnd now p params"
  have "db' = db\<lparr>t_providers := upsert pr_ID (\<lambda>new _. new) r (t_providers db)\<rparr>"
    using assms(3) by (simp add: UpsertProvider_def run_exec_None r_def)
  moreover have "providers_ok db'" using providers_ok_exec [OF assms(1), of "Upsert_provider r"] assms(3) by (simp add: r_def)
  moreover have "r \<in> set (upsert pr_ID (\<lambda>new _. new) r (t_providers db))"
    by (auto simp: upsert_def update_where_def image_iff)
  ultimately have "GetProvider (pr_ID r) db' = Inr r"
    using assms(2) unfolding GetProvider_def by (intro run_row_unique) (auto simp: providers_ok_def)
  moreover have "scanProvider cipher r = (map_of (p_Credentials p), map_of params)"
    using assms(4) by (cases cipher)
      (auto simp: scanProvider_def r_def provider_row_of_def DecodeMap_EncodeMap assms(5,6) Decrypt_Encrypt)
  ultimately show ?thesis by (auto simp: r_def provider_row_of_def)
qed

end
