(* ===== verification/Http_Core.thy ===== *)
theory Http_Core
  imports Middleware Client_IP Sql_History Sql_Providers
begin

text \<open>
  What the handlers of \<open>internal/httpd\<close> share (\<open>validation.go\<close>, \<open>audit.go\<close>): replies, request
  bodies, pagination, the identity of the caller and the audit record. A handler is a function
  of the server's settings, the request and the database. The identifiers and clock readings a
  request draws are fields of its record.
\<close>

subsection \<open>Replies and bodies\<close>

datatype 'a reply = Reply nat 'a | Failure nat string string

definition status_of :: "'a reply \<Rightarrow> nat" where
  "status_of r = (case r of Reply n _ \<Rightarrow> n | Failure n _ _ \<Rightarrow> n)"

definition error_text :: "store_error \<Rightarrow> string" where
  "error_text e = (case e of ErrNotFound \<Rightarrow> ''not found'' | StoreFailure m \<Rightarrow> m)"

definition store_failure :: "store_error \<Rightarrow> 'a reply" where
  "store_failure e = Failure 500 ''store_error'' (error_text e)"

text \<open>The body as the JSON decoder of the handler's type finds it.\<close>

datatype 'a body = Decoded 'a | NoBody | BodyTooLarge | Malformed string

definition readJSON :: "'a \<Rightarrow> 'a body \<Rightarrow> 'b reply + 'a" where
  "readJSON zero b =
     (case b of
        Decoded x \<Rightarrow> Inr x
      | NoBody \<Rightarrow> Inr zero
      | BodyTooLarge \<Rightarrow> Inl (Failure 400 ''body_too_large'' ''request body exceeds 64KiB'')
      | Malformed m \<Rightarrow> Inl (Failure 400 ''invalid_json'' (''invalid JSON body: '' @ m)))"

subsection \<open>Pagination\<close>

text \<open>The offset is a product of 64-bit integers, which wraps around.\<close>

definition wrap64 :: "int \<Rightarrow> int" where
  "wrap64 n = (n + 2 ^ 63) mod 2 ^ 64 - 2 ^ 63"

definition page_number :: "string \<Rightarrow> int" where
  "page_number v = (if v = [] then 1 else case Atoi v of Some n \<Rightarrow> if 0 < n then n else 1 | None \<Rightarrow> 1)"

definition page_limit :: "int \<Rightarrow> string \<Rightarrow> int" where
  "page_limit defaultLimit v =
     (if v = [] then defaultLimit
      else case Atoi v of Some n \<Rightarrow> if 0 < n \<and> n \<le> 500 then n else defaultLimit | None \<Rightarrow> defaultLimit)"

definition pagination :: "(string \<Rightarrow> string) \<Rightarrow> int \<Rightarrow> int \<times> int \<times> int" where
  "pagination query defaultLimit =
     (let page = page_number (query ''page''); limit = page_limit defaultLimit (query ''limit'')
      in (limit, wrap64 ((page - 1) * limit), page))"

subsection \<open>The caller\<close>

record req =
  rx_http :: http_request
  rx_Identity :: "Identity option"
  rx_query :: "string \<Rightarrow> string"
  rx_ids :: "nat \<Rightarrow> string"
  rx_now :: string
  rx_audit_id :: string
  rx_audit_now :: string

definition identityUserID :: "req \<Rightarrow> string" where
  "identityUserID r =
     (case rx_Identity r of None \<Rightarrow> []
      | Some i \<Rightarrow> (case i_User i of None \<Rightarrow> [] | Some u \<Rightarrow> u_ID u))"

definition identityChainID :: "req \<Rightarrow> string" where
  "identityChainID r = (case rx_Identity r of None \<Rightarrow> [] | Some i \<Rightarrow> i_ChainID i)"

definition isAdmin :: "req \<Rightarrow> bool" where
  "isAdmin r \<longleftrightarrow> (case rx_Identity r of None \<Rightarrow> False | Some i \<Rightarrow> IsAdmin (Some i))"

record server =
  sv_clientIP :: "ipnet list option"
  sv_GetInt :: "string \<Rightarrow> int"
  sv_GetBool :: "string \<Rightarrow> bool"
  sv_order :: "nat \<Rightarrow> string list \<Rightarrow> string list"
  sv_like :: like

subsection \<open>Audit\<close>

definition audit_entry :: "server \<Rightarrow> req \<Rightarrow> string \<Rightarrow> string \<Rightarrow> (string \<times> string) list \<Rightarrow> AuditEntry" where
  "audit_entry sv r action target details =
     \<lparr>au_ID = rx_audit_id r, au_TS = rx_audit_now r, au_UserID = identityUserID r,
      au_User = (case rx_Identity r of None \<Rightarrow> []
                 | Some i \<Rightarrow> (case i_User i of None \<Rightarrow> [] | Some u \<Rightarrow> u_Name u)),
      au_Via = (case rx_Identity r of None \<Rightarrow> [] | Some i \<Rightarrow> i_Via i),
      au_IP = (case sv_clientIP sv of None \<Rightarrow> [] | Some nets \<Rightarrow> ClientIP (Some nets) (rx_http r)),
      au_Action = action, au_Target = target, au_Details = EncodeMap details\<rparr>"

text \<open>An audit record that cannot be written is dropped; the request goes on.\<close>

definition audit :: "server \<Rightarrow> req \<Rightarrow> string \<Rightarrow> string \<Rightarrow> (string \<times> string) list \<Rightarrow> database \<Rightarrow> database" where
  "audit sv r action target details db = snd (AddAudit (audit_entry sv r action target details) db)"

definition handleListAudit :: "server \<Rightarrow> req \<Rightarrow> database \<Rightarrow> (AuditEntry list \<times> nat \<times> int \<times> int) reply" where
  "handleListAudit sv r db =
     (let (limit, offset, page) = pagination (rx_query r) 100; q = rx_query r
      in case ListAudit (sv_like sv) \<lparr>af_Action = q ''action'', af_Actor = q ''actor'', af_From = q ''from'',
                af_To = q ''to'', af_Query = q ''q''\<rparr> \<lparr>pg_Limit = limit, pg_Offset = offset\<rparr> db of
           Inl e \<Rightarrow> store_failure e
         | Inr (items, count) \<Rightarrow> Reply 200 (items, count, page, limit))"

subsection \<open>History and logs\<close>

text \<open>A cursor takes precedence over the page; a full page carries the cursor of its last row.\<close>

definition nextRequestCursor :: "request_row list \<Rightarrow> int \<Rightarrow> string option" where
  "nextRequestCursor items limit =
     (if limit \<le> 0 \<or> int (length items) < limit then None else Some (request_cursor (List.last items)))"

definition request_filter :: "req \<Rightarrow> RequestFilter" where
  "request_filter r =
     (let q = rx_query r
      in \<lparr>rf_Status = q ''status'', rf_Provider = q ''provider'', rf_From = q ''from'', rf_To = q ''to'',
          rf_Query = q ''q'', rf_Cursor = q ''cursor'', rf_UserID = (if isAdmin r then [] else identityUserID r)\<rparr>)"

definition handleListRequests ::
  "server \<Rightarrow> req \<Rightarrow> database \<Rightarrow> (request_row list \<times> nat \<times> int \<times> int \<times> string option) reply" where
  "handleListRequests sv r db =
     (let (limit, offset0, page0) = pagination (rx_query r) 50;
          cursor = rx_query r ''cursor'';
          (offset, page) = (if cursor \<noteq> [] then (0, 1) else (offset0, page0))
      in case ListRequests (sv_like sv) (request_filter r) \<lparr>pg_Limit = limit, pg_Offset = offset\<rparr> db of
           Inl e \<Rightarrow> store_failure e
         | Inr (items, count) \<Rightarrow> Reply 200 (items, count, page, limit, nextRequestCursor items limit))"

definition handleGetRequest :: "req \<Rightarrow> string \<Rightarrow> database \<Rightarrow> (request_row \<times> step_row list) reply" where
  "handleGetRequest r i db =
     (case GetRequest i db of
        Inl e \<Rightarrow> if e = ErrNotFound then Failure 404 ''not_found'' ''request not found'' else store_failure e
      | Inr (w, steps) \<Rightarrow>
          if \<not> isAdmin r \<and> (identityUserID r = [] \<or> rw_UserID w \<noteq> identityUserID r)
          then Failure 404 ''not_found'' ''request not found''
          else Reply 200 (w, steps))"

definition nextLogCursor :: "LogEntry list \<Rightarrow> int \<Rightarrow> string option" where
  "nextLogCursor items limit =
     (if limit \<le> 0 \<or> int (length items) < limit then None else Some (log_cursor (List.last items)))"

definition handleListLogs :: "server \<Rightarrow> req \<Rightarrow> database \<Rightarrow> (LogEntry list \<times> nat \<times> int \<times> int \<times> string option) reply" where
  "handleListLogs sv r db =
     (let (limit, offset0, page0) = pagination (rx_query r) 100;
          cursor = rx_query r ''cursor'';
          (offset, page) = (if cursor \<noteq> [] then (0, 1) else (offset0, page0))
      in case ListLogs (sv_like sv) \<lparr>lf_Level = rx_query r ''level'', lf_Query = rx_query r ''q'', lf_Cursor = cursor\<rparr>
                \<lparr>pg_Limit = limit, pg_Offset = offset\<rparr> db of
           Inl e \<Rightarrow> store_failure e
         | Inr (items, count) \<Rightarrow> Reply 200 (items, count, page, limit, nextLogCursor items limit))"

subsection \<open>Facts\<close>

lemma wrap64_id: "in_int64 n \<Longrightarrow> wrap64 n = n"
  by (simp add: wrap64_def in_int64_def)

lemma page_limit_range: "0 < d \<Longrightarrow> 0 < page_limit d v"
  by (auto simp: page_limit_def split: option.split)

lemma page_number_pos: "0 < page_number v"
  by (auto simp: page_number_def split: option.split)

text \<open>A page number that is large enough makes the offset negative.\<close>

lemma pagination_wraps:
  assumes "Atoi (query ''page'') = Some 18446744073709553" "Atoi (query ''limit'') = Some 500"
  shows "pagination query d = (500, -9223372036854775616, 18446744073709553)"
proof -
  have "Atoi [] = None" by code_simp
  then have "query ''page'' \<noteq> []" "query ''limit'' \<noteq> []" using assms by auto
  then show ?thesis using assms
    by (simp add: pagination_def page_number_def page_limit_def wrap64_def Let_def)
qed

text \<open>Otherwise it is the number of rows before the page.\<close>

lemma pagination_offset:
  assumes "pagination query d = (limit, offset, page)" "0 < d" "in_int64 ((page - 1) * limit)"
  shows "offset = (page - 1) * limit \<and> 0 \<le> offset \<and> 0 < limit \<and> 0 < page"
proof -
  have "page = page_number (query ''page'')" "limit = page_limit d (query ''limit'')" "offset = wrap64 ((page - 1) * limit)"
    using assms(1) by (auto simp: pagination_def Let_def)
  then show ?thesis
    using assms(2,3) page_number_pos [of "query ''page''"] page_limit_range [of d "query ''limit''"]
    by (simp add: wrap64_id)
qed

lemma audit_frame:
  "audit sv r a t d db = db \<or> (\<exists>as. audit sv r a t d db = db\<lparr>t_audit := as\<rparr>)"
  unfolding audit_def AddAudit_def
  using run_exec_cases [of "\<not> has au_ID (au_ID (audit_entry sv r a t d)) (t_audit db)" _ db] by blast

text \<open>A caller who is not an administrator sees rows of his own only.\<close>

lemma own_requests_listed:
  assumes "handleListRequests sv r db = Reply 200 (items, count, page, limit, cur)"
    and "\<not> isAdmin r" "identityUserID r \<noteq> []" "w \<in> set items"
  shows "rw_UserID w = identityUserID r"
proof -
  obtain pg where "ListRequests (sv_like sv) (request_filter r) pg db = Inr (items, count)"
    using assms(1) by (auto simp: handleListRequests_def store_failure_def Let_def split: prod.splits sum.splits)
  then have "w \<in> set (filter (request_matches (sv_like sv) (request_filter r)) (t_requests db))"
    using assms(4) by (auto simp: ListRequests_def run_query_def Let_def limit_offset_def split: option.splits
        dest!: in_set_takeD in_set_dropD)
  then show ?thesis using assms(2,3) by (simp add: request_matches_def request_filter_def Let_def)
qed

lemma own_request_read:
  assumes "handleGetRequest r i db = Reply 200 (w, steps)" and "\<not> isAdmin r"
  shows "rw_UserID w = identityUserID r \<and> identityUserID r \<noteq> []"
  using assms by (auto simp: handleGetRequest_def store_failure_def split: sum.splits prod.splits if_splits)

end
