(* ===== verification/Graph.thy ===== *)
theory Graph
  imports Plan
begin

text \<open>
  The graph routines of \<open>internal/engine/validate.go\<close>: the breadth-first walk
  \<open>reachableFrom\<close> (the full-chain executor repeats it inline) and the depth-first cycle
  search \<open>findCycle\<close>, with their correctness. Edges are given as the list of
  (from, to) pairs in the order of the chain's edge list; \<open>succs\<close> is the adjacency map
  the code builds from it.
\<close>

subsection \<open>Adjacency\<close>

definition edge_pairs :: "(string \<Rightarrow> bool) \<Rightarrow> ChainEdge list \<Rightarrow> (string \<times> string) list" where
  "edge_pairs acc es = map (\<lambda>e. (e_FromKey e, e_ToKey e)) (filter (\<lambda>e. acc (e_Condition e)) es)"

definition succs :: "('a \<times> 'a) list \<Rightarrow> 'a \<Rightarrow> 'a list" where
  "succs es k = map snd (filter (\<lambda>e. fst e = k) es)"

lemma set_succs [simp]: "y \<in> set (succs es x) \<longleftrightarrow> (x, y) \<in> set es"
  by (force simp: succs_def)

lemma succs_outside: "x \<notin> fst ` set es \<Longrightarrow> succs es x = []"
  by (force simp: succs_def filter_empty_conv)

subsection \<open>Breadth-first reachability\<close>

text \<open>
  The loop over the queue: \<open>seen\<close> holds the visited keys, newest first. Each iteration
  either drops a key or visits a new one; only keys with outgoing edges make the queue
  longer, so the number of unvisited sources bounds the work.
\<close>

function bfs :: "('a \<times> 'a) list \<Rightarrow> 'a list \<Rightarrow> 'a list \<Rightarrow> 'a list" where
  "bfs es seen [] = seen"
| "bfs es seen (x # q) =
     (if x \<in> set seen then bfs es seen q else bfs es (x # seen) (q @ succs es x))"
  by pat_completeness auto
termination
proof (relation "inv_image (less_than <*lex*> less_than)
         (\<lambda>(es, seen, q). (card (fst ` set es - set seen), length q))", goal_cases)
  case 1
  then show ?case by auto
next
  case (2 es seen x q)
  then show ?case by auto
next
  case (3 es seen x q)
  show ?case
  proof (cases "x \<in> fst ` set es")
    case True
    with 3 have "fst ` set es - set (x # seen) \<subset> fst ` set es - set seen" by auto
    then have "card (fst ` set es - set (x # seen)) < card (fst ` set es - set seen)"
      by (intro psubset_card_mono) auto
    then show ?thesis by simp
  next
    case False
    then have "fst ` set es - set (x # seen) = fst ` set es - set seen" by auto
    with False show ?thesis by (simp add: succs_outside)
  qed
qed

lemma bfs_seen_mono: "set seen \<subseteq> set (bfs es seen q)"
  by (induction es seen q rule: bfs.induct) auto

lemma bfs_queue_seen: "set q \<subseteq> set (bfs es seen q)"
proof (induction es seen q rule: bfs.induct)
  case (2 es seen x q)
  then show ?case
    using bfs_seen_mono [of "x # seen" es "q @ succs es x"] bfs_seen_mono [of seen es q]
    by (cases "x \<in> set seen") auto
qed simp

lemma bfs_distinct: "distinct seen \<Longrightarrow> distinct (bfs es seen q)"
  by (induction es seen q rule: bfs.induct) auto

lemma bfs_closed:
  "(\<And>x y. x \<in> set seen \<Longrightarrow> (x, y) \<in> set es \<Longrightarrow> y \<in> set seen \<union> set q) \<Longrightarrow>
   x \<in> set (bfs es seen q) \<Longrightarrow> (x, y) \<in> set es \<Longrightarrow> y \<in> set (bfs es seen q)"
proof (induction es seen q rule: bfs.induct)
  case (2 es seen z q)
  show ?case
  proof (cases "z \<in> set seen")
    case True
    with 2 show ?thesis by auto
  next
    case False
    have "y' \<in> set (z # seen) \<union> set (q @ succs es z)"
      if "x' \<in> set (z # seen)" "(x', y') \<in> set es" for x' y'
      using that "2.prems"(1) [of x' y'] by auto
    then have "y \<in> set (bfs es (z # seen) (q @ succs es z))"
      using "2.IH"(2) [OF False] "2.prems"(2,3) False by simp
    with False show ?thesis by simp
  qed
qed auto

lemma bfs_sound:
  "x \<in> set (bfs es seen q) \<Longrightarrow> x \<in> set seen \<or> (\<exists>s \<in> set q. (s, x) \<in> (set es)\<^sup>*)"
proof (induction es seen q rule: bfs.induct)
  case (2 es seen z q)
  show ?case
  proof (cases "z \<in> set seen")
    case True
    with 2 show ?thesis by auto
  next
    case False
    with "2.prems" have "x \<in> set (bfs es (z # seen) (q @ succs es z))" by simp
    from "2.IH"(2) [OF False this] show ?thesis
      by (auto intro: converse_rtrancl_into_rtrancl)
  qed
qed simp

lemma bfs_reach: "set (bfs es [] [s]) = {x. (s, x) \<in> (set es)\<^sup>*}"
proof (intro equalityI subsetI)
  fix x assume "x \<in> set (bfs es [] [s])"
  then show "x \<in> {x. (s, x) \<in> (set es)\<^sup>*}" using bfs_sound by fastforce
next
  fix x assume "x \<in> {x. (s, x) \<in> (set es)\<^sup>*}"
  then have "(s, x) \<in> (set es)\<^sup>*" by simp
  then show "x \<in> set (bfs es [] [s])"
  proof (induction rule: rtrancl_induct)
    case base
    show ?case using bfs_queue_seen [of "[s]" es "[]"] by simp
  next
    case (step y z)
    show ?case by (rule bfs_closed [OF _ step.IH step.hyps(2)]) simp
  qed
qed

definition reachableFrom :: "string \<Rightarrow> ChainEdge list \<Rightarrow> (string \<Rightarrow> bool) \<Rightarrow> string list" where
  "reachableFrom start es acc = bfs (edge_pairs acc es) [] [start]"

lemma reachableFrom_iff:
  "x \<in> set (reachableFrom s es acc) \<longleftrightarrow> (s, x) \<in> (set (edge_pairs acc es))\<^sup>*"
  by (simp only: reachableFrom_def bfs_reach mem_Collect_eq)

lemma distinct_reachableFrom [simp]: "distinct (reachableFrom s es acc)"
  by (simp add: reachableFrom_def bfs_distinct)

subsection \<open>Depth-first cycle search\<close>

datatype color = White | Gray | Black

text \<open>
  \<open>dfs_edges V es color stack todo\<close> is the loop over the remaining successors of the block
  on top of the stack; entering a white successor runs the loop over its successors. The
  result is the cycle found, or the colors after the loop. The stack is restored when a
  call returns without a cycle, so it need not be returned.
\<close>

definition stack_from :: "'a list \<Rightarrow> 'a \<Rightarrow> 'a list" where
  "stack_from stack v = (if v \<in> set stack then dropWhile (\<lambda>s. s \<noteq> v) stack else stack)"

function dfs_edges ::
  "'a list \<Rightarrow> ('a \<times> 'a) list \<Rightarrow> ('a \<Rightarrow> color) \<Rightarrow> 'a list \<Rightarrow> 'a list \<Rightarrow> 'a list + ('a \<Rightarrow> color)"
where
  "dfs_edges V es color stack [] = Inr color"
| "dfs_edges V es color stack (v # vs) =
     (if v \<notin> set V then dfs_edges V es color stack vs
      else (case color v of
          Gray \<Rightarrow> Inl (stack_from stack v @ [v])
        | White \<Rightarrow>
            (case dfs_edges V es (color(v := Gray)) (stack @ [v]) (succs es v) of
               Inl cyc \<Rightarrow> Inl cyc
             | Inr color' \<Rightarrow> dfs_edges V es (color'(v := Black)) stack vs)
        | Black \<Rightarrow> dfs_edges V es color stack vs))"
  by pat_completeness auto

definition whites :: "'a list \<Rightarrow> ('a \<Rightarrow> color) \<Rightarrow> 'a set" where
  "whites V color = {v \<in> set V. color v = White}"

lemma finite_whites [simp]: "finite (whites V color)"
  by (simp add: whites_def)

lemma whites_upd: "c \<noteq> White \<Longrightarrow> whites V (color(v := c)) = whites V color - {v}"
  by (auto simp: whites_def)

lemma dfs_edges_whites_dom:
  "dfs_edges_dom (V, es, color, stack, todo) \<Longrightarrow>
   dfs_edges V es color stack todo = Inr color' \<Longrightarrow> whites V color' \<subseteq> whites V color"
proof (induction arbitrary: color' rule: dfs_edges.pinduct)
  case (1 V es color stack)
  then show ?case by (simp add: dfs_edges.psimps)
next
  case (2 V es color stack v vs)
  show ?case
  proof (cases "v \<in> set V \<and> color v = White")
    case False
    with 2 show ?thesis
      by (auto simp: dfs_edges.psimps split: if_splits color.splits)
  next
    case True
    with "2.prems" "2.hyps" obtain c1 where
      inner: "dfs_edges V es (color(v := Gray)) (stack @ [v]) (succs es v) = Inr c1"
      and outer: "dfs_edges V es (c1(v := Black)) stack vs = Inr color'"
      by (auto simp: dfs_edges.psimps split: sum.splits)
    have "whites V c1 \<subseteq> whites V (color(v := Gray))"
      using True by (intro "2.IH"(2) [OF _ _ inner]) auto
    moreover have "whites V color' \<subseteq> whites V (c1(v := Black))"
      using True by (intro "2.IH"(3) [OF _ _ inner outer]) auto
    ultimately show ?thesis by (auto simp: whites_upd)
  qed
qed

termination dfs_edges
proof (relation "inv_image (less_than <*lex*> less_than)
         (\<lambda>(V, es, color, stack, todo). (card (whites V color), length todo))", goal_cases)
  case 1
  then show ?case by auto
next
  case (2 V es color stack v vs)
  then show ?case by auto
next
  case (3 V es color stack v vs)
  then have "v \<in> whites V color" by (simp add: whites_def)
  then have "whites V (color(v := Gray)) \<subset> whites V color"
    by (auto simp: whites_upd)
  then have "card (whites V (color(v := Gray))) < card (whites V color)"
    by (intro psubset_card_mono) auto
  then show ?case by simp
next
  case (4 V es color stack v vs color')
  then have v: "v \<in> whites V color" by (simp add: whites_def)
  have "whites V color' \<subseteq> whites V (color(v := Gray))"
    using dfs_edges_whites_dom 4 by metis
  then have "whites V (color'(v := Black)) \<subset> whites V color"
    using v by (auto simp: whites_upd)
  then have "card (whites V (color'(v := Black))) < card (whites V color)"
    by (intro psubset_card_mono) auto
  then show ?case by simp
next
  case (5 V es color stack v vs)
  then show ?case by auto
qed

definition visit ::
  "'a list \<Rightarrow> ('a \<times> 'a) list \<Rightarrow> ('a \<Rightarrow> color) \<Rightarrow> 'a \<Rightarrow> 'a list + ('a \<Rightarrow> color)" where
  "visit V es color u =
     (case dfs_edges V es (color(u := Gray)) [u] (succs es u) of
        Inl cyc \<Rightarrow> Inl cyc
      | Inr color' \<Rightarrow> Inr (color'(u := Black)))"

text \<open>The loop over \<open>range nodes\<close>: \<open>ord\<close> is the order in which the map is iterated.\<close>

fun dfs_roots ::
  "'a list \<Rightarrow> ('a \<times> 'a) list \<Rightarrow> ('a \<Rightarrow> color) \<Rightarrow> 'a list \<Rightarrow> 'a list option" where
  "dfs_roots V es color [] = None"
| "dfs_roots V es color (k # ks) =
     (if color k = White
      then (case visit V es color k of
              Inl cyc \<Rightarrow> Some cyc
            | Inr color' \<Rightarrow> dfs_roots V es color' ks)
      else dfs_roots V es color ks)"

definition findCycle :: "string list \<Rightarrow> ChainEdge list \<Rightarrow> string list option" where
  "findCycle ord es = dfs_roots ord (edge_pairs (\<lambda>_. True) es) (\<lambda>_. White) ord"

subsection \<open>Correctness of the cycle search\<close>

definition edges_in :: "'a list \<Rightarrow> ('a \<times> 'a) list \<Rightarrow> ('a \<times> 'a) set" where
  "edges_in V es = {(x, y). (x, y) \<in> set es \<and> x \<in> set V \<and> y \<in> set V}"

definition blacks :: "'a list \<Rightarrow> ('a \<times> 'a) list \<Rightarrow> ('a \<Rightarrow> color) \<Rightarrow> ('a \<times> 'a) set" where
  "blacks V es color = {(x, y). (x, y) \<in> edges_in V es \<and> color x = Black}"

text \<open>
  The invariant of the search: the gray keys are those on the stack, which is a path;
  finished keys have finished successors, and the edges among them have no cycle.
\<close>

definition dfs_inv :: "'a list \<Rightarrow> ('a \<times> 'a) list \<Rightarrow> ('a \<Rightarrow> color) \<Rightarrow> 'a list \<Rightarrow> bool" where
  "dfs_inv V es color stack \<longleftrightarrow>
     distinct stack \<and> set stack \<subseteq> set V \<and> (\<forall>x. color x = Gray \<longleftrightarrow> x \<in> set stack) \<and>
     successively (\<lambda>a b. (a, b) \<in> set es) stack \<and>
     (\<forall>(x, y) \<in> blacks V es color. color y = Black) \<and> acyclic (blacks V es color)"

lemma dfs_inv_push:
  assumes "dfs_inv V es color stack" "color v = White" "v \<in> set V"
    and "stack \<noteq> [] \<Longrightarrow> (last stack, v) \<in> set es"
  shows "dfs_inv V es (color(v := Gray)) (stack @ [v])"
proof -
  have v: "v \<notin> set stack" using assms(1,2) by (metis color.distinct(1) dfs_inv_def)
  have "blacks V es (color(v := Gray)) = blacks V es color"
    using assms(2) by (auto simp: blacks_def split: if_splits)
  then show ?thesis
    using assms v by (auto simp: dfs_inv_def successively_append_iff)
qed

lemma dfs_inv_pop:
  assumes inv: "dfs_inv V es c1 (stack @ [v])"
    and succ: "\<And>w. w \<in> set (succs es v) \<Longrightarrow> w \<in> set V \<Longrightarrow> c1 w = Black"
  shows "dfs_inv V es (c1(v := Black)) stack"
proof -
  have gray: "c1 v = Gray" and v: "v \<notin> set stack" "v \<in> set V"
    using inv by (auto simp: dfs_inv_def)
  let ?S = "{w. (v, w) \<in> edges_in V es}"
  have eq: "blacks V es (c1(v := Black)) = blacks V es c1 \<union> {v} \<times> ?S"
    using gray by (auto simp: blacks_def split: if_splits)
  have fresh: "(a, v) \<notin> blacks V es c1" for a
  proof
    assume "(a, v) \<in> blacks V es c1"
    then have "c1 v = Black" using inv by (fastforce simp: dfs_inv_def)
    with gray show False by simp
  qed
  have black: "c1 w = Black" if "w \<in> ?S" for w
    using that succ by (auto simp: edges_in_def)
  have "v \<notin> ?S" using black gray by fastforce
  then have "acyclic (blacks V es (c1(v := Black)))"
    unfolding eq using inv fresh by (intro acyclic_add_source) (auto simp: dfs_inv_def)
  moreover have "\<forall>(x, y) \<in> blacks V es (c1(v := Black)). (c1(v := Black)) y = Black"
    unfolding eq using inv black by (auto simp: dfs_inv_def)
  ultimately show ?thesis
    using inv v by (auto simp: dfs_inv_def successively_append_iff)
qed

lemma dfs_edges_Inr:
  assumes "dfs_edges V es color stack todo = Inr color'" "dfs_inv V es color stack"
    "stack \<noteq> []" "\<forall>v \<in> set todo. (last stack, v) \<in> set es"
  shows "dfs_inv V es color' stack \<and> (\<forall>v \<in> set todo \<inter> set V. color' v = Black)
     \<and> (\<forall>x. color x = Black \<longrightarrow> color' x = Black)"
  using assms
proof (induction V es color stack todo arbitrary: color' rule: dfs_edges.induct)
  case (1 V es color stack)
  then show ?case by simp
next
  case (2 V es color stack v vs)
  show ?case
  proof (cases "v \<in> set V \<and> color v = White")
    case False
    then have skip: "dfs_edges V es color stack vs = Inr color'"
      and black: "v \<in> set V \<Longrightarrow> color v = Black"
      using "2.prems"(1) by (auto split: if_splits color.splits)
    have "dfs_inv V es color' stack \<and> (\<forall>w \<in> set vs \<inter> set V. color' w = Black)
        \<and> (\<forall>x. color x = Black \<longrightarrow> color' x = Black)"
    proof (cases "v \<in> set V")
      case True
      with black skip "2.prems" show ?thesis by (intro "2.IH"(4)) auto
    next
      case False
      with skip "2.prems" show ?thesis by (intro "2.IH"(1)) auto
    qed
    with black show ?thesis by auto
  next
    case True
    then obtain c1 where
      inner: "dfs_edges V es (color(v := Gray)) (stack @ [v]) (succs es v) = Inr c1"
      and outer: "dfs_edges V es (c1(v := Black)) stack vs = Inr color'"
      using "2.prems"(1) by (auto split: sum.splits)
    have "dfs_inv V es (color(v := Gray)) (stack @ [v])"
      using True "2.prems" by (intro dfs_inv_push) auto
    then have in1: "dfs_inv V es c1 (stack @ [v])"
      and sb: "\<forall>w \<in> set (succs es v) \<inter> set V. c1 w = Black"
      and mono: "\<forall>x. (color(v := Gray)) x = Black \<longrightarrow> c1 x = Black"
      using True "2.IH"(2) [OF _ _ inner] by (auto simp del: fun_upd_apply)
    have "dfs_inv V es (c1(v := Black)) stack"
      using in1 sb by (intro dfs_inv_pop) auto
    then have "dfs_inv V es color' stack \<and> (\<forall>w \<in> set vs \<inter> set V. color' w = Black)
        \<and> (\<forall>x. (c1(v := Black)) x = Black \<longrightarrow> color' x = Black)"
      using True "2.prems" by (intro "2.IH"(3) [OF _ _ inner outer]) (simp_all del: fun_upd_apply)
    moreover have "color' x = Black" if "color x = Black" for x
      using calculation mono True that by (cases "x = v") auto
    ultimately show ?thesis by (auto split: if_splits)
  qed
qed

text \<open>A reported cycle is a closed path of the graph.\<close>

definition is_cycle :: "'a list \<Rightarrow> ('a \<times> 'a) list \<Rightarrow> 'a list \<Rightarrow> bool" where
  "is_cycle V es cyc \<longleftrightarrow> 2 \<le> length cyc \<and> hd cyc = last cyc \<and> set cyc \<subseteq> set V \<and>
     successively (\<lambda>a b. (a, b) \<in> set es) cyc"

lemma successively_dropWhile:
  "successively P xs \<Longrightarrow> successively P (dropWhile Q xs)"
  by (induction xs) (auto simp: successively_Cons)

lemma last_dropWhile_ne: "dropWhile P xs \<noteq> [] \<Longrightarrow> last (dropWhile P xs) = last xs"
  by (induction xs) auto

lemma is_cycle_stack:
  assumes inv: "dfs_inv V es color stack" and g: "color v = Gray" and e: "(last stack, v) \<in> set es"
  shows "is_cycle V es (stack_from stack v @ [v])"
proof -
  have v: "v \<in> set stack" using inv g by (simp add: dfs_inv_def)
  let ?d = "dropWhile (\<lambda>s. s \<noteq> v) stack"
  have ne: "?d \<noteq> []" using v by simp
  then have "hd ?d = v" "last ?d = last stack"
    using hd_dropWhile [OF ne] by (auto simp: last_dropWhile_ne)
  moreover have "set ?d \<subseteq> set V"
    using inv set_dropWhileD by (fastforce simp: dfs_inv_def)
  moreover have "successively (\<lambda>a b. (a, b) \<in> set es) (?d @ [v])"
    using inv ne e \<open>last ?d = last stack\<close>
    by (auto simp: dfs_inv_def successively_append_iff successively_dropWhile)
  ultimately show ?thesis
    using v ne inv by (auto simp: is_cycle_def stack_from_def dfs_inv_def Suc_le_eq)
qed

lemma dfs_edges_Inl:
  assumes "dfs_edges V es color stack todo = Inl cyc" "dfs_inv V es color stack"
    "stack \<noteq> []" "\<forall>v \<in> set todo. (last stack, v) \<in> set es"
  shows "is_cycle V es cyc"
  using assms
proof (induction V es color stack todo arbitrary: cyc rule: dfs_edges.induct)
  case (1 V es color stack)
  then show ?case by simp
next
  case (2 V es color stack v vs)
  consider "v \<notin> set V" | "v \<in> set V" "color v = Gray" | "v \<in> set V" "color v = Black"
    | "v \<in> set V" "color v = White"
    by (cases "color v") auto
  then show ?case
  proof cases
    case 1
    with "2.prems" show ?thesis by (intro "2.IH"(1)) auto
  next
    case 2
    with "2.prems" show ?thesis using is_cycle_stack by fastforce
  next
    case 3
    with "2.prems" show ?thesis by (intro "2.IH"(4)) auto
  next
    case 4
    have push: "dfs_inv V es (color(v := Gray)) (stack @ [v])"
      using 4 "2.prems" by (intro dfs_inv_push) auto
    show ?thesis
    proof (cases "dfs_edges V es (color(v := Gray)) (stack @ [v]) (succs es v)")
      case (Inl c)
      with 4 "2.prems" have "c = cyc" by simp
      with 4 Inl push show ?thesis by (intro "2.IH"(2)) (simp_all del: fun_upd_apply)
    next
      case (Inr c1)
      have "dfs_inv V es (c1(v := Black)) stack"
        using dfs_edges_Inr [OF Inr push] by (intro dfs_inv_pop) auto
      with 4 Inr "2.prems" show ?thesis
        by (intro "2.IH"(3) [OF _ _ Inr]) (simp_all del: fun_upd_apply)
    qed
  qed
qed

lemma visit_push:
  "dfs_inv V es color [] \<Longrightarrow> color k = White \<Longrightarrow> k \<in> set V \<Longrightarrow> dfs_inv V es (color(k := Gray)) [k]"
  using dfs_inv_push [of V es color "[]" k] by simp

lemma visit_Inr:
  assumes "visit V es color k = Inr c'" "dfs_inv V es color []" "color k = White" "k \<in> set V"
  shows "dfs_inv V es c' [] \<and> c' k = Black \<and> (\<forall>x. color x = Black \<longrightarrow> c' x = Black)"
proof -
  obtain c1 where d: "dfs_edges V es (color(k := Gray)) [k] (succs es k) = Inr c1"
    and c': "c' = c1(k := Black)"
    using assms(1) by (auto simp: visit_def split: sum.splits)
  note r = dfs_edges_Inr [OF d visit_push [OF assms(2-4)]]
  have "dfs_inv V es c' []"
    unfolding c' using r by (intro dfs_inv_pop) auto
  with r c' assms(3) show ?thesis by (auto split: if_splits)
qed

lemma visit_Inl:
  assumes "visit V es color k = Inl cyc" "dfs_inv V es color []" "color k = White" "k \<in> set V"
  shows "is_cycle V es cyc"
  using assms(1) dfs_edges_Inl [OF _ visit_push [OF assms(2-4)]]
  by (auto simp: visit_def split: sum.splits)

lemma dfs_roots_Some:
  "dfs_roots V es color ks = Some cyc \<Longrightarrow> dfs_inv V es color [] \<Longrightarrow> set ks \<subseteq> set V \<Longrightarrow>
   is_cycle V es cyc"
proof (induction ks arbitrary: color)
  case (Cons k ks)
  then show ?case
    by (fastforce split: if_splits sum.splits dest: visit_Inr visit_Inl)
qed simp

lemma dfs_roots_None:
  "dfs_roots V es color ks = None \<Longrightarrow> dfs_inv V es color [] \<Longrightarrow> set ks \<subseteq> set V \<Longrightarrow>
   (\<forall>x \<in> set V - set ks. color x = Black) \<Longrightarrow> acyclic (edges_in V es)"
proof (induction ks arbitrary: color)
  case Nil
  then have "edges_in V es = blacks V es color"
    by (auto simp: blacks_def edges_in_def)
  with Nil show ?case by (simp add: dfs_inv_def)
next
  case (Cons k ks)
  show ?case
  proof (cases "color k = White")
    case True
    with Cons.prems obtain c' where c': "visit V es color k = Inr c'"
      and rest: "dfs_roots V es c' ks = None"
      by (auto split: sum.splits)
    have "dfs_inv V es c' [] \<and> c' k = Black \<and> (\<forall>x. color x = Black \<longrightarrow> c' x = Black)"
      using True Cons.prems by (intro visit_Inr [OF c']) auto
    with rest Cons.prems show ?thesis by (intro Cons.IH [of c']) auto
  next
    case False
    moreover have "color k \<noteq> Gray" using Cons.prems by (simp add: dfs_inv_def)
    ultimately have "color k = Black" by (cases "color k") auto
    with False Cons.prems show ?thesis by (intro Cons.IH [of color]) auto
  qed
qed

lemma dfs_inv_init: "dfs_inv V es (\<lambda>_. White) []"
  by (simp add: dfs_inv_def blacks_def acyclic_def)

lemma is_cycle_not_acyclic:
  assumes "is_cycle V es cyc"
  shows "\<not> acyclic (edges_in V es)"
proof
  assume ac: "acyclic (edges_in V es)"
  have "distinct cyc"
  proof (rule acyclic_path_distinct [OF ac])
    fix i assume i: "Suc i < length cyc"
    then have "(cyc ! i, cyc ! Suc i) \<in> set es"
      using assms by (simp add: is_cycle_def successively_conv_nth)
    with i assms show "(cyc ! i, cyc ! Suc i) \<in> edges_in V es"
      by (auto simp: is_cycle_def edges_in_def)
  qed
  moreover have two: "2 \<le> length cyc" using assms by (simp add: is_cycle_def)
  then have ne: "cyc \<noteq> []" by auto
  moreover from assms ne have "cyc ! 0 = cyc ! (length cyc - 1)"
    by (simp add: is_cycle_def hd_conv_nth last_conv_nth)
  ultimately show False
    using nth_eq_iff_index_eq [of cyc 0 "length cyc - 1"] two by auto
qed

lemma findCycle_Some:
  "findCycle V es = Some cyc \<Longrightarrow> is_cycle V (edge_pairs (\<lambda>_. True) es) cyc"
  unfolding findCycle_def using dfs_roots_Some dfs_inv_init by blast

lemma findCycle_None_iff:
  "findCycle V es = None \<longleftrightarrow> acyclic (edges_in V (edge_pairs (\<lambda>_. True) es))"
proof
  assume "findCycle V es = None"
  then show "acyclic (edges_in V (edge_pairs (\<lambda>_. True) es))"
    unfolding findCycle_def by (rule dfs_roots_None [OF _ dfs_inv_init]) simp_all
next
  assume "acyclic (edges_in V (edge_pairs (\<lambda>_. True) es))"
  then show "findCycle V es = None"
    using findCycle_Some is_cycle_not_acyclic by (metis not_None_eq)
qed

end
