(* ===== verification/Validate.thy ===== *)
theory Validate
  imports Graph "HOL-Library.List_Lexorder" "HOL-Library.Char_ord" "HOL-Library.Multiset"
begin

text \<open>
  \<open>ValidateChain\<close> of \<open>internal/engine/validate.go\<close>. Messages are constructors carrying
  the arguments of the format string. Go iterates over maps in an unspecified order: the
  argument \<open>ord\<close> gives, for the i-th such loop and the keys in it, the order taken. The
  verdict is shown to be an order-free predicate of the chain, \<open>valid_chain\<close>.
\<close>

subsection \<open>Results\<close>

datatype val_error =
    NoNodes
  | BadChainMode string
  | EmptyKey nat
  | DuplicateKey string
  | BadKind string string
  | NoProvider string
  | BadNodeMode string string
  | LogicalAnswer string
  | StartAnswer string
  | NegativeTimeout string
  | TimeoutRange string int
  | NegativeRetries string
  | TooManyRetries string int
  | NegativeDelay string
  | BadPolicy string string string
  | NoProviderBlock
  | UnknownSource string
  | UnknownTarget string
  | BadCondition string string string
  | JoinNoIncoming string
  | NoStart
  | ManyStarts nat "string list"
  | StartNoNext string
  | JoinNoNext string
  | HasCycle "string list"
  | Unreachable string

datatype val_warning =
    UnknownProvider string string
  | IgnoredProvider string
  | OverBudget int int
  | NotViaNext string
  | FanOutIgnored string
  | JoinOnlyMerges string

record ValidationResult =
  v_OK :: bool
  v_Errors :: "val_error list"
  v_Warnings :: "val_warning list"

definition errf :: "val_error \<Rightarrow> ValidationResult \<Rightarrow> ValidationResult" where
  "errf e r = r\<lparr>v_OK := False, v_Errors := v_Errors r @ [e]\<rparr>"

definition warnf :: "val_warning \<Rightarrow> ValidationResult \<Rightarrow> ValidationResult" where
  "warnf w r = r\<lparr>v_Warnings := v_Warnings r @ [w]\<rparr>"

definition errf_if :: "bool \<Rightarrow> val_error \<Rightarrow> ValidationResult \<Rightarrow> ValidationResult" where
  "errf_if b e r = (if b then errf e r else r)"

definition warnf_if :: "bool \<Rightarrow> val_warning \<Rightarrow> ValidationResult \<Rightarrow> ValidationResult" where
  "warnf_if b w r = (if b then warnf w r else r)"

subsection \<open>Checks of one node\<close>

definition lower :: "string \<Rightarrow> string" where
  "lower s = ToLower (TrimSpace s)"

definition bad_kind :: "ChainNode \<Rightarrow> bool" where
  "bad_kind n \<longleftrightarrow> (let raw = ToLower (TrimSpace (n_Kind n)) in raw \<noteq> [] \<and>
     raw \<notin> {NodeKindProvider, NodeKindStart, NodeKindJoin})"

definition check_provider ::
  "(string \<Rightarrow> bool) option \<Rightarrow> ChainNode \<Rightarrow> ValidationResult \<Rightarrow> ValidationResult" where
  "check_provider known n r =
     (if Kind (Some n) = NodeKindProvider then
        (if TrimSpace (n_ProviderID n) = [] then errf (NoProvider (n_Key n)) r
         else warnf_if (case known of None \<Rightarrow> False | Some k \<Rightarrow> \<not> k (lower (n_ProviderID n)))
                (UnknownProvider (n_Key n) (n_ProviderID n)) r)
      else warnf_if (TrimSpace (n_ProviderID n) \<noteq> []) (IgnoredProvider (n_Key n)) r)"

definition check_mode :: "ChainNode \<Rightarrow> ValidationResult \<Rightarrow> ValidationResult" where
  "check_mode n r =
     (let kind = Kind (Some n) in
      errf_if ((kind = NodeKindStart \<or> n_IsStart n) \<and> n_Mode n = NodeModeAnswer) (StartAnswer (n_Key n))
      (errf_if (kind \<noteq> NodeKindProvider \<and> EqualFold (TrimSpace (n_Mode n)) NodeModeAnswer)
         (LogicalAnswer (n_Key n))
      (errf_if (n_Mode n \<notin> {[], NodeModeSearch, NodeModeAnswer}) (BadNodeMode (n_Key n) (n_Mode n)) r)))"

definition check_limits :: "ChainNode \<Rightarrow> ValidationResult \<Rightarrow> ValidationResult" where
  "check_limits n r =
     (let r1 = (if n_TimeoutMS n < 0 then errf (NegativeTimeout (n_Key n)) r
                else errf_if (n_TimeoutMS n > 0 \<and> (n_TimeoutMS n < 1000 \<or> n_TimeoutMS n > 120000))
                       (TimeoutRange (n_Key n) (n_TimeoutMS n)) r);
          r2 = (if n_Retries n < 0 then errf (NegativeRetries (n_Key n)) r1
                else errf_if (n_Retries n > 10) (TooManyRetries (n_Key n) (n_Retries n)) r1)
      in errf_if (n_RetryDelayMS n < 0) (NegativeDelay (n_Key n)) r2)"

definition policy_names :: "string list" where
  "policy_names = [''on_success'', ''on_empty'', ''on_fail'']"

definition policy_of :: "ChainNode \<Rightarrow> string \<Rightarrow> string" where
  "policy_of n name =
     (if name = ''on_success'' then n_OnSuccess n
      else if name = ''on_empty'' then n_OnEmpty n else n_OnFail n)"

definition bad_policy :: "string \<Rightarrow> bool" where
  "bad_policy p \<longleftrightarrow> p \<notin> {[], ''stop'', ''next'', ''edge''}"

definition check_policies ::
  "string list \<Rightarrow> ChainNode \<Rightarrow> ValidationResult \<Rightarrow> ValidationResult" where
  "check_policies names n =
     fold (\<lambda>name. errf_if (bad_policy (policy_of n name)) (BadPolicy (n_Key n) name (policy_of n name)))
       names"

definition check_node ::
  "string list \<Rightarrow> (string \<Rightarrow> bool) option \<Rightarrow> bool \<Rightarrow> ChainNode \<Rightarrow> ValidationResult \<Rightarrow> ValidationResult"
where
  "check_node names known dup n r =
     check_policies names n (check_limits n (check_mode n (check_provider known n
       (errf_if (bad_kind n) (BadKind (n_Key n) (n_Kind n))
         (errf_if dup (DuplicateKey (n_Key n)) r)))))"

text \<open>
  The loop over the nodes: the index of the node, the map of the keys seen so far and the
  count of provider blocks are threaded through.
\<close>

fun check_nodes ::
  "(nat \<Rightarrow> string list \<Rightarrow> string list) \<Rightarrow> (string \<Rightarrow> bool) option \<Rightarrow> nat \<Rightarrow> (string \<rightharpoonup> ChainNode) \<Rightarrow> nat
     \<Rightarrow> ChainNode list \<Rightarrow> ValidationResult \<Rightarrow> (string \<rightharpoonup> ChainNode) \<times> nat \<times> ValidationResult"
where
  "check_nodes ord known i m pc [] r = (m, pc, r)"
| "check_nodes ord known i m pc (n # ns) r =
     (if TrimSpace (n_Key n) = [] then check_nodes ord known (Suc i) m pc ns (errf (EmptyKey i) r)
      else check_nodes ord known (Suc i) (m(n_Key n \<mapsto> n))
             (if Kind (Some n) = NodeKindProvider then Suc pc else pc) ns
             (check_node (ord (i + 4) policy_names) known (n_Key n \<in> dom m) n r))"

subsection \<open>Checks of edges, joins and entries\<close>

definition edge_conditions :: "string set" where
  "edge_conditions = {[], ''next'', ''any'', ''success'', ''empty'', ''fail''}"

definition check_edge :: "(string \<rightharpoonup> ChainNode) \<Rightarrow> ChainEdge \<Rightarrow> ValidationResult \<Rightarrow> ValidationResult" where
  "check_edge nodes e r =
     errf_if (e_Condition e \<notin> edge_conditions) (BadCondition (e_FromKey e) (e_ToKey e) (e_Condition e))
       (errf_if (e_ToKey e \<notin> dom nodes) (UnknownTarget (e_ToKey e))
         (errf_if (e_FromKey e \<notin> dom nodes) (UnknownSource (e_FromKey e)) r))"

definition incoming :: "ChainEdge list \<Rightarrow> string \<Rightarrow> nat" where
  "incoming es k = length (filter (\<lambda>e. e_ToKey e = k) es)"

definition check_join :: "ChainEdge list \<Rightarrow> ChainNode \<Rightarrow> ValidationResult \<Rightarrow> ValidationResult" where
  "check_join es n = errf_if (Kind (Some n) = NodeKindJoin \<and> incoming es (n_Key n) = 0)
                       (JoinNoIncoming (n_Key n))"

definition is_entry :: "ChainNode \<Rightarrow> bool" where
  "is_entry n \<longleftrightarrow> n_IsStart n \<or> Kind (Some n) = NodeKindStart"

definition sortedKeys :: "string list \<Rightarrow> string list" where
  "sortedKeys keys = sort keys"

definition entry_keys :: "ChainNode list \<Rightarrow> string list" where
  "entry_keys ns = sortedKeys (remdups (map n_Key (filter is_entry ns)))"

definition neutralSuccessorCount :: "ChainEdge list \<Rightarrow> string \<Rightarrow> nat" where
  "neutralSuccessorCount es k = length (filter (\<lambda>e. e_FromKey e = k \<and> neutral (e_Condition e)) es)"

definition neutralIncomingCount :: "ChainEdge list \<Rightarrow> string \<Rightarrow> nat" where
  "neutralIncomingCount es k = length (filter (\<lambda>e. e_ToKey e = k \<and> neutral (e_Condition e)) es)"

definition check_neutral ::
  "string \<Rightarrow> ChainEdge list \<Rightarrow> ChainNode \<Rightarrow> ValidationResult \<Rightarrow> ValidationResult" where
  "check_neutral mode es n r =
     (if Kind (Some n) = NodeKindStart
      then errf_if (neutralSuccessorCount es (n_Key n) = 0) (StartNoNext (n_Key n)) r
      else if Kind (Some n) = NodeKindJoin
      then errf_if (mode = ChainModeFullChain \<and> neutralIncomingCount es (n_Key n) = 0)
             (JoinNoNext (n_Key n)) r
      else r)"

definition potential_steps :: "(string \<rightharpoonup> ChainNode) \<Rightarrow> string list \<Rightarrow> int" where
  "potential_steps nodes seen =
     sum_list (map (\<lambda>k. case nodes k of
                          Some n \<Rightarrow> if Kind (Some n) = NodeKindProvider then n_Retries n + 1 else 0
                        | None \<Rightarrow> 0) seen)"

text \<open>The part of the check that runs when there is exactly one start block.\<close>

definition check_reach ::
  "(nat \<Rightarrow> string list \<Rightarrow> string list) \<Rightarrow> int option \<Rightarrow> string \<Rightarrow> Chain \<Rightarrow> (string \<rightharpoonup> ChainNode) \<Rightarrow> string list
     \<Rightarrow> string \<Rightarrow> ValidationResult \<Rightarrow> ValidationResult"
where
  "check_reach ord maxAttempts mode c nodes keys start r =
     (let seen = reachableFrom start (c_Edges c) (\<lambda>_. True);
          r1 = fold (\<lambda>k. errf_if (k \<notin> set seen) (Unreachable k)) (ord 1 keys) r;
          r2 = (case maxAttempts of
                  Some m \<Rightarrow> warnf_if (m > 0 \<and> potential_steps nodes (ord 2 seen) > m)
                              (OverBudget (potential_steps nodes (ord 2 seen)) m) r1
                | None \<Rightarrow> r1);
          nextSeen = reachableFrom start (c_Edges c) neutral;
          r3 = (if mode = ChainModeFullChain
                then fold (\<lambda>k. warnf_if (k \<in> set seen \<and> k \<notin> set nextSeen) (NotViaNext k)) (ord 3 keys) r2
                else r2)
      in if mode = ChainModeFirstSuccess
         then fold (\<lambda>n r. warnf_if (Kind (Some n) = NodeKindJoin) (JoinOnlyMerges (n_Key n))
                 (warnf_if (n_Key n = start \<and> neutralSuccessorCount (c_Edges c) (n_Key n) > 1)
                    (FanOutIgnored (n_Key n)) r)) (c_Nodes c) r3
         else r3)"

definition ValidateChain ::
  "(nat \<Rightarrow> string list \<Rightarrow> string list) \<Rightarrow> Chain option \<Rightarrow> (string \<Rightarrow> bool) option \<Rightarrow> int option \<Rightarrow> ValidationResult"
where
  "ValidateChain ord co known maxAttempts =
     (let r0 = \<lparr>v_OK = True, v_Errors = [], v_Warnings = []\<rparr> in
      case co of None \<Rightarrow> errf NoNodes r0
      | Some c \<Rightarrow>
        if c_Nodes c = [] then errf NoNodes r0
        else
          (let mode = (if c_Mode c = [] then ChainModeFirstSuccess else c_Mode c);
               r1 = errf_if (mode \<notin> {ChainModeFirstSuccess, ChainModeFullChain}) (BadChainMode (c_Mode c)) r0;
               (nodes, pc, r2) = check_nodes ord known 0 Map.empty 0 (c_Nodes c) r1;
               keys = remdups (map n_Key (filter (\<lambda>n. TrimSpace (n_Key n) \<noteq> []) (c_Nodes c)));
               r3 = errf_if (pc = 0) NoProviderBlock r2;
               r4 = fold (check_edge nodes) (c_Edges c) r3;
               r5 = fold (check_join (c_Edges c)) (c_Nodes c) r4;
               starts = entry_keys (c_Nodes c);
               r6 = errf_if (starts = []) NoStart r5;
               r7 = errf_if (length starts > 1) (ManyStarts (length starts) starts) r6;
               r8 = (if length starts = 1 then fold (check_neutral mode (c_Edges c)) (c_Nodes c) r7 else r7);
               r9 = (case findCycle (ord 0 keys) (c_Edges c) of
                       Some cyc \<Rightarrow> errf (HasCycle cyc) r8 | None \<Rightarrow> r8)
           in if length starts = 1
              then check_reach ord maxAttempts mode c nodes keys (hd starts) r9
              else r9))"

subsection \<open>The verdict as a predicate of the chain\<close>

text \<open>What a chain must satisfy, stated without loops, accumulators or orders.\<close>

definition valid_node :: "ChainNode \<Rightarrow> bool" where
  "valid_node n \<longleftrightarrow>
     TrimSpace (n_Key n) \<noteq> [] \<and> \<not> bad_kind n \<and>
     (is_provider n \<longrightarrow> TrimSpace (n_ProviderID n) \<noteq> []) \<and>
     n_Mode n \<in> {[], NodeModeSearch, NodeModeAnswer} \<and>
     \<not> (\<not> is_provider n \<and> EqualFold (TrimSpace (n_Mode n)) NodeModeAnswer) \<and>
     \<not> (is_entry n \<and> n_Mode n = NodeModeAnswer) \<and>
     (n_TimeoutMS n = 0 \<or> n_TimeoutMS n \<in> {1000..120000}) \<and>
     n_Retries n \<in> {0..10} \<and> 0 \<le> n_RetryDelayMS n \<and>
     \<not> bad_policy (n_OnSuccess n) \<and> \<not> bad_policy (n_OnEmpty n) \<and> \<not> bad_policy (n_OnFail n)"

definition chain_edges :: "Chain \<Rightarrow> (string \<times> string) set" where
  "chain_edges c = (\<lambda>e. (e_FromKey e, e_ToKey e)) ` set (c_Edges c)"

definition chain_keys :: "Chain \<Rightarrow> string set" where
  "chain_keys c = n_Key ` set (c_Nodes c)"

definition valid_chain :: "Chain \<Rightarrow> bool" where
  "valid_chain c \<longleftrightarrow>
     c_Nodes c \<noteq> [] \<and> c_Mode c \<in> {[], ChainModeFirstSuccess, ChainModeFullChain} \<and>
     distinct (map n_Key (c_Nodes c)) \<and> (\<forall>n \<in> set (c_Nodes c). valid_node n) \<and>
     (\<exists>n \<in> set (c_Nodes c). is_provider n) \<and>
     chain_edges c \<subseteq> chain_keys c \<times> chain_keys c \<and>
     (\<forall>e \<in> set (c_Edges c). e_Condition e \<in> edge_conditions) \<and>
     (\<forall>n \<in> set (c_Nodes c). Kind (Some n) = NodeKindJoin \<longrightarrow>
        (\<exists>e \<in> set (c_Edges c). e_ToKey e = n_Key n \<and>
           (c_Mode c = ChainModeFullChain \<longrightarrow> neutral (e_Condition e)))) \<and>
     (\<forall>n \<in> set (c_Nodes c). Kind (Some n) = NodeKindStart \<longrightarrow>
        (\<exists>e \<in> set (c_Edges c). e_FromKey e = n_Key n \<and> neutral (e_Condition e))) \<and>
     acyclic (chain_edges c) \<and>
     (\<exists>s \<in> set (c_Nodes c). is_entry s \<and> (\<forall>n \<in> set (c_Nodes c). is_entry n \<longrightarrow> n = s) \<and>
        (\<forall>k \<in> chain_keys c. (n_Key s, k) \<in> (chain_edges c)\<^sup>*))"

lemma errf_if_OK [simp]: "v_OK (errf_if b e r) \<longleftrightarrow> \<not> b \<and> v_OK r"
  by (simp add: errf_if_def errf_def)

lemma warnf_if_OK [simp]: "v_OK (warnf_if b w r) = v_OK r"
  by (simp add: warnf_if_def warnf_def)

lemma errf_OK [simp]: "\<not> v_OK (errf e r)"
  by (simp add: errf_def)

lemma fold_OK: "(\<And>x r. v_OK (f x r) \<longleftrightarrow> P x \<and> v_OK r) \<Longrightarrow> v_OK (fold f xs r) \<longleftrightarrow> (\<forall>x \<in> set xs. P x) \<and> v_OK r"
  by (induction xs arbitrary: r) auto

lemma fold_warn_OK: "(\<And>x r. v_OK (f x r) = v_OK r) \<Longrightarrow> v_OK (fold f xs r) = v_OK r"
  by (induction xs arbitrary: r) auto

lemma fold_errf_if_OK [simp]:
  "v_OK (fold (\<lambda>x. errf_if (b x) (e x)) xs r) \<longleftrightarrow> (\<forall>x \<in> set xs. \<not> b x) \<and> v_OK r"
  by (rule fold_OK) simp

lemma check_policies_OK:
  "set names = set policy_names \<Longrightarrow> v_OK (check_policies names n r) \<longleftrightarrow>
     \<not> bad_policy (n_OnSuccess n) \<and> \<not> bad_policy (n_OnEmpty n) \<and> \<not> bad_policy (n_OnFail n) \<and> v_OK r"
  by (simp add: check_policies_def policy_names_def policy_of_def)

lemma check_limits_OK:
  "v_OK (check_limits n r) \<longleftrightarrow> (n_TimeoutMS n = 0 \<or> n_TimeoutMS n \<in> {1000..120000}) \<and>
     n_Retries n \<in> {0..10} \<and> 0 \<le> n_RetryDelayMS n \<and> v_OK r"
  by (auto simp: check_limits_def Let_def)

lemma check_provider_OK:
  "v_OK (check_provider known n r) \<longleftrightarrow> (is_provider n \<longrightarrow> TrimSpace (n_ProviderID n) \<noteq> []) \<and> v_OK r"
  by (auto simp: check_provider_def)

lemma check_mode_OK:
  "v_OK (check_mode n r) \<longleftrightarrow> n_Mode n \<in> {[], NodeModeSearch, NodeModeAnswer} \<and>
     \<not> (\<not> is_provider n \<and> EqualFold (TrimSpace (n_Mode n)) NodeModeAnswer) \<and>
     \<not> (is_entry n \<and> n_Mode n = NodeModeAnswer) \<and> v_OK r"
  by (auto simp: check_mode_def is_entry_def Let_def)

lemma check_node_OK:
  assumes "set names = set policy_names" and "TrimSpace (n_Key n) \<noteq> []"
  shows "v_OK (check_node names known dup n r) \<longleftrightarrow> \<not> dup \<and> valid_node n \<and> v_OK r"
  using assms(2) unfolding check_node_def check_policies_OK [OF assms(1)] check_limits_OK
    check_mode_OK check_provider_OK errf_if_OK valid_node_def
  by blast

text \<open>An order of iteration visits each key of the map once.\<close>

definition iteration_order :: "(nat \<Rightarrow> string list \<Rightarrow> string list) \<Rightarrow> bool" where
  "iteration_order ord \<longleftrightarrow> (\<forall>i xs. mset (ord i xs) = mset xs)"

lemma iteration_order_set [simp]: "iteration_order ord \<Longrightarrow> set (ord i xs) = set xs"
  unfolding iteration_order_def by (metis mset_eq_setD)

lemma check_nodes_map:
  "fst (check_nodes ord known i m pc ns r)
     = m ++ index_nodes (filter (\<lambda>n. TrimSpace (n_Key n) \<noteq> []) ns)"
  by (induction ns arbitrary: i m pc r) (simp_all add: index_nodes_map_of)

lemma check_nodes_count:
  "fst (snd (check_nodes ord known i m pc ns r)) = 0 \<longleftrightarrow>
     pc = 0 \<and> (\<forall>n \<in> set ns. TrimSpace (n_Key n) \<noteq> [] \<longrightarrow> \<not> is_provider n)"
  by (induction ns arbitrary: i m pc r) auto

lemma check_nodes_OK:
  assumes ord: "iteration_order ord"
  shows "v_OK (snd (snd (check_nodes ord known i m pc ns r))) \<longleftrightarrow>
     distinct (map n_Key ns) \<and> dom m \<inter> n_Key ` set ns = {} \<and> (\<forall>n \<in> set ns. valid_node n) \<and> v_OK r"
proof (induction ns arbitrary: i m pc r)
  case Nil
  then show ?case by simp
next
  case (Cons n ns)
  show ?case
  proof (cases "TrimSpace (n_Key n) = []")
    case True
    then show ?thesis by (simp add: Cons.IH valid_node_def)
  next
    case False
    note node = check_node_OK [OF iteration_order_set [OF ord] False]
    show ?thesis
      using False by (simp add: Cons.IH node del: fun_upd_apply) blast
  qed
qed

lemma set_edge_pairs: "set (edge_pairs acc es) = (\<lambda>e. (e_FromKey e, e_ToKey e)) ` {e \<in> set es. acc (e_Condition e)}"
  by (auto simp: edge_pairs_def)

lemma set_edge_pairs_all: "set (edge_pairs (\<lambda>_. True) (c_Edges c)) = chain_edges c"
  by (simp add: set_edge_pairs chain_edges_def)

lemma set_entry_keys: "set (entry_keys ns) = n_Key ` {n \<in> set ns. is_entry n}"
  by (auto simp: entry_keys_def sortedKeys_def)

lemma distinct_entry_keys: "distinct (entry_keys ns)"
  by (simp add: entry_keys_def sortedKeys_def)

lemma check_edge_OK:
  "v_OK (check_edge nodes e r) \<longleftrightarrow> (e_FromKey e \<in> dom nodes \<and> e_ToKey e \<in> dom nodes \<and>
      e_Condition e \<in> edge_conditions) \<and> v_OK r"
  by (auto simp: check_edge_def)

lemma check_join_OK:
  "v_OK (check_join es n r) \<longleftrightarrow>
     (Kind (Some n) = NodeKindJoin \<longrightarrow> (\<exists>e \<in> set es. e_ToKey e = n_Key n)) \<and> v_OK r"
  by (auto simp: check_join_def incoming_def filter_empty_conv)

lemma check_neutral_OK:
  "v_OK (check_neutral mode es n r) \<longleftrightarrow>
     ((Kind (Some n) = NodeKindStart \<longrightarrow> (\<exists>e \<in> set es. e_FromKey e = n_Key n \<and> neutral (e_Condition e))) \<and>
      (Kind (Some n) = NodeKindJoin \<and> mode = ChainModeFullChain \<longrightarrow>
         (\<exists>e \<in> set es. e_ToKey e = n_Key n \<and> neutral (e_Condition e)))) \<and> v_OK r"
  by (auto simp: check_neutral_def neutralSuccessorCount_def neutralIncomingCount_def filter_empty_conv)

lemma check_reach_OK:
  assumes "iteration_order ord"
  shows "v_OK (check_reach ord mx mode c nodes keys start r) \<longleftrightarrow>
    (\<forall>k \<in> set keys. (start, k) \<in> (chain_edges c)\<^sup>*) \<and> v_OK r"
  using assms
  by (auto simp: check_reach_def Let_def fold_warn_OK reachableFrom_iff set_edge_pairs_all
      split: option.splits)

lemma distinct_single: "distinct xs \<Longrightarrow> xs = [k] \<longleftrightarrow> set xs = {k}"
  by (cases xs rule: remdups_adj.cases) (auto simp: subset_singleton_iff)

lemma entry_keys_single:
  assumes "distinct (map n_Key ns)"
  shows "entry_keys ns = [k] \<longleftrightarrow> (\<exists>s \<in> set ns. n_Key s = k \<and> is_entry s \<and> (\<forall>n \<in> set ns. is_entry n \<longrightarrow> n = s))"
    (is "_ \<longleftrightarrow> ?R")
proof -
  have inj: "n = s" if "n \<in> set ns" "s \<in> set ns" "n_Key n = n_Key s" for n s
    using assms that by (auto simp: distinct_map inj_on_def)
  have "n_Key ` {n \<in> set ns. is_entry n} = {k} \<longleftrightarrow> ?R" (is "?L \<longleftrightarrow> _")
  proof
    assume L: ?L
    then obtain s where s: "s \<in> set ns" "is_entry s" "n_Key s = k" by blast
    moreover have "n = s" if "n \<in> set ns" "is_entry n" for n
      using L that s inj by (metis (mono_tags, lifting) image_eqI mem_Collect_eq singletonD)
    ultimately show ?R by blast
  qed auto
  then show ?thesis
    by (simp add: distinct_single [OF distinct_entry_keys] set_entry_keys)
qed

lemma starts_OK:
  "v_OK (errf_if (length st > 1) e2 (errf_if (st = []) e1 r)) \<longleftrightarrow> (\<exists>k. st = [k]) \<and> v_OK r"
  by (cases st) auto

lemma edges_in_chain:
  assumes "set keys = chain_keys c" "chain_edges c \<subseteq> chain_keys c \<times> chain_keys c"
  shows "edges_in keys (edge_pairs (\<lambda>_. True) (c_Edges c)) = chain_edges c"
  using assms by (auto simp: edges_in_def set_edge_pairs_all)

lemma findCycle_OK:
  assumes "set keys = chain_keys c" "chain_edges c \<subseteq> chain_keys c \<times> chain_keys c"
  shows "v_OK (case findCycle keys (c_Edges c) of Some cyc \<Rightarrow> errf (HasCycle cyc) r | None \<Rightarrow> r) \<longleftrightarrow>
    acyclic (chain_edges c) \<and> v_OK r"
  using findCycle_None_iff [of keys "c_Edges c"] edges_in_chain [OF assms]
  by (auto split: option.splits)

definition nodes_ok :: "Chain \<Rightarrow> bool" where
  "nodes_ok c \<longleftrightarrow> c_Nodes c \<noteq> [] \<and> c_Mode c \<in> {[], ChainModeFirstSuccess, ChainModeFullChain} \<and>
     distinct (map n_Key (c_Nodes c)) \<and> (\<forall>n \<in> set (c_Nodes c). valid_node n) \<and>
     (\<exists>n \<in> set (c_Nodes c). is_provider n) \<and>
     chain_edges c \<subseteq> chain_keys c \<times> chain_keys c \<and>
     (\<forall>e \<in> set (c_Edges c). e_Condition e \<in> edge_conditions)"

lemma check_edges_OK:
  assumes "dom nodes = chain_keys c"
  shows "v_OK (fold (check_edge nodes) (c_Edges c) r) \<longleftrightarrow>
    chain_edges c \<subseteq> chain_keys c \<times> chain_keys c \<and> (\<forall>e \<in> set (c_Edges c). e_Condition e \<in> edge_conditions) \<and> v_OK r"
  unfolding fold_OK [OF check_edge_OK] assms by (auto simp: chain_edges_def)

lemma valid_nodes_keys:
  "\<forall>n \<in> set ns. valid_node n \<Longrightarrow> filter (\<lambda>n. TrimSpace (n_Key n) \<noteq> []) ns = ns"
  by (simp add: valid_node_def)

lemma check_nodes_valid:
  assumes "check_nodes ord known 0 Map.empty 0 (c_Nodes c) r = (nodes, pc, r2)" "iteration_order ord"
  shows "v_OK r2 \<longleftrightarrow> distinct (map n_Key (c_Nodes c)) \<and> (\<forall>n \<in> set (c_Nodes c). valid_node n) \<and> v_OK r"
    and "v_OK r2 \<Longrightarrow> dom nodes = chain_keys c"
    and "v_OK r2 \<Longrightarrow> pc = 0 \<longleftrightarrow> \<not> (\<exists>n \<in> set (c_Nodes c). is_provider n)"
proof -
  show OK: "v_OK r2 \<longleftrightarrow> distinct (map n_Key (c_Nodes c)) \<and> (\<forall>n \<in> set (c_Nodes c). valid_node n) \<and> v_OK r"
    using check_nodes_OK [OF assms(2), of known 0 Map.empty 0 "c_Nodes c" r] assms(1) by simp
  show "dom nodes = chain_keys c" if "v_OK r2"
    using check_nodes_map [of ord known 0 Map.empty 0 "c_Nodes c" r] assms(1) that
    by (simp add: OK valid_nodes_keys chain_keys_def)
  show "pc = 0 \<longleftrightarrow> \<not> (\<exists>n \<in> set (c_Nodes c). is_provider n)" if "v_OK r2"
    using check_nodes_count [of ord known 0 Map.empty 0 "c_Nodes c" r] assms(1) that
    by (auto simp: OK valid_node_def)
qed

definition joins_ok :: "Chain \<Rightarrow> bool" where
  "joins_ok c \<longleftrightarrow> (\<forall>n \<in> set (c_Nodes c).
     (Kind (Some n) = NodeKindJoin \<longrightarrow> (\<exists>e \<in> set (c_Edges c). e_ToKey e = n_Key n)) \<and>
     (Kind (Some n) = NodeKindStart \<longrightarrow> (\<exists>e \<in> set (c_Edges c). e_FromKey e = n_Key n \<and> neutral (e_Condition e))) \<and>
     (Kind (Some n) = NodeKindJoin \<and> c_Mode c = ChainModeFullChain \<longrightarrow>
        (\<exists>e \<in> set (c_Edges c). e_ToKey e = n_Key n \<and> neutral (e_Condition e))))"

lemma valid_chain_split:
  "valid_chain c \<longleftrightarrow> nodes_ok c \<and> joins_ok c \<and> acyclic (chain_edges c) \<and>
     (\<exists>k. entry_keys (c_Nodes c) = [k] \<and> (\<forall>x \<in> chain_keys c. (k, x) \<in> (chain_edges c)\<^sup>*))"
proof (cases "nodes_ok c")
  case True
  then have d: "distinct (map n_Key (c_Nodes c))" by (simp add: nodes_ok_def)
  have "joins_ok c \<longleftrightarrow> (\<forall>n \<in> set (c_Nodes c). Kind (Some n) = NodeKindJoin \<longrightarrow>
        (\<exists>e \<in> set (c_Edges c). e_ToKey e = n_Key n \<and>
           (c_Mode c = ChainModeFullChain \<longrightarrow> neutral (e_Condition e)))) \<and>
     (\<forall>n \<in> set (c_Nodes c). Kind (Some n) = NodeKindStart \<longrightarrow>
        (\<exists>e \<in> set (c_Edges c). e_FromKey e = n_Key n \<and> neutral (e_Condition e)))"
    unfolding joins_ok_def by blast
  then show ?thesis
    using True unfolding valid_chain_def nodes_ok_def entry_keys_single [OF d] by blast
next
  case False
  then show ?thesis unfolding valid_chain_def nodes_ok_def by blast
qed

abbreviation empty_result :: ValidationResult where
  "empty_result \<equiv> \<lparr>v_OK = True, v_Errors = [], v_Warnings = []\<rparr>"

definition chain_mode :: "Chain \<Rightarrow> string" where
  "chain_mode c = (if c_Mode c = [] then ChainModeFirstSuccess else c_Mode c)"

definition check_rest ::
  "(nat \<Rightarrow> string list \<Rightarrow> string list) \<Rightarrow> int option \<Rightarrow> Chain \<Rightarrow> (string \<rightharpoonup> ChainNode) \<Rightarrow> string list
     \<Rightarrow> ValidationResult \<Rightarrow> ValidationResult" where
  "check_rest ord mx c nodes keys r4 =
     (let r5 = fold (check_join (c_Edges c)) (c_Nodes c) r4;
          starts = entry_keys (c_Nodes c);
          r6 = errf_if (starts = []) NoStart r5;
          r7 = errf_if (length starts > 1) (ManyStarts (length starts) starts) r6;
          r8 = (if length starts = 1 then fold (check_neutral (chain_mode c) (c_Edges c)) (c_Nodes c) r7 else r7);
          r9 = (case findCycle (ord 0 keys) (c_Edges c) of
                  Some cyc \<Rightarrow> errf (HasCycle cyc) r8 | None \<Rightarrow> r8)
      in if length starts = 1
         then check_reach ord mx (chain_mode c) c nodes keys (hd starts) r9
         else r9)"

lemma ValidateChain_rest:
  assumes "check_nodes ord known 0 Map.empty 0 (c_Nodes c)
      (errf_if (chain_mode c \<notin> {ChainModeFirstSuccess, ChainModeFullChain}) (BadChainMode (c_Mode c)) empty_result)
    = (nodes, pc, r2)" and "c_Nodes c \<noteq> []"
  shows "ValidateChain ord (Some c) known mx =
    check_rest ord mx c nodes (remdups (map n_Key (filter (\<lambda>n. TrimSpace (n_Key n) \<noteq> []) (c_Nodes c))))
      (fold (check_edge nodes) (c_Edges c) (errf_if (pc = 0) NoProviderBlock r2))"
  using assms unfolding ValidateChain_def check_rest_def chain_mode_def Let_def by simp

lemma check_rest_mono:
  assumes "iteration_order ord" "v_OK (check_rest ord mx c nodes keys r4)" shows "v_OK r4"
  using assms
  by (auto simp: check_rest_def Let_def check_reach_OK fold_OK [OF check_join_OK]
      fold_OK [OF check_neutral_OK] split: if_splits option.splits)

lemma check_rest_OK:
  assumes ord: "iteration_order ord" and r4: "v_OK r4"
    and keys: "set keys = chain_keys c" and cl: "chain_edges c \<subseteq> chain_keys c \<times> chain_keys c"
  shows "v_OK (check_rest ord mx c nodes keys r4) \<longleftrightarrow> joins_ok c \<and> acyclic (chain_edges c) \<and>
     (\<exists>k. entry_keys (c_Nodes c) = [k] \<and> (\<forall>x \<in> chain_keys c. (k, x) \<in> (chain_edges c)\<^sup>*))"
proof (cases "\<exists>k. entry_keys (c_Nodes c) = [k]")
  case True
  then obtain k where k: "entry_keys (c_Nodes c) = [k]" by blast
  have "set (ord 0 keys) = chain_keys c" using ord keys by simp
  note cyc = findCycle_OK [OF this cl]
  have "chain_mode c = ChainModeFullChain \<longleftrightarrow> c_Mode c = ChainModeFullChain"
    by (simp add: chain_mode_def)
  then show ?thesis
    using r4 by (auto simp: check_rest_def Let_def k check_reach_OK [OF ord] keys cyc joins_ok_def
        fold_OK [OF check_join_OK] fold_OK [OF check_neutral_OK])
next
  case False
  then show ?thesis
    by (cases "entry_keys (c_Nodes c)" rule: remdups_adj.cases)
      (auto simp: check_rest_def Let_def split: option.splits)
qed

lemma ValidateChain_OK:
  assumes ord: "iteration_order ord"
  shows "v_OK (ValidateChain ord (Some c) known mx) \<longleftrightarrow> valid_chain c"
proof (cases "c_Nodes c = []")
  case True
  then show ?thesis by (simp add: ValidateChain_def valid_chain_def)
next
  case ne: False
  let ?r1 = "errf_if (chain_mode c \<notin> {ChainModeFirstSuccess, ChainModeFullChain}) (BadChainMode (c_Mode c)) empty_result"
  let ?keys = "remdups (map n_Key (filter (\<lambda>n. TrimSpace (n_Key n) \<noteq> []) (c_Nodes c)))"
  obtain nodes pc r2 where cn: "check_nodes ord known 0 Map.empty 0 (c_Nodes c) ?r1 = (nodes, pc, r2)"
    using prod_cases3 by blast
  note nodes = check_nodes_valid [OF cn ord] and rest = ValidateChain_rest [OF cn ne]
  let ?r4 = "fold (check_edge nodes) (c_Edges c) (errf_if (pc = 0) NoProviderBlock r2)"
  have mode: "v_OK ?r1 \<longleftrightarrow> c_Mode c \<in> {[], ChainModeFirstSuccess, ChainModeFullChain}"
    by (auto simp: chain_mode_def)
  have r2D: "v_OK ?r4 \<Longrightarrow> v_OK r2" by (simp add: fold_OK [OF check_edge_OK])
  have r4: "v_OK ?r4 \<longleftrightarrow> nodes_ok c"
  proof (cases "v_OK r2")
    case True
    then show ?thesis
      using ne nodes(1) mode by (auto simp: check_edges_OK [OF nodes(2)] nodes(3) nodes_ok_def)
  next
    case False
    then show ?thesis using r2D nodes(1) mode by (auto simp: nodes_ok_def)
  qed
  show ?thesis
  proof (cases "nodes_ok c")
    case True
    then have "set ?keys = chain_keys c" "chain_edges c \<subseteq> chain_keys c \<times> chain_keys c"
      by (simp_all add: nodes_ok_def valid_nodes_keys chain_keys_def)
    with True r4 show ?thesis unfolding rest valid_chain_split by (simp add: check_rest_OK [OF ord])
  next
    case False
    with r4 show ?thesis unfolding rest valid_chain_split using check_rest_mono [OF ord] by blast
  qed
qed

subsection \<open>Validated chains as plans\<close>

lemma is_entry_index:
  assumes "distinct (map n_Key ns)" "n \<in> set ns"
  shows "is_entry n \<longleftrightarrow> start_block (index_nodes ns) (n_Key n) \<or> legacy_start (index_nodes ns) (n_Key n)"
  using index_nodes_distinct [OF assms]
  by (auto simp: is_entry_def start_block_def legacy_start_def)

lemma valid_chain_pick:
  assumes d: "distinct (map n_Key (c_Nodes c))" and ne: "c_Nodes c \<noteq> []"
    and s: "s \<in> set (c_Nodes c)" "is_entry s" and u: "\<forall>n \<in> set (c_Nodes c). is_entry n \<longrightarrow> n = s"
  shows "\<exists>p. BuildPlan (Some c) = Inr p \<and> pl_start p = s"
proof -
  let ?m = "index_nodes (c_Nodes c)" and ?o = "map n_Key (c_Nodes c)"
  let ?pick = "case find (start_block ?m) ?o of Some k \<Rightarrow> Some k | None \<Rightarrow> find (legacy_start ?m) ?o"
  have eq: "k = n_Key s" if "k \<in> set ?o" "start_block ?m k \<or> legacy_start ?m k" for k
    using that u is_entry_index [OF d] by auto
  have "?pick = Some (n_Key s)"
  proof (cases "find (start_block ?m) ?o")
    case (Some k)
    then show ?thesis using eq find_SomeD by fastforce
  next
    case None
    then have "\<not> start_block ?m (n_Key s)" using find_NoneD s(1) by fastforce
    then have "legacy_start ?m (n_Key s)" using is_entry_index [OF d s(1)] s(2) by blast
    then obtain k where "find (legacy_start ?m) ?o = Some k"
      using s(1) find_NoneD [of "legacy_start ?m" ?o "n_Key s"] by fastforce
    then show ?thesis using None eq find_SomeD by fastforce
  qed
  moreover have "?m (n_Key s) = Some s" using index_nodes_distinct [OF d s(1)] .
  ultimately show ?thesis using ne by (simp add: BuildPlan_def Let_def)
qed

lemma plan_edge_chain:
  "plan_wf p \<Longrightarrow> plan_edge p = chain_edges (pl_chain p) \<inter> chain_keys (pl_chain p) \<times> chain_keys (pl_chain p)"
proof -
  assume "plan_wf p"
  then have "dom (pl_nodes p) = chain_keys (pl_chain p)" by (simp add: plan_wf_def chain_keys_def)
  then show ?thesis by (auto simp: plan_edge_def chain_edges_def)
qed

lemma valid_chain_BuildPlan:
  assumes "valid_chain c"
  obtains p where "BuildPlan (Some c) = Inr p" "plan_wf p" "pl_chain p = c"
    "is_entry (pl_start p)" "plan_edge p = chain_edges c" "acyclic (plan_edge p)"
    "\<forall>n \<in> set (c_Nodes c). is_entry n \<longrightarrow> n = pl_start p"
    "\<forall>k \<in> chain_keys c. (n_Key (pl_start p), k) \<in> (plan_edge p)\<^sup>*"
proof -
  obtain s where s: "s \<in> set (c_Nodes c)" "is_entry s" "\<forall>n \<in> set (c_Nodes c). is_entry n \<longrightarrow> n = s"
      "\<forall>k \<in> chain_keys c. (n_Key s, k) \<in> (chain_edges c)\<^sup>*"
    using assms unfolding valid_chain_def by blast
  moreover have "distinct (map n_Key (c_Nodes c))" "c_Nodes c \<noteq> []"
      "chain_edges c \<subseteq> chain_keys c \<times> chain_keys c" "acyclic (chain_edges c)"
    using assms unfolding valid_chain_def by blast+
  ultimately obtain p where p: "BuildPlan (Some c) = Inr p" "pl_start p = s"
    using valid_chain_pick by blast
  have "plan_edge p = chain_edges c"
    using plan_edge_chain [OF BuildPlan_Inr(1) [OF p(1)]] BuildPlan_Inr(2) [OF p(1)]
      \<open>chain_edges c \<subseteq> _\<close> by auto
  then show ?thesis
    using p(2) s(2-4) \<open>acyclic (chain_edges c)\<close>
    by (intro that [OF p(1) BuildPlan_Inr [OF p(1)]]) simp_all
qed

end
