(* ===== verification/Sql_Chains.thy ===== *)
theory Sql_Chains
  imports Accounts Validate "HOL-Library.Multiset"
begin

text \<open>
  The chain tables of \<open>internal/store/sqlstore/sqlstore.go\<close>: a chain is a row of \<open>chains\<close>
  with its blocks and edges in two more tables. \<open>SaveChain\<close> replaces the graph in one
  transaction; what is read back is the chain in a normal form, which is valid when the
  saved one was.
\<close>

subsection \<open>Reading\<close>

text \<open>Blocks come in the order of their keys, edges as they were inserted.\<close>

definition load_nodes :: "database \<Rightarrow> string \<Rightarrow> ChainNode list" where
  "load_nodes db i = order_by n_Key (filter (\<lambda>n. n_ChainID n = i) (t_nodes db))"

definition load_edges :: "database \<Rightarrow> string \<Rightarrow> ChainEdge list" where
  "load_edges db i = filter (\<lambda>e. e_ChainID e = i) (t_edges db)"

definition loadChainGraph :: "database \<Rightarrow> chain_row \<Rightarrow> Chain" where
  "loadChainGraph db r =
     \<lparr>c_ID = cr_ID r, c_Name = cr_Name r, c_Active = cr_Active r, c_Mode = cr_Mode r, c_Version = cr_Version r,
      c_Nodes = load_nodes db (cr_ID r), c_Edges = load_edges db (cr_ID r),
      c_CreatedAt = cr_CreatedAt r, c_UpdatedAt = cr_UpdatedAt r\<rparr>"

definition ListChains :: "database \<Rightarrow> store_error + Chain list" where
  "ListChains db = run_query (map (loadChainGraph db) (order_by cr_CreatedAt (t_chains db))) db"

definition GetChain :: "string \<Rightarrow> database \<Rightarrow> store_error + Chain" where
  "GetChain i db = map_sum id (loadChainGraph db) (run_row (\<lambda>r. cr_ID r = i) (t_chains db) db)"

definition GetActiveChain :: "database \<Rightarrow> store_error + Chain" where
  "GetActiveChain db =
     map_sum id (loadChainGraph db) (run_row cr_Active (order_by_desc cr_UpdatedAt (t_chains db)) db)"

subsection \<open>Writing\<close>

definition nodeMode :: "string \<Rightarrow> string" where
  "nodeMode m = (if EqualFold (TrimSpace m) NodeModeAnswer then NodeModeAnswer else NodeModeSearch)"

definition nodeKind :: "string \<Rightarrow> string" where
  "nodeKind k0 =
     (let k = ToLower (TrimSpace k0) in
      if k = NodeKindStart then NodeKindStart
      else if k = NodeKindJoin then NodeKindJoin else NodeKindProvider)"

text \<open>The block as it is left in memory, and as it is stored.\<close>

definition prepare_node :: "string \<Rightarrow> string \<Rightarrow> ChainNode \<Rightarrow> ChainNode" where
  "prepare_node cid new n =
     n\<lparr>n_ChainID := cid, n_ID := (if n_ID n = [] then new else n_ID n),
       n_DelayPolicy := (if n_DelayPolicy n = [] then ''linear'' else n_DelayPolicy n)\<rparr>"

definition node_row :: "ChainNode \<Rightarrow> ChainNode" where
  "node_row n = n\<lparr>n_Mode := nodeMode (n_Mode n), n_Kind := nodeKind (n_Kind n)\<rparr>"

definition prepare_edge :: "string \<Rightarrow> string \<Rightarrow> ChainEdge \<Rightarrow> ChainEdge" where
  "prepare_edge cid new e =
     e\<lparr>e_ChainID := cid, e_ID := (if e_ID e = [] then new else e_ID e),
       e_Condition := (if e_Condition e = [] then ''next'' else e_Condition e)\<rparr>"

text \<open>
  The inserts, in order; the first that hits an existing id fails the transaction. \<open>ids\<close>
  supplies the fresh identifiers: the one at \<open>i\<close> is for the i-th row of the call.
\<close>

fun insert_nodes :: "string \<Rightarrow> (nat \<Rightarrow> string) \<Rightarrow> nat \<Rightarrow> ChainNode list \<Rightarrow> ChainNode list
     \<Rightarrow> (ChainNode list \<times> ChainNode list) option" where
  "insert_nodes cid ids i [] t = Some ([], t)"
| "insert_nodes cid ids i (n # ns) t =
     (let n' = prepare_node cid (ids i) n in
      if has n_ID (n_ID n') t then None
      else map_option (\<lambda>(ms, t'). (n' # ms, t')) (insert_nodes cid ids (Suc i) ns (t @ [node_row n'])))"

fun insert_edges :: "string \<Rightarrow> (nat \<Rightarrow> string) \<Rightarrow> nat \<Rightarrow> ChainEdge list \<Rightarrow> ChainEdge list
     \<Rightarrow> (ChainEdge list \<times> ChainEdge list) option" where
  "insert_edges cid ids i [] t = Some ([], t)"
| "insert_edges cid ids i (e # es) t =
     (let e' = prepare_edge cid (ids i) e in
      if has e_ID (e_ID e') t then None
      else map_option (\<lambda>(ms, t'). (e' # ms, t')) (insert_edges cid ids (Suc i) es (t @ [e'])))"

definition row_of :: "Chain \<Rightarrow> chain_row" where
  "row_of c = \<lparr>cr_ID = c_ID c, cr_Name = c_Name c, cr_Active = c_Active c, cr_Mode = c_Mode c,
     cr_Version = c_Version c, cr_CreatedAt = c_CreatedAt c, cr_UpdatedAt = c_UpdatedAt c\<rparr>"

definition chain_modes :: "string set" where
  "chain_modes = {ChainModeFirstSuccess, ChainModeFullChain}"

definition save_row :: "Chain \<Rightarrow> chain_row list \<Rightarrow> Chain \<times> chain_row list" where
  "save_row c t =
     (if has cr_ID (c_ID c) t
      then (let c' = c\<lparr>c_Version := c_Version c + 1\<rparr>
            in (c', update_where (\<lambda>r. cr_ID r = c_ID c)
                  (\<lambda>r. r\<lparr>cr_Name := c_Name c', cr_Active := c_Active c', cr_Mode := c_Mode c',
                         cr_Version := c_Version c', cr_UpdatedAt := c_UpdatedAt c'\<rparr>) t))
      else (c, t @ [row_of c]))"

text \<open>The chain the caller holds afterwards, or the error; a failed transaction changes nothing.\<close>

definition SaveChain :: "string \<Rightarrow> (nat \<Rightarrow> string) \<Rightarrow> Chain \<Rightarrow> database \<Rightarrow> (store_error + Chain) \<times> database" where
  "SaveChain now ids c0 db =
     (case t_down db of Some e \<Rightarrow> (Inl (StoreFailure e), db)
      | None \<Rightarrow>
        (let c1 = c0\<lparr>c_CreatedAt := (if c_CreatedAt c0 = [] then now else c_CreatedAt c0), c_UpdatedAt := now,
                     c_Mode := (if c_Mode c0 = [] then ChainModeFirstSuccess else c_Mode c0)\<rparr>;
             (c2, chains) = save_row c1 (t_chains db);
             ns0 = delete_where (\<lambda>n. n_ChainID n = c_ID c2) (t_nodes db);
             es0 = delete_where (\<lambda>e. e_ChainID e = c_ID c2) (t_edges db)
         in if c_Mode c2 \<notin> chain_modes then (Inl violation, db)
            else (case insert_nodes (c_ID c2) ids 0 (c_Nodes c2) ns0 of
                    None \<Rightarrow> (Inl violation, db)
                  | Some (ns, t_ns) \<Rightarrow>
                      (case insert_edges (c_ID c2) ids (length ns) (c_Edges c2) es0 of
                         None \<Rightarrow> (Inl violation, db)
                       | Some (es, t_es) \<Rightarrow>
                           (Inr (c2\<lparr>c_Nodes := ns, c_Edges := es\<rparr>),
                            db\<lparr>t_chains := chains, t_nodes := t_ns, t_edges := t_es\<rparr>)))))"

text \<open>\<open>ON DELETE CASCADE\<close> on the graph, \<open>ON DELETE SET NULL\<close> on the keys bound to the chain.\<close>

definition DeleteChain :: "string \<Rightarrow> database \<Rightarrow> store_error option \<times> database" where
  "DeleteChain i db =
     run_exec True
       (db\<lparr>t_chains := delete_where (\<lambda>r. cr_ID r = i) (t_chains db),
           t_nodes := delete_where (\<lambda>n. n_ChainID n = i) (t_nodes db),
           t_edges := delete_where (\<lambda>e. e_ChainID e = i) (t_edges db),
           t_keys := update_where (\<lambda>k. k_ChainID k = i) (\<lambda>k. k\<lparr>k_ChainID := []\<rparr>) (t_keys db)\<rparr>) db"

definition ActivateChain :: "string \<Rightarrow> string \<Rightarrow> database \<Rightarrow> store_error option \<times> database" where
  "ActivateChain now i db =
     (case t_down db of Some e \<Rightarrow> (Some (StoreFailure e), db)
      | None \<Rightarrow>
          if \<not> has cr_ID i (t_chains db) then (Some ErrNotFound, db)
          else (None,
            db\<lparr>t_chains := update_where (\<lambda>r. cr_ID r = i) (\<lambda>r. r\<lparr>cr_Active := True, cr_UpdatedAt := now\<rparr>)
                 (update_where cr_Active (\<lambda>r. r\<lparr>cr_Active := False\<rparr>) (t_chains db))\<rparr>))"

subsection \<open>The invariant of the chain tables\<close>

definition chains_ok :: "database \<Rightarrow> bool" where
  "chains_ok db \<longleftrightarrow>
     distinct (map cr_ID (t_chains db)) \<and> distinct (map n_ID (t_nodes db)) \<and> distinct (map e_ID (t_edges db)) \<and>
     n_ChainID ` set (t_nodes db) \<union> e_ChainID ` set (t_edges db) \<subseteq> cr_ID ` set (t_chains db) \<and>
     cr_Mode ` set (t_chains db) \<subseteq> chain_modes"

definition actives :: "database \<Rightarrow> chain_row list" where
  "actives db = filter cr_Active (t_chains db)"

lemma insert_nodes_Some:
  "insert_nodes cid ids i ns t = Some (ms, t') \<Longrightarrow>
     t' = t @ map node_row ms \<and> list_all2 (\<lambda>n m. \<exists>new. m = prepare_node cid new n) ns ms \<and>
     (distinct (map n_ID t) \<longrightarrow> distinct (map n_ID t'))"
proof (induction ns arbitrary: i t ms)
  case (Cons n ns)
  define n' where "n' = prepare_node cid (ids i) n"
  obtain ms' where r: "insert_nodes cid ids (Suc i) ns (t @ [node_row n']) = Some (ms', t')" "ms = n' # ms'"
      "n_ID n' \<notin> n_ID ` set t"
    using Cons.prems by (auto simp: Let_def n'_def split: if_splits)
  note IH = Cons.IH [OF r(1)]
  show ?case
  proof (intro conjI impI)
    show "t' = t @ map node_row ms" using IH r(2) by simp
    show "list_all2 (\<lambda>n m. \<exists>new. m = prepare_node cid new n) (n # ns) ms" using IH r(2) n'_def by auto
    assume "distinct (map n_ID t)"
    then have "distinct (map n_ID (t @ [node_row n']))" using r(3) by (simp add: node_row_def)
    then show "distinct (map n_ID t')" using IH by blast
  qed
qed auto

lemma insert_edges_Some:
  "insert_edges cid ids i es t = Some (ms, t') \<Longrightarrow>
     t' = t @ ms \<and> list_all2 (\<lambda>e m. \<exists>new. m = prepare_edge cid new e) es ms \<and>
     (distinct (map e_ID t) \<longrightarrow> distinct (map e_ID t'))"
proof (induction es arbitrary: i t ms)
  case (Cons e es)
  define e' where "e' = prepare_edge cid (ids i) e"
  obtain ms' where r: "insert_edges cid ids (Suc i) es (t @ [e']) = Some (ms', t')" "ms = e' # ms'"
      "e_ID e' \<notin> e_ID ` set t"
    using Cons.prems by (auto simp: Let_def e'_def split: if_splits)
  note IH = Cons.IH [OF r(1)]
  show ?case
  proof (intro conjI impI)
    show "t' = t @ ms" using IH r(2) by simp
    show "list_all2 (\<lambda>e m. \<exists>new. m = prepare_edge cid new e) (e # es) ms" using IH r(2) e'_def by auto
    assume "distinct (map e_ID t)"
    then have "distinct (map e_ID (t @ [e']))" using r(3) by simp
    then show "distinct (map e_ID t')" using IH by blast
  qed
qed auto

lemma prepare_node_ChainID [simp]: "n_ChainID (prepare_node cid new n) = cid" "n_ChainID (node_row n) = n_ChainID n"
  by (simp_all add: prepare_node_def node_row_def)

lemma prepare_edge_ChainID [simp]: "e_ChainID (prepare_edge cid new e) = cid"
  by (simp add: prepare_edge_def)

text \<open>What a successful save leaves in the tables.\<close>

lemma SaveChain_Inr:
  assumes "SaveChain now ids c0 db = (Inr c, db')"
  obtains chains ns es where
    "db' = db\<lparr>t_chains := chains, t_nodes := delete_where (\<lambda>n. n_ChainID n = c_ID c0) (t_nodes db) @ map node_row ns,
              t_edges := delete_where (\<lambda>e. e_ChainID e = c_ID c0) (t_edges db) @ es\<rparr>"
    "list_all2 (\<lambda>n m. \<exists>new. m = prepare_node (c_ID c0) new n) (c_Nodes c0) ns"
    "list_all2 (\<lambda>e m. \<exists>new. m = prepare_edge (c_ID c0) new e) (c_Edges c0) es"
    "c_Nodes c = ns" "c_Edges c = es" "c_ID c = c_ID c0" "c_Name c = c_Name c0" "c_Active c = c_Active c0"
    "c_Mode c = chain_mode c0" "c_Mode c \<in> chain_modes" "c_UpdatedAt c = now" "t_down db = None"
    "if has cr_ID (c_ID c0) (t_chains db)
     then c_Version c = c_Version c0 + 1 \<and> chains = update_where (\<lambda>r. cr_ID r = c_ID c0)
       (\<lambda>r. r\<lparr>cr_Name := c_Name c, cr_Active := c_Active c, cr_Mode := c_Mode c, cr_Version := c_Version c,
             cr_UpdatedAt := now\<rparr>) (t_chains db)
     else c_Version c = c_Version c0 \<and> chains = t_chains db @ [row_of c]"
    "distinct (map n_ID (t_nodes db)) \<longrightarrow> distinct (map n_ID (t_nodes db'))"
    "distinct (map e_ID (t_edges db)) \<longrightarrow> distinct (map e_ID (t_edges db'))"
proof -
  define c1 where "c1 = c0\<lparr>c_CreatedAt := (if c_CreatedAt c0 = [] then now else c_CreatedAt c0), c_UpdatedAt := now,
                     c_Mode := (if c_Mode c0 = [] then ChainModeFirstSuccess else c_Mode c0)\<rparr>"
  have f1: "c_ID c1 = c_ID c0" "c_Version c1 = c_Version c0" "c_UpdatedAt c1 = now" by (simp_all add: c1_def)
  obtain c2 chains where sr: "save_row c1 (t_chains db) = (c2, chains)" by fastforce
  then have c2: "c_ID c2 = c_ID c0" "c_Nodes c2 = c_Nodes c0" "c_Edges c2 = c_Edges c0" "c_Name c2 = c_Name c0"
      "c_Active c2 = c_Active c0" "c_Mode c2 = chain_mode c0" "c_UpdatedAt c2 = now"
    by (auto simp: save_row_def Let_def c1_def chain_mode_def split: if_splits)
  obtain ns tn es te where r: "t_down db = None" "c_Mode c2 \<in> chain_modes"
      "insert_nodes (c_ID c0) ids 0 (c_Nodes c0) (delete_where (\<lambda>n. n_ChainID n = c_ID c0) (t_nodes db)) = Some (ns, tn)"
      "insert_edges (c_ID c0) ids (length ns) (c_Edges c0) (delete_where (\<lambda>e. e_ChainID e = c_ID c0) (t_edges db)) = Some (es, te)"
      "c = c2\<lparr>c_Nodes := ns, c_Edges := es\<rparr>" "db' = db\<lparr>t_chains := chains, t_nodes := tn, t_edges := te\<rparr>"
    using assms c2 unfolding SaveChain_def Let_def c1_def [symmetric] sr
    by (auto simp: split: option.splits if_splits)
  note N = insert_nodes_Some [OF r(3)] and E = insert_edges_Some [OF r(4)]
  have dn: "distinct (map n_ID (t_nodes db)) \<longrightarrow> distinct (map n_ID (t_nodes db'))"
  proof
    assume "distinct (map n_ID (t_nodes db))"
    then have "distinct (map n_ID tn)" using N distinct_delete_where by blast
    then show "distinct (map n_ID (t_nodes db'))" by (simp add: r(6))
  qed
  have de: "distinct (map e_ID (t_edges db)) \<longrightarrow> distinct (map e_ID (t_edges db'))"
  proof
    assume "distinct (map e_ID (t_edges db))"
    then have "distinct (map e_ID te)" using E distinct_delete_where by blast
    then show "distinct (map e_ID (t_edges db'))" by (simp add: r(6))
  qed
  show thesis
  proof (rule that [where chains = chains and ns = ns and es = es])
    show "if has cr_ID (c_ID c0) (t_chains db)
     then c_Version c = c_Version c0 + 1 \<and> chains = update_where (\<lambda>r. cr_ID r = c_ID c0)
       (\<lambda>r. r\<lparr>cr_Name := c_Name c, cr_Active := c_Active c, cr_Mode := c_Mode c, cr_Version := c_Version c,
             cr_UpdatedAt := now\<rparr>) (t_chains db)
     else c_Version c = c_Version c0 \<and> chains = t_chains db @ [row_of c]"
    proof (cases "has cr_ID (c_ID c0) (t_chains db)")
      case True
      then have c: "c2 = c1\<lparr>c_Version := c_Version c1 + 1\<rparr>" "chains = update_where (\<lambda>r. cr_ID r = c_ID c1)
          (\<lambda>r. r\<lparr>cr_Name := c_Name c2, cr_Active := c_Active c2, cr_Mode := c_Mode c2,
               cr_Version := c_Version c2, cr_UpdatedAt := c_UpdatedAt c2\<rparr>) (t_chains db)"
        using sr f1 by (auto simp: save_row_def Let_def)
      have "c_Version c = c_Version c0 + 1" using c(1) r(5) f1 by simp
      moreover have "chains = update_where (\<lambda>r. cr_ID r = c_ID c0) (\<lambda>r. r\<lparr>cr_Name := c_Name c, cr_Active := c_Active c,
          cr_Mode := c_Mode c, cr_Version := c_Version c, cr_UpdatedAt := now\<rparr>) (t_chains db)"
        unfolding c(2) using c(1) r(5) f1 by simp
      ultimately show ?thesis using True by simp
    next
      case False
      then have "c2 = c1" "chains = t_chains db @ [row_of c1]" using sr f1 by (auto simp: save_row_def)
      then show ?thesis using False r(5) f1 by (simp add: row_of_def)
    qed
  next
    show "distinct (map n_ID (t_nodes db)) \<longrightarrow> distinct (map n_ID (t_nodes db'))" by (fact dn)
  next
    show "distinct (map e_ID (t_edges db)) \<longrightarrow> distinct (map e_ID (t_edges db'))" by (fact de)
  qed (use N E r c2 in simp_all)
qed

text \<open>The chain that is read back.\<close>

definition stored_node :: "string \<Rightarrow> ChainNode \<Rightarrow> ChainNode \<Rightarrow> bool" where
  "stored_node cid n m \<longleftrightarrow> (\<exists>new. m = node_row (prepare_node cid new n))"

definition stored_edge :: "string \<Rightarrow> ChainEdge \<Rightarrow> ChainEdge \<Rightarrow> bool" where
  "stored_edge cid e m \<longleftrightarrow> (\<exists>new. m = prepare_edge cid new e)"

lemma filter_delete_same [simp]: "filter (\<lambda>x. own x = i) (delete_where (\<lambda>x. own x = i) t) = []"
  by (simp add: delete_where_def filter_empty_conv)

lemma filter_delete_other: "j \<noteq> i \<Longrightarrow> filter (\<lambda>x. own x = j) (delete_where (\<lambda>x. own x = i) t) = filter (\<lambda>x. own x = j) t"
  by (auto simp: delete_where_def intro: filter_cong)

lemma filter_new_same: "own ` set new \<subseteq> {i} \<Longrightarrow> filter (\<lambda>x. own x = i) new = new"
  by (auto simp: filter_id_conv)

lemma filter_new_other: "own ` set new \<subseteq> {i} \<Longrightarrow> j \<noteq> i \<Longrightarrow> filter (\<lambda>x. own x = j) new = []"
  by (auto simp: filter_empty_conv)

lemma owned_nodes: "list_all2 (\<lambda>n m. \<exists>new. m = prepare_node cid new n) ns ms \<Longrightarrow> n_ChainID ` set (map node_row ms) \<subseteq> {cid}"
  by (induction rule: list_all2_induct) auto

lemma owned_edges: "list_all2 (\<lambda>e m. \<exists>new. m = prepare_edge cid new e) es ms \<Longrightarrow> e_ChainID ` set ms \<subseteq> {cid}"
  by (induction rule: list_all2_induct) auto

lemma GetChain_after_SaveChain:
  assumes "SaveChain now ids c0 db = (Inr c, db')" and "chains_ok db"
  shows "\<exists>d ms. GetChain (c_ID c0) db' = Inr d \<and> c_ID d = c_ID c0 \<and> c_Name d = c_Name c0 \<and> c_Mode d = chain_mode c0
     \<and> c_Active d = c_Active c0 \<and> c_Version d = c_Version c
     \<and> list_all2 (stored_node (c_ID c0)) (c_Nodes c0) ms \<and> c_Nodes d = sort_key n_Key ms
     \<and> list_all2 (stored_edge (c_ID c0)) (c_Edges c0) (c_Edges d)"
proof -
  from assms(1) show ?thesis
  proof (rule SaveChain_Inr)
    fix chains ns es
    assume r: "db' = db\<lparr>t_chains := chains,
          t_nodes := delete_where (\<lambda>n. n_ChainID n = c_ID c0) (t_nodes db) @ map node_row ns,
          t_edges := delete_where (\<lambda>e. e_ChainID e = c_ID c0) (t_edges db) @ es\<rparr>"
      and N: "list_all2 (\<lambda>n m. \<exists>new. m = prepare_node (c_ID c0) new n) (c_Nodes c0) ns"
      and E: "list_all2 (\<lambda>e m. \<exists>new. m = prepare_edge (c_ID c0) new e) (c_Edges c0) es"
      and c: "c_ID c = c_ID c0" "c_Name c = c_Name c0" "c_Active c = c_Active c0" "c_Mode c = chain_mode c0"
      and up: "t_down db = None"
      and row: "if has cr_ID (c_ID c0) (t_chains db)
        then c_Version c = c_Version c0 + 1 \<and> chains = update_where (\<lambda>r. cr_ID r = c_ID c0)
          (\<lambda>r. r\<lparr>cr_Name := c_Name c, cr_Active := c_Active c, cr_Mode := c_Mode c, cr_Version := c_Version c,
                cr_UpdatedAt := now\<rparr>) (t_chains db)
        else c_Version c = c_Version c0 \<and> chains = t_chains db @ [row_of c]"
    have "n_ChainID ` set (map node_row ns) \<subseteq> {c_ID c0}" "e_ChainID ` set es \<subseteq> {c_ID c0}"
      using owned_nodes [OF N] owned_edges [OF E] .
    then have g: "load_nodes db' (c_ID c0) = sort_key n_Key (map node_row ns)" "load_edges db' (c_ID c0) = es"
      by (simp_all add: load_nodes_def load_edges_def r order_by_def filter_new_same del: set_map)
    obtain row where row: "find (\<lambda>r. cr_ID r = c_ID c0) chains = Some row" "cr_ID row = c_ID c0" "cr_Name row = c_Name c"
        "cr_Active row = c_Active c" "cr_Mode row = c_Mode c" "cr_Version row = c_Version c"
    proof (cases "has cr_ID (c_ID c0) (t_chains db)")
      case True
      then obtain x where x: "find (\<lambda>r. cr_ID r = c_ID c0) (t_chains db) = Some x"
        by (cases "find (\<lambda>r. cr_ID r = c_ID c0) (t_chains db)") (auto dest: find_NoneD)
      with True row show ?thesis
        by (intro that) (auto simp: find_update_where dest: find_SomeD)
    next
      case False
      then have "find (\<lambda>r. cr_ID r = c_ID c0) (t_chains db) = None" by (auto simp: find_None_iff image_iff)
      with False row c show ?thesis by (intro that) (auto simp: find_append row_of_def)
    qed
    have "GetChain (c_ID c0) db' = Inr (loadChainGraph db' row)"
      using row(1) up by (simp add: GetChain_def run_row_def r)
    moreover have "list_all2 (stored_node (c_ID c0)) (c_Nodes c0) (map node_row ns)"
      using N by (auto simp: list_all2_map2 stored_node_def elim!: list_all2_mono)
    moreover have "list_all2 (stored_edge (c_ID c0)) (c_Edges c0) es"
      using E by (auto simp: stored_edge_def elim!: list_all2_mono)
    ultimately show ?thesis
      using row c g by (intro exI [of _ "loadChainGraph db' row"] exI [of _ "map node_row ns"]) (simp add: loadChainGraph_def)
  qed
qed

text \<open>Saving one chain leaves every other one as it was.\<close>

lemma SaveChain_other:
  assumes "SaveChain now ids c0 db = (res, db')" and "i \<noteq> c_ID c0"
  shows "GetChain i db' = GetChain i db"
proof (cases res)
  case (Inl e)
  then have "db' = db" using assms(1) by (auto simp: SaveChain_def Let_def split: option.splits if_splits prod.splits)
  then show ?thesis by simp
next
  case (Inr c)
  with assms(1) have "SaveChain now ids c0 db = (Inr c, db')" by simp
  then show ?thesis
  proof (rule SaveChain_Inr)
    fix chains ns es
    assume r: "db' = db\<lparr>t_chains := chains,
          t_nodes := delete_where (\<lambda>n. n_ChainID n = c_ID c0) (t_nodes db) @ map node_row ns,
          t_edges := delete_where (\<lambda>e. e_ChainID e = c_ID c0) (t_edges db) @ es\<rparr>"
      and N: "list_all2 (\<lambda>n m. \<exists>new. m = prepare_node (c_ID c0) new n) (c_Nodes c0) ns"
      and E: "list_all2 (\<lambda>e m. \<exists>new. m = prepare_edge (c_ID c0) new e) (c_Edges c0) es"
      and id: "c_ID c = c_ID c0"
      and row: "if has cr_ID (c_ID c0) (t_chains db)
        then c_Version c = c_Version c0 + 1 \<and> chains = update_where (\<lambda>r. cr_ID r = c_ID c0)
          (\<lambda>r. r\<lparr>cr_Name := c_Name c, cr_Active := c_Active c, cr_Mode := c_Mode c, cr_Version := c_Version c,
                cr_UpdatedAt := now\<rparr>) (t_chains db)
        else c_Version c = c_Version c0 \<and> chains = t_chains db @ [row_of c]"
    have "n_ChainID ` set (map node_row ns) \<subseteq> {c_ID c0}" "e_ChainID ` set es \<subseteq> {c_ID c0}"
      using owned_nodes [OF N] owned_edges [OF E] .
    then have g: "load_nodes db' i = load_nodes db i" "load_edges db' i = load_edges db i"
      using assms(2) by (simp_all add: load_nodes_def load_edges_def r filter_delete_other filter_new_other del: set_map)
    have f: "find (\<lambda>r. cr_ID r = i) chains = find (\<lambda>r. cr_ID r = i) (t_chains db)"
    proof (cases "has cr_ID (c_ID c0) (t_chains db)")
      case True
      with row show ?thesis using assms(2) by (auto intro: find_update_other)
    next
      case False
      then show ?thesis using row assms(2) id by (auto simp: find_append row_of_def split: option.split)
    qed
    have "GetChain i db = map_sum id (loadChainGraph db) (run_row (\<lambda>r. cr_ID r = i) (t_chains db) db)"
      by (simp add: GetChain_def)
    moreover have "loadChainGraph db' x = loadChainGraph db x" if "cr_ID x = i" for x
      using g that by (simp add: loadChainGraph_def)
    ultimately show ?thesis
      using f by (auto simp: GetChain_def run_row_def r split: option.split dest: find_SomeD)
  qed
qed

subsection \<open>The invariant is kept\<close>

lemma chains_ok_SaveChain:
  assumes "chains_ok db"
  shows "chains_ok (snd (SaveChain now ids c0 db))"
proof (cases "SaveChain now ids c0 db")
  case (Pair res db')
  show ?thesis
  proof (cases res)
    case (Inl e)
    then have "db' = db" using Pair by (auto simp: SaveChain_def Let_def split: option.splits if_splits prod.splits)
    then show ?thesis using assms Pair by simp
  next
    case (Inr c)
    with Pair have "SaveChain now ids c0 db = (Inr c, db')" by simp
    then show ?thesis
    proof (rule SaveChain_Inr)
      fix chains ns es
      assume r: "db' = db\<lparr>t_chains := chains,
            t_nodes := delete_where (\<lambda>n. n_ChainID n = c_ID c0) (t_nodes db) @ map node_row ns,
            t_edges := delete_where (\<lambda>e. e_ChainID e = c_ID c0) (t_edges db) @ es\<rparr>"
        and N: "list_all2 (\<lambda>n m. \<exists>new. m = prepare_node (c_ID c0) new n) (c_Nodes c0) ns"
        and E: "list_all2 (\<lambda>e m. \<exists>new. m = prepare_edge (c_ID c0) new e) (c_Edges c0) es"
        and id: "c_ID c = c_ID c0" "c_Mode c \<in> chain_modes"
        and row: "if has cr_ID (c_ID c0) (t_chains db)
          then c_Version c = c_Version c0 + 1 \<and> chains = update_where (\<lambda>r. cr_ID r = c_ID c0)
            (\<lambda>r. r\<lparr>cr_Name := c_Name c, cr_Active := c_Active c, cr_Mode := c_Mode c, cr_Version := c_Version c,
                  cr_UpdatedAt := now\<rparr>) (t_chains db)
          else c_Version c = c_Version c0 \<and> chains = t_chains db @ [row_of c]"
        and d: "distinct (map n_ID (t_nodes db)) \<longrightarrow> distinct (map n_ID (t_nodes db'))"
          "distinct (map e_ID (t_edges db)) \<longrightarrow> distinct (map e_ID (t_edges db'))"
      have t: "cr_ID ` set chains = insert (c_ID c0) (cr_ID ` set (t_chains db)) \<and> distinct (map cr_ID chains)
          \<and> cr_Mode ` set chains \<subseteq> chain_modes"
      proof (cases "has cr_ID (c_ID c0) (t_chains db)")
        case True
        with row obtain f where f: "chains = update_where (\<lambda>r. cr_ID r = c_ID c0) f (t_chains db)"
            "\<And>x. cr_ID (f x) = cr_ID x" "\<And>x. cr_Mode (f x) = c_Mode c" by simp
        have "cr_Mode ` set chains \<subseteq> insert (c_Mode c) (cr_Mode ` set (t_chains db))"
          by (auto simp: f(1) set_update_where f(3))
        moreover have "insert (c_Mode c) (cr_Mode ` set (t_chains db)) \<subseteq> chain_modes"
          using assms id by (simp add: chains_ok_def)
        ultimately have "cr_Mode ` set chains \<subseteq> chain_modes" by (rule order_trans)
        then show ?thesis
          using True assms f(2) by (auto simp: f(1) chains_ok_def image_update_where distinct_update_row)
      next
        case False
        with row assms id show ?thesis by (auto simp: chains_ok_def row_of_def)
      qed
      then have ids: "cr_ID ` set chains = insert (c_ID c0) (cr_ID ` set (t_chains db))"
        and dr: "distinct (map cr_ID chains)" and modes: "cr_Mode ` set chains \<subseteq> chain_modes" by blast+
      have "n_ChainID ` set (t_nodes db') \<subseteq> cr_ID ` set chains" "e_ChainID ` set (t_edges db') \<subseteq> cr_ID ` set chains"
        using owned_nodes [OF N] owned_edges [OF E] assms by (auto simp: r ids chains_ok_def)
      then show ?thesis using Pair assms d dr modes by (simp add: chains_ok_def r del: map_append)
    qed
  qed
qed

lemma chains_ok_DeleteChain:
  assumes "chains_ok db"
  shows "chains_ok (snd (DeleteChain i db))"
proof (cases "t_down db")
  case None
  have "n_ChainID ` {r \<in> set (t_nodes db). n_ChainID r \<noteq> i} \<subseteq> cr_ID ` {r \<in> set (t_chains db). cr_ID r \<noteq> i}"
    using assms by (intro fk_delete) (simp add: chains_ok_def)
  moreover have "e_ChainID ` {r \<in> set (t_edges db). e_ChainID r \<noteq> i} \<subseteq> cr_ID ` {r \<in> set (t_chains db). cr_ID r \<noteq> i}"
    using assms by (intro fk_delete) (simp add: chains_ok_def)
  moreover have "cr_Mode ` {r \<in> set (t_chains db). cr_ID r \<noteq> i} \<subseteq> chain_modes"
    using assms by (intro subset_image_filter) (simp add: chains_ok_def)
  ultimately show ?thesis
    using None assms by (simp add: DeleteChain_def run_exec_def chains_ok_def distinct_delete_where)
qed (use assms in \<open>simp add: DeleteChain_def run_exec_def\<close>)

lemma chains_ok_ActivateChain: "chains_ok db \<Longrightarrow> chains_ok (snd (ActivateChain now i db))"
  by (auto simp: ActivateChain_def chains_ok_def distinct_update_row image_update_where split: option.split)

text \<open>A save that keeps the flag it read, a deletion, and an activation leave at most one active chain.\<close>

definition one_active :: "database \<Rightarrow> bool" where
  "one_active db \<longleftrightarrow> length (actives db) \<le> 1"

lemma one_active_DeleteChain: "one_active db \<Longrightarrow> one_active (snd (DeleteChain i db))"
proof -
  have "length (filter cr_Active (delete_where P t)) \<le> length (filter cr_Active t)" for P and t :: "chain_row list"
    by (induction t) (auto simp: delete_where_def)
  then show "one_active db \<Longrightarrow> one_active (snd (DeleteChain i db))"
    by (auto simp: one_active_def actives_def DeleteChain_def run_exec_def intro: le_trans split: option.split)
qed

lemma actives_ActivateChain:
  assumes "ActivateChain now i db = (None, db')" and "chains_ok db"
  shows "map cr_ID (actives db') = [i]"
proof -
  have "i \<in> cr_ID ` set (t_chains db)" and t: "t_chains db' = map (\<lambda>r. if cr_ID r = i
      then (if cr_Active r then r\<lparr>cr_Active := False\<rparr> else r)\<lparr>cr_Active := True, cr_UpdatedAt := now\<rparr>
      else if cr_Active r then r\<lparr>cr_Active := False\<rparr> else r) (t_chains db)"
    using assms(1) by (auto simp: ActivateChain_def update_where_def split: option.splits if_splits)
  moreover have "distinct (map cr_ID (t_chains db))" using assms(2) by (simp add: chains_ok_def)
  moreover have "i \<in> cr_ID ` set t \<Longrightarrow> distinct (map cr_ID t) \<Longrightarrow>
      map cr_ID (filter cr_Active (map (\<lambda>r. if cr_ID r = i
      then (if cr_Active r then r\<lparr>cr_Active := False\<rparr> else r)\<lparr>cr_Active := True, cr_UpdatedAt := now\<rparr>
      else if cr_Active r then r\<lparr>cr_Active := False\<rparr> else r) t)) = [i]" for t :: "chain_row list"
  proof (induction t)
    case (Cons a t)
    show ?case
    proof (cases "cr_ID a = i")
      case True
      then have "i \<notin> cr_ID ` set t" using Cons.prems(2) by simp
      then have "filter cr_Active (map (\<lambda>r. if cr_ID r = i
        then (if cr_Active r then r\<lparr>cr_Active := False\<rparr> else r)\<lparr>cr_Active := True, cr_UpdatedAt := now\<rparr>
        else if cr_Active r then r\<lparr>cr_Active := False\<rparr> else r) t) = []"
        by (auto simp: filter_empty_conv image_iff)
      with True show ?thesis by simp
    next
      case False
      with Cons show ?thesis by auto
    qed
  qed simp
  ultimately show ?thesis by (simp add: actives_def)
qed

subsection \<open>What is read back is valid when what was saved is\<close>

lemma Kind_node_row [simp]: "Kind (Some (node_row n)) = Kind (Some n)"
proof -
  have "ToLower (TrimSpace ''start'') = ''start''" "ToLower (TrimSpace ''join'') = ''join''"
    "ToLower (TrimSpace ''provider'') = ''provider''" by code_simp+
  then show ?thesis by (auto simp: Kind_def node_row_def nodeKind_def Let_def)
qed

lemma stored_node_facts:
  assumes "stored_node cid n m"
  shows "n_Key m = n_Key n" "Kind (Some m) = Kind (Some n)" "is_entry m = is_entry n" "valid_node n \<Longrightarrow> valid_node m"
proof -
  obtain new where m: "m = node_row (prepare_node cid new n)" using assms by (auto simp: stored_node_def)
  let ?p = "prepare_node cid new n"
  have p: "Kind (Some ?p) = Kind (Some n)" "n_IsStart ?p = n_IsStart n" "n_Key ?p = n_Key n" "n_Mode ?p = n_Mode n"
      "n_ProviderID ?p = n_ProviderID n" "n_TimeoutMS ?p = n_TimeoutMS n" "n_Retries ?p = n_Retries n"
      "n_RetryDelayMS ?p = n_RetryDelayMS n" "n_OnSuccess ?p = n_OnSuccess n" "n_OnEmpty ?p = n_OnEmpty n"
      "n_OnFail ?p = n_OnFail n" "n_Kind ?p = n_Kind n"
    by (simp_all add: prepare_node_def Kind_def)
  show k: "n_Key m = n_Key n" "Kind (Some m) = Kind (Some n)" "is_entry m = is_entry n"
    using p by (simp_all add: m is_entry_def) (simp_all add: node_row_def p)
  assume v: "valid_node n"
  have "\<not> bad_kind m"
  proof -
    have "n_Kind m \<in> {NodeKindStart, NodeKindJoin, NodeKindProvider}" by (simp add: m node_row_def nodeKind_def Let_def)
    moreover have "\<not> bad_kind (zero_node\<lparr>n_Kind := ''start''\<rparr>)" "\<not> bad_kind (zero_node\<lparr>n_Kind := ''join''\<rparr>)"
      "\<not> bad_kind (zero_node\<lparr>n_Kind := ''provider''\<rparr>)" by code_simp+
    ultimately show ?thesis by (auto simp: bad_kind_def)
  qed
  moreover have mode: "n_Mode m = (if n_Mode n = NodeModeAnswer then NodeModeAnswer else NodeModeSearch)"
  proof -
    have "nodeMode ''answer'' = ''answer''" "nodeMode ''search'' = ''search''" "nodeMode [] = ''search''" by code_simp+
    moreover have "n_Mode n \<in> {[], NodeModeSearch, NodeModeAnswer}" using v by (simp add: valid_node_def)
    ultimately show ?thesis using p by (auto simp: m node_row_def)
  qed
  have "\<not> EqualFold (TrimSpace NodeModeSearch) NodeModeAnswer" by code_simp
  moreover have f: "n_ProviderID m = n_ProviderID n" "n_TimeoutMS m = n_TimeoutMS n" "n_Retries m = n_Retries n"
      "n_RetryDelayMS m = n_RetryDelayMS n" "n_OnSuccess m = n_OnSuccess n" "n_OnEmpty m = n_OnEmpty n"
      "n_OnFail m = n_OnFail n"
    by (simp_all add: m node_row_def p)
  ultimately show "valid_node m"
    using v \<open>\<not> bad_kind m\<close> unfolding valid_node_def k f mode by (cases "n_Mode n = NodeModeAnswer") simp_all
qed

lemma stored_edge_facts:
  assumes "stored_edge cid e m"
  shows "e_FromKey m = e_FromKey e" "e_ToKey m = e_ToKey e" "neutral (e_Condition m) = neutral (e_Condition e)"
    and "e_Condition e \<in> edge_conditions \<Longrightarrow> e_Condition m \<in> edge_conditions"
  using assms by (auto simp: stored_edge_def prepare_edge_def neutral_def edge_conditions_def)

lemma list_all2_sets:
  assumes "list_all2 R xs ys"
  shows "\<And>x. x \<in> set xs \<Longrightarrow> \<exists>y \<in> set ys. R x y" and "\<And>y. y \<in> set ys \<Longrightarrow> \<exists>x \<in> set xs. R x y"
  using assms by (induction rule: list_all2_induct) auto

lemma list_all2_map_eq: "list_all2 R xs ys \<Longrightarrow> (\<And>x y. R x y \<Longrightarrow> f y = g x) \<Longrightarrow> map f ys = map g xs"
  by (induction rule: list_all2_induct) auto

lemma list_all2_filter_eq:
  "list_all2 R xs ys \<Longrightarrow> (\<And>x y. R x y \<Longrightarrow> f y = g x) \<Longrightarrow> (\<And>x y. R x y \<Longrightarrow> P y = Q x) \<Longrightarrow>
   map f (filter P ys) = map g (filter Q xs)"
  by (induction rule: list_all2_induct) auto

text \<open>Validity only looks at keys, kinds, conditions and what makes a single block valid.\<close>

definition node_like :: "ChainNode \<Rightarrow> ChainNode \<Rightarrow> bool" where
  "node_like n m \<longleftrightarrow> n_Key m = n_Key n \<and> Kind (Some m) = Kind (Some n) \<and> is_entry m = is_entry n
     \<and> (valid_node n \<longrightarrow> valid_node m)"

definition edge_like :: "ChainEdge \<Rightarrow> ChainEdge \<Rightarrow> bool" where
  "edge_like e m \<longleftrightarrow> e_FromKey m = e_FromKey e \<and> e_ToKey m = e_ToKey e
     \<and> neutral (e_Condition m) = neutral (e_Condition e)
     \<and> (e_Condition e \<in> edge_conditions \<longrightarrow> e_Condition m \<in> edge_conditions)"

lemma node_likeD:
  "node_like n m \<Longrightarrow> n_Key m = n_Key n" "node_like n m \<Longrightarrow> Kind (Some m) = Kind (Some n)"
  "node_like n m \<Longrightarrow> is_entry m = is_entry n" "node_like n m \<Longrightarrow> valid_node n \<Longrightarrow> valid_node m"
  by (simp_all add: node_like_def)

lemma edge_likeD:
  "edge_like e m \<Longrightarrow> e_FromKey m = e_FromKey e" "edge_like e m \<Longrightarrow> e_ToKey m = e_ToKey e"
  "edge_like e m \<Longrightarrow> neutral (e_Condition m) = neutral (e_Condition e)"
  "edge_like e m \<Longrightarrow> e_Condition e \<in> edge_conditions \<Longrightarrow> e_Condition m \<in> edge_conditions"
  by (simp_all add: edge_like_def)

lemma valid_transfer:
  assumes v: "valid_chain c" and N: "list_all2 node_like (c_Nodes c) ms" and d: "mset (c_Nodes d) = mset ms"
    and E: "list_all2 edge_like (c_Edges c) (c_Edges d)" and mode: "c_Mode d = chain_mode c"
  shows "valid_chain d"
proof -
  note nf = node_likeD and ef = edge_likeD
  have keys: "map n_Key ms = map n_Key (c_Nodes c)" using N by (rule list_all2_map_eq) (rule nf)
  have set_d: "set (c_Nodes d) = set ms" using d by (rule mset_eq_setD)
  have ck: "chain_keys d = chain_keys c" unfolding chain_keys_def set_d using keys by (metis set_map)
  have "map (\<lambda>e. (e_FromKey e, e_ToKey e)) (c_Edges d) = map (\<lambda>e. (e_FromKey e, e_ToKey e)) (c_Edges c)"
    using E by (rule list_all2_map_eq) (simp add: ef)
  then have ce: "chain_edges d = chain_edges c" unfolding chain_edges_def by (metis set_map)
  have e1: "\<exists>e' \<in> set (c_Edges d). e_FromKey e' = e_FromKey e \<and> e_ToKey e' = e_ToKey e \<and> neutral (e_Condition e') = neutral (e_Condition e)"
    if "e \<in> set (c_Edges c)" for e
    using list_all2_sets(1) [OF E that] ef by blast
  have modes: "c_Mode d \<in> {[], ChainModeFirstSuccess, ChainModeFullChain}" "c_Mode d = ChainModeFullChain \<longleftrightarrow> c_Mode c = ChainModeFullChain"
    using v mode by (auto simp: valid_chain_split nodes_ok_def chain_mode_def)
  have dist: "distinct (map n_Key (c_Nodes d))"
  proof -
    have "distinct (map n_Key ms)" using v by (simp add: keys valid_chain_split nodes_ok_def)
    moreover have "mset (map n_Key (c_Nodes d)) = mset (map n_Key ms)" using d by simp
    ultimately show ?thesis using mset_eq_imp_distinct_iff by blast
  qed
  have "nodes_ok d"
    unfolding nodes_ok_def
  proof (intro conjI ballI)
    have "c_Nodes c \<noteq> []" using v by (simp add: valid_chain_split nodes_ok_def)
    then have "ms \<noteq> []" using keys by auto
    then show "c_Nodes d \<noteq> []" using set_d by auto
    show "valid_node n" if "n \<in> set (c_Nodes d)" for n
      using list_all2_sets(2) [OF N] that nf(4) v unfolding set_d valid_chain_split nodes_ok_def by blast
    show "\<exists>n \<in> set (c_Nodes d). is_provider n"
      using list_all2_sets(1) [OF N] nf(2) v unfolding set_d valid_chain_split nodes_ok_def by metis
    show "chain_edges d \<subseteq> chain_keys d \<times> chain_keys d"
      using v unfolding ck ce valid_chain_split nodes_ok_def by blast
    show "e_Condition e \<in> edge_conditions" if "e \<in> set (c_Edges d)" for e
      using list_all2_sets(2) [OF E that] ef(4) v unfolding valid_chain_split nodes_ok_def by blast
  qed (use modes dist in auto)
  moreover have "joins_ok d"
    unfolding joins_ok_def
  proof
    fix n assume "n \<in> set (c_Nodes d)"
    then obtain x where x: "x \<in> set (c_Nodes c)" "n_Key n = n_Key x" "Kind (Some n) = Kind (Some x)"
      using list_all2_sets(2) [OF N] nf(1,2) unfolding set_d by metis
    have jc: "(Kind (Some x) = NodeKindJoin \<longrightarrow> (\<exists>e \<in> set (c_Edges c). e_ToKey e = n_Key x)) \<and>
     (Kind (Some x) = NodeKindStart \<longrightarrow> (\<exists>e \<in> set (c_Edges c). e_FromKey e = n_Key x \<and> neutral (e_Condition e))) \<and>
     (Kind (Some x) = NodeKindJoin \<and> c_Mode c = ChainModeFullChain \<longrightarrow>
        (\<exists>e \<in> set (c_Edges c). e_ToKey e = n_Key x \<and> neutral (e_Condition e)))"
      using v x(1) unfolding valid_chain_split joins_ok_def by blast
    have t: "\<exists>e \<in> set (c_Edges d). Q (e_FromKey e) (e_ToKey e) (neutral (e_Condition e))"
      if "\<exists>e \<in> set (c_Edges c). Q (e_FromKey e) (e_ToKey e) (neutral (e_Condition e))" for Q
    proof -
      from that obtain e where e: "e \<in> set (c_Edges c)" "Q (e_FromKey e) (e_ToKey e) (neutral (e_Condition e))" ..
      from e1 [OF e(1)] obtain e' where "e' \<in> set (c_Edges d)" "e_FromKey e' = e_FromKey e" "e_ToKey e' = e_ToKey e"
        "neutral (e_Condition e') = neutral (e_Condition e)" by blast
      with e(2) show ?thesis by (intro bexI [of _ e']) simp_all
    qed
    show "(Kind (Some n) = NodeKindJoin \<longrightarrow> (\<exists>e \<in> set (c_Edges d). e_ToKey e = n_Key n)) \<and>
     (Kind (Some n) = NodeKindStart \<longrightarrow> (\<exists>e \<in> set (c_Edges d). e_FromKey e = n_Key n \<and> neutral (e_Condition e))) \<and>
     (Kind (Some n) = NodeKindJoin \<and> c_Mode d = ChainModeFullChain \<longrightarrow>
        (\<exists>e \<in> set (c_Edges d). e_ToKey e = n_Key n \<and> neutral (e_Condition e)))"
      using jc t [of "\<lambda>a b n. b = n_Key x"] t [of "\<lambda>a b n. a = n_Key x \<and> n"] t [of "\<lambda>a b n. b = n_Key x \<and> n"]
      unfolding x(2,3) modes(2) by blast
  qed
  moreover have "entry_keys (c_Nodes d) = entry_keys (c_Nodes c)"
  proof -
    have "map n_Key (filter is_entry ms) = map n_Key (filter is_entry (c_Nodes c))"
      using N by (rule list_all2_filter_eq) (simp_all add: nf)
    then have "set (map n_Key (filter is_entry (c_Nodes d))) = set (map n_Key (filter is_entry (c_Nodes c)))"
      by (metis set_d set_filter set_map)
    then show ?thesis
      unfolding entry_keys_def sortedKeys_def by (intro sorted_distinct_set_unique) simp_all
  qed
  ultimately show ?thesis using v unfolding valid_chain_split ck ce by simp
qed

lemma valid_stored:
  assumes "valid_chain c" and N: "list_all2 (stored_node i) (c_Nodes c) ms" and d: "c_Nodes d = sort_key n_Key ms"
    and E: "list_all2 (stored_edge j) (c_Edges c) (c_Edges d)" and "c_Mode d = chain_mode c"
  shows "valid_chain d"
proof (rule valid_transfer [OF assms(1) _ _ _ assms(5)])
  show "list_all2 node_like (c_Nodes c) ms"
    using N by (rule list_all2_mono) (auto simp: node_like_def dest: stored_node_facts)
  show "list_all2 edge_like (c_Edges c) (c_Edges d)"
    using E by (rule list_all2_mono) (auto simp: edge_like_def dest: stored_edge_facts)
qed (simp add: d)

end
