(* ===== verification/Exec_Facts.thy ===== *)
theory Exec_Facts
  imports Exec_Node
begin

text \<open>
  What one block does to the state of the request: \<open>progress\<close> says that steps and
  invocations are only appended, for this block, and that the attempt budget, the clock and
  the set of dead providers evolve as they should. The lemmas go operation by operation.
\<close>

subsection \<open>Frames of the small operations\<close>

lemma publish_simps [simp]:
  "rs_ws (publish e st) = rs_ws st" "rs_cooldowns (publish e st) = rs_cooldowns st"
  "rs_secrets (publish e st) = rs_secrets st" "rs_clock (publish e st) = rs_clock st"
  "rs_steps (publish e st) = rs_steps st" "rs_invoked (publish e st) = rs_invoked st"
  "rs_attempts (publish e st) = rs_attempts st" "rs_answer (publish e st) = rs_answer st"
  "rs_metrics (publish e st) = rs_metrics st"
  by (simp_all add: publish_def)

lemma notifyEvent_simps [simp]:
  "rs_ws (notifyEvent env e t st) = rs_ws st" "rs_cooldowns (notifyEvent env e t st) = rs_cooldowns st"
  "rs_secrets (notifyEvent env e t st) = rs_secrets st" "rs_clock (notifyEvent env e t st) = rs_clock st"
  "rs_steps (notifyEvent env e t st) = rs_steps st" "rs_invoked (notifyEvent env e t st) = rs_invoked st"
  "rs_attempts (notifyEvent env e t st) = rs_attempts st" "rs_answer (notifyEvent env e t st) = rs_answer st"
  by (simp_all add: notifyEvent_def publish_global_def)

lemma SaveStep_simps [simp]:
  "rs_ws (SaveStep s st) = rs_ws st" "rs_cooldowns (SaveStep s st) = rs_cooldowns st"
  "rs_secrets (SaveStep s st) = rs_secrets st" "rs_clock (SaveStep s st) = rs_clock st"
  "rs_steps (SaveStep s st) = rs_steps st @ [s]" "rs_invoked (SaveStep s st) = rs_invoked st"
  "rs_attempts (SaveStep s st) = rs_attempts st" "rs_answer (SaveStep s st) = rs_answer st"
  by (simp_all add: SaveStep_def)

lemma AddSecret_simps [simp]:
  "rs_ws (AddSecret vs st) = rs_ws st" "rs_cooldowns (AddSecret vs st) = rs_cooldowns st"
  "rs_clock (AddSecret vs st) = rs_clock st" "rs_steps (AddSecret vs st) = rs_steps st"
  "rs_invoked (AddSecret vs st) = rs_invoked st" "rs_attempts (AddSecret vs st) = rs_attempts st"
  "rs_answer (AddSecret vs st) = rs_answer st"
  by (simp_all add: AddSecret_def)

subsection \<open>The relation between states\<close>

definition budget_ok :: "run_state \<Rightarrow> bool" where
  "budget_ok st \<longleftrightarrow> length (rs_invoked st) \<le> rs_attempts st \<and>
     int (rs_attempts st) \<le> ws_stepNo (rs_ws st) \<and>
     int (rs_attempts st) \<le> max 0 (ws_maxAttempts (rs_ws st))"

definition fatal :: "Result \<Rightarrow> bool" where
  "fatal r \<longleftrightarrow> r_Permanent r \<and> \<not> r_OK r"

definition progress :: "nat \<Rightarrow> ChainNode \<Rightarrow> run_state \<Rightarrow> run_state \<Rightarrow> bool" where
  "progress idx node st st' \<longleftrightarrow>
     (\<exists>ss. rs_steps st' = rs_steps st @ ss \<and> (\<forall>s \<in> set ss. st_Idx s = idx \<and> st_NodeKey s = n_Key node)) \<and>
     (\<exists>vs. rs_invoked st' = rs_invoked st @ vs \<and>
        (\<forall>v \<in> set vs. iv_Node v = n_Key node \<and> iv_Provider v = n_ProviderID node)) \<and>
     ws_maxAttempts (rs_ws st') = ws_maxAttempts (rs_ws st) \<and>
     rs_clock st \<le> rs_clock st' \<and> (\<forall>p. isDead (rs_ws st) p \<longrightarrow> isDead (rs_ws st') p) \<and>
     (budget_ok st \<longrightarrow> budget_ok st')"

lemma progress_refl [simp]: "progress idx node st st"
  by (simp add: progress_def)

lemma progress_trans [trans]:
  "progress idx node st1 st2 \<Longrightarrow> progress idx node st2 st3 \<Longrightarrow> progress idx node st1 st3"
  unfolding progress_def by (elim conjE exE, intro conjI) (force, force, simp_all)

text \<open>Operations that touch neither steps, calls, budget nor dead providers.\<close>

definition quiet :: "run_state \<Rightarrow> run_state \<Rightarrow> bool" where
  "quiet st st' \<longleftrightarrow> rs_steps st' = rs_steps st \<and> rs_invoked st' = rs_invoked st \<and>
     rs_attempts st' = rs_attempts st \<and> rs_ws st' = rs_ws st \<and> rs_clock st \<le> rs_clock st'"

lemma quiet_progress: "quiet st st' \<Longrightarrow> progress idx node st st'"
  by (simp add: quiet_def progress_def budget_ok_def)

lemma quiet_refl [simp]: "quiet st st"
  by (simp add: quiet_def)

lemma quiet_trans [trans]: "quiet a b \<Longrightarrow> quiet b c \<Longrightarrow> quiet a c"
  by (simp add: quiet_def)

lemma quiet_publish [simp]: "quiet st (publish e st)"
  by (simp add: quiet_def)

lemma quiet_buildCredentials [simp]: "quiet st (snd (buildCredentials inst st))"
  by (simp add: quiet_def buildCredentials_def)

lemma quiet_proxyConfig [simp]: "quiet st (snd (proxyConfig p st))"
  by (simp add: quiet_def proxyConfig_def split: option.splits)

lemma quiet_instanceDeadReason [simp]: "quiet st (snd (instanceDeadReason driver p st))"
  by (simp add: quiet_def instanceDeadReason_def buildCredentials_def Let_def)

lemma quiet_resolveNode [simp]: "quiet st (snd (resolveNode env node st))"
  using quiet_instanceDeadReason [of st "driver_of env node" "env_providers env (n_ProviderID node)"]
  by (simp add: quiet_def resolveNode_def Let_def split_beta)

lemma quiet_sleepCtx [simp]: "quiet st (snd (sleepCtx env d st))"
  using sleepCtx_clock [of st env d] by (simp add: quiet_def sleepCtx_def split_beta)

lemma quiet_honorRetryAfter [simp]: "quiet st (honorRetryAfter env r st)"
  by (simp add: honorRetryAfter_def)

lemma recordSkip_progress: "progress idx node st (recordSkip env idx node code reason st)"
  by (auto simp: progress_def recordSkip_def Let_def budget_ok_def)

subsection \<open>Recording an attempt\<close>

lemma stage_step_simps [simp]:
  "rs_ws (stage_step env bk a t r sc st) = rs_ws st"
  "rs_invoked (stage_step env bk a t r sc st) = rs_invoked st"
  "rs_attempts (stage_step env bk a t r sc st) = rs_attempts st"
  "rs_clock (stage_step env bk a t r sc st) = rs_clock st"
  "rs_answer (stage_step env bk a t r sc st) = rs_answer st"
  "rs_secrets (stage_step env bk a t r sc st) = rs_secrets st"
  by (simp_all add: stage_step_def Let_def)

lemma fold_stage_step_simps [simp]:
  "rs_ws (fold (stage_step env bk a t r) scs st) = rs_ws st"
  "rs_invoked (fold (stage_step env bk a t r) scs st) = rs_invoked st"
  "rs_attempts (fold (stage_step env bk a t r) scs st) = rs_attempts st"
  "rs_clock (fold (stage_step env bk a t r) scs st) = rs_clock st"
  "rs_answer (fold (stage_step env bk a t r) scs st) = rs_answer st"
  "rs_secrets (fold (stage_step env bk a t r) scs st) = rs_secrets st"
  by (induction scs arbitrary: st) simp_all

lemma fold_stage_step_steps:
  "\<exists>ss. rs_steps (fold (stage_step env bk a t r) scs st) = rs_steps st @ ss \<and>
     length ss = length scs \<and>
     (\<forall>s \<in> set ss. st_Idx s = bk_idx bk \<and> st_NodeKey s = n_Key (bk_node bk))"
proof (induction scs arbitrary: st)
  case Nil
  then show ?case by simp
next
  case (Cons sc scs)
  have "\<exists>s. rs_steps (stage_step env bk a t r sc st) = rs_steps st @ [s] \<and>
      st_Idx s = bk_idx bk \<and> st_NodeKey s = n_Key (bk_node bk)"
    by (simp add: stage_step_def Let_def)
  then obtain s where s: "rs_steps (stage_step env bk a t r sc st) = rs_steps st @ [s]"
      "st_Idx s = bk_idx bk" "st_NodeKey s = n_Key (bk_node bk)"
    by blast
  obtain ss where "rs_steps (fold (stage_step env bk a t r) (sc # scs) st) = (rs_steps st @ [s]) @ ss"
      "length ss = length scs" "\<forall>s \<in> set ss. st_Idx s = bk_idx bk \<and> st_NodeKey s = n_Key (bk_node bk)"
    using Cons [of "stage_step env bk a t r sc st"] s(1) by auto
  with s show ?case by (intro exI [of _ "s # ss"]) auto
qed

lemma extra_steps_simps [simp]:
  "rs_invoked (extra_steps out st) = rs_invoked st" "rs_attempts (extra_steps out st) = rs_attempts st"
  "rs_clock (extra_steps out st) = rs_clock st" "rs_answer (extra_steps out st) = rs_answer st"
  "rs_steps (extra_steps out st) = rs_steps st"
  "isDead (rs_ws (extra_steps out st)) p = isDead (rs_ws st) p"
  "ws_maxAttempts (rs_ws (extra_steps out st)) = ws_maxAttempts (rs_ws st)"
  by (simp_all add: extra_steps_def Let_def ws.add_limit)

lemma extra_steps_stepNo: "ws_stepNo (rs_ws st) \<le> ws_stepNo (rs_ws (extra_steps out st))"
  by (simp add: extra_steps_def Let_def ws.add_used)

lemma record_attempt_simps [simp]:
  "rs_invoked (record_attempt env bk a t out r d st) = rs_invoked st"
  "rs_attempts (record_attempt env bk a t out r d st) = rs_attempts st"
  "rs_clock (record_attempt env bk a t out r d st) = rs_clock st"
  "rs_answer (record_attempt env bk a t out r d st) = rs_answer st"
  "isDead (rs_ws (record_attempt env bk a t out r d st)) p = isDead (rs_ws st) p"
  "ws_maxAttempts (rs_ws (record_attempt env bk a t out r d st)) = ws_maxAttempts (rs_ws st)"
  by (simp_all add: record_attempt_def Let_def split_beta)

lemma record_attempt_stepNo:
  "ws_stepNo (rs_ws st) \<le> ws_stepNo (rs_ws (record_attempt env bk a t out r d st))"
  by (auto simp: record_attempt_def Let_def split_beta intro: order_trans [OF _ extra_steps_stepNo])

lemma record_attempt_steps:
  "\<exists>ss. rs_steps (record_attempt env bk a t out r d st) = rs_steps st @ attempt_step env bk a t out r d st # ss \<and>
     length ss = length (co_Stages out) \<and>
     (\<forall>s \<in> set ss. st_Idx s = bk_idx bk \<and> st_NodeKey s = n_Key (bk_node bk))"
proof -
  have "\<exists>st5. record_attempt env bk a t out r d st = extra_steps out (fold (stage_step env bk a t r) (co_Stages out) st5)
      \<and> rs_steps st5 = rs_steps st @ [attempt_step env bk a t out r d st]"
    unfolding record_attempt_def Let_def split_beta by (rule exI, rule conjI, rule refl) simp
  then obtain st5 where st5: "record_attempt env bk a t out r d st = extra_steps out (fold (stage_step env bk a t r) (co_Stages out) st5)"
      "rs_steps st5 = rs_steps st @ [attempt_step env bk a t out r d st]" by blast
  show ?thesis
    using fold_stage_step_steps [of env bk a t r "co_Stages out" st5] st5 by simp
qed

lemma record_attempt_progress:
  "progress (bk_idx bk) (bk_node bk) st (record_attempt env bk a t out r d st)"
proof -
  have "st_Idx (attempt_step env bk a t out r d st) = bk_idx bk"
       "st_NodeKey (attempt_step env bk a t out r d st) = n_Key (bk_node bk)"
    by (simp_all add: attempt_step_def)
  then show ?thesis
    using record_attempt_steps [of env bk a t out r d st] record_attempt_stepNo [of st env bk a t out r d]
    by (force simp: progress_def budget_ok_def)
qed

subsection \<open>The steps of the loop\<close>

lemma takeStep_progress:
  "progress idx node st (st\<lparr>rs_ws := snd (takeStep (rs_ws st))\<rparr>)"
  by (simp add: progress_def budget_ok_def takeStep_def isDead_def)

text \<open>A granted reservation makes room for one more attempt.\<close>

definition room :: "run_state \<Rightarrow> bool" where
  "room st \<longleftrightarrow> length (rs_invoked st) \<le> rs_attempts st \<and>
     int (rs_attempts st) + 1 \<le> ws_stepNo (rs_ws st) \<and> int (rs_attempts st) + 1 \<le> ws_maxAttempts (rs_ws st)"

lemma takeStep_room:
  "budget_ok st \<Longrightarrow> fst (takeStep (rs_ws st)) \<Longrightarrow> room (st\<lparr>rs_ws := snd (takeStep (rs_ws st))\<rparr>)"
  by (auto simp: budget_ok_def room_def takeStep_def split: if_splits)

definition call_record :: "run_env \<Rightarrow> block \<Rightarrow> nat \<Rightarrow> call_args \<Rightarrow> call_outcome \<Rightarrow> invocation list" where
  "call_record env bk attempt args out =
     (if co_Acquire out = None
      then [\<lparr>iv_Node = n_Key (bk_node bk), iv_Provider = n_ProviderID (bk_node bk), iv_Attempt = attempt,
             iv_Args = args, iv_Result = co_Result out\<rparr>] else [])"

lemma begin_attempt_calls:
  obtains out args where
    "fst (begin_attempt env bk k prev st) = BCall k (rs_clock st) out"
    "out = env_search env (rs_attempts st) args"
    "rs_invoked (snd (begin_attempt env bk k prev st)) = rs_invoked st @ call_record env bk k args out"
    "rs_attempts (snd (begin_attempt env bk k prev st)) = rs_attempts st + 1"
    "rs_ws (snd (begin_attempt env bk k prev st)) = rs_ws st"
    "rs_steps (snd (begin_attempt env bk k prev st)) = rs_steps st"
    "rs_clock (snd (begin_attempt env bk k prev st)) = rs_clock st"
    "ca_Count args = env_Count env" "ca_Text args = env_Query env"
proof -
  let ?st2 = "publish (EventStepStarted \<lparr>ss_Idx = bk_idx bk, ss_Node = n_Key (bk_node bk),
        ss_Provider = nt_display (bk_target bk), ss_Engine = r_Engine prev, ss_Attempt = k, ss_T0 = rs_clock st\<rparr>) st"
  obtain pc st3 where p: "proxyConfig (nt_proxy (bk_target bk)) ?st2 = (pc, st3)" by fastforce
  then have q: "quiet ?st2 st3" "rs_clock st3 = rs_clock st"
    using quiet_proxyConfig [of ?st2 "nt_proxy (bk_target bk)"]
    by (auto simp: proxyConfig_def split: option.splits if_splits)
  show ?thesis
    by (rule that) (use q in \<open>auto simp: begin_attempt_def Let_def p call_record_def quiet_def\<close>)
qed

lemma call_record_cases: "call_record env bk k args out = [] \<or>
    (\<exists>v. call_record env bk k args out = [v] \<and> co_Acquire out = None \<and> iv_Node v = n_Key (bk_node bk) \<and>
      iv_Provider v = n_ProviderID (bk_node bk) \<and> iv_Attempt v = k \<and> iv_Args v = args \<and> iv_Result v = co_Result out)"
  by (simp add: call_record_def)

lemma begin_attempt_progress:
  assumes "budget_ok st \<Longrightarrow> room st1" "progress (bk_idx bk) (bk_node bk) st st1"
  shows "progress (bk_idx bk) (bk_node bk) st (snd (begin_attempt env bk k prev st1))"
proof -
  obtain out args where b:
      "rs_invoked (snd (begin_attempt env bk k prev st1)) = rs_invoked st1 @ call_record env bk k args out"
      "rs_attempts (snd (begin_attempt env bk k prev st1)) = rs_attempts st1 + 1"
      "rs_ws (snd (begin_attempt env bk k prev st1)) = rs_ws st1"
      "rs_steps (snd (begin_attempt env bk k prev st1)) = rs_steps st1"
      "rs_clock (snd (begin_attempt env bk k prev st1)) = rs_clock st1"
    using begin_attempt_calls [of env bk k prev st1] by metis
  have bud: "budget_ok (snd (begin_attempt env bk k prev st1))" if "budget_ok st"
    using assms(1) [OF that] call_record_cases [of env bk k args out] by (auto simp: budget_ok_def room_def b)
  obtain vs where "rs_invoked st1 = rs_invoked st @ vs"
      "\<forall>v \<in> set vs. iv_Node v = n_Key (bk_node bk) \<and> iv_Provider v = n_ProviderID (bk_node bk)"
    using assms(2) unfolding progress_def by blast
  then have "\<exists>vs. rs_invoked (snd (begin_attempt env bk k prev st1)) = rs_invoked st @ vs \<and>
      (\<forall>v \<in> set vs. iv_Node v = n_Key (bk_node bk) \<and> iv_Provider v = n_ProviderID (bk_node bk))"
    using call_record_cases [of env bk k args out]
    by (intro exI [of _ "vs @ call_record env bk k args out"]) (auto simp: b)
  then show ?thesis
    using assms(2) bud unfolding progress_def b by blast
qed

lemma call_return_simps [simp]:
  "quiet st (snd (call_return bk t0 out st))"
  by (simp add: call_return_def Let_def quiet_def)

lemma settle_attemptE:
  assumes "settle_attempt env bk k t0 out st = (r, sleep, delay, st1)"
  obtains st2 where "call_return bk t0 out st = (r, st2)" "sleep = will_sleep bk k r st2"
    "delay = (if sleep then retry_delay bk k r else 0)" "st1 = record_attempt env bk k t0 out r delay st2"
  using assms by (cases "call_return bk t0 out st") (auto simp: settle_attempt_def Let_def)

lemma settle_attempt_progress:
  assumes "settle_attempt env bk k t0 out st = (r, sleep, delay, st1)"
  shows "progress (bk_idx bk) (bk_node bk) st st1"
proof -
  obtain st2 where c: "call_return bk t0 out st = (r, st2)" and st1: "st1 = record_attempt env bk k t0 out r delay st2"
    using assms by (rule settle_attemptE)
  have "quiet st st2" using call_return_simps [of st bk t0 out] c by simp
  then show ?thesis
    unfolding st1 using progress_trans [OF quiet_progress record_attempt_progress] by blast
qed

lemma decide_attempt_progress:
  "progress (bk_idx bk) (bk_node bk) st (snd (decide_attempt env bk k r sleep delay st))"
  by (simp add: decide_attempt_def progress_def budget_ok_def split_beta)

lemma finish_attempt_progress:
  "progress (bk_idx bk) (bk_node bk) st (snd (finish_attempt env bk k t0 out st))"
proof -
  obtain r sleep delay st1 where s: "settle_attempt env bk k t0 out st = (r, sleep, delay, st1)"
    by (metis prod_cases4)
  show ?thesis
    using progress_trans [OF settle_attempt_progress [OF s] decide_attempt_progress]
    by (simp add: finish_attempt_def s)
qed

lemma exec_step_progress:
  "progress (bk_idx bk) (bk_node bk) st (snd (exec_step env bk b st))"
proof (cases b)
  case (BTry k r a)
  show ?thesis
  proof (cases "int k < attempts_of (bk_node bk)")
    case True
    let ?st1 = "st\<lparr>rs_ws := snd (takeStep (rs_ws st))\<rparr>"
    have p: "progress (bk_idx bk) (bk_node bk) st ?st1" by (rule takeStep_progress)
    show ?thesis
    proof (cases "fst (takeStep (rs_ws st))")
      case granted: True
      have "progress (bk_idx bk) (bk_node bk) st (snd (begin_attempt env bk k r ?st1))"
        using granted by (intro begin_attempt_progress [OF _ p] takeStep_room)
      with True granted BTry show ?thesis by (simp add: split_beta)
    next
      case False
      with True p BTry show ?thesis by (simp add: split_beta)
    qed
  next
    case False
    with BTry show ?thesis by simp
  qed
next
  case (BCall k t out)
  then show ?thesis by (simp add: finish_attempt_progress)
next
  case (BSleep k t ok r)
  then show ?thesis by (auto simp: Let_def intro!: quiet_progress) (simp_all add: quiet_def)
next
  case (BDone run)
  then show ?thesis by simp
qed

lemma exec_steps_progress:
  "progress (bk_idx bk) (bk_node bk) st (snd (exec_steps n env bk b st))"
proof (induction n arbitrary: b st)
  case 0
  then show ?case by simp
next
  case (Suc n)
  show ?case
    using progress_trans [OF exec_step_progress Suc.IH] by (simp add: split_beta)
qed

lemma mk_block_simps [simp]:
  "bk_idx (fst (mk_block env idx node target st)) = idx"
  "bk_node (fst (mk_block env idx node target st)) = node"
  "bk_target (fst (mk_block env idx node target st)) = target"
  "quiet st (snd (mk_block env idx node target st))"
  using quiet_buildCredentials [of st "nt_inst target"] by (simp_all add: mk_block_def split_beta)

lemma execNode_progress: "progress idx node st (snd (execNode env idx node target st))"
proof -
  let ?bk = "fst (mk_block env idx node target st)" and ?st1 = "snd (mk_block env idx node target st)"
  have "progress idx node st ?st1" by (rule quiet_progress) simp
  also have "progress idx node ?st1 (snd (exec_steps (branch_rank node start_branch) env ?bk start_branch ?st1))"
    using exec_steps_progress [of ?bk] by simp
  finally show ?thesis by (simp add: execNode_def split_beta)
qed

text \<open>The loop always ends in a result: the fuel of \<open>execNode\<close> is enough.\<close>

lemma execNode_done:
  "\<exists>run st'. exec_steps (branch_rank node start_branch) env (fst (mk_block env idx node target st)) start_branch
      (snd (mk_block env idx node target st)) = (BDone run, st') \<and> execNode env idx node target st = (run, st')"
  using exec_steps_done [of "fst (mk_block env idx node target st)" start_branch "branch_rank node start_branch"
      env "snd (mk_block env idx node target st)"]
  by (auto simp: execNode_def split_beta branch_run_def) (metis prod.collapse)

subsection \<open>How often a block calls its provider\<close>

text \<open>The attempts a branch may still begin.\<close>

definition branch_left :: "ChainNode \<Rightarrow> branch \<Rightarrow> nat" where
  "branch_left node b =
     (case b of BTry k r a \<Rightarrow> nat (attempts_of node) - k
      | BCall k t out \<Rightarrow> nat (attempts_of node) - Suc k
      | BSleep k t ok r \<Rightarrow> nat (attempts_of node) - Suc k
      | BDone run \<Rightarrow> 0)"

lemma settle_attempt_invoked [simp]:
  "rs_invoked (snd (snd (snd (settle_attempt env bk k t0 out st)))) = rs_invoked st"
  by (simp add: settle_attempt_def call_return_def Let_def split_beta)

lemma finish_attempt_invoked [simp]: "rs_invoked (snd (finish_attempt env bk k t0 out st)) = rs_invoked st"
  using settle_attempt_invoked [of env bk k t0 out st]
  by (simp add: finish_attempt_def decide_attempt_def split_beta Let_def)

lemma finish_attempt_left:
  "branch_left (bk_node bk) (fst (finish_attempt env bk k t0 out st)) \<le> nat (attempts_of (bk_node bk)) - Suc k"
  by (simp add: finish_attempt_def decide_attempt_def branch_left_def split_beta)

lemma exec_step_calls:
  "length (rs_invoked (snd (exec_step env bk b st))) + branch_left (bk_node bk) (fst (exec_step env bk b st))
     \<le> length (rs_invoked st) + branch_left (bk_node bk) b"
proof (cases b)
  case (BTry k r a)
  let ?st1 = "st\<lparr>rs_ws := snd (takeStep (rs_ws st))\<rparr>"
  obtain out args where b: "fst (begin_attempt env bk k r ?st1) = BCall k (rs_clock ?st1) out"
      "rs_invoked (snd (begin_attempt env bk k r ?st1)) = rs_invoked ?st1 @ call_record env bk k args out"
    by (rule begin_attempt_calls [of env bk k r ?st1])
  have "length (call_record env bk k args out) \<le> 1" by (simp add: call_record_def)
  with BTry b show ?thesis by (auto simp: split_beta branch_left_def Let_def)
next
  case (BCall k t out)
  then show ?thesis using finish_attempt_left [of bk env k t out st] by (simp add: branch_left_def)
next
  case (BSleep k t ok r)
  then show ?thesis by (auto simp: branch_left_def)
next
  case (BDone run)
  then show ?thesis by simp
qed

lemma exec_steps_calls:
  "length (rs_invoked (snd (exec_steps n env bk b st))) \<le> length (rs_invoked st) + branch_left (bk_node bk) b"
proof (induction n arbitrary: b st)
  case (Suc n)
  show ?case
    using order_trans [OF Suc.IH exec_step_calls [of env bk b st, THEN order_trans]]
      Suc.IH [of "fst (exec_step env bk b st)" "snd (exec_step env bk b st)"] exec_step_calls [of env bk b st]
    by (simp add: split_beta)
qed simp

lemma execNode_calls:
  "length (rs_invoked (snd (execNode env idx node target st))) \<le> length (rs_invoked st) + nat (attempts_of node)"
proof -
  let ?m = "mk_block env idx node target st"
  have "rs_invoked (snd ?m) = rs_invoked st" using mk_block_simps(4) by (simp add: quiet_def)
  then show ?thesis
    using exec_steps_calls [of "branch_rank node start_branch" env "fst ?m" start_branch "snd ?m"]
    by (simp add: execNode_def split_beta branch_left_def start_branch_def)
qed

subsection \<open>No call after a permanent failure\<close>

text \<open>
  The trace of calls is fine when no call follows a permanently failed one of the same
  provider, and every such provider is marked dead.
\<close>

definition calls_ok :: "invocation list \<Rightarrow> bool" where
  "calls_ok vs \<longleftrightarrow> sorted_wrt (\<lambda>v w. iv_Provider v = iv_Provider w \<longrightarrow> \<not> fatal (iv_Result v)) vs"

definition fatal_dead :: "run_state \<Rightarrow> invocation list \<Rightarrow> bool" where
  "fatal_dead st vs \<longleftrightarrow> (\<forall>v \<in> set vs. fatal (iv_Result v) \<longrightarrow> isDead (rs_ws st) (iv_Provider v))"

definition trace_ok :: "run_state \<Rightarrow> bool" where
  "trace_ok st \<longleftrightarrow> calls_ok (rs_invoked st) \<and> fatal_dead st (rs_invoked st)"

text \<open>While a call is in flight, its own record is not yet covered by a dead mark.\<close>

definition branch_trace :: "block \<Rightarrow> branch \<Rightarrow> run_state \<Rightarrow> bool" where
  "branch_trace bk b st \<longleftrightarrow>
     (case b of
        BCall k t out \<Rightarrow>
          calls_ok (rs_invoked st) \<and> \<not> isDead (rs_ws st) (n_ProviderID (bk_node bk)) \<and>
          (\<exists>vs args env. rs_invoked st = vs @ call_record env bk k args out \<and> fatal_dead st vs)
      | BDone run \<Rightarrow> trace_ok st
      | _ \<Rightarrow> trace_ok st \<and> \<not> isDead (rs_ws st) (n_ProviderID (bk_node bk)))"

lemma trace_ok_cong:
  "rs_invoked st' = rs_invoked st \<Longrightarrow> (\<And>p. isDead (rs_ws st) p \<Longrightarrow> isDead (rs_ws st') p) \<Longrightarrow>
   trace_ok st \<Longrightarrow> trace_ok st'"
  by (auto simp: trace_ok_def fatal_dead_def)

lemma calls_ok_append:
  assumes "calls_ok vs" "fatal_dead st vs" "\<not> isDead (rs_ws st) (iv_Provider v)"
  shows "calls_ok (vs @ [v])"
  using assms by (fastforce simp: calls_ok_def fatal_dead_def sorted_wrt_append)

lemma begin_attempt_trace:
  assumes "trace_ok st" "\<not> isDead (rs_ws st) (n_ProviderID (bk_node bk))"
  shows "branch_trace bk (fst (begin_attempt env bk k prev st)) (snd (begin_attempt env bk k prev st))"
proof -
  obtain out args where b: "fst (begin_attempt env bk k prev st) = BCall k (rs_clock st) out"
      "rs_invoked (snd (begin_attempt env bk k prev st)) = rs_invoked st @ call_record env bk k args out"
      "rs_ws (snd (begin_attempt env bk k prev st)) = rs_ws st"
    by (rule begin_attempt_calls [of env bk k prev st])
  have "calls_ok (rs_invoked st @ call_record env bk k args out)"
    using assms call_record_cases [of env bk k args out] calls_ok_append [of "rs_invoked st" st]
    by (auto simp: trace_ok_def)
  then show ?thesis
    using assms b unfolding branch_trace_def
    by (auto simp: trace_ok_def fatal_dead_def intro!: exI [of _ "rs_invoked st"])
qed

lemma attempt_result_raw:
  "co_Acquire out = None \<Longrightarrow> r_OK (attempt_result bk out st) = r_OK (co_Result out)"
  "co_Acquire out = None \<Longrightarrow> r_Permanent (attempt_result bk out st) = r_Permanent (co_Result out)"
  by (simp_all add: attempt_result_def Let_def)

lemma settle_attempt_fatal:
  assumes "settle_attempt env bk k t0 out st = (r, sleep, delay, st1)"
  shows "co_Acquire out = None \<Longrightarrow> fatal r = fatal (co_Result out)"
    and "rs_invoked st1 = rs_invoked st" and "isDead (rs_ws st1) p = isDead (rs_ws st) p"
proof -
  obtain st2 where c: "call_return bk t0 out st = (r, st2)" and st1: "st1 = record_attempt env bk k t0 out r delay st2"
    using assms by (rule settle_attemptE)
  have q: "quiet st st2" using call_return_simps [of st bk t0 out] c by simp
  have "\<exists>st'. r = attempt_result bk out st'" using c by (auto simp: call_return_def Let_def)
  then show "co_Acquire out = None \<Longrightarrow> fatal r = fatal (co_Result out)"
    by (auto simp: fatal_def attempt_result_raw)
  show "rs_invoked st1 = rs_invoked st" "isDead (rs_ws st1) p = isDead (rs_ws st) p"
    using q by (simp_all add: st1 quiet_def)
qed

lemma finish_attempt_trace:
  assumes "branch_trace bk (BCall k t0 out) st"
  shows "branch_trace bk (fst (finish_attempt env bk k t0 out st)) (snd (finish_attempt env bk k t0 out st))"
proof -
  obtain r sleep delay st1 where s: "settle_attempt env bk k t0 out st = (r, sleep, delay, st1)"
    by (metis prod_cases4)
  note f = settle_attempt_fatal [OF s]
  obtain vs args env' where vs: "rs_invoked st = vs @ call_record env' bk k args out" "fatal_dead st vs"
    and alive: "\<not> isDead (rs_ws st) (n_ProviderID (bk_node bk))" and ok: "calls_ok (rs_invoked st)"
    using assms unfolding branch_trace_def by auto
  have dead: "fatal_dead st2 (rs_invoked st)"
    if "\<And>p. isDead (rs_ws st) p \<Longrightarrow> isDead (rs_ws st2) p"
      "fatal r \<Longrightarrow> isDead (rs_ws st2) (n_ProviderID (bk_node bk))" for st2
  proof -
    have "isDead (rs_ws st2) (iv_Provider v)"
      if v: "v \<in> set (call_record env' bk k args out)" "fatal (iv_Result v)" for v
      using v call_record_cases [of env' bk k args out] f(1) \<open>fatal r \<Longrightarrow> _\<close> by auto
    with vs that(1) show ?thesis by (auto simp: fatal_dead_def)
  qed
  have wins: "wins env bk r \<Longrightarrow> \<not> fatal r" by (simp add: wins_def fatal_def)
  consider "wins env bk r" | "\<not> wins env bk r" "r_Permanent r" | "\<not> wins env bk r" "\<not> r_Permanent r" by blast
  then show ?thesis
  proof cases
    case 1
    then show ?thesis
      using dead [of st1] wins ok by (simp add: finish_attempt_def s decide_attempt_def branch_trace_def trace_ok_def f(2,3))
  next
    case 2
    then show ?thesis
      using dead [of "snd (decide_attempt env bk k r sleep delay st1)"] ok
      by (simp add: finish_attempt_def s decide_attempt_def branch_trace_def trace_ok_def f(2,3) fatal_dead_def)
  next
    case 3
    then have "\<not> fatal r" by (simp add: fatal_def)
    then show ?thesis
      using 3 dead [of st1] ok alive
      by (simp add: finish_attempt_def s decide_attempt_def branch_trace_def trace_ok_def f(2,3) split_beta)
  qed
qed

lemma exec_step_trace:
  assumes "branch_trace bk b st"
  shows "branch_trace bk (fst (exec_step env bk b st)) (snd (exec_step env bk b st))"
proof (cases b)
  case (BTry k r a)
  let ?st1 = "st\<lparr>rs_ws := snd (takeStep (rs_ws st))\<rparr>"
  have st: "trace_ok st" "\<not> isDead (rs_ws st) (n_ProviderID (bk_node bk))"
    using assms BTry by (simp_all add: branch_trace_def)
  then have st1: "trace_ok ?st1" "\<not> isDead (rs_ws ?st1) (n_ProviderID (bk_node bk))"
    by (auto intro: trace_ok_cong [of _ st])
  show ?thesis
    using st(1) st1(1) begin_attempt_trace [OF st1] BTry by (simp add: split_beta Let_def branch_trace_def [of _ "BDone _"])
next
  case (BCall k t out)
  then show ?thesis using finish_attempt_trace assms by simp
next
  case (BSleep k t ok r)
  then show ?thesis using assms by (auto simp: branch_trace_def trace_ok_def fatal_dead_def)
next
  case (BDone run)
  then show ?thesis using assms by simp
qed

lemma exec_steps_trace:
  "branch_trace bk b st \<Longrightarrow> branch_trace bk (fst (exec_steps n env bk b st)) (snd (exec_steps n env bk b st))"
proof (induction n arbitrary: b st)
  case (Suc n)
  from Suc.IH [OF exec_step_trace [OF Suc.prems, of env]] show ?case by (simp add: split_beta)
qed simp

lemma execNode_trace:
  assumes "trace_ok st" "\<not> isDead (rs_ws st) (n_ProviderID node)"
  shows "trace_ok (snd (execNode env idx node target st))"
proof -
  let ?bk = "fst (mk_block env idx node target st)" and ?st1 = "snd (mk_block env idx node target st)"
  have "branch_trace ?bk start_branch ?st1"
    using assms mk_block_simps(4) [of st env idx node target]
    by (auto simp: branch_trace_def start_branch_def quiet_def trace_ok_def fatal_dead_def)
  note tr = exec_steps_trace [OF this, of "branch_rank node start_branch" env]
  obtain run st' where e: "exec_steps (branch_rank node start_branch) env ?bk start_branch ?st1 = (BDone run, st')"
      "execNode env idx node target st = (run, st')"
    using execNode_done by blast
  from tr show ?thesis by (simp add: e branch_trace_def)
qed

lemma resolveNode_alive:
  "nt_reason (fst (resolveNode env node st)) = [] \<Longrightarrow> \<not> isDead (rs_ws st) (n_ProviderID node)"
  using quiet_instanceDeadReason [of st "driver_of env node" "env_providers env (n_ProviderID node)"]
  by (auto simp: resolveNode_def Let_def quiet_def split_beta deadMarked_def deadCooldown_def split: if_splits)

lemma quiet_trace: "quiet st st' \<Longrightarrow> trace_ok st \<Longrightarrow> trace_ok st'"
  by (rule trace_ok_cong) (simp_all add: quiet_def)

lemma recordSkip_trace: "trace_ok st \<Longrightarrow> trace_ok (recordSkip env idx node code reason st)"
  by (rule trace_ok_cong) (simp_all add: recordSkip_def Let_def)

subsection \<open>What the history records\<close>

text \<open>
  No step added to the history shows a secret registered before it, and every recorded wait
  is at most thirty seconds. (A secret with an asterisk could be completed by the mask
  itself, so the statement is about secrets without one.)
\<close>

definition step_clean :: "redactor \<Rightarrow> RequestStep \<Rightarrow> bool" where
  "step_clean secrets s \<longleftrightarrow>
     (\<forall>x \<in> set secrets. star_free x \<longrightarrow> \<not> Contains (st_Error s) x) \<and>
     0 \<le> st_WaitBeforeMS s \<and> st_WaitBeforeMS s \<le> 30000"

definition clean :: "run_state \<Rightarrow> run_state \<Rightarrow> bool" where
  "clean st st' \<longleftrightarrow> set (rs_secrets st) \<subseteq> set (rs_secrets st') \<and>
     (\<exists>ss. rs_steps st' = rs_steps st @ ss \<and> (\<forall>s \<in> set ss. step_clean (rs_secrets st) s))"

lemma clean_refl [simp]: "clean st st"
  by (simp add: clean_def)

lemma step_clean_mono: "step_clean secrets s \<Longrightarrow> set old \<subseteq> set secrets \<Longrightarrow> step_clean old s"
  by (auto simp: step_clean_def)

lemma clean_trans [trans]: "clean a b \<Longrightarrow> clean b c \<Longrightarrow> clean a c"
  unfolding clean_def by (elim conjE exE) (auto dest: step_clean_mono intro: step_clean_mono)

lemma clean_same: "rs_secrets st' = rs_secrets st \<Longrightarrow> rs_steps st' = rs_steps st \<Longrightarrow> clean st st'"
  by (simp add: clean_def)

lemma clean_SaveStep: "step_clean (rs_secrets st) s \<Longrightarrow> clean st (SaveStep s st)"
  by (simp add: clean_def)

lemma clean_publish: "clean st (publish e st)"
  by (rule clean_same) simp_all

lemma clean_AddSecret: "clean st (AddSecret vs st)"
  using set_redactor_Add [of "rs_secrets st" vs] by (auto simp: clean_def AddSecret_def)

lemma Redact_clean: "star_free x \<Longrightarrow> x \<in> set (rs_secrets st) \<Longrightarrow> \<not> Contains (Redact st e) x"
  by (simp add: Redact_def redactor_String_masks)

lemma star_free_Nil [simp]: "\<not> star_free []"
  by (simp add: star_free_def)

lemma Contains_Nil: "star_free x \<Longrightarrow> \<not> Contains [] x"
  by (simp add: star_free_def)

lemma retry_delay_range: "0 \<le> sint (retry_delay bk k r) \<and> sint (retry_delay bk k r) \<le> 30 * 10 ^ 9"
  using backoffDelay_range capDelay_range by (simp add: retry_delay_def Let_def)

lemma stage_step_clean: "clean st (stage_step env bk a t r sc st)"
proof -
  have "clean st (SaveStep sub st)"
    if "st_Error sub = (case sc_Err sc of None \<Rightarrow> [] | Some e \<Rightarrow> Redact st (err_Message e))"
      "st_WaitBeforeMS sub = 0" for sub
    using that by (intro clean_SaveStep) (auto simp: step_clean_def Redact_clean Contains_Nil split: option.splits)
  then show ?thesis
    unfolding stage_step_def Let_def by (intro clean_trans [OF _ clean_publish]) simp
qed

lemma fold_stage_step_clean: "clean st (fold (stage_step env bk a t r) scs st)"
proof (induction scs arbitrary: st)
  case (Cons sc scs)
  from clean_trans [OF stage_step_clean Cons.IH] show ?case by simp
qed simp

lemma record_attempt_clean:
  assumes "\<And>x. star_free x \<Longrightarrow> x \<in> set (rs_secrets st) \<Longrightarrow> \<not> Contains (r_Error r) x"
    and "0 \<le> sint d" "sint d \<le> 30 * 10 ^ 9"
  shows "clean st (record_attempt env bk a t out r d st)"
proof -
  let ?s = "attempt_step env bk a t out r d st"
  have div: "0 \<le> sint d div 10 ^ 6" "sint d div 10 ^ 6 \<le> 30000"
    using assms(2,3) zdiv_mono1 [of "sint d" "30 * 10 ^ 9" "10 ^ 6"] by (auto simp: pos_imp_zdiv_nonneg_iff)
  then have "clean st (SaveStep ?s st)"
    using assms(1) by (intro clean_SaveStep) (auto simp: step_clean_def attempt_step_def)
  moreover have "\<exists>st5. record_attempt env bk a t out r d st = extra_steps out (fold (stage_step env bk a t r) (co_Stages out) st5)
      \<and> clean (SaveStep ?s st) st5"
    unfolding record_attempt_def Let_def split_beta by (rule exI, rule conjI, rule refl) (auto intro: clean_same)
  then obtain st5 where st5: "record_attempt env bk a t out r d st = extra_steps out (fold (stage_step env bk a t r) (co_Stages out) st5)"
      "clean (SaveStep ?s st) st5" by blast
  moreover have "clean (fold (stage_step env bk a t r) (co_Stages out) st5) (record_attempt env bk a t out r d st)"
    unfolding st5(1) by (rule clean_same) (simp_all add: extra_steps_def Let_def)
  ultimately show ?thesis
    using fold_stage_step_clean clean_trans by meson
qed

lemma finish_attempt_clean: "clean st (snd (finish_attempt env bk k t0 out st))"
proof -
  obtain r sleep delay st1 where s: "settle_attempt env bk k t0 out st = (r, sleep, delay, st1)"
    by (metis prod_cases4)
  obtain st2 where c: "call_return bk t0 out st = (r, st2)" and d: "delay = (if sleep then retry_delay bk k r else 0)"
    and st1: "st1 = record_attempt env bk k t0 out r delay st2"
    using s by (rule settle_attemptE)
  have st2: "clean st st2" "rs_secrets st2 = rs_secrets st"
    using c by (auto simp: call_return_def Let_def intro: clean_same)
  have "\<not> Contains (r_Error r) x" if "star_free x" "x \<in> set (rs_secrets st2)" for x
    using c that st2(2) by (auto simp: call_return_def Let_def attempt_result_def Redact_def redactor_String_masks)
  then have "clean st2 st1"
    unfolding st1 using retry_delay_range d by (intro record_attempt_clean) auto
  moreover have "clean st1 (snd (decide_attempt env bk k r sleep delay st1))"
    by (rule clean_same) (simp_all add: decide_attempt_def split_beta)
  ultimately show ?thesis
    using st2(1) clean_trans unfolding finish_attempt_def s by auto
qed

lemma proxyConfig_clean: "clean st (snd (proxyConfig p st))"
  by (simp add: proxyConfig_def clean_AddSecret split: option.splits)

lemma begin_attempt_clean: "clean st (snd (begin_attempt env bk k prev st))"
proof -
  let ?st2 = "publish (EventStepStarted \<lparr>ss_Idx = bk_idx bk, ss_Node = n_Key (bk_node bk),
        ss_Provider = nt_display (bk_target bk), ss_Engine = r_Engine prev, ss_Attempt = k, ss_T0 = rs_clock st\<rparr>) st"
  obtain pc st3 where p: "proxyConfig (nt_proxy (bk_target bk)) ?st2 = (pc, st3)" by fastforce
  have "clean st st3"
    using clean_trans [OF clean_publish proxyConfig_clean] p by (metis snd_conv)
  moreover have "clean st3 (snd (begin_attempt env bk k prev st))"
    by (rule clean_same) (simp_all add: begin_attempt_def Let_def p)
  ultimately show ?thesis by (rule clean_trans)
qed

lemma exec_step_clean: "clean st (snd (exec_step env bk b st))"
proof (cases b)
  case (BTry k r a)
  have "clean st (st\<lparr>rs_ws := ws\<rparr>)" for ws by (rule clean_same) simp_all
  with BTry show ?thesis
    using clean_trans [OF _ begin_attempt_clean] by (auto simp: split_beta Let_def)
qed (auto simp: finish_attempt_clean Let_def intro: clean_same)

lemma exec_steps_clean: "clean st (snd (exec_steps n env bk b st))"
proof (induction n arbitrary: b st)
  case (Suc n)
  from clean_trans [OF exec_step_clean Suc.IH] show ?case by (simp add: split_beta)
qed simp

text \<open>The credentials of the instance are registered before its first attempt.\<close>

lemma execNode_secrets:
  assumes inst: "nt_inst target = Some p" and v: "v \<in> snd ` set (p_Credentials p)"
    and len: "4 \<le> length (TrimSpace v)" "star_free (TrimSpace v)"
  obtains ss where "rs_steps (snd (execNode env idx node target st)) = rs_steps st @ ss"
    "\<forall>s \<in> set ss. \<not> Contains (st_Error s) (TrimSpace v)"
proof -
  let ?m = "mk_block env idx node target st"
  have "v \<noteq> []" using len by auto
  then have sec: "TrimSpace v \<in> set (rs_secrets (snd ?m))"
    using inst v len by (auto simp: mk_block_def buildCredentials_def creds_of_def AddSecret_def set_redactor_Add)
  have "rs_steps (snd ?m) = rs_steps st" using mk_block_simps(4) by (simp add: quiet_def)
  moreover have "clean (snd ?m) (snd (execNode env idx node target st))"
    using exec_steps_clean [of "snd ?m"] by (simp add: execNode_def split_beta)
  ultimately obtain ss where "rs_steps (snd (execNode env idx node target st)) = rs_steps st @ ss"
      "\<forall>s \<in> set ss. step_clean (rs_secrets (snd ?m)) s"
    unfolding clean_def by auto
  then show ?thesis using that sec len by (auto simp: step_clean_def)
qed

end
