(* ===== verification/Dedupe.thy ===== *)
theory Dedupe
  imports Models
begin

text \<open>
  The merger of \<open>internal/engine/dedupe.go\<close>, for any normalization \<open>nk\<close> of links: the
  accumulated rows, the index of the row of each key, and the count of rows seen. The
  abstract specification \<open>merge_spec\<close> is a function of the list of contributed rows; the
  merger is shown to compute it.
\<close>

record merger =
  m_rows :: "Row list"
  m_byKey :: "string \<rightharpoonup> nat"
  m_collected :: nat

definition newMerger :: merger where
  "newMerger = \<lparr>m_rows = [], m_byKey = Map.empty, m_collected = 0\<rparr>"

text \<open>The body of the loop of \<open>add\<close>; the flag says whether the merged set changed.\<close>

definition add_row :: "(string \<Rightarrow> string) \<Rightarrow> string \<Rightarrow> Row \<Rightarrow> merger \<times> bool \<Rightarrow> merger \<times> bool" where
  "add_row nk provider row mc =
     (let (m, changed) = mc;
          m1 = m\<lparr>m_collected := m_collected m + 1\<rparr>;
          key = nk (row_Link row)
      in case m_byKey m1 key of
           Some idx \<Rightarrow>
             (let old = m_rows m1 ! idx in
              if provider \<in> set (row_Sources old) then (m1, changed)
              else (m1\<lparr>m_rows := (m_rows m1)[idx := old\<lparr>row_Sources := row_Sources old @ [provider]\<rparr>]\<rparr>, True))
         | None \<Rightarrow>
             (m1\<lparr>m_byKey := (m_byKey m1)(key \<mapsto> length (m_rows m1)),
                 m_rows := m_rows m1 @ [row\<lparr>row_Sources := [provider]\<rparr>]\<rparr>, True))"

definition merger_add :: "(string \<Rightarrow> string) \<Rightarrow> merger \<Rightarrow> string \<Rightarrow> Row list \<Rightarrow> merger \<times> bool" where
  "merger_add nk m provider rows = fold (add_row nk provider) rows (m, False)"

definition collectedTotal :: "merger \<Rightarrow> nat" where
  "collectedTotal m = m_collected m"

definition uniqueCount :: "merger \<Rightarrow> nat" where
  "uniqueCount m = length (m_rows m)"

definition duplicatesRemoved :: "merger \<Rightarrow> nat" where
  "duplicatesRemoved m = m_collected m - length (m_rows m)"

definition merger_providers :: "merger \<Rightarrow> string list" where
  "merger_providers m = nub (concat (map row_Sources (m_rows m)))"

definition rowsUpTo :: "merger \<Rightarrow> int \<Rightarrow> Row list" where
  "rowsUpTo m count =
     (if count > 0 \<and> int (length (m_rows m)) > count then take (nat count) (m_rows m) else m_rows m)"

text \<open>Feeding the merger a sequence of blocks, each a provider name and its rows.\<close>

fun merge_all :: "(string \<Rightarrow> string) \<Rightarrow> merger \<Rightarrow> (string \<times> Row list) list \<Rightarrow> merger" where
  "merge_all nk m [] = m"
| "merge_all nk m ((p, rows) # bs) = merge_all nk (fst (merger_add nk m p rows)) bs"

subsection \<open>Specification\<close>

definition contributions :: "(string \<times> Row list) list \<Rightarrow> (string \<times> Row) list" where
  "contributions bs = concat (map (\<lambda>(p, rows). map (Pair p) rows) bs)"

definition key_of :: "(string \<Rightarrow> string) \<Rightarrow> string \<times> Row \<Rightarrow> string" where
  "key_of nk pr = nk (row_Link (snd pr))"

definition merged_row :: "(string \<Rightarrow> string) \<Rightarrow> (string \<times> Row) list \<Rightarrow> string \<Rightarrow> Row" where
  "merged_row nk xs k =
     (let ys = filter (\<lambda>pr. key_of nk pr = k) xs
      in (snd (hd ys))\<lparr>row_Sources := nub (map fst ys)\<rparr>)"

definition merge_spec :: "(string \<Rightarrow> string) \<Rightarrow> (string \<times> Row) list \<Rightarrow> Row list" where
  "merge_spec nk xs = map (merged_row nk xs) (nub (map (key_of nk) xs))"

text \<open>The merger after consuming \<open>xs\<close>: its rows are the specified ones and the index is exact.\<close>

definition merger_repr :: "(string \<Rightarrow> string) \<Rightarrow> (string \<times> Row) list \<Rightarrow> merger \<Rightarrow> bool" where
  "merger_repr nk xs m \<longleftrightarrow>
     m_rows m = merge_spec nk xs \<and> m_collected m = length xs \<and>
     (\<forall>k i. m_byKey m k = Some i \<longleftrightarrow>
        i < length (nub (map (key_of nk) xs)) \<and> nub (map (key_of nk) xs) ! i = k)"

lemma merged_row_snoc_other:
  "key_of nk x \<noteq> k \<Longrightarrow> merged_row nk (xs @ [x]) k = merged_row nk xs k"
  by (simp add: merged_row_def)

lemma filter_key_empty: "k \<notin> set (map f xs) \<Longrightarrow> filter (\<lambda>x. f x = k) xs = []"
  by (induction xs) auto

lemma merged_row_snoc_new:
  "key_of nk (p, row) \<notin> set (map (key_of nk) xs) \<Longrightarrow>
   merged_row nk (xs @ [(p, row)]) (key_of nk (p, row)) = row\<lparr>row_Sources := [p]\<rparr>"
proof -
  assume "key_of nk (p, row) \<notin> set (map (key_of nk) xs)"
  then have "filter (\<lambda>pr. key_of nk pr = key_of nk (p, row)) xs = []"
    by (rule filter_key_empty)
  then show ?thesis using nub_snoc [of "[]" p] by (simp add: merged_row_def)
qed

lemma row_Sources_merged_row:
  "row_Sources (merged_row nk xs k) = nub (map fst (filter (\<lambda>pr. key_of nk pr = k) xs))"
  by (simp add: merged_row_def Let_def)

lemma merged_row_snoc_old:
  assumes "k \<in> set (map (key_of nk) xs)" "key_of nk (p, row) = k"
  shows "merged_row nk (xs @ [(p, row)]) k =
    (if p \<in> set (row_Sources (merged_row nk xs k)) then merged_row nk xs k
     else (merged_row nk xs k)\<lparr>row_Sources := row_Sources (merged_row nk xs k) @ [p]\<rparr>)"
proof -
  have "filter (\<lambda>pr. key_of nk pr = k) xs \<noteq> []"
    using assms(1) by (auto simp: filter_empty_conv)
  then show ?thesis
    using assms(2) unfolding row_Sources_merged_row by (simp add: merged_row_def Let_def)
qed

lemma merger_repr_new: "merger_repr nk [] newMerger"
  by (simp add: merger_repr_def newMerger_def merge_spec_def)

lemma add_row_repr:
  assumes R: "merger_repr nk xs m"
  shows "merger_repr nk (xs @ [(p, row)]) (fst (add_row nk p row (m, c)))"
proof (cases "m_byKey m (key_of nk (p, row))")
  case None
  let ?k = "key_of nk (p, row)" and ?ks = "nub (map (key_of nk) xs)"
  have len: "length (m_rows m) = length ?ks" using R by (simp add: merger_repr_def merge_spec_def)
  have byKey: "m_byKey m k = Some i \<longleftrightarrow> i < length ?ks \<and> ?ks ! i = k" for k i
    using R len by (simp add: merger_repr_def)
  have fresh: "?k \<notin> set (map (key_of nk) xs)"
  proof
    assume "?k \<in> set (map (key_of nk) xs)"
    then have "?k \<in> set ?ks" by simp
    then obtain i where "i < length ?ks" "?ks ! i = ?k" by (metis in_set_conv_nth)
    then have "m_byKey m ?k = Some i" using byKey by simp
    with None show False by simp
  qed
  have other: "map (merged_row nk (xs @ [(p, row)])) ?ks = map (merged_row nk xs) ?ks"
    using fresh by (intro map_cong refl merged_row_snoc_other) auto
  have step: "fst (add_row nk p row (m, c)) =
      m\<lparr>m_collected := m_collected m + 1, m_byKey := (m_byKey m)(?k \<mapsto> length ?ks),
        m_rows := m_rows m @ [row\<lparr>row_Sources := [p]\<rparr>]\<rparr>"
    using None by (simp add: add_row_def key_of_def len)
  have ks: "nub (map (key_of nk) (xs @ [(p, row)])) = ?ks @ [?k]" using fresh by simp
  have "((m_byKey m)(?k \<mapsto> length ?ks)) k = Some i \<longleftrightarrow> i < Suc (length ?ks) \<and> (?ks @ [?k]) ! i = k" for k i
  proof (cases "k = ?k")
    case True
    have "?ks ! i \<noteq> ?k" if "i < length ?ks" using fresh that by (metis nth_mem set_nub)
    with True show ?thesis by (auto simp: nth_append less_Suc_eq)
  next
    case False
    with byKey show ?thesis by (auto simp: nth_append less_Suc_eq)
  qed
  moreover have "m_rows m @ [row\<lparr>row_Sources := [p]\<rparr>] = merge_spec nk (xs @ [(p, row)])"
    unfolding merge_spec_def ks using R other merged_row_snoc_new [OF fresh]
    by (simp add: merger_repr_def merge_spec_def)
  ultimately show ?thesis
    using R len unfolding merger_repr_def step ks by simp
next
  case (Some idx)
  let ?k = "key_of nk (p, row)" and ?ks = "nub (map (key_of nk) xs)"
  have idx: "idx < length ?ks" "?ks ! idx = ?k"
    using R Some by (auto simp: merger_repr_def merge_spec_def)
  then have old: "?k \<in> set (map (key_of nk) xs)" by (metis nth_mem set_nub)
  have nub: "nub (map (key_of nk) (xs @ [(p, row)])) = ?ks" using old by simp
  have upd: "map (merged_row nk (xs @ [(p, row)])) ?ks
      = (map (merged_row nk xs) ?ks)[idx := merged_row nk (xs @ [(p, row)]) ?k]"
  proof (rule nth_equalityI)
    fix i assume i: "i < length (map (merged_row nk (xs @ [(p, row)])) ?ks)"
    then have "i \<noteq> idx \<Longrightarrow> ?ks ! i \<noteq> ?k" using idx nth_eq_iff_index_eq [OF distinct_nub, of i "map (key_of nk) xs" idx] by simp
    with i idx show "map (merged_row nk (xs @ [(p, row)])) ?ks ! i
        = (map (merged_row nk xs) ?ks)[idx := merged_row nk (xs @ [(p, row)]) ?k] ! i"
      by (cases "i = idx") (simp_all add: merged_row_snoc_other)
  qed simp
  have row: "m_rows m ! idx = merged_row nk xs ?k"
    using R idx by (simp add: merger_repr_def merge_spec_def)
  have key: "nk (row_Link row) = ?k" by (simp add: key_of_def)
  have rows: "m_rows m = map (merged_row nk xs) ?ks" using R by (simp add: merger_repr_def merge_spec_def)
  have "(m_rows m)[idx := merged_row nk xs ?k] = m_rows m"
    using row by (metis list_update_id)
  then have step: "fst (add_row nk p row (m, c)) =
      m\<lparr>m_collected := m_collected m + 1,
        m_rows := (m_rows m)[idx := merged_row nk (xs @ [(p, row)]) ?k]\<rparr>"
    unfolding merged_row_snoc_old [OF old refl] by (simp add: add_row_def key Some row Let_def)
  have "merge_spec nk (xs @ [(p, row)]) = (m_rows m)[idx := merged_row nk (xs @ [(p, row)]) ?k]"
    unfolding merge_spec_def nub upd rows ..
  then show ?thesis
    using R unfolding merger_repr_def step nub by simp
qed

lemma fold_add_row_repr:
  "merger_repr nk xs m \<Longrightarrow>
   merger_repr nk (xs @ map (Pair p) rows) (fst (fold (add_row nk p) rows (m, c)))"
proof (induction rows arbitrary: xs m c)
  case Nil
  then show ?case by simp
next
  case (Cons r rows)
  obtain m1 c1 where s: "add_row nk p r (m, c) = (m1, c1)" by fastforce
  then have "merger_repr nk (xs @ [(p, r)]) m1"
    using add_row_repr [OF Cons.prems, of p r c] by simp
  from Cons.IH [OF this, of c1] s show ?case by simp
qed

lemma merge_all_repr:
  "merger_repr nk xs m \<Longrightarrow> merger_repr nk (xs @ contributions bs) (merge_all nk m bs)"
proof (induction bs arbitrary: xs m)
  case Nil
  then show ?case by (simp add: contributions_def)
next
  case (Cons b bs)
  obtain p rows where b: "b = (p, rows)" by fastforce
  have "merger_repr nk (xs @ map (Pair p) rows) (fst (merger_add nk m p rows))"
    unfolding merger_add_def by (rule fold_add_row_repr [OF Cons.prems])
  from Cons.IH [OF this] show ?case by (simp add: b contributions_def)
qed

lemma merge_all_spec:
  "m_rows (merge_all nk newMerger bs) = merge_spec nk (contributions bs)"
  "m_collected (merge_all nk newMerger bs) = length (contributions bs)"
  using merge_all_repr [OF merger_repr_new, of nk bs] by (simp_all add: merger_repr_def)

subsection \<open>Consequences\<close>

lemma merge_spec_keys:
  "map (\<lambda>r. nk (row_Link r)) (merge_spec nk xs) = nub (map (key_of nk) xs)"
proof -
  have "nk (row_Link (merged_row nk xs k)) = k" if k: "k \<in> set (map (key_of nk) xs)" for k
  proof -
    let ?ys = "filter (\<lambda>pr. key_of nk pr = k) xs"
    have "?ys \<noteq> []" using k by (auto simp: filter_empty_conv)
    then have "hd ?ys \<in> set ?ys" by (rule hd_in_set)
    then have "key_of nk (hd ?ys) = k" by (simp only: set_filter mem_Collect_eq)
    then show ?thesis by (simp add: merged_row_def Let_def key_of_def)
  qed
  then show ?thesis by (auto simp: merge_spec_def intro!: map_idI)
qed

lemma merge_spec_length: "length (merge_spec nk xs) \<le> length xs"
  using length_nub_le [of "map (key_of nk) xs"] by (simp add: merge_spec_def)

lemma rowsUpTo_count: "0 < count \<Longrightarrow> int (length (rowsUpTo m count)) \<le> count"
  by (auto simp: rowsUpTo_def)

lemma rowsUpTo_prefix: "prefix (rowsUpTo m count) (m_rows m)"
  by (simp add: rowsUpTo_def take_is_prefix)

end
