(* ===== verification/First_Success.thy ===== *)
theory First_Success
  imports Exec_Facts Dedupe "HOL-Library.Product_Lexorder"
begin

text \<open>
  The first-success walk (\<open>runFirstSuccess\<close>) and the completion of a request
  (\<open>finalize\<close>) of \<open>internal/engine/engine.go\<close>. The loop is a partial function: on a
  chain with a cycle of logical or skipped blocks it does not return. It is shown to return
  on every plan whose edges are acyclic, which is what the validation of chains grants.
\<close>

subsection \<open>Completing a request\<close>

definition toRequestResults :: "Row list \<Rightarrow> RequestResult list" where
  "toRequestResults rows =
     map (\<lambda>r. \<lparr>rr_Link = row_Link r, rr_Title = row_Title r, rr_Snippet = row_Snippet r,
               rr_Sources = row_Sources r\<rparr>) rows"

definition lastError :: "RequestStep list \<Rightarrow> string" where
  "lastError steps = (case find (\<lambda>s. st_Error s \<noteq> []) (rev steps) of None \<Rightarrow> [] | Some s \<Rightarrow> st_Error s)"

text \<open>The order in which the store returns the steps of a request.\<close>

definition stored_steps :: "RequestStep list \<Rightarrow> RequestStep list" where
  "stored_steps ss = sort_key (\<lambda>s. (st_Idx s, st_AttemptNo s, st_StartedAt s)) ss"

record Output =
  o_Request :: Request
  o_Rows :: "Row list"

definition request_done :: "Request \<Rightarrow> string \<Rightarrow> string \<Rightarrow> int \<Rightarrow> nat \<Rightarrow> RequestDone" where
  "request_done req status used steps n =
     \<lparr>rd_ID = rq_ID req, rd_RID = rq_RID req, rd_Status = status, rd_Used = used, rd_Steps = steps,
      rd_TotalMS = rq_TotalMS req, rd_Results = n, rd_Answer = rq_Answer req, rd_Error = rq_Error req,
      rd_CollectedTotal = (case rq_Merge req of None \<Rightarrow> 0 | Some m \<Rightarrow> ms_CollectedTotal m),
      rd_UniqueLinks = (case rq_Merge req of None \<Rightarrow> 0 | Some m \<Rightarrow> ms_UniqueLinks m),
      rd_DuplicatesRemoved = (case rq_Merge req of None \<Rightarrow> 0 | Some m \<Rightarrow> ms_DuplicatesRemoved m)\<rparr>"

definition finalize ::
  "run_env \<Rightarrow> MergeStats option \<Rightarrow> string \<Rightarrow> Row list \<Rightarrow> string \<Rightarrow> int \<Rightarrow> run_state \<Rightarrow> Output \<times> run_state" where
  "finalize env merge status0 rows used steps st =
     (let status = (if status0 = ''empty'' \<and> TrimSpace (rs_answer st) \<noteq> [] then ''ok'' else status0);
          total = (rs_clock st - env_startedAt env) div 10 ^ 6;
          err = (if status = ''fail'' \<and> rs_error st = [] then lastError (stored_steps (rs_steps st)) else rs_error st);
          req = (env_req env)\<lparr>rq_Status := status, rq_UsedProvider := used, rq_ResultsCount := length rows,
                  rq_Results := toRequestResults rows, rq_TotalMS := total, rq_StepsCount := steps,
                  rq_Error := err, rq_Answer := rs_answer st, rq_Merge := merge\<rparr>;
          st1 = st\<lparr>rs_metrics := RecordSearch status total (rs_metrics st), rs_error := err\<rparr>;
          ev = EventRequestDone (request_done req status used steps (length rows))
      in (\<lparr>o_Request = req, o_Rows = rows\<rparr>, publish_global ev (publish ev st1)))"

subsection \<open>The walk\<close>

record walk =
  wk_node :: "ChainNode option"
  wk_idx :: nat
  wk_last :: Result
  wk_merged :: merger

definition start_walk :: "run_env \<Rightarrow> walk" where
  "start_walk env = \<lparr>wk_node = Some (pl_start (env_plan env)), wk_idx = 0, wk_last = zero_result, wk_merged = newMerger\<rparr>"

text \<open>\<open>skipNode\<close>: record the skip and go on along the fail edge.\<close>

definition skipNode :: "run_env \<Rightarrow> nat \<Rightarrow> ChainNode \<Rightarrow> nodeTarget \<Rightarrow> run_state \<Rightarrow> ChainNode option \<times> run_state" where
  "skipNode env idx node target st =
     (Next (env_plan env) (Some node) ''fail'',
      recordSkip env idx node (nt_display target) (nt_reason target) st)"

text \<open>What the walk does after a block has run.\<close>

definition continues :: "bool \<Rightarrow> ChainNode \<Rightarrow> bool" where
  "continues logicalNew node \<longleftrightarrow> logicalNew \<and> defaultPolicy (n_OnSuccess node) ''stop'' \<noteq> ''stop''"

definition block_outcome :: "run_env \<Rightarrow> ChainNode \<Rightarrow> nodeTarget \<Rightarrow> Result \<Rightarrow> string" where
  "block_outcome env node target r =
     (if nt_answer target then outcomeOfAnswer r (allowSparseSources env node)
      else outcomeOf r (treatEmptyAsFail env node))"

definition finish_win ::
  "run_env \<Rightarrow> merger \<Rightarrow> nodeTarget \<Rightarrow> nodeRun \<Rightarrow> run_state \<Rightarrow> Output \<times> run_state" where
  "finish_win env merged target run st =
     (let merged' = (if uniqueCount merged > 0 then fst (merger_add (env_link env) merged (nt_display target) (nr_rows run))
                     else merged);
          rows = (if uniqueCount merged > 0 then rowsUpTo merged' (env_Count env) else nr_rows run);
          used = (if uniqueCount merged > 0 then Join (merger_providers merged') '', '' else nt_display target)
      in finalize env None ''ok'' (providerRows rows (env_Count env)) used (ws_steps (rs_ws st)) st)"

definition after_block ::
  "run_env \<Rightarrow> bool \<Rightarrow> walk \<Rightarrow> ChainNode \<Rightarrow> nodeTarget \<Rightarrow> nodeRun \<Rightarrow> run_state
     \<Rightarrow> walk \<times> run_state + Output \<times> run_state" where
  "after_block env logicalNew w node target run st =
     (let w1 = w\<lparr>wk_last := nr_result run\<rparr> in
      if nr_won run
      then if \<not> continues logicalNew node
           then Inr (finish_win env (wk_merged w) target run st)
           else Inl (w1\<lparr>wk_merged := (if nr_rows run \<noteq> []
                          then fst (merger_add (env_link env) (wk_merged w) (nt_display target) (nr_rows run))
                          else wk_merged w),
                        wk_idx := wk_idx w + 1,
                        wk_node := Next (env_plan env) (Some node) ''success''\<rparr>, st)
      else Inl (w1\<lparr>wk_idx := wk_idx w + 1,
                   wk_node := Next (env_plan env) (Some node) (block_outcome env node target (nr_result run))\<rparr>,
                honorRetryAfter env (nr_result run) st))"

text \<open>One iteration on a block.\<close>

definition fs_step ::
  "run_env \<Rightarrow> bool \<Rightarrow> walk \<Rightarrow> ChainNode \<Rightarrow> run_state \<Rightarrow> walk \<times> run_state + Output \<times> run_state" where
  "fs_step env logicalNew w node st =
     (if \<not> is_provider node then Inl (w\<lparr>wk_node := firstNeutral (env_plan env) node\<rparr>, st)
      else
        (let (target, st1) = resolveNode env node st in
         if nt_reason target \<noteq> []
         then (let (next, st2) = skipNode env (wk_idx w) node target st1
               in Inl (w\<lparr>wk_node := next, wk_idx := wk_idx w + 1\<rparr>, st2))
         else (let (run, st2) = execNode env (wk_idx w) node target st1
               in after_block env logicalNew w node target run st2)))"

definition fs_exhausted :: "run_env \<Rightarrow> walk \<Rightarrow> run_state \<Rightarrow> Output \<times> run_state" where
  "fs_exhausted env w st =
     (let merged = wk_merged w; last = wk_last w; steps = ws_steps (rs_ws st) in
      if uniqueCount merged > 0
      then finalize env None ''ok'' (rowsUpTo merged (env_Count env)) (Join (merger_providers merged) '', '') steps st
      else if r_Kind last \<noteq> [] \<and> r_Kind last = KindOK
      then finalize env None ''empty'' [] [] steps st
      else finalize env None ''fail'' [] [] steps
             (if r_Kind last \<noteq> [] \<and> r_Error last \<noteq> [] then st\<lparr>rs_error := r_Error last\<rparr> else st))"

partial_function (option) fs_loop ::
  "run_env \<Rightarrow> bool \<Rightarrow> walk \<Rightarrow> run_state \<Rightarrow> (Output \<times> run_state) option" where
  "fs_loop env logicalNew w st =
     (case wk_node w of
        None \<Rightarrow> Some (fs_exhausted env w st)
      | Some node \<Rightarrow>
          if \<not> hasBudget (rs_ws st) then Some (fs_exhausted env w st)
          else (case fs_step env logicalNew w node st of
                  Inl (w', st') \<Rightarrow> fs_loop env logicalNew w' st'
                | Inr out \<Rightarrow> Some out))"

definition runFirstSuccess :: "run_env \<Rightarrow> int \<Rightarrow> bool \<Rightarrow> run_state \<Rightarrow> (Output \<times> run_state) option" where
  "runFirstSuccess env maxAttempts logicalNew st =
     fs_loop env logicalNew (start_walk env) (st\<lparr>rs_ws := newWalkState maxAttempts\<rparr>)"

subsection \<open>Completion facts\<close>

lemma providerRows_count: "0 < count \<Longrightarrow> int (length (providerRows rows count)) \<le> count"
  by (auto simp: providerRows_def)

lemma finalize_simps [simp]:
  "o_Rows (fst (finalize env mg s rows used n st)) = rows"
  "rq_ResultsCount (o_Request (fst (finalize env mg s rows used n st))) = length rows"
  "rq_Results (o_Request (fst (finalize env mg s rows used n st))) = toRequestResults rows"
  "rq_StepsCount (o_Request (fst (finalize env mg s rows used n st))) = n"
  "rq_Merge (o_Request (fst (finalize env mg s rows used n st))) = mg"
  "rq_UsedProvider (o_Request (fst (finalize env mg s rows used n st))) = used"
  "rq_Answer (o_Request (fst (finalize env mg s rows used n st))) = rs_answer st"
  "rs_ws (snd (finalize env mg s rows used n st)) = rs_ws st"
  "rs_invoked (snd (finalize env mg s rows used n st)) = rs_invoked st"
  "rs_attempts (snd (finalize env mg s rows used n st)) = rs_attempts st"
  "rs_steps (snd (finalize env mg s rows used n st)) = rs_steps st"
  "rs_clock (snd (finalize env mg s rows used n st)) = rs_clock st"
  by (simp_all add: finalize_def Let_def publish_def publish_global_def)

lemma finalize_status:
  "rq_Status (o_Request (fst (finalize env mg s rows used n st))) =
     (if s = ''empty'' \<and> TrimSpace (rs_answer st) \<noteq> [] then ''ok'' else s)"
  by (simp add: finalize_def Let_def)

text \<open>The history shown with a request mirrors the rows returned.\<close>

lemma length_toRequestResults [simp]: "length (toRequestResults rows) = length rows"
  by (simp add: toRequestResults_def)

subsection \<open>The invariant of the walk\<close>

text \<open>
  The walk stands on a block of the plan; steps are numbered in order, below the next
  number; the attempts are within the budget and none followed a permanent failure.
\<close>

definition history_ok :: "nat \<Rightarrow> run_state \<Rightarrow> bool" where
  "history_ok idx st \<longleftrightarrow> sorted (map st_Idx (rs_steps st)) \<and> (\<forall>s \<in> set (rs_steps st). st_Idx s < idx)"

definition fs_inv :: "run_env \<Rightarrow> int \<Rightarrow> walk \<Rightarrow> run_state \<Rightarrow> bool" where
  "fs_inv env mx w st \<longleftrightarrow>
     (\<forall>n. wk_node w = Some n \<longrightarrow> pl_nodes (env_plan env) (n_Key n) = Some n) \<and>
     budget_ok st \<and> trace_ok st \<and> ws_maxAttempts (rs_ws st) = mx \<and> history_ok (wk_idx w) st"

definition fs_post :: "run_env \<Rightarrow> int \<Rightarrow> Output \<times> run_state \<Rightarrow> bool" where
  "fs_post env mx out \<longleftrightarrow>
     (let (o', st) = out in
      budget_ok st \<and> trace_ok st \<and> ws_maxAttempts (rs_ws st) = mx \<and> (\<exists>i. history_ok i st) \<and>
      (0 < env_Count env \<longrightarrow> int (length (o_Rows o')) \<le> env_Count env))"

lemma fs_inv_node: "fs_inv env mx w st \<Longrightarrow> wk_node w = Some n \<Longrightarrow> pl_nodes (env_plan env) (n_Key n) = Some n"
  by (simp add: fs_inv_def)

lemma history_ok_progress:
  assumes "history_ok idx st" "progress idx node st st'"
  shows "history_ok (Suc idx) st'"
proof -
  obtain ss where ss: "rs_steps st' = rs_steps st @ ss" "\<forall>s \<in> set ss. st_Idx s = idx"
    using assms(2) unfolding progress_def by blast
  have "sorted (map st_Idx ss)" using ss(2) by (auto simp: sorted_iff_nth_mono)
  with assms(1) ss show ?thesis by (fastforce simp: history_ok_def sorted_append)
qed

lemma history_ok_quiet: "history_ok idx st \<Longrightarrow> quiet st st' \<Longrightarrow> history_ok idx st'"
  by (simp add: history_ok_def quiet_def)

lemma progress_maxAttempts: "progress idx node st st' \<Longrightarrow> ws_maxAttempts (rs_ws st') = ws_maxAttempts (rs_ws st)"
  by (simp add: progress_def)

lemma progress_budget: "progress idx node st st' \<Longrightarrow> budget_ok st \<Longrightarrow> budget_ok st'"
  by (simp add: progress_def)

text \<open>Running or skipping a block keeps everything but the position.\<close>

definition state_inv :: "int \<Rightarrow> nat \<Rightarrow> run_state \<Rightarrow> bool" where
  "state_inv mx idx st \<longleftrightarrow>
     budget_ok st \<and> trace_ok st \<and> ws_maxAttempts (rs_ws st) = mx \<and> history_ok idx st"

lemma state_inv_quiet: "state_inv mx idx st \<Longrightarrow> quiet st st' \<Longrightarrow> state_inv mx idx st'"
  unfolding state_inv_def
  using quiet_progress quiet_trace history_ok_quiet progress_budget progress_maxAttempts by metis

lemma state_inv_skip: "state_inv mx idx st \<Longrightarrow> state_inv mx (Suc idx) (recordSkip env idx node code reason st)"
  unfolding state_inv_def
  using recordSkip_progress [of idx node st env code reason] recordSkip_trace history_ok_progress progress_budget
    progress_maxAttempts by metis

lemma state_inv_execNode:
  assumes "state_inv mx idx st" "\<not> isDead (rs_ws st) (n_ProviderID node)"
  shows "state_inv mx (Suc idx) (snd (execNode env idx node target st))"
  using assms execNode_progress [of idx node st env target] unfolding state_inv_def
  by (metis execNode_trace history_ok_progress progress_budget progress_maxAttempts)

lemma resolve_alive:
  assumes "resolveNode env node st = (target, st1)" "nt_reason target = []"
  shows "\<not> isDead (rs_ws st1) (n_ProviderID node)"
  using assms resolveNode_alive [of env node st] quiet_resolveNode [of st env node] by (simp add: quiet_def)

lemma resolve_quiet: "resolveNode env node st = (target, st1) \<Longrightarrow> quiet st st1"
  using quiet_resolveNode [of st env node] by simp

lemma fs_inv_state: "fs_inv env mx w st \<longleftrightarrow>
    (\<forall>n. wk_node w = Some n \<longrightarrow> pl_nodes (env_plan env) (n_Key n) = Some n) \<and> state_inv mx (wk_idx w) st"
  by (auto simp: fs_inv_def state_inv_def)

lemma fs_post_finalize:
  assumes "state_inv mx idx st" "0 < env_Count env \<Longrightarrow> int (length rows) \<le> env_Count env"
  shows "fs_post env mx (finalize env mg s rows used n st)"
proof -
  obtain o' st' where f: "finalize env mg s rows used n st = (o', st')" by fastforce
  have "quiet st st'" "o_Rows o' = rows"
    using finalize_simps [of env mg s rows used n st] by (simp_all add: f quiet_def)
  with assms state_inv_quiet [OF assms(1)] show ?thesis
    unfolding fs_post_def f state_inv_def by auto
qed

lemma fs_step_moves:
  assumes wf: "plan_wf (env_plan env)" and n: "pl_nodes (env_plan env) (n_Key n) = Some n"
    and s: "fs_step env new w n st = Inl (w', st')" and m: "wk_node w' = Some m"
  shows "(n_Key n, n_Key m) \<in> plan_edge (env_plan env) \<and> pl_nodes (env_plan env) (n_Key m) = Some m"
proof -
  have "firstNeutral (env_plan env) n = Some m \<or> (\<exists>outcome. Next (env_plan env) (Some n) outcome = Some m)"
    using s m
    by (auto simp: fs_step_def after_block_def skipNode_def Let_def split: if_splits prod.splits)
  then show ?thesis using next_edges [OF wf n] by blast
qed

lemma fs_step_state:
  assumes inv: "state_inv mx (wk_idx w) st"
  shows "case fs_step env new w n st of
      Inl (w', st') \<Rightarrow> state_inv mx (wk_idx w') st'
    | Inr out \<Rightarrow> fs_post env mx out"
proof (cases "is_provider n")
  case False
  with inv show ?thesis by (simp add: fs_step_def)
next
  case prov: True
  obtain target st1 where r: "resolveNode env n st = (target, st1)" by fastforce
  have st1: "state_inv mx (wk_idx w) st1" using state_inv_quiet [OF inv resolve_quiet [OF r]] .
  show ?thesis
  proof (cases "nt_reason target = []")
    case False
    with prov r state_inv_skip [OF st1] show ?thesis by (simp add: fs_step_def skipNode_def)
  next
    case True
    obtain run st2 where e: "execNode env (wk_idx w) n target st1 = (run, st2)" by fastforce
    have st2: "state_inv mx (Suc (wk_idx w)) st2"
      using state_inv_execNode [OF st1 resolve_alive [OF r True], of env target] e by simp
    have win: "fs_post env mx (finish_win env (wk_merged w) target run st2)"
      unfolding finish_win_def Let_def by (intro fs_post_finalize [OF st2] providerRows_count)
    have next_st: "state_inv mx (Suc (wk_idx w)) (honorRetryAfter env (nr_result run) st2)"
      using state_inv_quiet [OF st2 quiet_honorRetryAfter] .
    show ?thesis
      using prov True win next_st st2 by (simp add: fs_step_def r e after_block_def Let_def)
  qed
qed

lemma fs_exhausted_post:
  assumes "state_inv mx (wk_idx w) st" shows "fs_post env mx (fs_exhausted env w st)"
proof -
  have q: "state_inv mx (wk_idx w) (st\<lparr>rs_error := e\<rparr>)" for e
    by (rule state_inv_quiet [OF assms]) (simp add: quiet_def)
  show ?thesis
    unfolding fs_exhausted_def Let_def
    using assms q rowsUpTo_count by (auto intro!: fs_post_finalize)
qed

lemma fs_loop_post:
  assumes "fs_loop env new w st = Some out" and "state_inv mx (wk_idx w) st"
  shows "fs_post env mx out"
proof -
  have "state_inv mx (wk_idx w) st \<longrightarrow> fs_post env mx out"
  proof (rule fs_loop.raw_induct [where P = "\<lambda>env new w st out. state_inv mx (wk_idx w) st \<longrightarrow> fs_post env mx out",
        OF _ assms(1)], goal_cases)
    case (1 f env new w st out)
    show ?case
    proof
      assume inv: "state_inv mx (wk_idx w) st"
      show "fs_post env mx out"
      proof (cases "\<exists>n. wk_node w = Some n \<and> hasBudget (rs_ws st)")
        case False
        then have "out = fs_exhausted env w st" using 1(2) by (auto split: option.splits)
        then show ?thesis using fs_exhausted_post [OF inv] by simp
      next
        case True
        then obtain n where n: "wk_node w = Some n" "hasBudget (rs_ws st)" by blast
        note step = fs_step_state [OF inv, of env new n]
        show ?thesis
        proof (cases "fs_step env new w n st")
          case (Inl ws)
          then have "f env new (fst ws) (snd ws) = Some out" using 1(2) n by (simp add: split_beta)
          from 1(1) [OF this] step Inl show ?thesis by (simp add: split_beta)
        next
          case (Inr x)
          then show ?thesis using 1(2) n step by simp
        qed
      qed
    qed
  qed
  with assms(2) show ?thesis by blast
qed

subsection \<open>The walk returns on acyclic plans\<close>

lemma finite_plan_edge: "finite (plan_edge p)"
proof (rule finite_subset)
  show "plan_edge p \<subseteq> (\<lambda>e. (e_FromKey e, e_ToKey e)) ` set (c_Edges (pl_chain p))"
    by (auto simp: plan_edge_def)
qed simp

lemma fs_loop_returns:
  assumes wf: "plan_wf (env_plan env)" and ac: "acyclic (plan_edge (env_plan env))"
    and n: "\<forall>n. wk_node w = Some n \<longrightarrow> pl_nodes (env_plan env) (n_Key n) = Some n"
  shows "\<exists>out. fs_loop env new w st = Some out"
proof -
  have node: "\<exists>out. fs_loop env new w st = Some out"
    if "wk_node w = Some n" "n_Key n = k" "pl_nodes (env_plan env) (n_Key n) = Some n" for n k w st
    using that
  proof (induction k arbitrary: n w st rule: wf_induct_rule [OF finite_acyclic_wf_converse [OF finite_plan_edge ac]])
    case (1 k)
    show ?case
    proof (cases "hasBudget (rs_ws st)")
      case True
      show ?thesis
      proof (cases "fs_step env new w n st")
        case (Inl ws)
        obtain w' st' where ws: "ws = (w', st')" by fastforce
        have "\<exists>out. fs_loop env new w' st' = Some out"
        proof (cases "wk_node w'")
          case None
          then show ?thesis by (subst fs_loop.simps) simp
        next
          case (Some m)
          with fs_step_moves [OF wf "1.prems"(3)] Inl ws "1.IH" "1.prems"(2) show ?thesis by blast
        qed
        with True "1.prems"(1) Inl ws show ?thesis by (subst fs_loop.simps) simp
      next
        case (Inr out)
        with True "1.prems"(1) show ?thesis by (subst fs_loop.simps) simp
      qed
    next
      case False
      with "1.prems"(1) show ?thesis by (subst fs_loop.simps) simp
    qed
  qed
  show ?thesis
  proof (cases "wk_node w")
    case None
    then show ?thesis by (subst fs_loop.simps) simp
  next
    case (Some m)
    with n node show ?thesis by blast
  qed
qed

end
