(* ===== verification/Full_Chain.thy ===== *)
theory Full_Chain
  imports First_Success Graph
begin

text \<open>
  Full-chain mode of \<open>internal/engine/engine.go\<close>: the legacy linear walk
  (\<open>runFullChainLegacy\<close>) and the fan-out executor (\<open>runFullChain\<close>). A wave of ready blocks
  runs as concurrent branches; \<open>sched\<close> chooses, step by step, which unfinished branch moves,
  so a statement for every \<open>sched\<close> is about every interleaving of the goroutines (cut at the
  points where \<open>exec_step\<close> cuts the attempt loop).
\<close>

subsection \<open>The common end: merged rows, statistics, status\<close>

definition merge_stats :: "merger \<Rightarrow> Row list \<Rightarrow> MergeStats" where
  "merge_stats merged rows =
     \<lparr>ms_CollectedTotal = collectedTotal merged, ms_UniqueLinks = length rows,
      ms_DuplicatesRemoved = duplicatesRemoved merged\<rparr>"

definition full_finish ::
  "run_env \<Rightarrow> merger \<Rightarrow> string \<Rightarrow> string \<Rightarrow> run_state \<Rightarrow> Output \<times> run_state" where
  "full_finish env merged lastStatus lastErr st =
     (let rows = rowsUpTo merged (env_Count env);
          stats = merge_stats merged rows;
          st1 = publish (EventMergeDone \<lparr>md_CollectedTotal = ms_CollectedTotal stats,
                  md_UniqueLinks = ms_UniqueLinks stats, md_DuplicatesRemoved = ms_DuplicatesRemoved stats\<rparr>) st;
          status = (if rows \<noteq> [] then ''ok'' else if lastStatus = ''ok'' then ''ok''
                    else if lastStatus = ''empty'' then ''empty'' else ''fail'');
          st2 = (if status = ''fail'' \<and> lastErr \<noteq> [] then st1\<lparr>rs_error := lastErr\<rparr> else st1)
      in finalize env (Some stats) status rows (Join (merger_providers merged) '', '') (ws_steps (rs_ws st)) st2)"

definition merge_block :: "run_env \<Rightarrow> string \<Rightarrow> Row list \<Rightarrow> merger \<Rightarrow> run_state \<Rightarrow> merger \<times> run_state" where
  "merge_block env display rows merged st =
     (let (merged', changed) = merger_add (env_link env) merged display rows
      in (merged', if changed
                   then publish (EventMergeProgress \<lparr>mp_Collected = collectedTotal merged', mp_Unique = uniqueCount merged'\<rparr>) st
                   else st))"

subsection \<open>The legacy walk\<close>

record legacy_walk =
  lw_node :: "ChainNode option"
  lw_idx :: nat
  lw_visited :: "string list"
  lw_merged :: merger
  lw_lastStatus :: string
  lw_lastErr :: string

definition legacy_block ::
  "run_env \<Rightarrow> nodeTarget \<Rightarrow> nodeRun \<Rightarrow> legacy_walk \<Rightarrow> run_state \<Rightarrow> legacy_walk \<times> run_state" where
  "legacy_block env target run w st =
     (let r = nr_result run in
      if r_OK r \<and> nr_rows run \<noteq> []
      then (let (m, st1) = merge_block env (nt_display target) (nr_rows run) (lw_merged w) st
            in (w\<lparr>lw_lastStatus := ''ok'', lw_merged := m\<rparr>, st1))
      else if r_OK r \<and> nt_answer target \<and> TrimSpace (r_Answer r) \<noteq> [] then (w\<lparr>lw_lastStatus := ''ok''\<rparr>, st)
      else if r_OK r then (w\<lparr>lw_lastStatus := ''empty''\<rparr>, st)
      else (w\<lparr>lw_lastStatus := ''fail'', lw_lastErr := (if r_Error r \<noteq> [] then r_Error r else lw_lastErr w)\<rparr>, st))"

definition legacy_step :: "run_env \<Rightarrow> legacy_walk \<Rightarrow> ChainNode \<Rightarrow> run_state \<Rightarrow> legacy_walk \<times> run_state" where
  "legacy_step env w node st =
     (let w1 = w\<lparr>lw_visited := n_Key node # lw_visited w\<rparr>;
          next = NextInFullChain (env_plan env) (Some node) in
      if \<not> is_provider node then (w1\<lparr>lw_node := next\<rparr>, st)
      else
        (let (target, st1) = resolveNode env node st in
         if nt_reason target \<noteq> []
         then (w1\<lparr>lw_lastStatus := ''skip'', lw_idx := lw_idx w + 1, lw_node := next\<rparr>,
               recordSkip env (lw_idx w) node (nt_display target) (nt_reason target) st1)
         else
           (let (run, st2) = execNode env (lw_idx w) node target st1;
                (w2, st3) = legacy_block env target run w1 (honorRetryAfter env (nr_result run) st2)
            in (w2\<lparr>lw_idx := lw_idx w + 1, lw_node := next\<rparr>, st3))))"

partial_function (option) legacy_loop ::
  "run_env \<Rightarrow> legacy_walk \<Rightarrow> run_state \<Rightarrow> (legacy_walk \<times> run_state) option" where
  "legacy_loop env w st =
     (case lw_node w of
        None \<Rightarrow> Some (w, st)
      | Some node \<Rightarrow>
          if \<not> hasBudget (rs_ws st) then Some (w, st)
          else if n_Key node \<in> set (lw_visited w) then Some (w, st)
          else (case legacy_step env w node st of (w', st') \<Rightarrow> legacy_loop env w' st'))"

definition runFullChainLegacy :: "run_env \<Rightarrow> int \<Rightarrow> run_state \<Rightarrow> (Output \<times> run_state) option" where
  "runFullChainLegacy env maxAttempts st =
     map_option (\<lambda>(w, st1). full_finish env (lw_merged w) (lw_lastStatus w) (lw_lastErr w) st1)
       (legacy_loop env \<lparr>lw_node = Some (pl_start (env_plan env)), lw_idx = 0, lw_visited = [],
          lw_merged = newMerger, lw_lastStatus = [], lw_lastErr = []\<rparr>
          (st\<lparr>rs_ws := newWalkState maxAttempts\<rparr>))"

subsection \<open>One branch of a wave\<close>

record blockState =
  bs_status :: string
  bs_rows :: "Row list"
  bs_result :: Result
  bs_answer :: string

definition zero_block :: blockState where
  "zero_block = \<lparr>bs_status = [], bs_rows = [], bs_result = zero_result, bs_answer = []\<rparr>"

datatype proc =
    PStart
  | PRun block branch
  | PPause block nodeRun time
  | PEnd blockState

definition settled :: "block \<Rightarrow> nodeRun \<Rightarrow> blockState" where
  "settled bk run =
     (let r = nr_result run; st = zero_block\<lparr>bs_result := r\<rparr> in
      if r_OK r \<and> nt_answer (bk_target bk) \<and> TrimSpace (r_Answer r) \<noteq> []
      then st\<lparr>bs_status := ''ok'', bs_answer := r_Answer r\<rparr>
      else if r_OK r \<and> nr_rows run \<noteq> [] then st\<lparr>bs_status := ''ok'', bs_rows := nr_rows run\<rparr>
      else if r_OK r then st\<lparr>bs_status := ''empty''\<rparr>
      else st\<lparr>bs_status := ''fail''\<rparr>)"

fun proc_step :: "run_env \<Rightarrow> ChainNode \<Rightarrow> nat \<Rightarrow> proc \<Rightarrow> run_state \<Rightarrow> proc \<times> run_state" where
  "proc_step env node idx PStart st =
     (if \<not> is_provider node then (PEnd (zero_block\<lparr>bs_status := ''ok''\<rparr>), st)
      else
        (let (target, st1) = resolveNode env node st in
         if nt_reason target \<noteq> []
         then (PEnd (zero_block\<lparr>bs_status := ''skip''\<rparr>),
               recordSkip env idx node (nt_display target) (nt_reason target) st1)
         else (let (bk, st2) = mk_block env idx node target st1 in (PRun bk start_branch, st2))))"
| "proc_step env node idx (PRun bk (BDone run)) st =
     (if \<not> nr_attempted run then (PEnd (zero_block\<lparr>bs_status := ''skip''\<rparr>), st)
      else if r_RetryAfterMS (nr_result run) \<le> 0 then (PEnd (settled bk run), st)
      else (PPause bk run (fst (sleep_end env (rs_clock st)
              (capDelay (int64_of (r_RetryAfterMS (nr_result run)) * millisecond)))), st))"
| "proc_step env node idx (PRun bk b) st = (let (b', st') = exec_step env bk b st in (PRun bk b', st'))"
| "proc_step env node idx (PPause bk run t) st = (PEnd (settled bk run), st\<lparr>rs_clock := max (rs_clock st) t\<rparr>)"
| "proc_step env node idx (PEnd s) st = (PEnd s, st)"

subsection \<open>Waves\<close>

record task =
  tk_node :: ChainNode
  tk_idx :: nat
  tk_proc :: proc

fun ended :: "proc \<Rightarrow> bool" where
  "ended (PEnd s) = True"
| "ended p = False"

definition unfinished :: "task list \<Rightarrow> nat list" where
  "unfinished ts = filter (\<lambda>i. \<not> ended (tk_proc (ts ! i))) [0..<length ts]"

definition wave_step :: "run_env \<Rightarrow> nat \<Rightarrow> task list \<Rightarrow> run_state \<Rightarrow> task list \<times> run_state" where
  "wave_step env choice ts st =
     (let us = unfinished ts in
      if us = [] then (ts, st)
      else (let i = us ! (choice mod length us); t = ts ! i;
                (p, st') = proc_step env (tk_node t) (tk_idx t) (tk_proc t) st
            in (ts[i := t\<lparr>tk_proc := p\<rparr>], st')))"

definition proc_rank :: "ChainNode \<Rightarrow> proc \<Rightarrow> nat" where
  "proc_rank node p =
     (case p of PStart \<Rightarrow> branch_rank node start_branch + 3
      | PRun bk b \<Rightarrow> branch_rank (bk_node bk) b + 2
      | PPause bk run t \<Rightarrow> 1
      | PEnd s \<Rightarrow> 0)"

definition wave_rank :: "task list \<Rightarrow> nat" where
  "wave_rank ts = sum_list (map (\<lambda>t. proc_rank (tk_node t) (tk_proc t)) ts)"

text \<open>A wave runs until every branch has ended; its rank bounds the number of steps.\<close>

fun wave_steps :: "nat \<Rightarrow> run_env \<Rightarrow> (nat \<Rightarrow> nat) \<Rightarrow> task list \<Rightarrow> run_state \<Rightarrow> task list \<times> run_state" where
  "wave_steps 0 env sched ts st = (ts, st)"
| "wave_steps (Suc n) env sched ts st =
     (let (ts', st') = wave_step env (sched 0) ts st in wave_steps n env (sched \<circ> Suc) ts' st')"

definition run_wave :: "run_env \<Rightarrow> (nat \<Rightarrow> nat) \<Rightarrow> task list \<Rightarrow> run_state \<Rightarrow> task list \<times> run_state" where
  "run_wave env sched ts st = wave_steps (wave_rank ts) env sched ts st"

definition proc_result :: "proc \<Rightarrow> blockState" where
  "proc_result p = (case p of PEnd s \<Rightarrow> s | _ \<Rightarrow> zero_block)"

subsection \<open>The executor\<close>

record fc_state =
  fc_done :: "string list"
  fc_indeg :: "string \<Rightarrow> int"
  fc_states :: "string \<Rightarrow> blockState"
  fc_idx :: "string \<Rightarrow> nat"
  fc_nextIdx :: nat
  fc_wave :: nat

text \<open>The graph the executor follows: neutral edges, from the start block.\<close>

definition neutral_pairs :: "Plan \<Rightarrow> (string \<times> string) list" where
  "neutral_pairs p = edge_pairs neutral (c_Edges (pl_chain p))"

definition fc_succ :: "Plan \<Rightarrow> string \<Rightarrow> string list" where
  "fc_succ p key = succs (neutral_pairs p) key"

definition fc_reachable :: "Plan \<Rightarrow> string list" where
  "fc_reachable p = bfs (neutral_pairs p) [] [n_Key (pl_start p)]"

definition fc_indegree :: "Plan \<Rightarrow> string \<Rightarrow> int" where
  "fc_indegree p key =
     (if key = n_Key (pl_start p) then 0
      else int (length (filter (\<lambda>(a, b). a \<in> set (fc_reachable p) \<and> b = key \<and> b \<in> set (fc_reachable p))
             (neutral_pairs p))))"

definition fc_init :: "Plan \<Rightarrow> fc_state" where
  "fc_init p = \<lparr>fc_done = [], fc_indeg = fc_indegree p, fc_states = (\<lambda>_. zero_block), fc_idx = (\<lambda>_. 0),
     fc_nextIdx = 0, fc_wave = 0\<rparr>"

definition fc_ready :: "Plan \<Rightarrow> fc_state \<Rightarrow> string list" where
  "fc_ready p s = filter (\<lambda>k. k \<in> set (fc_reachable p) \<and> k \<notin> set (fc_done s) \<and> fc_indeg s k = 0) (pl_order p)"

definition plan_node :: "Plan \<Rightarrow> string \<Rightarrow> ChainNode" where
  "plan_node p k = (case pl_nodes p k of None \<Rightarrow> zero_node | Some n \<Rightarrow> n)"

text \<open>Provider blocks of the wave consume a step number, in plan order.\<close>

fun number_blocks :: "Plan \<Rightarrow> string list \<Rightarrow> fc_state \<Rightarrow> fc_state" where
  "number_blocks p [] s = s"
| "number_blocks p (k # ks) s =
     number_blocks p ks
       (if is_provider (plan_node p k)
        then s\<lparr>fc_idx := (fc_idx s)(k := fc_nextIdx s), fc_nextIdx := fc_nextIdx s + 1\<rparr> else s)"

definition wave_tasks :: "Plan \<Rightarrow> fc_state \<Rightarrow> string list \<Rightarrow> task list" where
  "wave_tasks p s ready = map (\<lambda>k. \<lparr>tk_node = plan_node p k, tk_idx = fc_idx s k, tk_proc = PStart\<rparr>) ready"

definition mark_done :: "Plan \<Rightarrow> string \<Rightarrow> fc_state \<Rightarrow> fc_state" where
  "mark_done p k s = s\<lparr>fc_done := fc_done s @ [k],
     fc_indeg := foldl (\<lambda>d t. if t \<in> set (fc_reachable p) then d(t := d t - 1) else d) (fc_indeg s) (fc_succ p k)\<rparr>"

definition store_results :: "string list \<Rightarrow> task list \<Rightarrow> fc_state \<Rightarrow> fc_state" where
  "store_results ready ts s =
     s\<lparr>fc_states := foldl (\<lambda>m (k, t). m(k := proc_result (tk_proc t))) (fc_states s) (zip ready ts)\<rparr>"

text \<open>One round: number the ready blocks, run them as a wave, mark them done.\<close>

definition fc_round ::
  "run_env \<Rightarrow> (nat \<Rightarrow> nat \<Rightarrow> nat) \<Rightarrow> string list \<Rightarrow> fc_state \<Rightarrow> run_state \<Rightarrow> fc_state \<times> run_state" where
  "fc_round env sched ready s st =
     (let p = env_plan env;
          s1 = number_blocks p ready s;
          (ts, st1) = run_wave env (sched (fc_wave s1)) (wave_tasks p s1 ready) st;
          s2 = store_results ready ts s1\<lparr>fc_wave := fc_wave s1 + 1\<rparr>
      in (fold (mark_done p) ready s2, st1))"

lemma number_blocks_done [simp]:
  "fc_done (number_blocks p ks s) = fc_done s" "fc_indeg (number_blocks p ks s) = fc_indeg s"
  by (induction p ks s rule: number_blocks.induct) simp_all

lemma store_results_done [simp]:
  "fc_done (store_results ready ts s) = fc_done s" "fc_indeg (store_results ready ts s) = fc_indeg s"
  by (simp_all add: store_results_def)

lemma fold_mark_done: "fc_done (fold (mark_done p) ks s) = fc_done s @ ks"
  by (induction ks arbitrary: s) (simp_all add: mark_done_def)

lemma fc_round_done [simp]: "fc_done (fst (fc_round env sched ready s st)) = fc_done s @ ready"
  by (simp add: fc_round_def Let_def split_beta fold_mark_done)

function fc_loop ::
  "run_env \<Rightarrow> (nat \<Rightarrow> nat \<Rightarrow> nat) \<Rightarrow> fc_state \<Rightarrow> run_state \<Rightarrow> fc_state \<times> run_state" where
  "fc_loop env sched s st =
     (if \<not> hasBudget (rs_ws st) then (s, st)
      else (let ready = fc_ready (env_plan env) s
            in if ready = [] then (s, st)
               else fc_loop env sched (fst (fc_round env sched ready s st)) (snd (fc_round env sched ready s st))))"
  by pat_completeness auto
termination
proof (relation "measure (\<lambda>(env, sched, s, st). card (set (pl_order (env_plan env)) - set (fc_done s)))", goal_cases)
  case (2 env sched s st ready)
  then obtain k where "k \<in> set ready" by (meson hd_in_set)
  with 2 have "k \<in> set (pl_order (env_plan env)) - set (fc_done s)" by (simp add: fc_ready_def)
  with \<open>k \<in> set ready\<close> have "set (pl_order (env_plan env)) - set (fc_done s @ ready) \<subset>
      set (pl_order (env_plan env)) - set (fc_done s)" by auto
  then show ?case by (simp add: psubset_card_mono split_beta)
qed simp

declare fc_loop.simps [simp del]

subsection \<open>Merging in plan order\<close>

record merge_pass =
  mg_lastStatus :: string
  mg_lastErr :: string
  mg_merged :: merger

definition merge_key ::
  "run_env \<Rightarrow> fc_state \<Rightarrow> string \<Rightarrow> merge_pass \<times> run_state \<Rightarrow> merge_pass \<times> run_state" where
  "merge_key env s key acc =
     (let (m, st) = acc; p = env_plan env; node = plan_node p key in
      if key \<notin> set (fc_reachable p) \<or> \<not> is_provider node then (m, st)
      else
        (let b = fc_states s key;
             m1 = (if bs_status b \<in> {''ok'', ''empty'', ''fail'', ''skip''} then m\<lparr>mg_lastStatus := bs_status b\<rparr> else m);
             m2 = (if bs_status b = ''fail'' \<and> r_Error (bs_result b) \<noteq> []
                   then m1\<lparr>mg_lastErr := r_Error (bs_result b)\<rparr> else m1);
             st1 = (if bs_answer b \<noteq> [] then st\<lparr>rs_answer := bs_answer b\<rparr> else st)
         in if bs_status b = ''ok'' \<and> bs_rows b \<noteq> []
            then (let display = providerDisplay (n_ProviderID node) (env_providers env (n_ProviderID node));
                      (mm, st2) = merge_block env display (bs_rows b) (mg_merged m2) st1
                  in (m2\<lparr>mg_merged := mm\<rparr>, st2))
            else (m2, st1)))"

definition merge_all_blocks :: "run_env \<Rightarrow> fc_state \<Rightarrow> run_state \<Rightarrow> merge_pass \<times> run_state" where
  "merge_all_blocks env s st =
     fold (merge_key env s) (pl_order (env_plan env))
       (\<lparr>mg_lastStatus = [], mg_lastErr = [], mg_merged = newMerger\<rparr>, st)"

definition runFullChain ::
  "run_env \<Rightarrow> (nat \<Rightarrow> nat \<Rightarrow> nat) \<Rightarrow> int \<Rightarrow> run_state \<Rightarrow> Output \<times> run_state" where
  "runFullChain env sched maxAttempts st =
     (let (s, st1) = fc_loop env sched (fc_init (env_plan env)) (st\<lparr>rs_ws := newWalkState maxAttempts\<rparr>);
          (m, st2) = merge_all_blocks env s st1
      in full_finish env (mg_merged m) (mg_lastStatus m) (mg_lastErr m) st2)"

end
