(* ===== verification/Full_Chain_Facts.thy ===== *)
theory Full_Chain_Facts
  imports Full_Chain
begin

text \<open>
  Facts about the executors of full-chain mode: every wave ends whatever the schedule, the
  shared budget is kept by all interleavings, blocks run once and after their
  predecessors, every reachable block runs while the budget lasts, and the merged rows are
  a function of the block results in plan order.
\<close>

subsection \<open>A wave ends\<close>

lemma proc_step_rank:
  assumes "\<not> ended p" "p = PStart \<or> (\<exists>bk b. p = PRun bk b \<and> bk_node bk = node) \<or> (\<exists>bk r t. p = PPause bk r t)"
  shows "proc_rank node (fst (proc_step env node idx p st)) < proc_rank node p"
proof (cases p)
  case PStart
  obtain target st1 where r: "resolveNode env node st = (target, st1)" by fastforce
  have "bk_node (fst (mk_block env idx node target st1)) = node" by simp
  with PStart r show ?thesis by (simp add: proc_rank_def split_beta)
next
  case (PRun bk b)
  with assms(2) have bk: "bk_node bk = node" by simp
  show ?thesis
  proof (cases "\<exists>run. b = BDone run")
    case True
    with PRun show ?thesis by (auto simp: proc_rank_def branch_rank_def)
  next
    case False
    then have "branch_rank (bk_node bk) (fst (exec_step env bk b st)) < branch_rank (bk_node bk) b"
      by (intro exec_step_rank) auto
    with False PRun show ?thesis by (cases b) (auto simp: proc_rank_def split_beta)
  qed
qed (use assms(1) in \<open>simp_all add: proc_rank_def\<close>)

text \<open>Tasks whose running block is that of their node.\<close>

definition task_ok :: "task \<Rightarrow> bool" where
  "task_ok t \<longleftrightarrow> (\<forall>bk b. tk_proc t = PRun bk b \<longrightarrow> bk_node bk = tk_node t \<and> bk_idx bk = tk_idx t)"

lemma proc_step_task_ok:
  assumes "task_ok t"
  shows "task_ok (t\<lparr>tk_proc := fst (proc_step env (tk_node t) (tk_idx t) (tk_proc t) st)\<rparr>)"
proof (cases "tk_proc t")
  case PStart
  obtain target st1 where r: "resolveNode env (tk_node t) st = (target, st1)" by fastforce
  have "bk_node (fst (mk_block env (tk_idx t) (tk_node t) target st1)) = tk_node t"
       "bk_idx (fst (mk_block env (tk_idx t) (tk_node t) target st1)) = tk_idx t" by simp_all
  with PStart r show ?thesis by (simp add: task_ok_def split_beta)
next
  case (PRun bk b)
  with assms show ?thesis by (cases b) (auto simp: task_ok_def split_beta)
qed (simp_all add: task_ok_def)

lemma proc_rank_0: "proc_rank node p = 0 \<longleftrightarrow> ended p"
  by (cases p) (simp_all add: proc_rank_def)

lemma unfinished_nth: "i \<in> set (unfinished ts) \<longleftrightarrow> i < length ts \<and> \<not> ended (tk_proc (ts ! i))"
  by (auto simp: unfinished_def)

lemma sum_list_update_less:
  fixes xs :: "nat list"
  shows "i < length xs \<Longrightarrow> v < xs ! i \<Longrightarrow> sum_list (xs[i := v]) < sum_list xs"
  by (induction xs arbitrary: i) (auto split: nat.splits)

lemma wave_step_cases:
  obtains (stop) "unfinished ts = []" "wave_step env c ts st = (ts, st)"
  | (move) i where "i < length ts" "\<not> ended (tk_proc (ts ! i))"
      "wave_step env c ts st =
        (ts[i := (ts ! i)\<lparr>tk_proc := fst (proc_step env (tk_node (ts ! i)) (tk_idx (ts ! i)) (tk_proc (ts ! i)) st)\<rparr>],
         snd (proc_step env (tk_node (ts ! i)) (tk_idx (ts ! i)) (tk_proc (ts ! i)) st))"
proof (cases "unfinished ts = []")
  case True
  then show thesis by (intro stop) (simp_all add: wave_step_def)
next
  case False
  let ?i = "unfinished ts ! (c mod length (unfinished ts))"
  have "?i \<in> set (unfinished ts)" using False by simp
  then show thesis
    using False by (intro move [of ?i]) (auto simp: unfinished_nth wave_step_def Let_def split_beta)
qed

lemma wave_step_ok:
  "\<forall>t \<in> set ts. task_ok t \<Longrightarrow> \<forall>t \<in> set (fst (wave_step env c ts st)). task_ok t"
proof (cases rule: wave_step_cases [of ts env c st])
  case (move i)
  assume ok: "\<forall>t \<in> set ts. task_ok t"
  then have "task_ok ((ts ! i)\<lparr>tk_proc := fst (proc_step env (tk_node (ts ! i)) (tk_idx (ts ! i)) (tk_proc (ts ! i)) st)\<rparr>)"
    using move(1) by (intro proc_step_task_ok) simp
  with ok move show ?thesis by (auto dest!: set_update_subset_insert [THEN subsetD])
qed simp

lemma map_update_same: "i < length xs \<Longrightarrow> f x = f (xs ! i) \<Longrightarrow> map f (xs[i := x]) = map f xs"
  by (simp add: map_update list_update_same_conv)

lemma wave_step_frame:
  "map tk_node (fst (wave_step env c ts st)) = map tk_node ts"
  "map tk_idx (fst (wave_step env c ts st)) = map tk_idx ts"
  "length (fst (wave_step env c ts st)) = length ts"
  by (rule wave_step_cases [of ts env c st]; simp add: map_update_same)+

lemma wave_step_rank:
  assumes ok: "\<forall>t \<in> set ts. task_ok t" and u: "unfinished ts \<noteq> []"
  shows "wave_rank (fst (wave_step env c ts st)) < wave_rank ts"
proof (cases rule: wave_step_cases [of ts env c st])
  case stop
  with u show ?thesis by simp
next
  case (move i)
  let ?t = "ts ! i"
  have t: "task_ok ?t" using ok move(1) by simp
  have "proc_rank (tk_node ?t) (fst (proc_step env (tk_node ?t) (tk_idx ?t) (tk_proc ?t) st))
      < proc_rank (tk_node ?t) (tk_proc ?t)"
    using t move(2) by (intro proc_step_rank) (cases "tk_proc ?t"; auto simp: task_ok_def)+
  then show ?thesis
    using move by (simp add: wave_rank_def map_update sum_list_update_less)
qed

lemma unfinished_Nil: "unfinished ts = [] \<longleftrightarrow> (\<forall>t \<in> set ts. ended (tk_proc t))"
  by (auto simp: unfinished_def filter_empty_conv all_set_conv_all_nth)

lemma wave_rank_unfinished: "wave_rank ts = 0 \<longleftrightarrow> unfinished ts = []"
  by (simp add: wave_rank_def unfinished_Nil proc_rank_0)

lemma wave_steps_end:
  "\<forall>t \<in> set ts. task_ok t \<Longrightarrow> wave_rank ts \<le> n \<Longrightarrow> unfinished (fst (wave_steps n env sched ts st)) = []"
proof (induction n arbitrary: sched ts st)
  case 0
  then show ?case using wave_rank_unfinished by simp
next
  case (Suc n)
  obtain ts' st' where w: "wave_step env (sched 0) ts st = (ts', st')" by fastforce
  have "\<forall>t \<in> set ts'. task_ok t" using wave_step_ok [OF Suc.prems(1), of env "sched 0" st] w by simp
  moreover have "wave_rank ts' \<le> n"
  proof (cases "unfinished ts = []")
    case True
    then have "wave_step env (sched 0) ts st = (ts, st)" by (simp add: wave_step_def)
    moreover from True have "wave_rank ts = 0" by (simp add: wave_rank_unfinished)
    ultimately show ?thesis using w by simp
  next
    case False
    from wave_step_rank [OF Suc.prems(1) this, of env "sched 0" st] w Suc.prems(2) show ?thesis by simp
  qed
  ultimately show ?case using Suc.IH w by simp
qed

lemma run_wave_end:
  "\<forall>t \<in> set ts. task_ok t \<Longrightarrow> \<forall>t \<in> set (fst (run_wave env sched ts st)). ended (tk_proc t)"
  using wave_steps_end [of ts "wave_rank ts" env sched st]
  by (simp add: run_wave_def unfinished_Nil)

subsection \<open>Blocks run once, after their predecessors\<close>

definition open_preds :: "Plan \<Rightarrow> string set \<Rightarrow> string \<Rightarrow> nat" where
  "open_preds p done k =
     length (filter (\<lambda>(a, b). a \<in> set (fc_reachable p) \<and> a \<notin> done \<and> b = k \<and> b \<in> set (fc_reachable p)) (neutral_pairs p))"

definition start_hits :: "Plan \<Rightarrow> string set \<Rightarrow> nat" where
  "start_hits p done = length (filter (\<lambda>(a, b). a \<in> done \<and> b = n_Key (pl_start p)) (neutral_pairs p))"

definition kahn_inv :: "Plan \<Rightarrow> fc_state \<Rightarrow> bool" where
  "kahn_inv p s \<longleftrightarrow>
     distinct (fc_done s) \<and> set (fc_done s) \<subseteq> set (fc_reachable p) \<inter> set (pl_order p) \<and>
     (\<forall>k. fc_indeg s k = (if k = n_Key (pl_start p) then - int (start_hits p (set (fc_done s)))
                          else int (open_preds p (set (fc_done s)) k)))"

text \<open>The order in which blocks were finished respects the edges.\<close>

definition in_order :: "Plan \<Rightarrow> string list \<Rightarrow> bool" where
  "in_order p ks \<longleftrightarrow>
     (\<forall>i < length ks. ks ! i \<noteq> n_Key (pl_start p) \<longrightarrow>
        (\<forall>a. (a, ks ! i) \<in> set (neutral_pairs p) \<and> a \<in> set (fc_reachable p) \<longrightarrow> a \<in> set (take i ks)))"

lemma start_reachable: "n_Key (pl_start p) \<in> set (fc_reachable p)"
  unfolding fc_reachable_def bfs_reach by simp

lemma reachable_closed:
  "a \<in> set (fc_reachable p) \<Longrightarrow> (a, b) \<in> set (neutral_pairs p) \<Longrightarrow> b \<in> set (fc_reachable p)"
  unfolding fc_reachable_def bfs_reach by (auto intro: rtrancl_into_rtrancl)

lemma foldl_decrement:
  "foldl (\<lambda>d t. if t \<in> R then d(t := d t - 1) else d) (d :: string \<Rightarrow> int) ts x
     = d x - (if x \<in> R then int (length (filter (\<lambda>t. t = x) ts)) else 0)"
  by (induction ts arbitrary: d) auto

lemma filter_succs: "length (filter (\<lambda>t. t = x) (succs es k)) = length (filter (\<lambda>(a, b). a = k \<and> b = x) es)"
  by (induction es) (auto simp: succs_def)

lemma length_filter_split:
  "(\<And>x. x \<in> set xs \<Longrightarrow> P x \<longleftrightarrow> Q x \<or> R x) \<Longrightarrow> (\<And>x. x \<in> set xs \<Longrightarrow> \<not> (Q x \<and> R x)) \<Longrightarrow>
   length (filter P xs) = length (filter Q xs) + length (filter R xs)"
  by (induction xs) auto

lemma open_preds_insert:
  assumes "k \<in> set (fc_reachable p)" "k \<notin> done" "x \<in> set (fc_reachable p)"
  shows "open_preds p done x = open_preds p (insert k done) x
     + length (filter (\<lambda>(a, b). a = k \<and> b = x) (neutral_pairs p))"
  unfolding open_preds_def by (rule length_filter_split) (use assms in auto)

lemma start_hits_insert:
  assumes "k \<notin> done"
  shows "start_hits p (insert k done) = start_hits p done
     + length (filter (\<lambda>(a, b). a = k \<and> b = n_Key (pl_start p)) (neutral_pairs p))"
  unfolding start_hits_def by (rule length_filter_split) (use assms in auto)

lemma open_preds_outside: "x \<notin> set (fc_reachable p) \<Longrightarrow> open_preds p done x = 0"
  by (auto simp: open_preds_def filter_empty_conv)

lemma mark_done_kahn:
  assumes inv: "kahn_inv p s" and k: "k \<in> set (fc_reachable p)" "k \<in> set (pl_order p)" "k \<notin> set (fc_done s)"
  shows "kahn_inv p (mark_done p k s)"
proof -
  let ?D = "set (fc_done s)"
  have deg: "fc_indeg (mark_done p k s) x = fc_indeg s x
      - (if x \<in> set (fc_reachable p) then int (length (filter (\<lambda>(a, b). a = k \<and> b = x) (neutral_pairs p))) else 0)" for x
    by (simp add: mark_done_def foldl_decrement fc_succ_def filter_succs)
  have "fc_indeg (mark_done p k s) x = (if x = n_Key (pl_start p) then - int (start_hits p (insert k ?D))
      else int (open_preds p (insert k ?D) x))" for x
  proof (cases "x = n_Key (pl_start p)")
    case True
    then show ?thesis
      using inv start_reachable start_hits_insert [OF k(3)] by (simp add: deg kahn_inv_def)
  next
    case False
    then show ?thesis
      using inv open_preds_insert [OF k(1,3), of x] open_preds_outside [of x p]
      by (auto simp: deg kahn_inv_def)
  qed
  then show ?thesis using inv k by (simp add: kahn_inv_def mark_done_def)
qed

lemma fold_mark_done_kahn:
  "kahn_inv p s \<Longrightarrow> distinct ks \<Longrightarrow> set ks \<subseteq> set (fc_reachable p) \<inter> set (pl_order p) - set (fc_done s) \<Longrightarrow>
   kahn_inv p (fold (mark_done p) ks s)"
proof (induction ks arbitrary: s)
  case (Cons k ks)
  have "kahn_inv p (mark_done p k s)" using Cons.prems by (intro mark_done_kahn) auto
  moreover have "fc_done (mark_done p k s) = fc_done s @ [k]" by (simp add: mark_done_def)
  ultimately have "kahn_inv p (fold (mark_done p) ks (mark_done p k s))"
    using Cons.prems by (intro Cons.IH) auto
  then show ?case by simp
qed simp

lemma kahn_cong: "fc_done s' = fc_done s \<Longrightarrow> fc_indeg s' = fc_indeg s \<Longrightarrow> kahn_inv p s' = kahn_inv p s"
  by (simp add: kahn_inv_def)

lemma fc_round_fold: "\<exists>s2. fst (fc_round env sched ready s st) = fold (mark_done (env_plan env)) ready s2
    \<and> fc_done s2 = fc_done s \<and> fc_indeg s2 = fc_indeg s"
  unfolding fc_round_def Let_def split_beta fst_conv by (rule exI, rule conjI, rule refl) simp

lemma fc_ready_props:
  assumes "distinct (pl_order p)"
  shows "distinct (fc_ready p s)"
    "set (fc_ready p s) \<subseteq> set (fc_reachable p) \<inter> set (pl_order p) - set (fc_done s)"
  using assms by (auto simp: fc_ready_def)

lemma fc_round_kahn:
  assumes "kahn_inv (env_plan env) s" "distinct (pl_order (env_plan env))"
  shows "kahn_inv (env_plan env) (fst (fc_round env sched (fc_ready (env_plan env) s) s st))"
proof -
  obtain s2 where s2: "fst (fc_round env sched (fc_ready (env_plan env) s) s st)
      = fold (mark_done (env_plan env)) (fc_ready (env_plan env) s) s2"
      "fc_done s2 = fc_done s" "fc_indeg s2 = fc_indeg s"
    using fc_round_fold by blast
  show ?thesis
    unfolding s2(1) using assms s2 kahn_cong [of s2 s]
    by (intro fold_mark_done_kahn) (auto dest: fc_ready_props)
qed

lemma ready_preds_done:
  assumes inv: "kahn_inv p s" and k: "k \<in> set (fc_ready p s)" "k \<noteq> n_Key (pl_start p)"
    and a: "(a, k) \<in> set (neutral_pairs p)" "a \<in> set (fc_reachable p)"
  shows "a \<in> set (fc_done s)"
proof (rule ccontr)
  assume "a \<notin> set (fc_done s)"
  moreover have "k \<in> set (fc_reachable p)" using k by (simp add: fc_ready_def)
  ultimately have "open_preds p (set (fc_done s)) k \<noteq> 0"
    using a by (auto simp: open_preds_def filter_empty_conv)
  then show False using inv k by (auto simp: kahn_inv_def fc_ready_def)
qed

lemma in_order_append:
  assumes "in_order p ks" and "\<And>k a. k \<in> set ready \<Longrightarrow> k \<noteq> n_Key (pl_start p) \<Longrightarrow>
      (a, k) \<in> set (neutral_pairs p) \<Longrightarrow> a \<in> set (fc_reachable p) \<Longrightarrow> a \<in> set ks"
  shows "in_order p (ks @ ready)"
  unfolding in_order_def
proof (intro allI impI)
  fix i a
  assume i: "i < length (ks @ ready)" "(ks @ ready) ! i \<noteq> n_Key (pl_start p)"
    and a: "(a, (ks @ ready) ! i) \<in> set (neutral_pairs p) \<and> a \<in> set (fc_reachable p)"
  show "a \<in> set (take i (ks @ ready))"
  proof (cases "i < length ks")
    case True
    with assms(1) i a show ?thesis by (auto simp: in_order_def nth_append)
  next
    case False
    with i have "(ks @ ready) ! i \<in> set ready" by (simp add: nth_append)
    with assms(2) i a have "a \<in> set ks" by blast
    with False show ?thesis by simp
  qed
qed

lemma fc_loop_order:
  assumes "distinct (pl_order (env_plan env))" "kahn_inv (env_plan env) s" "in_order (env_plan env) (fc_done s)"
  shows "kahn_inv (env_plan env) (fst (fc_loop env sched s st)) \<and> in_order (env_plan env) (fc_done (fst (fc_loop env sched s st)))"
  using assms
proof (induction env sched s st rule: fc_loop.induct)
  case (1 env sched s st)
  let ?p = "env_plan env" and ?r = "fc_ready (env_plan env) s"
  show ?case
  proof (cases "hasBudget (rs_ws st) \<and> ?r \<noteq> []")
    case True
    have "in_order ?p (fc_done s @ ?r)"
      using "1.prems" ready_preds_done [OF "1.prems"(2)] by (intro in_order_append) auto
    with True "1.IH" "1.prems" fc_round_kahn [OF "1.prems"(2,1)] show ?thesis
      by (subst (1 2) fc_loop.simps) (simp add: Let_def)
  next
    case False
    with "1.prems" show ?thesis by (subst (1 2) fc_loop.simps) (auto simp: Let_def)
  qed
qed

lemma fc_init_kahn: "kahn_inv p (fc_init p) \<and> in_order p (fc_done (fc_init p))"
  by (simp add: kahn_inv_def fc_init_def fc_indegree_def start_hits_def open_preds_def in_order_def)

subsection \<open>Every reachable block runs while the budget lasts\<close>

lemma fc_loop_end:
  "hasBudget (rs_ws (snd (fc_loop env sched s st))) \<Longrightarrow>
   fc_ready (env_plan env) (fst (fc_loop env sched s st)) = []"
proof (induction env sched s st rule: fc_loop.induct)
  case (1 env sched s st)
  show ?case
  proof (cases "hasBudget (rs_ws st) \<and> fc_ready (env_plan env) s \<noteq> []")
    case True
    then have eq: "fc_loop env sched s st = fc_loop env sched
        (fst (fc_round env sched (fc_ready (env_plan env) s) s st))
        (snd (fc_round env sched (fc_ready (env_plan env) s) s st))"
      by (subst fc_loop.simps) (simp add: Let_def)
    show ?thesis using "1.IH" True "1.prems" unfolding eq by simp
  next
    case False
    then have eq: "fc_loop env sched s st = (s, st)" by (subst fc_loop.simps) (auto simp: Let_def)
    show ?thesis using False "1.prems" unfolding eq by simp
  qed
qed

lemma reachable_path: "k \<in> set (fc_reachable p) \<longleftrightarrow> (n_Key (pl_start p), k) \<in> (set (neutral_pairs p))\<^sup>*"
  unfolding fc_reachable_def bfs_reach by simp

lemma kahn_complete:
  assumes inv: "kahn_inv p s" and ac: "acyclic (set (neutral_pairs p))"
    and ord: "set (fc_reachable p) \<subseteq> set (pl_order p)" and stuck: "fc_ready p s = []"
  shows "set (fc_done s) = set (fc_reachable p)"
proof (rule ccontr)
  assume ne: "set (fc_done s) \<noteq> set (fc_reachable p)"
  have sub: "set (fc_done s) \<subseteq> set (fc_reachable p)" using inv by (simp add: kahn_inv_def)
  with ne obtain x where x: "x \<in> set (fc_reachable p) - set (fc_done s)" by blast
  have "wf (set (neutral_pairs p))" using ac by (simp add: finite_acyclic_wf)
  then obtain k where k: "k \<in> set (fc_reachable p) - set (fc_done s)"
    and min: "\<And>a. (a, k) \<in> set (neutral_pairs p) \<Longrightarrow> a \<notin> set (fc_reachable p) - set (fc_done s)"
    using x by (rule wfE_min) blast
  have "fc_indeg s k = 0"
  proof (cases "k = n_Key (pl_start p)")
    case True
    have "(a, k) \<notin> set (neutral_pairs p)" if "a \<in> set (fc_done s)" for a
    proof
      assume e: "(a, k) \<in> set (neutral_pairs p)"
      have "(k, a) \<in> (set (neutral_pairs p))\<^sup>*" using sub that True by (auto simp: reachable_path)
      from this e have "(k, k) \<in> (set (neutral_pairs p))\<^sup>+" by (rule rtrancl_into_trancl1)
      with ac show False by (simp add: acyclic_def)
    qed
    then have "start_hits p (set (fc_done s)) = 0"
      using True by (auto simp: start_hits_def filter_empty_conv)
    with True inv show ?thesis by (simp add: kahn_inv_def)
  next
    case False
    have "open_preds p (set (fc_done s)) k = 0"
      using min by (auto simp: open_preds_def filter_empty_conv)
    with False inv show ?thesis by (simp add: kahn_inv_def)
  qed
  with k ord have "k \<in> set (fc_ready p s)" by (auto simp: fc_ready_def)
  with stuck show False by simp
qed

subsection \<open>The shared budget under every schedule\<close>

definition advance :: "run_state \<Rightarrow> run_state \<Rightarrow> bool" where
  "advance st st' \<longleftrightarrow> ws_maxAttempts (rs_ws st') = ws_maxAttempts (rs_ws st) \<and>
     rs_clock st \<le> rs_clock st' \<and> (budget_ok st \<longrightarrow> budget_ok st') \<and>
     prefix (rs_invoked st) (rs_invoked st') \<and> prefix (rs_steps st) (rs_steps st')"

lemma advance_refl [simp]: "advance st st"
  by (simp add: advance_def)

lemma advance_trans [trans]: "advance a b \<Longrightarrow> advance b c \<Longrightarrow> advance a c"
  unfolding advance_def by (auto intro: prefix_order.trans)

lemma progress_advance: "progress idx node st st' \<Longrightarrow> advance st st'"
  by (auto simp: progress_def advance_def)

lemma proc_step_progress:
  assumes "task_ok t"
  shows "progress (tk_idx t) (tk_node t) st (snd (proc_step env (tk_node t) (tk_idx t) (tk_proc t) st))"
proof (cases "tk_proc t")
  case PStart
  obtain target st1 where r: "resolveNode env (tk_node t) st = (target, st1)" by fastforce
  have q: "progress (tk_idx t) (tk_node t) st st1" using quiet_progress [OF resolve_quiet [OF r]] .
  have "progress (tk_idx t) (tk_node t) st (recordSkip env (tk_idx t) (tk_node t) c e st1)" for c e
    using progress_trans [OF q recordSkip_progress] .
  moreover have "progress (tk_idx t) (tk_node t) st (snd (mk_block env (tk_idx t) (tk_node t) target st1))"
    using progress_trans [OF q quiet_progress [OF mk_block_simps(4)]] .
  ultimately show ?thesis using PStart r by (simp add: split_beta)
next
  case (PRun bk b)
  then have "progress (tk_idx t) (tk_node t) st (snd (exec_step env bk b st))"
    using assms exec_step_progress [of bk st env b] by (simp add: task_ok_def)
  with PRun show ?thesis by (cases b) (simp_all add: split_beta)
next
  case (PPause bk run u)
  have "quiet st (st\<lparr>rs_clock := max (rs_clock st) u\<rparr>)" by (simp add: quiet_def)
  with PPause show ?thesis by (simp add: quiet_progress)
qed simp

lemma wave_step_advance:
  assumes "\<forall>t \<in> set ts. task_ok t" shows "advance st (snd (wave_step env c ts st))"
proof (cases rule: wave_step_cases [of ts env c st])
  case (move i)
  then show ?thesis
    using assms proc_step_progress [of "ts ! i" st env] by (simp add: progress_advance)
qed simp

lemma wave_steps_advance: "\<forall>t \<in> set ts. task_ok t \<Longrightarrow> advance st (snd (wave_steps n env sched ts st))"
proof (induction n arbitrary: sched ts st)
  case (Suc n)
  from advance_trans [OF wave_step_advance [OF Suc.prems] Suc.IH [OF wave_step_ok [OF Suc.prems]]]
  show ?case by (simp add: split_beta)
qed simp

lemma wave_tasks_ok: "\<forall>t \<in> set (wave_tasks p s ks). task_ok t"
  by (simp add: wave_tasks_def task_ok_def)

lemma fc_round_advance: "advance st (snd (fc_round env sched ks s st))"
  using wave_steps_advance [OF wave_tasks_ok] by (simp add: fc_round_def run_wave_def Let_def split_beta)

lemma fc_loop_advance: "advance st (snd (fc_loop env sched s st))"
proof (induction env sched s st rule: fc_loop.induct)
  case (1 env sched s st)
  show ?case
  proof (cases "hasBudget (rs_ws st) \<and> fc_ready (env_plan env) s \<noteq> []")
    case True
    then have eq: "fc_loop env sched s st = fc_loop env sched
        (fst (fc_round env sched (fc_ready (env_plan env) s) s st))
        (snd (fc_round env sched (fc_ready (env_plan env) s) s st))"
      by (subst fc_loop.simps) (simp add: Let_def)
    show ?thesis using "1.IH" True advance_trans [OF fc_round_advance] unfolding eq by simp
  next
    case False
    then have "fc_loop env sched s st = (s, st)" by (subst fc_loop.simps) (auto simp: Let_def)
    then show ?thesis by simp
  qed
qed

subsection \<open>The merged result\<close>

text \<open>The rows a finished executor state contributes, block by block in plan order.\<close>

definition block_rows :: "run_env \<Rightarrow> fc_state \<Rightarrow> (string \<times> Row list) list" where
  "block_rows env s =
     map (\<lambda>k. (providerDisplay (n_ProviderID (plan_node (env_plan env) k))
                 (env_providers env (n_ProviderID (plan_node (env_plan env) k))), bs_rows (fc_states s k)))
       (filter (\<lambda>k. k \<in> set (fc_reachable (env_plan env)) \<and> is_provider (plan_node (env_plan env) k) \<and>
                    bs_status (fc_states s k) = ''ok'' \<and> bs_rows (fc_states s k) \<noteq> [])
         (pl_order (env_plan env)))"

lemma merge_block_fst [simp]: "fst (merge_block env d rows m st) = fst (merger_add (env_link env) m d rows)"
  by (simp add: merge_block_def split_beta)

lemma merge_key_merged:
  "mg_merged (fst (merge_key env s k (m, st))) =
     (if k \<in> set (fc_reachable (env_plan env)) \<and> is_provider (plan_node (env_plan env) k) \<and>
         bs_status (fc_states s k) = ''ok'' \<and> bs_rows (fc_states s k) \<noteq> []
      then fst (merger_add (env_link env) (mg_merged m)
             (providerDisplay (n_ProviderID (plan_node (env_plan env) k))
                (env_providers env (n_ProviderID (plan_node (env_plan env) k)))) (bs_rows (fc_states s k)))
      else mg_merged m)"
  by (auto simp: merge_key_def Let_def split_beta)

lemma fold_merge_key:
  "mg_merged (fst (fold (merge_key env s) ks (m, st))) =
     merge_all (env_link env) (mg_merged m)
       (map (\<lambda>k. (providerDisplay (n_ProviderID (plan_node (env_plan env) k))
                 (env_providers env (n_ProviderID (plan_node (env_plan env) k))), bs_rows (fc_states s k)))
       (filter (\<lambda>k. k \<in> set (fc_reachable (env_plan env)) \<and> is_provider (plan_node (env_plan env) k) \<and>
                    bs_status (fc_states s k) = ''ok'' \<and> bs_rows (fc_states s k) \<noteq> []) ks))"
proof (induction ks arbitrary: m st)
  case (Cons k ks)
  obtain m1 st1 where e: "merge_key env s k (m, st) = (m1, st1)" by fastforce
  have "mg_merged m1 = mg_merged (fst (merge_key env s k (m, st)))" by (simp add: e)
  with Cons.IH [of m1 st1] show ?case unfolding merge_key_merged by (simp add: e)
qed simp

lemma merge_all_blocks_merged:
  "mg_merged (fst (merge_all_blocks env s st)) = merge_all (env_link env) newMerger (block_rows env s)"
  by (simp add: merge_all_blocks_def fold_merge_key block_rows_def)

lemma full_finish_rows:
  "o_Rows (fst (full_finish env m ls le st)) = rowsUpTo m (env_Count env)"
  "rq_Merge (o_Request (fst (full_finish env m ls le st))) = Some (merge_stats m (rowsUpTo m (env_Count env)))"
  by (simp_all add: full_finish_def Let_def)

lemma full_finish_ws [simp]:
  "rs_ws (snd (full_finish env m ls le st)) = rs_ws st"
  "rs_invoked (snd (full_finish env m ls le st)) = rs_invoked st"
  "rs_attempts (snd (full_finish env m ls le st)) = rs_attempts st"
  by (simp_all add: full_finish_def Let_def)

lemma merge_block_frame [simp]:
  "rs_ws (snd (merge_block env d rows m st)) = rs_ws st" "rs_invoked (snd (merge_block env d rows m st)) = rs_invoked st"
  "rs_attempts (snd (merge_block env d rows m st)) = rs_attempts st"
  by (simp_all add: merge_block_def split_beta)

lemma merge_key_frame:
  "rs_ws (snd (merge_key env s k acc)) = rs_ws (snd acc)"
  "rs_invoked (snd (merge_key env s k acc)) = rs_invoked (snd acc)"
  "rs_attempts (snd (merge_key env s k acc)) = rs_attempts (snd acc)"
  by (simp_all add: merge_key_def Let_def split_beta)

lemma fold_merge_key_frame:
  "rs_ws (snd (fold (merge_key env s) ks acc)) = rs_ws (snd acc) \<and>
   rs_invoked (snd (fold (merge_key env s) ks acc)) = rs_invoked (snd acc) \<and>
   rs_attempts (snd (fold (merge_key env s) ks acc)) = rs_attempts (snd acc)"
  by (induction ks arbitrary: acc) (simp_all add: merge_key_frame)

subsection \<open>The legacy walk\<close>

definition legacy_inv :: "run_env \<Rightarrow> int \<Rightarrow> legacy_walk \<Rightarrow> run_state \<Rightarrow> bool" where
  "legacy_inv env mx w st \<longleftrightarrow>
     (\<forall>n. lw_node w = Some n \<longrightarrow> pl_nodes (env_plan env) (n_Key n) = Some n) \<and>
     set (lw_visited w) \<subseteq> dom (pl_nodes (env_plan env)) \<and> state_inv mx (lw_idx w) st"

lemma quiet_merge_block [simp]: "quiet st (snd (merge_block env d rows m st))"
  by (simp add: merge_block_def split_beta)

lemma legacy_block_simps [simp]:
  "quiet st (snd (legacy_block env target run w st))"
  "lw_visited (fst (legacy_block env target run w st)) = lw_visited w"
  "lw_idx (fst (legacy_block env target run w st)) = lw_idx w"
  by (simp_all add: legacy_block_def Let_def split_beta)

lemma legacy_step_inv:
  assumes wf: "plan_wf (env_plan env)" and inv: "legacy_inv env mx w st" and n: "lw_node w = Some n"
  shows "legacy_inv env mx (fst (legacy_step env w n st)) (snd (legacy_step env w n st)) \<and>
    lw_visited (fst (legacy_step env w n st)) = n_Key n # lw_visited w"
proof -
  have key: "pl_nodes (env_plan env) (n_Key n) = Some n" and st: "state_inv mx (lw_idx w) st"
    using inv n by (simp_all add: legacy_inv_def)
  have vis: "set (n_Key n # lw_visited w) \<subseteq> dom (pl_nodes (env_plan env))"
    using inv key by (auto simp: legacy_inv_def)
  have nxt: "pl_nodes (env_plan env) (n_Key m) = Some m" if "NextInFullChain (env_plan env) (Some n) = Some m" for m
    using NextInFullChain_edge [OF wf key that] by simp
  obtain target st1 where r: "resolveNode env n st = (target, st1)" by fastforce
  have st1: "state_inv mx (lw_idx w) st1" using state_inv_quiet [OF st resolve_quiet [OF r]] .
  consider "\<not> is_provider n" | "is_provider n" "nt_reason target \<noteq> []" | "is_provider n" "nt_reason target = []"
    by blast
  then show ?thesis
  proof cases
    case 1
    with vis nxt st show ?thesis by (auto simp: legacy_step_def legacy_inv_def)
  next
    case 2
    with vis nxt r state_inv_skip [OF st1] show ?thesis by (auto simp: legacy_step_def legacy_inv_def)
  next
    case 3
    obtain run st2 where e: "execNode env (lw_idx w) n target st1 = (run, st2)" by fastforce
    have "state_inv mx (Suc (lw_idx w)) st2"
      using state_inv_execNode [OF st1 resolve_alive [OF r 3(2)], of env target] e by simp
    then have "state_inv mx (Suc (lw_idx w)) (honorRetryAfter env (nr_result run) st2)"
      using state_inv_quiet quiet_honorRetryAfter by blast
    from state_inv_quiet [OF this legacy_block_simps(1)] 3 vis nxt r e show ?thesis
      by (auto simp: legacy_step_def legacy_inv_def split_beta Let_def)
  qed
qed

lemma legacy_loop_post:
  assumes wf: "plan_wf (env_plan env)" and inv: "legacy_inv env mx w st"
  shows "\<exists>w' st'. legacy_loop env w st = Some (w', st') \<and> state_inv mx (lw_idx w') st'"
  using inv
proof (induction "card (dom (pl_nodes (env_plan env)) - set (lw_visited w))" arbitrary: w st rule: less_induct)
  case less
  have st: "state_inv mx (lw_idx w) st" using less.prems by (simp add: legacy_inv_def)
  show ?case
  proof (cases "\<exists>n. lw_node w = Some n \<and> hasBudget (rs_ws st) \<and> n_Key n \<notin> set (lw_visited w)")
    case False
    with st show ?thesis by (subst legacy_loop.simps) (auto split: option.splits)
  next
    case True
    then obtain n where n: "lw_node w = Some n" "hasBudget (rs_ws st)" "n_Key n \<notin> set (lw_visited w)" by blast
    obtain w1 st1 where s: "legacy_step env w n st = (w1, st1)" by fastforce
    have step: "legacy_inv env mx w1 st1" "lw_visited w1 = n_Key n # lw_visited w"
      using legacy_step_inv [OF wf less.prems n(1)] s by simp_all
    have fin: "finite (dom (pl_nodes (env_plan env)))" using wf by (simp add: plan_wf_def)
    have "n_Key n \<in> dom (pl_nodes (env_plan env))" using less.prems n(1) by (auto simp: legacy_inv_def)
    then have "card (dom (pl_nodes (env_plan env)) - set (lw_visited w1)) <
        card (dom (pl_nodes (env_plan env)) - set (lw_visited w))"
      using n(3) fin step(2) by (intro psubset_card_mono) auto
    from less.hyps [OF this step(1)] n s show ?thesis
      by (subst legacy_loop.simps) simp
  qed
qed

end
