(* ===== verification/Engine.thy ===== *)
theory Engine
  imports Full_Chain_Facts Validate
begin

text \<open>
  The entry points of \<open>internal/engine/engine.go\<close>: resolving the chain, preparing a
  request, running it in its mode, and the connectivity test of one provider. The store is
  the record of the answers the engine reads from it; a store call can fail.
\<close>

datatype engine_error =
    EmptyQuery
  | NoActiveChain
  | ChainNotFound string
  | PlanError plan_error
  | StoreError store_error
  | SinkError string

record Input =
  in_Query :: string
  in_Count :: int
  in_Client :: string
  in_UserID :: string
  in_ChainID :: string

record engine_store =
  sto_active :: "store_error + Chain"
  sto_chain :: "string \<Rightarrow> store_error + Chain"
  sto_providers :: "store_error + Provider list"
  sto_proxies :: "store_error + Proxy list"
  sto_provider :: "string \<Rightarrow> store_error + Provider"
  sto_proxy :: "string \<Rightarrow> store_error + Proxy"
  sto_create :: "Request \<Rightarrow> string option"

subsection \<open>Preparing a request\<close>

definition resolveChain :: "engine_store \<Rightarrow> string \<Rightarrow> engine_error + Chain" where
  "resolveChain sto rawID =
     (let chainID = TrimSpace rawID in
      if chainID = []
      then (case sto_active sto of
              Inl e \<Rightarrow> if e = ErrNotFound then Inl NoActiveChain else Inl (StoreError e)
            | Inr c \<Rightarrow> Inr c)
      else (case sto_chain sto chainID of
              Inl e \<Rightarrow> if e = ErrNotFound then Inl (ChainNotFound chainID) else Inl (StoreError e)
            | Inr c \<Rightarrow> Inr c))"

definition paramBool :: "(string \<rightharpoonup> string) \<Rightarrow> string \<Rightarrow> bool" where
  "paramBool params key = (case params key of None \<Rightarrow> False | Some v \<Rightarrow> truthy v)"

definition planIgnoresCount :: "Plan \<Rightarrow> bool" where
  "planIgnoresCount p \<longleftrightarrow> (\<exists>k \<in> set (pl_order p).
     Kind (pl_nodes p k) = NodeKindJoin \<and> paramBool (n_Params (plan_node p k)) ''ignore_count'')"

definition clamp_count :: "int \<Rightarrow> int" where
  "clamp_count n = (if n < 0 then 0 else if n > 20 then 20 else n)"

definition request_count :: "engine_settings \<Rightarrow> Plan \<Rightarrow> int \<Rightarrow> int" where
  "request_count es plan n =
     (let count = (if es_IgnoreRequestCount es then 0 else clamp_count n)
      in if planIgnoresCount plan then 0 else count)"

text \<open>\<open>nextRID\<close>: a counter modulo 10000, zero-padded, and four random hex digits.\<close>

definition pad4 :: "nat \<Rightarrow> string" where
  "pad4 n = (let s = show_nat n in replicate (4 - length s) CHR ''0'' @ s)"

definition nextRID :: "nat \<Rightarrow> string \<Rightarrow> nat \<times> string" where
  "nextRID seq rnd = (let n = Suc seq in (n, pad4 (n mod 10000) @ ''-'' @ rnd))"

fun index_by :: "('a \<Rightarrow> string) \<Rightarrow> 'a list \<Rightarrow> (string \<rightharpoonup> 'a)" where
  "index_by f [] = Map.empty"
| "index_by f (x # xs) = (case index_by f xs (f x) of
     None \<Rightarrow> (index_by f xs)(f x \<mapsto> x) | Some y \<Rightarrow> index_by f xs)"

text \<open>\<open>emitDeadProviders\<close>: one event per referenced instance that cannot be used.\<close>

fun emit_dead :: "run_env \<Rightarrow> string list \<Rightarrow> ChainNode list \<Rightarrow> run_state \<Rightarrow> run_state" where
  "emit_dead env seen [] st = st"
| "emit_dead env seen (node # nodes) st =
     (if n_ProviderID node \<in> set seen then emit_dead env seen nodes st
      else
        (let inst = env_providers env (n_ProviderID node);
             (reason, st1) = instanceDeadReason (driver_of env node) inst st;
             st2 = (if reason \<noteq> []
                    then publish (EventProviderDead \<lparr>pd_Provider = providerDisplay (n_ProviderID node) inst,
                           pd_Reason = reason\<rparr>) st1
                    else st1)
         in emit_dead env (n_ProviderID node # seen) nodes st2))"

text \<open>
  The parts of the process a request starts from: the settings, the registry and the
  drivers, the clock and identifiers given from outside.
\<close>

record engine =
  en_settings :: engine_settings
  en_registry :: "string set"
  en_search :: "nat \<Rightarrow> call_args \<Rightarrow> call_outcome"
  en_link :: "string \<Rightarrow> string"
  en_uuid :: string
  en_rid :: string
  en_ctx_done :: "time option"

definition new_request :: "engine \<Rightarrow> Plan \<Rightarrow> Input \<Rightarrow> time \<Rightarrow> Request" where
  "new_request eng plan inp now =
     \<lparr>rq_ID = en_uuid eng, rq_RID = en_rid eng, rq_Query = TrimSpace (in_Query inp),
      rq_Count = request_count (en_settings eng) plan (in_Count inp), rq_Status = ''running'',
      rq_UsedProvider = [], rq_ResultsCount = 0, rq_TotalMS = 0, rq_StepsCount = 0,
      rq_ChainID = c_ID (pl_chain plan), rq_ChainSnapshot = Some (Snapshot plan), rq_UserID = in_UserID inp,
      rq_Client = in_Client inp, rq_Error = [], rq_Answer = [], rq_CreatedAt = now, rq_Merge = None,
      rq_Results = []\<rparr>"

definition make_env :: "engine \<Rightarrow> Plan \<Rightarrow> Request \<Rightarrow> Provider list \<Rightarrow> Proxy list \<Rightarrow> time \<Rightarrow> run_env" where
  "make_env eng plan req provs proxies now =
     \<lparr>env_settings = en_settings eng, env_registry = en_registry eng, env_search = en_search eng,
      env_providers = index_by p_ID provs, env_proxies = index_by px_ID proxies, env_plan = plan,
      env_req = req, env_startedAt = now, env_done = en_ctx_done eng, env_link = en_link eng\<rparr>"

definition prepare :: "engine \<Rightarrow> engine_store \<Rightarrow> Input \<Rightarrow> run_state \<Rightarrow> engine_error + run_env \<times> run_state" where
  "prepare eng sto inp st =
     (if TrimSpace (in_Query inp) = [] then Inl EmptyQuery
      else case resolveChain sto (in_ChainID inp) of
        Inl e \<Rightarrow> Inl e
      | Inr chain \<Rightarrow>
          (case BuildPlan (Some chain) of
             Inl e \<Rightarrow> Inl (PlanError e)
           | Inr plan \<Rightarrow>
               (let req = new_request eng plan inp (rs_clock st) in
                case sto_create sto req of
                  Some err \<Rightarrow> Inl (SinkError err)
                | None \<Rightarrow>
                    (let st1 = publish_global (EventRequestNew req) st in
                     case sto_providers sto of
                       Inl e \<Rightarrow> Inl (StoreError e)
                     | Inr provs \<Rightarrow>
                         (case sto_proxies sto of
                            Inl e \<Rightarrow> Inl (StoreError e)
                          | Inr proxies \<Rightarrow>
                              (let env = make_env eng plan req provs proxies (rs_clock st1)
                               in Inr (env, emit_dead env [] (c_Nodes (Snapshot plan)) st1)))))))"

subsection \<open>Running it\<close>

definition run_done :: "run_env \<Rightarrow> time \<Rightarrow> time option" where
  "run_done env now =
     (let secs = es_ChainTimeout (env_settings env) in
      if secs > 0
      then (let d = now + sint (int64_of secs * second)
            in case env_done env of None \<Rightarrow> Some d | Some e \<Rightarrow> Some (min e d))
      else env_done env)"

definition run_maxAttempts :: "engine_settings \<Rightarrow> int" where
  "run_maxAttempts es = (if es_MaxAttempts es \<le> 0 then 10 else es_MaxAttempts es)"

definition dispatch :: "run_env \<Rightarrow> (nat \<Rightarrow> nat \<Rightarrow> nat) \<Rightarrow> int \<Rightarrow> run_state \<Rightarrow> (Output \<times> run_state) option" where
  "dispatch env sched mx st =
     (if PlanMode (env_plan env) = ChainModeFullChain
      then if HasStartBlock (env_plan env) then Some (runFullChain env sched mx st)
           else runFullChainLegacy env mx st
      else runFirstSuccess env mx (HasStartBlock (env_plan env)) st)"

definition engine_run :: "run_env \<Rightarrow> (nat \<Rightarrow> nat \<Rightarrow> nat) \<Rightarrow> run_state \<Rightarrow> (Output \<times> run_state) option" where
  "engine_run env sched st =
     (let st1 = st\<lparr>rs_metrics := RequestStarted (rs_metrics st)\<rparr>;
          env1 = env\<lparr>env_done := run_done env (rs_clock st)\<rparr>
      in map_option (\<lambda>(out, st2). (out, st2\<lparr>rs_metrics := RequestEnded (rs_metrics st2)\<rparr>))
           (dispatch env1 sched (run_maxAttempts (env_settings env)) st1))"

definition Execute ::
  "engine \<Rightarrow> engine_store \<Rightarrow> Input \<Rightarrow> (nat \<Rightarrow> nat \<Rightarrow> nat) \<Rightarrow> run_state \<Rightarrow> (engine_error + Output \<times> run_state) option" where
  "Execute eng sto inp sched st =
     (case prepare eng sto inp st of
        Inl e \<Rightarrow> Some (Inl e)
      | Inr (env, st1) \<Rightarrow> map_option Inr (engine_run env sched st1))"

text \<open>
  \<open>Start\<close> answers with the request as created and leaves the rest to a goroutine with a
  deadline of its own, ten minutes after it begins.
\<close>

definition Start ::
  "engine \<Rightarrow> engine_store \<Rightarrow> Input \<Rightarrow> run_state \<Rightarrow> engine_error + Request \<times> run_env \<times> run_state" where
  "Start eng sto inp st =
     (case prepare eng sto inp st of
        Inl e \<Rightarrow> Inl e
      | Inr (env, st1) \<Rightarrow>
          Inr (env_req env, env\<lparr>env_done := Some (rs_clock st1 + sint (600 * second))\<rparr>, st1))"

subsection \<open>Testing one provider\<close>

definition TestProvider :: "engine \<Rightarrow> engine_store \<Rightarrow> string \<Rightarrow> run_state \<Rightarrow> (Result \<times> int) \<times> run_state" where
  "TestProvider eng sto i st =
     (let inst = (case sto_provider sto i of Inl e \<Rightarrow> None | Inr p \<Rightarrow> Some p);
          driver = (case inst of None \<Rightarrow> i | Some p \<Rightarrow> ToLower (p_Code p))
      in if ToLower (TrimSpace driver) \<notin> en_registry eng
         then ((zero_result\<lparr>r_Kind := KindAPI, r_Provider := i,
                 r_Error := ''unknown provider driver '' @ driver\<rparr>, 0), st)
         else
           (let env = make_env eng \<lparr>pl_chain = mk_chain [] [] [], pl_nodes = Map.empty, pl_out = (\<lambda>_. []),
                        pl_order = [], pl_start = zero_node\<rparr>
                        \<lparr>rq_ID = [], rq_RID = [], rq_Query = ''test'', rq_Count = 3, rq_Status = [],
                         rq_UsedProvider = [], rq_ResultsCount = 0, rq_TotalMS = 0, rq_StepsCount = 0,
                         rq_ChainID = [], rq_ChainSnapshot = None, rq_UserID = [], rq_Client = [], rq_Error = [],
                         rq_Answer = [], rq_CreatedAt = 0, rq_Merge = None, rq_Results = []\<rparr> [] [] (rs_clock st);
                params = buildParams env driver inst zero_node;
                (creds, st1) = buildCredentials inst st;
                (pc, st2) = (case inst of
                     None \<Rightarrow> (None, st1)
                   | Some p \<Rightarrow>
                       if p_ProxyID p = [] then (None, st1)
                       else (case sto_proxy sto (p_ProxyID p) of
                               Inl e \<Rightarrow> (None, st1) | Inr px \<Rightarrow> proxyConfig (Some px) st1));
                deadline = rs_clock st + sint (15 * second);
                out = en_search eng (rs_attempts st2)
                  \<lparr>ca_Driver = ToLower (TrimSpace driver), ca_Text = ''test'', ca_Count = 3, ca_Attempt = [],
                   ca_Creds = creds, ca_Params = params, ca_Proxy = pc,
                   ca_Deadline = (case en_ctx_done eng of None \<Rightarrow> deadline | Some d \<Rightarrow> min d deadline)\<rparr>;
                r = co_Result out;
                st3 = st2\<lparr>rs_clock := rs_clock st2 + int (co_Elapsed out), rs_attempts := rs_attempts st2 + 1\<rparr>
            in ((r\<lparr>r_Provider := providerDisplay i inst, r_Error := Redact st3 (r_Error r)\<rparr>,
                 int (co_Elapsed out) div 10 ^ 6), st3)))"

subsection \<open>Facts about whole runs\<close>

text \<open>A state in which the request has done nothing yet.\<close>

definition fresh :: "run_state \<Rightarrow> bool" where
  "fresh st \<longleftrightarrow> rs_invoked st = [] \<and> rs_attempts st = 0 \<and> rs_steps st = []"

lemma fresh_state_inv: "fresh st \<Longrightarrow> state_inv mx 0 (st\<lparr>rs_ws := newWalkState mx\<rparr>)"
  by (simp add: fresh_def state_inv_def budget_ok_def trace_ok_def calls_ok_def fatal_dead_def
      newWalkState_def history_ok_def)

definition run_ok :: "run_env \<Rightarrow> int \<Rightarrow> Output \<times> run_state \<Rightarrow> bool" where
  "run_ok env mx out \<longleftrightarrow>
     int (length (rs_invoked (snd out))) \<le> max 0 mx \<and>
     (0 < env_Count env \<longrightarrow> int (length (o_Rows (fst out))) \<le> env_Count env)"

lemma budget_ok_calls: "budget_ok st \<Longrightarrow> int (length (rs_invoked st)) \<le> max 0 (ws_maxAttempts (rs_ws st))"
  by (auto simp: budget_ok_def)

lemma runFirstSuccess_ok:
  assumes "fresh st" "runFirstSuccess env mx new st = Some out"
  shows "run_ok env mx out \<and> calls_ok (rs_invoked (snd out)) \<and> sorted (map st_Idx (rs_steps (snd out)))"
proof -
  have "fs_post env mx out"
    using assms(2) fresh_state_inv [OF assms(1), of mx] unfolding runFirstSuccess_def
    by (intro fs_loop_post [where mx = mx]) (auto simp: start_walk_def)
  then show ?thesis
    using budget_ok_calls [of "snd out"]
    by (auto simp: fs_post_def run_ok_def trace_ok_def history_ok_def split_beta)
qed

lemma runFullChain_ok:
  assumes "fresh st" shows "run_ok env mx (runFullChain env sched mx st)"
proof -
  let ?l = "fc_loop env sched (fc_init (env_plan env)) (st\<lparr>rs_ws := newWalkState mx\<rparr>)"
  let ?m = "merge_all_blocks env (fst ?l) (snd ?l)"
  have "budget_ok (st\<lparr>rs_ws := newWalkState mx\<rparr>)"
    using fresh_state_inv [OF assms, of mx] by (simp add: state_inv_def)
  then have "budget_ok (snd ?l)" "ws_maxAttempts (rs_ws (snd ?l)) = mx"
    using fc_loop_advance [of "st\<lparr>rs_ws := newWalkState mx\<rparr>" env sched "fc_init (env_plan env)"]
    by (simp_all add: advance_def newWalkState_def)
  then have "int (length (rs_invoked (snd ?l))) \<le> max 0 mx" using budget_ok_calls by fastforce
  moreover have "rs_invoked (snd (runFullChain env sched mx st)) = rs_invoked (snd ?l)"
    using fold_merge_key_frame [of env "fst ?l" "pl_order (env_plan env)"]
    by (simp add: runFullChain_def split_beta merge_all_blocks_def)
  moreover have "o_Rows (fst (runFullChain env sched mx st)) = rowsUpTo (mg_merged (fst ?m)) (env_Count env)"
    by (simp add: runFullChain_def split_beta full_finish_rows)
  ultimately show ?thesis using rowsUpTo_count by (simp add: run_ok_def)
qed

lemma runFullChainLegacy_ok:
  assumes "fresh st" "plan_wf (env_plan env)"
  shows "\<exists>out. runFullChainLegacy env mx st = Some out \<and> run_ok env mx out \<and> calls_ok (rs_invoked (snd out))"
proof -
  let ?w = "\<lparr>lw_node = Some (pl_start (env_plan env)), lw_idx = 0, lw_visited = [],
     lw_merged = newMerger, lw_lastStatus = [], lw_lastErr = []\<rparr>"
  have "legacy_inv env mx ?w (st\<lparr>rs_ws := newWalkState mx\<rparr>)"
    using plan_start_node [OF assms(2)] fresh_state_inv [OF assms(1), of mx] by (simp add: legacy_inv_def)
  then obtain w st' where l: "legacy_loop env ?w (st\<lparr>rs_ws := newWalkState mx\<rparr>) = Some (w, st')"
      "state_inv mx (lw_idx w) st'"
    using legacy_loop_post [OF assms(2)] by blast
  then have "int (length (rs_invoked st')) \<le> max 0 mx" "trace_ok st'"
    using budget_ok_calls [of st'] by (auto simp: state_inv_def)
  then show ?thesis
    using l(1) rowsUpTo_count by (simp add: runFullChainLegacy_def run_ok_def full_finish_rows trace_ok_def)
qed

lemma dispatch_returns:
  assumes "fresh st" "plan_wf (env_plan env)" "acyclic (plan_edge (env_plan env))"
  shows "\<exists>out. dispatch env sched mx st = Some out \<and> run_ok env mx out"
proof -
  have "\<exists>out. runFirstSuccess env mx new st = Some out \<and> run_ok env mx out" for new
  proof -
    have "\<forall>n. wk_node (start_walk env) = Some n \<longrightarrow> pl_nodes (env_plan env) (n_Key n) = Some n"
      using plan_start_node [OF assms(2)] by (simp add: start_walk_def)
    from fs_loop_returns [OF assms(2,3) this] obtain out where "runFirstSuccess env mx new st = Some out"
      unfolding runFirstSuccess_def by blast
    with runFirstSuccess_ok [OF assms(1)] show ?thesis by blast
  qed
  moreover have "\<exists>out. Some (runFullChain env sched mx st) = Some out \<and> run_ok env mx out"
    using runFullChain_ok [OF assms(1)] by blast
  ultimately show ?thesis
    using runFullChainLegacy_ok [OF assms(1,2), of mx] unfolding dispatch_def by (simp only: split: if_split) blast
qed

lemma clamp_count_range: "0 \<le> clamp_count n \<and> clamp_count n \<le> 20"
  by (simp add: clamp_count_def)

lemma request_count_range: "0 \<le> request_count es p n \<and> request_count es p n \<le> 20"
  using clamp_count_range [of n] by (simp add: request_count_def Let_def)

lemma emit_dead_quiet: "quiet st (emit_dead env seen nodes st)"
proof (induction env seen nodes st rule: emit_dead.induct)
  case (2 env seen node nodes st)
  let ?p = "instanceDeadReason (driver_of env node) (env_providers env (n_ProviderID node)) st"
  obtain reason st1 where p: "?p = (reason, st1)" by fastforce
  have "quiet st st1" using quiet_instanceDeadReason [of st] p by (metis snd_conv)
  note q = this and ih = 2(2) [OF _ refl p [symmetric] refl refl]
  show ?case
  proof (cases "reason = []")
    case True
    with 2(1) ih p show ?thesis by (auto simp: Let_def intro: quiet_trans [OF q])
  next
    case False
    with 2(1) ih p show ?thesis by (auto simp: Let_def intro: quiet_trans [OF quiet_trans [OF q quiet_publish]])
  qed
qed simp

lemma prepare_Inr:
  assumes "prepare eng sto inp st = Inr (env, st')"
  shows "\<exists>chain plan. resolveChain sto (in_ChainID inp) = Inr chain \<and> BuildPlan (Some chain) = Inr plan \<and>
      env_plan env = plan \<and> env_req env = new_request eng plan inp (rs_clock st)"
    and "quiet st st'"
proof -
  obtain chain plan provs proxies where p: "resolveChain sto (in_ChainID inp) = Inr chain"
      "BuildPlan (Some chain) = Inr plan"
      "env = make_env eng plan (new_request eng plan inp (rs_clock st)) provs proxies
         (rs_clock (publish_global (EventRequestNew (new_request eng plan inp (rs_clock st))) st))"
      "st' = emit_dead env [] (c_Nodes (Snapshot plan)) (publish_global (EventRequestNew (new_request eng plan inp (rs_clock st))) st)"
    using assms by (auto simp: prepare_def Let_def split: if_splits sum.splits option.splits)
  then show "\<exists>chain plan. resolveChain sto (in_ChainID inp) = Inr chain \<and> BuildPlan (Some chain) = Inr plan \<and>
      env_plan env = plan \<and> env_req env = new_request eng plan inp (rs_clock st)"
    by (simp add: make_env_def)
  have "quiet st (publish_global e st)" for e by (simp add: quiet_def publish_global_def)
  then show "quiet st st'" unfolding p(4) using quiet_trans emit_dead_quiet by blast
qed

text \<open>
  A search on a stored chain that passed validation always comes back, with at most twenty
  rows when a positive count was asked, and within the attempt budget.
\<close>

lemma Execute_valid:
  assumes fresh: "fresh st" and chain: "resolveChain sto (in_ChainID inp) = Inr c" and valid: "valid_chain c"
    and prep: "prepare eng sto inp st = Inr (env, st1)"
  shows "\<exists>out. engine_run env sched st1 = Some out \<and> run_ok env (run_maxAttempts (env_settings env)) out"
proof -
  obtain plan where plan: "BuildPlan (Some c) = Inr plan" "env_plan env = plan"
    using prepare_Inr(1) [OF prep] chain by auto
  obtain p where "BuildPlan (Some c) = Inr p" "plan_wf p" "acyclic (plan_edge p)"
    using valid_chain_BuildPlan [OF valid] by metis
  with plan have wf: "plan_wf (env_plan env)" "acyclic (plan_edge (env_plan env))" by simp_all
  have "fresh st1" using prepare_Inr(2) [OF prep] fresh by (simp add: fresh_def quiet_def)
  then have "fresh (st1\<lparr>rs_metrics := m\<rparr>)" for m by (simp add: fresh_def)
  from dispatch_returns [OF this, of "env\<lparr>env_done := d\<rparr>" for d] wf show ?thesis
    by (force simp: engine_run_def Let_def run_ok_def)
qed

subsection \<open>Validated chains in full-chain mode\<close>

lemma neutral_pairs_sub: "set (neutral_pairs p) \<subseteq> chain_edges (pl_chain p)"
  by (auto simp: neutral_pairs_def set_edge_pairs chain_edges_def)

lemma valid_chain_full:
  assumes valid: "valid_chain c" and plan: "BuildPlan (Some c) = Inr p"
  shows "distinct (pl_order p)" "acyclic (set (neutral_pairs p))" "set (fc_reachable p) \<subseteq> set (pl_order p)"
proof -
  have wf: "plan_wf p" "pl_chain p = c" using BuildPlan_Inr [OF plan] by simp_all
  have sub: "chain_edges c \<subseteq> chain_keys c \<times> chain_keys c" and ac: "acyclic (chain_edges c)"
    using valid unfolding valid_chain_def by blast+
  show "distinct (pl_order p)" using wf valid by (simp add: plan_wf_def valid_chain_def)
  show "acyclic (set (neutral_pairs p))"
    using acyclic_subset [OF ac] neutral_pairs_sub [of p] wf(2) by simp
  have ord: "set (pl_order p) = chain_keys c" using wf by (simp add: plan_wf_def chain_keys_def)
  show "set (fc_reachable p) \<subseteq> set (pl_order p)"
  proof
    fix k assume "k \<in> set (fc_reachable p)"
    then have "(n_Key (pl_start p), k) \<in> (set (neutral_pairs p))\<^sup>*" by (simp add: reachable_path)
    then show "k \<in> set (pl_order p)"
    proof (cases rule: rtranclE)
      case base
      then show ?thesis using plan_start_in_order [OF wf(1)] by simp
    next
      case (step y)
      then show ?thesis using neutral_pairs_sub [of p] sub wf(2) ord by auto
    qed
  qed
qed

text \<open>The final state of the executor on a validated chain.\<close>

lemma fc_loop_valid:
  assumes "valid_chain c" "BuildPlan (Some c) = Inr (env_plan env)"
    and run: "fc_loop env sched (fc_init (env_plan env)) st = (s, st')"
  shows "distinct (fc_done s)" "set (fc_done s) \<subseteq> set (fc_reachable (env_plan env))"
    "in_order (env_plan env) (fc_done s)"
    "hasBudget (rs_ws st') \<Longrightarrow> set (fc_done s) = set (fc_reachable (env_plan env))"
proof -
  note v = valid_chain_full [OF assms(1,2)]
  have k: "kahn_inv (env_plan env) s" "in_order (env_plan env) (fc_done s)"
    using fc_loop_order [OF v(1), of "fc_init (env_plan env)" sched st] fc_init_kahn run by simp_all
  then show "distinct (fc_done s)" "set (fc_done s) \<subseteq> set (fc_reachable (env_plan env))"
    "in_order (env_plan env) (fc_done s)" by (simp_all add: kahn_inv_def)
  show "set (fc_done s) = set (fc_reachable (env_plan env))" if "hasBudget (rs_ws st')"
    using kahn_complete [OF k(1) v(2,3)] fc_loop_end [of env sched "fc_init (env_plan env)" st] run that by simp
qed

end
