(* ===== verification/Chain_Admin.thy ===== *)
theory Chain_Admin
  imports Http_Core Sql_Chains Engine
begin

text \<open>
  The chain handlers of \<open>internal/httpd/handlers_chains.go\<close>. A reply that carries a chain
  carries with it the derived counts of the keys bound to it.
\<close>

subsection \<open>Validation of a draft\<close>

definition knownProviders :: "database \<Rightarrow> string \<Rightarrow> bool" where
  "knownProviders db i = (case ListProviders db of Inl _ \<Rightarrow> False | Inr ps \<Rightarrow> list_ex (\<lambda>p. pr_ID p = i) ps)"

definition default_mode :: "Chain \<Rightarrow> Chain" where
  "default_mode c = (if c_Mode c = [] then c\<lparr>c_Mode := ChainModeFirstSuccess\<rparr> else c)"

definition validateDraft :: "server \<Rightarrow> database \<Rightarrow> Chain \<Rightarrow> Chain \<times> ValidationResult" where
  "validateDraft sv db chain =
     (let c = default_mode chain
      in (c, ValidateChain (sv_order sv) (Some c) (Some (knownProviders db)) (Some (sv_GetInt sv KeyMaxAttempts))))"

definition invalid_chain :: "'a reply" where
  "invalid_chain = Failure 400 ''invalid_chain'' ''chain validation failed''"

definition chain_not_found :: "'a reply" where
  "chain_not_found = Failure 404 ''not_found'' ''chain not found''"

subsection \<open>Handlers\<close>

definition count_or_zero :: "store_error + nat \<Rightarrow> nat" where
  "count_or_zero r = (case r of Inl _ \<Rightarrow> 0 | Inr n \<Rightarrow> n)"

definition fillChainKeyCounts :: "database \<Rightarrow> Chain \<Rightarrow> Chain \<times> nat \<times> nat" where
  "fillChainKeyCounts db c =
     (c, count_or_zero (CountKeysByChain (c_ID c) db), count_or_zero (CountActiveKeysByChain (c_ID c) db))"

definition handleListChains :: "database \<Rightarrow> (Chain \<times> nat \<times> nat) list reply" where
  "handleListChains db =
     (case ListChains db of Inl e \<Rightarrow> store_failure e | Inr cs \<Rightarrow> Reply 200 (map (fillChainKeyCounts db) cs))"

definition handleGetChain :: "string \<Rightarrow> database \<Rightarrow> (Chain \<times> nat \<times> nat) reply" where
  "handleGetChain i db =
     (case GetChain i db of Inl e \<Rightarrow> chain_not_found | Inr c \<Rightarrow> Reply 200 (fillChainKeyCounts db c))"

definition zero_chain :: Chain where
  "zero_chain = \<lparr>c_ID = [], c_Name = [], c_Active = False, c_Mode = [], c_Version = 0, c_Nodes = [], c_Edges = [],
     c_CreatedAt = [], c_UpdatedAt = []\<rparr>"

definition handleCreateChain :: "server \<Rightarrow> req \<Rightarrow> Chain body \<Rightarrow> database \<Rightarrow> Chain reply \<times> database" where
  "handleCreateChain sv r body db =
     (case readJSON zero_chain body of
        Inl bad \<Rightarrow> (bad, db)
      | Inr draft \<Rightarrow>
          (let (c, verdict) = validateDraft sv db draft in
           if \<not> v_OK verdict then (invalid_chain, db)
           else (case SaveChain (rx_now r) (\<lambda>i. rx_ids r (Suc i)) (c\<lparr>c_ID := rx_ids r 0, c_Active := False\<rparr>) db of
                   (Inl e, db') \<Rightarrow> (store_failure e, db')
                 | (Inr saved, db') \<Rightarrow>
                     (Reply 201 saved, audit sv r ''chain.create'' (c_ID saved) [(''name'', c_Name saved)] db'))))"

text \<open>The flag, the version and the creation time are those read just before the save.\<close>

definition merge_existing :: "string \<Rightarrow> Chain \<Rightarrow> Chain \<Rightarrow> Chain" where
  "merge_existing i existing c =
     c\<lparr>c_ID := i, c_Active := c_Active existing, c_Version := c_Version existing, c_CreatedAt := c_CreatedAt existing\<rparr>"

definition handleUpdateChain ::
  "server \<Rightarrow> req \<Rightarrow> string \<Rightarrow> Chain body \<Rightarrow> database \<Rightarrow> (Chain \<times> nat \<times> nat) reply \<times> database" where
  "handleUpdateChain sv r i body db =
     (case readJSON zero_chain body of
        Inl bad \<Rightarrow> (bad, db)
      | Inr draft \<Rightarrow>
          (let (c, verdict) = validateDraft sv db draft in
           if \<not> v_OK verdict then (invalid_chain, db)
           else (case GetChain i db of
                   Inl e \<Rightarrow> (chain_not_found, db)
                 | Inr existing \<Rightarrow>
                     (case SaveChain (rx_now r) (rx_ids r) (merge_existing i existing c) db of
                        (Inl e, db') \<Rightarrow> (store_failure e, db')
                      | (Inr saved, db') \<Rightarrow>
                          (let db'' = audit sv r ''chain.update'' (c_ID saved)
                                 [(''name'', c_Name saved), (''version'', Itoa (c_Version saved))] db'
                           in (Reply 200 (fillChainKeyCounts db'' saved), db''))))))"

definition handleDeleteChain :: "server \<Rightarrow> req \<Rightarrow> string \<Rightarrow> database \<Rightarrow> (nat \<times> nat) reply \<times> database" where
  "handleDeleteChain sv r i db =
     (case GetChain i db of
        Inl e \<Rightarrow> (chain_not_found, db)
      | Inr chain \<Rightarrow>
          if c_Active chain
          then (Failure 409 ''chain_active'' ''the active chain cannot be deleted; activate another chain first'', db)
          else (let active = count_or_zero (CountActiveKeysByChain i db) in
                case ClearKeyChainRefs i db of
                  (Inl e, db1) \<Rightarrow> (store_failure e, db1)
                | (Inr unbound, db1) \<Rightarrow>
                    (case DeleteChain i db1 of
                       (Some e, db2) \<Rightarrow> (store_failure e, db2)
                     | (None, db2) \<Rightarrow>
                         (Reply 200 (unbound, active),
                          audit sv r ''chain.delete'' i
                            [(''name'', c_Name chain), (''unbound_keys'', Itoa (int unbound))] db2))))"

definition handleActivateChain :: "server \<Rightarrow> req \<Rightarrow> string \<Rightarrow> database \<Rightarrow> unit reply \<times> database" where
  "handleActivateChain sv r i db =
     (case GetChain i db of
        Inl e \<Rightarrow> (chain_not_found, db)
      | Inr chain \<Rightarrow>
          (let (c, verdict) = validateDraft sv db chain in
           if \<not> v_OK verdict then (invalid_chain, db)
           else (case ActivateChain (rx_now r) (c_ID c) db of
                   (Some e, db') \<Rightarrow> (if e = ErrNotFound then chain_not_found else store_failure e, db')
                 | (None, db') \<Rightarrow> (Reply 200 (), audit sv r ''chain.activate'' (c_ID c) [(''name'', c_Name c)] db'))))"

definition copy_chain :: "string \<Rightarrow> Chain \<Rightarrow> Chain" where
  "copy_chain i src =
     \<lparr>c_ID = i, c_Name = c_Name src @ '' (copy)'', c_Active = False, c_Mode = c_Mode src, c_Version = 0,
      c_Nodes = map (\<lambda>n. n\<lparr>n_ID := [], n_ChainID := []\<rparr>) (c_Nodes src),
      c_Edges = map (\<lambda>e. e\<lparr>e_ID := [], e_ChainID := []\<rparr>) (c_Edges src), c_CreatedAt = [], c_UpdatedAt = []\<rparr>"

definition handleDuplicateChain :: "server \<Rightarrow> req \<Rightarrow> string \<Rightarrow> database \<Rightarrow> Chain reply \<times> database" where
  "handleDuplicateChain sv r i db =
     (case GetChain i db of
        Inl e \<Rightarrow> (chain_not_found, db)
      | Inr src \<Rightarrow>
          (case SaveChain (rx_now r) (\<lambda>i. rx_ids r (Suc i)) (copy_chain (rx_ids r 0) src) db of
             (Inl e, db') \<Rightarrow> (store_failure e, db')
           | (Inr saved, db') \<Rightarrow>
               (Reply 201 saved,
                audit sv r ''chain.duplicate'' (c_ID saved) [(''source'', c_ID src), (''name'', c_Name saved)] db')))"

definition handleValidateChain :: "server \<Rightarrow> Chain body \<Rightarrow> database \<Rightarrow> ValidationResult reply" where
  "handleValidateChain sv body db =
     (case readJSON zero_chain body of
        Inl bad \<Rightarrow> bad
      | Inr draft \<Rightarrow> Reply 200 (snd (validateDraft sv db draft)))"

subsection \<open>The invariant of the chain tables under the handlers\<close>

definition chains_valid :: "database \<Rightarrow> bool" where
  "chains_valid db \<longleftrightarrow> (\<forall>r \<in> set (t_chains db). valid_chain (loadChainGraph db r))"

definition chain_tables_ok :: "database \<Rightarrow> bool" where
  "chain_tables_ok db \<longleftrightarrow> chains_ok db \<and> chains_valid db \<and> one_active db"

lemma chains_valid_GetChain:
  assumes "chains_ok db" "t_down db = None"
  shows "chains_valid db \<longleftrightarrow> (\<forall>i c. GetChain i db = Inr c \<longrightarrow> valid_chain c)"
proof -
  have d: "distinct (map cr_ID (t_chains db))" using assms(1) by (simp add: chains_ok_def)
  have "GetChain (cr_ID r) db = Inr (loadChainGraph db r)" if "r \<in> set (t_chains db)" for r
    using run_row_unique [OF d that assms(2)] by (simp add: GetChain_def)
  moreover have "\<exists>r \<in> set (t_chains db). c = loadChainGraph db r" if "GetChain i db = Inr c" for i c
    using that by (cases "run_row (\<lambda>r. cr_ID r = i) (t_chains db) db") (auto simp: GetChain_def dest: run_row_Inr)
  ultimately show ?thesis unfolding chains_valid_def by metis
qed

lemma validateDraft_OK:
  assumes "iteration_order (sv_order sv)" "validateDraft sv db c = (d, verdict)" "v_OK verdict"
  shows "d = default_mode c" "valid_chain d"
  using assms ValidateChain_OK [OF assms(1)] by (auto simp: validateDraft_def Let_def)

lemma valid_chain_fields:
  assumes "valid_chain c" "c_Nodes d = c_Nodes c" "c_Edges d = c_Edges c" "c_Mode d = c_Mode c"
  shows "valid_chain d"
  using assms by (simp add: valid_chain_def chain_keys_def chain_edges_def)

text \<open>The tables the chains live in.\<close>

definition same_chains :: "database \<Rightarrow> database \<Rightarrow> bool" where
  "same_chains db db' \<longleftrightarrow> t_chains db' = t_chains db \<and> t_nodes db' = t_nodes db \<and> t_edges db' = t_edges db"

lemma same_chains_ok: "same_chains db db' \<Longrightarrow> chain_tables_ok db' = chain_tables_ok db"
  by (simp add: same_chains_def chain_tables_ok_def chains_ok_def chains_valid_def one_active_def actives_def
      loadChainGraph_def load_nodes_def load_edges_def)

lemma same_chains_refl [simp]: "same_chains db db"
  by (simp add: same_chains_def)

lemma audit_same_chains [simp]: "same_chains db (audit sv r a t d db)"
  using audit_frame [of sv r a t d db] by (auto simp: same_chains_def)

lemma audit_chain_tables [simp]: "chain_tables_ok (audit sv r a t d db) = chain_tables_ok db"
  by (rule same_chains_ok) simp

text \<open>A save activates nothing: the flag it writes is set only when the row's was.\<close>

lemma filter_active_mono:
  "(\<And>r. r \<in> set t \<Longrightarrow> P r \<Longrightarrow> cr_Active (f r) \<Longrightarrow> cr_Active r) \<Longrightarrow>
   length (filter cr_Active (update_where P f t)) \<le> length (filter cr_Active t)"
  by (induction t) (auto simp: update_where_def le_SucI)

lemma one_active_SaveChain:
  assumes "SaveChain now ids c0 db = (Inr c, db')" and "one_active db" and "chains_ok db"
    and "c_Active c0 \<Longrightarrow> \<exists>r \<in> set (t_chains db). cr_ID r = c_ID c0 \<and> cr_Active r"
  shows "one_active db'"
proof (rule SaveChain_Inr [OF assms(1)], goal_cases)
  case (1 chains ns es)
  have "length (filter cr_Active chains) \<le> length (filter cr_Active (t_chains db))"
  proof (cases "has cr_ID (c_ID c0) (t_chains db)")
    case True
    with 1 have "chains = update_where (\<lambda>r. cr_ID r = c_ID c0)
       (\<lambda>r. r\<lparr>cr_Name := c_Name c, cr_Active := c_Active c, cr_Mode := c_Mode c, cr_Version := c_Version c,
             cr_UpdatedAt := now\<rparr>) (t_chains db)" by simp
    moreover have "cr_Active r" if "r \<in> set (t_chains db)" "cr_ID r = c_ID c0" "c_Active c0" for r
      using assms(3,4) that unique_rowD [of cr_ID "t_chains db"] by (force simp: chains_ok_def)
    moreover have "c_Active c = c_Active c0" using 1 by simp
    ultimately show ?thesis by simp (rule filter_active_mono, simp)
  next
    case False
    then have "\<not> c_Active c0" using assms(4) has_iff image_eqI by metis
    then show ?thesis using 1 False by (simp add: row_of_def)
  qed
  moreover have "t_chains db' = chains" using 1 by simp
  ultimately show ?case using assms(2) by (simp add: one_active_def actives_def)
qed

lemma valid_SaveChain:
  assumes "SaveChain now ids c0 db = (Inr c, db')" "chains_ok db" "chains_valid db" "valid_chain c0"
  shows "chains_valid db'"
proof -
  have down: "t_down db' = None" "t_down db = None"
    by (rule SaveChain_Inr [OF assms(1)], simp)+
  have ok: "chains_ok db'" using chains_ok_SaveChain [OF assms(2), of now ids c0] assms(1) by simp
  have "valid_chain d" if d: "GetChain i db' = Inr d" for i d
  proof (cases "i = c_ID c0")
    case True
    obtain d' ms where "GetChain (c_ID c0) db' = Inr d'" "c_Mode d' = chain_mode c0"
        "list_all2 (stored_node (c_ID c0)) (c_Nodes c0) ms" "c_Nodes d' = sort_key n_Key ms"
        "list_all2 (stored_edge (c_ID c0)) (c_Edges c0) (c_Edges d')"
      using GetChain_after_SaveChain [OF assms(1,2)] by blast
    then have "valid_chain d'" using valid_stored [OF assms(4)] by blast
    then show ?thesis using d True \<open>GetChain (c_ID c0) db' = Inr d'\<close> by simp
  next
    case False
    then show ?thesis using d SaveChain_other [OF assms(1)] chains_valid_GetChain [OF assms(2) down(2)] assms(3) by metis
  qed
  then show ?thesis using chains_valid_GetChain [OF ok down(1)] by blast
qed

lemma SaveChain_keeps:
  assumes "SaveChain now ids c0 db = (res, db')" "chain_tables_ok db" "valid_chain c0"
    and "c_Active c0 \<Longrightarrow> \<exists>r \<in> set (t_chains db). cr_ID r = c_ID c0 \<and> cr_Active r"
  shows "chain_tables_ok db'"
proof (cases res)
  case (Inl e)
  then have "db' = db" using assms(1) by (auto simp: SaveChain_def Let_def split: option.splits if_splits prod.splits)
  then show ?thesis using assms(2) by simp
next
  case (Inr c)
  then have s: "SaveChain now ids c0 db = (Inr c, db')" using assms(1) by simp
  then show ?thesis
    using assms chains_ok_SaveChain [of db now ids c0] valid_SaveChain [OF s] one_active_SaveChain [OF s]
    by (simp add: chain_tables_ok_def)
qed

lemma GetChain_row:
  assumes "GetChain i db = Inr c" "chains_ok db" "r \<in> set (t_chains db)" "cr_ID r = i"
  shows "c = loadChainGraph db r"
proof -
  have "t_down db = None" using assms(1) by (auto simp: GetChain_def run_row_def split: option.splits)
  then have "run_row (\<lambda>x. cr_ID x = cr_ID r) (t_chains db) db = Inr r"
    using assms(2,3) by (intro run_row_unique) (simp_all add: chains_ok_def)
  then show ?thesis using assms(1,4) by (simp add: GetChain_def)
qed

lemma GetChain_ID: "GetChain i db = Inr c \<Longrightarrow> c_ID c = i \<and> has cr_ID i (t_chains db)"
  by (cases "run_row (\<lambda>r. cr_ID r = i) (t_chains db) db")
    (auto simp: GetChain_def loadChainGraph_def dest!: run_row_Inr)

lemma GetChain_valid: "GetChain i db = Inr c \<Longrightarrow> chain_tables_ok db \<Longrightarrow> valid_chain c"
proof -
  assume c: "GetChain i db = Inr c" and ok: "chain_tables_ok db"
  then obtain r where "r \<in> set (t_chains db)" "cr_ID r = i" using GetChain_ID [OF c] by auto
  then show "valid_chain c" using GetChain_row [OF c] ok by (auto simp: chain_tables_ok_def chains_valid_def)
qed

text \<open>Deleting and activating.\<close>

lemma chains_valid_DeleteChain: "chains_valid db \<Longrightarrow> chains_valid (snd (DeleteChain i db))"
proof -
  assume v: "chains_valid db"
  let ?db = "db\<lparr>t_chains := delete_where (\<lambda>r. cr_ID r = i) (t_chains db),
           t_nodes := delete_where (\<lambda>n. n_ChainID n = i) (t_nodes db),
           t_edges := delete_where (\<lambda>e. e_ChainID e = i) (t_edges db),
           t_keys := update_where (\<lambda>k. k_ChainID k = i) (\<lambda>k. k\<lparr>k_ChainID := []\<rparr>) (t_keys db)\<rparr>"
  have "loadChainGraph ?db r = loadChainGraph db r" if "cr_ID r \<noteq> i" for r
    using that by (simp add: loadChainGraph_def load_nodes_def load_edges_def filter_delete_other)
  then have "chains_valid ?db" using v by (simp add: chains_valid_def)
  then show ?thesis unfolding DeleteChain_def using run_exec_inv [of chains_valid db True ?db] v by simp
qed

lemma chains_valid_ActivateChain: "chains_valid db \<Longrightarrow> chains_valid (snd (ActivateChain now i db))"
proof -
  assume v: "chains_valid db"
  have "valid_chain (loadChainGraph d (r\<lparr>cr_Active := b\<rparr>))" "valid_chain (loadChainGraph d (r\<lparr>cr_Active := b, cr_UpdatedAt := u\<rparr>))"
    if "r \<in> set (t_chains db)" "d = db\<lparr>t_chains := cs\<rparr>" for r d b u cs
    using v that by (auto simp: chains_valid_def loadChainGraph_def load_nodes_def load_edges_def elim!: valid_chain_fields)
  moreover have "valid_chain (loadChainGraph d r)" if "r \<in> set (t_chains db)" "d = db\<lparr>t_chains := cs\<rparr>" for r d cs
    using v that by (auto simp: chains_valid_def loadChainGraph_def load_nodes_def load_edges_def elim!: valid_chain_fields)
  ultimately show ?thesis using v
    by (auto simp: ActivateChain_def chains_valid_def update_where_def split: option.split)
qed

lemma one_active_ActivateChain:
  assumes "chains_ok db" "one_active db"
  shows "one_active (snd (ActivateChain now i db))"
proof (cases "ActivateChain now i db")
  case (Pair err db')
  show ?thesis
  proof (cases err)
    case None
    then have "map cr_ID (actives db') = [i]" using actives_ActivateChain Pair assms(1) by blast
    then have "length (actives db') = 1" by (metis length_map length_Cons list.size(3) One_nat_def)
    then show ?thesis using Pair by (simp add: one_active_def)
  next
    case (Some e)
    then have "db' = db" using Pair by (auto simp: ActivateChain_def split: option.splits if_splits)
    then show ?thesis using Pair assms by simp
  qed
qed

lemma chain_tables_ActivateChain: "chain_tables_ok db \<Longrightarrow> chain_tables_ok (snd (ActivateChain now i db))"
  by (simp add: chain_tables_ok_def chains_ok_ActivateChain chains_valid_ActivateChain one_active_ActivateChain)

lemma chain_tables_DeleteChain: "chain_tables_ok db \<Longrightarrow> chain_tables_ok (snd (DeleteChain i db))"
  by (simp add: chain_tables_ok_def chains_ok_DeleteChain chains_valid_DeleteChain one_active_DeleteChain)

lemma ClearKeyChainRefs_same_chains [simp]: "same_chains db (snd (ClearKeyChainRefs i db))"
  unfolding ClearKeyChainRefs_def Let_def
  by (rule run_count_inv) (simp_all add: same_chains_def)

lemma mode_default [simp]: "c_ID (default_mode c) = c_ID c" "c_Active (default_mode c) = c_Active c"
    "c_Name (default_mode c) = c_Name c"
  by (simp_all add: default_mode_def)

lemma handleCreateChain_keeps:
  assumes "iteration_order (sv_order sv)" "chain_tables_ok db"
  shows "chain_tables_ok (snd (handleCreateChain sv r body db))"
proof (cases "readJSON zero_chain body :: Chain reply + Chain")
  case (Inr draft)
  obtain c verdict where c: "validateDraft sv db draft = (c, verdict)" by fastforce
  obtain res db' where s: "SaveChain (rx_now r) (\<lambda>i. rx_ids r (Suc i)) (c\<lparr>c_ID := rx_ids r 0, c_Active := False\<rparr>) db = (res, db')"
    by fastforce
  show ?thesis
  proof (cases "v_OK verdict")
    case True
    then have "valid_chain (c\<lparr>c_ID := rx_ids r 0, c_Active := False\<rparr>)"
      using validateDraft_OK(2) [OF assms(1) c] by (auto elim: valid_chain_fields)
    then have "chain_tables_ok db'" using SaveChain_keeps [OF s assms(2)] by simp
    then show ?thesis using True Inr c s by (cases res) (simp_all add: handleCreateChain_def)
  qed (use assms Inr c in \<open>simp add: handleCreateChain_def\<close>)
qed (use assms in \<open>simp add: handleCreateChain_def\<close>)

lemma GetChain_active:
  assumes "GetChain i db = Inr c" "c_Active c"
  shows "\<exists>r \<in> set (t_chains db). cr_ID r = i \<and> cr_Active r"
  using assms by (cases "run_row (\<lambda>r. cr_ID r = i) (t_chains db) db")
    (auto simp: GetChain_def loadChainGraph_def dest!: run_row_Inr)

lemma handleUpdateChain_keeps:
  assumes "iteration_order (sv_order sv)" "chain_tables_ok db"
  shows "chain_tables_ok (snd (handleUpdateChain sv r i body db))"
proof (cases "readJSON zero_chain body :: (Chain \<times> nat \<times> nat) reply + Chain")
  case (Inr draft)
  obtain c verdict where c: "validateDraft sv db draft = (c, verdict)" by fastforce
  show ?thesis
  proof (cases "v_OK verdict \<and> (\<exists>e. GetChain i db = Inr e)")
    case True
    then obtain e where e: "v_OK verdict" "GetChain i db = Inr e" by blast
    obtain res db' where s: "SaveChain (rx_now r) (rx_ids r) (merge_existing i e c) db = (res, db')" by fastforce
    have "valid_chain (merge_existing i e c)"
      using validateDraft_OK(2) [OF assms(1) c e(1)] by (auto simp: merge_existing_def elim: valid_chain_fields)
    then have "chain_tables_ok db'"
      using GetChain_active [OF e(2)] by (intro SaveChain_keeps [OF s assms(2)]) (simp_all add: merge_existing_def)
    then show ?thesis using e Inr c s by (cases res) (simp_all add: handleUpdateChain_def Let_def)
  next
    case False
    then show ?thesis using assms Inr c
      by (cases "GetChain i db") (auto simp: handleUpdateChain_def)
  qed
qed (use assms in \<open>simp add: handleUpdateChain_def\<close>)

lemma handleDeleteChain_keeps:
  assumes "chain_tables_ok db"
  shows "chain_tables_ok (snd (handleDeleteChain sv r i db))"
proof -
  obtain res1 db1 where c: "ClearKeyChainRefs i db = (res1, db1)" by fastforce
  obtain res2 db2 where d: "DeleteChain i db1 = (res2, db2)" by fastforce
  have "chain_tables_ok db1"
    using ClearKeyChainRefs_same_chains [of db i] same_chains_ok assms c by (metis snd_conv)
  moreover from this have "chain_tables_ok db2" using chain_tables_DeleteChain [of db1 i] d by simp
  ultimately show ?thesis using assms c d
    by (auto simp: handleDeleteChain_def Let_def split: sum.split option.split)
qed

lemma handleActivateChain_keeps:
  assumes "chain_tables_ok db"
  shows "chain_tables_ok (snd (handleActivateChain sv r i db))"
proof (cases "GetChain i db")
  case (Inr chain)
  obtain c verdict where c: "validateDraft sv db chain = (c, verdict)" by fastforce
  obtain res db' where a: "ActivateChain (rx_now r) (c_ID c) db = (res, db')" by fastforce
  then have "chain_tables_ok db'" using chain_tables_ActivateChain [OF assms] by (metis snd_conv)
  then show ?thesis using assms Inr c a by (cases res) (simp_all add: handleActivateChain_def)
qed (use assms in \<open>simp add: handleActivateChain_def\<close>)

lemma copy_like:
  "node_like n (n\<lparr>n_ID := [], n_ChainID := []\<rparr>)" "edge_like e (e\<lparr>e_ID := [], e_ChainID := []\<rparr>)"
  by (simp_all add: node_like_def edge_like_def Kind_def is_entry_def valid_node_def bad_kind_def)

lemma valid_copy_chain:
  assumes "valid_chain c" "c_Mode c \<noteq> []"
  shows "valid_chain (copy_chain i c)"
proof (rule valid_transfer [OF assms(1)])
  show "list_all2 node_like (c_Nodes c) (c_Nodes (copy_chain i c))"
    by (simp add: copy_chain_def list_all2_conv_all_nth copy_like)
  show "list_all2 edge_like (c_Edges c) (c_Edges (copy_chain i c))"
    by (simp add: copy_chain_def list_all2_conv_all_nth copy_like)
qed (use assms in \<open>simp_all add: copy_chain_def chain_mode_def\<close>)

lemma GetChain_mode: "GetChain i db = Inr c \<Longrightarrow> chains_ok db \<Longrightarrow> c_Mode c \<noteq> []"
  by (cases "run_row (\<lambda>r. cr_ID r = i) (t_chains db) db")
    (auto simp: GetChain_def loadChainGraph_def chains_ok_def chain_modes_def dest!: run_row_Inr)

lemma handleDuplicateChain_keeps:
  assumes "chain_tables_ok db"
  shows "chain_tables_ok (snd (handleDuplicateChain sv r i db))"
proof (cases "GetChain i db")
  case (Inr src)
  obtain res db' where s: "SaveChain (rx_now r) (\<lambda>i. rx_ids r (Suc i)) (copy_chain (rx_ids r 0) src) db = (res, db')"
    by fastforce
  have "valid_chain (copy_chain (rx_ids r 0) src)"
    using GetChain_valid [OF Inr assms] GetChain_mode [OF Inr] assms by (intro valid_copy_chain) (auto simp: chain_tables_ok_def)
  then have "chain_tables_ok db'" using SaveChain_keeps [OF s assms] by (simp add: copy_chain_def)
  then show ?thesis using Inr s by (cases res) (simp_all add: handleDuplicateChain_def)
qed (use assms in \<open>simp add: handleDuplicateChain_def\<close>)

end
