(* ===== verification/Examples.thy ===== *)
theory Examples
  imports Engine
begin

text \<open>
  Concrete inputs on which the properties are instantiated: small chains, a store that
  serves one of them, an engine whose provider always answers the same, and fresh states.
\<close>

definition id_order :: "nat \<Rightarrow> string list \<Rightarrow> string list" where
  "id_order i xs = xs"

definition start_node :: "string \<Rightarrow> ChainNode" where
  "start_node k = zero_node\<lparr>n_Key := k, n_Kind := ''start''\<rparr>"

definition provider_node :: "string \<Rightarrow> string \<Rightarrow> ChainNode" where
  "provider_node k prov = zero_node\<lparr>n_Key := k, n_Kind := ''provider'', n_ProviderID := prov, n_Retries := 1\<rparr>"

definition join_node :: "string \<Rightarrow> ChainNode" where
  "join_node k = zero_node\<lparr>n_Key := k, n_Kind := ''join''\<rparr>"

definition demo_chain :: Chain where
  "demo_chain = mk_chain ''first_success'' [start_node ''s'', provider_node ''a'' ''p1'']
     [mk_edge ''s'' ''a'' ''next'']"

definition fan_chain :: Chain where
  "fan_chain = mk_chain ''full_chain''
     [start_node ''s'', provider_node ''a'' ''p1'', provider_node ''b'' ''p2'', join_node ''j'']
     [mk_edge ''s'' ''a'' ''next'', mk_edge ''s'' ''b'' ''next'', mk_edge ''a'' ''j'' ''next'', mk_edge ''b'' ''j'' ''next'']"

lemma id_order_iteration: "iteration_order id_order"
  by (simp add: iteration_order_def id_order_def)

lemma demo_chain_verdict: "v_OK (ValidateChain id_order (Some demo_chain) None None)"
  by code_simp

lemma fan_chain_verdict: "v_OK (ValidateChain id_order (Some fan_chain) None None)"
  by code_simp

lemma demo_chain_valid: "valid_chain demo_chain"
  using ValidateChain_OK [OF id_order_iteration] demo_chain_verdict by blast

lemma fan_chain_valid: "valid_chain fan_chain"
  using ValidateChain_OK [OF id_order_iteration] fan_chain_verdict by blast

definition demo_provider :: Provider where
  "demo_provider = \<lparr>p_ID = ''p1'', p_Code = ''brave'', p_Name = ''Brave'', p_Enabled = True, p_BaseURL = [],
     p_ProxyID = [], p_Credentials = [(''api_key'', ''secretkey'')], p_Params = Map.empty, p_UpdatedAt = []\<rparr>"

definition demo_store :: engine_store where
  "demo_store = \<lparr>sto_active = Inr demo_chain, sto_chain = (\<lambda>_. Inl ErrNotFound), sto_providers = Inr [demo_provider],
     sto_proxies = Inr [], sto_provider = (\<lambda>i. if i = p_ID demo_provider then Inr demo_provider else Inl ErrNotFound),
     sto_proxy = (\<lambda>_. Inl ErrNotFound), sto_create = (\<lambda>_. None)\<rparr>"

definition demo_settings :: engine_settings where
  "demo_settings = \<lparr>es_ChainTimeout = 0, es_MaxAttempts = 10, es_MaxConcurrency = 32, es_ProviderFailures = 0,
     es_ProviderCooldown = 60, es_TreatEmptyAsFail = True, es_AllowSparseSources = False,
     es_IgnoreRequestCount = False, es_RetryHTTPCodes = [429], es_APRetryCodes = [], es_WebhookURL = []\<rparr>"

definition failing_call :: call_outcome where
  "failing_call = \<lparr>co_Acquire = None, co_Result = zero_result\<lparr>r_Kind := ''http'', r_Error := ''bad secretkey''\<rparr>,
     co_Stages = [], co_Elapsed = 5\<rparr>"

definition demo_engine :: engine where
  "demo_engine = \<lparr>en_settings = demo_settings, en_registry = {''brave''}, en_search = (\<lambda>_ _. failing_call),
     en_link = (\<lambda>s. s), en_uuid = ''r1'', en_rid = ''0001-ab'', en_ctx_done = None\<rparr>"

definition demo_input :: Input where
  "demo_input = \<lparr>in_Query = ''cats'', in_Count = 5, in_Client = [], in_UserID = [], in_ChainID = []\<rparr>"

definition idle_state :: run_state where
  "idle_state = \<lparr>rs_ws = newWalkState 0, rs_cooldowns = newProviderCooldowns, rs_secrets = [],
     rs_metrics = metrics_New, rs_clock = 0, rs_answer = [], rs_error = [], rs_steps = [], rs_events = [],
     rs_invoked = [], rs_attempts = 0\<rparr>"

lemma idle_fresh: "fresh idle_state"
  by (simp add: fresh_def idle_state_def)

lemma demo_resolve: "resolveChain demo_store (in_ChainID demo_input) = Inr demo_chain"
  by (simp add: resolveChain_def demo_store_def demo_input_def)

lemma demo_prepare_ok: "\<exists>env st. prepare demo_engine demo_store demo_input idle_state = Inr (env, st)"
proof -
  obtain p where "BuildPlan (Some demo_chain) = Inr p" using valid_chain_BuildPlan [OF demo_chain_valid] by metis
  moreover have "TrimSpace (in_Query demo_input) \<noteq> []" by code_simp
  moreover have "sto_create demo_store r = None" "sto_providers demo_store = Inr [demo_provider]"
    "sto_proxies demo_store = Inr []" for r by (simp_all add: demo_store_def)
  ultimately show ?thesis by (simp add: prepare_def demo_resolve Let_def)
qed

definition demo_env :: "Plan \<Rightarrow> run_env" where
  "demo_env plan = make_env demo_engine plan (new_request demo_engine plan demo_input 0) [demo_provider] [] 0"

lemma demo_env_plan [simp]: "env_plan (demo_env plan) = plan"
  by (simp add: demo_env_def make_env_def)

text \<open>Two blocks on one instance, then one on another, all failing permanently.\<close>

definition dead_chain :: Chain where
  "dead_chain = mk_chain ''first_success''
     [start_node ''s'', provider_node ''a'' ''p1'', provider_node ''b'' ''p1'', provider_node ''d'' ''p2'']
     [mk_edge ''s'' ''a'' ''next'', mk_edge ''a'' ''b'' ''next'', mk_edge ''b'' ''d'' ''next'']"

definition plan_of :: "Chain \<Rightarrow> Plan" where
  "plan_of c = (case BuildPlan (Some c) of Inr p \<Rightarrow> p
     | Inl e \<Rightarrow> \<lparr>pl_chain = c, pl_nodes = Map.empty, pl_out = (\<lambda>_. []), pl_order = [], pl_start = zero_node\<rparr>)"

definition dead_plan :: Plan where
  "dead_plan = plan_of dead_chain"

definition demo_plan :: Plan where
  "demo_plan = plan_of demo_chain"

definition permanent_call :: call_outcome where
  "permanent_call = failing_call\<lparr>co_Result := (co_Result failing_call)\<lparr>r_Permanent := True\<rparr>\<rparr>"

definition dead_env :: "Plan \<Rightarrow> run_env" where
  "dead_env plan = (demo_env plan)\<lparr>env_search := (\<lambda>_ _. permanent_call),
     env_providers := [''p1'' \<mapsto> demo_provider, ''p2'' \<mapsto> demo_provider\<lparr>p_ID := ''p2''\<rparr>]\<rparr>"

definition demo_target :: "ChainNode \<Rightarrow> nodeTarget" where
  "demo_target node = \<lparr>nt_inst = Some demo_provider, nt_proxy = None, nt_driver = ''brave'', nt_display = ''Brave'',
     nt_known = True, nt_answer = False, nt_reason = []\<rparr>"

text \<open>The walk with a step counter, for evaluation; it agrees with the loop where it ends.\<close>

fun fs_fuel :: "nat \<Rightarrow> run_env \<Rightarrow> bool \<Rightarrow> walk \<Rightarrow> run_state \<Rightarrow> (Output \<times> run_state) option" where
  "fs_fuel 0 env new w st = None"
| "fs_fuel (Suc n) env new w st =
     (case wk_node w of
        None \<Rightarrow> Some (fs_exhausted env w st)
      | Some node \<Rightarrow>
          if \<not> hasBudget (rs_ws st) then Some (fs_exhausted env w st)
          else (case fs_step env new w node st of
                  Inl (w', st') \<Rightarrow> fs_fuel n env new w' st'
                | Inr out \<Rightarrow> Some out))"

lemma fs_fuel_loop: "fs_fuel n env new w st = Some out \<Longrightarrow> fs_loop env new w st = Some out"
proof (induction n arbitrary: w st)
  case (Suc n)
  then show ?case
    by (subst fs_loop.simps) (auto split: option.splits if_splits sum.splits)
qed simp

definition calls_summary :: "(Output \<times> run_state) option \<Rightarrow> (bool \<times> bool) list" where
  "calls_summary r = (case r of None \<Rightarrow> []
     | Some (out, st) \<Rightarrow> map (\<lambda>v. (r_Permanent (iv_Result v), r_OK (iv_Result v))) (rs_invoked st))"

lemma dead_run_calls:
  "calls_summary (fs_fuel 9 (dead_env dead_plan) True (start_walk (dead_env dead_plan))
     (idle_state\<lparr>rs_ws := newWalkState 10\<rparr>)) = [(True, False), (True, False)]"
  by code_simp

lemma dead_run:
  "\<exists>out st'. runFirstSuccess (dead_env dead_plan) 10 True idle_state = Some (out, st') \<and>
     map (\<lambda>v. (r_Permanent (iv_Result v), r_OK (iv_Result v))) (rs_invoked st') = [(True, False), (True, False)]"
proof -
  obtain out st' where f: "fs_fuel 9 (dead_env dead_plan) True (start_walk (dead_env dead_plan))
      (idle_state\<lparr>rs_ws := newWalkState 10\<rparr>) = Some (out, st')"
    using dead_run_calls by (cases "fs_fuel 9 (dead_env dead_plan) True (start_walk (dead_env dead_plan))
      (idle_state\<lparr>rs_ws := newWalkState 10\<rparr>)") (auto simp: calls_summary_def)
  from fs_fuel_loop [OF this] f dead_run_calls show ?thesis
    by (auto simp: runFirstSuccess_def calls_summary_def)
qed

end
