(* ===== verification/Admin_System.thy ===== *)
theory Admin_System
  imports Chain_Admin Examples
begin

text \<open>
  The database under everything that writes to it: the statements of the storage layer and the
  chain handlers, as one step relation. Its reachable states keep the invariants of all tables,
  and a search on a chain stored in a reachable state returns.
\<close>

subsection \<open>What the chain handlers do to the other tables\<close>

locale preserved =
  fixes P :: "database \<Rightarrow> bool"
  assumes save: "P db \<Longrightarrow> P (snd (SaveChain now ids c db))"
    and delete: "P db \<Longrightarrow> P (snd (DeleteChain i db))"
    and unbind: "P db \<Longrightarrow> P (snd (ClearKeyChainRefs i db))"
    and activate: "P db \<Longrightarrow> P (snd (ActivateChain now i db))"
    and audited: "P db \<Longrightarrow> P (snd (AddAudit e db))"
begin

lemma audit_keeps: "P db \<Longrightarrow> P (audit sv r a t d db)"
  unfolding audit_def by (rule audited)

lemma save_keeps: "P db \<Longrightarrow> SaveChain now ids c db = (res, db') \<Longrightarrow> P db'"
  using save [of db now ids c] by simp

lemma create_keeps: "P db \<Longrightarrow> P (snd (handleCreateChain sv r body db))"
  by (auto simp: handleCreateChain_def intro: audit_keeps save_keeps split: sum.split prod.split)

lemma update_keeps: "P db \<Longrightarrow> P (snd (handleUpdateChain sv r i body db))"
  by (auto simp: handleUpdateChain_def Let_def intro: audit_keeps save_keeps split: sum.split prod.split)

lemma duplicate_keeps: "P db \<Longrightarrow> P (snd (handleDuplicateChain sv r i db))"
  by (auto simp: handleDuplicateChain_def intro: audit_keeps save_keeps split: sum.split prod.split)

lemma activate_keeps: "P db \<Longrightarrow> P (snd (handleActivateChain sv r i db))"
proof -
  have "P db \<Longrightarrow> ActivateChain now j db = (res, db') \<Longrightarrow> P db'" for now j res db'
    using activate [of db now j] by simp
  then show "P db \<Longrightarrow> P (snd (handleActivateChain sv r i db))"
    by (auto simp: handleActivateChain_def intro: audit_keeps split: sum.split prod.split option.split)
qed

lemma delete_keeps:
  assumes "P db"
  shows "P (snd (handleDeleteChain sv r i db))"
proof -
  obtain res1 db1 where c: "ClearKeyChainRefs i db = (res1, db1)" by fastforce
  obtain res2 db2 where d: "DeleteChain i db1 = (res2, db2)" by fastforce
  have "P db1" using unbind [OF assms, of i] c by simp
  moreover from this have "P db2" using delete [of db1 i] d by simp
  ultimately show ?thesis using assms c d
    by (auto simp: handleDeleteChain_def Let_def audit_keeps split: sum.split option.split)
qed

end

lemma SaveChain_frame:
  "snd (SaveChain now ids c db) = db \<or>
   (\<exists>cs ns es. snd (SaveChain now ids c db) = db\<lparr>t_chains := cs, t_nodes := ns, t_edges := es\<rparr>
      \<and> cr_ID ` set (t_chains db) \<subseteq> cr_ID ` set cs)"
proof (cases "SaveChain now ids c db")
  case (Pair res db')
  show ?thesis
  proof (cases res)
    case (Inl e)
    then have "db' = db" using Pair by (auto simp: SaveChain_def Let_def split: option.splits if_splits prod.splits)
    then show ?thesis using Pair by simp
  next
    case (Inr d)
    show ?thesis
    proof (rule SaveChain_Inr [of now ids c db d db'], goal_cases)
      case 1
      then show ?case using Pair Inr by simp
    next
      case (2 cs ns es)
      have "cr_ID ` set (t_chains db) \<subseteq> cr_ID ` set cs"
        using 2 by (auto simp: image_update_where split: if_splits)
      moreover have "snd (SaveChain now ids c db) = db\<lparr>t_chains := cs,
          t_nodes := delete_where (\<lambda>n. n_ChainID n = c_ID c) (t_nodes db) @ map node_row ns,
          t_edges := delete_where (\<lambda>e. e_ChainID e = c_ID c) (t_edges db) @ es\<rparr>"
        using Pair 2(1) by simp
      ultimately show ?case by blast
    qed
  qed
qed

lemma ActivateChain_frame:
  "snd (ActivateChain now i db) = db \<or>
   (\<exists>cs. snd (ActivateChain now i db) = db\<lparr>t_chains := cs\<rparr> \<and> cr_ID ` set cs = cr_ID ` set (t_chains db))"
proof (cases "t_down db = None \<and> has cr_ID i (t_chains db)")
  case True
  let ?cs = "update_where (\<lambda>r. cr_ID r = i) (\<lambda>r. r\<lparr>cr_Active := True, cr_UpdatedAt := now\<rparr>)
                 (update_where cr_Active (\<lambda>r. r\<lparr>cr_Active := False\<rparr>) (t_chains db))"
  have "snd (ActivateChain now i db) = db\<lparr>t_chains := ?cs\<rparr>" using True by (simp add: ActivateChain_def)
  moreover have "cr_ID ` set ?cs = cr_ID ` set (t_chains db)" by (simp add: image_update_where)
  ultimately show ?thesis by blast
qed (auto simp: ActivateChain_def split: option.split)

lemma DeleteChain_frame:
  "snd (DeleteChain i db) = db \<or> snd (DeleteChain i db) =
     db\<lparr>t_chains := delete_where (\<lambda>r. cr_ID r = i) (t_chains db), t_nodes := delete_where (\<lambda>n. n_ChainID n = i) (t_nodes db),
        t_edges := delete_where (\<lambda>e. e_ChainID e = i) (t_edges db),
        t_keys := update_where (\<lambda>k. k_ChainID k = i) (\<lambda>k. k\<lparr>k_ChainID := []\<rparr>) (t_keys db)\<rparr>"
  unfolding DeleteChain_def
  using run_exec_cases [of True "db\<lparr>t_chains := delete_where (\<lambda>r. cr_ID r = i) (t_chains db), t_nodes := delete_where (\<lambda>n. n_ChainID n = i) (t_nodes db),
        t_edges := delete_where (\<lambda>e. e_ChainID e = i) (t_edges db),
        t_keys := update_where (\<lambda>k. k_ChainID k = i) (\<lambda>k. k\<lparr>k_ChainID := []\<rparr>) (t_keys db)\<rparr>" db] by blast

lemma accounts_more_chains:
  assumes "accounts_ok db" "cr_ID ` set (t_chains db) \<subseteq> cr_ID ` set cs"
  shows "accounts_ok (db\<lparr>t_chains := cs, t_nodes := ns, t_edges := es\<rparr>)"
proof -
  have "k_ChainID ` set (t_keys db) \<subseteq> insert [] (cr_ID ` set (t_chains db))" using assms(1) by (simp add: accounts_ok_def)
  also have "\<dots> \<subseteq> insert [] (cr_ID ` set cs)" using assms(2) by blast
  finally show ?thesis using assms(1) by (simp add: accounts_ok_def)
qed

lemma accounts_frame [simp]:
  "accounts_ok (db\<lparr>t_audit := as\<rparr>) = accounts_ok db" "accounts_ok (db\<lparr>t_nodes := ns, t_edges := es\<rparr>) = accounts_ok db"
  by (simp_all add: accounts_ok_def)

lemma accounts_unbound:
  assumes "accounts_ok db"
  shows "accounts_ok (db\<lparr>t_chains := delete_where (\<lambda>r. cr_ID r = i) (t_chains db), t_nodes := ns, t_edges := es,
        t_keys := update_where (\<lambda>k. k_ChainID k = i) (\<lambda>k. k\<lparr>k_ChainID := []\<rparr>) (t_keys db)\<rparr>)"
proof -
  let ?ks = "update_where (\<lambda>k. k_ChainID k = i) (\<lambda>k. k\<lparr>k_ChainID := []\<rparr>) (t_keys db)"
  have m: "map k_ID ?ks = map k_ID (t_keys db)" "map k_Prefix ?ks = map k_Prefix (t_keys db)"
      "map k_UserID ?ks = map k_UserID (t_keys db)"
    by (rule map_update_where; simp)+
  have u: "k_UserID ` set ?ks = k_UserID ` set (t_keys db)" using m(3) by (metis set_map)
  have "k_ChainID ` set (t_keys db) \<subseteq> insert [] (cr_ID ` set (t_chains db))" using assms by (simp add: accounts_ok_def)
  then have known: "k_ChainID k = [] \<or> (\<exists>r \<in> set (t_chains db). k_ChainID k = cr_ID r)" if "k \<in> set (t_keys db)" for k
    using that by blast
  have "k_ChainID ` set ?ks \<subseteq> insert [] (cr_ID ` set (delete_where (\<lambda>r. cr_ID r = i) (t_chains db)))"
  proof
    fix c assume "c \<in> k_ChainID ` set ?ks"
    then obtain k where k: "k \<in> set (t_keys db)" "c = (if k_ChainID k = i then [] else k_ChainID k)"
      by (auto simp: set_update_where split: if_splits)
    show "c \<in> insert [] (cr_ID ` set (delete_where (\<lambda>r. cr_ID r = i) (t_chains db)))"
      using known [OF k(1)] k(2) by (auto split: if_splits)
  qed
  then show ?thesis using assms unfolding accounts_ok_def by (simp add: m u del: set_delete_where)
qed

interpretation accounts_kept: preserved accounts_ok
proof
  fix db now ids c i e
  assume ok: "accounts_ok db"
  show "accounts_ok (snd (SaveChain now ids c db))"
    by (rule disjE [OF SaveChain_frame [of now ids c db]]) (auto simp only: ok accounts_more_chains)
  show "accounts_ok (snd (DeleteChain i db))"
    using DeleteChain_frame [of i db] accounts_unbound [OF ok] by (elim disjE) (simp_all only: ok)
  show "accounts_ok (snd (ClearKeyChainRefs i db))"
    using accounts_ok_exec [OF ok, of "Clear_chain_refs i"] by simp
  show "accounts_ok (snd (ActivateChain now i db))"
  proof (rule disjE [OF ActivateChain_frame [of now i db]])
    assume "\<exists>cs. snd (ActivateChain now i db) = db\<lparr>t_chains := cs\<rparr> \<and> cr_ID ` set cs = cr_ID ` set (t_chains db)"
    then obtain cs where "snd (ActivateChain now i db) = db\<lparr>t_chains := cs\<rparr>" "cr_ID ` set cs = cr_ID ` set (t_chains db)" by blast
    then show ?thesis using ok by (simp add: accounts_ok_def)
  qed (use ok in simp)
  show "accounts_ok (snd (AddAudit e db))"
    unfolding AddAudit_def by (rule run_exec_inv) (use ok in simp_all)
qed

lemma history_frame [simp]:
  "history_tables_ok (db\<lparr>t_chains := cs\<rparr>) = history_tables_ok db" "history_tables_ok (db\<lparr>t_chains := cs, t_nodes := ns, t_edges := es\<rparr>) = history_tables_ok db"
  "history_tables_ok (db\<lparr>t_chains := cs, t_nodes := ns, t_edges := es, t_keys := ks\<rparr>) = history_tables_ok db"
  "history_tables_ok (db\<lparr>t_keys := ks\<rparr>) = history_tables_ok db"
  by (simp_all add: history_tables_ok_def)

interpretation history_kept: preserved history_tables_ok
proof
  fix db now ids c i e
  assume ok: "history_tables_ok db"
  show "history_tables_ok (snd (SaveChain now ids c db))" using SaveChain_frame [of now ids c db] ok by auto
  show "history_tables_ok (snd (DeleteChain i db))" using DeleteChain_frame [of i db] ok by auto
  show "history_tables_ok (snd (ClearKeyChainRefs i db))"
    unfolding ClearKeyChainRefs_def Let_def by (rule run_count_inv) (use ok in simp_all)
  show "history_tables_ok (snd (ActivateChain now i db))" using ActivateChain_frame [of now i db] ok by auto
  show "history_tables_ok (snd (AddAudit e db))" using history_ok_log_stmts(4) [OF ok] .
qed

lemma providers_frame [simp]:
  "providers_ok (db\<lparr>t_chains := cs\<rparr>) = providers_ok db" "providers_ok (db\<lparr>t_chains := cs, t_nodes := ns, t_edges := es\<rparr>) = providers_ok db"
  "providers_ok (db\<lparr>t_chains := cs, t_nodes := ns, t_edges := es, t_keys := ks\<rparr>) = providers_ok db"
  "providers_ok (db\<lparr>t_keys := ks\<rparr>) = providers_ok db" "providers_ok (db\<lparr>t_audit := as\<rparr>) = providers_ok db"
  by (simp_all add: providers_ok_def)

interpretation providers_kept: preserved providers_ok
proof
  fix db now ids c i e
  assume ok: "providers_ok db"
  show "providers_ok (snd (SaveChain now ids c db))" using SaveChain_frame [of now ids c db] ok by auto
  show "providers_ok (snd (DeleteChain i db))" using DeleteChain_frame [of i db] ok by auto
  show "providers_ok (snd (ClearKeyChainRefs i db))"
    unfolding ClearKeyChainRefs_def Let_def by (rule run_count_inv) (use ok in simp_all)
  show "providers_ok (snd (ActivateChain now i db))" using ActivateChain_frame [of now i db] ok by auto
  show "providers_ok (snd (AddAudit e db))"
    unfolding AddAudit_def by (rule run_exec_inv) (use ok in simp_all)
qed

subsection \<open>Statements of the other tables leave the chains alone\<close>

named_theorems stmt_defs

lemmas [stmt_defs] = CreateUser_def UpdateUser_def DeleteUser_def CreateAPIKey_def UpdateAPIKey_def DeleteAPIKey_def
  ClearKeyChainRefs_def IncrementUsage_def DeleteOldUsage_def AddRollingHit_def DeleteOldRollingHits_def
  SetUserQuota_def DeleteUserQuota_def CreatePasskey_def UpdatePasskey_def DeletePasskey_def
  CreateSessionRow_def UpdateSessionExpiry_def DeleteSession_def DeleteUserSessions_def DeleteExpiredSessions_def
  CreateRequest_def UpdateRequest_def AddStep_def ClearHistory_def DeleteOldRequests_def AddLog_def ClearLogs_def
  DeleteOldLogs_def AddAudit_def DeleteOldAudit_def
  UpsertProvider_def UpdateProviderBaseURL_def SetProviderEnabled_def DeleteProvider_def UpsertProxy_def
  SetProxyEnabled_def DeleteProxy_def ClearProxyRefs_def patch_provider_def
  Let_def run_exec_def run_count_def

text \<open>What a group of statements leaves unchanged, one field at a time.\<close>

lemma exec_stmt_frame:
  "same_chains db (exec_stmt s db)"
  "t_requests (exec_stmt s db) = t_requests db" "t_steps (exec_stmt s db) = t_steps db"
  "t_logs (exec_stmt s db) = t_logs db" "t_log_seq (exec_stmt s db) = t_log_seq db" "t_audit (exec_stmt s db) = t_audit db"
  "t_providers (exec_stmt s db) = t_providers db" "t_proxies (exec_stmt s db) = t_proxies db"
  by (cases s; simp add: stmt_defs same_chains_def split: option.split)+

lemma exec_history_frame:
  "same_chains db (exec_history s db)"
  "t_users (exec_history s db) = t_users db" "t_keys (exec_history s db) = t_keys db"
  "t_passkeys (exec_history s db) = t_passkeys db" "t_sessions (exec_history s db) = t_sessions db"
  "t_quotas (exec_history s db) = t_quotas db" "t_usage (exec_history s db) = t_usage db"
  "t_rolling (exec_history s db) = t_rolling db"
  "t_providers (exec_history s db) = t_providers db" "t_proxies (exec_history s db) = t_proxies db"
  by (cases s; simp add: stmt_defs same_chains_def split: option.split)+

lemma exec_provider_frame:
  "same_chains db (exec_provider s db)"
  "t_users (exec_provider s db) = t_users db" "t_keys (exec_provider s db) = t_keys db"
  "t_passkeys (exec_provider s db) = t_passkeys db" "t_sessions (exec_provider s db) = t_sessions db"
  "t_quotas (exec_provider s db) = t_quotas db" "t_usage (exec_provider s db) = t_usage db"
  "t_rolling (exec_provider s db) = t_rolling db"
  "t_requests (exec_provider s db) = t_requests db" "t_steps (exec_provider s db) = t_steps db"
  "t_logs (exec_provider s db) = t_logs db" "t_log_seq (exec_provider s db) = t_log_seq db" "t_audit (exec_provider s db) = t_audit db"
  by (cases s; simp add: stmt_defs same_chains_def split: option.split)+

subsection \<open>The step relation\<close>

definition system_ok :: "database \<Rightarrow> bool" where
  "system_ok db \<longleftrightarrow> accounts_ok db \<and> history_tables_ok db \<and> providers_ok db \<and> chain_tables_ok db"

text \<open>The identifier drawn for a new chain is not that of another chain.\<close>

definition fresh_id :: "req \<Rightarrow> database \<Rightarrow> bool" where
  "fresh_id r db \<longleftrightarrow> \<not> has cr_ID (rx_ids r 0) (t_chains db)"

inductive admin_step :: "server \<Rightarrow> database \<Rightarrow> database \<Rightarrow> bool" for sv where
  account_step: "admin_step sv db (exec_stmt s db)"
| history_step: "stmt_clean h \<Longrightarrow> admin_step sv db (exec_history h db)"
| provider_step: "admin_step sv db (exec_provider p db)"
| create_step: "fresh_id r db \<Longrightarrow> admin_step sv db (snd (handleCreateChain sv r body db))"
| update_step: "admin_step sv db (snd (handleUpdateChain sv r i ubody db))"
| delete_step: "admin_step sv db (snd (handleDeleteChain sv r i db))"
| activate_step: "admin_step sv db (snd (handleActivateChain sv r i db))"
| duplicate_step: "fresh_id r db \<Longrightarrow> admin_step sv db (snd (handleDuplicateChain sv r i db))"

abbreviation reachable_db :: "server \<Rightarrow> database \<Rightarrow> bool" where
  "reachable_db sv \<equiv> (admin_step sv)\<^sup>*\<^sup>* empty_db"

lemma system_ok_step:
  assumes "admin_step sv db db'" and "iteration_order (sv_order sv)" and "system_ok db"
  shows "system_ok db'"
  using assms(1)
proof cases
  case (account_step s)
  then show ?thesis using assms(3) accounts_ok_exec same_chains_ok [OF exec_stmt_frame(1) [of db s]]
    by (simp add: system_ok_def history_tables_ok_def providers_ok_def exec_stmt_frame)
next
  case (history_step h)
  then show ?thesis using assms(3) history_tables_ok_exec same_chains_ok [OF exec_history_frame(1) [of db h]] exec_history_frame(1) [of db h]
    by (simp add: system_ok_def accounts_ok_def providers_ok_def same_chains_def exec_history_frame)
next
  case (provider_step p)
  then show ?thesis using assms(3) providers_ok_exec same_chains_ok [OF exec_provider_frame(1) [of db p]] exec_provider_frame(1) [of db p]
    by (simp add: system_ok_def accounts_ok_def history_tables_ok_def same_chains_def exec_provider_frame)
next
  case (create_step r body)
  then show ?thesis using assms(2,3)
    by (simp add: system_ok_def accounts_kept.create_keeps history_kept.create_keeps providers_kept.create_keeps handleCreateChain_keeps)
next
  case (update_step r i body)
  then show ?thesis using assms(2,3)
    by (simp add: system_ok_def accounts_kept.update_keeps history_kept.update_keeps providers_kept.update_keeps handleUpdateChain_keeps)
next
  case (delete_step r i)
  then show ?thesis using assms(2,3)
    by (simp add: system_ok_def accounts_kept.delete_keeps history_kept.delete_keeps providers_kept.delete_keeps handleDeleteChain_keeps)
next
  case (activate_step r i)
  then show ?thesis using assms(2,3)
    by (simp add: system_ok_def accounts_kept.activate_keeps history_kept.activate_keeps providers_kept.activate_keeps handleActivateChain_keeps)
next
  case (duplicate_step r i)
  then show ?thesis using assms(2,3)
    by (simp add: system_ok_def accounts_kept.duplicate_keeps history_kept.duplicate_keeps providers_kept.duplicate_keeps handleDuplicateChain_keeps)
qed

lemma system_ok_empty: "system_ok empty_db"
  using accounts_ok_empty history_tables_ok_empty providers_ok_empty
  by (simp add: system_ok_def chain_tables_ok_def chains_ok_def chains_valid_def one_active_def actives_def empty_db_def)

lemma system_ok_reachable:
  assumes "reachable_db sv db" and "iteration_order (sv_order sv)"
  shows "system_ok db"
  using assms(1) by (induction rule: rtranclp_induct) (auto intro: system_ok_empty system_ok_step [OF _ assms(2)])

subsection \<open>Searches over the database\<close>

text \<open>\<open>entries\<close> ranges over a map in some order.\<close>

definition load_provider :: "Cipher \<Rightarrow> ((string \<rightharpoonup> string) \<Rightarrow> (string \<times> string) list) \<Rightarrow> provider_row \<Rightarrow> Provider" where
  "load_provider cipher entries r =
     (let (creds, params) = scanProvider cipher r
      in \<lparr>p_ID = pr_ID r, p_Code = pr_Code r, p_Name = pr_Name r, p_Enabled = pr_Enabled r, p_BaseURL = pr_BaseURL r,
          p_ProxyID = pr_ProxyID r, p_Credentials = entries creds, p_Params = params, p_UpdatedAt = pr_UpdatedAt r\<rparr>)"

definition sql_engine_store ::
  "Cipher \<Rightarrow> ((string \<rightharpoonup> string) \<Rightarrow> (string \<times> string) list) \<Rightarrow> encoders \<Rightarrow> database \<Rightarrow> engine_store" where
  "sql_engine_store cipher entries js db =
     \<lparr>sto_active = GetActiveChain db, sto_chain = (\<lambda>i. GetChain i db),
      sto_providers = map_sum id (map (load_provider cipher entries)) (ListProviders db),
      sto_proxies = ListProxies cipher db,
      sto_provider = (\<lambda>i. map_sum id (load_provider cipher entries) (GetProvider i db)),
      sto_proxy = (\<lambda>i. GetProxy cipher i db),
      sto_create = (\<lambda>r. map_option error_text (fst (CreateRequest js r db)))\<rparr>"

lemma resolved_valid:
  assumes "chain_tables_ok db" "resolveChain (sql_engine_store cipher entries js db) i = Inr c"
  shows "valid_chain c"
proof (cases "TrimSpace i = []")
  case True
  then have "GetActiveChain db = Inr c"
    using assms(2) by (auto simp: resolveChain_def sql_engine_store_def split: sum.splits if_splits)
  then obtain r where "r \<in> set (t_chains db)" "c = loadChainGraph db r"
    by (cases "run_row cr_Active (order_by_desc cr_UpdatedAt (t_chains db)) db")
      (auto simp: GetActiveChain_def dest!: run_row_Inr)
  then show ?thesis using assms(1) by (simp add: chain_tables_ok_def chains_valid_def)
next
  case False
  then have "GetChain (TrimSpace i) db = Inr c"
    using assms(2) by (auto simp: resolveChain_def sql_engine_store_def Let_def split: sum.splits if_splits)
  then show ?thesis using GetChain_valid assms(1) by blast
qed

lemma search_over_database:
  assumes "system_ok db" "fresh st"
    and "prepare eng (sql_engine_store cipher entries js db) inp st = Inr (env, st1)"
  shows "\<exists>out. engine_run env sched st1 = Some out \<and> run_ok env (run_maxAttempts (env_settings env)) out"
proof -
  obtain c where "resolveChain (sql_engine_store cipher entries js db) (in_ChainID inp) = Inr c"
    using prepare_Inr(1) [OF assms(3)] by blast
  then show ?thesis
    using Execute_valid [OF assms(2) _ _ assms(3)] resolved_valid assms(1) by (auto simp: system_ok_def)
qed

subsection \<open>The default chain is never lost, but an edit can undo an activation\<close>

lemma update_where_mem: "r \<in> set t \<Longrightarrow> (if P r then f r else r) \<in> set (update_where P f t)"
  by (auto simp: update_where_def)

lemma exists_active_SaveChain:
  assumes "SaveChain now ids c0 db = (res, db')" "actives db \<noteq> []"
    and "\<And>r. r \<in> set (t_chains db) \<Longrightarrow> cr_ID r = c_ID c0 \<Longrightarrow> cr_Active r \<Longrightarrow> c_Active c0"
  shows "actives db' \<noteq> []"
proof (cases res)
  case (Inl e)
  then have "db' = db" using assms(1) by (auto simp: SaveChain_def Let_def split: option.splits if_splits prod.splits)
  then show ?thesis using assms(2) by simp
next
  case (Inr c)
  obtain r where r: "r \<in> set (t_chains db)" "cr_Active r" using assms(2) by (auto simp: actives_def filter_empty_conv)
  show ?thesis
  proof (rule SaveChain_Inr [of now ids c0 db c db'], goal_cases)
    case 1
    then show ?case using assms(1) Inr by simp
  next
    case (2 chains ns es)
    have "\<exists>x \<in> set chains. cr_Active x"
    proof (cases "has cr_ID (c_ID c0) (t_chains db)")
      case True
      let ?f = "\<lambda>r. r\<lparr>cr_Name := c_Name c, cr_Active := c_Active c, cr_Mode := c_Mode c, cr_Version := c_Version c,
             cr_UpdatedAt := now\<rparr>"
      have "chains = update_where (\<lambda>r. cr_ID r = c_ID c0) ?f (t_chains db)" using True 2 by simp
      then have m: "(if cr_ID r = c_ID c0 then ?f r else r) \<in> set chains"
        using update_where_mem [OF r(1), of "\<lambda>r. cr_ID r = c_ID c0" ?f] by simp
      have "c_Active c" if "cr_ID r = c_ID c0" using assms(3) r that 2 by simp
      then show ?thesis using r(2) by (intro bexI [OF _ m]) simp
    qed (use 2 r in auto)
    moreover have "t_chains db' = chains" using 2(1) by simp
    ultimately show ?case by (auto simp: actives_def filter_empty_conv)
  qed
qed

lemma same_chains_actives: "same_chains db db' \<Longrightarrow> actives db' = actives db"
  by (simp add: same_chains_def actives_def)

lemma actives_audit [simp]: "actives (audit sv r a t d db) = actives db"
  by (rule same_chains_actives) simp

lemma inactive_row:
  assumes "GetChain i db = Inr c" "chains_ok db" "x \<in> set (t_chains db)" "cr_ID x = i"
  shows "cr_Active x = c_Active c"
  using GetChain_row [OF assms] by (simp add: loadChainGraph_def)

lemma active_kept_delete:
  assumes "actives db \<noteq> []" "chains_ok db" "GetChain i db = Inr c" "\<not> c_Active c"
  shows "actives (snd (DeleteChain i db)) \<noteq> []"
proof -
  obtain x where x: "x \<in> set (t_chains db)" "cr_Active x" using assms(1) by (auto simp: actives_def filter_empty_conv)
  then have "cr_ID x \<noteq> i" using inactive_row [OF assms(3,2)] assms(4) by blast
  then have "\<exists>y \<in> set (delete_where (\<lambda>r. cr_ID r = i) (t_chains db)). cr_Active y" using x by auto
  then show ?thesis using assms(1) DeleteChain_frame [of i db]
    by (elim disjE) (auto simp: actives_def filter_empty_conv)
qed

lemma fresh_idD: "fresh_id r db \<Longrightarrow> x \<in> set (t_chains db) \<Longrightarrow> cr_ID x \<noteq> rx_ids r 0"
  unfolding fresh_id_def has_iff by (metis image_eqI)

lemma active_kept:
  assumes "admin_step sv db db'" "actives db \<noteq> []" "system_ok db"
  shows "actives db' \<noteq> []"
  using assms(1)
proof cases
  case (account_step s)
  then show ?thesis using same_chains_actives [OF exec_stmt_frame(1) [of db s]] assms(2) by simp
next
  case (history_step h)
  then show ?thesis using same_chains_actives [OF exec_history_frame(1) [of db h]] assms(2) by simp
next
  case (provider_step p)
  then show ?thesis using same_chains_actives [OF exec_provider_frame(1) [of db p]] assms(2) by simp
next
  case (create_step r body)
  have "actives d \<noteq> []" if "SaveChain now ids (c\<lparr>c_ID := rx_ids r 0, c_Active := False\<rparr>) db = (res, d)" for now ids c res d
    using fresh_idD [OF create_step(2)] by (intro exists_active_SaveChain [OF that assms(2)]) force
  then show ?thesis using create_step assms(2)
    by (auto simp: handleCreateChain_def split: sum.split prod.split)
next
  case (duplicate_step r i)
  have "actives d \<noteq> []" if "SaveChain now ids (copy_chain (rx_ids r 0) c) db = (res, d)" for now ids c res d
    using fresh_idD [OF duplicate_step(2)] by (intro exists_active_SaveChain [OF that assms(2)]) (force simp: copy_chain_def)
  then show ?thesis using duplicate_step assms(2)
    by (auto simp: handleDuplicateChain_def split: sum.split prod.split)
next
  case (update_step r i body)
  have "actives d \<noteq> []" if "GetChain i db = Inr e" "SaveChain now ids (merge_existing i e c) db = (res, d)" for now ids c e res d
  proof (rule exists_active_SaveChain [OF that(2) assms(2)])
    fix x assume "x \<in> set (t_chains db)" "cr_ID x = c_ID (merge_existing i e c)" "cr_Active x"
    then show "c_Active (merge_existing i e c)"
      using inactive_row [OF that(1)] assms(3) by (simp add: merge_existing_def system_ok_def chain_tables_ok_def)
  qed
  then show ?thesis using update_step assms(2)
    by (auto simp: handleUpdateChain_def Let_def split: sum.split prod.split)
next
  case (activate_step r i)
  have "actives d \<noteq> []" if "ActivateChain now j db = (res, d)" for now j res d
  proof (cases res)
    case None
    then have "map cr_ID (actives d) = [j]"
      using actives_ActivateChain that assms(3) by (auto simp: system_ok_def chain_tables_ok_def)
    then show ?thesis by auto
  next
    case (Some e)
    then have "d = db" using that by (auto simp: ActivateChain_def split: option.splits if_splits)
    then show ?thesis using assms(2) by simp
  qed
  then show ?thesis using activate_step assms(2)
    by (auto simp: handleActivateChain_def split: sum.split prod.split option.split)
next
  case (delete_step r i)
  show ?thesis
  proof (cases "\<exists>c. GetChain i db = Inr c \<and> \<not> c_Active c")
    case True
    then obtain c where c: "GetChain i db = Inr c" "\<not> c_Active c" by blast
    obtain res1 db1 where u: "ClearKeyChainRefs i db = (res1, db1)" by fastforce
    obtain res2 db2 where d: "DeleteChain i db1 = (res2, db2)" by fastforce
    have same: "same_chains db db1" using ClearKeyChainRefs_same_chains [of db i] u by simp
    have "t_down db1 = t_down db"
      using u by (auto simp: ClearKeyChainRefs_def Let_def run_count_def split: option.splits)
    then have "GetChain i db1 = GetChain i db" using same
      by (auto simp: GetChain_def run_row_def same_chains_def loadChainGraph_def load_nodes_def load_edges_def split: option.split)
    moreover have "chains_ok db1" "actives db1 \<noteq> []"
      using same_chains_ok [OF same] same_chains_actives [OF same] assms(2,3) same
      by (auto simp: system_ok_def chain_tables_ok_def same_chains_def chains_ok_def)
    ultimately have "actives db2 \<noteq> []" using active_kept_delete [of db1 i c] c d by simp
    then show ?thesis using delete_step c u d assms(2) \<open>actives db1 \<noteq> []\<close>
      by (auto simp: handleDeleteChain_def Let_def split: sum.split option.split)
  next
    case False
    then show ?thesis using delete_step assms(2) by (auto simp: handleDeleteChain_def split: sum.split)
  qed
qed

lemma active_kept_forever:
  assumes "(admin_step sv)\<^sup>*\<^sup>* db db'" "actives db \<noteq> []" "system_ok db" "iteration_order (sv_order sv)"
  shows "actives db' \<noteq> [] \<and> system_ok db'"
  using assms(1) by (induction rule: rtranclp_induct) (use assms active_kept system_ok_step in blast)+

text \<open>
  An edit reads the flag of the chain, validates, and writes it back: when another chain is
  activated in between, both end up active.
\<close>

lemma edit_undoes_activation:
  assumes "chains_ok db" "GetChain a db = Inr e" "c_Active e" "a \<noteq> b"
    and "ActivateChain now b db = (None, db1)"
    and "SaveChain now' ids (merge_existing a e c) db1 = (Inr saved, db2)"
  shows "{a, b} \<subseteq> cr_ID ` set (actives db2)"
proof -
  have "b \<in> set (map cr_ID (actives db1))" using actives_ActivateChain [OF assms(5,1)] by simp
  then obtain y where y: "y \<in> set (t_chains db1)" "cr_Active y" "cr_ID y = b"
    by (auto simp: actives_def)
  obtain x where x: "x \<in> set (t_chains db)" "cr_ID x = a" using GetChain_ID [OF assms(2)] by auto
  have "cr_ID ` set (t_chains db1) = cr_ID ` set (t_chains db)"
    using ActivateChain_frame [of now b db] assms(5) by auto
  then have "has cr_ID a (t_chains db1)" using x by (metis has_iff imageI)
  then show ?thesis
  proof (rule_tac SaveChain_Inr [OF assms(6)], goal_cases)
    case (1 chains ns es)
    then have ch: "chains = update_where (\<lambda>r. cr_ID r = a)
       (\<lambda>r. r\<lparr>cr_Name := c_Name saved, cr_Active := c_Active saved, cr_Mode := c_Mode saved,
             cr_Version := c_Version saved, cr_UpdatedAt := now'\<rparr>) (t_chains db1)"
      by (simp add: merge_existing_def)
    have act: "c_Active saved" "t_chains db2 = chains" using 1 assms(3) by (simp_all add: merge_existing_def)
    obtain z where z: "z \<in> set (t_chains db1)" "cr_ID z = a" using 1(1) by auto
    let ?f = "\<lambda>r. r\<lparr>cr_Name := c_Name saved, cr_Active := c_Active saved, cr_Mode := c_Mode saved,
       cr_Version := c_Version saved, cr_UpdatedAt := now'\<rparr>"
    have mem: "x \<in> set (t_chains db1) \<Longrightarrow> (if cr_ID x = a then ?f x else x) \<in> set chains" for x
      unfolding ch by (rule update_where_mem)
    have "y \<in> set chains" using mem [OF y(1)] y(3) assms(4) by simp
    moreover have "?f z \<in> set chains" using mem [OF z(1)] z(2) by simp
    then have "\<exists>w \<in> set chains. cr_ID w = a \<and> cr_Active w"
      by (rule bexI [rotated]) (simp add: z act)
    ultimately show ?case using y act(2) by (auto simp: actives_def)
  qed
qed

end
