(* ===== verification/Provider_Admin.thy ===== *)
theory Provider_Admin
  imports Registry Url_Facts Admin_System
begin

text \<open>
  Provider instances and proxies over HTTP: \<open>handlers_providers.go\<close>, \<open>handlers_proxies.go\<close>, and the checks
  of \<open>internal/providers/endpoint.go\<close>. A stored map is read as the list of its entries. The cipher, the
  nonce of an encryption and the registry are arguments.
\<close>

subsection \<open>Checks\<close>

definition ValidateBaseURL :: "string \<Rightarrow> string option" where
  "ValidateBaseURL raw =
     (let s = TrimSpace raw in
      if s = [] then None
      else (case Parse s of
              Inl e \<Rightarrow> Some (''invalid URL: '' @ e)
            | Inr u \<Rightarrow>
                if url_Scheme u \<noteq> ''http'' \<and> url_Scheme u \<noteq> ''https''
                then Some (''unsupported scheme '' @ go_quote (url_Scheme u) @ '' (only http/https)'')
                else if url_Host u = [] then Some ''URL must include a host''
                else if url_User u \<noteq> None then Some ''URL must not embed credentials''
                else None))"

definition ProxyTypeAllowed :: "string \<Rightarrow> bool" where
  "ProxyTypeAllowed scheme \<longleftrightarrow>
     ToLower (TrimSpace scheme) \<in> set [[], ''http'', ''https'', ''socks'', ''socks5'', ''socks5h'']"

definition ValidateProxyHost :: "string \<Rightarrow> string option" where
  "ValidateProxyHost raw =
     (let s = TrimSpace raw in
      if s = [] then None
      else if Contains s ''://''
      then (case Parse s of
              Inl e \<Rightarrow> Some (''invalid proxy URL: '' @ e)
            | Inr u \<Rightarrow>
                if \<not> ProxyTypeAllowed (url_Scheme u) then Some (''unsupported proxy scheme '' @ go_quote (url_Scheme u))
                else if url_Host u = [] then Some ''proxy URL must include a host''
                else None)
      else if list_ex (\<lambda>c. c \<in> {CHR '' '', CHR 0x09, CHR 0x0D, CHR 0x0A}) s then Some ''proxy host must not contain whitespace''
      else None)"

definition ValidateProxyPort :: "string \<Rightarrow> string option" where
  "ValidateProxyPort raw =
     (let s = TrimSpace raw in
      if s = [] then None
      else (case Atoi s of
              Some n \<Rightarrow> if n < 1 \<or> n > 65535 then Some ''proxy port must be a number between 1 and 65535'' else None
            | None \<Rightarrow> Some ''proxy port must be a number between 1 and 65535''))"

text \<open>The first required parameter of the driver's form that is blank.\<close>

definition blank_required :: "params \<Rightarrow> ParamField \<Rightarrow> bool" where
  "blank_required ps f \<longleftrightarrow> pf_Required f \<and> TrimSpace (param ps (pf_Key f)) = []"

definition requiredParamError :: "registry \<Rightarrow> string \<Rightarrow> params \<Rightarrow> string" where
  "requiredParamError reg code ps =
     (case Get reg code of None \<Rightarrow> []
      | Some d \<Rightarrow> (case find (blank_required ps) (sch_Params (di_Schema d)) of None \<Rightarrow> [] | Some f \<Rightarrow> pf_Key f))"

definition driverCodes :: "registry \<Rightarrow> string set" where
  "driverCodes reg = set (Codes reg)"

subsection \<open>Reading instances\<close>

definition map_entries :: "string \<Rightarrow> (string \<times> string) list" where
  "map_entries s =
     (if s = [] then []
      else (case json_parse s of
              Some (JObj ms) \<Rightarrow> keep_last (map (\<lambda>(k, v). (k, string_value v)) ms)
            | _ \<Rightarrow> []))"

text \<open>An instance with the entries of its parameters.\<close>

type_synonym entry = "Provider \<times> params"

definition provider_entry :: "Cipher \<Rightarrow> provider_row \<Rightarrow> entry" where
  "provider_entry cipher r =
     (\<lparr>p_ID = pr_ID r, p_Code = pr_Code r, p_Name = pr_Name r, p_Enabled = pr_Enabled r, p_BaseURL = pr_BaseURL r,
       p_ProxyID = pr_ProxyID r, p_Credentials = map_entries (Decrypt cipher (pr_Credentials r)),
       p_Params = map_of (map_entries (pr_Params r)), p_UpdatedAt = pr_UpdatedAt r\<rparr>, map_entries (pr_Params r))"

record providerView =
  pv_ID :: string
  pv_Code :: string
  pv_Name :: string
  pv_Enabled :: bool
  pv_BaseURL :: string
  pv_ProxyID :: string
  pv_Params :: params
  pv_CredentialsSet :: "(string \<times> bool) list"
  pv_UpdatedAt :: string

definition toProviderView :: "entry \<Rightarrow> providerView" where
  "toProviderView = (\<lambda>(p, ps).
     \<lparr>pv_ID = p_ID p, pv_Code = p_Code p, pv_Name = p_Name p, pv_Enabled = p_Enabled p, pv_BaseURL = p_BaseURL p,
      pv_ProxyID = p_ProxyID p, pv_Params = ps,
      pv_CredentialsSet = map (\<lambda>(k, v). (k, True)) (filter (\<lambda>(k, v). v \<noteq> []) (p_Credentials p)),
      pv_UpdatedAt = p_UpdatedAt p\<rparr>)"

definition handleListProviders :: "Cipher \<Rightarrow> database \<Rightarrow> providerView list reply" where
  "handleListProviders cipher db =
     (case ListProviders db of Inl e \<Rightarrow> store_failure e
      | Inr rows \<Rightarrow> Reply 200 (map (\<lambda>r. toProviderView (provider_entry cipher r)) rows))"

definition handleListDrivers :: "registry \<Rightarrow> ProviderSchema list reply" where
  "handleListDrivers reg = Reply 200 (List.map_filter (\<lambda>code. map_option di_Schema (Get reg code)) (Codes reg))"

definition provider_missing :: "'a reply" where
  "provider_missing = Failure 404 ''not_found'' ''provider not found''"

definition handleGetProvider :: "Cipher \<Rightarrow> string \<Rightarrow> database \<Rightarrow> providerView reply" where
  "handleGetProvider cipher i db =
     (case GetProvider i db of Inl _ \<Rightarrow> provider_missing | Inr r \<Rightarrow> Reply 200 (toProviderView (provider_entry cipher r)))"

subsection \<open>Writing instances\<close>

record providerPayload =
  pp_Code :: string
  pp_Name :: string
  pp_Enabled :: "bool option"
  pp_BaseURL :: "string option"
  pp_ProxyID :: "string option"
  pp_Params :: "params option"
  pp_Credentials :: "params option"

definition zero_provider_payload :: providerPayload where
  "zero_provider_payload =
     \<lparr>pp_Code = [], pp_Name = [], pp_Enabled = None, pp_BaseURL = None, pp_ProxyID = None, pp_Params = None, pp_Credentials = None\<rparr>"

definition nameTaken :: "string \<Rightarrow> string \<Rightarrow> database \<Rightarrow> bool" where
  "nameTaken name exclude db =
     (case ListProviders db of Inl _ \<Rightarrow> False
      | Inr rows \<Rightarrow> list_ex (\<lambda>r. pr_ID r \<noteq> exclude \<and> EqualFold (pr_Name r) name) rows)"

definition name_conflict :: "string \<Rightarrow> string \<Rightarrow> 'a reply" where
  "name_conflict what name = Failure 409 ''name_taken'' (what @ '' name is already in use: '' @ name)"

text \<open>The base URL and the proxy of a payload, checked: a refusal, or the instance with them set.\<close>

definition set_base_url :: "string option \<Rightarrow> Provider \<Rightarrow> 'a reply + Provider" where
  "set_base_url url p =
     (case url of None \<Rightarrow> Inr p
      | Some u \<Rightarrow> (case ValidateBaseURL u of
                     Some e \<Rightarrow> Inl (Failure 400 ''invalid_base_url'' e)
                   | None \<Rightarrow> Inr (p\<lparr>p_BaseURL := u\<rparr>)))"

definition set_proxy :: "Cipher \<Rightarrow> string option \<Rightarrow> database \<Rightarrow> Provider \<Rightarrow> 'a reply + Provider" where
  "set_proxy cipher proxy db p =
     (case proxy of None \<Rightarrow> Inr p
      | Some raw \<Rightarrow>
          (let i = TrimSpace raw in
           if i = [] then Inr (p\<lparr>p_ProxyID := i\<rparr>)
           else (case GetProxy cipher i db of
                   Inl _ \<Rightarrow> Inl (Failure 400 ''unknown_proxy'' (''unknown proxy: '' @ i))
                 | Inr _ \<Rightarrow> Inr (p\<lparr>p_ProxyID := i\<rparr>))))"

definition add_entries :: "params \<Rightarrow> params \<Rightarrow> params" where
  "add_entries new old = foldl (\<lambda>m (k, v). AList.update k v m) old new"

text \<open>Only values that are not blank replace a credential.\<close>

definition add_secrets :: "params option \<Rightarrow> params \<Rightarrow> params" where
  "add_secrets new old =
     (case new of None \<Rightarrow> old | Some kvs \<Rightarrow> add_entries (filter (\<lambda>(k, v). v \<noteq> []) kvs) old)"

text \<open>The end of both handlers: the required parameters, the statement, the audit record.\<close>

definition save_provider ::
  "registry \<Rightarrow> Cipher \<Rightarrow> string option \<Rightarrow> server \<Rightarrow> req \<Rightarrow> string \<Rightarrow> nat \<Rightarrow> entry \<Rightarrow> database \<Rightarrow> providerView reply \<times> database" where
  "save_provider reg cipher rnd sv r action status e db =
     (case e of (p, ps) \<Rightarrow>
        let key = requiredParamError reg (p_Code p) ps in
        if key \<noteq> [] then (Failure 400 ''missing_param'' (''required provider parameter is empty: '' @ key), db)
        else (case UpsertProvider (provider_row_of cipher rnd (rx_now r) p ps) db of
                (Some err, db') \<Rightarrow> (store_failure err, db')
              | (None, db') \<Rightarrow>
                  (Reply status (toProviderView e),
                   audit sv r action (p_ID p) [(''code'', p_Code p), (''name'', p_Name p)] db')))"

definition handleCreateProvider ::
  "registry \<Rightarrow> Cipher \<Rightarrow> string option \<Rightarrow> server \<Rightarrow> req \<Rightarrow> providerPayload body \<Rightarrow> database \<Rightarrow> providerView reply \<times> database" where
  "handleCreateProvider reg cipher rnd sv r body db =
     (case readJSON zero_provider_payload body of Inl bad \<Rightarrow> (bad, db)
      | Inr b \<Rightarrow>
          (let code = ToLower (TrimSpace (pp_Code b));
               name = (if TrimSpace (pp_Name b) = [] then code else TrimSpace (pp_Name b));
               ps = add_entries (case pp_Params b of None \<Rightarrow> [] | Some kvs \<Rightarrow> kvs) [];
               p0 = \<lparr>p_ID = rx_ids r 0, p_Code = code, p_Name = name,
                     p_Enabled = (case pp_Enabled b of None \<Rightarrow> True | Some e \<Rightarrow> e), p_BaseURL = [], p_ProxyID = [],
                     p_Credentials = add_secrets (pp_Credentials b) [], p_Params = map_of ps, p_UpdatedAt = []\<rparr> in
           if code = [] then (Failure 400 ''invalid_request'' ''code (driver type) is required'', db)
           else if code \<notin> driverCodes reg then (Failure 400 ''unknown_driver'' (''unknown provider driver: '' @ code), db)
           else if nameTaken name [] db then (name_conflict ''provider'' name, db)
           else (case set_base_url (pp_BaseURL b) p0 of Inl bad \<Rightarrow> (bad, db)
                 | Inr p1 \<Rightarrow>
                     (case set_proxy cipher (pp_ProxyID b) db p1 of Inl bad \<Rightarrow> (bad, db)
                      | Inr p2 \<Rightarrow> save_provider reg cipher rnd sv r ''provider.create'' 201 (p2, ps) db))))"

definition handleUpdateProvider ::
  "registry \<Rightarrow> Cipher \<Rightarrow> string option \<Rightarrow> server \<Rightarrow> req \<Rightarrow> string \<Rightarrow> providerPayload body \<Rightarrow> database \<Rightarrow> providerView reply \<times> database" where
  "handleUpdateProvider reg cipher rnd sv r i body db =
     (case GetProvider i db of Inl _ \<Rightarrow> (provider_missing, db)
      | Inr row \<Rightarrow>
          (case readJSON zero_provider_payload body of Inl bad \<Rightarrow> (bad, db)
           | Inr b \<Rightarrow>
               (let (old, ps0) = provider_entry cipher row; name = TrimSpace (pp_Name b);
                    ps = (case pp_Params b of None \<Rightarrow> ps0 | Some kvs \<Rightarrow> keep_last kvs);
                    renamed = (name \<noteq> [] \<and> name \<noteq> p_Name old);
                    p0 = old\<lparr>p_Name := (if renamed then name else p_Name old),
                             p_Enabled := (case pp_Enabled b of None \<Rightarrow> p_Enabled old | Some e \<Rightarrow> e),
                             p_Credentials := add_secrets (pp_Credentials b) (p_Credentials old), p_Params := map_of ps\<rparr> in
                if renamed \<and> nameTaken name i db then (name_conflict ''provider'' name, db)
                else (case set_base_url (pp_BaseURL b) p0 of Inl bad \<Rightarrow> (bad, db)
                      | Inr p1 \<Rightarrow>
                          (case set_proxy cipher (pp_ProxyID b) db p1 of Inl bad \<Rightarrow> (bad, db)
                           | Inr p2 \<Rightarrow> save_provider reg cipher rnd sv r ''provider.update'' 200 (p2, ps) db)))))"

text \<open>
  The patch of the switch and the base URL: the switch is written before the base URL is checked. A
  view of an instance that is gone by then is a nil dereference (\<open>None\<close>).
\<close>

record providerPatch =
  pt_BaseURL :: "string option"
  pt_Enabled :: "bool option"

definition zero_patch :: providerPatch where
  "zero_patch = \<lparr>pt_BaseURL = None, pt_Enabled = None\<rparr>"

definition patch_failure :: "store_error \<Rightarrow> 'a reply" where
  "patch_failure e = (if e = ErrNotFound then provider_missing else store_failure e)"

definition patch_enabled :: "req \<Rightarrow> string \<Rightarrow> bool option \<Rightarrow> database \<Rightarrow> 'a reply option \<times> database" where
  "patch_enabled r i enabled db =
     (case enabled of None \<Rightarrow> (None, db)
      | Some b \<Rightarrow> (case SetProviderEnabled (rx_now r) i b db of
                     (Some e, db') \<Rightarrow> (Some (patch_failure e), db') | (None, db') \<Rightarrow> (None, db')))"

definition patch_base_url :: "req \<Rightarrow> string \<Rightarrow> string option \<Rightarrow> database \<Rightarrow> 'a reply option \<times> database" where
  "patch_base_url r i url db =
     (case url of None \<Rightarrow> (None, db)
      | Some u \<Rightarrow>
          (case ValidateBaseURL u of
             Some e \<Rightarrow> (Some (Failure 400 ''invalid_base_url'' e), db)
           | None \<Rightarrow> (case UpdateProviderBaseURL (rx_now r) i u db of
                        (Some e, db') \<Rightarrow> (Some (patch_failure e), db') | (None, db') \<Rightarrow> (None, db'))))"

definition handlePatchProvider ::
  "Cipher \<Rightarrow> server \<Rightarrow> req \<Rightarrow> string \<Rightarrow> providerPatch body \<Rightarrow> database \<Rightarrow> providerView reply option \<times> database" where
  "handlePatchProvider cipher sv r i body db =
     (case readJSON zero_patch body of Inl bad \<Rightarrow> (Some bad, db)
      | Inr b \<Rightarrow>
          if pt_BaseURL b = None \<and> pt_Enabled b = None
          then (Some (Failure 400 ''invalid_request'' ''nothing to update (base_url or enabled required)''), db)
          else (case patch_enabled r i (pt_Enabled b) db of
                  (Some bad, db1) \<Rightarrow> (Some bad, db1)
                | (None, db1) \<Rightarrow>
                    (case patch_base_url r i (pt_BaseURL b) db1 of
                       (Some bad, db2) \<Rightarrow> (Some bad, db2)
                     | (None, db2) \<Rightarrow>
                         (let found = GetProvider i db2;
                              details = (case found of Inl _ \<Rightarrow> [] | Inr row \<Rightarrow> [(''name'', pr_Name row)]) in
                          (case found of Inl _ \<Rightarrow> None | Inr row \<Rightarrow> Some (Reply 200 (toProviderView (provider_entry cipher row))),
                           audit sv r ''provider.patch'' i details db2)))))"

text \<open>The chains that name an instance; a failing read counts as none.\<close>

definition chainsUsingProvider :: "string \<Rightarrow> database \<Rightarrow> string list" where
  "chainsUsingProvider i db =
     (case ListChains db of Inl _ \<Rightarrow> []
      | Inr cs \<Rightarrow> map c_Name (filter (\<lambda>c. list_ex (\<lambda>n. n_ProviderID n = i) (c_Nodes c)) cs))"

datatype provider_delete = Provider_in_use "string list" | Provider_delete_reply "unit reply"

definition handleDeleteProvider :: "server \<Rightarrow> req \<Rightarrow> string \<Rightarrow> database \<Rightarrow> provider_delete \<times> database" where
  "handleDeleteProvider sv r i db =
     (if chainsUsingProvider i db \<noteq> [] then (Provider_in_use (chainsUsingProvider i db), db)
      else (case DeleteProvider i db of
              (Some e, db') \<Rightarrow> (Provider_delete_reply (store_failure e), db')
            | (None, db') \<Rightarrow> (Provider_delete_reply (Reply 200 ()), audit sv r ''provider.delete'' i [] db')))"

subsection \<open>Proxies\<close>

record proxyView =
  xv_ID :: string
  xv_Name :: string
  xv_Enabled :: bool
  xv_Type :: string
  xv_Host :: string
  xv_Port :: string
  xv_Username :: string
  xv_PasswordSet :: bool
  xv_CreatedAt :: string
  xv_UpdatedAt :: string

definition toProxyView :: "Proxy \<Rightarrow> proxyView" where
  "toProxyView p =
     \<lparr>xv_ID = px_ID p, xv_Name = px_Name p, xv_Enabled = px_Enabled p, xv_Type = px_Type p, xv_Host = px_Host p,
      xv_Port = px_Port p, xv_Username = px_Username p, xv_PasswordSet = (px_Password p \<noteq> []),
      xv_CreatedAt = px_CreatedAt p, xv_UpdatedAt = px_UpdatedAt p\<rparr>"

definition handleListProxies :: "Cipher \<Rightarrow> database \<Rightarrow> proxyView list reply" where
  "handleListProxies cipher db =
     (case ListProxies cipher db of Inl e \<Rightarrow> store_failure e | Inr ps \<Rightarrow> Reply 200 (map toProxyView ps))"

definition proxy_missing :: "'a reply" where
  "proxy_missing = Failure 404 ''not_found'' ''proxy not found''"

definition handleGetProxy :: "Cipher \<Rightarrow> string \<Rightarrow> database \<Rightarrow> proxyView reply" where
  "handleGetProxy cipher i db =
     (case GetProxy cipher i db of Inl _ \<Rightarrow> proxy_missing | Inr p \<Rightarrow> Reply 200 (toProxyView p))"

record proxyPayload =
  yp_Name :: string
  yp_Enabled :: "bool option"
  yp_Type :: string
  yp_Host :: string
  yp_Port :: string
  yp_Username :: string
  yp_Password :: string

definition zero_proxy_payload :: proxyPayload where
  "zero_proxy_payload =
     \<lparr>yp_Name = [], yp_Enabled = None, yp_Type = [], yp_Host = [], yp_Port = [], yp_Username = [], yp_Password = []\<rparr>"

definition normalizeProxyType :: "string \<Rightarrow> string option" where
  "normalizeProxyType t =
     (let s = ToLower (TrimSpace t) in
      if s = [] \<or> s = ''http'' then Some ''http''
      else if s = ''https'' then Some ''https''
      else if s \<in> set [''socks'', ''socks5'', ''socks5h''] then Some ''socks5'' else None)"

definition proxyNameTaken :: "Cipher \<Rightarrow> string \<Rightarrow> string \<Rightarrow> database \<Rightarrow> bool" where
  "proxyNameTaken cipher name exclude db =
     (case ListProxies cipher db of Inl _ \<Rightarrow> False
      | Inr ps \<Rightarrow> list_ex (\<lambda>p. px_ID p \<noteq> exclude \<and> EqualFold (px_Name p) name) ps)"

definition save_proxy ::
  "Cipher \<Rightarrow> string option \<Rightarrow> server \<Rightarrow> req \<Rightarrow> string \<Rightarrow> nat \<Rightarrow> Proxy \<Rightarrow> database \<Rightarrow> proxyView reply \<times> database" where
  "save_proxy cipher rnd sv r action status p db =
     (case UpsertProxy cipher rnd (rx_now r) p db of
        (Some err, db') \<Rightarrow> (store_failure err, db')
      | (None, db') \<Rightarrow> (Reply status (toProxyView p), audit sv r action (px_ID p) [(''name'', px_Name p)] db'))"

definition handleCreateProxy ::
  "Cipher \<Rightarrow> string option \<Rightarrow> server \<Rightarrow> req \<Rightarrow> proxyPayload body \<Rightarrow> database \<Rightarrow> proxyView reply \<times> database" where
  "handleCreateProxy cipher rnd sv r body db =
     (case readJSON zero_proxy_payload body of Inl bad \<Rightarrow> (bad, db)
      | Inr b \<Rightarrow>
          (let name = TrimSpace (yp_Name b); host = TrimSpace (yp_Host b) in
           if name = [] then (Failure 400 ''invalid_request'' ''name is required'', db)
           else if proxyNameTaken cipher name [] db then (name_conflict ''proxy'' name, db)
           else if host = [] then (Failure 400 ''invalid_request'' ''host is required'', db)
           else (case ValidateProxyHost host of Some e \<Rightarrow> (Failure 400 ''invalid_host'' e, db)
                 | None \<Rightarrow>
                     (case ValidateProxyPort (yp_Port b) of Some e \<Rightarrow> (Failure 400 ''invalid_port'' e, db)
                      | None \<Rightarrow>
                          (case normalizeProxyType (yp_Type b) of
                             None \<Rightarrow> (Failure 400 ''invalid_request'' (''invalid proxy type: '' @ yp_Type b), db)
                           | Some t \<Rightarrow>
                               save_proxy cipher rnd sv r ''proxy.create'' 201
                                 \<lparr>px_ID = rx_ids r 0, px_Name = name,
                                  px_Enabled = (case yp_Enabled b of None \<Rightarrow> True | Some e \<Rightarrow> e), px_Type = t, px_Host = host,
                                  px_Port = TrimSpace (yp_Port b), px_Username = TrimSpace (yp_Username b),
                                  px_Password = yp_Password b, px_CreatedAt = rx_now r, px_UpdatedAt = []\<rparr> db)))))"

definition handleUpdateProxy ::
  "Cipher \<Rightarrow> string option \<Rightarrow> server \<Rightarrow> req \<Rightarrow> string \<Rightarrow> proxyPayload body \<Rightarrow> database \<Rightarrow> proxyView reply \<times> database" where
  "handleUpdateProxy cipher rnd sv r i body db =
     (case GetProxy cipher i db of Inl _ \<Rightarrow> (proxy_missing, db)
      | Inr old \<Rightarrow>
          (case readJSON zero_proxy_payload body of Inl bad \<Rightarrow> (bad, db)
           | Inr b \<Rightarrow>
               (let name = TrimSpace (yp_Name b); host = TrimSpace (yp_Host b);
                    renamed = (name \<noteq> [] \<and> name \<noteq> px_Name old);
                    host_error = (if host = [] then None else ValidateProxyHost host) in
                if renamed \<and> proxyNameTaken cipher name i db then (name_conflict ''proxy'' name, db)
                else (case host_error of Some e \<Rightarrow> (Failure 400 ''invalid_host'' e, db)
                      | None \<Rightarrow>
                          (case ValidateProxyPort (yp_Port b) of Some e \<Rightarrow> (Failure 400 ''invalid_port'' e, db)
                           | None \<Rightarrow>
                               save_proxy cipher rnd sv r ''proxy.update'' 200
                                 (old\<lparr>px_Name := (if renamed then name else px_Name old),
                                      px_Host := (if host = [] then px_Host old else host),
                                      px_Type := (case normalizeProxyType (yp_Type b) of Some t \<Rightarrow> t | None \<Rightarrow> px_Type old),
                                      px_Port := TrimSpace (yp_Port b), px_Username := TrimSpace (yp_Username b),
                                      px_Password := (if yp_Password b \<noteq> [] then yp_Password b else px_Password old),
                                      px_Enabled := (case yp_Enabled b of None \<Rightarrow> px_Enabled old | Some e \<Rightarrow> e)\<rparr>) db)))))"

definition handlePatchProxy ::
  "Cipher \<Rightarrow> server \<Rightarrow> req \<Rightarrow> string \<Rightarrow> bool option body \<Rightarrow> database \<Rightarrow> proxyView reply option \<times> database" where
  "handlePatchProxy cipher sv r i body db =
     (case readJSON None body of Inl bad \<Rightarrow> (Some bad, db)
      | Inr None \<Rightarrow> (Some (Failure 400 ''invalid_request'' ''nothing to update (enabled required)''), db)
      | Inr (Some b) \<Rightarrow>
          (case SetProxyEnabled (rx_now r) i b db of
             (Some e, db') \<Rightarrow> (Some (if e = ErrNotFound then proxy_missing else store_failure e), db')
           | (None, db') \<Rightarrow>
               (case GetProxy cipher i db' of Inl _ \<Rightarrow> None | Inr p \<Rightarrow> Some (Reply 200 (toProxyView p)),
                audit sv r ''proxy.patch'' i [] db')))"

definition providersUsingProxy :: "string \<Rightarrow> database \<Rightarrow> string list" where
  "providersUsingProxy i db =
     (case ListProviders db of Inl _ \<Rightarrow> [] | Inr rows \<Rightarrow> map pr_Name (filter (\<lambda>r. pr_ProxyID r = i) rows))"

definition handleDeleteProxy :: "Cipher \<Rightarrow> server \<Rightarrow> req \<Rightarrow> string \<Rightarrow> database \<Rightarrow> (nat \<times> string list) reply \<times> database" where
  "handleDeleteProxy cipher sv r i db =
     (case GetProxy cipher i db of Inl _ \<Rightarrow> (proxy_missing, db)
      | Inr _ \<Rightarrow>
          (case ClearProxyRefs (rx_now r) i db of
             (Inl e, db1) \<Rightarrow> (store_failure e, db1)
           | (Inr n, db1) \<Rightarrow>
               (case DeleteProxy i db1 of
                  (Some e, db2) \<Rightarrow> (store_failure e, db2)
                | (None, db2) \<Rightarrow>
                    (Reply 200 (n, providersUsingProxy i db),
                     audit sv r ''proxy.delete'' i [(''cleared'', Itoa (int n))] db2))))"

end
