(* ===== verification/Provider_Integrity.thy ===== *)
theory Provider_Integrity
  imports Provider_Admin
begin

text \<open>
  What the handlers of provider instances and proxies keep true of the database: names differ even when
  case is ignored, drivers are registered, base URLs are valid, the required parameters are filled
  in, and the proxy of an instance exists.
\<close>

subsection \<open>Stored maps\<close>

lemma foldl_put: "foldl (\<lambda>m (k, v). m(k \<mapsto> g v)) f ms = f ++ map_of (rev (map (\<lambda>(k, v). (k, g v)) ms))"
  by (induction ms arbitrary: f) (auto simp: map_add_def split: option.splits)

lemma map_of_entries: "map_of (map_entries s) = DecodeMap s"
proof (cases "json_parse s")
  case (Some v)
  then show ?thesis
    by (cases v) (simp_all add: map_entries_def DecodeMap_def keep_last_facts(2) foldl_put)
qed (simp add: map_entries_def DecodeMap_def)

lemma param_cong: "map_of a = map_of b \<Longrightarrow> param a = param b"
  by (simp add: param_def fun_eq_iff)

lemma requiredParamError_cong:
  assumes "map_of a = map_of b"
  shows "requiredParamError reg code a = requiredParamError reg code b"
proof -
  have "blank_required a = blank_required b"
    using param_cong [OF assms] by (simp add: blank_required_def fun_eq_iff)
  then show ?thesis by (simp only: requiredParamError_def)
qed

lemma map_of_stored: "distinct (map fst ps) \<Longrightarrow> map_of (map_entries (EncodeMap ps)) = map_of ps"
  by (simp add: map_of_entries DecodeMap_EncodeMap)

lemma distinct_add_entries: "distinct (map fst old) \<Longrightarrow> distinct (map fst (add_entries new old))"
  by (induction new arbitrary: old) (auto simp: add_entries_def distinct_update)

lemma distinct_entries: "distinct (map fst (map_entries s))"
proof (cases "json_parse s")
  case (Some v)
  then show ?thesis by (cases v) (simp_all add: map_entries_def keep_last_facts)
qed (simp add: map_entries_def)

subsection \<open>The invariant\<close>

definition row_ok :: "registry \<Rightarrow> Proxy list \<Rightarrow> provider_row \<Rightarrow> bool" where
  "row_ok reg proxies r \<longleftrightarrow>
     pr_ID r \<noteq> [] \<and> pr_Code r \<in> driverCodes reg \<and> ValidateBaseURL (pr_BaseURL r) = None \<and>
     requiredParamError reg (pr_Code r) (map_entries (pr_Params r)) = [] \<and>
     (pr_ProxyID r = [] \<or> has px_ID (pr_ProxyID r) proxies)"

definition instances_ok :: "registry \<Rightarrow> database \<Rightarrow> bool" where
  "instances_ok reg db \<longleftrightarrow>
     distinct (map pr_ID (t_providers db)) \<and> distinct (map (\<lambda>r. ToLower (pr_Name r)) (t_providers db)) \<and>
     distinct (map px_ID (t_proxies db)) \<and> distinct (map (\<lambda>p. ToLower (px_Name p)) (t_proxies db)) \<and>
     list_all (row_ok reg (t_proxies db)) (t_providers db) \<and> list_all (\<lambda>p. px_ID p \<noteq> []) (t_proxies db)"

lemma row_ok_more: "row_ok reg ps r \<Longrightarrow> px_ID ` set ps \<subseteq> px_ID ` set qs \<Longrightarrow> row_ok reg qs r"
  by (auto simp: row_ok_def)

lemma audit_instance_tables [simp]:
  "t_providers (audit sv r a t d db) = t_providers db" "t_proxies (audit sv r a t d db) = t_proxies db"
  using audit_frame [of sv r a t d db] by auto

lemma audit_instances [simp]: "instances_ok reg (audit sv r a t d db) = instances_ok reg db"
  by (simp add: instances_ok_def)

lemma row_okD: "instances_ok reg db \<Longrightarrow> r \<in> set (t_providers db) \<Longrightarrow> row_ok reg (t_proxies db) r"
  by (simp add: instances_ok_def list_all_iff)

subsection \<open>Statements\<close>

text \<open>What a statement may write: a new row that is fit, and whose name no other row has.\<close>

definition name_free_fold :: "provider_row \<Rightarrow> database \<Rightarrow> bool" where
  "name_free_fold r db \<longleftrightarrow> name_free pr_ID (\<lambda>r. ToLower (pr_Name r)) r (t_providers db)"

lemma Upsert_instances:
  assumes "instances_ok reg db" "row_ok reg (t_proxies db) r" "t_down db = None \<longrightarrow> name_free_fold r db"
  shows "instances_ok reg (snd (UpsertProvider r db))"
proof (cases "t_down db = None \<and> name_free pr_ID pr_Name r (t_providers db)")
  case True
  let ?t = "upsert pr_ID (\<lambda>new _. new) r (t_providers db)"
  have up: "snd (UpsertProvider r db) = db\<lparr>t_providers := ?t\<rparr>" "t_down db = None"
    using True by (simp_all add: UpsertProvider_def run_exec_def)
  have free: "name_free pr_ID (\<lambda>r. ToLower (pr_Name r)) r (t_providers db)" using assms(3) up(2) by (simp add: name_free_fold_def)
  have "distinct (map pr_ID ?t) \<and> distinct (map (\<lambda>r. ToLower (pr_Name r)) ?t)"
    using upsert_distinct [OF _ _ free, of "\<lambda>new _. new"] assms(1) by (simp add: instances_ok_def)
  moreover have "set ?t \<subseteq> insert r (set (t_providers db))" by (auto simp: upsert_def update_where_def)
  then have "list_all (row_ok reg (t_proxies db)) ?t"
    using assms(1,2) by (auto simp: instances_ok_def list_all_iff)
  ultimately show ?thesis using assms(1) by (simp add: up(1) instances_ok_def)
qed (use assms(1) in \<open>auto simp: UpsertProvider_def run_exec_def split: option.split\<close>)

lemma patch_instances:
  assumes "instances_ok reg db"
    and "\<And>r. row_ok reg (t_proxies db) r \<Longrightarrow> row_ok reg (t_proxies db) (f r) \<and> pr_ID (f r) = pr_ID r \<and> pr_Name (f r) = pr_Name r"
  shows "instances_ok reg (snd (patch_provider i f db))"
proof (cases "t_down db = None \<and> has pr_ID i (t_providers db)")
  case True
  let ?t = "update_where (\<lambda>r. pr_ID r = i) f (t_providers db)"
  have up: "snd (patch_provider i f db) = db\<lparr>t_providers := ?t\<rparr>"
    using True by (simp add: patch_provider_def)
  have each: "row_ok reg (t_proxies db) (f r) \<and> pr_ID (f r) = pr_ID r \<and> pr_Name (f r) = pr_Name r"
    if "r \<in> set (t_providers db)" for r using assms(2) row_okD [OF assms(1) that] by blast
  have "map pr_ID ?t = map pr_ID (t_providers db)"
    "map (\<lambda>r. ToLower (pr_Name r)) ?t = map (\<lambda>r. ToLower (pr_Name r)) (t_providers db)"
    using each by (auto simp: update_where_def)
  moreover have "list_all (row_ok reg (t_proxies db)) ?t"
    using each row_okD [OF assms(1)] by (auto simp: list_all_iff update_where_def)
  ultimately show ?thesis using assms(1) by (simp add: up instances_ok_def)
qed (use assms(1) in \<open>auto simp: patch_provider_def split: option.split\<close>)

lemma Delete_instances: "instances_ok reg db \<Longrightarrow> instances_ok reg (snd (DeleteProvider i db))"
  by (auto simp: DeleteProvider_def run_exec_def instances_ok_def distinct_delete_where list_all_iff split: option.split)

lemma upsert_keys:
  assumes "\<And>x. key x = key r \<Longrightarrow> key (merge r x) = key r"
  shows "key ` set (upsert key merge r t) = insert (key r) (key ` set t)"
  using assms image_update_where [of "\<lambda>x. key x = key r" key "merge r" t] by (auto simp: upsert_def)

definition proxy_name_free :: "Proxy \<Rightarrow> database \<Rightarrow> bool" where
  "proxy_name_free p db \<longleftrightarrow> name_free px_ID (\<lambda>p. ToLower (px_Name p)) p (t_proxies db)"

lemma UpsertProxy_instances:
  assumes "instances_ok reg db" "px_ID p \<noteq> []" "t_down db = None \<longrightarrow> proxy_name_free p db"
  shows "instances_ok reg (snd (UpsertProxy cipher rnd now p db))"
proof (cases "t_down db = None \<and> name_free px_ID px_Name (p\<lparr>px_Password := Encrypt cipher rnd (px_Password p), px_UpdatedAt := now\<rparr>) (t_proxies db)")
  case True
  let ?r = "p\<lparr>px_Password := Encrypt cipher rnd (px_Password p), px_UpdatedAt := now\<rparr>"
  let ?t = "upsert px_ID (\<lambda>new old. new\<lparr>px_CreatedAt := px_CreatedAt old\<rparr>) ?r (t_proxies db)"
  have up: "snd (UpsertProxy cipher rnd now p db) = db\<lparr>t_proxies := ?t\<rparr>" "t_down db = None"
    using True by (simp_all add: UpsertProxy_def run_exec_def Let_def)
  have free: "name_free px_ID (\<lambda>p. ToLower (px_Name p)) ?r (t_proxies db)"
    using assms(3) up(2) by (simp add: proxy_name_free_def name_free_def)
  have d: "distinct (map px_ID ?t) \<and> distinct (map (\<lambda>p. ToLower (px_Name p)) ?t)"
    using upsert_distinct [OF _ _ free, of "\<lambda>new old. new\<lparr>px_CreatedAt := px_CreatedAt old\<rparr>"] assms(1) by (simp add: instances_ok_def)
  have k: "px_ID ` set ?t = insert (px_ID p) (px_ID ` set (t_proxies db))"
    using upsert_keys [of px_ID ?r "\<lambda>new old. new\<lparr>px_CreatedAt := px_CreatedAt old\<rparr>" "t_proxies db"] by simp
  have s: "px_ID ` set (t_proxies db) \<subseteq> px_ID ` set ?t" using k by blast
  have e: "\<forall>q \<in> set ?t. px_ID q \<noteq> []"
  proof
    fix q assume "q \<in> set ?t"
    then have "px_ID q \<in> insert (px_ID p) (px_ID ` set (t_proxies db))" using k by blast
    then show "px_ID q \<noteq> []" using assms(1,2) by (auto simp: instances_ok_def list_all_iff)
  qed
  show ?thesis
    using assms(1) d e row_ok_more [OF _ s] by (simp add: up(1) instances_ok_def list_all_iff)
qed (use assms(1) in \<open>auto simp: UpsertProxy_def run_exec_def Let_def split: option.split\<close>)

lemma SetProxy_instances:
  assumes "instances_ok reg db"
  shows "instances_ok reg (snd (SetProxyEnabled now i b db))"
proof (cases "t_down db = None \<and> has px_ID i (t_proxies db)")
  case True
  let ?t = "update_where (\<lambda>p. px_ID p = i) (\<lambda>p. p\<lparr>px_Enabled := b, px_UpdatedAt := now\<rparr>) (t_proxies db)"
  have s: "px_ID ` set ?t = px_ID ` set (t_proxies db)" by (simp add: image_update_where)
  have "list_all (row_ok reg ?t) (t_providers db)"
    using assms row_ok_more [of reg "t_proxies db" _ ?t] by (auto simp: instances_ok_def list_all_iff s)
  moreover have "list_all (\<lambda>p. px_ID p \<noteq> []) ?t"
    using assms by (auto simp: instances_ok_def list_all_iff set_update_where)
  ultimately show ?thesis
    using assms True by (simp add: SetProxyEnabled_def instances_ok_def map_update_where)
qed (use assms in \<open>auto simp: SetProxyEnabled_def split: option.split\<close>)

text \<open>A proxy goes after no instance names it.\<close>

lemma Clear_instances: "instances_ok reg db \<Longrightarrow> instances_ok reg (snd (ClearProxyRefs now i db))"
  by (auto simp: ClearProxyRefs_def run_count_def Let_def instances_ok_def map_update_where list_all_iff set_update_where row_ok_def
      split: option.split)

lemma Clear_unused: "ClearProxyRefs now i db = (Inr n, db') \<Longrightarrow> i \<noteq> [] \<Longrightarrow> \<forall>r \<in> set (t_providers db'). pr_ProxyID r \<noteq> i"
  by (auto simp: ClearProxyRefs_def run_count_def Let_def set_update_where split: option.splits)

lemma DeleteProxy_instances:
  assumes "instances_ok reg db" "\<forall>r \<in> set (t_providers db). pr_ProxyID r \<noteq> i"
  shows "instances_ok reg (snd (DeleteProxy i db))"
  using assms
  by (auto simp: DeleteProxy_def run_exec_def instances_ok_def distinct_delete_where list_all_iff row_ok_def split: option.split)

end
