(* ===== verification/Provider_Safety.thy ===== *)
theory Provider_Safety
  imports Provider_Integrity
begin

text \<open>
  The handlers of provider instances and proxies as one machine over the database: every sequence of
  requests keeps \<open>instances_ok\<close>. What a caller learns of a stored secret is whether it is there.
\<close>

subsection \<open>Every handler keeps the tables fit\<close>

lemma nameTaken_free:
  assumes "instances_ok reg db" "\<not> nameTaken name exclude db" "exclude = [] \<or> exclude = pr_ID r" "pr_Name r = name"
  shows "t_down db = None \<longrightarrow> name_free_fold r db"
proof
  assume "t_down db = None"
  then have "\<forall>x \<in> set (t_providers db). pr_ID x \<noteq> exclude \<longrightarrow> ToLower (pr_Name x) \<noteq> ToLower name"
    using assms(2) by (auto simp: nameTaken_def ListProviders_def run_query_def list_ex_iff EqualFold_def)
  moreover have "\<forall>x \<in> set (t_providers db). pr_ID x \<noteq> []"
    using assms(1) by (auto simp: instances_ok_def list_all_iff row_ok_def)
  ultimately show "name_free_fold r db"
    using assms(3,4) by (auto simp: name_free_fold_def name_free_def list_ex_iff)
qed

lemma same_name_free:
  assumes "instances_ok reg db" "old \<in> set (t_providers db)" "pr_ID r = pr_ID old" "pr_Name r = pr_Name old"
  shows "name_free_fold r db"
proof -
  have "inj_on (\<lambda>r. ToLower (pr_Name r)) (set (t_providers db))"
    using assms(1) by (simp add: instances_ok_def distinct_map)
  then show ?thesis
    using assms(2-4) by (auto simp: name_free_fold_def name_free_def list_ex_iff inj_on_def)
qed

lemma save_provider_keeps:
  assumes "instances_ok reg db" "distinct (map fst ps)" "p_ID p \<noteq> []" "p_Code p \<in> driverCodes reg"
    and "ValidateBaseURL (p_BaseURL p) = None" "p_ProxyID p = [] \<or> has px_ID (p_ProxyID p) (t_proxies db)"
    and free: "t_down db = None \<longrightarrow> name_free_fold (provider_row_of cipher rnd (rx_now r) p ps) db"
  shows "instances_ok reg (snd (save_provider reg cipher rnd sv r action status (p, ps) db))"
proof (cases "requiredParamError reg (p_Code p) ps = []")
  case True
  let ?row = "provider_row_of cipher rnd (rx_now r) p ps"
  have "row_ok reg (t_proxies db) ?row"
    using assms(3-6) True requiredParamError_cong [OF map_of_stored [OF assms(2)], of reg "p_Code p"]
    by (simp add: row_ok_def provider_row_of_def)
  then have "instances_ok reg (snd (UpsertProvider ?row db))" by (rule Upsert_instances [OF assms(1) _ free])
  moreover obtain res db' where up: "UpsertProvider ?row db = (res, db')" by fastforce
  ultimately have "instances_ok reg db'" by simp
  then show ?thesis
    unfolding save_provider_def Let_def prod.case using True up by (cases res) simp_all
qed (simp add: save_provider_def assms(1))

lemma set_base_url_fields:
  assumes "set_base_url url p = Inr p'" "ValidateBaseURL (p_BaseURL p) = None"
  shows "ValidateBaseURL (p_BaseURL p') = None \<and> p_ID p' = p_ID p \<and> p_Code p' = p_Code p \<and> p_Name p' = p_Name p \<and> p_ProxyID p' = p_ProxyID p"
  using assms by (auto simp: set_base_url_def split: option.splits)

lemma GetProxy_has:
  assumes "GetProxy cipher i db = Inr x"
  shows "has px_ID i (t_proxies db)"
proof -
  obtain y where "run_row (\<lambda>p. px_ID p = i) (t_proxies db) db = Inr y"
    using assms by (cases "run_row (\<lambda>p. px_ID p = i) (t_proxies db) db") (simp_all add: GetProxy_def)
  from run_row_Inr [OF this] show ?thesis by auto
qed

lemma set_proxy_fields:
  assumes "set_proxy cipher proxy db p = Inr p'" "p_ProxyID p = [] \<or> has px_ID (p_ProxyID p) (t_proxies db)"
  shows "(p_ProxyID p' = [] \<or> has px_ID (p_ProxyID p') (t_proxies db)) \<and> p_ID p' = p_ID p \<and> p_Code p' = p_Code p
    \<and> p_Name p' = p_Name p \<and> p_BaseURL p' = p_BaseURL p"
proof (cases proxy)
  case (Some raw)
  then show ?thesis
    using assms GetProxy_has [of cipher "TrimSpace raw" db]
    by (cases "TrimSpace raw = []"; cases "GetProxy cipher (TrimSpace raw) db") (auto simp: set_proxy_def)
qed (use assms in \<open>simp add: set_proxy_def\<close>)

lemma blank_url: "ValidateBaseURL [] = None"
  by (simp add: ValidateBaseURL_def TrimSpace_def)

lemma create_provider_keeps:
  assumes "instances_ok reg db" "rx_ids r 0 \<noteq> []"
  shows "instances_ok reg (snd (handleCreateProvider reg cipher rnd sv r body db))"
proof (cases "readJSON zero_provider_payload body :: providerView reply + providerPayload")
  case (Inr b)
  let ?code = "ToLower (TrimSpace (pp_Code b))"
  let ?name = "if TrimSpace (pp_Name b) = [] then ?code else TrimSpace (pp_Name b)"
  let ?ps = "add_entries (case pp_Params b of None \<Rightarrow> [] | Some kvs \<Rightarrow> kvs) []"
  let ?p0 = "\<lparr>p_ID = rx_ids r 0, p_Code = ?code, p_Name = ?name,
      p_Enabled = (case pp_Enabled b of None \<Rightarrow> True | Some e \<Rightarrow> e), p_BaseURL = [], p_ProxyID = [],
      p_Credentials = add_secrets (pp_Credentials b) [], p_Params = map_of ?ps, p_UpdatedAt = []\<rparr>"
  show ?thesis
  proof (cases "?code = [] \<or> ?code \<notin> driverCodes reg \<or> nameTaken ?name [] db")
    case False
    show ?thesis
    proof (cases "set_base_url (pp_BaseURL b) ?p0 :: providerView reply + Provider")
      case base: (Inr p1)
      show ?thesis
      proof (cases "set_proxy cipher (pp_ProxyID b) db p1 :: providerView reply + Provider")
        case proxy: (Inr p2)
        have 1: "ValidateBaseURL (p_BaseURL p1) = None" "p_ID p1 = rx_ids r 0" "p_Code p1 = ?code" "p_Name p1 = ?name" "p_ProxyID p1 = []"
          using set_base_url_fields [OF base] blank_url by simp_all
        have 2: "p_ProxyID p2 = [] \<or> has px_ID (p_ProxyID p2) (t_proxies db)" "p_ID p2 = rx_ids r 0" "p_Code p2 = ?code"
            "p_Name p2 = ?name" "p_BaseURL p2 = p_BaseURL p1"
          using set_proxy_fields [OF proxy] 1 by simp_all
        have "instances_ok reg (snd (save_provider reg cipher rnd sv r ''provider.create'' 201 (p2, ?ps) db))"
          using False assms 1 2
          by (intro save_provider_keeps nameTaken_free [where name = ?name and exclude = "[]"])
            (auto simp: distinct_add_entries provider_row_of_def)
        then show ?thesis using Inr False base proxy unfolding handleCreateProvider_def Let_def by simp
      qed (use Inr False base assms(1) in \<open>simp add: handleCreateProvider_def Let_def\<close>)
    qed (use Inr False assms(1) in \<open>simp add: handleCreateProvider_def Let_def\<close>)
  qed (use Inr assms(1) in \<open>auto simp: handleCreateProvider_def Let_def\<close>)
qed (simp add: handleCreateProvider_def assms(1))

lemma update_provider_keeps:
  assumes "instances_ok reg db"
  shows "instances_ok reg (snd (handleUpdateProvider reg cipher rnd sv r i body db))"
proof (cases "GetProvider i db")
  case row: (Inr row)
  then have row_in: "row \<in> set (t_providers db)" "pr_ID row = i" by (auto simp: GetProvider_def dest: run_row_Inr)
  have ok: "row_ok reg (t_proxies db) row" by (rule row_okD [OF assms row_in(1)])
  show ?thesis
  proof (cases "readJSON zero_provider_payload body :: providerView reply + providerPayload")
    case (Inr b)
    define old where "old = fst (provider_entry cipher row)"
    define ps where "ps = (case pp_Params b of None \<Rightarrow> map_entries (pr_Params row) | Some kvs \<Rightarrow> keep_last kvs)"
    define name where "name = TrimSpace (pp_Name b)"
    define renamed where "renamed = (name \<noteq> [] \<and> name \<noteq> p_Name old)"
    define p0 where "p0 = old\<lparr>p_Name := (if renamed then name else p_Name old),
        p_Enabled := (case pp_Enabled b of None \<Rightarrow> p_Enabled old | Some e \<Rightarrow> e),
        p_Credentials := add_secrets (pp_Credentials b) (p_Credentials old), p_Params := map_of ps\<rparr>"
    have e: "provider_entry cipher row = (old, map_entries (pr_Params row))"
      by (simp add: old_def provider_entry_def)
    have fields: "p_ID p0 = i" "p_Code p0 = pr_Code row" "p_BaseURL p0 = pr_BaseURL row" "p_ProxyID p0 = pr_ProxyID row"
        "p_Name p0 = (if renamed then name else pr_Name row)"
      using row_in(2) by (simp_all add: p0_def old_def provider_entry_def)
    have d: "distinct (map fst ps)" by (simp add: ps_def distinct_entries keep_last_facts split: option.split)
    have handler: "handleUpdateProvider reg cipher rnd sv r i body db =
        (if renamed \<and> nameTaken name i db then (name_conflict ''provider'' name, db)
         else (case set_base_url (pp_BaseURL b) p0 of Inl bad \<Rightarrow> (bad, db)
               | Inr p1 \<Rightarrow>
                   (case set_proxy cipher (pp_ProxyID b) db p1 of Inl bad \<Rightarrow> (bad, db)
                    | Inr p2 \<Rightarrow> save_provider reg cipher rnd sv r ''provider.update'' 200 (p2, ps) db)))"
      unfolding handleUpdateProvider_def row Inr sum.case e prod.case Let_def name_def [symmetric] renamed_def [symmetric]
        ps_def [symmetric] p0_def [symmetric] ..
    show ?thesis
    proof (cases "renamed \<and> nameTaken name i db")
      case False
      show ?thesis
      proof (cases "set_base_url (pp_BaseURL b) p0 :: providerView reply + Provider")
        case base: (Inr p1)
        show ?thesis
        proof (cases "set_proxy cipher (pp_ProxyID b) db p1 :: providerView reply + Provider")
          case proxy: (Inr p2)
          let ?row = "provider_row_of cipher rnd (rx_now r) p2 ps"
          have 1: "ValidateBaseURL (p_BaseURL p1) = None" "p_ID p1 = i" "p_Code p1 = pr_Code row" "p_Name p1 = p_Name p0"
              "p_ProxyID p1 = pr_ProxyID row"
            using set_base_url_fields [OF base] ok by (simp_all add: fields row_ok_def)
          have 2: "p_ProxyID p2 = [] \<or> has px_ID (p_ProxyID p2) (t_proxies db)" "p_ID p2 = i" "p_Code p2 = pr_Code row"
              "p_Name p2 = p_Name p0" "p_BaseURL p2 = p_BaseURL p1"
            using set_proxy_fields [OF proxy] 1 ok by (simp_all add: row_ok_def)
          have free: "t_down db = None \<longrightarrow> name_free_fold ?row db"
          proof (cases renamed)
            case True
            then show ?thesis
              using False 2 fields(5)
              by (intro nameTaken_free [OF assms, where name = name and exclude = i]) (auto simp: provider_row_of_def)
          next
            case False
            then show ?thesis
              using same_name_free [OF assms row_in(1), of ?row] 2 fields(5) row_in(2) by (simp add: provider_row_of_def)
          qed
          have "instances_ok reg (snd (save_provider reg cipher rnd sv r ''provider.update'' 200 (p2, ps) db))"
            using save_provider_keeps [OF assms d _ _ _ _ free] 1 2 ok row_in(2) by (simp add: row_ok_def)
          then show ?thesis using False base proxy assms by (simp add: handler)
        qed (use False base assms in \<open>simp add: handler\<close>)
      qed (use False assms in \<open>simp add: handler\<close>)
    qed (use assms in \<open>simp add: handler\<close>)
  qed (simp add: handleUpdateProvider_def row assms)
qed (simp add: handleUpdateProvider_def assms)

lemma SetEnabled_instances: "instances_ok reg db \<Longrightarrow> instances_ok reg (snd (SetProviderEnabled now i b db))"
  unfolding SetProviderEnabled_def by (rule patch_instances) (auto simp: row_ok_def)

lemma UpdateURL_instances:
  "instances_ok reg db \<Longrightarrow> ValidateBaseURL u = None \<Longrightarrow> instances_ok reg (snd (UpdateProviderBaseURL now i u db))"
  unfolding UpdateProviderBaseURL_def by (rule patch_instances) (auto simp: row_ok_def)

lemma patch_steps_keep:
  assumes "instances_ok reg db"
  shows "instances_ok reg (snd (patch_enabled r i enabled db))" "instances_ok reg (snd (patch_base_url r i url db))"
proof -
  show "instances_ok reg (snd (patch_enabled r i enabled db))"
  proof (cases enabled)
    case (Some b)
    then show ?thesis
      using SetEnabled_instances [OF assms, of "rx_now r" i b]
      by (cases "SetProviderEnabled (rx_now r) i b db"; cases "fst (SetProviderEnabled (rx_now r) i b db)")
        (simp_all add: patch_enabled_def)
  qed (simp add: patch_enabled_def assms)
  show "instances_ok reg (snd (patch_base_url r i url db))"
  proof (cases url)
    case (Some u)
    show ?thesis
    proof (cases "ValidateBaseURL u")
      case None
      then show ?thesis
        using UpdateURL_instances [OF assms, of u "rx_now r" i] Some
        by (cases "UpdateProviderBaseURL (rx_now r) i u db"; cases "fst (UpdateProviderBaseURL (rx_now r) i u db)")
          (simp_all add: patch_base_url_def)
    qed (simp add: patch_base_url_def Some assms)
  qed (simp add: patch_base_url_def assms)
qed

lemma patch_provider_keeps:
  assumes "instances_ok reg db"
  shows "instances_ok reg (snd (handlePatchProvider cipher sv r i body db))"
proof (cases "readJSON zero_patch body :: providerView reply + providerPatch")
  case (Inr b)
  obtain x db1 where 1: "patch_enabled r i (pt_Enabled b) db = (x :: providerView reply option, db1)" by fastforce
  obtain y db2 where 2: "patch_base_url r i (pt_BaseURL b) db1 = (y :: providerView reply option, db2)" by fastforce
  have k1: "instances_ok reg db1" using patch_steps_keep(1) [OF assms, of r i "pt_Enabled b"] 1 by (metis snd_conv)
  have k2: "instances_ok reg db2" using patch_steps_keep(2) [OF k1, of r i "pt_BaseURL b"] 2 by (metis snd_conv)
  show ?thesis
    using Inr 1 2 assms k1 k2 by (cases x; cases y) (simp_all add: handlePatchProvider_def Let_def)
qed (simp add: handlePatchProvider_def assms)

lemma delete_provider_keeps:
  assumes "instances_ok reg db"
  shows "instances_ok reg (snd (handleDeleteProvider sv r i db))"
proof -
  obtain e db' where d: "DeleteProvider i db = (e, db')" by fastforce
  then have "instances_ok reg db'" using Delete_instances [OF assms, of i] by simp
  then show ?thesis using d assms by (cases e) (simp_all add: handleDeleteProvider_def)
qed

subsection \<open>Proxies\<close>

lemma proxyNameTaken_free:
  assumes "instances_ok reg db" "\<not> proxyNameTaken cipher name exclude db" "exclude = [] \<or> exclude = px_ID p" "px_Name p = name"
  shows "t_down db = None \<longrightarrow> proxy_name_free p db"
proof
  assume "t_down db = None"
  then have "\<forall>x \<in> set (t_proxies db). px_ID x \<noteq> exclude \<longrightarrow> ToLower (px_Name x) \<noteq> ToLower name"
    using assms(2) by (auto simp: proxyNameTaken_def ListProxies_def scanProxy_def run_query_def list_ex_iff EqualFold_def)
  moreover have "\<forall>x \<in> set (t_proxies db). px_ID x \<noteq> []"
    using assms(1) by (simp add: instances_ok_def list_all_iff)
  ultimately show "proxy_name_free p db"
    using assms(3,4) by (auto simp: proxy_name_free_def name_free_def list_ex_iff)
qed

lemma same_proxy_name_free:
  assumes "instances_ok reg db" "old \<in> set (t_proxies db)" "px_ID p = px_ID old" "px_Name p = px_Name old"
  shows "proxy_name_free p db"
proof -
  have "inj_on (\<lambda>p. ToLower (px_Name p)) (set (t_proxies db))"
    using assms(1) by (simp add: instances_ok_def distinct_map)
  then show ?thesis
    using assms(2-4) by (auto simp: proxy_name_free_def name_free_def list_ex_iff inj_on_def)
qed

lemma save_proxy_keeps:
  assumes "instances_ok reg db" "px_ID p \<noteq> []" "t_down db = None \<longrightarrow> proxy_name_free p db"
  shows "instances_ok reg (snd (save_proxy cipher rnd sv r action status p db))"
proof -
  obtain e db' where u: "UpsertProxy cipher rnd (rx_now r) p db = (e, db')" by fastforce
  then have "instances_ok reg db'" using UpsertProxy_instances [OF assms, of cipher rnd "rx_now r"] by simp
  then show ?thesis using u by (cases e) (simp_all add: save_proxy_def)
qed

lemma create_proxy_keeps:
  assumes "instances_ok reg db" "rx_ids r 0 \<noteq> []"
  shows "instances_ok reg (snd (handleCreateProxy cipher rnd sv r body db))"
proof (cases "readJSON zero_proxy_payload body :: proxyView reply + proxyPayload")
  case (Inr b)
  let ?name = "TrimSpace (yp_Name b)"
  have keep: "instances_ok reg (snd (save_proxy cipher rnd sv r a st p db))"
    if "\<not> proxyNameTaken cipher ?name [] db" "px_ID p = rx_ids r 0" "px_Name p = ?name" for a st p
    using that assms by (intro save_proxy_keeps proxyNameTaken_free [where name = ?name and exclude = "[]"]) auto
  show ?thesis
    using assms(1) keep
    by (auto simp: handleCreateProxy_def Inr Let_def split: option.split)
qed (simp add: handleCreateProxy_def assms)

lemma map_sum_InrE: "map_sum f g x = Inr y \<Longrightarrow> (\<And>z. x = Inr z \<Longrightarrow> y = g z \<Longrightarrow> P) \<Longrightarrow> P"
  by (cases x) auto

lemma update_proxy_keeps:
  assumes "instances_ok reg db"
  shows "instances_ok reg (snd (handleUpdateProxy cipher rnd sv r i body db))"
proof (cases "GetProxy cipher i db")
  case old: (Inr old)
  then obtain row where row: "row \<in> set (t_proxies db)" "px_ID row = i" "px_Name old = px_Name row" "px_ID old = i"
    by (auto simp: GetProxy_def scanProxy_def elim!: map_sum_InrE dest!: run_row_Inr)
  have i: "i \<noteq> []" using row assms by (auto simp: instances_ok_def list_all_iff)
  show ?thesis
  proof (cases "readJSON zero_proxy_payload body :: proxyView reply + proxyPayload")
    case (Inr b)
    define renamed where "renamed = (TrimSpace (yp_Name b) \<noteq> [] \<and> TrimSpace (yp_Name b) \<noteq> px_Name old)"
    have keep: "instances_ok reg (snd (save_proxy cipher rnd sv r a st p db))"
      if "\<not> (renamed \<and> proxyNameTaken cipher (TrimSpace (yp_Name b)) i db)" "px_ID p = i"
        "px_Name p = (if renamed then TrimSpace (yp_Name b) else px_Name old)" for a st p
    proof (cases renamed)
      case True
      then show ?thesis
        using that assms i
        by (intro save_proxy_keeps proxyNameTaken_free [where name = "TrimSpace (yp_Name b)" and exclude = i]) auto
    next
      case False
      then show ?thesis
        using that assms i row same_proxy_name_free [OF assms row(1), of p] by (intro save_proxy_keeps) auto
    qed
    define host where "host = TrimSpace (yp_Host b)"
    define host_error where "host_error = (if host = [] then None else ValidateProxyHost host)"
    define new where "new = old\<lparr>px_Name := (if renamed then TrimSpace (yp_Name b) else px_Name old),
        px_Host := (if host = [] then px_Host old else host),
        px_Type := (case normalizeProxyType (yp_Type b) of Some t \<Rightarrow> t | None \<Rightarrow> px_Type old),
        px_Port := TrimSpace (yp_Port b), px_Username := TrimSpace (yp_Username b),
        px_Password := (if yp_Password b \<noteq> [] then yp_Password b else px_Password old),
        px_Enabled := (case yp_Enabled b of None \<Rightarrow> px_Enabled old | Some e \<Rightarrow> e)\<rparr>"
    have handler: "handleUpdateProxy cipher rnd sv r i body db =
        (if renamed \<and> proxyNameTaken cipher (TrimSpace (yp_Name b)) i db then (name_conflict ''proxy'' (TrimSpace (yp_Name b)), db)
         else (case host_error of Some e \<Rightarrow> (Failure 400 ''invalid_host'' e, db)
               | None \<Rightarrow>
                   (case ValidateProxyPort (yp_Port b) of Some e \<Rightarrow> (Failure 400 ''invalid_port'' e, db)
                    | None \<Rightarrow> save_proxy cipher rnd sv r ''proxy.update'' 200 new db)))"
      unfolding handleUpdateProxy_def old Inr sum.case Let_def host_def [symmetric] renamed_def [symmetric]
        host_error_def [symmetric] new_def [symmetric] ..
    have "px_ID new = i" "px_Name new = (if renamed then TrimSpace (yp_Name b) else px_Name old)"
      using row(4) by (simp_all add: new_def)
    note save = keep [OF _ this]
    show ?thesis
      using assms save by (cases host_error; cases "ValidateProxyPort (yp_Port b)") (simp_all add: handler)
  qed (simp add: handleUpdateProxy_def old assms)
qed (simp add: handleUpdateProxy_def assms)

lemma patch_proxy_keeps:
  assumes "instances_ok reg db"
  shows "instances_ok reg (snd (handlePatchProxy cipher sv r i body db))"
proof (cases "readJSON None body :: proxyView reply + bool option")
  case (Inr x)
  show ?thesis
  proof (cases x)
    case (Some b)
    obtain e db' where s: "SetProxyEnabled (rx_now r) i b db = (e, db')" by fastforce
    then have "instances_ok reg db'" using SetProxy_instances [OF assms, of "rx_now r" i b] by simp
    then show ?thesis using Inr Some s by (cases e) (simp_all add: handlePatchProxy_def)
  qed (simp add: handlePatchProxy_def Inr assms)
qed (simp add: handlePatchProxy_def assms)

lemma delete_proxy_keeps:
  assumes "instances_ok reg db"
  shows "instances_ok reg (snd (handleDeleteProxy cipher sv r i db))"
proof (cases "GetProxy cipher i db")
  case (Inr p)
  then have i: "i \<noteq> []" using GetProxy_has [OF Inr] assms by (auto simp: instances_ok_def list_all_iff)
  obtain n db1 where c: "ClearProxyRefs (rx_now r) i db = (n, db1)" by fastforce
  then have 1: "instances_ok reg db1" using Clear_instances [OF assms, of "rx_now r" i] by simp
  show ?thesis
  proof (cases n)
    case n: (Inr k)
    obtain e db2 where d: "DeleteProxy i db1 = (e, db2)" by fastforce
    have "instances_ok reg db2" using DeleteProxy_instances [OF 1 Clear_unused [OF c [unfolded n] i]] d by (metis snd_conv)
    then show ?thesis using Inr c n d by (cases e) (simp_all add: handleDeleteProxy_def)
  qed (use Inr c 1 in \<open>simp add: handleDeleteProxy_def\<close>)
qed (simp add: handleDeleteProxy_def assms)

subsection \<open>The machine\<close>

datatype provider_op =
  Create_provider "string option" req "providerPayload body"
| Update_provider "string option" req string "providerPayload body"
| Patch_provider req string "providerPatch body"
| Delete_provider_op req string
| Create_proxy "string option" req "proxyPayload body"
| Update_proxy "string option" req string "proxyPayload body"
| Patch_proxy req string "bool option body"
| Delete_proxy_op req string

fun run_op :: "registry \<Rightarrow> Cipher \<Rightarrow> server \<Rightarrow> provider_op \<Rightarrow> database \<Rightarrow> database" where
  "run_op reg cipher sv (Create_provider rnd r body) db = snd (handleCreateProvider reg cipher rnd sv r body db)"
| "run_op reg cipher sv (Update_provider rnd r i body) db = snd (handleUpdateProvider reg cipher rnd sv r i body db)"
| "run_op reg cipher sv (Patch_provider r i body) db = snd (handlePatchProvider cipher sv r i body db)"
| "run_op reg cipher sv (Delete_provider_op r i) db = snd (handleDeleteProvider sv r i db)"
| "run_op reg cipher sv (Create_proxy rnd r body) db = snd (handleCreateProxy cipher rnd sv r body db)"
| "run_op reg cipher sv (Update_proxy rnd r i body) db = snd (handleUpdateProxy cipher rnd sv r i body db)"
| "run_op reg cipher sv (Patch_proxy r i body) db = snd (handlePatchProxy cipher sv r i body db)"
| "run_op reg cipher sv (Delete_proxy_op r i) db = snd (handleDeleteProxy cipher sv r i db)"

text \<open>The identifier drawn for a new row is not empty.\<close>

fun draws_id :: "provider_op \<Rightarrow> bool" where
  "draws_id (Create_provider rnd r body) = (rx_ids r 0 \<noteq> [])"
| "draws_id (Create_proxy rnd r body) = (rx_ids r 0 \<noteq> [])"
| "draws_id _ = True"

lemma run_op_keeps: "instances_ok reg db \<Longrightarrow> draws_id x \<Longrightarrow> instances_ok reg (run_op reg cipher sv x db)"
  by (cases x) (simp_all add: create_provider_keeps update_provider_keeps patch_provider_keeps delete_provider_keeps create_proxy_keeps update_proxy_keeps
      patch_proxy_keeps delete_proxy_keeps)

lemma run_ops_keep:
  "instances_ok reg db \<Longrightarrow> list_all draws_id ops \<Longrightarrow> instances_ok reg (fold (run_op reg cipher sv) ops db)"
  by (induction ops arbitrary: db) (simp_all add: run_op_keeps)

lemma instances_ok_empty: "instances_ok reg empty_db"
  by (simp add: instances_ok_def empty_db_def)

end
