(* ===== verification/Driver_Examples.thy ===== *)
theory Driver_Examples
  imports Driver_Facts Url_Facts
begin

text \<open>The data of the witnesses about the provider drivers: one answer to every request.\<close>

definition demo_client :: HTTPClient where
  "demo_client = NewHTTPClient []"

definition answering :: "int \<Rightarrow> string \<Rightarrow> driver_env" where
  "answering status body =
     \<lparr>de_client = demo_client,
      de_answer = (\<lambda>sent r. Answer \<lparr>resp_Code = status, resp_Status = [], resp_Header = [], resp_Body = body\<rparr>),
      de_wait = (\<lambda>sent code rps. None), de_now = (\<lambda>sent. 0), de_digest = (\<lambda>s. s), de_rsa = (\<lambda>key. Inl [])\<rparr>"

definition idle_world :: world where
  "idle_world = \<lparr>w_sent = [], w_tokens = []\<rparr>"

definition demo_query :: Query where
  "demo_query = \<lparr>q_Text = ''go'', q_Count = 30, q_Lang = [], q_Country = [], q_Extra = []\<rparr>"

definition demo_params :: params where
  "demo_params = [(''units'', ''metric''), (''offset'', ''2'')]"

lemma brave_listed: "spec_brave \<in> set restSpecs"
  by (simp add: restSpecs_def)

lemma itoa_20: "Itoa 20 = ''20''"
  by code_simp

lemma brave_fields: "request_fields spec_brave demo_query demo_params =
    [(''q'', ''go''), (''count'', ''20''), (''units'', ''metric''), (''offset'', ''2'')]"
  by (simp add: request_fields_def query_fields_def sent_params_def spec_brave_def blank_spec_def demo_query_def demo_params_def
      isInternalParam_def capped_def itoa_20)

lemma brave_address: "base_of demo_params (sp_baseURL spec_brave) @ request_path spec_brave demo_params =
    ''https://api.search.brave.com/res/v1/web/search''"
  by code_simp

lemma brave_clean: "\<exists>u. clean_address ''https://api.search.brave.com/res/v1/web/search'' u"
  unfolding clean_address_def by (rule exI, rule conjI, code_simp) code_simp

definition demo_answer :: string where
  "demo_answer = marshal (JObj [(''web'', JObj [(''results'', JArr [JObj [(''url'', JStr ''https://go.dev'')]])])])"

lemma demo_answer_object:
  "parseJSONObject demo_answer = Some [(''web'', JObj [(''results'', JArr [JObj [(''url'', JStr ''https://go.dev'')]])])]"
  by code_simp

lemma brave_built: "\<exists>req. buildRequest spec_brave env demo_query c demo_params w = (Inr req, w)"
proof -
  obtain u where u: "clean_address ''https://api.search.brave.com/res/v1/web/search'' u" using brave_clean by blast
  then obtain req where "defaultBuild spec_brave demo_query c demo_params = Inr req"
    using request_decodes [of demo_params spec_brave u demo_query c] brave_fields by (auto simp: brave_address)
  then show ?thesis by (simp add: buildRequest_def spec_brave_def blank_spec_def)
qed

lemma no_rate: "maxRPSParam demo_params (Finite 0) = Finite 0"
  by (simp add: maxRPSParam_def demo_params_def param_def)

text \<open>The search of the example, whatever is answered.\<close>

lemma brave_search:
  "\<exists>w'. Search spec_brave (answering status body) demo_query c demo_params w =
     (classify (answering status body) spec_brave demo_params 0
        \<lparr>resp_Code = status, resp_Status = [], resp_Header = [], resp_Body = body\<rparr>, w')"
proof -
  obtain req where "buildRequest spec_brave (answering status body) demo_query c demo_params w = (Inr req, w)"
    using brave_built by blast
  moreover have "WaitLimit (answering status body) (sp_code spec_brave) (maxRPSParam demo_params (sp_maxRPS spec_brave)) w = None"
    by (simp add: WaitLimit_def answering_def)
  ultimately show ?thesis
    by (simp add: Search_def Do_def send_def answering_def)
qed

lemma brave_refused:
  "\<exists>r. classify (answering 403 []) spec_brave demo_params 0
        \<lparr>resp_Code = 403, resp_Status = [], resp_Header = [], resp_Body = []\<rparr> = Some r \<and> r_Permanent r"
  by (simp add: classify_def throttle_def backoff_of_def ReadBody_def MaxResponseBytes_def IsJSONStatus_def http_failure_def
      case_prod_unfold spec_brave_def blank_spec_def HTTPClassify_def fatalHTTP_def retryHTTP_def parseIntCSV_def Let_def
      commonFatal_def commonRetry_def demo_params_def param_def parseCSV_def zero_result_def)

lemma brave_rows:
  "extractRows spec_brave [(''web'', JObj [(''results'', JArr [JObj [(''url'', JStr ''https://go.dev'')]])])] demo_params =
     Some [mk_row ''https://go.dev'' [] []]"
  by code_simp

lemma brave_found:
  "\<exists>r. classify (answering 200 demo_answer) spec_brave demo_params 0
        \<lparr>resp_Code = 200, resp_Status = [], resp_Header = [], resp_Body = demo_answer\<rparr> = Some r
      \<and> r_OK r \<and> r_Rows r = [mk_row ''https://go.dev'' [] []]"
proof -
  have l: "ReadBody \<lparr>resp_Code = 200, resp_Status = [], resp_Header = [], resp_Body = demo_answer\<rparr> = (demo_answer, False)"
    by code_simp
  have e: "sp_throttleKey spec_brave = []" "sp_isEmpty spec_brave = None" by (simp_all add: spec_brave_def blank_spec_def)
  show ?thesis
    by (simp add: classify_def throttle_def backoff_of_def l e IsJSONStatus_def demo_answer_object brave_rows success_def zero_result_def)
qed

end
