(* ===== verification/Rate_Limiter.thy ===== *)
theory Rate_Limiter
  imports Prelude
begin

text \<open>
  \<open>internal/auth/ratelimit.go\<close>: the in-memory limiter of events per key. The limit and the
  window are arguments of every call; expired entries are swept once per window. Its
  specification counts the admitted events of the key in the trailing window; the two agree
  on every sequence of calls in time order with one limit and one window.
\<close>

subsection \<open>The limiter\<close>

record rateLimiter =
  rl_hits :: "string \<rightharpoonup> time list"
  rl_limit :: int
  rl_window :: int
  rl_lastSweep :: time

definition NewRateLimiter :: "int \<Rightarrow> int \<Rightarrow> time \<Rightarrow> rateLimiter" where
  "NewRateLimiter limit window now =
     \<lparr>rl_hits = Map.empty, rl_limit = limit, rl_window = window, rl_lastSweep = now\<rparr>"

definition minute_ns :: int where
  "minute_ns = 60 * 10 ^ 9"

definition kept :: "time \<Rightarrow> time list \<Rightarrow> time list" where
  "kept cutoff ts = filter (\<lambda>t. cutoff < t) ts"

definition hits_of :: "rateLimiter \<Rightarrow> string \<Rightarrow> time list" where
  "hits_of l key = (case rl_hits l key of None \<Rightarrow> [] | Some ts \<Rightarrow> ts)"

definition rl_sweep :: "time \<Rightarrow> rateLimiter \<Rightarrow> rateLimiter" where
  "rl_sweep cutoff l = l\<lparr>rl_hits := (\<lambda>k. case rl_hits l k of None \<Rightarrow> None
     | Some ts \<Rightarrow> if kept cutoff ts = [] then None else Some (kept cutoff ts))\<rparr>"

definition AllowLimit :: "string \<Rightarrow> int \<Rightarrow> int \<Rightarrow> time \<Rightarrow> rateLimiter \<Rightarrow> bool \<times> rateLimiter" where
  "AllowLimit key limit window0 now l =
     (if limit \<le> 0 then (True, l)
      else
        (let window = (if window0 \<le> 0 then minute_ns else window0);
             cutoff = now - window;
             l1 = (if now - rl_lastSweep l \<ge> window then (rl_sweep cutoff l)\<lparr>rl_lastSweep := now\<rparr> else l);
             ks = kept cutoff (hits_of l1 key)
         in if int (length ks) \<ge> limit then (False, l1\<lparr>rl_hits := (rl_hits l1)(key \<mapsto> ks)\<rparr>)
            else (True, l1\<lparr>rl_hits := (rl_hits l1)(key \<mapsto> ks @ [now])\<rparr>)))"

definition Allow :: "string \<Rightarrow> time \<Rightarrow> rateLimiter \<Rightarrow> bool \<times> rateLimiter" where
  "Allow key now l = AllowLimit key (rl_limit l) (rl_window l) now l"

text \<open>A sequence of calls.\<close>

fun allow_all :: "int \<Rightarrow> int \<Rightarrow> (string \<times> time) list \<Rightarrow> rateLimiter \<Rightarrow> bool list \<times> rateLimiter" where
  "allow_all limit window [] l = ([], l)"
| "allow_all limit window ((key, now) # cs) l =
     (let (ok, l1) = AllowLimit key limit window now l; (oks, l2) = allow_all limit window cs l1
      in (ok # oks, l2))"

subsection \<open>The specification: admitted events in the trailing window\<close>

type_synonym admissions = "(string \<times> time) list"

definition recent :: "admissions \<Rightarrow> string \<Rightarrow> time \<Rightarrow> time list" where
  "recent adm key cutoff = map snd (filter (\<lambda>(k, t). k = key \<and> cutoff < t) adm)"

definition may_enter :: "int \<Rightarrow> int \<Rightarrow> admissions \<Rightarrow> string \<Rightarrow> time \<Rightarrow> bool" where
  "may_enter limit window adm key now \<longleftrightarrow> int (length (recent adm key (now - window))) < limit"

fun admit_all :: "int \<Rightarrow> int \<Rightarrow> (string \<times> time) list \<Rightarrow> admissions \<Rightarrow> bool list \<times> admissions" where
  "admit_all limit window [] adm = ([], adm)"
| "admit_all limit window ((key, now) # cs) adm =
     (let ok = may_enter limit window adm key now;
          (oks, adm') = admit_all limit window cs (if ok then adm @ [(key, now)] else adm)
      in (ok # oks, adm'))"

subsection \<open>The limiter implements it\<close>

text \<open>What the limiter stores, and what was admitted, look alike through every later window.\<close>

definition represents :: "int \<Rightarrow> time \<Rightarrow> rateLimiter \<Rightarrow> admissions \<Rightarrow> bool" where
  "represents window now l adm \<longleftrightarrow> (\<forall>k c. now - window \<le> c \<longrightarrow> kept c (hits_of l k) = recent adm k c)"

lemma kept_kept: "c \<le> d \<Longrightarrow> kept d (kept c ts) = kept d ts"
  by (auto simp: kept_def intro!: filter_cong)

lemma hits_of_sweep [simp]: "hits_of (rl_sweep c l) k = kept c (hits_of l k)"
  by (simp add: hits_of_def rl_sweep_def kept_def split: option.split)

lemma hits_of_lastSweep [simp]: "hits_of (l\<lparr>rl_lastSweep := t\<rparr>) k = hits_of l k"
  by (simp add: hits_of_def)

lemma hits_of_update [simp]: "hits_of (l\<lparr>rl_hits := (rl_hits l)(key \<mapsto> ts)\<rparr>) k = (if k = key then ts else hits_of l k)"
  by (simp add: hits_of_def)

lemma recent_snoc: "recent (adm @ [(key, now)]) k c = recent adm k c @ (if k = key \<and> c < now then [now] else [])"
  by (simp add: recent_def)

lemma kept_snoc: "kept c (ts @ [t]) = kept c ts @ (if c < t then [t] else [])"
  by (simp add: kept_def)

lemma represents_later: "represents w now l adm \<Longrightarrow> now \<le> now' \<Longrightarrow> represents w now' l adm"
  by (simp add: represents_def)

lemma AllowLimit_represents:
  assumes "0 < limit" "0 < w" "represents w now l adm"
  shows "fst (AllowLimit key limit w now l) \<longleftrightarrow> may_enter limit w adm key now"
    and "represents w now (snd (AllowLimit key limit w now l))
           (if may_enter limit w adm key now then adm @ [(key, now)] else adm)"
proof -
  define l1 where "l1 = (if now - rl_lastSweep l \<ge> w then (rl_sweep (now - w) l)\<lparr>rl_lastSweep := now\<rparr> else l)"
  define ks where "ks = kept (now - w) (hits_of l1 key)"
  have r1: "represents w now l1 adm"
    unfolding represents_def
  proof (intro allI impI)
    fix k c
    assume c: "now - w \<le> c"
    then have "kept c (hits_of l k) = recent adm k c" using assms(3) by (simp add: represents_def)
    then show "kept c (hits_of l1 k) = recent adm k c" by (simp add: l1_def kept_kept [OF c])
  qed
  then have ks: "ks = recent adm key (now - w)" by (simp add: ks_def represents_def)
  have run: "AllowLimit key limit w now l = (if int (length ks) \<ge> limit
      then (False, l1\<lparr>rl_hits := (rl_hits l1)(key \<mapsto> ks)\<rparr>)
      else (True, l1\<lparr>rl_hits := (rl_hits l1)(key \<mapsto> ks @ [now])\<rparr>))"
    using assms(1,2) by (simp add: AllowLimit_def Let_def l1_def [symmetric] ks_def [symmetric])
  show "fst (AllowLimit key limit w now l) \<longleftrightarrow> may_enter limit w adm key now"
    by (auto simp: run may_enter_def ks)
  have "kept c ks = recent adm key c" if c: "now - w \<le> c" for c
  proof -
    have "kept c (hits_of l1 key) = recent adm key c" using r1 c by (simp add: represents_def)
    then show ?thesis by (simp add: ks_def kept_kept [OF c])
  qed
  with r1 show "represents w now (snd (AllowLimit key limit w now l))
      (if may_enter limit w adm key now then adm @ [(key, now)] else adm)"
    by (auto simp: run may_enter_def ks [symmetric] represents_def recent_snoc kept_snoc)
qed

lemma allow_all_spec:
  assumes "0 < limit" "0 < w" "sorted (map snd cs)" "\<forall>c \<in> set cs. now \<le> snd c" "represents w now l adm"
  shows "fst (allow_all limit w cs l) = fst (admit_all limit w cs adm)"
  using assms(3-)
proof (induction cs arbitrary: now l adm)
  case (Cons c cs)
  obtain key t where c: "c = (key, t)" by fastforce
  let ?adm = "if may_enter limit w adm key t then adm @ [(key, t)] else adm"
  from Cons.prems c have r: "represents w t l adm" by (auto intro: represents_later)
  have "fst (allow_all limit w cs (snd (AllowLimit key limit w t l))) = fst (admit_all limit w cs ?adm)"
    using Cons.prems c by (intro Cons.IH [of t] AllowLimit_represents(2) [OF assms(1,2) r]) auto
  then show ?case
    using AllowLimit_represents(1) [OF assms(1,2) r, of key] by (simp add: c split_beta Let_def)
qed simp

lemma represents_new: "represents w now (NewRateLimiter limit window t) []"
  by (simp add: represents_def NewRateLimiter_def hits_of_def kept_def recent_def)

subsection \<open>The bound on every window\<close>

definition in_window :: "admissions \<Rightarrow> string \<Rightarrow> time \<Rightarrow> int \<Rightarrow> nat" where
  "in_window adm key a w = length (filter (\<lambda>(k, t). k = key \<and> a < t \<and> t \<le> a + w) adm)"

lemma length_filter_imp: "(\<And>x. x \<in> set xs \<Longrightarrow> P x \<Longrightarrow> Q x) \<Longrightarrow> length (filter P xs) \<le> length (filter Q xs)"
proof (induction xs)
  case (Cons x xs)
  then have "length (filter P xs) \<le> length (filter Q xs)" by simp
  with Cons.prems [of x] show ?case by auto
qed simp

lemma in_window_snoc:
  assumes "may_enter limit w adm key now" "\<forall>x \<in> set adm. snd x \<le> now" "\<And>k a. int (in_window adm k a w) \<le> limit"
  shows "int (in_window (adm @ [(key, now)]) k a w) \<le> limit"
proof (cases "k = key \<and> a < now \<and> now \<le> a + w")
  case True
  then have "filter (\<lambda>(k', t). k' = k \<and> a < t \<and> t \<le> a + w) adm = filter (\<lambda>(k', t). k' = key \<and> a < t) adm"
    using assms(2) by (intro filter_cong) force+
  moreover have "length (filter (\<lambda>(k', t). k' = key \<and> a < t) adm) \<le> length (filter (\<lambda>(k', t). k' = key \<and> now - w < t) adm)"
    using True assms(2) by (intro length_filter_imp) auto
  ultimately show ?thesis
    using assms(1) True by (simp add: in_window_def may_enter_def recent_def)
qed (use assms(3) [of k a] in \<open>auto simp: in_window_def\<close>)

lemma admit_all_bound:
  assumes "sorted (map snd cs)" "\<forall>x \<in> set adm. \<forall>c \<in> set cs. snd x \<le> snd c"
    and "\<And>k a. int (in_window adm k a w) \<le> limit"
  shows "int (in_window (snd (admit_all limit w cs adm)) k a w) \<le> limit"
  using assms
proof (induction cs arbitrary: adm)
  case (Cons c cs)
  obtain key t where c: "c = (key, t)" by fastforce
  let ?adm = "if may_enter limit w adm key t then adm @ [(key, t)] else adm"
  have "int (in_window (snd (admit_all limit w cs ?adm)) k a w) \<le> limit"
  proof (rule Cons.IH)
    show "sorted (map snd cs)" using Cons.prems(1) by simp
    show "\<forall>x \<in> set ?adm. \<forall>c \<in> set cs. snd x \<le> snd c" using Cons.prems(1,2) c by auto
    show "int (in_window ?adm k a w) \<le> limit" for k a
      using Cons.prems(2,3) c in_window_snoc [of limit w adm key t k a] by auto
  qed
  then show ?case by (simp add: c split_beta Let_def)
qed simp

text \<open>
  With a shorter window on another key the sweep drops entries that still count: the third
  call of \<open>a\<close> within its window of ten seconds is let in at a limit of two.
\<close>

lemma sweep_of_shorter_window:
  "let l0 = NewRateLimiter 2 10 0; l1 = snd (AllowLimit ''a'' 2 10 1 l0); l2 = snd (AllowLimit ''a'' 2 10 2 l1);
       l3 = snd (AllowLimit ''b'' 2 1 4 l2)
   in fst (AllowLimit ''a'' 2 10 5 l3) \<and> \<not> fst (AllowLimit ''a'' 2 10 5 l2)"
  by code_simp

end
