(* ===== verification/Quotas.thy ===== *)
theory Quotas
  imports Http_Core Rate_Limiter Metrics
begin

text \<open>
  Quotas of users (\<open>internal/httpd/quotas.go\<close>) and the guard of the search endpoints
  (\<open>guard.go\<close>). The clock readings of a request are a record, in the order the code takes them.
  The offset of a quota is at most 840 minutes (\<open>validateQuota\<close>), so the products of durations do
  not overflow. Seconds of a duration are its integer part: the float of \<open>Duration.Seconds\<close> does
  not round up to the next second below \<open>2 ^ 22\<close> seconds, and a period has at most 31 days.
\<close>

subsection \<open>The calendar of a quota\<close>

abbreviation QuotaPeriodDaily :: string where "QuotaPeriodDaily \<equiv> ''daily''"
abbreviation QuotaPeriodWeekly :: string where "QuotaPeriodWeekly \<equiv> ''weekly''"
abbreviation QuotaPeriodMonthly :: string where "QuotaPeriodMonthly \<equiv> ''monthly''"
abbreviation QuotaPeriodRolling :: string where "QuotaPeriodRolling \<equiv> ''rolling''"

definition ns_per_hour :: int where "ns_per_hour = 3600 * 1000000000"

text \<open>\<open>Date(y, m, d, 0, 0, 0, 0)\<close> and \<open>AddDate\<close> on a midnight.\<close>

definition date_at :: "int \<Rightarrow> int \<Rightarrow> int \<Rightarrow> time" where
  "date_at y m d = time_of_day (days_of_date y m d)"

definition AddDate :: "int \<Rightarrow> int \<Rightarrow> int \<Rightarrow> time \<Rightarrow> time" where
  "AddDate y m d t =
     (let c = civil_of t in date_at (cv_year c + y) (cv_month c + m) (cv_day c + d) + t mod ns_per_day)"

definition shifted :: "UserQuota \<Rightarrow> time \<Rightarrow> time" where
  "shifted q now = now + uq_TzOffset q * ns_per_min"

definition midnight :: "time \<Rightarrow> time" where
  "midnight t = (let c = civil_of t in date_at (cv_year c) (cv_month c) (cv_day c))"

definition period_start :: "UserQuota \<Rightarrow> time \<Rightarrow> time" where
  "period_start q now =
     (let s = shifted q now; c = civil_of s in
      if uq_Period q = QuotaPeriodWeekly then
        (let back = (weekday s + 6) mod 7 in AddDate 0 0 (- back) (midnight s))
      else if uq_Period q = QuotaPeriodMonthly then date_at (cv_year c) (cv_month c) 1
      else midnight s)"

definition quotaPeriodKey :: "UserQuota \<Rightarrow> time \<Rightarrow> string" where
  "quotaPeriodKey q now = format_date (period_start q now) @ ''#'' @ uq_Period q"

definition quotaResetAt :: "UserQuota \<Rightarrow> time \<Rightarrow> time option" where
  "quotaResetAt q now =
     (let s = shifted q now; c = civil_of s; tz = uq_TzOffset q * ns_per_min in
      if uq_Period q = QuotaPeriodWeekly then
        (let f = (7 - (weekday s + 6) mod 7) mod 7; forward = (if f = 0 then 7 else f)
         in Some (AddDate 0 0 forward (midnight s) - tz))
      else if uq_Period q = QuotaPeriodMonthly then
        Some (AddDate 0 1 0 (date_at (cv_year c) (cv_month c) 1) - tz)
      else if uq_Period q = QuotaPeriodRolling then None
      else Some (AddDate 0 0 1 (midnight s) - tz))"

definition quotaWindowDuration :: "UserQuota \<Rightarrow> int" where
  "quotaWindowDuration q =
     (let h = (if uq_WindowHours q \<le> 0 then 24 else uq_WindowHours q);
          h = (if 720 < h then 720 else h)
      in h * ns_per_hour)"

subsection \<open>Days of a period\<close>

lemma day_of_midnight [simp]: "day_of (time_of_day d) = d" "time_of_day d mod ns_per_day = 0"
  by (simp_all add: day_of_def time_of_day_def ns_defs)

lemma civil_eqI:
  assumes "civil_ok c" "days_of_date (cv_year c) (cv_month c) (cv_day c) = n"
  shows "civil_of_days n = c"
proof -
  have "\<not> civil_less (civil_of_days n) c" "\<not> civil_less c (civil_of_days n)"
    using civil_less_days [of "civil_of_days n" c] civil_less_days [of c "civil_of_days n"] assms
      civil_of_days_spec [of n] by auto
  then show ?thesis unfolding civil_less_def by (cases c; cases "civil_of_days n") auto
qed

lemma midnight_day: "midnight t = time_of_day (day_of t)"
  using days_of_civil_of_days [of "day_of t"] by (simp add: midnight_def Let_def date_at_def civil_of_def)

lemma AddDate_days: "AddDate 0 0 k (time_of_day d) = time_of_day (d + k)"
proof -
  have "days_of_date y m (e + k) = days_of_date y m e + k" for y m e by (simp add: days_of_date_def Let_def)
  then show ?thesis
    using days_of_civil_of_days [of d] by (simp add: AddDate_def Let_def date_at_def civil_of_def)
qed

definition first_of_month :: "int \<Rightarrow> int" where
  "first_of_month d = (let c = civil_of_days d in days_of_date (cv_year c) (cv_month c) 1)"

definition next_month :: "int \<Rightarrow> int" where
  "next_month d = (let c = civil_of_days d in days_of_date (cv_year c) (cv_month c + 1) 1)"

lemma month_step:
  assumes "1 \<le> m" "m \<le> 12"
  shows "days_of_date y (m + 1) 1 = days_of_date y m 1 + days_in_month y m"
proof -
  have "m = 12 \<or> m = 1 \<or> m = 2 \<or> m = 3 \<or> m = 4 \<or> m = 5 \<or> m = 6 \<or> m = 7 \<or> m = 8 \<or> m = 9 \<or> m = 10 \<or> m = 11"
    using assms by presburger
  then show ?thesis
    using year_length [of y]
    by (elim disjE) (simp_all add: days_of_date_def Let_def days_before_month_def days_in_month_def month_lengths_def)
qed

lemma month_span:
  shows "first_of_month d \<le> d" "d < next_month d"
    and "first_of_month d \<le> d' \<Longrightarrow> d' < next_month d \<Longrightarrow>
      cv_year (civil_of_days d') = cv_year (civil_of_days d) \<and> cv_month (civil_of_days d') = cv_month (civil_of_days d)"
proof -
  let ?c = "civil_of_days d"
  have ok: "1 \<le> cv_month ?c" "cv_month ?c \<le> 12" "1 \<le> cv_day ?c" "cv_day ?c \<le> days_in_month (cv_year ?c) (cv_month ?c)"
    using civil_of_days_ok [of d] by (simp_all add: civil_ok_def)
  have day: "days_of_date (cv_year ?c) (cv_month ?c) e = first_of_month d + (e - 1)" for e
    by (simp add: first_of_month_def Let_def days_of_date_def)
  have n: "next_month d = first_of_month d + days_in_month (cv_year ?c) (cv_month ?c)"
    using month_step [OF ok(1,2)] by (simp add: next_month_def first_of_month_def Let_def)
  have d: "d = first_of_month d + (cv_day ?c - 1)" using day [of "cv_day ?c"] days_of_civil_of_days [of d] by simp
  show "first_of_month d \<le> d" "d < next_month d" using d ok n by linarith+
  assume a: "first_of_month d \<le> d'" "d' < next_month d"
  let ?e = "\<lparr>cv_year = cv_year ?c, cv_month = cv_month ?c, cv_day = d' - first_of_month d + 1\<rparr>"
  have "civil_of_days d' = ?e"
    by (rule civil_eqI) (use a n ok day in \<open>simp_all add: civil_ok_def\<close>)
  then show "cv_year (civil_of_days d') = cv_year ?c \<and> cv_month (civil_of_days d') = cv_month ?c" by simp
qed

lemma first_of_next_month: "first_of_month (next_month d) = next_month d"
proof -
  let ?c = "civil_of_days d"
  have "1 \<le> cv_month ?c" "cv_month ?c \<le> 12" using civil_of_days_ok [of d] by (simp_all add: civil_ok_def)
  let ?y = "cv_year ?c + cv_month ?c div 12" and ?m = "cv_month ?c mod 12 + 1"
  have n: "next_month d = days_of_date ?y ?m 1"
    by (simp add: next_month_def Let_def days_of_date_def mod_pos_pos_trivial div_pos_pos_trivial)
  have "0 \<le> cv_month ?c mod 12" "cv_month ?c mod 12 < 12" by simp_all
  then have "1 \<le> days_in_month ?y ?m"
    using month_lengths_nonneg by (auto simp: days_in_month_def month_lengths_def nth_Cons' )
  then have "civil_of_days (next_month d) = \<lparr>cv_year = ?y, cv_month = ?m, cv_day = 1\<rparr>"
    by (intro civil_eqI) (simp_all add: civil_ok_def n)
  then show ?thesis unfolding first_of_month_def Let_def n by simp
qed

text \<open>The first day of the period of a day, and of the next period.\<close>

definition start_day :: "UserQuota \<Rightarrow> int \<Rightarrow> int" where
  "start_day q d =
     (if uq_Period q = QuotaPeriodWeekly then d - (d + 3) mod 7
      else if uq_Period q = QuotaPeriodMonthly then first_of_month d else d)"

definition end_day :: "UserQuota \<Rightarrow> int \<Rightarrow> int" where
  "end_day q d =
     (if uq_Period q = QuotaPeriodWeekly then d - (d + 3) mod 7 + 7
      else if uq_Period q = QuotaPeriodMonthly then next_month d else d + 1)"

lemma weekday_back: "(weekday t + 6) mod 7 = (day_of t + 3) mod 7"
  unfolding weekday_def by presburger

lemma period_start_day: "period_start q now = time_of_day (start_day q (day_of (shifted q now)))"
  by (simp add: period_start_def start_day_def Let_def weekday_back midnight_day AddDate_days
      first_of_month_def date_at_def civil_of_def)

lemma reset_end_day:
  assumes "uq_Period q \<noteq> QuotaPeriodRolling"
  shows "quotaResetAt q now = Some (time_of_day (end_day q (day_of (shifted q now))) - uq_TzOffset q * ns_per_min)"
proof -
  have f: "(let f = (7 - b) mod 7 in if f = 0 then 7 else f) = 7 - b" if "0 \<le> b" "b < 7" for b :: int
    using that unfolding Let_def by presburger
  have m: "AddDate 0 1 0 (date_at (cv_year c) (cv_month c) 1) = time_of_day (next_month d)"
    if "c = civil_of_days d" for c d
  proof -
    let ?f = "first_of_month d"
    have "civil_of_days ?f = \<lparr>cv_year = cv_year c, cv_month = cv_month c, cv_day = 1\<rparr>"
      using civil_of_days_ok [of d] unfolding that
      by (intro civil_eqI) (auto simp: civil_ok_def first_of_month_def Let_def)
    then show ?thesis
      unfolding that AddDate_def Let_def date_at_def civil_of_def next_month_def
      by (simp add: first_of_month_def Let_def)
  qed
  have "0 \<le> (day_of (shifted q now) + 3) mod 7" "(day_of (shifted q now) + 3) mod 7 < 7" by simp_all
  from f [OF this] m [of "civil_of (shifted q now)" "day_of (shifted q now)"] assms show ?thesis
    by (simp add: quotaResetAt_def end_day_def Let_def weekday_back midnight_day AddDate_days civil_of_def
        diff_diff_eq2 add_diff_eq diff_add_eq del: AddDate_def)
qed

lemma end_day_cases:
  shows "start_day q d \<le> d" "d < end_day q d" "start_day q (end_day q d) = end_day q d"
    and "start_day q d \<le> d' \<Longrightarrow> d' < end_day q d \<Longrightarrow> start_day q d' = start_day q d \<and> end_day q d' = end_day q d"
proof -
  show "start_day q d \<le> d" using month_span [of d] by (simp add: start_day_def)
  show "d < end_day q d" using month_span [of d] pos_mod_bound [of 7 "d + 3"] by (simp add: end_day_def)
  have "(d - (d + 3) mod 7 + 7 + 3) mod 7 = 0" by presburger
  then show "start_day q (end_day q d) = end_day q d"
    by (simp add: start_day_def end_day_def first_of_next_month)
  assume a: "start_day q d \<le> d'" "d' < end_day q d"
  have w: "d' - (d' + 3) mod 7 = d - (d + 3) mod 7" if "d - (d + 3) mod 7 \<le> d'" "d' < d - (d + 3) mod 7 + 7"
  proof -
    have "e - (e + 3) mod 7 = 7 * ((e + 3) div 7) - 3" for e :: int
      using div_mult_mod_eq [of "e + 3" 7] by linarith
    moreover from this have "(d' + 3) div 7 = (d + 3) div 7"
      using that by (intro int_div_pos_eq [of _ _ _ "d' + 3 - 7 * ((d + 3) div 7)"]) simp_all
    ultimately show ?thesis by simp
  qed
  show "start_day q d' = start_day q d \<and> end_day q d' = end_day q d"
  proof (cases "uq_Period q = QuotaPeriodMonthly")
    case True
    then have "cv_year (civil_of_days d') = cv_year (civil_of_days d) \<and> cv_month (civil_of_days d') = cv_month (civil_of_days d)"
      using a month_span(3) [of d d'] by (simp add: start_day_def end_day_def)
    then show ?thesis using True by (simp add: start_day_def end_day_def first_of_month_def next_month_def Let_def)
  next
    case False
    then show ?thesis using a w by (auto simp: start_day_def end_day_def split: if_splits)
  qed
qed

text \<open>
  A calendar period: the counter's key is constant from now until the reset, which lies ahead,
  and is another one from the reset on.
\<close>

lemma quotaResetAt_not_rolling: "quotaResetAt q now = Some r \<Longrightarrow> uq_Period q \<noteq> QuotaPeriodRolling"
  by (auto simp: quotaResetAt_def Let_def)

lemma day_of_less_iff: "day_of t < d \<longleftrightarrow> t < time_of_day d"
  using div_mult_mod_eq [of t ns_per_day] pos_mod_bound [of ns_per_day t] pos_mod_sign [of ns_per_day t]
  unfolding day_of_def time_of_day_def by (intro iffI) (simp_all add: ns_defs)

lemma day_of_mono: "t \<le> t' \<Longrightarrow> day_of t \<le> day_of t'"
  unfolding day_of_def ns_defs by (simp add: zdiv_mono1)

lemma quota_period:
  assumes "quotaResetAt q now = Some reset"
  shows "now < reset"
    and "now \<le> t \<Longrightarrow> t < reset \<Longrightarrow> quotaPeriodKey q t = quotaPeriodKey q now \<and> quotaResetAt q t = Some reset"
    and "printable (period_start q now) \<Longrightarrow> printable (period_start q reset) \<Longrightarrow>
      quotaPeriodKey q reset \<noteq> quotaPeriodKey q now"
proof -
  let ?d = "\<lambda>t. day_of (shifted q t)"
  note nr = quotaResetAt_not_rolling [OF assms]
  have r: "reset = time_of_day (end_day q (?d now)) - uq_TzOffset q * ns_per_min"
    using assms unfolding reset_end_day [OF nr] by simp
  then have before: "t < reset \<longleftrightarrow> ?d t < end_day q (?d now)" for t
    unfolding day_of_less_iff shifted_def by linarith
  show "now < reset" unfolding before by (rule end_day_cases(2))
  have at: "?d reset = end_day q (?d now)" unfolding shifted_def r by simp
  show "quotaPeriodKey q t = quotaPeriodKey q now \<and> quotaResetAt q t = Some reset" if "now \<le> t" "t < reset"
  proof -
    have "?d now \<le> ?d t" using that(1) by (intro day_of_mono) (simp add: shifted_def)
    then have "start_day q (?d t) = start_day q (?d now) \<and> end_day q (?d t) = end_day q (?d now)"
      using end_day_cases(1) [where q = q and d = "?d now"] that(2) unfolding before by (intro end_day_cases(4)) simp_all
    then show ?thesis
      by (simp add: quotaPeriodKey_def period_start_day reset_end_day [OF nr] r)
  qed
  show "quotaPeriodKey q reset \<noteq> quotaPeriodKey q now"
    if "printable (period_start q now)" "printable (period_start q reset)"
  proof -
    have "start_day q (?d reset) \<noteq> start_day q (?d now)"
      using end_day_cases(1,2,3) [where q = q and d = "?d now"] unfolding at by (metis linorder_not_less)
    then have "format_date (period_start q reset) \<noteq> format_date (period_start q now)"
      unfolding format_date_inject [OF that(2,1)] unfolding period_start_day day_of_midnight .
    then show ?thesis by (simp add: quotaPeriodKey_def)
  qed
qed

text \<open>The keys of the global daily quota are dates alone: they are never the key of a period.\<close>

lemma period_key_not_date: "quotaPeriodKey q t \<noteq> format_date t'"
proof -
  have "length (format_date u) = 10" for u by (simp add: format_date_def Let_def)
  then show ?thesis unfolding quotaPeriodKey_def by (metis append_eq_append_conv append_Nil2 append_is_Nil_conv list.distinct(1))
qed

subsection \<open>The cache of quota rows\<close>

record quotaCacheEntry =
  ce_quota :: "UserQuota option"
  ce_fetched :: time

type_synonym quotaCache = "string \<rightharpoonup> quotaCacheEntry"

definition quotaCacheTTL :: int where
  "quotaCacheTTL = 5 * ns_per_sec"

definition newQuotaCache :: quotaCache where
  "newQuotaCache = Map.empty"

definition quota_put :: "string \<Rightarrow> UserQuota option \<Rightarrow> time \<Rightarrow> quotaCache \<Rightarrow> quotaCache" where
  "quota_put userID q now c = c(userID \<mapsto> \<lparr>ce_quota = q, ce_fetched = now\<rparr>)"

definition quota_invalidate :: "string \<Rightarrow> quotaCache \<Rightarrow> quotaCache" where
  "quota_invalidate userID c = c(userID := None)"

definition quota_get :: "string \<Rightarrow> time \<Rightarrow> time \<Rightarrow> database \<Rightarrow> quotaCache \<Rightarrow> UserQuota option \<times> quotaCache" where
  "quota_get userID now put_now db c =
     (if userID = [] then (None, c)
      else
        (let fresh = (case c userID of None \<Rightarrow> None
                      | Some e \<Rightarrow> if now - ce_fetched e < quotaCacheTTL then Some (ce_quota e) else None)
         in case fresh of Some q \<Rightarrow> (q, c)
          | None \<Rightarrow>
              (case GetUserQuota userID db of
                 Inl e \<Rightarrow> (None, if e = ErrNotFound then quota_put userID None put_now c else c)
               | Inr q \<Rightarrow> if uq_Requests q \<le> 0 then (None, quota_put userID None put_now c)
                          else (Some q, quota_put userID (Some q) put_now c))))"

text \<open>The quota in force for a user: the stored row when it limits anything.\<close>

definition quota_in_force :: "database \<Rightarrow> string \<Rightarrow> UserQuota option" where
  "quota_in_force db userID =
     (case GetUserQuota userID db of Inr q \<Rightarrow> if uq_Requests q \<le> 0 then None else Some q | Inl _ \<Rightarrow> None)"

definition cache_coherent :: "database \<Rightarrow> quotaCache \<Rightarrow> bool" where
  "cache_coherent db c \<longleftrightarrow> (\<forall>u e. c u = Some e \<longrightarrow> ce_quota e = quota_in_force db u)"

lemma quota_get_coherent:
  assumes "cache_coherent db c" "quota_get u now put_now db c = (q, c')"
  shows "cache_coherent db c' \<and> (u \<noteq> [] \<longrightarrow> q = quota_in_force db u)"
proof -
  have put: "cache_coherent db (quota_put u (quota_in_force db u) put_now c)"
    using assms(1) by (simp add: cache_coherent_def quota_put_def)
  have hit: "ce_quota e = quota_in_force db u" if "c u = Some e" for e
    using assms(1) that by (simp add: cache_coherent_def)
  show ?thesis
    using assms put hit
    by (cases "GetUserQuota u db"; cases "c u")
      (auto simp: quota_get_def Let_def quota_in_force_def split: if_splits)
qed

text \<open>An entry is never served once it is five seconds old.\<close>

lemma quota_get_refetches:
  assumes "c u = Some e" "quotaCacheTTL \<le> now - ce_fetched e" "u \<noteq> []"
  shows "fst (quota_get u now put_now db c) = quota_in_force db u"
  using assms by (auto simp: quota_get_def Let_def quota_in_force_def split: if_splits option.splits sum.splits)

lemma quota_get_invalidated:
  "u \<noteq> [] \<Longrightarrow> fst (quota_get u now put_now db (quota_invalidate u c)) = quota_in_force db u"
  by (auto simp: quota_get_def Let_def quota_in_force_def quota_invalidate_def split: if_splits option.splits sum.splits)

subsection \<open>Usage of a quota\<close>

definition quotaUsage :: "string \<Rightarrow> UserQuota \<Rightarrow> time \<Rightarrow> database \<Rightarrow> store_error + int" where
  "quotaUsage subject q now db =
     (if uq_Period q = QuotaPeriodRolling then
        map_sum id int (CountRollingHits subject (format_rfc3339nano (now - quotaWindowDuration q)) db)
      else GetUsage subject (quotaPeriodKey q now) db)"

definition recordQuotaHit :: "string \<Rightarrow> UserQuota \<Rightarrow> time \<Rightarrow> database \<Rightarrow> store_error option \<times> database" where
  "recordQuotaHit subject q now db =
     (if uq_Period q = QuotaPeriodRolling then AddRollingHit subject (format_rfc3339nano now) db
      else (case IncrementUsage subject (quotaPeriodKey q now) db of
              (Inl e, db') \<Rightarrow> (Some e, db') | (Inr _, db') \<Rightarrow> (None, db')))"

subsection \<open>The guard of the search endpoints\<close>

record clocks =
  ck_cache :: time
  ck_put :: time
  ck_limit :: time
  ck_user :: time
  ck_until :: time
  ck_day :: time
  ck_left :: time
  ck_next :: time

datatype quota_event = QuotaExceeded string int "string option"

record guard_state =
  gs_cache :: quotaCache
  gs_limiter :: rateLimiter
  gs_db :: database
  gs_metrics :: "metrics option"
  gs_events :: "quota_event list"

type_synonym headers = "(string \<times> string) list"

datatype search_outcome = Forwarded headers | Rejected headers string string

abbreviation set_header :: "string \<Rightarrow> string \<Rightarrow> headers \<Rightarrow> headers" where
  "set_header k v h \<equiv> AList.update k v h"

definition format_rfc3339 :: "time \<Rightarrow> string" where
  "format_rfc3339 t = format_date t @ ''T'' @ format_clock (t mod ns_per_day div ns_per_sec) @ ''Z''"

definition whole_seconds :: "int \<Rightarrow> int" where
  "whole_seconds d = (if 0 \<le> d then d div ns_per_sec else - ((- d) div ns_per_sec))"

definition notify_quota :: "string \<Rightarrow> quota_event \<Rightarrow> guard_state \<Rightarrow> guard_state" where
  "notify_quota url e st = (if url = [] then st else st\<lparr>gs_events := gs_events st @ [e]\<rparr>)"

definition usageSubject :: "server \<Rightarrow> req \<Rightarrow> string" where
  "usageSubject sv r =
     (let by_ip = ''ip:'' @ ClientIP (sv_clientIP sv) (rx_http r) in
      case rx_Identity r of
        None \<Rightarrow> by_ip
      | Some i \<Rightarrow> if i_KeyID i \<noteq> [] then ''key:'' @ i_KeyID i
                  else (case i_User i of Some u \<Rightarrow> ''user:'' @ u_ID u | None \<Rightarrow> by_ip))"

definition secondsUntilNextUTCDay :: "time \<Rightarrow> time \<Rightarrow> int" where
  "secondsUntilNextUTCDay now later = whole_seconds (AddDate 0 0 1 (midnight now) - later) + 1"

definition quota_headers :: "int \<Rightarrow> int \<Rightarrow> headers \<Rightarrow> headers" where
  "quota_headers limit remaining h =
     set_header ''X-Serpent-Quota-Remaining'' (Itoa (max 0 remaining)) (set_header ''X-Serpent-Quota-Limit'' (Itoa limit) h)"

definition reset_header :: "time option \<Rightarrow> headers \<Rightarrow> headers" where
  "reset_header reset h =
     (case reset of None \<Rightarrow> h | Some t \<Rightarrow> set_header ''X-Serpent-Quota-Reset-At'' (format_rfc3339 t) h)"

text \<open>The answer of \<open>checkUserQuota\<close> is \<open>None\<close> when it has written a refusal.\<close>

definition refuse_user_quota :: "string \<Rightarrow> clocks \<Rightarrow> string \<Rightarrow> UserQuota \<Rightarrow> headers \<Rightarrow> guard_state \<Rightarrow> headers \<times> guard_state" where
  "refuse_user_quota webhook ck subject q h st =
     (let reset = quotaResetAt q (ck_user ck);
          retry = (case reset of None \<Rightarrow> whole_seconds (quotaWindowDuration q)
                   | Some t \<Rightarrow> max 1 (whole_seconds (t - ck_until ck) + 1));
          st1 = notify_quota webhook (QuotaExceeded subject (uq_Requests q) (Some (uq_Period q))) st
      in (quota_headers (uq_Requests q) 0
            (set_header ''X-Serpent-Api'' ''quota_exceeded''
              (set_header ''Retry-After'' (Itoa retry) (reset_header reset h))),
          st1\<lparr>gs_metrics := map_option (RecordQuotaRejected (uq_Period q)) (gs_metrics st1)\<rparr>))"

definition checkUserQuota ::
  "string \<Rightarrow> req \<Rightarrow> clocks \<Rightarrow> UserQuota \<Rightarrow> headers \<Rightarrow> guard_state \<Rightarrow> (search_outcome + headers) \<times> guard_state" where
  "checkUserQuota webhook r ck q h st =
     (let subject = ''user:'' @ identityUserID r; now = ck_user ck;
          usage = quotaUsage subject q now (gs_db st);
          used = (case usage of Inr n \<Rightarrow> n | Inl _ \<Rightarrow> 0)
      in if (case usage of Inr n \<Rightarrow> uq_Requests q \<le> n | Inl _ \<Rightarrow> False) then
           (let (h', st') = refuse_user_quota webhook ck subject q h st
            in (Inl (Rejected h' ''quota_exceeded'' ''daily search quota exceeded''), st'))
         else
           (let h1 = reset_header (quotaResetAt q now) h;
                (err, db') = recordQuotaHit subject q now (gs_db st);
                st' = st\<lparr>gs_db := db'\<rparr>
            in (Inr (if err = None then quota_headers (uq_Requests q) (uq_Requests q - used - 1) h1 else h1), st')))"

definition checkDailyQuota ::
  "string \<Rightarrow> clocks \<Rightarrow> string \<Rightarrow> int \<Rightarrow> headers \<Rightarrow> guard_state \<Rightarrow> search_outcome \<times> guard_state" where
  "checkDailyQuota webhook ck subject quota h st =
     (let day = format_date (ck_day ck); usage = GetUsage subject day (gs_db st)
      in if (case usage of Inr n \<Rightarrow> quota \<le> n | Inl _ \<Rightarrow> False) then
           (Rejected (set_header ''X-Serpent-Api'' ''quota_exceeded''
              (set_header ''Retry-After'' (Itoa (secondsUntilNextUTCDay (ck_left ck) (ck_next ck))) h))
              ''quota_exceeded'' ''daily search quota exceeded'',
            notify_quota webhook (QuotaExceeded subject quota None) st)
         else
           (case IncrementUsage subject day (gs_db st) of
              (Inr count, db') \<Rightarrow> (Forwarded (quota_headers quota (quota - count) h), st\<lparr>gs_db := db'\<rparr>)
            | (Inl _, db') \<Rightarrow> (Forwarded h, st\<lparr>gs_db := db'\<rparr>)))"

definition searchGuard :: "server \<Rightarrow> string \<Rightarrow> req \<Rightarrow> clocks \<Rightarrow> guard_state \<Rightarrow> search_outcome \<times> guard_state" where
  "searchGuard sv webhook r ck st =
     (let rateLimit = sv_GetInt sv KeySearchRateLimit; quota = sv_GetInt sv KeySearchDailyQuota;
          (userQuota, cache) = quota_get (identityUserID r) (ck_cache ck) (ck_put ck) (gs_db st) (gs_cache st);
          st0 = st\<lparr>gs_cache := cache\<rparr>; subject = usageSubject sv r
      in if rateLimit \<le> 0 \<and> quota \<le> 0 \<and> userQuota = None then (Forwarded [], st0)
         else
           (let (ok, lim) = (if 0 < rateLimit then AllowLimit subject rateLimit minute_ns (ck_limit ck) (gs_limiter st0)
                             else (True, gs_limiter st0));
                st1 = st0\<lparr>gs_limiter := lim\<rparr>
            in if \<not> ok then
                 (Rejected [(''Retry-After'', ''60''), (''X-Serpent-Api'', ''rate_limited'')]
                    ''rate_limited'' ''search rate limit exceeded; retry later'', st1)
               else
                 (case (case userQuota of None \<Rightarrow> (Inr [], st1) | Some q \<Rightarrow> checkUserQuota webhook r ck q [] st1) of
                    (Inl refused, st2) \<Rightarrow> (refused, st2)
                  | (Inr h, st2) \<Rightarrow>
                      if 0 < quota then checkDailyQuota webhook ck subject quota h st2 else (Forwarded h, st2))))"

fun guard_run :: "server \<Rightarrow> string \<Rightarrow> (req \<times> clocks) list \<Rightarrow> guard_state \<Rightarrow> search_outcome list \<times> guard_state" where
  "guard_run sv webhook [] st = ([], st)"
| "guard_run sv webhook ((r, ck) # rest) st =
     (let (out, st1) = searchGuard sv webhook r ck st; (outs, st2) = guard_run sv webhook rest st1
      in (out # outs, st2))"

subsection \<open>The bound of a calendar quota\<close>

definition period_usage :: "UserQuota \<Rightarrow> time \<Rightarrow> string \<Rightarrow> guard_state \<Rightarrow> int" where
  "period_usage q t u st = usage_of (gs_db st) (''user:'' @ u) (quotaPeriodKey q t)"

text \<open>What every request leaves in place: the store is up, and the rows the cache reflects.\<close>

definition guard_ok :: "string \<Rightarrow> UserQuota \<Rightarrow> guard_state \<Rightarrow> bool" where
  "guard_ok u q st \<longleftrightarrow> t_down (gs_db st) = None \<and> cache_coherent (gs_db st) (gs_cache st) \<and>
     quota_in_force (gs_db st) u = Some q"

definition same_quotas :: "database \<Rightarrow> database \<Rightarrow> bool" where
  "same_quotas db db' \<longleftrightarrow> t_down db' = t_down db \<and> t_quotas db' = t_quotas db"

lemma same_quotas_refl [simp]: "same_quotas db db"
  by (simp add: same_quotas_def)

lemma same_quotas_in_force: "same_quotas db db' \<Longrightarrow> quota_in_force db' u = quota_in_force db u"
  by (simp add: same_quotas_def quota_in_force_def GetUserQuota_def run_row_def)

lemma guard_ok_same:
  assumes "guard_ok u q st" "same_quotas (gs_db st) (gs_db st')" "gs_cache st' = gs_cache st"
  shows "guard_ok u q st'"
proof -
  have "quota_in_force (gs_db st') = quota_in_force (gs_db st)"
    using same_quotas_in_force [OF assms(2)] by (rule ext)
  then show ?thesis using assms by (simp add: guard_ok_def cache_coherent_def same_quotas_def)
qed

lemma IncrementUsage_quotas: "IncrementUsage s d db = (res, db') \<Longrightarrow> same_quotas db db'"
  by (auto simp: IncrementUsage_def Let_def same_quotas_def split: option.splits)

lemma recordQuotaHit_db:
  assumes "recordQuotaHit s q now db = (err, db')"
  shows "uq_Period q = QuotaPeriodRolling \<Longrightarrow> same_quotas db db' \<and> t_usage db' = t_usage db"
    and "uq_Period q \<noteq> QuotaPeriodRolling \<Longrightarrow> db' = snd (IncrementUsage s (quotaPeriodKey q now) db)"
proof -
  show "same_quotas db db' \<and> t_usage db' = t_usage db" if "uq_Period q = QuotaPeriodRolling"
    using assms that unfolding recordQuotaHit_def AddRollingHit_def run_exec_def
    by (auto simp: same_quotas_def split: option.splits)
  show "db' = snd (IncrementUsage s (quotaPeriodKey q now) db)" if "uq_Period q \<noteq> QuotaPeriodRolling"
    using assms that by (cases "IncrementUsage s (quotaPeriodKey q now) db") (auto simp: recordQuotaHit_def split: sum.splits)
qed

lemma recordQuotaHit_quotas: "recordQuotaHit s q now db = (err, db') \<Longrightarrow> same_quotas db db'"
  by (metis recordQuotaHit_db IncrementUsage_quotas prod.collapse)

lemma recordQuotaHit_other:
  assumes "(s', d') \<noteq> (s, quotaPeriodKey q now)" "recordQuotaHit s q now db = (err, db')"
  shows "usage_of db' s' d' = usage_of db s' d'"
proof (cases "uq_Period q = QuotaPeriodRolling")
  case True
  then have "t_usage db' = t_usage db" using recordQuotaHit_db(1) [OF assms(2)] by blast
  then show ?thesis by (simp add: usage_of_def)
next
  case False
  then show ?thesis using recordQuotaHit_db(2) [OF assms(2)] IncrementUsage_other [OF assms(1)] by simp
qed

lemma recordQuotaHit_counts:
  assumes "uq_Period q \<noteq> QuotaPeriodRolling" "t_down db = None" "recordQuotaHit s q now db = (err, db')"
  shows "usage_of db' s (quotaPeriodKey q now) = usage_of db s (quotaPeriodKey q now) + 1"
proof -
  obtain n d where i: "IncrementUsage s (quotaPeriodKey q now) db = (Inr n, d)"
    using assms(2) by (simp add: IncrementUsage_def Let_def)
  then have "db' = d" using recordQuotaHit_db(2) [OF assms(3,1)] by simp
  then show ?thesis using IncrementUsage_value [OF i] by simp
qed

lemma checkDailyQuota_effect:
  assumes "checkDailyQuota webhook ck subject quota h st = (out, st')"
  shows "same_quotas (gs_db st) (gs_db st') \<and> gs_cache st' = gs_cache st \<and> period_usage q t u st' = period_usage q t u st"
proof -
  obtain res db' where i: "IncrementUsage subject (format_date (ck_day ck)) (gs_db st) = (res, db')" by fastforce
  have "usage_of db' (''user:'' @ u) (quotaPeriodKey q t) = usage_of (gs_db st) (''user:'' @ u) (quotaPeriodKey q t)"
    using IncrementUsage_other [of "''user:'' @ u" "quotaPeriodKey q t" subject "format_date (ck_day ck)" "gs_db st"] i
    by (simp add: period_key_not_date)
  moreover have "(gs_db st' = gs_db st \<or> gs_db st' = db') \<and> gs_cache st' = gs_cache st"
    using assms i by (cases res) (simp_all add: checkDailyQuota_def Let_def notify_quota_def split: if_splits, auto)
  ultimately show ?thesis using IncrementUsage_quotas [OF i] by (auto simp: period_usage_def)
qed

lemma refuse_user_quota_effect:
  "refuse_user_quota webhook ck subject q h st = (h', st') \<Longrightarrow> gs_db st' = gs_db st \<and> gs_cache st' = gs_cache st"
  by (auto simp: refuse_user_quota_def Let_def notify_quota_def)

text \<open>The check of a user's quota: an admission is counted, and only while the allowance lasts.\<close>

lemma checkUserQuota_cases:
  assumes "checkUserQuota webhook r ck q h st = (res, st')"
    and "recordQuotaHit (''user:'' @ identityUserID r) q (ck_user ck) (gs_db st) = (err, db')"
  shows "gs_cache st' = gs_cache st \<and> (case res of Inl out \<Rightarrow> (\<exists>h c m. out = Rejected h c m) \<and> gs_db st' = gs_db st
     | Inr h \<Rightarrow> gs_db st' = db')"
proof (cases "case quotaUsage (''user:'' @ identityUserID r) q (ck_user ck) (gs_db st) of Inr n \<Rightarrow> uq_Requests q \<le> n | Inl _ \<Rightarrow> False")
  case True
  obtain h' st1 where f: "refuse_user_quota webhook ck (''user:'' @ identityUserID r) q h st = (h', st1)" by fastforce
  show ?thesis using assms True f refuse_user_quota_effect [OF f] by (auto simp: checkUserQuota_def Let_def)
next
  case False
  show ?thesis using assms False by (auto simp: checkUserQuota_def Let_def)
qed

lemma checkUserQuota_effect:
  assumes "checkUserQuota webhook r ck q h st = (res, st')"
  shows "same_quotas (gs_db st) (gs_db st')" "gs_cache st' = gs_cache st"
    and "u \<noteq> identityUserID r \<Longrightarrow> period_usage q' t u st' = period_usage q' t u st"
proof -
  obtain err db' where d: "recordQuotaHit (''user:'' @ identityUserID r) q (ck_user ck) (gs_db st) = (err, db')" by fastforce
  note c = checkUserQuota_cases [OF assms d]
  show "same_quotas (gs_db st) (gs_db st')" "gs_cache st' = gs_cache st"
    using c recordQuotaHit_quotas [OF d] by (auto split: sum.splits)
  show "period_usage q' t u st' = period_usage q' t u st" if "u \<noteq> identityUserID r"
    using c recordQuotaHit_other [OF _ d, of "''user:'' @ u" "quotaPeriodKey q' t"] that
    by (auto simp: period_usage_def split: sum.splits)
qed

lemma checkUserQuota_counts:
  assumes "checkUserQuota webhook r ck q h st = (res, st')"
    and "uq_Period q \<noteq> QuotaPeriodRolling" "t_down (gs_db st) = None"
    and "quotaPeriodKey q (ck_user ck) = quotaPeriodKey q t" and "identityUserID r = u"
  shows "case res of Inl out \<Rightarrow> (\<exists>h c m. out = Rejected h c m) \<and> period_usage q t u st' = period_usage q t u st
     | Inr h \<Rightarrow> period_usage q t u st < uq_Requests q \<and> period_usage q t u st' = period_usage q t u st + 1"
proof -
  obtain err db' where d: "recordQuotaHit (''user:'' @ identityUserID r) q (ck_user ck) (gs_db st) = (err, db')" by fastforce
  have "quotaUsage (''user:'' @ identityUserID r) q (ck_user ck) (gs_db st) = Inr (period_usage q t u st)"
    using assms(2-5) by (simp add: quotaUsage_def GetUsage_def run_query_def period_usage_def)
  then have "isl res \<longleftrightarrow> uq_Requests q \<le> period_usage q t u st"
    using assms(1) d by (auto simp: checkUserQuota_def Let_def split: if_splits prod.splits)
  then show ?thesis
    using checkUserQuota_cases [OF assms(1) d] recordQuotaHit_counts [OF assms(2,3) d] assms(4,5)
    by (auto simp: period_usage_def split: sum.splits)
qed

lemma searchGuard_step:
  assumes "searchGuard sv webhook r ck st = (out, st')" "guard_ok u q st" "u \<noteq> []"
    and "uq_Period q \<noteq> QuotaPeriodRolling" "quotaPeriodKey q (ck_user ck) = quotaPeriodKey q t"
  shows "guard_ok u q st' \<and>
     (let counted = period_usage q t u st' - period_usage q t u st in
      counted \<in> {0, 1} \<and> (counted = 1 \<longrightarrow> period_usage q t u st < uq_Requests q) \<and>
      (identityUserID r = u \<and> (\<exists>h. out = Forwarded h) \<longrightarrow> counted = 1))"
proof -
  let ?id = "identityUserID r"
  obtain uq cache where g: "quota_get ?id (ck_cache ck) (ck_put ck) (gs_db st) (gs_cache st) = (uq, cache)" by fastforce
  define st0 where "st0 = st\<lparr>gs_cache := cache\<rparr>"
  have coh: "cache_coherent (gs_db st) cache" and uq: "?id = u \<Longrightarrow> uq = Some q"
    using quota_get_coherent [OF _ g] assms(2,3) by (auto simp: guard_ok_def)
  have ok0: "guard_ok u q st0" and pu0: "period_usage q t u st0 = period_usage q t u st"
    using assms(2) coh by (simp_all add: guard_ok_def st0_def period_usage_def)
  let ?quota = "sv_GetInt sv KeySearchDailyQuota" and ?subject = "usageSubject sv r"
  consider (free) "?id \<noteq> u" "st' = st0" | (limited) lim where "st' = st0\<lparr>gs_limiter := lim\<rparr>" "\<not> (\<exists>h. out = Forwarded h)"
    | (checked) lim res st2 where "(case uq of None \<Rightarrow> (Inr [], st0\<lparr>gs_limiter := lim\<rparr>)
          | Some q \<Rightarrow> checkUserQuota webhook r ck q [] (st0\<lparr>gs_limiter := lim\<rparr>)) = (res, st2)"
        "case res of Inl refused \<Rightarrow> out = refused \<and> st' = st2
         | Inr h \<Rightarrow> if 0 < ?quota then checkDailyQuota webhook ck ?subject ?quota h st2 = (out, st') else st' = st2"
    using assms(1) uq unfolding searchGuard_def Let_def g st0_def
    by (auto split: if_splits prod.splits sum.splits)
  then show ?thesis
  proof cases
    case free
    then show ?thesis using ok0 pu0 by simp
  next
    case limited
    then show ?thesis using ok0 pu0 by (simp add: guard_ok_def period_usage_def)
  next
    case (checked lim res st2)
    define st1 where "st1 = st0\<lparr>gs_limiter := lim\<rparr>"
    have ok1: "guard_ok u q st1" "t_down (gs_db st1) = None" and pu1: "period_usage q t u st1 = period_usage q t u st"
      using ok0 pu0 by (simp_all add: guard_ok_def st1_def period_usage_def)
    have user: "guard_ok u q st2 \<and> (if ?id = u then
        (case res of Inl refused \<Rightarrow> (\<exists>h c m. refused = Rejected h c m) \<and> period_usage q t u st2 = period_usage q t u st1
         | Inr h \<Rightarrow> period_usage q t u st1 < uq_Requests q \<and> period_usage q t u st2 = period_usage q t u st1 + 1)
       else period_usage q t u st2 = period_usage q t u st1)"
    proof (cases uq)
      case None
      then show ?thesis using checked(1) uq ok1 by (auto simp: st1_def)
    next
      case (Some q')
      then have c: "checkUserQuota webhook r ck q' [] st1 = (res, st2)" using checked(1) by (simp add: st1_def)
      note e = checkUserQuota_effect [OF c]
      show ?thesis
        using guard_ok_same [OF ok1(1) e(1,2)] e(3) [of u q t] uq Some
          checkUserQuota_counts [OF c [unfolded uq], of t u] c assms(4,5) ok1(2)
          checkUserQuota_counts [of webhook r ck q "[]" st1 res st2 t u]
        by auto
    qed
    show ?thesis
    proof (cases "\<exists>h. res = Inr h \<and> 0 < ?quota")
      case True
      then obtain h where d: "checkDailyQuota webhook ck ?subject ?quota h st2 = (out, st')" and r: "res = Inr h"
        using checked(2) by auto
      note e = checkDailyQuota_effect [OF d, of q t u]
      show ?thesis using user guard_ok_same [of u q st2 st'] e pu1 r by (auto simp: Let_def split: if_splits)
    next
      case False
      then show ?thesis using user checked(2) pu1 by (cases res) (auto simp: Let_def split: if_splits)
    qed
  qed
qed

text \<open>
  However the requests of a period interleave, over all keys and sessions of a user: those let
  through are within what is left of the allowance.
\<close>

definition forwarded_for :: "string \<Rightarrow> (req \<times> clocks) list \<Rightarrow> search_outcome list \<Rightarrow> nat" where
  "forwarded_for u rs outs = length (filter (\<lambda>((r, ck), out). identityUserID r = u \<and> (\<exists>h. out = Forwarded h)) (zip rs outs))"

lemma guard_run_bound:
  assumes "guard_run sv webhook rs st = (outs, st')" "guard_ok u q st" "u \<noteq> []"
    and "uq_Period q \<noteq> QuotaPeriodRolling"
    and "\<And>r ck. (r, ck) \<in> set rs \<Longrightarrow> quotaPeriodKey q (ck_user ck) = quotaPeriodKey q t"
  shows "guard_ok u q st' \<and>
     period_usage q t u st + int (forwarded_for u rs outs) \<le> period_usage q t u st' \<and>
     period_usage q t u st' \<le> max (period_usage q t u st) (uq_Requests q)"
  using assms
proof (induction rs arbitrary: st outs)
  case Nil
  then show ?case by (simp add: forwarded_for_def)
next
  case (Cons x rs)
  obtain r ck where x: "x = (r, ck)" by fastforce
  obtain out st1 where s1: "searchGuard sv webhook r ck st = (out, st1)" by fastforce
  obtain outs1 st2 where s2: "guard_run sv webhook rs st1 = (outs1, st2)" by fastforce
  have o: "outs = out # outs1" "st' = st2" using Cons.prems(1) x s1 s2 by auto
  have k: "quotaPeriodKey q (ck_user ck) = quotaPeriodKey q t" using Cons.prems(5) [of r ck] x by simp
  note step = searchGuard_step [OF s1 Cons.prems(2,3,4) k]
  have times: "quotaPeriodKey q (ck_user ck') = quotaPeriodKey q t" if "(r', ck') \<in> set rs" for r' ck'
    using Cons.prems(5) [of r' ck'] that by simp
  have ih: "guard_ok u q st' \<and> period_usage q t u st1 + int (forwarded_for u rs outs1) \<le> period_usage q t u st' \<and>
      period_usage q t u st' \<le> max (period_usage q t u st1) (uq_Requests q)"
    by (rule Cons.IH [OF s2 [folded o(2)] _ Cons.prems(3,4)])
      (use step in \<open>simp add: Let_def\<close>, erule times)
  have "forwarded_for u (x # rs) outs =
      (if identityUserID r = u \<and> (\<exists>h. out = Forwarded h) then 1 else 0) + forwarded_for u rs outs1"
    unfolding forwarded_for_def o x by simp
  then show ?case using step ih by (auto simp: Let_def split: if_splits)
qed

text \<open>
  The check reads the counter and raises it in two statements: two requests that both read before
  either writes are both let through with one admission left.
\<close>

lemma quota_check_race:
  assumes "uq_Period q \<noteq> QuotaPeriodRolling" "t_down db = None"
    and "quotaUsage s q now db = Inr (uq_Requests q - 1)"
    and "recordQuotaHit s q now db = (e1, db1)" "recordQuotaHit s q now db1 = (e2, db2)"
  shows "quotaUsage s q now db2 = Inr (uq_Requests q + 1)"
proof -
  have "t_down db1 = None" "t_down db2 = None"
    using recordQuotaHit_quotas [OF assms(4)] recordQuotaHit_quotas [OF assms(5)] assms(2) by (simp_all add: same_quotas_def)
  then show ?thesis
    using assms(1-3) recordQuotaHit_counts [OF assms(1,2,4)] recordQuotaHit_counts [OF assms(1) _ assms(5)]
    by (simp add: quotaUsage_def GetUsage_def run_query_def)
qed

end
