(* ===== verification/Users_Admin.thy ===== *)
theory Users_Admin
  imports Quotas Chain_Admin
begin

text \<open>
  The user, quota, key and passkey handlers of \<open>internal/httpd/handlers_users.go\<close>. The state is
  the database and, where a handler drops cached quota rows, the quota cache. Random bytes and
  the key derivation of a new key form the record \<open>keygen\<close>.
\<close>

subsection \<open>Quotas\<close>

record UserQuotaStatus =
  qs_Requests :: int
  qs_Used :: int
  qs_Remaining :: int
  qs_Period :: string
  qs_WindowHours :: int
  qs_TzOffset :: int
  qs_ResetAt :: string
  qs_UpdatedAt :: string

definition quotaStatus :: "database \<Rightarrow> time \<Rightarrow> string \<Rightarrow> UserQuota \<Rightarrow> UserQuotaStatus" where
  "quotaStatus db now userID q =
     (let st = \<lparr>qs_Requests = uq_Requests q, qs_Used = 0, qs_Remaining = 0, qs_Period = uq_Period q,
                qs_WindowHours = uq_WindowHours q, qs_TzOffset = uq_TzOffset q, qs_ResetAt = [],
                qs_UpdatedAt = uq_UpdatedAt q\<rparr>
      in if uq_Requests q \<le> 0 then st
         else (case quotaUsage (''user:'' @ userID) q now db of
                 Inl _ \<Rightarrow> st
               | Inr used \<Rightarrow>
                   st\<lparr>qs_Used := used, qs_Remaining := max 0 (uq_Requests q - used),
                      qs_ResetAt := (case quotaResetAt q now of None \<Rightarrow> [] | Some t \<Rightarrow> format_rfc3339 t)\<rparr>))"

definition handleListUsers :: "(string \<Rightarrow> time) \<Rightarrow> database \<Rightarrow> (User \<times> UserQuotaStatus option) list reply" where
  "handleListUsers clock db =
     (case ListUsers db of
        Inl e \<Rightarrow> store_failure e
      | Inr users \<Rightarrow>
          (let quotas = (case ListUserQuotas db of Inl _ \<Rightarrow> Map.empty | Inr m \<Rightarrow> m)
           in Reply 200 (map (\<lambda>u. (u, case quotas (u_ID u) of
                 None \<Rightarrow> None
               | Some q \<Rightarrow> if uq_Requests q \<le> 0 then None else Some (quotaStatus db (clock (u_ID u)) (u_ID u) q))) users)))"

record quotaPayload =
  qp_Requests :: "int option"
  qp_Period :: "string option"
  qp_WindowHours :: "int option"
  qp_TzOffset :: "int option"

definition zero_quota :: UserQuota where
  "zero_quota = \<lparr>uq_UserID = [], uq_Requests = 0, uq_Period = [], uq_WindowHours = 0, uq_TzOffset = 0, uq_UpdatedAt = []\<rparr>"

text \<open>The fields a payload sets, and the defaults of the others.\<close>

definition merge_quota :: "quotaPayload \<Rightarrow> UserQuota \<Rightarrow> UserQuota" where
  "merge_quota body q =
     q\<lparr>uq_Requests := (case qp_Requests body of None \<Rightarrow> uq_Requests q | Some n \<Rightarrow> n),
       uq_Period := (let p = (case qp_Period body of None \<Rightarrow> uq_Period q | Some p \<Rightarrow> p)
                     in if p = [] then QuotaPeriodDaily else p),
       uq_WindowHours := (let h = (case qp_WindowHours body of None \<Rightarrow> uq_WindowHours q | Some h \<Rightarrow> h)
                          in if h \<le> 0 then 24 else h),
       uq_TzOffset := (case qp_TzOffset body of None \<Rightarrow> uq_TzOffset q | Some z \<Rightarrow> z)\<rparr>"

definition validateQuota :: "quotaPayload \<Rightarrow> UserQuota option \<Rightarrow> string + UserQuota" where
  "validateQuota body current =
     (if (case qp_Requests body of None \<Rightarrow> False | Some n \<Rightarrow> n < 0) then Inl ''requests must be >= 0''
      else if (case qp_Period body of None \<Rightarrow> False | Some p \<Rightarrow> p \<notin> set quota_periods)
      then Inl ''period must be one of daily|weekly|monthly|rolling''
      else if (case qp_WindowHours body of None \<Rightarrow> False | Some h \<Rightarrow> h < 1 \<or> 720 < h)
      then Inl ''window_hours must be between 1 and 720''
      else if (case qp_TzOffset body of None \<Rightarrow> False | Some z \<Rightarrow> z < -720 \<or> 840 < z)
      then Inl ''tz_offset must be between -720 and 840 minutes''
      else Inr (merge_quota body (case current of None \<Rightarrow> zero_quota | Some c \<Rightarrow> c)))"

definition user_not_found :: "'a reply" where
  "user_not_found = Failure 404 ''not_found'' ''user not found''"

definition handleGetUserQuota :: "time \<Rightarrow> string \<Rightarrow> database \<Rightarrow> (string + UserQuotaStatus) reply" where
  "handleGetUserQuota now userID db =
     (case GetUser userID db of
        Inl _ \<Rightarrow> user_not_found
      | Inr _ \<Rightarrow>
          (case GetUserQuota userID db of
             Inr q \<Rightarrow> Reply 200 (Inr (quotaStatus db now userID q))
           | Inl e \<Rightarrow> if e = ErrNotFound then Reply 200 (Inl userID) else store_failure e))"

definition handlePutUserQuota ::
  "server \<Rightarrow> req \<Rightarrow> time \<Rightarrow> string \<Rightarrow> quotaPayload body \<Rightarrow> database \<Rightarrow> quotaCache
     \<Rightarrow> UserQuotaStatus reply \<times> database \<times> quotaCache" where
  "handlePutUserQuota sv r now userID body db c =
     (case GetUser userID db of
        Inl _ \<Rightarrow> (user_not_found, db, c)
      | Inr _ \<Rightarrow>
          (case readJSON \<lparr>qp_Requests = None, qp_Period = None, qp_WindowHours = None, qp_TzOffset = None\<rparr> body of
             Inl bad \<Rightarrow> (bad, db, c)
           | Inr payload \<Rightarrow>
               (let current = GetUserQuota userID db in
                if (case current of Inl e \<Rightarrow> e \<noteq> ErrNotFound | Inr _ \<Rightarrow> False)
                then (store_failure (projl current), db, c)
                else (case validateQuota payload (case current of Inl _ \<Rightarrow> None | Inr q \<Rightarrow> Some q) of
                        Inl msg \<Rightarrow> (Failure 400 ''invalid_request'' msg, db, c)
                      | Inr q0 \<Rightarrow>
                          (let q = q0\<lparr>uq_UserID := userID, uq_UpdatedAt := rx_now r\<rparr> in
                           case SetUserQuota q db of
                             (Some e, db') \<Rightarrow> (store_failure e, db', c)
                           | (None, db') \<Rightarrow>
                               (let db'' = audit sv r ''quota.set'' userID
                                      [(''requests'', Itoa (uq_Requests q)), (''period'', uq_Period q),
                                       (''window_hours'', Itoa (uq_WindowHours q)), (''tz_offset'', Itoa (uq_TzOffset q))] db'
                                in (Reply 200 (quotaStatus db'' now userID q), db'', quota_invalidate userID c)))))))"

definition handleDeleteUserQuota ::
  "server \<Rightarrow> req \<Rightarrow> string \<Rightarrow> database \<Rightarrow> quotaCache \<Rightarrow> unit reply \<times> database \<times> quotaCache" where
  "handleDeleteUserQuota sv r userID db c =
     (case GetUser userID db of
        Inl _ \<Rightarrow> (user_not_found, db, c)
      | Inr _ \<Rightarrow>
          (case DeleteUserQuota userID db of
             (Some e, db') \<Rightarrow> (store_failure e, db', c)
           | (None, db') \<Rightarrow> (Reply 200 (), audit sv r ''quota.delete'' userID [] db', quota_invalidate userID c)))"

subsection \<open>Users\<close>

record userPayload =
  up_Name :: string
  up_Role :: string
  up_Disabled :: "bool option"

definition zero_user_payload :: userPayload where
  "zero_user_payload = \<lparr>up_Name = [], up_Role = [], up_Disabled = None\<rparr>"

definition handleCreateUser :: "server \<Rightarrow> req \<Rightarrow> userPayload body \<Rightarrow> database \<Rightarrow> User reply \<times> database" where
  "handleCreateUser sv r body db =
     (case readJSON zero_user_payload body of
        Inl bad \<Rightarrow> (bad, db)
      | Inr p \<Rightarrow>
          if up_Name p = [] then (Failure 400 ''invalid_request'' ''name is required'', db)
          else
            (let role = (if up_Role p \<noteq> ''admin'' \<and> up_Role p \<noteq> ''viewer'' then ''viewer'' else up_Role p);
                 user = \<lparr>u_ID = rx_ids r 0, u_Name = up_Name p, u_Role = role, u_Disabled = False, u_CreatedAt = rx_now r\<rparr>
             in case CreateUser user db of
                  (Some e, db') \<Rightarrow> (Failure 409 ''user_exists'' (error_text e), db')
                | (None, db') \<Rightarrow>
                    (Reply 201 user, audit sv r ''user.create'' (u_ID user) [(''name'', u_Name user), (''role'', u_Role user)] db')))"

definition handleUpdateUser :: "server \<Rightarrow> req \<Rightarrow> string \<Rightarrow> userPayload body \<Rightarrow> database \<Rightarrow> User reply \<times> database" where
  "handleUpdateUser sv r i body db =
     (case GetUser i db of
        Inl _ \<Rightarrow> (user_not_found, db)
      | Inr u0 \<Rightarrow>
          (case readJSON zero_user_payload body of
             Inl bad \<Rightarrow> (bad, db)
           | Inr p \<Rightarrow>
               (let u1 = (if up_Name p \<noteq> [] then u0\<lparr>u_Name := up_Name p\<rparr> else u0);
                    u2 = (if up_Role p = ''admin'' \<or> up_Role p = ''viewer'' then u1\<lparr>u_Role := up_Role p\<rparr> else u1);
                    u = (case up_Disabled p of None \<Rightarrow> u2 | Some d \<Rightarrow> u2\<lparr>u_Disabled := d\<rparr>)
                in case UpdateUser u db of
                     (Some e, db') \<Rightarrow> (store_failure e, db')
                   | (None, db') \<Rightarrow>
                       (Reply 200 u, audit sv r ''user.update'' (u_ID u) [(''name'', u_Name u), (''role'', u_Role u)] db'))))"

definition handleDeleteUser ::
  "server \<Rightarrow> req \<Rightarrow> string \<Rightarrow> database \<Rightarrow> quotaCache \<Rightarrow> unit reply \<times> database \<times> quotaCache" where
  "handleDeleteUser sv r i db c =
     (case DeleteUser i db of
        (Some e, db') \<Rightarrow> (store_failure e, db', c)
      | (None, db') \<Rightarrow> (Reply 200 (), audit sv r ''user.delete'' i [] db', quota_invalidate i c))"

subsection \<open>Keys\<close>

text \<open>The keys, each with its number of requests today; a failing counter read leaves zero.\<close>

definition handleListKeys :: "req \<Rightarrow> time \<Rightarrow> database \<Rightarrow> (APIKey \<times> int) list reply" where
  "handleListKeys r now db =
     (case ListAPIKeys (rx_query r ''user_id'') db of
        Inl e \<Rightarrow> store_failure e
      | Inr ks \<Rightarrow>
          (let usage = (case UsageByDay (format_date now) db of Inl _ \<Rightarrow> Map.empty | Inr m \<Rightarrow> m)
           in Reply 200 (map (\<lambda>k. (k, case usage (''key:'' @ k_ID k) of None \<Rightarrow> 0 | Some n \<Rightarrow> n)) ks)))"

record keyPayload =
  kp_UserID :: string
  kp_Name :: string
  kp_Scope :: string
  kp_ChainID :: string

definition chainExists :: "database \<Rightarrow> string \<Rightarrow> bool" where
  "chainExists db i \<longleftrightarrow> (if TrimSpace i = [] then True else \<not> isl (GetChain i db))"

record keygen =
  kg_kdf :: idkey
  kg_prefix :: "string option"
  kg_secret :: "string option"
  kg_salt :: "string option"

definition new_key :: "keygen \<Rightarrow> bool \<Rightarrow> (string \<times> string \<times> string) option" where
  "new_key g admin = GenerateKey (kg_kdf g) admin (kg_prefix g) (kg_secret g) (kg_salt g)"

text \<open>The message is that of the failing source of random bytes; it is left empty.\<close>

definition key_error :: "'a reply" where
  "key_error = Failure 500 ''key_error'' []"

definition bad_key_request :: "string \<Rightarrow> 'a reply" where
  "bad_key_request msg = Failure 400 ''invalid_request'' msg"

definition minted_key :: "req \<Rightarrow> keyPayload \<Rightarrow> string \<Rightarrow> string \<Rightarrow> string \<Rightarrow> APIKey" where
  "minted_key r p userID pre hash =
     \<lparr>k_ID = rx_ids r 0, k_UserID = userID, k_Name = (if kp_Name p = [] then ''api key'' else kp_Name p),
      k_Prefix = pre, k_Hash = hash,
      k_Scopes = (if kp_Scope p = ''admin'' then ''admin,search,read'' else ''search''),
      k_ChainID = TrimSpace (kp_ChainID p), k_Permissions = [], k_LastUsedAt = [], k_ExpiresAt = [], k_RevokedAt = [],
      k_CreatedAt = rx_now r\<rparr>"

definition zero_key_payload :: keyPayload where
  "zero_key_payload = \<lparr>kp_UserID = [], kp_Name = [], kp_Scope = [], kp_ChainID = []\<rparr>"

definition handleCreateKey ::
  "server \<Rightarrow> req \<Rightarrow> keygen \<Rightarrow> keyPayload body \<Rightarrow> database \<Rightarrow> (APIKey \<times> string) reply \<times> database" where
  "handleCreateKey sv r g body db =
     (case readJSON zero_key_payload body of
        Inl bad \<Rightarrow> (bad, db)
      | Inr p \<Rightarrow>
          (let userID = (if kp_UserID p = [] then identityUserID r else kp_UserID p)
           in if userID = [] then (bad_key_request ''user_id is required'', db)
              else if isl (GetUser userID db) then (bad_key_request ''user not found'', db)
              else if \<not> chainExists db (TrimSpace (kp_ChainID p)) then (bad_key_request ''chain not found'', db)
              else (case new_key g (kp_Scope p = ''admin'') of
                      None \<Rightarrow> (key_error, db)
                    | Some (plaintext, pre, hash) \<Rightarrow>
                        (let key = minted_key r p userID pre hash
                         in case CreateAPIKey key db of
                              (Some e, db') \<Rightarrow> (store_failure e, db')
                            | (None, db') \<Rightarrow>
                                (Reply 201 (key, plaintext),
                                 audit sv r ''key.create'' (k_ID key)
                                   [(''user_id'', k_UserID key), (''name'', k_Name key), (''scopes'', k_Scopes key)] db')))))"

record keyUpdatePayload =
  ku_Name :: "string option"
  ku_ChainID :: "string option"
  ku_ExpiresAt :: "string option"
  ku_Revoke :: "bool option"

definition rename_key :: "string option \<Rightarrow> APIKey \<Rightarrow> APIKey" where
  "rename_key n k = (case n of None \<Rightarrow> k | Some v \<Rightarrow> if TrimSpace v \<noteq> [] then k\<lparr>k_Name := TrimSpace v\<rparr> else k)"

definition handleUpdateKey ::
  "server \<Rightarrow> req \<Rightarrow> string \<Rightarrow> keyUpdatePayload body \<Rightarrow> database \<Rightarrow> APIKey reply \<times> database" where
  "handleUpdateKey sv r i body db =
     (case GetAPIKey i db of
        Inl _ \<Rightarrow> (Failure 404 ''not_found'' ''key not found'', db)
      | Inr k0 \<Rightarrow>
          (case readJSON \<lparr>ku_Name = None, ku_ChainID = None, ku_ExpiresAt = None, ku_Revoke = None\<rparr> body of
             Inl bad \<Rightarrow> (bad, db)
           | Inr p \<Rightarrow>
               if (case ku_ChainID p of None \<Rightarrow> False | Some c \<Rightarrow> \<not> chainExists db (TrimSpace c))
               then (bad_key_request ''chain not found'', db)
               else
                 (let k1 = rename_key (ku_Name p) k0;
                      k2 = (case ku_ChainID p of None \<Rightarrow> k1 | Some c \<Rightarrow> k1\<lparr>k_ChainID := TrimSpace c\<rparr>);
                      k3 = (case ku_ExpiresAt p of None \<Rightarrow> k2 | Some e \<Rightarrow> k2\<lparr>k_ExpiresAt := TrimSpace e\<rparr>);
                      k = (if ku_Revoke p = Some True \<and> k_RevokedAt k3 = [] then k3\<lparr>k_RevokedAt := rx_now r\<rparr> else k3)
                  in case UpdateAPIKey k db of
                       (Some e, db') \<Rightarrow> (store_failure e, db')
                     | (None, db') \<Rightarrow>
                         (Reply 200 k,
                          audit sv r ''key.update'' (k_ID k) [(''chain_id'', k_ChainID k), (''name'', k_Name k)] db'))))"

definition handleRevokeKey :: "server \<Rightarrow> req \<Rightarrow> string \<Rightarrow> database \<Rightarrow> unit reply \<times> database" where
  "handleRevokeKey sv r i db =
     (case ListAPIKeys [] db of
        Inl e \<Rightarrow> (store_failure e, db)
      | Inr ks \<Rightarrow>
          (case find (\<lambda>k. k_ID k = i) ks of
             None \<Rightarrow> (Failure 404 ''not_found'' ''key not found'', db)
           | Some k \<Rightarrow>
               (case UpdateAPIKey (k\<lparr>k_RevokedAt := rx_now r\<rparr>) db of
                  (Some e, db') \<Rightarrow> (store_failure e, db')
                | (None, db') \<Rightarrow> (Reply 200 (), audit sv r ''key.revoke'' i [] db'))))"

subsection \<open>Passkeys\<close>

text \<open>The view of a passkey leaves out the credential and its public key.\<close>

record passkey_view =
  pv_id :: string
  pv_user_id :: string
  pv_name :: string
  pv_created_at :: string
  pv_last_used_at :: string
  pv_sign_count :: nat

definition view_passkey :: "Passkey \<Rightarrow> passkey_view" where
  "view_passkey p = \<lparr>pv_id = pk_ID p, pv_user_id = pk_UserID p, pv_name = pk_Name p, pv_created_at = pk_CreatedAt p,
     pv_last_used_at = pk_LastUsedAt p, pv_sign_count = pk_SignCount p\<rparr>"

definition handleListPasskeys :: "string \<Rightarrow> database \<Rightarrow> passkey_view list reply" where
  "handleListPasskeys userID db =
     (case ListPasskeys userID db of Inl e \<Rightarrow> store_failure e | Inr ps \<Rightarrow> Reply 200 (map view_passkey ps))"

definition handleDeletePasskey :: "server \<Rightarrow> req \<Rightarrow> string \<Rightarrow> database \<Rightarrow> unit reply \<times> database" where
  "handleDeletePasskey sv r i db =
     (case DeletePasskey i db of
        (Some e, db') \<Rightarrow> (store_failure e, db')
      | (None, db') \<Rightarrow> (Reply 200 (), audit sv r ''passkey.delete'' i [] db'))"

subsection \<open>The audit record leaves the other tables alone\<close>

lemma audit_tables [simp]:
  "t_down (audit sv r a t d db) = t_down db" "t_users (audit sv r a t d db) = t_users db"
  "t_keys (audit sv r a t d db) = t_keys db" "t_quotas (audit sv r a t d db) = t_quotas db"
  "t_sessions (audit sv r a t d db) = t_sessions db" "t_passkeys (audit sv r a t d db) = t_passkeys db"
  "t_chains (audit sv r a t d db) = t_chains db" "t_usage (audit sv r a t d db) = t_usage db"
  "t_rolling (audit sv r a t d db) = t_rolling db"
  using audit_frame [of sv r a t d db] by (auto simp: fun_eq_iff)

lemma audit_accounts_ok [simp]: "accounts_ok (audit sv r a t d db) \<longleftrightarrow> accounts_ok db"
  by (simp add: accounts_ok_def)

subsection \<open>Stored quotas are well formed\<close>

definition quota_wf :: "UserQuota \<Rightarrow> bool" where
  "quota_wf q \<longleftrightarrow> 0 \<le> uq_Requests q \<and> uq_Period q \<in> set quota_periods \<and>
     1 \<le> uq_WindowHours q \<and> uq_WindowHours q \<le> 720 \<and> -720 \<le> uq_TzOffset q \<and> uq_TzOffset q \<le> 840"

definition quotas_wf :: "database \<Rightarrow> bool" where
  "quotas_wf db \<longleftrightarrow> (\<forall>q \<in> set (t_quotas db). quota_wf q)"

lemma validateQuota_wf:
  assumes "validateQuota p current = Inr q" "\<And>c. current = Some c \<Longrightarrow> quota_wf c"
  shows "quota_wf q"
proof -
  let ?c = "case current of None \<Rightarrow> zero_quota | Some c \<Rightarrow> c"
  have q: "q = merge_quota p ?c"
    and ok: "\<And>n. qp_Requests p = Some n \<Longrightarrow> 0 \<le> n" "\<And>x. qp_Period p = Some x \<Longrightarrow> x \<in> set quota_periods"
      "\<And>h. qp_WindowHours p = Some h \<Longrightarrow> 1 \<le> h \<and> h \<le> 720" "\<And>z. qp_TzOffset p = Some z \<Longrightarrow> -720 \<le> z \<and> z \<le> 840"
    using assms(1) by (auto simp: validateQuota_def split: if_splits)
  have c: "0 \<le> uq_Requests ?c" "uq_Period ?c \<in> insert [] (set quota_periods)" "uq_WindowHours ?c \<le> 720"
    "-720 \<le> uq_TzOffset ?c" "uq_TzOffset ?c \<le> 840"
    using assms(2) by (auto simp: zero_quota_def quota_wf_def split: option.split)
  have "''daily'' \<in> set quota_periods" by (simp add: quota_periods_def)
  then show ?thesis
    using ok c by (auto simp: q merge_quota_def quota_wf_def Let_def split: option.splits)
qed

lemma wf_window: "quota_wf q \<Longrightarrow> quotaWindowDuration q = uq_WindowHours q * ns_per_hour"
  by (simp add: quota_wf_def quotaWindowDuration_def Let_def)

lemma GetUserQuota_row: "GetUserQuota u db = Inr q \<Longrightarrow> q \<in> set (t_quotas db) \<and> uq_UserID q = u"
  by (auto simp: GetUserQuota_def run_row_def split: option.splits dest: find_SomeD)

lemma SetUserQuota_rows:
  "SetUserQuota q db = (None, db') \<Longrightarrow> set (t_quotas db') \<subseteq> insert q (set (t_quotas db))"
  by (auto simp: SetUserQuota_def run_exec_def set_update_where split: option.splits if_splits)

lemma SetUserQuota_failed: "SetUserQuota q db = (Some e, db') \<Longrightarrow> db' = db"
  unfolding SetUserQuota_def by (rule run_exec_Some)

lemma handlePutUserQuota_cases:
  assumes "handlePutUserQuota sv r now u body db c = (res, db', c')"
  obtains (same) "db' = db" "c' = c"
    | (stored) p q db1 a where "validateQuota p (case GetUserQuota u db of Inl _ \<Rightarrow> None | Inr q \<Rightarrow> Some q) = Inr q"
      "SetUserQuota (q\<lparr>uq_UserID := u, uq_UpdatedAt := rx_now r\<rparr>) db = (None, db1)"
      "db' = audit sv r ''quota.set'' u a db1" "c' = quota_invalidate u c"
proof (cases "GetUser u db")
  case (Inr usr)
  show ?thesis
  proof (cases "readJSON \<lparr>qp_Requests = None, qp_Period = None, qp_WindowHours = None, qp_TzOffset = None\<rparr> body :: UserQuotaStatus reply + quotaPayload")
    case (Inr p)
    let ?cur = "case GetUserQuota u db of Inl _ \<Rightarrow> None | Inr q \<Rightarrow> Some q"
    show ?thesis
    proof (cases "validateQuota p ?cur")
      case (Inr q)
      obtain e db1 where s: "SetUserQuota (q\<lparr>uq_UserID := u, uq_UpdatedAt := rx_now r\<rparr>) db = (e, db1)" by fastforce
      show ?thesis
      proof (cases e)
        case None
        then show ?thesis
          using assms \<open>GetUser u db = Inr usr\<close> \<open>readJSON _ body = Inr p\<close> Inr s
          by (cases "GetUserQuota u db") (auto simp: handlePutUserQuota_def Let_def split: if_splits intro: same stored [OF Inr s [unfolded None]])
      next
        case (Some x)
        then show ?thesis
          using assms \<open>GetUser u db = Inr usr\<close> \<open>readJSON _ body = Inr p\<close> Inr s same SetUserQuota_failed [OF s [unfolded Some]]
          by (auto simp: handlePutUserQuota_def Let_def split: if_splits)
      qed
    qed (use assms Inr \<open>GetUser u db = Inr usr\<close> same in \<open>auto simp: handlePutUserQuota_def Let_def split: if_splits\<close>)
  qed (use assms Inr same in \<open>auto simp: handlePutUserQuota_def\<close>)
qed (use assms same in \<open>auto simp: handlePutUserQuota_def\<close>)

lemma handlePutUserQuota_wf:
  assumes "quotas_wf db" "handlePutUserQuota sv r now u body db c = (res, db', c')"
  shows "quotas_wf db'"
  using assms(2)
proof (cases rule: handlePutUserQuota_cases)
  case (stored p q db1 a)
  have "quota_wf x" if "(case GetUserQuota u db of Inl _ \<Rightarrow> None | Inr q \<Rightarrow> Some q) = Some x" for x
    using that GetUserQuota_row [of u db x] assms(1) by (auto simp: quotas_wf_def split: sum.splits)
  then have "quota_wf q" using validateQuota_wf [OF stored(1)] by blast
  then show ?thesis
    using SetUserQuota_rows [OF stored(2)] stored(3) assms(1) by (auto simp: quotas_wf_def quota_wf_def)
qed (use assms in simp)

subsection \<open>The cache after a change\<close>

text \<open>
  The handlers that change quota rows drop what the cache holds of them: with the cache coherent
  before, the next search of any user is under the quota that is stored after.
\<close>

lemma in_force_other:
  "find (\<lambda>q. uq_UserID q = u) (t_quotas db') = find (\<lambda>q. uq_UserID q = u) (t_quotas db) \<Longrightarrow>
   t_down db' = t_down db \<Longrightarrow> quota_in_force db' u = quota_in_force db u"
  unfolding quota_in_force_def GetUserQuota_def run_row_def by (simp only:)

lemma coherent_invalidate:
  assumes "cache_coherent db c" "\<And>v. v \<noteq> u \<Longrightarrow> quota_in_force db' v = quota_in_force db v"
  shows "cache_coherent db' (quota_invalidate u c)"
  using assms by (auto simp: cache_coherent_def quota_invalidate_def split: if_splits)

lemma coherent_same:
  "cache_coherent db c \<Longrightarrow> t_quotas db' = t_quotas db \<Longrightarrow> t_down db' = t_down db \<Longrightarrow> cache_coherent db' c"
  by (simp add: cache_coherent_def quota_in_force_def GetUserQuota_def run_row_def)

lemma SetUserQuota_other:
  assumes "SetUserQuota q db = (None, db')" "v \<noteq> uq_UserID q"
  shows "quota_in_force db' v = quota_in_force db v"
proof (rule in_force_other)
  show "t_down db' = t_down db" using assms(1) by (auto simp: SetUserQuota_def run_exec_None)
  have "find (\<lambda>x. uq_UserID x = v) (update_where (\<lambda>x. uq_UserID x = uq_UserID q) (\<lambda>_. q) (t_quotas db)) =
      find (\<lambda>x. uq_UserID x = v) (t_quotas db)"
    by (rule find_update_other) (use assms(2) in auto)
  then show "find (\<lambda>x. uq_UserID x = v) (t_quotas db') = find (\<lambda>x. uq_UserID x = v) (t_quotas db)"
    using assms by (auto simp: SetUserQuota_def run_exec_None find_append split: option.split)
qed

lemma find_delete_other:
  "(\<And>x. P x \<Longrightarrow> \<not> Q x) \<Longrightarrow> find P (delete_where Q t) = find P t"
  by (induction t) (auto simp: delete_where_def)

lemma DeleteUserQuota_other:
  "DeleteUserQuota u db = (None, db') \<Longrightarrow> v \<noteq> u \<Longrightarrow> quota_in_force db' v = quota_in_force db v"
  by (intro in_force_other) (auto simp: DeleteUserQuota_def run_exec_None intro: find_delete_other)

lemma DeleteUser_other:
  "DeleteUser u db = (None, db') \<Longrightarrow> v \<noteq> u \<Longrightarrow> quota_in_force db' v = quota_in_force db v"
  by (intro in_force_other) (auto simp: DeleteUser_def run_exec_None intro: find_delete_other)

lemma audit_in_force [simp]: "quota_in_force (audit sv r a t d db) v = quota_in_force db v"
  by (rule in_force_other) simp_all

lemma handlePutUserQuota_coherent:
  assumes "cache_coherent db c" "handlePutUserQuota sv r now u body db c = (res, db', c')"
  shows "cache_coherent db' c'"
  using assms(2)
proof (cases rule: handlePutUserQuota_cases)
  case (stored p q db1 a)
  show ?thesis
    unfolding stored(4) using SetUserQuota_other [OF stored(2)] stored(3)
    by (intro coherent_invalidate [OF assms(1)]) simp
qed (use assms in simp)

lemma handleDeleteUserQuota_coherent:
  assumes "cache_coherent db c" "handleDeleteUserQuota sv r u db c = (res, db', c')"
  shows "cache_coherent db' c'"
  using assms coherent_invalidate [OF assms(1), of u]
  by (auto simp: handleDeleteUserQuota_def DeleteUserQuota_other DeleteUserQuota_def
      dest: run_exec_Some split: sum.splits prod.splits option.splits)

lemma handleDeleteUser_coherent:
  assumes "cache_coherent db c" "handleDeleteUser sv r u db c = (res, db', c')"
  shows "cache_coherent db' c'"
  using assms coherent_invalidate [OF assms(1), of u] DeleteUser_other [of u db]
  by (auto simp: handleDeleteUser_def DeleteUser_def dest: run_exec_Some split: sum.splits prod.splits option.splits)

subsection \<open>The life of a key\<close>

definition good_keygen :: "keygen \<Rightarrow> bool" where
  "good_keygen g \<longleftrightarrow> (\<exists>a b s. kg_prefix g = Some a \<and> kg_secret g = Some b \<and> kg_salt g = Some s \<and> a \<noteq> [] \<and> b \<noteq> []) \<and>
     (\<forall>s t. length (kg_kdf g s t argonTime argonMemory argonThreads argonKeyLen) = argonKeyLen)"

lemma new_key_parses:
  assumes "good_keygen g" "new_key g admin = Some (plaintext, pre, hash)"
  shows "\<exists>secret. ParseKey plaintext = Some (if admin then KindAdmin else KindSearch, pre, secret) \<and>
     VerifySecret (kg_kdf g) hash secret"
proof -
  obtain a b s where r: "kg_prefix g = Some a" "kg_secret g = Some b" "kg_salt g = Some s" "a \<noteq> []" "b \<noteq> []"
    and len: "\<And>s t. length (kg_kdf g s t argonTime argonMemory argonThreads argonKeyLen) = argonKeyLen"
    using assms(1) by (auto simp: good_keygen_def)
  let ?k = "if admin then KindAdmin else KindSearch"
  have g: "generate (kg_kdf g) (prefix_of ?k) (Some a) (Some b) (Some s) = Some (plaintext, pre, hash)"
    using assms(2) r by (simp add: new_key_def GenerateKey_def prefix_of_def split: if_splits)
  show ?thesis
    using ParseKey_generate [OF g r(4,5)] len
      VerifySecret_HashSecret [where kdf = "kg_kdf g" and salt = s and secret = "hex_encode b" and h = hash and guess = "hex_encode b"]
    by auto
qed

lemma CreateAPIKey_found:
  assumes "CreateAPIKey k db = (None, db')"
  shows "GetAPIKeyByPrefix (k_Prefix k) db' = Inr k" "t_down db' = None" "t_users db' = t_users db"
proof -
  from assms have d: "db' = db\<lparr>t_keys := t_keys db @ [k]\<rparr>" "t_down db = None" "k_Prefix k \<notin> k_Prefix ` set (t_keys db)"
    by (auto simp: CreateAPIKey_def run_exec_None)
  have "find (\<lambda>x. k_Prefix x = k_Prefix k) (t_keys db) = None"
    using d(3) unfolding find_None_iff by (metis image_eqI)
  then show "GetAPIKeyByPrefix (k_Prefix k) db' = Inr k" "t_down db' = None" "t_users db' = t_users db"
    using d(1,2) by (simp_all add: GetAPIKeyByPrefix_def run_row_def find_append)
qed

lemma minted_key_simps [simp]:
  "k_UserID (minted_key r p u pre hash) = u" "k_Prefix (minted_key r p u pre hash) = pre"
  "k_Hash (minted_key r p u pre hash) = hash" "k_RevokedAt (minted_key r p u pre hash) = []"
  "k_ExpiresAt (minted_key r p u pre hash) = []"
  by (simp_all add: minted_key_def)

lemma handleCreateKey_reply:
  assumes "handleCreateKey sv r g body db = (Reply 201 (key, plaintext), db')"
  shows "\<exists>admin db1 a. new_key g admin = Some (plaintext, k_Prefix key, k_Hash key) \<and>
     CreateAPIKey key db = (None, db1) \<and> db' = audit sv r ''key.create'' (k_ID key) a db1 \<and>
     k_RevokedAt key = [] \<and> k_ExpiresAt key = [] \<and> \<not> isl (GetUser (k_UserID key) db)"
proof (cases "readJSON zero_key_payload body :: (APIKey \<times> string) reply + keyPayload")
  case (Inl bad)
  then show ?thesis using assms by (auto simp: handleCreateKey_def readJSON_def split: body.splits)
next
  case (Inr p)
  define u where "u = (if kp_UserID p = [] then identityUserID r else kp_UserID p)"
  show ?thesis
    using assms unfolding handleCreateKey_def Inr sum.case Let_def u_def [symmetric]
    by (auto simp: bad_key_request_def key_error_def store_failure_def split: if_splits option.splits prod.splits)
qed

lemma audit_get [simp]:
  "GetAPIKeyByPrefix p (audit sv r a t d db) = GetAPIKeyByPrefix p db" "GetUser i (audit sv r a t d db) = GetUser i db"
  by (simp_all add: GetAPIKeyByPrefix_def GetUser_def run_row_def)

text \<open>A key that was just handed out signs its owner in, as long as the owner is enabled.\<close>

lemma created_key_resolves:
  assumes "handleCreateKey sv r g body db = (Reply 201 (key, plaintext), db')" "good_keygen g"
    and "GetUser (k_UserID key) db = Inr u" "\<not> u_Disabled u" "a_Store a = sql_auth" "a_kdf a = kg_kdf g"
  shows "\<exists>kind. kind \<noteq> KindDeveloper \<and> resolveKey a plaintext now db' = (Inr (key_identity a kind key u),
     snd (UpdateAPIKey (key\<lparr>k_LastUsedAt := format_rfc3339nano now\<rparr>) db'))"
proof -
  obtain admin db1 d where k: "new_key g admin = Some (plaintext, k_Prefix key, k_Hash key)"
    "CreateAPIKey key db = (None, db1)" "db' = audit sv r ''key.create'' (k_ID key) d db1"
    "k_RevokedAt key = []" "k_ExpiresAt key = []"
    using handleCreateKey_reply [OF assms(1)] by blast
  obtain secret where p: "ParseKey plaintext = Some (if admin then KindAdmin else KindSearch, k_Prefix key, secret)"
    "VerifySecret (kg_kdf g) (k_Hash key) secret"
    using new_key_parses [OF assms(2) k(1)] by blast
  have "GetUser (k_UserID key) db1 = Inr u"
    using assms(3) CreateAPIKey_found(2,3) [OF k(2)] by (auto simp: GetUser_def run_row_def split: option.splits)
  then have "resolveKey a plaintext now db' = (Inr (key_identity a (if admin then KindAdmin else KindSearch) key u),
      snd (UpdateAPIKey (key\<lparr>k_LastUsedAt := format_rfc3339nano now\<rparr>) db'))"
    using p assms(4-6) k(4,5) CreateAPIKey_found(1) [OF k(2)]
    by (simp add: resolveKey_def k(3) sql_auth_def key_expired_def)
  then show ?thesis by (intro exI [of _ "if admin then KindAdmin else KindSearch"]) simp
qed

text \<open>Every token of a revoked key is refused.\<close>

lemma revoked_key_refused:
  assumes "accounts_ok db" "handleRevokeKey sv r i db = (Reply 200 (), db')" "rx_now r \<noteq> []"
    and "k \<in> set (t_keys db)" "k_ID k = i" "ParseKey token = Some (kind, k_Prefix k, secret)" "a_Store a = sql_auth"
  shows "fst (resolveKey a token now db') = Inl ErrInvalidKey"
proof -
  have dist: "distinct (map k_ID (t_keys db))" "distinct (map k_Prefix (t_keys db))"
    using assms(1) by (simp_all add: accounts_ok_def)
  obtain k0 ks db1 where f: "find (\<lambda>k. k_ID k = i) ks = Some k0" "ListAPIKeys [] db = Inr ks"
    "UpdateAPIKey (k0\<lparr>k_RevokedAt := rx_now r\<rparr>) db = (None, db1)" "db' = audit sv r ''key.revoke'' i [] db1"
    using assms(2) by (auto simp: handleRevokeKey_def store_failure_def split: sum.splits option.splits prod.splits)
  have "k0 \<in> set (t_keys db) \<and> k_ID k0 = i"
    using find_SomeD [OF f(1)] f(2) by (auto simp: ListAPIKeys_def run_query_def split: option.splits)
  then have "k0 = k" using unique_rowD [OF dist(1)] assms(4,5) by blast
  let ?f = "\<lambda>x. x\<lparr>k_Name := k_Name k, k_Scopes := k_Scopes k, k_ChainID := k_ChainID k, k_Permissions := k_Permissions k,
      k_LastUsedAt := k_LastUsedAt k, k_ExpiresAt := k_ExpiresAt k, k_RevokedAt := rx_now r\<rparr>"
  have u: "t_keys db1 = update_where (\<lambda>x. k_ID x = i) ?f (t_keys db)" "t_down db1 = None"
    using f(3) unfolding \<open>k0 = k\<close> UpdateAPIKey_def run_exec_None by (simp_all add: assms(5))
  have "find (\<lambda>x. k_Prefix x = k_Prefix k) (t_keys db1) = Some (?f k)"
    unfolding u(1) using find_unique [OF dist(2) assms(4)] assms(5) by (subst find_update_where) auto
  then have "as_GetAPIKeyByPrefix (a_Store a) (k_Prefix k) db' = Inr (?f k)"
    using u(2) by (simp add: f(4) assms(7) sql_auth_def GetAPIKeyByPrefix_def run_row_def)
  then show ?thesis using assms(3,6) by (simp add: resolveKey_def)
qed

text \<open>So is every token of a deleted account.\<close>

lemma deleted_user_refused:
  assumes "accounts_ok db" "handleDeleteUser sv r u db c = (Reply 200 (), db', c')"
    and "a_Store a = sql_auth" "resolveKey a token now db' = (Inr i, db'')"
  shows "\<exists>w. i_User i = Some w \<and> u_ID w \<noteq> u"
proof -
  obtain db1 where d: "DeleteUser u db = (None, db1)" "db' = audit sv r ''user.delete'' u [] db1"
    using assms(2) by (auto simp: handleDeleteUser_def store_failure_def split: option.splits prod.splits)
  obtain kind key user where "as_GetUser (a_Store a) (k_UserID key) db' = Inr user" "i = key_identity a kind key user"
    using resolveKey_sound [OF assms(4)] by blast
  then have k: "GetUser (k_UserID key) db' = Inr user" "i_User i = Some user"
    by (simp_all add: assms(3) sql_auth_def)
  then have "user \<in> set (t_users db1)" by (auto simp: d(2) GetUser_def dest: run_row_Inr)
  then have "u_ID user \<noteq> u" using DeleteUser_purges [OF d(1)] by auto
  then show ?thesis using k(2) by blast
qed

end
