(* ===== verification/Developer_Admin.thy ===== *)
theory Developer_Admin
  imports Users_Admin Admin_System
begin

text \<open>
  Sign-in (\<open>internal/httpd/handlers_auth.go\<close>) and developer tokens
  (\<open>internal/httpd/handlers_developer.go\<close>). The set of documented endpoints, parsed from the
  embedded specification (\<open>api.EndpointIDs\<close>), is an argument.
\<close>

subsection \<open>First run\<close>

record setup_status =
  ss_needs_setup :: bool
  ss_auth_enabled :: bool
  ss_notice_hidden :: bool
  ss_passkeys_enabled :: bool
  ss_rp_id :: string

definition handleSetupStatus :: "server \<Rightarrow> bool \<Rightarrow> string \<Rightarrow> database \<Rightarrow> setup_status reply" where
  "handleSetupStatus sv passkeys rp db =
     Reply 200 \<lparr>ss_needs_setup = (case CountAdmins db of Inl _ \<Rightarrow> True | Inr n \<Rightarrow> n = 0),
       ss_auth_enabled = sv_GetBool sv KeyAuthEnabled, ss_notice_hidden = sv_GetBool sv KeyHideAuthOffNotice,
       ss_passkeys_enabled = passkeys, ss_rp_id = rp\<rparr>"

text \<open>An empty server token closes setup.\<close>

definition validSetupToken :: "string \<Rightarrow> string \<Rightarrow> bool" where
  "validSetupToken setupToken token \<longleftrightarrow> setupToken \<noteq> [] \<and> TrimSpace token = TrimSpace setupToken"

definition setup_key :: "req \<Rightarrow> string \<Rightarrow> string \<Rightarrow> string \<Rightarrow> APIKey" where
  "setup_key r userID pre hash =
     \<lparr>k_ID = rx_ids r 1, k_UserID = userID, k_Name = ''admin key'', k_Prefix = pre, k_Hash = hash,
      k_Scopes = ''admin,search,read'', k_ChainID = [], k_Permissions = [], k_LastUsedAt = [], k_ExpiresAt = [],
      k_RevokedAt = [], k_CreatedAt = rx_now r\<rparr>"

text \<open>
  The body is the token and the name; the state is the database, the server's setup token and
  the settings storage, whose copy of the token is blanked.
\<close>

definition handleSetup ::
  "'s kv \<Rightarrow> req \<Rightarrow> keygen \<Rightarrow> (string \<times> string) body \<Rightarrow> database \<Rightarrow> string \<Rightarrow> 's
     \<Rightarrow> (User \<times> string) reply \<times> database \<times> string \<times> 's" where
  "handleSetup kv r g body db setupToken s =
     (case CountAdmins db of
        Inl e \<Rightarrow> (store_failure e, db, setupToken, s)
      | Inr admins \<Rightarrow>
          if 0 < admins then (Failure 409 ''already_setup'' ''setup has already been completed'', db, setupToken, s)
          else (case readJSON ([], []) body of
                  Inl bad \<Rightarrow> (bad, db, setupToken, s)
                | Inr (token, name0) \<Rightarrow>
                    if \<not> validSetupToken setupToken (TrimSpace token)
                    then (Failure 403 ''invalid_setup_token''
                            ''invalid setup token (copy it from the SETUP_TOKEN line in the server log)'', db, setupToken, s)
                    else
                      (let name = (if TrimSpace name0 = [] then ''admin'' else TrimSpace name0);
                           user = \<lparr>u_ID = rx_ids r 0, u_Name = name, u_Role = ''admin'', u_Disabled = False,
                                   u_CreatedAt = rx_now r\<rparr>
                       in case CreateUser user db of
                            (Some e, db1) \<Rightarrow>
                              (Failure 409 ''user_exists'' (''failed to create admin: '' @ error_text e), db1, setupToken, s)
                          | (None, db1) \<Rightarrow>
                              (case new_key g True of
                                 None \<Rightarrow> (key_error, db1, setupToken, s)
                               | Some (plaintext, pre, hash) \<Rightarrow>
                                   (case CreateAPIKey (setup_key r (u_ID user) pre hash) db1 of
                                      (Some e, db2) \<Rightarrow> (Failure 500 ''key_error'' (error_text e), db2, setupToken, s)
                                    | (None, db2) \<Rightarrow>
                                        (Reply 201 (user, plaintext), db2, [], snd (kv_Set kv KeySetupToken [] s)))))))"

subsection \<open>Sign-in and sign-out\<close>

text \<open>Random bytes for the session token and for the CSRF cookie, a fresh id, and the user agent.\<close>

record login_env =
  le_token :: "string option"
  le_csrf :: "string option"
  le_uuid :: string
  le_ua :: string

definition start_session ::
  "database authenticator \<Rightarrow> req \<Rightarrow> login_env \<Rightarrow> time \<Rightarrow> string \<Rightarrow> database \<Rightarrow> (unit reply + string) \<times> database" where
  "start_session a r le now userID db =
     (case CreateSession (a_Store a) (a_sha256 a) userID (ClientIP (Some (NewClientIPResolver [])) (rx_http r)) (le_ua le) (le_token le)
             (le_uuid le) now db of
        (Inl e, db') \<Rightarrow> (Inl (Failure 500 ''session_error'' (case e of AuthStore s \<Rightarrow> error_text s | _ \<Rightarrow> [])), db')
      | (Inr token, db') \<Rightarrow>
          if RandomToken (le_csrf le) = None then (Inl (Failure 500 ''session_error'' []), db') else (Inr token, db'))"

definition as_reply :: "unit reply \<Rightarrow> 'a reply" where
  "as_reply r = (case r of Reply n _ \<Rightarrow> Failure n [] [] | Failure n c m \<Rightarrow> Failure n c m)"

definition handleLogin ::
  "database authenticator \<Rightarrow> req \<Rightarrow> login_env \<Rightarrow> time \<Rightarrow> string body \<Rightarrow> database
     \<Rightarrow> (User \<times> string set \<times> string) reply \<times> database" where
  "handleLogin a r le now body db =
     (case readJSON [] body of
        Inl bad \<Rightarrow> (bad, db)
      | Inr key \<Rightarrow>
          if TrimSpace key = [] then (Failure 400 ''invalid_request'' ''key is required'', db)
          else (case LoginWithKey a key now db of
                  (Inl e, db1) \<Rightarrow> (Failure 401 ''invalid_key'' ''invalid API key'', db1)
                | (Inr i, db1) \<Rightarrow>
                    if \<not> HasScope (Some i) ''read''
                    then (Failure 403 ''insufficient_scope''
                            ''this API key cannot be used for browser sign-in (read scope required)'', db1)
                    else if IsDeveloper (Some i) \<and> \<not> AllowsAll (Some i)
                    then (Failure 403 ''restricted_token''
                            ''a restricted developer token cannot be used for browser sign-in'', db1)
                    else (case i_User i of
                            None \<Rightarrow> (Failure 500 [] [], db1)
                          | Some u \<Rightarrow>
                              (case start_session a r le now (u_ID u) db1 of
                                 (Inl bad, db2) \<Rightarrow> (as_reply bad, db2)
                               | (Inr token, db2) \<Rightarrow> (Reply 200 (u, i_Scopes i, token), db2)))))"

definition handleLogout :: "database authenticator \<Rightarrow> req \<Rightarrow> database \<Rightarrow> unit reply \<times> database" where
  "handleLogout a r db =
     (Reply 200 (),
      case hr_Cookie (rx_http r) SessionCookieName of
        None \<Rightarrow> db
      | Some v \<Rightarrow>
          if v = [] then db
          else (case GetSessionByTokenHash (HashToken (a_sha256 a) v) db of
                  Inl _ \<Rightarrow> db | Inr s \<Rightarrow> snd (DeleteSession (s_ID s) db)))"

record me_view =
  mv_via :: string
  mv_scopes :: "string set"
  mv_admin :: bool
  mv_developer :: bool
  mv_developer_mode :: bool
  mv_passkeys_enabled :: bool
  mv_user :: "User option"

definition handleMe :: "server \<Rightarrow> bool \<Rightarrow> req \<Rightarrow> me_view reply" where
  "handleMe sv passkeys r =
     (case rx_Identity r of
        None \<Rightarrow> Failure 401 ''unauthorized'' ''authentication required''
      | Some i \<Rightarrow>
          Reply 200 \<lparr>mv_via = i_Via i, mv_scopes = i_Scopes i, mv_admin = IsAdmin (Some i),
            mv_developer = IsDeveloper (Some i), mv_developer_mode = sv_GetBool sv KeyDeveloperMode,
            mv_passkeys_enabled = passkeys, mv_user = i_User i\<rparr>)"

subsection \<open>Permissions of developer tokens\<close>

definition developerScope :: string where "developerScope = ''developer''"

definition developerTokenScopes :: string where
  "developerTokenScopes = developerScope @ '',admin,search,read''"

definition isDeveloperKey :: "APIKey \<Rightarrow> bool" where
  "isDeveloperKey k \<longleftrightarrow> list_ex (\<lambda>s. TrimSpace s = developerScope) (Split (k_Scopes k) CHR '','')"

record developerToken =
  dt_ID :: string
  dt_Name :: string
  dt_Prefix :: string
  dt_CreatedAt :: string
  dt_LastUsedAt :: string
  dt_RevokedAt :: string
  dt_Permissions :: "string list"
  dt_AllEndpoints :: bool

definition developerTokenView :: "APIKey \<Rightarrow> developerToken" where
  "developerTokenView k =
     (let perms = ParsePermissions decode_strings (k_Permissions k); everything = IsFullAccess perms in
      \<lparr>dt_ID = k_ID k, dt_Name = k_Name k, dt_Prefix = k_Prefix k, dt_CreatedAt = k_CreatedAt k,
       dt_LastUsedAt = k_LastUsedAt k, dt_RevokedAt = k_RevokedAt k,
       dt_Permissions = (if everything then [] else perms), dt_AllEndpoints = everything\<rparr>)"

text \<open>The loop over the submitted ids; \<open>out\<close> is also the set of those seen.\<close>

fun permission_loop :: "(string \<Rightarrow> bool) \<Rightarrow> string list \<Rightarrow> string list \<Rightarrow> string list option" where
  "permission_loop valid [] out = Some out"
| "permission_loop valid (p0 # ps) out =
     (let p = TrimSpace p0 in
      if p = [] \<or> p \<in> set out then permission_loop valid ps out
      else if p = PermissionAll then Some [PermissionAll]
      else if \<not> valid p then None
      else permission_loop valid ps (out @ [p]))"

definition normalizePermissions :: "(string \<Rightarrow> bool) \<Rightarrow> string list option \<Rightarrow> string option" where
  "normalizePermissions valid perms =
     (case perms of
        None \<Rightarrow> Some (encode_strings [PermissionAll])
      | Some ps \<Rightarrow> map_option encode_strings (permission_loop valid ps []))"

subsection \<open>The token handlers\<close>

definition developerEnabled :: "server \<Rightarrow> bool" where
  "developerEnabled sv = sv_GetBool sv KeyDeveloperMode"

record developerStatus =
  ds_Enabled :: bool
  ds_EnvLocked :: bool
  ds_Tokens :: "developerToken list"

definition developerStatusPayload :: "server \<Rightarrow> Config \<Rightarrow> database \<Rightarrow> store_error + developerStatus" where
  "developerStatusPayload sv cfg db =
     (case ListAPIKeys [] db of
        Inl e \<Rightarrow> Inl e
      | Inr ks \<Rightarrow> Inr \<lparr>ds_Enabled = developerEnabled sv, ds_EnvLocked = IsEnv cfg KeyDeveloperMode,
                       ds_Tokens = map developerTokenView (filter isDeveloperKey ks)\<rparr>)"

definition handleDeveloperStatus :: "server \<Rightarrow> Config \<Rightarrow> database \<Rightarrow> developerStatus reply" where
  "handleDeveloperStatus sv cfg db =
     (case developerStatusPayload sv cfg db of Inl e \<Rightarrow> store_failure e | Inr st \<Rightarrow> Reply 200 st)"

text \<open>The settings manager and its storage are the state of the switch; \<open>sv'\<close> reads the new settings.\<close>

definition handleDeveloperMode ::
  "'s kv \<Rightarrow> server \<Rightarrow> (manager \<Rightarrow> 's \<Rightarrow> server) \<Rightarrow> req \<Rightarrow> bool option body \<Rightarrow> database \<Rightarrow> manager \<Rightarrow> 's
     \<Rightarrow> developerStatus reply \<times> database \<times> manager \<times> 's" where
  "handleDeveloperMode kv sv reread r body db m s =
     (case readJSON None body of
        Inl bad \<Rightarrow> (bad, db, m, s)
      | Inr None \<Rightarrow> (Failure 400 ''invalid_request'' ''enabled is required'', db, m, s)
      | Inr (Some enabled) \<Rightarrow>
          (let v = (if enabled then ''true'' else ''false'') in
           case mgr_Set kv KeyDeveloperMode v m s of
             (Some e, m', s') \<Rightarrow>
               (Failure 400 ''readonly_setting'' ''developer_mode is pinned by an environment variable and is read-only'',
                db, m', s')
           | (None, m', s') \<Rightarrow>
               (let db' = audit sv r ''developer.mode'' [] [(''enabled'', v)] db
                in (handleDeveloperStatus (reread m' s') (mn_cfg m') db', db', m', s'))))"

definition developerOwner :: "req \<Rightarrow> database \<Rightarrow> User option" where
  "developerOwner r db =
     (case Option.bind (rx_Identity r) i_User of
        Some u \<Rightarrow> Some u
      | None \<Rightarrow> (case ListUsers db of Inl _ \<Rightarrow> None | Inr us \<Rightarrow> find (\<lambda>u. u_Role u = ''admin'' \<and> \<not> u_Disabled u) us))"

definition minted_token :: "req \<Rightarrow> string \<Rightarrow> string \<Rightarrow> string \<Rightarrow> string \<Rightarrow> string \<Rightarrow> APIKey" where
  "minted_token r name userID permissions pre hash =
     \<lparr>k_ID = rx_ids r 0, k_UserID = userID,
      k_Name = (if TrimSpace name = [] then ''developer token'' else TrimSpace name),
      k_Prefix = pre, k_Hash = hash, k_Scopes = developerTokenScopes, k_ChainID = [], k_Permissions = permissions,
      k_LastUsedAt = [], k_ExpiresAt = [], k_RevokedAt = [], k_CreatedAt = rx_now r\<rparr>"

definition new_token :: "keygen \<Rightarrow> (string \<times> string \<times> string) option" where
  "new_token g = GenerateDeveloperKey (kg_kdf g) (kg_prefix g) (kg_secret g) (kg_salt g)"

definition handleCreateDeveloperToken ::
  "server \<Rightarrow> (string \<Rightarrow> bool) \<Rightarrow> req \<Rightarrow> keygen \<Rightarrow> (string \<times> string list option) body \<Rightarrow> database
     \<Rightarrow> (APIKey \<times> string) reply \<times> database" where
  "handleCreateDeveloperToken sv valid r g body db =
     (if \<not> developerEnabled sv
      then (Failure 403 ''developer_mode_disabled''
              ''developer mode is disabled; enable it before creating developer tokens'', db)
      else (case readJSON ([], None) body of
              Inl bad \<Rightarrow> (bad, db)
            | Inr (name, perms) \<Rightarrow>
                (case normalizePermissions valid perms of
                   None \<Rightarrow> (Failure 400 ''invalid_request'' ''permissions contain an unknown endpoint id'', db)
                 | Some permissions \<Rightarrow>
                     (case developerOwner r db of
                        None \<Rightarrow> (Failure 400 ''invalid_request''
                                  ''no administrator account is available to own the token'', db)
                      | Some owner \<Rightarrow>
                          (case new_token g of
                             None \<Rightarrow> (key_error, db)
                           | Some (plaintext, pre, hash) \<Rightarrow>
                               (let key = minted_token r name (u_ID owner) permissions pre hash in
                                case CreateAPIKey key db of
                                  (Some e, db') \<Rightarrow> (store_failure e, db')
                                | (None, db') \<Rightarrow>
                                    (Reply 201 (key, plaintext),
                                     audit sv r ''developer.token.create'' (k_ID key)
                                       [(''user_id'', k_UserID key), (''name'', k_Name key)] db')))))))"

definition token_not_found :: "'a reply" where
  "token_not_found = Failure 404 ''not_found'' ''developer token not found''"

text \<open>The stored developer token of an id.\<close>

definition developer_key :: "string \<Rightarrow> database \<Rightarrow> APIKey option" where
  "developer_key i db = (case GetAPIKey i db of Inl _ \<Rightarrow> None | Inr k \<Rightarrow> if isDeveloperKey k then Some k else None)"

definition handleUpdateDeveloperToken ::
  "server \<Rightarrow> (string \<Rightarrow> bool) \<Rightarrow> req \<Rightarrow> string \<Rightarrow> (string option \<times> string list option) body \<Rightarrow> database
     \<Rightarrow> developerToken reply \<times> database" where
  "handleUpdateDeveloperToken sv valid r i body db =
     (case developer_key i db of
        None \<Rightarrow> (token_not_found, db)
      | Some k0 \<Rightarrow>
          (case readJSON (None, None) body of
             Inl bad \<Rightarrow> (bad, db)
           | Inr (name, perms) \<Rightarrow>
               (case (if perms = None then Some (k_Permissions k0) else normalizePermissions valid perms) of
                  None \<Rightarrow> (Failure 400 ''invalid_request'' ''permissions contain an unknown endpoint id'', db)
                | Some permissions \<Rightarrow>
                    (let k = (rename_key name k0)\<lparr>k_Permissions := permissions\<rparr> in
                     case UpdateAPIKey k db of
                       (Some e, db') \<Rightarrow> (store_failure e, db')
                     | (None, db') \<Rightarrow>
                         (Reply 200 (developerTokenView k),
                          audit sv r ''developer.token.update'' i [(''name'', k_Name k)] db')))))"

text \<open>The answer of a deletion says whether the row is gone.\<close>

definition handleDeleteDeveloperToken :: "server \<Rightarrow> req \<Rightarrow> string \<Rightarrow> database \<Rightarrow> bool reply \<times> database" where
  "handleDeleteDeveloperToken sv r i db =
     (case developer_key i db of
        None \<Rightarrow> (token_not_found, db)
      | Some k \<Rightarrow>
          if EqualFold (TrimSpace (rx_query r ''purge'')) ''true'' then
            (case DeleteAPIKey i db of
               (Some e, db') \<Rightarrow> (store_failure e, db')
             | (None, db') \<Rightarrow> (Reply 200 True, audit sv r ''developer.token.delete'' i [] db'))
          else
            (case (if k_RevokedAt k = [] then UpdateAPIKey (k\<lparr>k_RevokedAt := rx_now r\<rparr>) db else (None, db)) of
               (Some e, db') \<Rightarrow> (store_failure e, db')
             | (None, db') \<Rightarrow> (Reply 200 False, audit sv r ''developer.token.revoke'' i [] db')))"

subsection \<open>What a permission list grants\<close>

lemma permission_loop_Some:
  assumes "permission_loop valid ps out = Some xs" "PermissionAll \<notin> set out" "distinct out"
  shows "if PermissionAll \<in> TrimSpace ` set ps then xs = [PermissionAll]
     else distinct xs \<and> set xs = set out \<union> (TrimSpace ` set ps - {[]}) \<and> (\<forall>x \<in> set xs - set out. valid x)"
  using assms
proof (induction valid ps out rule: permission_loop.induct)
  case (2 valid p0 ps out)
  define p where "p = TrimSpace p0"
  have ne: "PermissionAll \<noteq> []" by (simp add: PermissionAll_def)
  consider "p = [] \<or> p \<in> set out" | "p \<noteq> []" "p \<notin> set out" "p = PermissionAll"
    | "p \<noteq> []" "p \<notin> set out" "p \<noteq> PermissionAll" "valid p"
    using 2(3) by (auto simp: Let_def p_def split: if_splits)
  then show ?case
  proof cases
    case 1
    then have "permission_loop valid ps out = Some xs" using 2(3) by (simp add: Let_def p_def)
    from 2(1) [OF p_def 1 this 2(4,5)] show ?thesis
      using 1 2(4) ne unfolding p_def by (auto split: if_splits)
  next
    case 2
    then show ?thesis using \<open>permission_loop valid (p0 # ps) out = Some xs\<close> unfolding p_def
      by (simp add: Let_def)
  next
    case 3
    then have "permission_loop valid ps (out @ [p]) = Some xs" using 2(3) by (simp add: Let_def p_def)
    from 2(2) [OF p_def _ 3(3) _ this] 3 2(4,5)
    have "if PermissionAll \<in> TrimSpace ` set ps then xs = [PermissionAll]
     else distinct xs \<and> set xs = set (out @ [p]) \<union> (TrimSpace ` set ps - {[]}) \<and> (\<forall>x \<in> set xs - set (out @ [p]). valid x)"
      by simp
    then show ?thesis using 3 unfolding p_def by (auto split: if_splits)
  qed
qed simp

lemma TrimSpace_bracketed: "TrimSpace (CHR ''['' # s @ '']'') = CHR ''['' # s @ '']''"
  by (simp add: TrimSpace_def is_space_def)

lemma ParsePermissions_encode [simp]: "ParsePermissions decode_strings (encode_strings xs) = xs"
proof -
  have "TrimSpace (encode_strings xs) = encode_strings xs"
    unfolding encode_strings_def by (rule TrimSpace_bracketed)
  moreover have "encode_strings xs \<noteq> []" by (simp add: encode_strings_def)
  ultimately show ?thesis by (simp add: ParsePermissions_def decode_encode_strings del: append.simps)
qed

definition granted :: "string list option \<Rightarrow> string \<Rightarrow> bool" where
  "granted perms e \<longleftrightarrow> (case perms of None \<Rightarrow> True
     | Some ps \<Rightarrow> (let asked = TrimSpace ` set ps - {[]} in asked = {} \<or> PermissionAll \<in> asked \<or> e \<in> asked))"

text \<open>
  A token may call an endpoint exactly when its list names it, names the wildcard, or is empty:
  an empty list grants everything.
\<close>

lemma permissions_grant:
  assumes "normalizePermissions valid perms = Some s" "k_Permissions key = s" "a_Unmarshal a = decode_strings"
  shows "AllowsEndpoint (Some (key_identity a KindDeveloper key u)) e \<longleftrightarrow> granted perms e"
proof (cases perms)
  case None
  then show ?thesis
    using assms by (auto simp: normalizePermissions_def key_identity_def Let_def AllowsEndpoint_def AllowsAll_def
        IsFullAccess_def granted_def)
next
  case (Some ps)
  then obtain xs where xs: "permission_loop valid ps [] = Some xs" "s = encode_strings xs"
    using assms(1) by (auto simp: normalizePermissions_def)
  have ne: "PermissionAll \<noteq> []" by (simp add: PermissionAll_def)
  define asked where "asked = TrimSpace ` set ps - {[]}"
  have "i_Permissions (key_identity a KindDeveloper key u) = xs" "i_Developer (key_identity a KindDeveloper key u)"
    using xs(2) assms(2,3) by (simp_all add: key_identity_def Let_def)
  then have allows: "AllowsEndpoint (Some (key_identity a KindDeveloper key u)) e \<longleftrightarrow> xs = [] \<or> PermissionAll \<in> set xs \<or> e \<in> set xs"
    by (auto simp: AllowsEndpoint_def AllowsAll_def IsFullAccess_def list_ex_iff)
  have iff: "PermissionAll \<in> TrimSpace ` set ps \<longleftrightarrow> PermissionAll \<in> asked"
    using ne by (simp add: asked_def)
  have "PermissionAll \<in> asked \<Longrightarrow> xs = [PermissionAll]" "PermissionAll \<notin> asked \<Longrightarrow> set xs = asked"
    using permission_loop_Some [OF xs(1)] unfolding iff by (simp_all add: asked_def)
  then have "xs = [] \<or> PermissionAll \<in> set xs \<or> e \<in> set xs \<longleftrightarrow> asked = {} \<or> PermissionAll \<in> asked \<or> e \<in> asked"
    by (cases "PermissionAll \<in> asked") auto
  then show ?thesis using allows by (simp add: granted_def Some asked_def)
qed

lemma minted_token_simps [simp]:
  "k_Prefix (minted_token r n u ps pre hash) = pre" "k_Hash (minted_token r n u ps pre hash) = hash"
  "k_RevokedAt (minted_token r n u ps pre hash) = []" "k_ExpiresAt (minted_token r n u ps pre hash) = []"
  "k_Permissions (minted_token r n u ps pre hash) = ps"
  by (simp_all add: minted_token_def)

lemma handleCreateDeveloperToken_reply:
  assumes "handleCreateDeveloperToken sv valid r g (Decoded (name, perms)) db = (Reply 201 (key, plaintext), db')"
  obtains permissions pre hash db1 d where "normalizePermissions valid perms = Some permissions"
    "new_token g = Some (plaintext, pre, hash)" "CreateAPIKey key db = (None, db1)"
    "db' = audit sv r ''developer.token.create'' (k_ID key) d db1"
    "k_Prefix key = pre" "k_Hash key = hash" "k_RevokedAt key = []" "k_ExpiresAt key = []" "k_Permissions key = permissions"
proof (cases "developerEnabled sv")
  case True
  show ?thesis
  proof (cases "normalizePermissions valid perms"; cases "developerOwner r db"; cases "new_token g")
    fix ps owner t assume a: "normalizePermissions valid perms = Some ps" "developerOwner r db = Some owner" "new_token g = Some t"
    obtain plain pre hash where t: "t = (plain, pre, hash)" by (cases t)
    obtain e db1 where c: "CreateAPIKey (minted_token r name (u_ID owner) ps pre hash) db = (e, db1)" by fastforce
    show ?thesis
      using assms True a t c by (cases e) (auto simp: handleCreateDeveloperToken_def readJSON_def Let_def store_failure_def intro: that)
  qed (use assms True in \<open>simp_all add: handleCreateDeveloperToken_def readJSON_def key_error_def split: prod.splits\<close>)
qed (use assms in \<open>simp add: handleCreateDeveloperToken_def\<close>)

text \<open>A new token works while developer mode is on, for exactly what it was granted.\<close>

lemma created_token_resolves:
  assumes "handleCreateDeveloperToken sv valid r g (Decoded (name, perms)) db = (Reply 201 (key, plaintext), db')"
    and "good_keygen g" "GetUser (k_UserID key) db = Inr u" "\<not> u_Disabled u"
    and "a_Store a = sql_auth" "a_kdf a = kg_kdf g" "a_Unmarshal a = decode_strings"
  shows "if a_GetBool a KeyDeveloperMode
     then \<exists>i. fst (resolveKey a plaintext now db') = Inr i \<and> i_User i = Some u \<and> i_KeyID i = k_ID key \<and>
            (\<forall>e. AllowsEndpoint (Some i) e \<longleftrightarrow> granted perms e)
     else fst (resolveKey a plaintext now db') = Inl ErrInvalidKey"
proof -
  obtain permissions pre hash db1 d where k: "normalizePermissions valid perms = Some permissions"
    "new_token g = Some (plaintext, pre, hash)" "CreateAPIKey key db = (None, db1)"
    "db' = audit sv r ''developer.token.create'' (k_ID key) d db1"
    and f: "k_Prefix key = pre" "k_Hash key = hash" "k_RevokedAt key = []" "k_ExpiresAt key = []" "k_Permissions key = permissions"
    by (rule handleCreateDeveloperToken_reply [OF assms(1)])
  obtain b where p: "ParseKey plaintext = Some (KindDeveloper, pre, b)" "VerifySecret (kg_kdf g) hash b"
  proof -
    obtain a b s where r: "kg_prefix g = Some a" "kg_secret g = Some b" "kg_salt g = Some s" "a \<noteq> []" "b \<noteq> []"
      and len: "\<And>s t. length (kg_kdf g s t argonTime argonMemory argonThreads argonKeyLen) = argonKeyLen"
      using assms(2) by (auto simp: good_keygen_def)
    have gen: "generate (kg_kdf g) (prefix_of KindDeveloper) (Some a) (Some b) (Some s) = Some (plaintext, pre, hash)"
      using k(2) r by (simp add: new_token_def GenerateDeveloperKey_def prefix_of_def)
    show thesis
      using ParseKey_generate [OF gen r(4,5)] len
        VerifySecret_HashSecret [where kdf = "kg_kdf g" and salt = s and secret = "hex_encode b" and h = hash and guess = "hex_encode b"]
      by (intro that) auto
  qed
  show ?thesis
  proof (cases "a_GetBool a KeyDeveloperMode")
    case True
    have "GetUser (k_UserID key) db1 = Inr u"
      using assms(3) CreateAPIKey_found(2,3) [OF k(3)] by (auto simp: GetUser_def run_row_def split: option.splits)
    then have "fst (resolveKey a plaintext now db') = Inr (key_identity a KindDeveloper key u)"
      using True p assms(4-6) f CreateAPIKey_found(1) [OF k(3)]
      by (intro resolveKey_complete [OF p(1)]) (simp_all add: k(4) sql_auth_def key_expired_def)
    then show ?thesis using True permissions_grant [OF k(1) f(5) assms(7)] by simp
  next
    case False
    then show ?thesis using p(1) by (simp add: resolveKey_def)
  qed
qed

subsection \<open>Sign-in\<close>

lemma UpdateAPIKey_users [simp]: "t_users (snd (UpdateAPIKey k db)) = t_users db"
  by (simp add: UpdateAPIKey_def run_exec_def split: option.split)

text \<open>
  A key that signs in has the read scope and no restriction; the session it is given answers for
  its owner, with the owner's role, until the lifetime is over.
\<close>

lemma login_session:
  assumes "handleLogin a r le now body db = (Reply 200 (u, scopes, token), db')" "accounts_ok db" "a_Store a = sql_auth"
  obtains key i x where "resolveKey a key now db = (Inr i, snd (resolveKey a key now db))" "i_User i = Some u"
    "HasScope (Some i) ''read''" "AllowsAll (Some i)" "\<not> u_Disabled u"
    "accounts_ok db'" "t_down db' = None" "user_by_id db' (u_ID u) = Some u"
    "session_by_hash db' (HashToken (a_sha256 a) token) = Some x" "s_UserID x = u_ID u"
    "s_ExpiresAt x = format_rfc3339nano (now + SessionTTL)"
proof -
  obtain key where body: "readJSON [] body = (Inr key :: (User \<times> string set \<times> string) reply + string)" "TrimSpace key \<noteq> []"
    using assms(1) by (cases "readJSON [] body :: (User \<times> string set \<times> string) reply + string")
      (auto simp: handleLogin_def readJSON_def split: if_splits body.splits)
  obtain res db1 where k: "resolveKey a key now db = (res, db1)" by fastforce
  obtain i where i: "res = Inr i" "HasScope (Some i) ''read''" "AllowsAll (Some i)" "i_User i = Some u"
    and s: "start_session a r le now (u_ID u) db1 = (Inr token, db')"
    using assms(1) body k unfolding handleLogin_def LoginWithKey_def
    by (cases res) (auto simp: IsDeveloper_def AllowsAll_def as_reply_def split: if_splits option.splits prod.splits sum.splits reply.splits)
  obtain kind ak where ak: "GetUser (k_UserID ak) db = Inr u" "\<not> u_Disabled u"
    "db1 = snd (UpdateAPIKey (ak\<lparr>k_LastUsedAt := format_rfc3339nano now\<rparr>) db)"
    using resolveKey_sound [OF k [unfolded i(1)]] i(4) by (auto simp: assms(3) sql_auth_def)
  have ok1: "accounts_ok db1"
    using accounts_ok_exec [OF assms(2), of "Update_key (ak\<lparr>k_LastUsedAt := format_rfc3339nano now\<rparr>)"] ak(3) by simp
  have u1: "user_by_id db1 (u_ID u) = Some u"
    using ak(1) accounts_distinct(1) [OF assms(2)] find_unique [of u_ID "t_users db" u]
    by (auto simp: user_by_id_def ak(3) GetUser_def dest: run_row_Inr)
  have c: "CreateSession (a_Store a) (a_sha256 a) (u_ID u) (ClientIP (Some (NewClientIPResolver [])) (rx_http r)) (le_ua le)
      (le_token le) (le_uuid le) now db1 = (Inr token, db')"
    using s by (auto simp: start_session_def split: prod.splits sum.splits if_splits)
  obtain x where "accounts_ok db'" "t_down db' = None" "user_by_id db' = user_by_id db1"
    "session_by_hash db' (HashToken (a_sha256 a) token) = Some x" "s_UserID x = u_ID u"
    "s_ExpiresAt x = format_rfc3339nano (now + SessionTTL)"
    using sql_sessions.created_session [OF ok1 c [unfolded assms(3)]] by blast
  then show thesis
    using u1 i(2-4) ak(2) k i(1) by (intro that [of key i x]) simp_all
qed

text \<open>The key that was handed out to an enabled account signs it in.\<close>

lemma UpdateAPIKey_sessions [simp]:
  "t_sessions (snd (UpdateAPIKey k db)) = t_sessions db" "t_down (snd (UpdateAPIKey k db)) = t_down db"
  by (simp_all add: UpdateAPIKey_def run_exec_def split: option.split)

lemma created_key_login:
  assumes "handleCreateKey sv r g body db = (Reply 201 (key, plaintext), db')" "good_keygen g"
    and "GetUser (k_UserID key) db = Inr u" "\<not> u_Disabled u" "a_Store a = sql_auth" "a_kdf a = kg_kdf g"
    and "''read'' \<in> scopes_of (k_Scopes key)" "le_token le = Some t" "le_csrf le = Some c"
    and "\<not> has s_ID (le_uuid le) (t_sessions db)"
    and "\<not> has s_TokenHash (HashToken (a_sha256 a) (hex_encode t)) (t_sessions db)"
  shows "\<exists>scopes db''. handleLogin a r' le now (Decoded plaintext) db' = (Reply 200 (u, scopes, hex_encode t), db'')"
proof -
  obtain kind where kind: "kind \<noteq> KindDeveloper" and
    res: "resolveKey a plaintext now db' = (Inr (key_identity a kind key u),
      snd (UpdateAPIKey (key\<lparr>k_LastUsedAt := format_rfc3339nano now\<rparr>) db'))" (is "_ = (_, ?db1)")
    using created_key_resolves [OF assms(1-6)] by blast
  obtain db1 where c: "CreateAPIKey key db = (None, db1)" "t_sessions db' = t_sessions db1" "t_users db' = t_users db1"
    "t_down db' = t_down db1"
    using handleCreateKey_reply [OF assms(1)] by auto
  have tables: "t_sessions ?db1 = t_sessions db" "t_users ?db1 = t_users db" "t_down ?db1 = None"
    using c CreateAPIKey_found(2,3) [OF c(1)] by (auto simp: CreateAPIKey_def run_exec_None)
  have "u \<in> set (t_users db) \<and> u_ID u = k_UserID key" using assms(3) by (auto simp: GetUser_def dest: run_row_Inr)
  then have "u_ID u \<in> u_ID ` set (t_users db)" by blast
  then have "fst (start_session a r' le now (u_ID u) ?db1) = Inr (hex_encode t)"
    using assms(5,8-11) tables
    by (simp add: start_session_def CreateSession_def RandomToken_def sql_auth_def CreateSessionRow_def run_exec_def)
  then obtain db2 where "start_session a r' le now (u_ID u) ?db1 = (Inr (hex_encode t), db2)"
    by (cases "start_session a r' le now (u_ID u) ?db1") simp
  moreover have "TrimSpace plaintext \<noteq> []"
  proof
    assume "TrimSpace plaintext = []"
    then have "ParseKey plaintext = None" by (simp add: ParseKey_def key_prefix_defs)
    then show False using res by (simp add: resolveKey_def)
  qed
  moreover have "HasScope (Some (key_identity a kind key u)) ''read''" "\<not> IsDeveloper (Some (key_identity a kind key u))"
    using assms(7) kind by (simp_all add: HasScope_def IsDeveloper_def key_identity_def Let_def)
  ultimately show ?thesis
    using res by (simp add: handleLogin_def readJSON_def LoginWithKey_def)
qed

lemma login_then_browse:
  assumes "handleLogin a r le now body db = (Reply 200 (u, scopes, token), db')" "accounts_ok db" "a_Store a = sql_auth"
    and "token \<noteq> []" "printable (now + SessionTTL)" "t \<le> now + SessionTTL"
  shows "\<exists>i. fst (resolveSession a token t db') = Inr i \<and> i_User i = Some u \<and> \<not> i_Developer i \<and>
     (IsAdmin (Some i) \<longleftrightarrow> u_Role u = ''admin'')"
proof -
  obtain x where x: "accounts_ok db'" "t_down db' = None" "user_by_id db' (u_ID u) = Some u" "\<not> u_Disabled u"
    "session_by_hash db' (HashToken (a_sha256 a) token) = Some x" "s_UserID x = u_ID u"
    "s_ExpiresAt x = format_rfc3339nano (now + SessionTTL)"
    using login_session [OF assms(1-3)] by blast
  then obtain s' where "LookupSession sql_auth (a_sha256 a) token t t db' =
      (Inr (x\<lparr>s_ExpiresAt := format_rfc3339nano (t + SessionTTL)\<rparr>, u), s')"
    using sql_sessions.lookup_accepts [OF x(1,2) assms(4) x(5), of "now + SessionTTL" t u t] assms(5,6)
    by (auto simp: parse_format_rfc3339nano)
  then show ?thesis
    by (simp add: resolveSession_def assms(3) IsAdmin_def HasScope_def)
qed

subsection \<open>First run\<close>

text \<open>Setup answers once: without a token on the server it creates nothing.\<close>

lemma setup_closed:
  assumes "handleSetup kv r g body db [] s = (res, db', token', s')"
  shows "db' = db \<and> (\<forall>x. res \<noteq> Reply 201 x)"
  using assms
  by (auto simp: handleSetup_def validSetupToken_def store_failure_def readJSON_def split: sum.splits prod.splits if_splits body.splits)

lemma setup_done:
  assumes "handleSetup kv r g body db token s = (Reply 201 (u, plaintext), db', token', s')"
  shows "token' = []" "u_Role u = ''admin''" "validSetupToken token (TrimSpace (case body of Decoded (t, n) \<Rightarrow> t | _ \<Rightarrow> []))"
  using assms
  by (auto simp: handleSetup_def store_failure_def key_error_def readJSON_def Let_def
      split: sum.splits prod.splits if_splits body.splits option.splits)

text \<open>
  The account and its key are two statements: when the key fails, the account stays, and setup
  is refused from then on without anyone holding a key.
\<close>

lemma setup_lockout:
  assumes "t_down db = None" "CountAdmins db = Inr 0" "validSetupToken token (TrimSpace t)" "new_key g True = None"
    and "\<not> has u_ID (rx_ids r 0) (t_users db)" "\<not> has u_Name ''admin'' (t_users db)" "TrimSpace n = []"
  shows "\<exists>db'. handleSetup kv r g (Decoded (t, n)) db token s = (key_error, db', token, s) \<and> t_keys db' = t_keys db \<and>
     fst (handleSetup kv r' g' body' db' token s) = Failure 409 ''already_setup'' ''setup has already been completed''"
proof -
  let ?u = "\<lparr>u_ID = rx_ids r 0, u_Name = ''admin'', u_Role = ''admin'', u_Disabled = False, u_CreatedAt = rx_now r\<rparr>"
  let ?db = "db\<lparr>t_users := t_users db @ [?u]\<rparr>"
  have "CreateUser ?u db = (None, ?db)" using assms(1,5,6) by (simp add: CreateUser_def run_exec_def)
  then have "handleSetup kv r g (Decoded (t, n)) db token s = (key_error, ?db, token, s)"
    using assms(2,3,4,7) by (simp add: handleSetup_def readJSON_def Let_def)
  moreover have "\<exists>m. CountAdmins ?db = Inr m \<and> 0 < m"
    using assms(1) by (simp add: CountAdmins_def run_query_def count_where_def)
  ultimately show ?thesis by (auto simp: handleSetup_def)
qed

end
