(* ===== verification/Admin_Examples.thy ===== *)
theory Admin_Examples
  imports Developer_Admin
begin

text \<open>Concrete accounts, requests and keys for the witnesses of the properties.\<close>

definition demo_user :: User where
  "demo_user = \<lparr>u_ID = ''u1'', u_Name = ''ann'', u_Role = ''admin'', u_Disabled = False, u_CreatedAt = ''2024''\<rparr>"

definition demo_db :: database where
  "demo_db = empty_db\<lparr>t_users := [demo_user]\<rparr>"

definition demo_server :: server where
  "demo_server = \<lparr>sv_clientIP = None, sv_GetInt = (\<lambda>_. 0), sv_GetBool = (\<lambda>_. True), sv_order = id_order,
     sv_like = (\<lambda>a b. a = b)\<rparr>"

definition demo_http :: http_request where
  "demo_http = \<lparr>hr_Method = ''POST'', hr_Route = ''/api/search'', hr_Header = (\<lambda>_. []), hr_Cookie = Map.empty,
     hr_TLS = True, hr_RemoteAddr = ''10.0.0.1:4242''\<rparr>"

definition user_identity :: "User \<Rightarrow> Identity" where
  "user_identity u = \<lparr>i_User = Some u, i_Scopes = {''search'', ''read''}, i_Via = ''session'', i_KeyID = [],
     i_Developer = False, i_Permissions = [], i_ChainID = []\<rparr>"

definition demo_req :: req where
  "demo_req = \<lparr>rx_http = demo_http, rx_Identity = Some (user_identity demo_user), rx_query = (\<lambda>_. []),
     rx_ids = (\<lambda>n. ''id'' @ Itoa (int n)), rx_now = ''2024-01-01T00:00:00Z'', rx_audit_id = ''a1'',
     rx_audit_now = ''2024-01-01T00:00:00Z''\<rparr>"

text \<open>A derivation with the right output length.\<close>

definition demo_kdf :: idkey where
  "demo_kdf secret salt t m p len = take len (secret @ salt @ replicate len (CHR ''0''))"

definition demo_keygen :: keygen where
  "demo_keygen = \<lparr>kg_kdf = demo_kdf, kg_prefix = Some ''abc'', kg_secret = Some ''secretbytes!'', kg_salt = Some ''saltsaltsaltsalt''\<rparr>"

lemma demo_keygen_good: "good_keygen demo_keygen"
  by (auto simp: good_keygen_def demo_keygen_def demo_kdf_def argonKeyLen_def min_def)

definition demo_auth :: "bool \<Rightarrow> database authenticator" where
  "demo_auth dev = \<lparr>a_Store = sql_auth, a_GetBool = (\<lambda>_. dev), a_GetString = (\<lambda>_. []), a_kdf = demo_kdf,
     a_sha256 = (\<lambda>s. s), a_Unmarshal = decode_strings\<rparr>"

lemma demo_db_ok: "accounts_ok demo_db"
  by (simp add: accounts_ok_def demo_db_def empty_db_def demo_user_def)

lemma GetUser_demo: "GetUser ''u1'' demo_db = Inr demo_user"
  by (simp add: GetUser_def run_row_def demo_db_def empty_db_def demo_user_def)

text \<open>A key of the user, as the handler of new keys stores it.\<close>

definition demo_body :: "string \<Rightarrow> keyPayload body" where
  "demo_body scope = Decoded \<lparr>kp_UserID = ''u1'', kp_Name = ''cli'', kp_Scope = scope, kp_ChainID = []\<rparr>"

definition demo_created :: "string \<Rightarrow> (APIKey \<times> string) reply \<times> database" where
  "demo_created scope = handleCreateKey demo_server demo_req demo_keygen (demo_body scope) demo_db"

definition demo_token :: "string list option \<Rightarrow> (APIKey \<times> string) reply \<times> database" where
  "demo_token perms = handleCreateDeveloperToken demo_server (\<lambda>p. p = ''GET /api/chains'') demo_req demo_keygen
     (Decoded (''ci'', perms)) demo_db"

definition created_key :: "(APIKey \<times> string) reply \<times> database \<Rightarrow> APIKey" where
  "created_key p = (case fst p of Reply _ (k, _) \<Rightarrow> k | Failure _ _ _ \<Rightarrow> setup_key demo_req [] [] [])"

definition created_plain :: "(APIKey \<times> string) reply \<times> database \<Rightarrow> string" where
  "created_plain p = (case fst p of Reply _ (_, s) \<Rightarrow> s | Failure _ _ _ \<Rightarrow> [])"

definition is_created :: "(APIKey \<times> string) reply \<times> database \<Rightarrow> bool" where
  "is_created p \<longleftrightarrow> (case fst p of Reply n _ \<Rightarrow> n = 201 | Failure _ _ _ \<Rightarrow> False)"

lemma is_createdD: "is_created p \<Longrightarrow> p = (Reply 201 (created_key p, created_plain p), snd p)"
  by (cases p; cases "fst p") (auto simp: is_created_def created_key_def created_plain_def split: reply.splits prod.splits)

lemma demo_created_ok: "is_created (demo_created ''admin'')" "k_UserID (created_key (demo_created ''admin'')) = ''u1''"
  "created_plain (demo_created ''admin'') = ''seek_admin_616263_736563726574627974657321''"
  by code_simp+

lemma demo_token_ok: "is_created (demo_token (Some [''GET /api/chains'']))"
  "k_UserID (created_key (demo_token (Some [''GET /api/chains'']))) = ''u1''"
  by code_simp+

text \<open>A database that holds an active chain, reached through the handlers.\<close>

definition chain_db1 :: database where
  "chain_db1 = snd (handleCreateChain demo_server demo_req (Decoded demo_chain) empty_db)"

definition chain_db2 :: database where
  "chain_db2 = snd (handleActivateChain demo_server demo_req ''id0'' chain_db1)"

lemma chain_db_reachable: "reachable_db demo_server chain_db1" "reachable_db demo_server chain_db2"
proof -
  have "fresh_id demo_req empty_db" by (simp add: fresh_id_def empty_db_def)
  then have "admin_step demo_server empty_db chain_db1"
    unfolding chain_db1_def by (rule admin_step.create_step)
  then show 1: "reachable_db demo_server chain_db1" by (rule r_into_rtranclp)
  have "admin_step demo_server chain_db1 chain_db2" unfolding chain_db2_def by (rule admin_step.activate_step)
  then show "reachable_db demo_server chain_db2" using 1 by simp
qed

lemma chain_db_facts: "map cr_ID (actives chain_db2) = [''id0'']" "t_down chain_db2 = None"
  by code_simp+

definition demo_encoders :: encoders where
  "demo_encoders = \<lparr>js_Chain = (\<lambda>_. ''{}''), js_Results = (\<lambda>_. ''[]'')\<rparr>"

definition demo_sql_store :: engine_store where
  "demo_sql_store = sql_engine_store None (\<lambda>_. []) demo_encoders chain_db2"

lemma chain_db_ok: "system_ok chain_db2"
  by (rule system_ok_reachable [OF chain_db_reachable(2)]) (simp add: demo_server_def id_order_iteration)

lemma demo_search_prepared: "\<exists>env st. prepare demo_engine demo_sql_store demo_input idle_state = Inr (env, st)"
proof -
  have "\<not> isl (GetActiveChain chain_db2)" by code_simp
  then obtain c where "GetActiveChain chain_db2 = Inr c" by (cases "GetActiveChain chain_db2") auto
  then have c: "resolveChain demo_sql_store (in_ChainID demo_input) = Inr c"
    by (simp add: resolveChain_def demo_input_def demo_sql_store_def sql_engine_store_def)
  then have "valid_chain c"
    using resolved_valid [of chain_db2] chain_db_ok by (auto simp: demo_sql_store_def system_ok_def)
  then obtain p where p: "BuildPlan (Some c) = Inr p" using valid_chain_BuildPlan by metis
  have q: "TrimSpace (in_Query demo_input) \<noteq> []" by code_simp
  have t: "t_down chain_db2 = None" "t_providers chain_db2 = []" "t_proxies chain_db2 = []" "t_requests chain_db2 = []"
    by code_simp+
  then have "sto_providers demo_sql_store = Inr []" "sto_proxies demo_sql_store = Inr []"
    by (simp_all add: demo_sql_store_def sql_engine_store_def ListProviders_def ListProxies_def run_query_def order_by_def)
  moreover have "sto_create demo_sql_store r = None" for r
    using t by (simp add: demo_sql_store_def sql_engine_store_def CreateRequest_def run_exec_def)
  ultimately show ?thesis using c p q by (simp add: prepare_def Let_def)
qed

text \<open>A quota of one search a month, and two requests of its user.\<close>

definition demo_quota :: UserQuota where
  "demo_quota = \<lparr>uq_UserID = ''u1'', uq_Requests = 1, uq_Period = ''monthly'', uq_WindowHours = 24, uq_TzOffset = 60, uq_UpdatedAt = []\<rparr>"

definition demo_guard :: guard_state where
  "demo_guard = \<lparr>gs_cache = newQuotaCache, gs_limiter = NewRateLimiter 0 0 0, gs_db = demo_db\<lparr>t_quotas := [demo_quota]\<rparr>,
     gs_metrics = None, gs_events = []\<rparr>"

definition demo_clocks :: "time \<Rightarrow> clocks" where
  "demo_clocks t = \<lparr>ck_cache = t, ck_put = t, ck_limit = t, ck_user = t, ck_until = t, ck_day = t, ck_left = t, ck_next = t\<rparr>"

lemma demo_guard_ok: "t_down (gs_db demo_guard) = None" "cache_coherent (gs_db demo_guard) (gs_cache demo_guard)"
  "quota_in_force (gs_db demo_guard) ''u1'' = Some demo_quota"
  by (simp_all add: demo_guard_def demo_db_def empty_db_def cache_coherent_def newQuotaCache_def quota_in_force_def
      GetUserQuota_def run_row_def demo_quota_def)

lemma demo_quota_reset: "quotaResetAt demo_quota 0 = Some (31 * ns_per_day - 60 * ns_per_min)"
  by code_simp

lemma demo_printable: "printable (period_start demo_quota 0)" "printable (period_start demo_quota (31 * ns_per_day - 60 * ns_per_min))"
  by code_simp+

definition demo_login_env :: login_env where
  "demo_login_env = \<lparr>le_token = Some ''tok'', le_csrf = Some ''csrf'', le_uuid = ''s1'', le_ua = ''ua''\<rparr>"

definition demo_login :: "(User \<times> string set \<times> string) reply \<times> database" where
  "demo_login = handleLogin (demo_auth True) demo_req demo_login_env 0
     (Decoded (created_plain (demo_created ''admin''))) (snd (demo_created ''admin''))"

lemma demo_admin_key: "handleCreateKey demo_server demo_req demo_keygen (demo_body ''admin'') demo_db =
    (Reply 201 (created_key (demo_created ''admin''), created_plain (demo_created ''admin'')), snd (demo_created ''admin''))"
  using is_createdD [OF demo_created_ok(1)] unfolding demo_created_def [symmetric] .

lemma demo_admin_key_ok: "accounts_ok (snd (demo_created ''admin''))" "''read'' \<in> scopes_of (k_Scopes (created_key (demo_created ''admin'')))"
  by code_simp+

lemma demo_created_tables:
  "t_keys (snd (demo_created ''admin'')) = [created_key (demo_created ''admin'')]"
  "t_users (snd (demo_created ''admin'')) = [demo_user]" "t_down (snd (demo_created ''admin'')) = None"
  using handleCreateKey_reply [OF demo_admin_key] by (auto simp: CreateAPIKey_def run_exec_None demo_db_def empty_db_def)

lemma demo_key_facts: "k_ID (created_key (demo_created ''admin'')) = ''id0''" "k_Prefix (created_key (demo_created ''admin'')) = ''616263''"
  "k_ChainID (created_key (demo_created ''admin'')) = []"
  by code_simp+

text \<open>Whether a token resolves depends on the keys and accounts alone.\<close>

lemma resolveKey_reads:
  assumes "\<And>p. as_GetAPIKeyByPrefix (a_Store a) p s = as_GetAPIKeyByPrefix (a_Store a) p s'"
    and "\<And>i. as_GetUser (a_Store a) i s = as_GetUser (a_Store a) i s'"
  shows "fst (resolveKey a token now s) = fst (resolveKey a token now s')"
  by (auto simp: resolveKey_def assms split: option.split prod.split sum.split)

text \<open>A cipher that opens what it sealed, and an environment with one variable.\<close>

definition demo_aead :: aead where
  "demo_aead = \<lparr>ae_NonceSize = 1, ae_Seal = (\<lambda>n p. n @ rev p), ae_Open = (\<lambda>n c. Some (rev (drop 1 c)))\<rparr>"

lemma demo_aead_ok: "aead_ok demo_aead"
  by (auto simp: aead_ok_def demo_aead_def length_Suc_conv)

definition demo_environment :: environment where
  "demo_environment = \<lparr>ev_lookup = [''SEARCH_DAILY_QUOTA'' \<mapsto> '' 3''], ev_join = (\<lambda>a b. a @ ''/'' @ b), ev_abs = Some\<rparr>"

lemma demo_environment_loads: "\<exists>cfg. Load demo_environment = Inr cfg"
proof -
  have "cf_StorageDriver (read_config demo_environment) = ''sqlite''" by code_simp
  then show ?thesis by (simp add: Load_def Let_def)
qed

end
