(* ===== verification/Provider_Examples.thy ===== *)
theory Provider_Examples
  imports Provider_Safety Driver_Examples Admin_Examples
begin

text \<open>Concrete instances and proxies for the witness of the provider tables.\<close>

definition demo_registry :: registry where
  "demo_registry = Register (dedicated_impl ''searxng'' schema_searxng searxng_Search) []"

definition demo_ops :: "provider_op list" where
  "demo_ops =
     [Create_proxy None demo_req (Decoded (zero_proxy_payload\<lparr>yp_Name := ''p'', yp_Host := ''h'', yp_Port := ''80''\<rparr>)),
      Create_provider None demo_req
        (Decoded (zero_provider_payload\<lparr>pp_Code := ''searxng'', pp_BaseURL := Some ''http://s.example'', pp_ProxyID := Some ''id0''\<rparr>)),
      Delete_proxy_op demo_req ''id0'']"

lemma demo_ops_draw: "list_all draws_id demo_ops"
  by (simp add: demo_ops_def demo_req_def)

lemma demo_ops_run:
  "map (\<lambda>r. (pr_Name r, pr_ProxyID r)) (t_providers (fold (run_op demo_registry None demo_server) (take 2 demo_ops) empty_db)) = [(''searxng'', ''id0'')]"
  by code_simp

end
