(* ===== verification/Spec2Isabelle.thy ===== *)
theory Spec2Isabelle
  imports Provider_Examples
begin

text \<open>
  A model of serpent-seek, a search aggregator in Go. A search request runs a \<^emph>\<open>chain\<close>: a graph of
  provider blocks that an administrator edits, validates and activates. The engine walks the chain,
  calls the providers with retries, circuit breaking and an attempt budget, merges what they return
  and stores the request with its steps. Around it are the storage layer, the settings,
  authentication with keys, sessions and developer tokens, rate limits and quotas, and the HTTP
  handlers. Definitions carry the names of the functions they translate.

  \<^bold>\<open>Conventions.\<close> Structs are records, tagged values datatypes, errors values of a sum or an option. Go's
  unbounded-looking integers are \<open>int\<close>; durations and clock arithmetic that can overflow are
  \<open>64 word\<close>, and products of 64-bit integers wrap where the code does not guard them. Strings are
  lists of bytes. Clock readings, random bytes, fresh identifiers, the order in which Go ranges
  over a map, and the scheduling of goroutines are arguments, so every theorem holds for all of
  them. Third-party code is an argument too: argon2, SHA-256, the AEAD cipher, RSA signatures, the
  services behind the drivers, \<open>LIKE\<close> and the encoding of stored snapshots.

  \<^bold>\<open>Engine\<close> (\<open>internal/engine\<close>). \<open>Plan\<close>: \<open>plan.go\<close>, the plan of a chain and its transitions. \<open>Graph\<close> and
  \<open>Validate\<close>: \<open>validate.go\<close>; the verdict is the order-free predicate \<open>valid_chain\<close>, the cycle search is
  exact. \<open>Dedupe\<close>: \<open>dedupe.go\<close>; the merger refines a list-based deduplication. \<open>Cooldown\<close>: the circuit
  breaker. \<open>Walk_State\<close>: the attempt counter, dead instances and the concurrency limiter.
  \<open>Engine_State\<close>: delays, settings and events. \<open>Exec_Node\<close>: the attempt loop of one block as a step
  function with \<open>exec_steps\<close> as its closure; it ends because \<open>exec_step_rank\<close> decreases. \<open>First_Success\<close> and
  \<open>Full_Chain\<close>: the walkers of the two modes; a wave of parallel branches is a sequence of atomic
  steps chosen by a schedule. \<open>Engine\<close>: \<open>prepare\<close>, \<open>run\<close>, \<open>Execute\<close>. \<open>Exec_Facts\<close> and
  \<open>Full_Chain_Facts\<close> hold their invariants. A walk along edges may loop on a chain that was
  never validated; it is a \<open>partial_function (option)\<close>, and for validated chains it is shown to
  return.

  \<^bold>\<open>Provider drivers\<close> (\<open>internal/providers\<close>). The engine sees a driver as its argument \<open>env_search\<close>; the drivers
  are modelled beside it. \<open>Go_Url\<close> and \<open>Json_Values\<close>: the parts of \<open>net/url\<close> and \<open>encoding/json\<close> they use;
  numbers are rationals, rounded where Go rounds. \<open>Provider_Rows\<close>: \<open>rows.go\<close> and \<open>params.go\<close>. \<open>Driver_Http\<close>: the
  client, requests and answers; every request goes to the argument \<open>de_answer\<close> and is recorded in
  the \<open>world\<close> with the cached tokens of \<open>Token_Source\<close>. \<open>Rest_Driver\<close>: the generic driver of \<open>rest.go\<close>;
  \<open>Rest_Extract\<close> and \<open>Rest_Catalog\<close>: its 27 specifications with their closures. \<open>Serp_Drivers\<close>, \<open>Answer_Drivers\<close>,
  \<open>Driver_Schemas\<close>: the dedicated drivers and their forms. \<open>Rest_Facts\<close>, \<open>Rest_Outcomes\<close>, \<open>Url_Facts\<close>, \<open>Driver_Facts\<close>: what
  they have in common, \<open>Driver_Examples\<close> the data of the witnesses. \<open>Registry\<close>: \<open>NewRegistry\<close>, the table of all of them.
  A panic is the result \<open>None\<close>.

  \<^bold>\<open>Storage\<close> (\<open>internal/store\<close>). \<open>Database\<close>: one list of rows per table; a statement runs atomically, does
  nothing when the database is down, and fails when a constraint is violated. \<open>Accounts\<close>, \<open>Sql_Chains\<close>,
  \<open>Sql_History\<close>, \<open>Sql_Providers\<close>: the statements of \<open>sqlstore.go\<close>, each with an invariant over its tables
  that every statement keeps. \<open>Json\<close>: the parser and printer the stored maps and lists go through, with
  fuel of twice the input length, shown to be enough. \<open>Base64\<close>, \<open>Crypt\<close>: encryption at rest and
  cursors. Locales: \<open>keyset\<close> (cursor pagination, for requests and logs), \<open>session_store\<close> and
  \<open>key_store\<close> (what authentication asks of the storage), \<open>kv_store\<close> (what the settings ask of it),
  each interpreted on the model's own tables.

  \<^bold>\<open>Configuration, logging, metrics.\<close> \<open>Config\<close>: \<open>config.go\<close>, the variables, the settings manager and its table.
  \<open>Logging\<close>: the redactor, levels and the buffered sink. \<open>Metrics\<close>: counters and their rendering.

  \<^bold>\<open>Authentication\<close> (\<open>internal/auth\<close>). \<open>Auth_Keys\<close>, \<open>Sessions\<close>, \<open>Middleware\<close>, \<open>Client_IP\<close>, \<open>Rate_Limiter\<close>: keys and their
  hashes, rolling sessions, identity resolution and guards, the client address behind proxies,
  and the sliding-window limiter, which refines a specification over the list of admissions.
  \<open>Go_Time\<close> holds the calendar and the formats they store times in.

  \<^bold>\<open>HTTP\<close> (\<open>internal/httpd\<close>). \<open>Http_Core\<close>: replies, bodies, pagination, audit, history and logs. \<open>Chain_Admin\<close>: the chain
  handlers. \<open>Admin_System\<close>: the database under all of them as one step relation; the locale
  \<open>preserved\<close> lifts an invariant of the statements to the handlers. \<open>Quotas\<close>: the calendar of quotas,
  their cache and the search guard. \<open>Users_Admin\<close>: users, quotas, keys and passkeys. \<open>Developer_Admin\<close>: setup,
  sign-in and developer tokens. \<open>Provider_Admin\<close>: instances and proxies; \<open>Provider_Integrity\<close> and
  \<open>Provider_Safety\<close> hold the invariant their handlers keep. \<open>Admin_Examples\<close>, \<open>Provider_Examples\<close> and \<open>Examples\<close> hold the data of the witnesses.

  \<^bold>\<open>What the properties show.\<close> Searches on validated chains return within budget; only validated chains can
  be stored, so every search over a reachable database returns; deduplication, ordering of the
  parallel walk, the breaker, limits and quotas do what their specifications say; credentials do
  not reach the history; keys, tokens and sessions grant what they were given and nothing after
  they are revoked, expire, or their account is deleted; stored data is read back. Drivers send what they
  were asked, in any order of the parameters, at a bounded number of requests; a success comes from
  an answer in 2xx, and an instance is given up only for the causes configured.

  \<^bold>\<open>Not modelled.\<close> Connections, proxies and redirects below a driver's request; the two drivers that read XML
  (\<open>pubmed.go\<close>, the web search of \<open>yandex.go\<close>); the WebAuthn ceremony; event streams,
  background jobs and update checks; the analytics queries, migrations and connection pool; the
  routing table and embedded assets; log texts. Statements of concurrent requests interleave in
  the code between any two calls of the storage; the handlers here run one at a time, except where
  a lemma says otherwise (\<open>quota_check_race\<close>, \<open>edit_undoes_activation\<close>).
\<close>

text \<open>
  C1: A search whose chain passes \<open>ValidateChain\<close> always completes, in every mode and
  for every interleaving of its branches; it calls providers at most \<open>MAX_ATTEMPTS\<close> times and
  returns at most the requested number of rows when one is requested.
\<close>

theorem valid_search_returns:
  assumes "fresh st" and "resolveChain sto (in_ChainID inp) = Inr c"
    and "iteration_order ord" and "v_OK (ValidateChain ord (Some c) known mx)"
    and "prepare eng sto inp st = Inr (env, st1)"
  shows "\<exists>out st2. engine_run env sched st1 = Some (out, st2)
     \<and> int (length (rs_invoked st2)) \<le> run_maxAttempts (env_settings env)
     \<and> (0 < env_Count env \<longrightarrow> int (length (o_Rows out)) \<le> env_Count env)"
proof -
  have "valid_chain c" using ValidateChain_OK [OF assms(3)] assms(4) by blast
  moreover have "max 0 (run_maxAttempts (env_settings env)) = run_maxAttempts (env_settings env)"
    by (simp add: run_maxAttempts_def)
  ultimately show ?thesis
    using Execute_valid [OF assms(1,2) _ assms(5), of sched] by (force simp: run_ok_def)
qed

lemma valid_search_returns_witness:
  "\<exists>env st1 out st2. prepare demo_engine demo_store demo_input idle_state = Inr (env, st1) \<and>
     engine_run env (\<lambda>_ _. 0) st1 = Some (out, st2)"
proof -
  obtain env st1 where p: "prepare demo_engine demo_store demo_input idle_state = Inr (env, st1)"
    using demo_prepare_ok by blast
  then show ?thesis
    using valid_search_returns [OF idle_fresh demo_resolve id_order_iteration demo_chain_verdict p, of "\<lambda>_ _. 0"]
    by blast
qed

text \<open>
  C2: The verdict of \<open>ValidateChain\<close> is the order-free predicate \<open>valid_chain\<close>: distinct
  usable keys, admissible fields, edges between known blocks, a unique entry from which every
  block is reachable, and no cycle. It does not depend on the order in which maps are ranged
  over, on the known providers, or on the attempt budget.
\<close>

theorem validation_verdict:
  assumes "iteration_order ord"
  shows "v_OK (ValidateChain ord (Some c) known mx) \<longleftrightarrow> valid_chain c"
  using assms by (rule ValidateChain_OK)

lemma validation_verdict_witness:
  "valid_chain fan_chain \<and> \<not> valid_chain (mk_chain ''full_chain'' [provider_node ''a'' ''p1''] [])"
proof -
  have "v_OK (ValidateChain id_order (Some fan_chain) None None)" by code_simp
  moreover have "\<not> v_OK (ValidateChain id_order (Some (mk_chain ''full_chain'' [provider_node ''a'' ''p1''] [])) None None)"
    by code_simp
  ultimately show ?thesis using validation_verdict [OF id_order_iteration] by blast
qed

text \<open>
  C3: \<open>findCycle\<close> is exact: it reports nothing iff the edges among the known blocks are
  acyclic, and a reported path is a closed walk along edges, whatever the order of the map.
\<close>

theorem cycle_search_exact:
  "(findCycle ord es = None \<longleftrightarrow> acyclic (edges_in ord (edge_pairs (\<lambda>_. True) es))) \<and>
   (\<forall>cyc. findCycle ord es = Some cyc \<longrightarrow> is_cycle ord (edge_pairs (\<lambda>_. True) es) cyc)"
  using findCycle_None_iff findCycle_Some by blast

lemma cycle_search_exact_witness:
  "is_cycle [''a'', ''b''] (edge_pairs (\<lambda>_. True) [mk_edge ''a'' ''b'' [], mk_edge ''b'' ''a'' []]) [''a'', ''b'', ''a'']"
proof -
  have "findCycle [''a'', ''b''] [mk_edge ''a'' ''b'' [], mk_edge ''b'' ''a'' []] = Some [''a'', ''b'', ''a'']"
    by code_simp
  then show ?thesis using cycle_search_exact by blast
qed



text \<open>
  C5: Feeding the merger any sequence of blocks yields the specified deduplication of all the
  rows fed: one row per normalized link, in order of first appearance, the first occurrence's
  data, and as sources the contributing providers in order; the counter counts every row.
\<close>

theorem merge_is_deduplication:
  "m_rows (merge_all nk newMerger bs) = merge_spec nk (contributions bs) \<and>
   m_collected (merge_all nk newMerger bs) = length (contributions bs) \<and>
   distinct (map (\<lambda>r. nk (row_Link r)) (m_rows (merge_all nk newMerger bs))) \<and>
   collectedTotal (merge_all nk newMerger bs)
     = uniqueCount (merge_all nk newMerger bs) + duplicatesRemoved (merge_all nk newMerger bs)"
  using merge_spec_length [of nk "contributions bs"]
  by (simp add: merge_all_spec merge_spec_keys collectedTotal_def uniqueCount_def duplicatesRemoved_def)

text \<open>
  C6: The rows a full-chain run returns are a prefix, cut at the requested count, of the
  deduplication of the rows of its successful blocks taken in plan order: given the results of
  the blocks, the order in which branches finished does not matter.
\<close>

theorem full_chain_rows:
  assumes "fc_loop env sched (fc_init (env_plan env)) (st\<lparr>rs_ws := newWalkState mx\<rparr>) = (s, st1)"
  defines "all \<equiv> merge_spec (env_link env) (contributions (block_rows env s))"
  shows "o_Rows (fst (runFullChain env sched mx st)) =
     (if env_Count env > 0 then take (nat (env_Count env)) all else all)"
proof -
  have "m_rows (mg_merged (fst (merge_all_blocks env s st1))) = all"
    by (simp add: merge_all_blocks_merged merge_all_spec all_def)
  then show ?thesis
    by (simp add: runFullChain_def assms(1) split_beta full_finish_rows rowsUpTo_def)
qed

lemma full_chain_rows_witness:
  "\<exists>p s st1. fc_loop (demo_env p) (\<lambda>_ _. 0) (fc_init p) (idle_state\<lparr>rs_ws := newWalkState 10\<rparr>) = (s, st1) \<and>
     length (o_Rows (fst (runFullChain (demo_env p) (\<lambda>_ _. 0) 10 idle_state)))
       \<le> length (merge_spec (env_link (demo_env p)) (contributions (block_rows (demo_env p) s)))"
proof -
  obtain p where p: "BuildPlan (Some fan_chain) = Inr p" using valid_chain_BuildPlan [OF fan_chain_valid] by metis
  obtain s st1 where l: "fc_loop (demo_env p) (\<lambda>_ _. 0) (fc_init (env_plan (demo_env p)))
      (idle_state\<lparr>rs_ws := newWalkState 10\<rparr>) = (s, st1)"
    by fastforce
  show ?thesis using full_chain_rows [OF l] l by (intro exI [of _ p] exI [of _ s] exI [of _ st1]) simp
qed

text \<open>
  C7: In first-success mode, a call that failed permanently is the last call of that
  provider instance in the request; and the persisted steps are numbered in walk order.
\<close>

theorem no_call_after_permanent_failure:
  assumes "fresh st" and "runFirstSuccess env mx logicalNew st = Some (out, st')"
    and "i < j" "j < length (rs_invoked st')"
    and "r_Permanent (iv_Result (rs_invoked st' ! i))" "\<not> r_OK (iv_Result (rs_invoked st' ! i))"
  shows "iv_Provider (rs_invoked st' ! j) \<noteq> iv_Provider (rs_invoked st' ! i)
     \<and> sorted (map st_Idx (rs_steps st'))"
proof -
  have "calls_ok (rs_invoked st')" "sorted (map st_Idx (rs_steps st'))"
    using runFirstSuccess_ok [OF assms(1,2)] by simp_all
  moreover from this(1) have "iv_Provider (rs_invoked st' ! i) = iv_Provider (rs_invoked st' ! j)
      \<longrightarrow> \<not> fatal (iv_Result (rs_invoked st' ! i))"
    using assms(3,4) unfolding calls_ok_def by (rule sorted_wrt_nth_less)
  ultimately show ?thesis using assms(5,6) by (auto simp: fatal_def)
qed

lemma no_call_after_permanent_failure_witness:
  "\<exists>out st'. runFirstSuccess (dead_env dead_plan) 10 True idle_state = Some (out, st')
     \<and> length (rs_invoked st') = 2
     \<and> iv_Provider (rs_invoked st' ! 1) \<noteq> iv_Provider (rs_invoked st' ! 0)"
proof -
  obtain out st' where r: "runFirstSuccess (dead_env dead_plan) 10 True idle_state = Some (out, st')"
    "map (\<lambda>v. (r_Permanent (iv_Result v), r_OK (iv_Result v))) (rs_invoked st') = [(True, False), (True, False)]"
    using dead_run by (elim exE conjE) (rule that)
  then obtain v w where i: "rs_invoked st' = [v, w]" "r_Permanent (iv_Result v)" "\<not> r_OK (iv_Result v)"
    by (auto simp: map_eq_Cons_conv)
  then show ?thesis
    using no_call_after_permanent_failure [OF idle_fresh r(1), of 0 1] r(1) by auto
qed



text \<open>
  C9: A block calls its provider at most once plus its retries, and always ends in a result;
  and however the parallel branches interleave their reservations (\<open>None\<close>) and extra
  consumptions (\<open>Some k\<close>) of the shared budget, at most \<open>MAX_ATTEMPTS\<close> are granted.
\<close>

theorem provider_calls_bounded:
  "length (rs_invoked (snd (execNode env idx node target st))) \<le> length (rs_invoked st) + nat (attempts_of node) \<and>
   (\<exists>run st'. exec_steps (branch_rank node start_branch) env (fst (mk_block env idx node target st)) start_branch
        (snd (mk_block env idx node target st)) = (BDone run, st')) \<and>
   int (fst (ws.grants (newWalkState mx) ops)) \<le> max 0 mx"
  using execNode_calls [of env idx node target st] execNode_done [of node env idx target st]
    ws.grants_le [of "newWalkState mx" ops]
  by (auto simp: newWalkState_def)





text \<open>
  C12: Masking removes every occurrence of every registered secret without an asterisk, and no
  replacement brings one back; the message handed to the log sinks is masked so too.
\<close>

theorem redactor_masks:
  assumes "secret \<in> set secrets" and "star_free secret"
  shows "\<not> Contains (redactor_String secrets s) secret \<and>
     (\<forall>h line r. h_redact h = secrets \<and> emit h tm level rid api msg args = Some (line, r) \<longrightarrow>
        \<not> Contains (rec_Message r) secret)"
  using assms redactor_String_masks emit_record_masked by blast

lemma redactor_masks_witness:
  "\<not> Contains (redactor_String (redactor_Add [] [''topsecret'']) ''key topsecret!'') ''topsecret''"
proof -
  have "redactor_Add [] [''topsecret''] = [''topsecret'']" by code_simp
  then show ?thesis using redactor_masks [of "''topsecret''" "[''topsecret'']"] by (simp add: star_free_def)
qed

text \<open>
  C13: The concurrency limiter keeps its invariant through every acquire, release and resize,
  and under it at most \<open>limit\<close> slots of the current channel are taken.
\<close>

theorem limiter_bound:
  assumes "sl_inv l"
  shows "(\<forall>slot l'. acquire l = Some (slot, l') \<longrightarrow> sl_inv l') \<and> sl_inv (release slot l) \<and>
     sl_inv (setLimit n l) \<and> sl_inv (newSemLimiter n) \<and> (0 < sl_limit l \<longrightarrow> int (sl_in_use l) \<le> sl_limit l)"
  using assms acquire_inv release_inv setLimit_inv newSemLimiter_inv sl_in_use_le by blast

lemma limiter_bound_witness: "int (sl_in_use (newSemLimiter 2)) \<le> 2"
proof -
  have "sl_limit (newSemLimiter 2) = 2" by (simp add: newSemLimiter_def setLimitLocked_def)
  then show ?thesis using limiter_bound [OF newSemLimiter_inv [of 2]] by simp
qed



text \<open>
  C15: Whatever the sequence of storage statements and chain requests, run one after the other from an empty
  database: keys stay unique, references resolve, enumerations hold, every stored chain passes
  \<open>ValidateChain\<close>, and at most one chain is active.
\<close>

theorem reachable_state_consistent:
  assumes "reachable_db sv db" "iteration_order (sv_order sv)"
  shows "accounts_ok db \<and> history_tables_ok db \<and> providers_ok db \<and> chains_ok db \<and> chains_valid db \<and> one_active db"
  using system_ok_reachable [OF assms] by (simp add: system_ok_def chain_tables_ok_def)

lemma reachable_state_consistent_witness: "chains_valid chain_db2 \<and> one_active chain_db2 \<and> actives chain_db2 \<noteq> []"
proof -
  have "iteration_order (sv_order demo_server)" by (simp add: demo_server_def id_order_iteration)
  moreover have "actives chain_db2 \<noteq> []" using chain_db_facts(1) by auto
  ultimately show ?thesis using reachable_state_consistent [OF chain_db_reachable(2)] by blast
qed

text \<open>
  C16: A search started on a chain of a reachable database returns a result under every scheduling of
  its branches, with no more provider calls than \<open>MAX_ATTEMPTS\<close>.
\<close>

theorem stored_search_returns:
  assumes "reachable_db sv db" "iteration_order (sv_order sv)" "fresh st"
    and "prepare eng (sql_engine_store cipher entries js db) inp st = Inr (env, st1)"
  shows "\<exists>out st2. engine_run env sched st1 = Some (out, st2) \<and>
     int (length (rs_invoked st2)) \<le> run_maxAttempts (env_settings env)"
proof -
  have "max 0 (run_maxAttempts (env_settings env)) = run_maxAttempts (env_settings env)"
    by (simp add: run_maxAttempts_def)
  then show ?thesis
    using search_over_database [OF system_ok_reachable [OF assms(1,2)] assms(3,4), of sched]
    by (force simp: run_ok_def)
qed

lemma stored_search_returns_witness:
  "\<exists>env st1 out st2. prepare demo_engine demo_sql_store demo_input idle_state = Inr (env, st1) \<and>
     engine_run env (\<lambda>_ _. 0) st1 = Some (out, st2)"
proof -
  obtain env st1 where p: "prepare demo_engine demo_sql_store demo_input idle_state = Inr (env, st1)"
    using demo_search_prepared by blast
  have "iteration_order (sv_order demo_server)" by (simp add: demo_server_def id_order_iteration)
  from stored_search_returns [OF chain_db_reachable(2) this idle_fresh p [unfolded demo_sql_store_def], of "\<lambda>_ _. 0"]
  show ?thesis using p by blast
qed

text \<open>
  C17: The administrator cannot lose the default chain: from a consistent database with an active chain,
  every sequence of requests leads to a database with an active chain.
\<close>

theorem default_chain_never_lost:
  assumes "reachable_db sv db" "actives db \<noteq> []" "iteration_order (sv_order sv)" "(admin_step sv)\<^sup>*\<^sup>* db db'"
  shows "actives db' \<noteq> []"
  using active_kept_forever [OF assms(4,2) system_ok_reachable [OF assms(1,3)] assms(3)] by blast

lemma default_chain_never_lost_witness:
  "actives (snd (handleDeleteChain demo_server demo_req ''id0'' chain_db2)) \<noteq> []"
proof -
  have "actives chain_db2 \<noteq> []" "iteration_order (sv_order demo_server)"
    using chain_db_facts(1) by (auto simp: demo_server_def id_order_iteration)
  then show ?thesis
    using default_chain_never_lost [OF chain_db_reachable(2)] admin_step.delete_step by (metis r_into_rtranclp)
qed

text \<open>
  C18: Within a calendar period, the requests of a user that the guard lets through are at most what is
  left of the user's quota, whichever keys and sessions they use, and whatever other requests come
  between them.
\<close>

theorem quota_admissions_bounded:
  assumes "guard_run sv webhook rs st = (outs, st')"
    and "t_down (gs_db st) = None" "cache_coherent (gs_db st) (gs_cache st)"
    and "quota_in_force (gs_db st) u = Some q" "u \<noteq> []" "quotaResetAt q now = Some reset"
    and "\<And>r ck. (r, ck) \<in> set rs \<Longrightarrow> now \<le> ck_user ck \<and> ck_user ck < reset"
  shows "int (forwarded_for u rs outs) \<le> max 0 (uq_Requests q - usage_of (gs_db st) (''user:'' @ u) (quotaPeriodKey q now))"
proof -
  have "quotaPeriodKey q (ck_user ck) = quotaPeriodKey q now" if "(r, ck) \<in> set rs" for r ck
    using quota_period(2) [OF assms(6)] assms(7) [OF that] by blast
  then show ?thesis
    using guard_run_bound [OF assms(1) _ assms(5) quotaResetAt_not_rolling [OF assms(6)], of now] assms(2-4)
    by (auto simp: guard_ok_def period_usage_def)
qed

lemma quota_admissions_bounded_witness:
  "int (forwarded_for ''u1'' [(demo_req, demo_clocks 5), (demo_req, demo_clocks 9)]
      (fst (guard_run demo_server [] [(demo_req, demo_clocks 5), (demo_req, demo_clocks 9)] demo_guard))) \<le> 1"
proof -
  let ?rs = "[(demo_req, demo_clocks 5), (demo_req, demo_clocks 9)]"
  have "usage_of (gs_db demo_guard) (''user:'' @ ''u1'') (quotaPeriodKey demo_quota 0) = 0"
    by (simp add: usage_of_def demo_guard_def demo_db_def empty_db_def)
  moreover have "int (forwarded_for ''u1'' ?rs (fst (guard_run demo_server [] ?rs demo_guard))) \<le>
      max 0 (uq_Requests demo_quota - usage_of (gs_db demo_guard) (''user:'' @ ''u1'') (quotaPeriodKey demo_quota 0))"
    by (rule quota_admissions_bounded [OF prod.collapse [symmetric] demo_guard_ok _ demo_quota_reset])
      (auto simp: demo_clocks_def ns_defs)
  ultimately show ?thesis by (simp add: demo_quota_def)
qed

text \<open>
  C19: Days, ISO weeks and months, shifted by the quota's offset: the announced reset lies in the
  future, the key of the counter is constant up to it, and the reset starts another counter.
\<close>

theorem quota_period_boundaries:
  assumes "quotaResetAt q now = Some reset"
  shows "now < reset \<and>
     (\<forall>t. now \<le> t \<and> t < reset \<longrightarrow> quotaPeriodKey q t = quotaPeriodKey q now \<and> quotaResetAt q t = Some reset) \<and>
     (printable (period_start q now) \<and> printable (period_start q reset) \<longrightarrow>
        quotaPeriodKey q reset \<noteq> quotaPeriodKey q now)"
  using quota_period [OF assms] by blast

lemma quota_period_boundaries_witness:
  "quotaPeriodKey demo_quota 86400000000000 = quotaPeriodKey demo_quota 0 \<and>
   quotaPeriodKey demo_quota (31 * ns_per_day - 60 * ns_per_min) \<noteq> quotaPeriodKey demo_quota 0"
proof -
  have "(0::int) \<le> 86400000000000 \<and> (86400000000000::int) < 31 * ns_per_day - 60 * ns_per_min" by (simp add: ns_defs)
  then show ?thesis using quota_period_boundaries [OF demo_quota_reset] demo_printable by blast
qed

text \<open>
  C20: Changing a quota keeps every stored row well formed, whatever the payload, and leaves the cache
  such that the next lookup of any user answers with what is stored.
\<close>

theorem stored_quota_in_force:
  assumes "quotas_wf db" "cache_coherent db c" "handlePutUserQuota sv r now u body db c = (res, db', c')" "v \<noteq> []"
  shows "quotas_wf db' \<and> cache_coherent db' c' \<and> fst (quota_get v t t' db' c') = quota_in_force db' v"
proof -
  have "cache_coherent db' c'" using handlePutUserQuota_coherent [OF assms(2,3)] .
  then show ?thesis
    using handlePutUserQuota_wf [OF assms(1,3)] quota_get_coherent [of db' c' v t t'] assms(4)
    by (cases "quota_get v t t' db' c'") auto
qed

lemma stored_quota_in_force_witness:
  "quotas_wf (fst (snd (handlePutUserQuota demo_server demo_req 0 ''u1''
     (Decoded \<lparr>qp_Requests = Some 7, qp_Period = None, qp_WindowHours = None, qp_TzOffset = None\<rparr>) (gs_db demo_guard) newQuotaCache)))"
proof -
  have w: "quotas_wf (gs_db demo_guard)"
    by (simp add: quotas_wf_def demo_guard_def quota_wf_def demo_quota_def quota_periods_def)
  have c: "cache_coherent (gs_db demo_guard) newQuotaCache" by (simp add: cache_coherent_def newQuotaCache_def)
  show ?thesis using stored_quota_in_force [OF w c, of demo_server demo_req 0 "''u1''" _ _ _ _ "''u1''"] by (metis prod.collapse list.distinct(1))
qed



text \<open>
  C22: A key that was just handed out with the read scope signs its owner in; the session cookie it is
  answered with is accepted as that owner, with the owner's role, at every moment of its lifetime.
\<close>

theorem sign_in_lasts:
  assumes "handleCreateKey sv r g body db = (Reply 201 (key, plaintext), db')" "good_keygen g" "accounts_ok db'"
    and "GetUser (k_UserID key) db = Inr u" "\<not> u_Disabled u" "a_Store a = sql_auth" "a_kdf a = kg_kdf g"
    and "''read'' \<in> scopes_of (k_Scopes key)" "le_token le = Some t" "t \<noteq> []" "le_csrf le = Some c"
    and "\<not> has s_ID (le_uuid le) (t_sessions db)" "\<not> has s_TokenHash (HashToken (a_sha256 a) (hex_encode t)) (t_sessions db)"
    and "printable (now + SessionTTL)" "later \<le> now + SessionTTL"
  shows "\<exists>scopes db'' i. handleLogin a r' le now (Decoded plaintext) db' = (Reply 200 (u, scopes, hex_encode t), db'') \<and>
     fst (resolveSession a (hex_encode t) later db'') = Inr i \<and> i_User i = Some u \<and>
     (IsAdmin (Some i) \<longleftrightarrow> u_Role u = ''admin'')"
proof -
  obtain scopes db'' where l: "handleLogin a r' le now (Decoded plaintext) db' = (Reply 200 (u, scopes, hex_encode t), db'')"
    using created_key_login [OF assms(1,2,4-9,11-13)] by blast
  have "hex_encode t \<noteq> []" using assms(10) hex_encode_Nil by simp
  from login_then_browse [OF l assms(3,6) this assms(14,15)] show ?thesis using l by blast
qed

lemma sign_in_lasts_witness:
  "\<exists>db'' i. fst (resolveSession (demo_auth True) (hex_encode ''tok'') 60000000000 db'') = Inr i \<and> i_User i = Some demo_user \<and> IsAdmin (Some i)"
proof -
  let ?k = "created_key (demo_created ''admin'')"
  have u: "GetUser (k_UserID ?k) demo_db = Inr demo_user" "\<not> u_Disabled demo_user" "u_Role demo_user = ''admin''"
    using demo_created_ok(2) GetUser_demo by (simp_all add: demo_user_def)
  have a: "a_Store (demo_auth True) = sql_auth" "a_kdf (demo_auth True) = kg_kdf demo_keygen"
    by (simp_all add: demo_auth_def demo_keygen_def)
  have e: "le_token demo_login_env = Some ''tok''" "''tok'' \<noteq> []" "le_csrf demo_login_env = Some ''csrf''"
    by (simp_all add: demo_login_env_def)
  have n: "\<not> has s_ID (le_uuid demo_login_env) (t_sessions demo_db)"
    "\<not> has s_TokenHash (HashToken (a_sha256 (demo_auth True)) (hex_encode ''tok'')) (t_sessions demo_db)"
    by (simp_all add: demo_db_def empty_db_def)
  have p: "printable (0 + SessionTTL)" "60000000000 \<le> 0 + SessionTTL" by code_simp+
  show ?thesis
    using sign_in_lasts [OF demo_admin_key demo_keygen_good demo_admin_key_ok(1) u(1,2) a demo_admin_key_ok(2) e n p] u(3) by blast
qed

text \<open>
  C23: Once the revocation of a key has been answered, no token that carries its prefix resolves.
\<close>

theorem revoked_key_never_resolves:
  assumes "accounts_ok db" "handleRevokeKey sv r i db = (Reply 200 (), db')" "rx_now r \<noteq> []"
    and "k \<in> set (t_keys db)" "k_ID k = i" "ParseKey token = Some (kind, k_Prefix k, secret)" "a_Store a = sql_auth"
  shows "fst (resolveKey a token now db') = Inl ErrInvalidKey"
  by (rule revoked_key_refused [OF assms])

lemma revoked_key_never_resolves_witness:
  "fst (resolveKey (demo_auth True) ''seek_admin_616263_ff'' 0
     (snd (handleRevokeKey demo_server demo_req ''id0'' (snd (demo_created ''admin''))))) = Inl ErrInvalidKey"
proof -
  let ?db = "snd (demo_created ''admin'')" and ?k = "created_key (demo_created ''admin'')"
  have "fst (handleRevokeKey demo_server demo_req ''id0'' ?db) = Reply 200 ()"
    using demo_created_tables demo_key_facts
    by (simp add: handleRevokeKey_def ListAPIKeys_def run_query_def order_by_desc_def UpdateAPIKey_def run_exec_def)
  then have r: "handleRevokeKey demo_server demo_req ''id0'' ?db = (Reply 200 (), snd (handleRevokeKey demo_server demo_req ''id0'' ?db))"
    by (metis prod.collapse)
  have k: "?k \<in> set (t_keys ?db)" "k_ID ?k = ''id0''" "k_Prefix ?k = ''616263''" "rx_now demo_req \<noteq> []"
    using demo_created_tables(1) demo_key_facts by (simp_all add: demo_req_def)
  have p: "ParseKey ''seek_admin_616263_ff'' = Some (KindAdmin, k_Prefix ?k, ''ff'')" unfolding k(3) by code_simp
  show ?thesis
    by (rule revoked_key_never_resolves [OF demo_admin_key_ok(1) r k(4) k(1,2) p]) (simp add: demo_auth_def)
qed



text \<open>
  C25: Setup creates the account and its key in two statements. When the key fails, the account stays: the
  caller gets an error and no key, and from then on setup answers that it has been completed.
\<close>

theorem setup_failure_locks_out:
  assumes "t_down db = None" "CountAdmins db = Inr 0" "validSetupToken token (TrimSpace t)" "new_key g True = None"
    and "\<not> has u_ID (rx_ids r 0) (t_users db)" "\<not> has u_Name ''admin'' (t_users db)" "TrimSpace n = []"
  shows "\<exists>db'. handleSetup kv r g (Decoded (t, n)) db token s = (key_error, db', token, s) \<and> t_keys db' = t_keys db \<and>
     fst (handleSetup kv r' g' body' db' token s) = Failure 409 ''already_setup'' ''setup has already been completed''"
  by (rule setup_lockout [OF assms])

lemma setup_failure_locks_out_witness:
  "\<exists>db'. fst (handleSetup (settings_kv None None) demo_req demo_keygen (Decoded (''t'', [])) db' ''t'' \<lparr>db_settings = [], db_fails = None\<rparr>)
     = Failure 409 ''already_setup'' ''setup has already been completed'' \<and> t_keys db' = []"
proof -
  let ?g = "demo_keygen\<lparr>kg_salt := None\<rparr>" and ?s = "\<lparr>db_settings = [], db_fails = None\<rparr>"
  have h: "t_down empty_db = None" "CountAdmins empty_db = Inr 0" "validSetupToken ''t'' (TrimSpace ''t'')" "new_key ?g True = None"
    "\<not> has u_ID (rx_ids demo_req 0) (t_users empty_db)" "\<not> has u_Name ''admin'' (t_users empty_db)" "TrimSpace ([] :: string) = []"
    by code_simp+
  obtain db' where "handleSetup (settings_kv None None) demo_req ?g (Decoded (''t'', [])) empty_db ''t'' ?s = (key_error, db', ''t'', ?s)"
    "t_keys db' = t_keys empty_db"
    "fst (handleSetup (settings_kv None None) demo_req demo_keygen (Decoded (''t'', [])) db' ''t'' ?s) =
      Failure 409 ''already_setup'' ''setup has already been completed''"
    using setup_failure_locks_out [OF h, of "settings_kv None None" ?s demo_req demo_keygen "Decoded (''t'', [])"] by blast
  then show ?thesis by (auto simp: empty_db_def)
qed

text \<open>
  C26: Whatever a client puts in front of the header, the address that keys the limits and the audit is
  the last hop that is not a trusted proxy; when the peer is not trusted, it is the peer.
\<close>

theorem forwarded_client_found:
  assumes "front = [] \<or> (\<exists>f. front = f @ '','')"
    and "hr_Header r ''X-Forwarded-For'' = front @ Join (client # hops) '',''"
    and "\<And>h. h \<in> set (client # hops) \<Longrightarrow> CHR '','' \<notin> set h"
    and "ParseIP (TrimSpace client) \<noteq> None" "\<not> isTrusted nets (TrimSpace client)" "TrimSpace client \<noteq> []"
    and "\<And>h. h \<in> set hops \<Longrightarrow> isTrusted nets (TrimSpace h)"
  shows "ClientIP (Some nets) r =
     (if isTrusted nets (hostOnly (hr_RemoteAddr r)) then TrimSpace client else hostOnly (hr_RemoteAddr r))"
  using ClientIP_forwarded [OF _ assms] ClientIP_untrusted [of "Some nets" r] by auto

lemma forwarded_client_found_witness:
  "ClientIP (Some (NewClientIPResolver [''10.0.0.0/8'']))
     (demo_http\<lparr>hr_Header := (\<lambda>h. if h = ''X-Forwarded-For'' then ''1.1.1.1,203.0.113.7,10.1.1.1'' else [])\<rparr>) = ''203.0.113.7''"
proof -
  let ?nets = "NewClientIPResolver [''10.0.0.0/8'']"
  let ?r = "demo_http\<lparr>hr_Header := (\<lambda>h. if h = ''X-Forwarded-For'' then ''1.1.1.1,203.0.113.7,10.1.1.1'' else [])\<rparr>"
  have h: "hr_Header ?r ''X-Forwarded-For'' = ''1.1.1.1,'' @ Join [''203.0.113.7'', ''10.1.1.1''] '',''" by simp
  have f: "''1.1.1.1,'' = ([] :: string) \<or> (\<exists>f. ''1.1.1.1,'' = f @ '','')" by (rule disjI2, rule exI [of _ "''1.1.1.1''"]) simp
  have p: "ParseIP (TrimSpace ''203.0.113.7'') \<noteq> None" "\<not> isTrusted ?nets (TrimSpace ''203.0.113.7'')"
    "TrimSpace ''203.0.113.7'' \<noteq> []" "isTrusted ?nets (TrimSpace ''10.1.1.1'')" "isTrusted ?nets (hostOnly (hr_RemoteAddr ?r))"
    by code_simp+
  have "ClientIP (Some ?nets) ?r =
     (if isTrusted ?nets (hostOnly (hr_RemoteAddr ?r)) then TrimSpace ''203.0.113.7'' else hostOnly (hr_RemoteAddr ?r))"
    by (rule forwarded_client_found [OF f h _ p(1-3)]) (use p(4) in auto)
  moreover have "TrimSpace ''203.0.113.7'' = ''203.0.113.7''" by code_simp
  ultimately show ?thesis using p(5) by simp
qed



text \<open>
  C28: Without the admin scope, the listing of the history shows requests of the caller's account only, and
  a single request is shown only when it is the caller's.
\<close>

theorem own_history_only:
  assumes "\<not> isAdmin r" "identityUserID r \<noteq> []"
  shows "(\<forall>items count page limit cur w. handleListRequests sv r db = Reply 200 (items, count, page, limit, cur) \<and>
        w \<in> set items \<longrightarrow> rw_UserID w = identityUserID r) \<and>
     (\<forall>i w steps. handleGetRequest r i db = Reply 200 (w, steps) \<longrightarrow> rw_UserID w = identityUserID r)"
  using own_requests_listed [OF _ assms] own_request_read [OF _ assms(1)] by blast

lemma own_history_only_witness:
  "{w. \<exists>i steps. handleGetRequest demo_req i chain_db2 = Reply 200 (w, steps)} \<subseteq> {w. rw_UserID w = ''u1''}"
proof -
  have "\<not> isAdmin demo_req" "identityUserID demo_req \<noteq> []" "identityUserID demo_req = ''u1''"
    by (simp_all add: isAdmin_def demo_req_def user_identity_def IsAdmin_def HasScope_def identityUserID_def demo_user_def)
  then have "\<forall>i w steps. handleGetRequest demo_req i chain_db2 = Reply 200 (w, steps) \<longrightarrow> rw_UserID w = ''u1''"
    using own_history_only [of demo_req demo_server chain_db2] by metis
  then show ?thesis by blast
qed



text \<open>
  C30: Stored credentials survive the JSON encoding, the encryption at rest and the way back, for every
  cipher that opens what it sealed, and without one.
\<close>

theorem provider_secrets_roundtrip:
  assumes "providers_ok db" "t_down db = None" "UpsertProvider (provider_row_of cipher rnd now p params) db = (None, db')"
    and "\<And>a. cipher = Some a \<Longrightarrow> aead_ok a \<and> (\<exists>nonce. rnd = Some nonce \<and> length nonce = ae_NonceSize a)"
    and "distinct (map fst (p_Credentials p))" "distinct (map fst params)"
  shows "\<exists>r. GetProvider (p_ID p) db' = Inr r \<and> scanProvider cipher r = (map_of (p_Credentials p), map_of params)
     \<and> pr_Enabled r = p_Enabled p \<and> pr_Code r = p_Code p"
  by (rule provider_roundtrip [OF assms])

lemma provider_secrets_roundtrip_witness:
  "\<exists>db' r. GetProvider ''p1'' db' = Inr r \<and> fst (scanProvider (Some demo_aead) r) ''api_key'' = Some ''secretkey''"
proof -
  let ?row = "provider_row_of (Some demo_aead) (Some ''n'') ''2024'' demo_provider []"
  let ?db = "snd (UpsertProvider ?row empty_db)"
  have u: "UpsertProvider ?row empty_db = (None, ?db)"
    by (simp add: UpsertProvider_def run_exec_def empty_db_def provider_row_of_def demo_provider_def name_free_def)
  have a: "aead_ok demo_aead \<and> (\<exists>nonce. Some ''n'' = Some nonce \<and> length nonce = ae_NonceSize demo_aead)"
    using demo_aead_ok by (simp add: demo_aead_def)
  have "\<exists>r. GetProvider (p_ID demo_provider) ?db = Inr r \<and>
      scanProvider (Some demo_aead) r = (map_of (p_Credentials demo_provider), map_of [])
      \<and> pr_Enabled r = p_Enabled demo_provider \<and> pr_Code r = p_Code demo_provider"
    by (rule provider_secrets_roundtrip [OF providers_ok_empty _ u]) (use a in \<open>simp_all add: empty_db_def demo_provider_def\<close>)
  then show ?thesis by (force simp: demo_provider_def)
qed







text \<open>
  C34: The drivers range over the map of parameters, whose order Go does not fix. For every provider of the
  catalog the requests sent and the result are the same in every order.
\<close>

theorem parameter_order_irrelevant:
  assumes "sp \<in> set restSpecs" "distinct (map fst ps)" "mset ps = mset ps'"
  shows "Search sp env q c ps w = Search sp env q c ps' w"
  using assms by (rule search_order)

lemma parameter_order_irrelevant_witness:
  "Search spec_brave (answering 200 demo_answer) demo_query [] [(''units'', ''metric''), (''offset'', ''2'')] idle_world =
   Search spec_brave (answering 200 demo_answer) demo_query [] [(''offset'', ''2''), (''units'', ''metric'')] idle_world"
  by (rule parameter_order_irrelevant [OF brave_listed]) simp_all

text \<open>
  C35: A result of the REST driver is permanent, which takes the instance out of the walk, only for a request that
  cannot be built or an answer outside 2xx whose status is fatal, or neither retryable nor a server
  error. Transport errors, unreadable bodies, waits and bodies that are not JSON are never permanent.
\<close>

theorem permanent_failure_causes:
  assumes "Search sp env q c ps w = (Some r, w')" "r_Permanent r"
  shows "(\<exists>e. buildRequest sp env q c ps w = (Inl e, w')) \<or>
    (\<exists>req w1 resp. buildRequest sp env q c ps w = (Inr req, w1) \<and> Do env req w1 = (Answer resp, w') \<and>
       \<not> IsJSONStatus (resp_Code resp) \<and>
       (resp_Code resp \<in> set (fatalHTTP sp ps) \<or> resp_Code resp \<notin> set (retryHTTP sp ps) \<and> resp_Code resp < 500))"
  using assms by (rule search_permanent)

lemma permanent_failure_causes_witness:
  "\<exists>req w1 resp w'. buildRequest spec_brave (answering 403 []) demo_query [] demo_params idle_world = (Inr req, w1) \<and>
     Do (answering 403 []) req w1 = (Answer resp, w') \<and> \<not> IsJSONStatus (resp_Code resp)"
proof -
  obtain w' r where s: "Search spec_brave (answering 403 []) demo_query [] demo_params idle_world = (Some r, w')" "r_Permanent r"
    using brave_search [of 403 "[]" "[]" idle_world] brave_refused by metis
  have "\<And>e. buildRequest spec_brave (answering 403 []) demo_query [] demo_params idle_world \<noteq> (Inl e, w')"
    using brave_built by (metis Inr_Inl_False prod.inject)
  then show ?thesis using permanent_failure_causes [OF s] by blast
qed

text \<open>
  C36: A provider of the catalog reports success only for an answer in 2xx. The result then has no error and is
  not permanent, every row has a link, and its kind tells whether there are rows.
\<close>

theorem successful_search_sound:
  assumes "sp \<in> set restSpecs" "Search sp env q c ps w = (Some r, w')" "r_OK r"
  shows "IsJSONStatus (r_HTTPStatus r) \<and> r_Error r = [] \<and> \<not> r_Permanent r \<and> linked (r_Rows r) \<and>
    r_Kind r = (if r_Rows r = [] then KindEmpty else KindOK)"
  using assms by (rule search_ok)

lemma successful_search_sound_witness:
  "\<exists>r w'. Search spec_brave (answering 200 demo_answer) demo_query [] demo_params idle_world = (Some r, w') \<and>
     r_Kind r = KindOK \<and> IsJSONStatus (r_HTTPStatus r)"
proof -
  obtain w' r where s: "Search spec_brave (answering 200 demo_answer) demo_query [] demo_params idle_world = (Some r, w')"
      and r: "r_OK r" "r_Rows r = [mk_row ''https://go.dev'' [] []]"
    using brave_search [of 200 demo_answer "[]" idle_world] brave_found by metis
  show ?thesis using successful_search_sound [OF brave_listed s r(1)] s r(2) by auto
qed



text \<open>
  C38: Among the providers of the catalog other than OpenAlex (which allocates as much as a position named in
  the answer asks for), reading the rows panics for You.com alone, and there exactly on an answer
  whose results are missing or not an object. Nothing recovers the panic.
\<close>

theorem extraction_panics:
  assumes "sp \<in> set restSpecs" "sp_code sp \<noteq> ''openalex''"
  shows "extractRows sp data ps = None \<longleftrightarrow> sp_code sp = ''youcom'' \<and> as_object (obj_get data ''results'') = None"
  using assms by (rule catalog_panics_exactly)

lemma extraction_panics_witness: "extractRows spec_youcom [(''results'', JNull)] [] = None"
proof -
  have c: "sp_code spec_youcom = ''youcom''" "sp_code spec_youcom \<noteq> ''openalex''" by (simp_all add: spec_youcom_def blank_spec_def)
  have "spec_youcom \<in> set restSpecs" by (simp add: restSpecs_def)
  then show ?thesis using extraction_panics [OF _ c(2)] c(1) by (simp add: obj_get_def)
qed

text \<open>
  C39: The results of the dedicated drivers are honest: a success had an answer in 2xx, has no error, is not
  permanent and every row has a link; a failure has no rows and no kind of success.
\<close>

theorem dedicated_drivers_honest:
  assumes "(code, d) \<in> set dedicated_drivers"
  shows "honest (fst (d env q c ps w))"
  using assms by (rule dedicated_honest)

lemma dedicated_drivers_honest_witness: "honest (fst (serpbase_Search (answering 200 demo_answer) demo_query [] [] idle_world))"
  by (rule dedicated_drivers_honest [of "''serpbase''"]) (simp add: dedicated_drivers_def)

text \<open>
  C40: Whatever sequence of requests creates, edits, patches and deletes provider instances and proxies, every
  instance keeps a registered driver, a valid base URL, its required parameters and a proxy that
  exists, and no two names differ in case alone. Deleting a proxy keeps this because its
  references are cleared first.
\<close>

theorem provider_tables_stay_fit:
  assumes "instances_ok reg db" "list_all draws_id ops"
  shows "instances_ok reg (fold (run_op reg cipher sv) ops db)"
  using assms by (rule run_ops_keep)

lemma provider_tables_stay_fit_witness: "instances_ok demo_registry (fold (run_op demo_registry None demo_server) demo_ops empty_db)"
  by (rule provider_tables_stay_fit [OF instances_ok_empty demo_ops_draw])

end
